(* ===== verification/Prelude.thy ===== *)
theory Prelude
  imports Main "HOL-Library.Word"
begin

text \<open>
  Shared vocabulary of the development: bytes and byte strings, the errors the C++ code can
  raise, results that carry such an error, the little-endian image of a machine word, and the
  way a sequence of C++ statements that advance a position is run.

  A \<^verbatim>\<open>std::string\<close> of the code is a list of bytes; a \<^verbatim>\<open>double\<close> is its 64-bit pattern, because
  the modelled code only copies doubles (\<^verbatim>\<open>bitwise_cast\<close>).  Sizes and positions are natural
  numbers: every buffer of the program is far below \<open>2 ^ 31\<close> bytes (the slicer refuses bodies
  above 200 MB), so \<^verbatim>\<open>int\<close> and \<^verbatim>\<open>size_t\<close> positions do not overflow; where a width does matter
  (length prefixes, returned counters, flags) the width is kept as a word or written out.
\<close>

named_theorems codec_simps "evaluation rules of field writers and readers"

unbundle bit_operations_syntax

section \<open>Bytes, errors, results\<close>

type_synonym byte = "8 word"
type_synonym bytes = "byte list"
type_synonym double = "64 word"

text \<open>
  What a call can end with instead of a value: the code's own exception, the
  \<^verbatim>\<open>std::out_of_range\<close> of \<^verbatim>\<open>std::string::insert\<close>, a failed \<^verbatim>\<open>assert\<close>, or a read outside
  the buffer, which C++ leaves undefined.
\<close>

datatype perror =
    CPacketException string
  | StdOutOfRange
  | AssertFailure
  | BufferOverread

type_synonym 'a result = "perror + 'a"

definition bindE :: "'a result \<Rightarrow> ('a \<Rightarrow> 'b result) \<Rightarrow> 'b result" where
  "bindE m k = (case m of Inl e \<Rightarrow> Inl e | Inr a \<Rightarrow> k a)"

lemma bindE_Inl [simp]: "bindE (Inl e) k = Inl e"
  by (simp add: bindE_def)

lemma bindE_Inr [simp]: "bindE (Inr a) k = k a"
  by (simp add: bindE_def)

lemma bindE_eq_Inr: "bindE m k = Inr b \<longleftrightarrow> (\<exists>a. m = Inr a \<and> k a = Inr b)"
  by (cases m) simp_all

lemma bindE_eq_Inl: "bindE m k = Inl e \<longleftrightarrow> m = Inl e \<or> (\<exists>a. m = Inr a \<and> k a = Inl e)"
  by (cases m) simp_all

section \<open>The memory image of a word\<close>

text \<open>
  \<open>le_enc n w\<close> are the \<open>n\<close> low bytes of \<open>w\<close>, least significant first: what
  \<^verbatim>\<open>(const char*)&net\<close> shows on the little-endian machines the program is built for.
  \<^verbatim>\<open>htons\<close> and \<^verbatim>\<open>htonl\<close> there reverse the bytes.
\<close>

fun le_enc :: "nat \<Rightarrow> 'a::len word \<Rightarrow> bytes" where
  "le_enc 0 w = []"
| "le_enc (Suc n) w = ucast w # le_enc n (drop_bit 8 w)"

fun le_dec :: "bytes \<Rightarrow> 'a::len word" where
  "le_dec [] = 0"
| "le_dec (b # bs) = ucast b OR push_bit 8 (le_dec bs)"

lemma length_le_enc [simp]: "length (le_enc n w) = n"
  by (induction n arbitrary: w) simp_all

lemma le_dec_enc_take: "le_dec (le_enc n (w :: 'a::len word)) = take_bit (8 * n) w"
proof (induction n arbitrary: w)
  case 0
  show ?case by simp
next
  case (Suc n)
  have "ucast (ucast w :: byte) OR push_bit 8 (take_bit (8 * n) (drop_bit 8 w))
      = take_bit (8 * Suc n) w"
    by (rule bit_word_eqI) (auto simp: bit_simps)
  with Suc.IH show ?case by simp
qed

lemma le_dec_enc [simp]:
  "LENGTH('a) \<le> 8 * n \<Longrightarrow> le_dec (le_enc n (w :: 'a::len word)) = w"
  by (simp add: le_dec_enc_take take_bit_word_eq_self)

lemma le_enc_cong:
  assumes "\<And>i. i < 8 * n \<Longrightarrow> bit x i = bit (y :: 'a::len word) i"
  shows "le_enc n x = le_enc n y"
  using assms
proof (induction n arbitrary: x y)
  case 0
  show ?case by simp
next
  case (Suc n)
  have "ucast x = (ucast y :: byte)"
    by (rule bit_word_eqI) (simp add: bit_ucast_iff Suc.prems)
  moreover have "le_enc n (drop_bit 8 x) = le_enc n (drop_bit 8 y)"
    by (rule Suc.IH) (simp add: bit_drop_bit_eq Suc.prems)
  ultimately show ?case by simp
qed

lemma le_enc_dec:
  "length bs = n \<Longrightarrow> 8 * n \<le> LENGTH('a) \<Longrightarrow> le_enc n (le_dec bs :: 'a::len word) = bs"
proof (induction bs arbitrary: n)
  case Nil
  then show ?case by simp
next
  case (Cons b bs)
  then obtain m where n: "n = Suc m" and m: "length bs = m" by (cases n) auto
  have len: "8 + 8 * m \<le> LENGTH('a)" using Cons.prems(2) n by simp
  let ?w = "le_dec bs :: 'a word"
  let ?v = "ucast b OR push_bit 8 ?w"
  have lo: "ucast ?v = b"
    using len by (intro bit_word_eqI) (auto simp: bit_simps)
  have "le_enc m (drop_bit 8 ?v) = le_enc m ?w"
    using len by (intro le_enc_cong) (auto simp: bit_simps dest: bit_imp_le_length)
  also have "\<dots> = bs"
    using Cons.IH [OF m] len by simp
  finally show ?case using lo n by simp
qed

lemma unat_byte_le: "unat (w :: byte) \<le> 255"
  using unsigned_less [of w, where ?'a = nat] by simp

lemma unat_of_nat16: "n < 65536 \<Longrightarrow> unat (of_nat n :: 16 word) = n"
  by (simp add: unat_of_nat take_bit_eq_mod)

lemma unat_add16:
  "unat (h :: 16 word) + n < 65536 \<Longrightarrow> unat (h + of_nat n) = unat h + n"
  "unat h + numeral k < (65536 :: nat) \<Longrightarrow> unat (h + numeral k) = unat h + numeral k"
  "unat h + 1 < (65536 :: nat) \<Longrightarrow> unat (h + 1) = unat h + 1"
proof -
  show 1: "unat (h + of_nat n) = unat h + n" if "unat h + n < 65536" for n
    using that by (simp add: unat_word_ariths unat_of_nat take_bit_eq_mod)
  show "unat h + numeral k < (65536 :: nat) \<Longrightarrow> unat (h + numeral k) = unat h + numeral k"
    using 1 [of "numeral k"] by simp
  show "unat h + 1 < (65536 :: nat) \<Longrightarrow> unat (h + 1) = unat h + 1"
    using 1 [of 1] by simp
qed

section \<open>Lists\<close>

lemma take_drop_append_length [simp]:
  "take (length a) (drop (length p) (p @ a @ q)) = a"
  by simp

lemma drop_length_add [simp]: "drop (length p + n) (p @ q) = drop n q"
  by simp

section \<open>Sequences of statements that advance a position\<close>

text \<open>
  The serialisers are sequences of statements \<^verbatim>\<open>pos += writeX( buf, pos, ... )\<close>.  The state of
  such a sequence is the buffer and \<^verbatim>\<open>pos\<close>; an exception ends it.
\<close>

type_synonym wstmt = "bytes \<times> nat \<Rightarrow> (bytes \<times> nat) result"

definition wr :: "(bytes \<Rightarrow> nat \<Rightarrow> (bytes \<times> nat) result) \<Rightarrow> wstmt" where
  "wr f = (\<lambda>(buf, pos). bindE (f buf pos) (\<lambda>(buf', n). Inr (buf', pos + n)))"

fun run_writes :: "wstmt list \<Rightarrow> bytes \<times> nat \<Rightarrow> (bytes \<times> nat) result" where
  "run_writes [] st = Inr st"
| "run_writes (s # ss) st = bindE (s st) (run_writes ss)"

lemma run_writes_append:
  "run_writes (xs @ ys) st = bindE (run_writes xs st) (run_writes ys)"
proof (induction xs arbitrary: st)
  case Nil
  show ?case by simp
next
  case (Cons x xs)
  then show ?case by (cases "x st") simp_all
qed

text \<open>
  The parsers are sequences of statements \<^verbatim>\<open>pos += readX( data, pos, field )\<close>.  The state is the
  object whose fields are filled (or the reference arguments) and \<^verbatim>\<open>pos\<close>.  A statement that
  throws leaves \<^verbatim>\<open>pos\<close> alone, but what it and the statements before it have stored stays
  stored, so the outcome of a throw carries the object too.
\<close>

datatype 's outcome = Done 's nat | Thrown perror 's

type_synonym 's rstmt = "bytes \<Rightarrow> 's \<Rightarrow> nat \<Rightarrow> 's outcome"

fun run_reads :: "'s rstmt list \<Rightarrow> 's rstmt" where
  "run_reads [] data s pos = Done s pos"
| "run_reads (st # sts) data s pos =
     (case st data s pos of
        Done s' pos' \<Rightarrow> run_reads sts data s' pos'
      | Thrown e s' \<Rightarrow> Thrown e s')"

definition rs :: "(bytes \<Rightarrow> nat \<Rightarrow> ('a \<times> nat) result) \<Rightarrow> ('a \<Rightarrow> 's \<Rightarrow> 's) \<Rightarrow> 's rstmt" where
  "rs f upd data s pos =
     (case f data pos of Inr (v, n) \<Rightarrow> Done (upd v s) (pos + n) | Inl e \<Rightarrow> Thrown e s)"

lemma run_reads_append:
  "run_reads (xs @ ys) data s pos =
     (case run_reads xs data s pos of
        Done s' pos' \<Rightarrow> run_reads ys data s' pos'
      | Thrown e s' \<Rightarrow> Thrown e s')"
  by (induction xs arbitrary: s pos) (auto split: outcome.splits)

text \<open>
  The \<^verbatim>\<open>try { ... } catch(...) { return false; } return true;\<close> around such a sequence, with the
  final object and position.
\<close>

fun caught :: "'s outcome \<Rightarrow> bool \<times> 's" where
  "caught (Done s pos) = (True, s)"
| "caught (Thrown e s) = (False, s)"

text \<open>
  Reading is relative to the position: a statement behaves on \<open>pre @ data\<close> at
  \<open>length pre + pos\<close> as on \<open>data\<close> at \<open>pos\<close>, up to the shift of the final position.
\<close>

fun shift :: "nat \<Rightarrow> 's outcome \<Rightarrow> 's outcome" where
  "shift k (Done s pos) = Done s (k + pos)"
| "shift k (Thrown e s) = Thrown e s"

definition positional :: "'s rstmt \<Rightarrow> bool" where
  "positional st \<longleftrightarrow>
     (\<forall>pre data s pos. st (pre @ data) s (length pre + pos) = shift (length pre) (st data s pos))"

lemma positionalD:
  "positional st \<Longrightarrow> st (pre @ data) s (length pre + pos) = shift (length pre) (st data s pos)"
  by (simp add: positional_def)

lemma positionalD0:
  "positional st \<Longrightarrow> st (pre @ data) s (length pre) = shift (length pre) (st data s 0)"
  using positionalD [of st pre data s 0] by simp

lemma shift_shift [simp]: "shift j (shift k x) = shift (j + k) x"
  by (cases x) simp_all

lemma shift_zero [simp]: "shift 0 x = x"
  by (cases x) simp_all

lemma caught_shift [simp]: "caught (shift k x) = caught x"
  by (cases x) simp_all

lemma shift_eq_Done: "shift k x = Done s p \<longleftrightarrow> (\<exists>q. x = Done s q \<and> p = k + q)"
  by (cases x) auto

lemma positional_run_reads [intro]:
  assumes "\<forall>st \<in> set sts. positional st"
  shows "positional (run_reads sts)"
  unfolding positional_def
proof (intro allI)
  fix pre data s pos
  show "run_reads sts (pre @ data) s (length pre + pos)
      = shift (length pre) (run_reads sts data s pos)"
    using assms
  proof (induction sts arbitrary: s pos)
    case Nil
    show ?case by simp
  next
    case (Cons st sts)
    then have "st (pre @ data) s (length pre + pos) = shift (length pre) (st data s pos)"
      by (simp add: positionalD)
    with Cons show ?case by (cases "st data s pos") simp_all
  qed
qed

text \<open>
  The deserialisers have the shape \<^verbatim>\<open>int pos = readPos ? *readPos : 0; ...; *readPos = pos;
  return true\<close> inside a catch-all that returns false: the flag, the object, and \<^verbatim>\<open>*readPos\<close>, which
  a failure leaves alone.
\<close>

definition try_reads :: "'s rstmt list \<Rightarrow> bytes \<Rightarrow> nat \<Rightarrow> 's \<Rightarrow> bool \<times> 's \<times> nat" where
  "try_reads sts data pos s =
     (case run_reads sts data s pos of
        Done s' pos' \<Rightarrow> (True, s', pos')
      | Thrown e s' \<Rightarrow> (False, s', pos))"

lemma try_reads_shift:
  assumes "\<forall>st \<in> set sts. positional st"
  shows "try_reads sts (pre @ d) (length pre + p) s =
    (case try_reads sts d p s of (b, s', p') \<Rightarrow> (b, s', length pre + p'))"
  using positionalD [OF positional_run_reads [OF assms], of pre d s p]
  by (cases "run_reads sts d s p") (simp_all add: try_reads_def)

text \<open>A statement that starts inside the buffer stays inside it and never reads outside.\<close>

definition bounded :: "'s rstmt \<Rightarrow> bool" where
  "bounded st \<longleftrightarrow> (\<forall>d s p. p \<le> length d \<longrightarrow>
     (case st d s p of
        Done s' p' \<Rightarrow> p \<le> p' \<and> p' \<le> length d
      | Thrown e s' \<Rightarrow> e \<noteq> BufferOverread))"

lemma boundedD:
  "bounded st \<Longrightarrow> p \<le> length d \<Longrightarrow> st d s p = Done s' p' \<Longrightarrow> p \<le> p' \<and> p' \<le> length d"
  "bounded st \<Longrightarrow> p \<le> length d \<Longrightarrow> st d s p = Thrown e s' \<Longrightarrow> e \<noteq> BufferOverread"
proof -
  assume *: "bounded st" "p \<le> length d"
  then have **: "case st d s p of Done s' p' \<Rightarrow> p \<le> p' \<and> p' \<le> length d
      | Thrown e s' \<Rightarrow> e \<noteq> BufferOverread"
    by (simp add: bounded_def)
  then show "st d s p = Done s' p' \<Longrightarrow> p \<le> p' \<and> p' \<le> length d" by simp
  from ** show "st d s p = Thrown e s' \<Longrightarrow> e \<noteq> BufferOverread" by simp
qed

lemma bounded_run_reads [intro]:
  assumes "\<forall>st \<in> set sts. bounded st"
  shows "bounded (run_reads sts)"
proof -
  have "p \<le> length d \<Longrightarrow> (case run_reads sts d s p of
      Done s' p' \<Rightarrow> p \<le> p' \<and> p' \<le> length d | Thrown e s' \<Rightarrow> e \<noteq> BufferOverread)" for d s p
    using assms
  proof (induction sts arbitrary: s p)
    case Nil
    then show ?case by simp
  next
    case (Cons st sts)
    show ?case
    proof (cases "st d s p")
      case (Done s1 p1)
      with Cons.prems boundedD(1) [of st p d s s1 p1] have p1: "p \<le> p1" "p1 \<le> length d" by auto
      with Cons.IH [OF p1(2), of s1] Cons.prems(2) Done show ?thesis
        by (auto simp: run_reads.simps(2) split: outcome.splits)
    next
      case (Thrown e s1)
      with Cons.prems boundedD(2) [of st p d s e s1] show ?thesis
        by (simp add: run_reads.simps(2))
    qed
  qed
  then show ?thesis by (simp add: bounded_def)
qed

section \<open>Methods that change an object and may throw\<close>

text \<open>
  A method of an object with state \<open>'s\<close> returns its result, or the error it throws, and the
  object as it is left: what was stored before the throw stays stored.
\<close>

type_synonym ('s, 'a) meth = "'s \<Rightarrow> 'a result \<times> 's"

definition returnS :: "'a \<Rightarrow> ('s, 'a) meth" where
  "returnS a s = (Inr a, s)"

definition throwS :: "perror \<Rightarrow> ('s, 'a) meth" where
  "throwS e s = (Inl e, s)"

definition bindS :: "('s, 'a) meth \<Rightarrow> ('a \<Rightarrow> ('s, 'b) meth) \<Rightarrow> ('s, 'b) meth" where
  "bindS m k s = (case m s of (Inl e, s') \<Rightarrow> (Inl e, s') | (Inr a, s') \<Rightarrow> k a s')"

text \<open>Looking at the state, changing it, and one call after another.\<close>

definition askS :: "('s \<Rightarrow> 'a) \<Rightarrow> ('s, 'a) meth" where
  "askS f s = (Inr (f s), s)"

definition updS :: "('s \<Rightarrow> 's) \<Rightarrow> ('s, unit) meth" where
  "updS f s = (Inr (), f s)"

definition thenS :: "('s, 'a) meth \<Rightarrow> ('s, 'b) meth \<Rightarrow> ('s, 'b) meth" where
  "thenS m k = bindS m (\<lambda>_. k)"

definition whenS :: "bool \<Rightarrow> ('s, unit) meth \<Rightarrow> ('s, unit) meth" where
  "whenS b m = (if b then m else returnS ())"

definition assertS :: "('s \<Rightarrow> bool) \<Rightarrow> ('s, unit) meth" where
  "assertS P s = (if P s then (Inr (), s) else (Inl AssertFailure, s))"

lemma returnS_simp [simp]: "returnS a s = (Inr a, s)"
  by (simp add: returnS_def)

lemma throwS_simp [simp]: "throwS e s = (Inl e, s)"
  by (simp add: throwS_def)

lemma bindS_Inr: "m s = (Inr a, s') \<Longrightarrow> bindS m k s = k a s'"
  by (simp add: bindS_def)

lemma bindS_Inl: "m s = (Inl e, s') \<Longrightarrow> bindS m k s = (Inl e, s')"
  by (simp add: bindS_def)

text \<open>A loop that calls a method for every element and collects the results.\<close>

fun mapS :: "('x \<Rightarrow> ('s, 'a) meth) \<Rightarrow> 'x list \<Rightarrow> ('s, 'a list) meth" where
  "mapS f [] s = (Inr [], s)"
| "mapS f (x # xs) s =
     bindS (f x) (\<lambda>a. bindS (mapS f xs) (\<lambda>as. returnS (a # as))) s"

text \<open>A method keeps a property of the object when the object has it after every call.\<close>

definition keeps :: "('s \<Rightarrow> bool) \<Rightarrow> ('s, 'a) meth \<Rightarrow> bool" where
  "keeps P m \<longleftrightarrow> (\<forall>s. P s \<longrightarrow> P (snd (m s)))"

lemma keepsD: "keeps P m \<Longrightarrow> P s \<Longrightarrow> P (snd (m s))"
  by (simp add: keeps_def)

lemma keeps_returnS [simp, intro]: "keeps P (returnS a)"
  by (simp add: keeps_def)

lemma keeps_throwS [simp, intro]: "keeps P (throwS e)"
  by (simp add: keeps_def)

lemma keeps_bindS [intro]:
  assumes m: "keeps P m" and k: "\<And>a. keeps P (k a)"
  shows "keeps P (bindS m k)"
  unfolding keeps_def
proof (intro allI impI)
  fix s assume "P s"
  with m have "P (snd (m s))" by (rule keepsD)
  then show "P (snd (bindS m k s))"
    by (auto simp: bindS_def split: prod.splits sum.splits intro: keepsD [OF k])
qed

declare run_writes.simps(2) [simp del] run_reads.simps(2) [simp del]

lemmas run_writes_Cons = run_writes.simps(2)
lemmas run_reads_Cons = run_reads.simps(2)

end
