(* ===== verification/BufferUtil.thy ===== *)
theory BufferUtil
  imports Prelude
begin

text \<open>
  \<^verbatim>\<open>CPacketBufferUtil\<close> of \<^verbatim>\<open>src/SharedPainter/PacketBuffer.h\<close>: the static helpers that write a
  field into a \<^verbatim>\<open>std::string\<close> at a position and read one back.  Every message, paint item, task
  and user record of the program is made of these fields.

  A writer returns the new buffer and the number of bytes it wrote, a reader the value and the
  number of bytes it consumed.  The interface the serialisers rely on is the locale
  \<open>field_codec\<close> (and \<open>string_codec\<close> for the length-prefixed strings): writing appends the
  field's encoding, reading gives the value back, depends only on the bytes from the position
  on, and never leaves the buffer.  It is interpreted for every field type.
\<close>

section \<open>The field helpers\<close>

text \<open>\<^verbatim>\<open>std::string::insert( pos, data, n )\<close> throws \<^verbatim>\<open>std::out_of_range\<close> past the end.\<close>

definition string_insert :: "bytes \<Rightarrow> nat \<Rightarrow> bytes \<Rightarrow> bytes result" where
  "string_insert buf pos d =
     (if length buf < pos then Inl StdOutOfRange else Inr (take pos buf @ d @ drop pos buf))"

definition writeDouble :: "bytes \<Rightarrow> nat \<Rightarrow> double \<Rightarrow> bool \<Rightarrow> (bytes \<times> nat) result" where
  "writeDouble buf pos v LE =
     (if LE then bindE (string_insert buf pos (le_enc 8 v)) (\<lambda>b. Inr (b, 8))
      else Inl AssertFailure)"

definition writeInt32 :: "bytes \<Rightarrow> nat \<Rightarrow> 32 word \<Rightarrow> bool \<Rightarrow> (bytes \<times> nat) result" where
  "writeInt32 buf pos v LE =
     bindE (string_insert buf pos (if LE then le_enc 4 v else rev (le_enc 4 v))) (\<lambda>b. Inr (b, 4))"

definition writeInt16 :: "bytes \<Rightarrow> nat \<Rightarrow> 16 word \<Rightarrow> bool \<Rightarrow> (bytes \<times> nat) result" where
  "writeInt16 buf pos v LE =
     bindE (string_insert buf pos (if LE then le_enc 2 v else rev (le_enc 2 v))) (\<lambda>b. Inr (b, 2))"

definition writeInt8 :: "bytes \<Rightarrow> nat \<Rightarrow> byte \<Rightarrow> (bytes \<times> nat) result" where
  "writeInt8 buf pos v = bindE (string_insert buf pos [v]) (\<lambda>b. Inr (b, 1))"

definition writeBinary :: "bytes \<Rightarrow> nat \<Rightarrow> bytes \<Rightarrow> (bytes \<times> nat) result" where
  "writeBinary buf pos d = bindE (string_insert buf pos d) (\<lambda>b. Inr (b, length d))"

definition writeString8 :: "bytes \<Rightarrow> nat \<Rightarrow> bytes \<Rightarrow> (bytes \<times> nat) result" where
  "writeString8 buf pos v =
     (if length v > 0xff
      then Inl (CPacketException ''the string size is bigger than 1byte length..'')
      else bindE (writeInt8 buf pos (of_nat (length v))) (\<lambda>(buf', n).
           bindE (string_insert buf' (pos + n) v) (\<lambda>buf''.
           Inr (buf'', 1 + length v))))"

definition writeString16 :: "bytes \<Rightarrow> nat \<Rightarrow> bytes \<Rightarrow> bool \<Rightarrow> (bytes \<times> nat) result" where
  "writeString16 buf pos v LE =
     (if length v > 0xffff
      then Inl (CPacketException ''the string size is bigger than 2byte length..'')
      else bindE (writeInt16 buf pos (of_nat (length v)) LE) (\<lambda>(buf', n).
           bindE (string_insert buf' (pos + n) v) (\<lambda>buf''.
           Inr (buf'', 2 + length v))))"

definition writeString32 :: "bytes \<Rightarrow> nat \<Rightarrow> bytes \<Rightarrow> bool \<Rightarrow> (bytes \<times> nat) result" where
  "writeString32 buf pos v LE =
     (if length v > 0xffffffff
      then Inl (CPacketException ''the string size is bigger than 4byte length..'')
      else bindE (writeInt32 buf pos (of_nat (length v)) LE) (\<lambda>(buf', n).
           bindE (string_insert buf' (pos + n) v) (\<lambda>buf''.
           Inr (buf'', 4 + length v))))"

text \<open>
  \<^verbatim>\<open>writeString32List\<close> returns the final position, not the number of bytes written as the other
  writers do.
\<close>

definition writeString32List :: "bytes \<Rightarrow> nat \<Rightarrow> bytes list \<Rightarrow> bool \<Rightarrow> (bytes \<times> nat) result" where
  "writeString32List buf pos vs LE =
     run_writes (wr (\<lambda>b p. writeInt32 b p (of_nat (length vs)) LE)
                 # map (\<lambda>v. wr (\<lambda>b p. writeString32 b p v LE)) vs) (buf, pos)"

text \<open>
  The two \<^verbatim>\<open>read\<close> overloads clamp the size to what the buffer holds.  With \<^verbatim>\<open>pos\<close> past the end
  \<^verbatim>\<open>buf.size() - pos\<close> wraps around and the copy leaves the buffer.
\<close>

definition read :: "bytes \<Rightarrow> nat \<Rightarrow> nat \<Rightarrow> bytes result" where
  "read buf pos n =
     (if length buf < pos then Inl BufferOverread
      else Inr (take (if length buf - pos < n then length buf - pos else n) (drop pos buf)))"

definition readDouble :: "bytes \<Rightarrow> nat \<Rightarrow> bool \<Rightarrow> (double \<times> nat) result" where
  "readDouble buf pos LE =
     bindE (read buf pos 8) (\<lambda>b.
       if length b = 8 then (if LE then Inr (le_dec b, 8) else Inl AssertFailure)
       else Inl (CPacketException ''readInt32 failed..''))"

definition readInt32 :: "bytes \<Rightarrow> nat \<Rightarrow> bool \<Rightarrow> (32 word \<times> nat) result" where
  "readInt32 buf pos LE =
     bindE (read buf pos 4) (\<lambda>b.
       if length b = 4 then Inr (le_dec (if LE then b else rev b), 4)
       else Inl (CPacketException ''readInt32 failed..''))"

definition readInt16 :: "bytes \<Rightarrow> nat \<Rightarrow> bool \<Rightarrow> (16 word \<times> nat) result" where
  "readInt16 buf pos LE =
     bindE (read buf pos 2) (\<lambda>b.
       if length b = 2 then Inr (le_dec (if LE then b else rev b), 2)
       else Inl (CPacketException ''readInt16 failed..''))"

definition readInt8 :: "bytes \<Rightarrow> nat \<Rightarrow> (byte \<times> nat) result" where
  "readInt8 buf pos =
     bindE (read buf pos 1) (\<lambda>b.
       if length b = 1 then Inr (b ! 0, 1)
       else Inl (CPacketException ''readInt8 failed..''))"

definition readString32 :: "bytes \<Rightarrow> nat \<Rightarrow> bool \<Rightarrow> (bytes \<times> nat) result" where
  "readString32 buf pos LE =
     bindE (readInt32 buf pos LE) (\<lambda>(len, n).
     bindE (read buf (pos + n) (unat len)) (\<lambda>v.
       if length v \<noteq> unat len then Inl (CPacketException ''readString32 failed..'')
       else Inr (v, 4 + unat len)))"

definition readString16 :: "bytes \<Rightarrow> nat \<Rightarrow> bool \<Rightarrow> (bytes \<times> nat) result" where
  "readString16 buf pos LE =
     bindE (readInt16 buf pos LE) (\<lambda>(len, n).
     bindE (read buf (pos + n) (unat len)) (\<lambda>v.
       if length v \<noteq> unat len then Inl (CPacketException ''readString16 failed..'')
       else Inr (v, 2 + unat len)))"

definition readString8 :: "bytes \<Rightarrow> nat \<Rightarrow> (bytes \<times> nat) result" where
  "readString8 buf pos =
     bindE (readInt8 buf pos) (\<lambda>(len, n).
     bindE (read buf (pos + n) (unat len)) (\<lambda>v.
       if length v \<noteq> unat len then Inl (CPacketException ''readString8 failed..'')
       else Inr (v, 1 + unat len)))"

text \<open>
  What the reference argument of a string reader holds after the call: nothing is assigned when
  the length cannot be read, and the (clamped) bytes are assigned before the length check throws.
\<close>

definition left_by :: "(bytes \<Rightarrow> nat \<Rightarrow> ('a::len word \<times> nat) result) \<Rightarrow> bytes \<Rightarrow> nat \<Rightarrow> bytes option"
where
  "left_by rd_len buf pos =
     (case rd_len buf pos of
        Inl e \<Rightarrow> None
      | Inr (len, n) \<Rightarrow>
          (case read buf (pos + n) (unat len) of Inl e \<Rightarrow> None | Inr v \<Rightarrow> Some v))"

definition rs_str ::
  "(bytes \<Rightarrow> nat \<Rightarrow> (bytes \<times> nat) result) \<Rightarrow> (bytes \<Rightarrow> nat \<Rightarrow> bytes option)
   \<Rightarrow> (bytes \<Rightarrow> 's \<Rightarrow> 's) \<Rightarrow> 's rstmt" where
  "rs_str f lft upd data s pos =
     (case f data pos of
        Inr (v, n) \<Rightarrow> Done (upd v s) (pos + n)
      | Inl e \<Rightarrow> Thrown e (case lft data pos of None \<Rightarrow> s | Some v \<Rightarrow> upd v s))"

text \<open>The statements \<^verbatim>\<open>pos += CPacketBufferUtil::readX( data, pos, field, true )\<close>.\<close>

abbreviation rs_int8 :: "(byte \<Rightarrow> 's \<Rightarrow> 's) \<Rightarrow> 's rstmt" where
  "rs_int8 \<equiv> rs readInt8"

abbreviation rs_int16 :: "(16 word \<Rightarrow> 's \<Rightarrow> 's) \<Rightarrow> 's rstmt" where
  "rs_int16 \<equiv> rs (\<lambda>d p. readInt16 d p True)"

abbreviation rs_int32 :: "(32 word \<Rightarrow> 's \<Rightarrow> 's) \<Rightarrow> 's rstmt" where
  "rs_int32 \<equiv> rs (\<lambda>d p. readInt32 d p True)"

abbreviation rs_double :: "(double \<Rightarrow> 's \<Rightarrow> 's) \<Rightarrow> 's rstmt" where
  "rs_double \<equiv> rs (\<lambda>d p. readDouble d p True)"

abbreviation rs_string8 :: "(bytes \<Rightarrow> 's \<Rightarrow> 's) \<Rightarrow> 's rstmt" where
  "rs_string8 \<equiv> rs_str readString8 (left_by readInt8)"

abbreviation rs_string16 :: "(bytes \<Rightarrow> 's \<Rightarrow> 's) \<Rightarrow> 's rstmt" where
  "rs_string16 \<equiv> rs_str (\<lambda>d p. readString16 d p True) (left_by (\<lambda>d p. readInt16 d p True))"

abbreviation rs_string32 :: "(bytes \<Rightarrow> 's \<Rightarrow> 's) \<Rightarrow> 's rstmt" where
  "rs_string32 \<equiv> rs_str (\<lambda>d p. readString32 d p True) (left_by (\<lambda>d p. readInt32 d p True))"

text \<open>A loop that runs a statement a given number of times.\<close>

fun rep :: "nat \<Rightarrow> 's rstmt \<Rightarrow> 's rstmt" where
  "rep 0 st data s pos = Done s pos"
| "rep (Suc n) st data s pos =
     (case st data s pos of
        Done s' pos' \<Rightarrow> rep n st data s' pos'
      | Thrown e s' \<Rightarrow> Thrown e s')"

lemma positional_rep:
  assumes "positional st"
  shows "positional (rep n st)"
  unfolding positional_def
proof (intro allI)
  fix pre data s p
  show "rep n st (pre @ data) s (length pre + p) = shift (length pre) (rep n st data s p)"
  proof (induction n arbitrary: s p)
    case 0
    show ?case by simp
  next
    case (Suc n)
    then show ?case
      by (cases "st data s p") (simp_all add: positionalD [OF assms])
  qed
qed

lemma bounded_rep:
  assumes "bounded st"
  shows "bounded (rep n st)"
proof -
  have "p \<le> length d \<Longrightarrow> (case rep n st d s p of
      Done s' p' \<Rightarrow> p \<le> p' \<and> p' \<le> length d | Thrown e s' \<Rightarrow> e \<noteq> BufferOverread)" for d s p
  proof (induction n arbitrary: s p)
    case 0
    then show ?case by simp
  next
    case (Suc n)
    show ?case
    proof (cases "st d s p")
      case (Done s1 p1)
      with boundedD(1) [OF assms Suc.prems] have p1: "p \<le> p1" "p1 \<le> length d" by auto
      with Suc.IH [OF p1(2), of s1] Done show ?thesis by (auto split: outcome.splits)
    next
      case (Thrown e s1)
      with boundedD(2) [OF assms Suc.prems] show ?thesis by simp
    qed
  qed
  then show ?thesis by (simp add: bounded_def)
qed

section \<open>The interface of a field\<close>

locale field_codec =
  fixes enc :: "'a \<Rightarrow> bytes"
    and ok :: "'a \<Rightarrow> bool"
    and wrt :: "bytes \<Rightarrow> nat \<Rightarrow> 'a \<Rightarrow> (bytes \<times> nat) result"
    and rd :: "bytes \<Rightarrow> nat \<Rightarrow> ('a \<times> nat) result"
  assumes write_append: "ok v \<Longrightarrow> wrt buf (length buf) v = Inr (buf @ enc v, length (enc v))"
    and read_enc: "ok v \<Longrightarrow> rd (enc v @ r) 0 = Inr (v, length (enc v))"
    and read_shift: "rd (pre @ d) (length pre + p) = rd d p"
    and read_bound: "p \<le> length d \<Longrightarrow> rd d p = Inr (v, n) \<Longrightarrow> p + n \<le> length d"
    and read_safe: "p \<le> length d \<Longrightarrow> rd d p \<noteq> Inl BufferOverread"
begin

lemma run_write:
  "p = length buf \<Longrightarrow> ok v \<Longrightarrow>
   run_writes (wr (\<lambda>b p. wrt b p v) # ss) (buf, p)
     = run_writes ss (buf @ enc v, p + length (enc v))"
  by (simp add: run_writes_Cons wr_def write_append)

lemma run_write_all:
  "p = length buf \<Longrightarrow> list_all ok vs \<Longrightarrow>
   run_writes (map (\<lambda>v. wr (\<lambda>b p. wrt b p v)) vs @ ss) (buf, p)
     = run_writes ss (buf @ concat (map enc vs), p + length (concat (map enc vs)))"
proof (induction vs arbitrary: buf p)
  case Nil
  then show ?case by simp
next
  case (Cons v vs)
  have "run_writes (map (\<lambda>v. wr (\<lambda>b p. wrt b p v)) vs @ ss) (buf @ enc v, p + length (enc v))
    = run_writes ss (buf @ concat (map enc (v # vs)), p + length (concat (map enc (v # vs))))"
    using Cons.IH [of "p + length (enc v)" "buf @ enc v"] Cons.prems by (simp add: add.assoc)
  with Cons.prems show ?case by (simp add: run_write)
qed

lemma positional_rs: "positional (rs rd upd)"
  by (auto simp: positional_def rs_def read_shift split: sum.splits)

lemma run_read:
  assumes "ok v" and "\<forall>st \<in> set ss. positional st"
  shows "run_reads (rs rd upd # ss) (enc v @ r) s 0
    = shift (length (enc v)) (run_reads ss r (upd v s) 0)"
proof -
  have "run_reads (rs rd upd # ss) (enc v @ r) s 0
      = run_reads ss (enc v @ r) (upd v s) (length (enc v))"
    by (simp add: run_reads_Cons rs_def read_enc [OF assms(1)])
  also have "\<dots> = shift (length (enc v)) (run_reads ss r (upd v s) 0)"
    using assms(2) by (intro positionalD0 positional_run_reads)
  finally show ?thesis .
qed

lemma bounded_rs: "bounded (rs rd upd)"
  unfolding bounded_def
proof (intro allI impI)
  fix d s p assume p: "p \<le> length (d :: bytes)"
  show "case rs rd upd d s p of Done s' p' \<Rightarrow> p \<le> p' \<and> p' \<le> length d
    | Thrown e s' \<Rightarrow> e \<noteq> BufferOverread"
    using read_bound [OF p] read_safe [OF p] by (cases "rd d p") (auto simp: rs_def)
qed

lemma rep_read:
  "list_all ok vs \<Longrightarrow>
   rep (length vs) (rs rd upd) (concat (map enc vs) @ r) s 0
     = Done (fold upd vs s) (length (concat (map enc vs)))"
proof (induction vs arbitrary: s)
  case Nil
  then show ?case by simp
next
  case (Cons v vs)
  have pos: "positional (rep n (rs rd upd))" for n
    by (rule positional_rep [OF positional_rs])
  have "rs rd upd (enc v @ concat (map enc vs) @ r) s 0 = Done (upd v s) (length (enc v))"
    using Cons.prems by (simp add: rs_def read_enc)
  with Cons show ?case
    by (simp add: positionalD0 [OF pos])
qed

end

text \<open>
  A string reader also stores the bytes it has before it throws; a string codec says that this
  store, too, depends only on the bytes from the position on.
\<close>

locale string_codec = field_codec enc ok wrt rd
  for enc :: "bytes \<Rightarrow> bytes"
    and ok :: "bytes \<Rightarrow> bool"
    and wrt :: "bytes \<Rightarrow> nat \<Rightarrow> bytes \<Rightarrow> (bytes \<times> nat) result"
    and rd :: "bytes \<Rightarrow> nat \<Rightarrow> (bytes \<times> nat) result" +
  fixes lft :: "bytes \<Rightarrow> nat \<Rightarrow> bytes option"
  assumes left_shift: "lft (pre @ d) (length pre + p) = lft d p"
begin

lemma positional_rs_str: "positional (rs_str rd lft upd)"
  by (auto simp: positional_def rs_str_def read_shift left_shift split: sum.splits)

lemma bounded_rs_str: "bounded (rs_str rd lft upd)"
  unfolding bounded_def
proof (intro allI impI)
  fix d s p assume p: "p \<le> length (d :: bytes)"
  show "case rs_str rd lft upd d s p of Done s' p' \<Rightarrow> p \<le> p' \<and> p' \<le> length d
    | Thrown e s' \<Rightarrow> e \<noteq> BufferOverread"
    using read_bound [OF p] read_safe [OF p] by (cases "rd d p") (auto simp: rs_str_def)
qed

lemma run_read_str:
  assumes "ok v" and "\<forall>st \<in> set ss. positional st"
  shows "run_reads (rs_str rd lft upd # ss) (enc v @ r) s 0
    = shift (length (enc v)) (run_reads ss r (upd v s) 0)"
proof -
  have "run_reads (rs_str rd lft upd # ss) (enc v @ r) s 0
      = run_reads ss (enc v @ r) (upd v s) (length (enc v))"
    by (simp add: run_reads_Cons rs_str_def read_enc [OF assms(1)])
  also have "\<dots> = shift (length (enc v)) (run_reads ss r (upd v s) 0)"
    using assms(2) by (intro positionalD0 positional_run_reads)
  finally show ?thesis .
qed

end

section \<open>The fields are codecs\<close>

definition enc_int8 :: "byte \<Rightarrow> bytes" where
  "enc_int8 v = [v]"

definition enc_int16 :: "16 word \<Rightarrow> bytes" where
  "enc_int16 v = le_enc 2 v"

definition enc_int16_be :: "16 word \<Rightarrow> bytes" where
  "enc_int16_be v = rev (le_enc 2 v)"

definition enc_int32 :: "32 word \<Rightarrow> bytes" where
  "enc_int32 v = le_enc 4 v"

definition enc_double :: "double \<Rightarrow> bytes" where
  "enc_double v = le_enc 8 v"

definition enc_string8 :: "bytes \<Rightarrow> bytes" where
  "enc_string8 v = enc_int8 (of_nat (length v)) @ v"

definition enc_string16 :: "bytes \<Rightarrow> bytes" where
  "enc_string16 v = enc_int16 (of_nat (length v)) @ v"

definition enc_string32 :: "bytes \<Rightarrow> bytes" where
  "enc_string32 v = enc_int32 (of_nat (length v)) @ v"

definition any :: "'a \<Rightarrow> bool" where
  "any v \<longleftrightarrow> True"

definition fits8 :: "bytes \<Rightarrow> bool" where
  "fits8 v \<longleftrightarrow> length v \<le> 0xff"

definition fits16 :: "bytes \<Rightarrow> bool" where
  "fits16 v \<longleftrightarrow> length v \<le> 0xffff"

definition fits32 :: "bytes \<Rightarrow> bool" where
  "fits32 v \<longleftrightarrow> length v \<le> 0xffffffff"

lemma any_simp [simp]: "any v"
  by (simp add: any_def)

lemma length_encs [simp]:
  "length (enc_int8 a) = 1" "length (enc_int16 b) = 2" "length (enc_int16_be b) = 2"
  "length (enc_int32 c) = 4" "length (enc_double d) = 8"
  "length (enc_string8 s) = 1 + length s" "length (enc_string16 s) = 2 + length s"
  "length (enc_string32 s) = 4 + length s"
  by (simp_all add: enc_int8_def enc_int16_def enc_int16_be_def enc_int32_def enc_double_def
      enc_string8_def enc_string16_def enc_string32_def)

lemma string_insert_end [simp]: "string_insert buf (length buf) d = Inr (buf @ d)"
  by (simp add: string_insert_def)

lemma read_front [simp]: "n = length a \<Longrightarrow> read (a @ r) 0 n = Inr a"
  by (simp add: read_def)

lemma read_shift: "read (pre @ d) (length pre + p) n = read d p n"
  by (simp add: read_def)

lemma read_shift0: "read (pre @ d) (length pre) n = read d 0 n"
  using read_shift [of pre d 0 n] by simp

lemma read_Inr: "p \<le> length d \<Longrightarrow> read d p n = Inr (take n (drop p d))"
  by (simp add: read_def)

lemma read_eq_Inr:
  "read d p n = Inr v \<longleftrightarrow> p \<le> length d \<and> v = take n (drop p d)"
  by (auto simp: read_def)

lemma read_length: "read d p n = Inr v \<Longrightarrow> length v = n \<Longrightarrow> p + n \<le> length d"
  by (auto simp: read_eq_Inr)

lemma read_neq_overread: "p \<le> length d \<Longrightarrow> read d p n \<noteq> Inl e"
  by (simp add: read_def)

lemmas reader_defs = readInt8_def readInt16_def readInt32_def readDouble_def

lemma readInt8_enc: "readInt8 (enc_int8 v @ r) 0 = Inr (v, 1)"
  by (simp add: readInt8_def enc_int8_def read_Inr)

lemma readInt16_enc: "readInt16 (enc_int16 v @ r) 0 True = Inr (v, 2)"
  by (simp add: readInt16_def enc_int16_def)

lemma readInt32_enc: "readInt32 (enc_int32 v @ r) 0 True = Inr (v, 4)"
  by (simp add: readInt32_def enc_int32_def)

interpretation i8: field_codec enc_int8 any writeInt8 readInt8
proof unfold_locales
  fix buf v show "writeInt8 buf (length buf) v = Inr (buf @ enc_int8 v, length (enc_int8 v))"
    by (simp add: writeInt8_def enc_int8_def)
next
  fix v r show "readInt8 (enc_int8 v @ r) 0 = Inr (v, length (enc_int8 v))"
    by (simp add: readInt8_enc)
next
  fix pre d p show "readInt8 (pre @ d) (length pre + p) = readInt8 d p"
    by (simp add: readInt8_def read_shift)
next
  fix p d v n assume "p \<le> length d" "readInt8 d p = Inr (v, n)"
  then show "p + n \<le> length d"
    by (auto simp: readInt8_def bindE_eq_Inr split: if_splits dest: read_length)
next
  fix p d assume "p \<le> length (d :: bytes)"
  then show "readInt8 d p \<noteq> Inl BufferOverread"
    by (auto simp: readInt8_def read_Inr)
qed

lemma fixed_reader_laws:
  assumes f: "\<And>d p. f d p = bindE (read d p k) (\<lambda>b. if length b = k then Inr (g b, k)
                 else Inl (CPacketException msg))"
  shows "f (pre @ d) (length pre + p) = f d p"
    and "p \<le> length d \<Longrightarrow> f d p = Inr (v, n) \<Longrightarrow> p + n \<le> length d"
    and "p \<le> length d \<Longrightarrow> f d p \<noteq> Inl BufferOverread"
proof -
  show "f (pre @ d) (length pre + p) = f d p"
    by (simp add: f read_shift)
next
  assume "p \<le> length d" "f d p = Inr (v, n)"
  then show "p + n \<le> length d"
    by (auto simp: f bindE_eq_Inr split: if_splits dest: read_length)
next
  assume "p \<le> length d"
  then show "f d p \<noteq> Inl BufferOverread"
    by (auto simp: f read_Inr)
qed

lemmas int16_laws =
  fixed_reader_laws [of "\<lambda>d p. readInt16 d p LE" 2 "\<lambda>b. le_dec (if LE then b else rev b)" for LE,
    OF readInt16_def]
lemmas int32_laws =
  fixed_reader_laws [of "\<lambda>d p. readInt32 d p LE" 4 "\<lambda>b. le_dec (if LE then b else rev b)" for LE,
    OF readInt32_def]
lemma readDouble_LE:
  "readDouble d p True =
     bindE (read d p 8) (\<lambda>b. if length b = 8 then Inr (le_dec b, 8)
       else Inl (CPacketException ''readInt32 failed..''))"
  by (simp add: readDouble_def cong: if_cong)

lemmas double_laws =
  fixed_reader_laws [of "\<lambda>d p. readDouble d p True" 8 le_dec, OF readDouble_LE]

interpretation i16: field_codec enc_int16 any
  "\<lambda>buf pos v. writeInt16 buf pos v True" "\<lambda>d p. readInt16 d p True"
  by unfold_locales
    (use int16_laws [where LE = True] in
      \<open>auto simp: writeInt16_def enc_int16_def readInt16_enc [unfolded enc_int16_def]\<close>)

interpretation i16be: field_codec enc_int16_be any
  "\<lambda>buf pos v. writeInt16 buf pos v False" "\<lambda>d p. readInt16 d p False"
  by unfold_locales
    (use int16_laws [where LE = False] in
      \<open>auto simp: writeInt16_def enc_int16_be_def readInt16_def\<close>)

interpretation i32: field_codec enc_int32 any
  "\<lambda>buf pos v. writeInt32 buf pos v True" "\<lambda>d p. readInt32 d p True"
  by unfold_locales
    (use int32_laws [where LE = True] in
      \<open>auto simp: writeInt32_def enc_int32_def readInt32_enc [unfolded enc_int32_def]\<close>)

interpretation dbl: field_codec enc_double any
  "\<lambda>buf pos v. writeDouble buf pos v True" "\<lambda>d p. readDouble d p True"
  by unfold_locales
    (use double_laws in \<open>auto simp: writeDouble_def enc_double_def readDouble_def\<close>)

text \<open>
  A string field is a length field followed by that many bytes.  Whatever codec the length has,
  the string helpers built on it are a string codec.
\<close>

locale length_prefixed = len_codec: field_codec lenc any lwrt lrd
  for lenc :: "'w::len word \<Rightarrow> bytes"
    and lwrt :: "bytes \<Rightarrow> nat \<Rightarrow> 'w word \<Rightarrow> (bytes \<times> nat) result"
    and lrd :: "bytes \<Rightarrow> nat \<Rightarrow> ('w word \<times> nat) result" +
  fixes k :: nat
    and senc :: "bytes \<Rightarrow> bytes"
    and sok :: "bytes \<Rightarrow> bool"
    and swrt :: "bytes \<Rightarrow> nat \<Rightarrow> bytes \<Rightarrow> (bytes \<times> nat) result"
    and srd :: "bytes \<Rightarrow> nat \<Rightarrow> (bytes \<times> nat) result"
    and wmsg :: string
    and rmsg :: string
  assumes lenc_length: "length (lenc x) = k"
    and lrd_count: "lrd d p = Inr (x, n) \<Longrightarrow> n = k"
    and lrd_other: "lrd d p = Inl e \<Longrightarrow> p \<le> length d \<Longrightarrow> e \<noteq> BufferOverread"
    and senc_eq: "senc v = lenc (of_nat (length v)) @ v"
    and sok_bound: "sok v \<longleftrightarrow> length v < 2 ^ LENGTH('w)"
    and swrt_eq: "swrt buf pos v =
      (if \<not> sok v then Inl (CPacketException wmsg)
       else bindE (lwrt buf pos (of_nat (length v))) (\<lambda>(buf', n).
            bindE (string_insert buf' (pos + n) v) (\<lambda>buf''. Inr (buf'', k + length v))))"
    and srd_eq: "srd buf pos =
      bindE (lrd buf pos) (\<lambda>(len, n).
      bindE (read buf (pos + n) (unat len)) (\<lambda>v.
        if length v \<noteq> unat len then Inl (CPacketException rmsg)
        else Inr (v, k + unat len)))"
begin

lemma unat_len: "sok v \<Longrightarrow> unat (of_nat (length v) :: 'w word) = length v"
  by (simp add: sok_bound unat_of_nat take_bit_nat_eq_self)

lemma srd_front: "sok v \<Longrightarrow> srd (senc v @ r) 0 = Inr (v, k + length v)"
  using len_codec.read_enc [of "of_nat (length v)" "v @ r"]
    read_shift0 [of "lenc (of_nat (length v))" "v @ r" "length v"]
  by (simp add: srd_eq senc_eq lenc_length unat_len)

lemma srd_bound:
  assumes "p \<le> length d" and "srd d p = Inr (v, n)"
  shows "p + n \<le> length d"
proof -
  from assms(2) obtain len m where "lrd d p = Inr (len, m)"
    and "read d (p + m) (unat len) = Inr v" and "length v = unat len" and "n = k + unat len"
    by (auto simp: srd_eq bindE_eq_Inr split: if_splits)
  then show ?thesis using lrd_count [of d p len m] read_length [of d "p + m" "unat len" v] by simp
qed

lemma srd_safe: "p \<le> length d \<Longrightarrow> srd d p \<noteq> Inl BufferOverread"
proof
  assume p: "p \<le> length d" and "srd d p = Inl BufferOverread"
  then obtain len n where len: "lrd d p = Inr (len, n)"
    and "read d (p + n) (unat len) = Inl BufferOverread"
    by (auto simp: srd_eq bindE_eq_Inl split: if_splits dest: lrd_other)
  moreover from p len have "p + n \<le> length d" by (rule len_codec.read_bound)
  ultimately show False by (simp add: read_neq_overread)
qed

lemma swrt_end: "sok v \<Longrightarrow> swrt buf (length buf) v = Inr (buf @ senc v, length (senc v))"
  using string_insert_end [of "buf @ lenc (of_nat (length v))" v]
  by (simp add: swrt_eq senc_eq len_codec.write_append lenc_length)

sublocale string_codec senc sok swrt srd "left_by lrd"
proof unfold_locales
  fix v buf assume "sok v"
  then show "swrt buf (length buf) v = Inr (buf @ senc v, length (senc v))"
    by (rule swrt_end)
next
  fix v r assume "sok v"
  then show "srd (senc v @ r) 0 = Inr (v, length (senc v))"
    using srd_front [of v r] by (simp add: senc_eq lenc_length)
next
  fix pre d p show "srd (pre @ d) (length pre + p) = srd d p"
    by (simp add: srd_eq len_codec.read_shift read_shift add.assoc)
next
  fix p d v n assume "p \<le> length d" "srd d p = Inr (v, n)"
  then show "p + n \<le> length d" by (rule srd_bound)
next
  fix p d assume "p \<le> length (d :: bytes)"
  then show "srd d p \<noteq> Inl BufferOverread" by (rule srd_safe)
next
  fix pre d p show "left_by lrd (pre @ d) (length pre + p) = left_by lrd d p"
    by (simp add: left_by_def len_codec.read_shift read_shift add.assoc split: sum.splits)
qed

end

lemma int_reader_count:
  "readInt8 d p = Inr (v, n) \<Longrightarrow> n = 1"
  "readInt16 d p LE = Inr (v2, n) \<Longrightarrow> n = 2"
  "readInt32 d p LE = Inr (v3, n) \<Longrightarrow> n = 4"
  by (auto simp: readInt8_def readInt16_def readInt32_def bindE_eq_Inr split: if_splits)

interpretation s8: length_prefixed enc_int8 writeInt8 readInt8 1 enc_string8 fits8
  writeString8 readString8
  "''the string size is bigger than 1byte length..''" "''readString8 failed..''"
  by unfold_locales
    (use i8.read_safe in \<open>auto dest: int_reader_count simp: fits8_def writeString8_def readString8_def enc_string8_def\<close>)

interpretation s16: length_prefixed enc_int16 "\<lambda>b p v. writeInt16 b p v True"
  "\<lambda>d p. readInt16 d p True" 2 enc_string16 fits16
  "\<lambda>b p v. writeString16 b p v True" "\<lambda>d p. readString16 d p True"
  "''the string size is bigger than 2byte length..''" "''readString16 failed..''"
  by unfold_locales
    (use i16.read_safe in \<open>auto dest: int_reader_count simp: fits16_def writeString16_def readString16_def enc_string16_def\<close>)

interpretation s32: length_prefixed enc_int32 "\<lambda>b p v. writeInt32 b p v True"
  "\<lambda>d p. readInt32 d p True" 4 enc_string32 fits32
  "\<lambda>b p v. writeString32 b p v True" "\<lambda>d p. readString32 d p True"
  "''the string size is bigger than 4byte length..''" "''readString32 failed..''"
  by unfold_locales
    (use i32.read_safe in \<open>auto dest: int_reader_count simp: fits32_def writeString32_def readString32_def enc_string32_def\<close>)

text \<open>The automation of the message proofs: how each field statement runs.\<close>

lemmas run_field_writes [codec_simps] =
  i8.run_write i16.run_write i32.run_write dbl.run_write s8.run_write s16.run_write s32.run_write
  run_writes.simps(1)

lemmas run_field_reads [codec_simps] =
  i8.run_read i16.run_read i32.run_read dbl.run_read
  s8.run_read_str s16.run_read_str s32.run_read_str run_reads.simps(1)

lemmas run_field_reads_end [codec_simps] =
  i8.run_read [where r = "[]", simplified] i16.run_read [where r = "[]", simplified]
  i32.run_read [where r = "[]", simplified] dbl.run_read [where r = "[]", simplified]
  s8.run_read_str [where r = "[]", simplified] s16.run_read_str [where r = "[]", simplified]
  s32.run_read_str [where r = "[]", simplified]

lemmas positional_fields [simp] =
  i8.positional_rs i16.positional_rs i16be.positional_rs i32.positional_rs dbl.positional_rs
  s8.positional_rs_str s16.positional_rs_str s32.positional_rs_str

lemmas bounded_fields [simp] =
  i8.bounded_rs i16.bounded_rs i16be.bounded_rs i32.bounded_rs dbl.bounded_rs
  s8.bounded_rs_str s16.bounded_rs_str s32.bounded_rs_str

section \<open>The interface of an object\<close>

text \<open>
  An object that is written as a string of fields and read back into another object: \<open>put v s\<close>
  is the object \<open>s\<close> after the fields of \<open>v\<close> have been read into it.
\<close>

locale object_codec =
  fixes enc :: "'a \<Rightarrow> bytes"
    and ok :: "'a \<Rightarrow> bool"
    and put :: "'a \<Rightarrow> 's \<Rightarrow> 's"
    and ser :: "'a \<Rightarrow> bytes result"
    and de :: "bytes \<Rightarrow> nat \<Rightarrow> 's \<Rightarrow> bool \<times> 's \<times> nat"
  assumes ser_enc: "ok v \<Longrightarrow> ser v = Inr (enc v)"
    and de_enc: "ok v \<Longrightarrow> de (enc v @ r) 0 s = (True, put v s, length (enc v))"
    and de_shift: "de (pre @ d) (length pre + p) s =
      (case de d p s of (b, s', p') \<Rightarrow> (b, s', length pre + p'))"
begin

lemma de_at: "ok v \<Longrightarrow> de (pre @ enc v @ r) (length pre) s
   = (True, put v s, length pre + length (enc v))"
  using de_shift [of pre "enc v @ r" 0 s] de_enc [of v r s] by simp

lemma ser_de: "ok v \<Longrightarrow> (case ser v of Inr d \<Rightarrow> de d 0 s | Inl e \<Rightarrow> (False, s, 0))
   = (True, put v s, length (enc v))"
  using de_enc [of v "[]" s] by (simp add: ser_enc)

end

end
