(* ===== verification/PacketBuffer.thy ===== *)
theory PacketBuffer
  imports BufferUtil
begin

text \<open>
  \<^verbatim>\<open>class CPacketBuffer\<close> of \<^verbatim>\<open>src/SharedPainter/PacketBuffer.h\<close> and \<^verbatim>\<open>PacketBuffer.cpp\<close>: a
  \<^verbatim>\<open>std::string\<close> with a read position, the byte stream the packet slicer reads from.

  The record \<open>pbuf\<close> holds the two members; every method is a \<open>meth\<close> on it.  The recursive
  mutex is not modelled: each method is one step.  Seen from outside the object is a queue of
  bytes, which the locale \<open>byte_stream\<close> states and \<open>pb\<close> interprets.  The methods with a
  reference argument return the value read; what the argument holds after a throw is not
  modelled (no caller looks at it).
\<close>

section \<open>State\<close>

record pbuf =
  pb_buffer :: bytes
  pb_readPos :: nat

definition littleEndianMode :: bool where
  "littleEndianMode = True"

definition pb_new :: pbuf where
  "pb_new = \<lparr>pb_buffer = [], pb_readPos = 0\<rparr>"

text \<open>The read position is inside the buffer; \<^verbatim>\<open>erase\<close> alone can break this.\<close>

definition pb_wf :: "pbuf \<Rightarrow> bool" where
  "pb_wf b \<longleftrightarrow> pb_readPos b \<le> length (pb_buffer b)"

section \<open>Methods of PacketBuffer.cpp\<close>

definition pb_erase :: "nat \<Rightarrow> nat \<Rightarrow> (pbuf, nat) meth" where
  "pb_erase pos n b =
     (if length (pb_buffer b) < pos + n
      then throwS (CPacketException ''erase size greater than buffer size'') b
      else returnS n (b\<lparr>pb_buffer := take pos (pb_buffer b) @ drop (pos + n) (pb_buffer b)\<rparr>))"

definition pb_insertInt8 :: "nat \<Rightarrow> byte \<Rightarrow> (pbuf, nat) meth" where
  "pb_insertInt8 pos v b =
     (case string_insert (pb_buffer b) pos [v] of
        Inl e \<Rightarrow> throwS e b
      | Inr buf \<Rightarrow> returnS 1 (b\<lparr>pb_buffer := buf\<rparr>))"

definition pb_write :: "bytes \<Rightarrow> (pbuf, nat) meth" where
  "pb_write d b = returnS (length d) (b\<lparr>pb_buffer := pb_buffer b @ d\<rparr>)"

definition pb_totalSize :: "pbuf \<Rightarrow> nat" where
  "pb_totalSize b = length (pb_buffer b)"

text \<open>\<^verbatim>\<open>buffer_.size() - readPos_\<close> is a \<^verbatim>\<open>size_t\<close> (32 bits on the program's targets) and wraps.\<close>

definition pb_remainingSize :: "pbuf \<Rightarrow> nat" where
  "pb_remainingSize b =
     (if pb_readPos b \<le> length (pb_buffer b) then length (pb_buffer b) - pb_readPos b
      else 2 ^ 32 + length (pb_buffer b) - pb_readPos b)"

text \<open>The \<open>n\<close> bytes at \<^verbatim>\<open>currentPtr()\<close>; copying them from outside the buffer is an overread.\<close>

definition pb_copy :: "nat \<Rightarrow> (pbuf, bytes) meth" where
  "pb_copy n b =
     (if pb_readPos b + n \<le> length (pb_buffer b)
      then returnS (take n (drop (pb_readPos b) (pb_buffer b))) b
      else throwS BufferOverread b)"

definition pb_fastforward :: "nat \<Rightarrow> (pbuf, unit) meth" where
  "pb_fastforward n b =
     (if pb_readPos b + n > length (pb_buffer b)
      then throwS (CPacketException ''readpos exceed buffer size by fastforward'') b
      else returnS () (b\<lparr>pb_readPos := pb_readPos b + n\<rparr>))"

definition pb_rewind :: "nat \<Rightarrow> (pbuf, unit) meth" where
  "pb_rewind n b =
     (if pb_readPos b < n
      then throwS (CPacketException ''readpos less than 0 by rewind'') b
      else returnS () (b\<lparr>pb_readPos := pb_readPos b - n\<rparr>))"

definition pb_read :: "nat \<Rightarrow> (pbuf, bytes) meth" where
  "pb_read sz b =
     (let n = if pb_remainingSize b < sz then pb_remainingSize b else sz in
      bindS (pb_copy n) (\<lambda>d. bindS (pb_fastforward n) (\<lambda>_. returnS d)) b)"

definition pb_peek :: "nat \<Rightarrow> (pbuf, bytes) meth" where
  "pb_peek sz b =
     pb_copy (if pb_remainingSize b < sz then pb_remainingSize b else sz) b"

definition pb_readString :: "nat \<Rightarrow> (pbuf, bytes) meth" where
  "pb_readString sz b =
     (let n = if pb_remainingSize b < sz then pb_remainingSize b else sz in
      bindS (pb_copy n) (\<lambda>d. bindS (pb_fastforward n) (\<lambda>_. returnS d)) b)"

definition pb_throwAway :: "nat \<Rightarrow> (pbuf, unit) meth" where
  "pb_throwAway n = pb_fastforward n"

definition pb_setReadPos :: "nat \<Rightarrow> (pbuf, unit) meth" where
  "pb_setReadPos pos b =
     (if pos \<noteq> 0 \<and> pb_totalSize b \<le> pos
      then throwS (CPacketException ''readpos less than 0 by rewind'') b
      else returnS () (b\<lparr>pb_readPos := pos\<rparr>))"

definition pb_clear :: "(pbuf, unit) meth" where
  "pb_clear b = returnS () (b\<lparr>pb_readPos := 0, pb_buffer := []\<rparr>)"

definition pb_toStringFromCurrentPtr :: "(pbuf, bytes) meth" where
  "pb_toStringFromCurrentPtr b = pb_copy (pb_remainingSize b) b"

definition pb_toStringFromBasePtr :: "pbuf \<Rightarrow> bytes" where
  "pb_toStringFromBasePtr b = pb_buffer b"

section \<open>Field methods of PacketBuffer.h\<close>

definition pb_writeInt32 :: "32 word \<Rightarrow> (pbuf, nat) meth" where
  "pb_writeInt32 v =
     bindS (pb_write (if littleEndianMode then le_enc 4 v else rev (le_enc 4 v))) (\<lambda>_. returnS 4)"

definition pb_writeInt16 :: "16 word \<Rightarrow> (pbuf, nat) meth" where
  "pb_writeInt16 v =
     bindS (pb_write (if littleEndianMode then le_enc 2 v else rev (le_enc 2 v))) (\<lambda>_. returnS 2)"

definition pb_writeInt8 :: "byte \<Rightarrow> (pbuf, nat) meth" where
  "pb_writeInt8 v = bindS (pb_write [v]) (\<lambda>_. returnS 1)"

definition pb_writeBinary :: "bytes \<Rightarrow> (pbuf, nat) meth" where
  "pb_writeBinary d = bindS (pb_write d) (\<lambda>n. returnS n)"

text \<open>
  The string writers do not check the size: the length field keeps its low bits.  The two short
  ones also count in a variable of the width of the length field.
\<close>

definition pb_writeString8 :: "bytes \<Rightarrow> (pbuf, nat) meth" where
  "pb_writeString8 v =
     bindS (pb_writeInt8 (of_nat (length v))) (\<lambda>m.
     bindS (pb_write v) (\<lambda>n. returnS (unat (of_nat m + of_nat n :: 8 word))))"

definition pb_writeString16 :: "bytes \<Rightarrow> (pbuf, nat) meth" where
  "pb_writeString16 v =
     bindS (pb_writeInt16 (of_nat (length v))) (\<lambda>m.
     bindS (pb_write v) (\<lambda>n. returnS (unat (of_nat m + of_nat n :: 16 word))))"

definition pb_writeString32 :: "bytes \<Rightarrow> (pbuf, nat) meth" where
  "pb_writeString32 v =
     bindS (pb_writeInt32 (of_nat (length v))) (\<lambda>m.
     bindS (pb_write v) (\<lambda>n. returnS (unat (of_nat m + of_nat n :: 32 word))))"

fun pb_write_all :: "bytes list \<Rightarrow> 32 word \<Rightarrow> (pbuf, nat) meth" where
  "pb_write_all [] pos = returnS (unat pos)"
| "pb_write_all (v # vs) pos =
     bindS (pb_writeString32 v) (\<lambda>n. pb_write_all vs (pos + of_nat n))"

definition pb_writeString32List :: "bytes list \<Rightarrow> (pbuf, nat) meth" where
  "pb_writeString32List vs =
     bindS (pb_writeInt32 (of_nat (length vs))) (\<lambda>n. pb_write_all vs (of_nat n))"

definition pb_readInt32 :: "(pbuf, 32 word) meth" where
  "pb_readInt32 =
     bindS (pb_read 4) (\<lambda>d.
       if length d \<noteq> 4 then throwS (CPacketException ''readInt32 failed..'')
       else returnS (le_dec (if littleEndianMode then d else rev d)))"

definition pb_readInt16 :: "(pbuf, 16 word) meth" where
  "pb_readInt16 =
     bindS (pb_read 2) (\<lambda>d.
       if length d \<noteq> 2 then throwS (CPacketException ''readInt16 failed..'')
       else returnS (le_dec (if littleEndianMode then d else rev d)))"

definition pb_readInt8 :: "(pbuf, byte) meth" where
  "pb_readInt8 =
     bindS (pb_read 1) (\<lambda>d.
       if length d \<noteq> 1 then throwS (CPacketException ''readInt8 failed..'')
       else returnS (d ! 0))"

definition pb_readString32 :: "(pbuf, bytes) meth" where
  "pb_readString32 =
     bindS pb_readInt32 (\<lambda>len. bindS (pb_read (unat len)) (\<lambda>d.
       if length d \<noteq> unat len then throwS (CPacketException ''readString32 failed..'')
       else returnS d))"

text \<open>The overload without argument reads an 8-bit length.\<close>

definition pb_readString32_value :: "(pbuf, bytes) meth" where
  "pb_readString32_value =
     bindS pb_readInt8 (\<lambda>len. bindS (pb_read (unat len)) (\<lambda>d.
       if length d \<noteq> unat len then throwS (CPacketException ''readString32 failed..'')
       else returnS d))"

definition pb_readString16 :: "(pbuf, bytes) meth" where
  "pb_readString16 =
     bindS pb_readInt16 (\<lambda>len. bindS (pb_read (unat len)) (\<lambda>d.
       if length d \<noteq> unat len then throwS (CPacketException ''readString16 failed..'')
       else returnS d))"

definition pb_readString8 :: "(pbuf, bytes) meth" where
  "pb_readString8 =
     bindS pb_readInt8 (\<lambda>len. bindS (pb_read (unat len)) (\<lambda>d.
       if length d \<noteq> unat len then throwS (CPacketException ''readString8 failed..'')
       else returnS d))"

section \<open>A queue of bytes\<close>

text \<open>
  What a client of the buffer relies on: bytes written come out in order, a read gives what it
  asks for or everything there is, and the read position stays inside the buffer.
\<close>

locale byte_stream =
  fixes inv :: "'b \<Rightarrow> bool"
    and pending :: "'b \<Rightarrow> bytes"
    and put :: "bytes \<Rightarrow> ('b, nat) meth"
    and get :: "nat \<Rightarrow> ('b, bytes) meth"
    and remaining :: "'b \<Rightarrow> nat"
  assumes put_result: "inv b \<Longrightarrow> \<exists>b'. put d b = (Inr (length d), b') \<and> inv b'
                         \<and> pending b' = pending b @ d"
    and get_result: "inv b \<Longrightarrow> \<exists>b'. get n b = (Inr (take n (pending b)), b') \<and> inv b'
                         \<and> pending b' = drop n (pending b)"
    and remaining_eq: "inv b \<Longrightarrow> remaining b = length (pending b)"
begin

lemma keeps_put: "keeps inv (put d)"
  unfolding keeps_def
proof (intro allI impI)
  fix b assume "inv b"
  from put_result [OF this, of d] show "inv (snd (put d b))" by auto
qed

lemma keeps_get: "keeps inv (get n)"
  unfolding keeps_def
proof (intro allI impI)
  fix b assume "inv b"
  from get_result [OF this, of n] show "inv (snd (get n b))" by auto
qed

lemma put_all_pending:
  "inv b \<Longrightarrow> \<exists>b'. mapS put ds b = (Inr (map length ds), b') \<and> inv b'
     \<and> pending b' = pending b @ concat ds"
proof (induction ds arbitrary: b)
  case Nil
  then show ?case by simp
next
  case (Cons d ds)
  from put_result [OF Cons.prems, of d] obtain b1
    where 1: "put d b = (Inr (length d), b1)" "inv b1" "pending b1 = pending b @ d" by blast
  from Cons.IH [OF 1(2)] 1(3) show ?case by (auto simp: bindS_def 1(1))
qed

lemma get_all_chunks:
  "inv b \<Longrightarrow> \<exists>ds b'. mapS get ns b = (Inr ds, b') \<and> inv b' \<and> length ds = length ns
     \<and> concat ds = take (sum_list ns) (pending b)
     \<and> pending b' = drop (sum_list ns) (pending b)"
proof (induction ns arbitrary: b)
  case Nil
  then show ?case by simp
next
  case (Cons n ns)
  from get_result [OF Cons.prems, of n] obtain b1
    where 1: "get n b = (Inr (take n (pending b)), b1)" "inv b1"
      "pending b1 = drop n (pending b)" by blast
  from Cons.IH [OF 1(2)] obtain ds b2
    where 2: "mapS get ns b1 = (Inr ds, b2)" "inv b2" "length ds = length ns"
      "concat ds = take (sum_list ns) (pending b1)"
      "pending b2 = drop (sum_list ns) (pending b1)" by blast
  have "mapS get (n # ns) b = (Inr (take n (pending b) # ds), b2)"
    by (simp add: bindS_def 1(1) 2(1))
  then show ?case using 1(3) 2 by (auto simp: take_add add.commute)
qed

end

definition pb_pending :: "pbuf \<Rightarrow> bytes" where
  "pb_pending b = drop (pb_readPos b) (pb_buffer b)"

lemma pb_read_eq:
  assumes "pb_wf b"
  shows "pb_read n b = (Inr (take n (pb_pending b)),
    b\<lparr>pb_readPos := min (length (pb_buffer b)) (pb_readPos b + n)\<rparr>)"
proof -
  have rem: "pb_remainingSize b = length (pb_buffer b) - pb_readPos b"
    using assms by (simp add: pb_wf_def pb_remainingSize_def)
  show ?thesis
    using assms
    by (auto simp: pb_read_def rem pb_wf_def pb_copy_def pb_fastforward_def pb_pending_def
        bindS_def min_def Let_def)
qed

interpretation pb: byte_stream pb_wf pb_pending pb_write pb_read pb_remainingSize
proof unfold_locales
  fix b d assume "pb_wf b"
  then show "\<exists>b'. pb_write d b = (Inr (length d), b') \<and> pb_wf b'
      \<and> pb_pending b' = pb_pending b @ d"
    by (simp add: pb_write_def pb_wf_def pb_pending_def)
next
  fix b n assume wf: "pb_wf b"
  let ?b = "b\<lparr>pb_readPos := min (length (pb_buffer b)) (pb_readPos b + n)\<rparr>"
  have "pb_pending ?b = drop n (pb_pending b)"
    using wf by (simp add: pb_wf_def pb_pending_def min_def add.commute)
  moreover have "pb_wf ?b" by (simp add: pb_wf_def)
  ultimately show "\<exists>b'. pb_read n b = (Inr (take n (pb_pending b)), b') \<and> pb_wf b'
      \<and> pb_pending b' = drop n (pb_pending b)"
    using pb_read_eq [OF wf] by blast
next
  fix b assume "pb_wf b"
  then show "pb_remainingSize b = length (pb_pending b)"
    by (simp add: pb_wf_def pb_remainingSize_def pb_pending_def)
qed

lemma pb_wf_new [simp]: "pb_wf pb_new"
  by (simp add: pb_wf_def pb_new_def)

lemma pb_pending_new [simp]: "pb_pending pb_new = []"
  by (simp add: pb_pending_def pb_new_def)

lemma pb_keeps_read [simp]: "keeps pb_wf (pb_read n)"
  by (rule pb.keeps_get)

lemma pb_keeps_write [simp]: "keeps pb_wf (pb_write d)"
  by (rule pb.keeps_put)

lemma pb_keeps_copy [simp]: "keeps pb_wf (pb_copy n)"
  by (simp add: keeps_def pb_copy_def)

lemma pb_keeps_writers:
  "keeps pb_wf (pb_writeInt32 i)" "keeps pb_wf (pb_writeInt16 j)" "keeps pb_wf (pb_writeInt8 k)"
  "keeps pb_wf (pb_writeString8 s)" "keeps pb_wf (pb_writeString16 s)"
  "keeps pb_wf (pb_writeString32 s)"
  by (auto simp: pb_writeInt32_def pb_writeInt16_def pb_writeInt8_def pb_writeString8_def
      pb_writeString16_def pb_writeString32_def intro!: keeps_bindS)

lemma pb_keeps_int_readers:
  "keeps pb_wf pb_readInt32" "keeps pb_wf pb_readInt16" "keeps pb_wf pb_readInt8"
  by (auto simp: pb_readInt32_def pb_readInt16_def pb_readInt8_def)

lemma pb_keeps_string_readers:
  "keeps pb_wf pb_readString32" "keeps pb_wf pb_readString32_value"
  "keeps pb_wf pb_readString16" "keeps pb_wf pb_readString8"
  by (auto simp: pb_readString32_def pb_readString32_value_def pb_readString16_def
      pb_readString8_def intro!: keeps_bindS pb_keeps_int_readers)

text \<open>A read that succeeds within the pending bytes, step by step.\<close>

lemma pb_read_front:
  assumes "pb_wf b" and "pb_pending b = d @ r" and "n = length d"
  shows "pb_read n b = (Inr d, b\<lparr>pb_readPos := pb_readPos b + n\<rparr>)"
proof -
  have "length (pb_buffer b) - pb_readPos b = n + length r"
    using assms(2,3) by (metis length_append length_drop pb_pending_def)
  then have "min (length (pb_buffer b)) (pb_readPos b + n) = pb_readPos b + n"
    using assms(1) unfolding pb_wf_def by linarith
  then show ?thesis using pb_read_eq [OF assms(1), of n] assms(2,3) by simp
qed

lemma pb_pending_advance:
  "pb_pending b = d @ r \<Longrightarrow> pb_pending (b\<lparr>pb_readPos := pb_readPos b + length d\<rparr>) = r"
  by (simp add: pb_pending_def add.commute flip: drop_drop)

lemma pb_wf_advance:
  "pb_wf b \<Longrightarrow> pb_pending b = d @ r \<Longrightarrow> pb_wf (b\<lparr>pb_readPos := pb_readPos b + length d\<rparr>)"
  using pb_read_front [of b d r "length d"] keepsD [OF pb_keeps_read, of b "length d"] by simp

section \<open>Properties\<close>

text \<open>The buffer is a queue of bytes: whatever chunks are written into a fresh buffer and
  whatever chunk sizes are then read, every read succeeds, the bytes come out in the order they
  went in, a read past the end gives what there is, and the rest stays pending.\<close>

lemma pb_stream_order:
  "case bindS (mapS pb_write ds) (\<lambda>_. mapS pb_read ns) pb_new of
     (Inr xs, b) \<Rightarrow> length xs = length ns
       \<and> concat xs = take (sum_list ns) (concat ds)
       \<and> pb_pending b = drop (sum_list ns) (concat ds)
       \<and> pb_remainingSize b = length (concat ds) - sum_list ns
   | (Inl e, b) \<Rightarrow> False"
proof -
  obtain b1 where 1: "mapS pb_write ds pb_new = (Inr (map length ds), b1)" "pb_wf b1"
    "pb_pending b1 = concat ds"
    using pb.put_all_pending [OF pb_wf_new, of ds] by auto
  obtain xs b2 where 2: "mapS pb_read ns b1 = (Inr xs, b2)" "pb_wf b2" "length xs = length ns"
    "concat xs = take (sum_list ns) (concat ds)" "pb_pending b2 = drop (sum_list ns) (concat ds)"
    using pb.get_all_chunks [OF 1(2), of ns] 1(3) by auto
  show ?thesis
    using 2(2-) pb.remaining_eq [OF 2(2)] by (simp add: bindS_def 1(1) 2(1))
qed

text \<open>Every method keeps the read position inside the buffer, whether it returns or throws,
  with the one exception of \<^verbatim>\<open>erase\<close>: after it the position can lie past the end (the slicer
  resets it right after erasing).\<close>

lemma pb_methods_keep_wf:
  "keeps pb_wf (pb_write d) \<and> keeps pb_wf (pb_read n) \<and> keeps pb_wf (pb_peek n)
   \<and> keeps pb_wf (pb_readString n) \<and> keeps pb_wf (pb_throwAway n)
   \<and> keeps pb_wf (pb_setReadPos n) \<and> keeps pb_wf (pb_rewind n) \<and> keeps pb_wf (pb_fastforward n)
   \<and> keeps pb_wf pb_clear \<and> keeps pb_wf (pb_insertInt8 n v) \<and> keeps pb_wf (pb_writeString32 s)
   \<and> keeps pb_wf (pb_writeString16 s) \<and> keeps pb_wf (pb_writeString8 s)
   \<and> keeps pb_wf pb_readString32 \<and> keeps pb_wf pb_readString32_value
   \<and> keeps pb_wf pb_readString16 \<and> keeps pb_wf pb_readString8
   \<and> \<not> keeps pb_wf (pb_erase 0 1)"
proof -
  have ff: "keeps pb_wf (pb_fastforward n)" for n
    by (auto simp: keeps_def pb_fastforward_def pb_wf_def)
  have pos: "keeps pb_wf (pb_setReadPos n)" "keeps pb_wf (pb_rewind n)" "keeps pb_wf pb_clear"
    by (auto simp: keeps_def pb_wf_def pb_setReadPos_def pb_rewind_def pb_clear_def
        pb_totalSize_def)
  have ins: "keeps pb_wf (pb_insertInt8 n v)"
    by (auto simp: keeps_def pb_insertInt8_def pb_wf_def string_insert_def)
  have same: "keeps pb_wf (pb_peek n)" "pb_readString n = pb_read n"
    by (auto simp: keeps_def pb_peek_def pb_copy_def pb_readString_def pb_read_def fun_eq_iff)
  have erase: "\<not> keeps pb_wf (pb_erase 0 1)"
    unfolding keeps_def
    by (rule notI, drule spec [of _ "\<lparr>pb_buffer = [0], pb_readPos = 1\<rparr>"])
      (simp add: pb_erase_def pb_wf_def)
  show ?thesis
    by (simp add: ff pos ins same erase pb_throwAway_def pb_keeps_writers pb_keeps_string_readers
        del: One_nat_def)
qed

end
