(* ===== verification/PacketSlicer.thy ===== *)
theory PacketSlicer
  imports PacketBuffer
begin

text \<open>
  The packet layer: \<^verbatim>\<open>PacketCodeDefine.h\<close>, \<^verbatim>\<open>CommonPacketBuilder.h\<close> (\<open>makePacket\<close>) and
  \<^verbatim>\<open>PacketSlicer.h\<close> (\<^verbatim>\<open>CPacketSlicer\<close>), which cuts the received byte stream into packets.

  \<open>slicer\<close> is the object's state.  \<^verbatim>\<open>doParse\<close> is a switch whose cases fall through; each case
  is a \<open>stage_...\<close> function that ends with the next case (\<open>Next\<close>), a \<^verbatim>\<open>return\<close> (\<open>Ret\<close>) or an
  exception (\<open>Exc\<close>).  The properties: the parser loop ends, never reads outside its buffer, and
  delivers exactly the packets that were sent however the stream is cut into chunks, except for
  the identifiers of packets whose identifier is empty, and except that garbage after a complete
  packet in the same call loses that packet.
\<close>

section \<open>Packet codes\<close>

datatype pcode =
    CODE_SYSTEM_JOIN_TO_SERVER | CODE_SYSTEM_JOIN_TO_SUPERPEER | CODE_SYSTEM_RES_JOIN
  | CODE_SYSTEM_LEFT | CODE_SYSTEM_TCPSYN | CODE_SYSTEM_TCPACK | CODE_SYSTEM_CHANGE_SUPERPEER
  | CODE_SYSTEM_SYNC_REQUEST | CODE_SYSTEM_SYNC_START | CODE_SYSTEM_SYNC_COMPLETE
  | CODE_SYSTEM_VERSION_INFO | CODE_SYSTEM_CHANGE_NICKNAME | CODE_SYSTEM_CHAT_MESSAGE
  | CODE_SYSTEM_HISTORY_USER_LIST | CODE_UDP_SERVER_INFO | CODE_BROAD_PROBE_SERVER
  | CODE_BROAD_TEXT_MESSAGE | CODE_PAINT_SET_BG_IMAGE | CODE_PAINT_SET_BG_COLOR
  | CODE_PAINT_SET_BG_GRID_LINE | CODE_PAINT_CLEAR_BG | CODE_PAINT_CLEAR_SCREEN
  | CODE_PAINT_CREATE_ITEM | CODE_TASK_EXECUTE | CODE_WINDOW_RESIZE_MAIN_WND
  | CODE_WINDOW_RESIZE_CANVAS | CODE_WINDOW_RESIZE_WND_SPLITTER
  | CODE_WINDOW_CHANGE_CANVAS_SCROLL_POS | CODE_SCREENSHARE_CHANGE_RECORD_STATUS
  | CODE_SCREENSHARE_CHANGE_SHOW_STREAM | CODE_SCREENSHARE_RES_SHOW_STREAM | CODE_MAX

definition pcodes :: "pcode list" where
  "pcodes =
     [CODE_SYSTEM_JOIN_TO_SERVER, CODE_SYSTEM_JOIN_TO_SUPERPEER, CODE_SYSTEM_RES_JOIN,
      CODE_SYSTEM_LEFT, CODE_SYSTEM_TCPSYN, CODE_SYSTEM_TCPACK, CODE_SYSTEM_CHANGE_SUPERPEER,
      CODE_SYSTEM_SYNC_REQUEST, CODE_SYSTEM_SYNC_START, CODE_SYSTEM_SYNC_COMPLETE,
      CODE_SYSTEM_VERSION_INFO, CODE_SYSTEM_CHANGE_NICKNAME, CODE_SYSTEM_CHAT_MESSAGE,
      CODE_SYSTEM_HISTORY_USER_LIST, CODE_UDP_SERVER_INFO, CODE_BROAD_PROBE_SERVER,
      CODE_BROAD_TEXT_MESSAGE, CODE_PAINT_SET_BG_IMAGE, CODE_PAINT_SET_BG_COLOR,
      CODE_PAINT_SET_BG_GRID_LINE, CODE_PAINT_CLEAR_BG, CODE_PAINT_CLEAR_SCREEN,
      CODE_PAINT_CREATE_ITEM, CODE_TASK_EXECUTE, CODE_WINDOW_RESIZE_MAIN_WND,
      CODE_WINDOW_RESIZE_CANVAS, CODE_WINDOW_RESIZE_WND_SPLITTER,
      CODE_WINDOW_CHANGE_CANVAS_SCROLL_POS, CODE_SCREENSHARE_CHANGE_RECORD_STATUS,
      CODE_SCREENSHARE_CHANGE_SHOW_STREAM, CODE_SCREENSHARE_RES_SHOW_STREAM, CODE_MAX]"

text \<open>The value of an enumerator is its place in the enumeration.\<close>

fun index_of :: "'a \<Rightarrow> 'a list \<Rightarrow> nat" where
  "index_of x [] = 0"
| "index_of x (y # ys) = (if x = y then 0 else Suc (index_of x ys))"

definition code_num :: "pcode \<Rightarrow> nat" where
  "code_num c = index_of c pcodes"

abbreviation code_word :: "pcode \<Rightarrow> 16 word" where
  "code_word c \<equiv> of_nat (code_num c)"

lemma index_of_nth: "x \<in> set xs \<Longrightarrow> index_of x xs < length xs \<and> xs ! index_of x xs = x"
  by (induction xs) auto

lemma pcodes_all: "c \<in> set pcodes"
  by (cases c) (simp_all add: pcodes_def)

lemma code_num_inj: "code_num c = code_num d \<Longrightarrow> c = d"
  unfolding code_num_def by (metis index_of_nth pcodes_all)

instantiation pcode :: linorder
begin

definition less_eq_pcode :: "pcode \<Rightarrow> pcode \<Rightarrow> bool" where
  "less_eq_pcode c d \<longleftrightarrow> code_num c \<le> code_num d"

definition less_pcode :: "pcode \<Rightarrow> pcode \<Rightarrow> bool" where
  "less_pcode c d \<longleftrightarrow> code_num c < code_num d"

instance
  by intro_classes (auto simp: less_eq_pcode_def less_pcode_def intro: code_num_inj)

end

lemma code_num_MAX [simp]: "code_num CODE_MAX = 31"
  by (simp add: code_num_def pcodes_def)

lemma code_num_less: "c < CODE_MAX \<longleftrightarrow> c \<noteq> CODE_MAX"
  by (cases c) (simp_all add: less_pcode_def code_num_def pcodes_def)

section \<open>Packets\<close>

record CPacketData =
  pd_code :: "16 word"
  pd_fromId :: bytes
  pd_toId :: bytes
  pd_body :: bytes

definition NET_MAGIC_CODE :: "16 word" where
  "NET_MAGIC_CODE = 0xBEBE"

definition MAX_PACKET_BODY_SIZE :: "32 word" where
  "MAX_PACKET_BODY_SIZE = 200000000"

definition makePacket :: "16 word \<Rightarrow> bytes \<Rightarrow> bytes option \<Rightarrow> bytes option \<Rightarrow> bytes result" where
  "makePacket code body fromId toId =
     bindE (run_writes
       [wr (\<lambda>b p. writeInt16 b p NET_MAGIC_CODE True),
        wr (\<lambda>b p. writeInt16 b p code True),
        wr (\<lambda>b p. writeString8 b p (case fromId of Some i \<Rightarrow> i | None \<Rightarrow> [])),
        wr (\<lambda>b p. writeString8 b p (case toId of Some i \<Rightarrow> i | None \<Rightarrow> [])),
        wr (\<lambda>b p. writeInt32 b p (of_nat (length body)) True)]
       ([], 0)) (\<lambda>(buf, pos). Inr (buf @ body))"

section \<open>The slicer's state\<close>

datatype ParsingState =
    STATE_INIT | STATE_HEADER_MAGIC | STATE_HEADER_CODE | STATE_HEADER_FROMID
  | STATE_HEADER_TOID | STATE_HEADER_BLEN | STATE_BODY

record slicer =
  sl_buffer :: pbuf
  sl_parsedItems :: "CPacketData list"
  sl_state :: ParsingState
  sl_fromIdLen :: byte
  sl_toIdLen :: byte
  sl_fromId :: bytes
  sl_toId :: bytes
  sl_headerLen :: "16 word"
  sl_code :: "16 word"
  sl_bodyLen :: "32 word"

definition sl_init :: "slicer \<Rightarrow> slicer" where
  "sl_init s = s\<lparr>sl_headerLen := 0, sl_state := STATE_HEADER_MAGIC,
                 sl_buffer := snd (pb_clear (sl_buffer s)), sl_parsedItems := []\<rparr>"

text \<open>
  The constructor calls \<^verbatim>\<open>init\<close> and leaves the integers \<^verbatim>\<open>currFromIdLen_\<close>, \<^verbatim>\<open>currToIdLen_\<close>,
  \<^verbatim>\<open>currCode_\<close> and \<^verbatim>\<open>currBodyLen_\<close> uninitialised: any values, written before they are read.
\<close>

definition sl_new :: "byte \<Rightarrow> byte \<Rightarrow> 16 word \<Rightarrow> 32 word \<Rightarrow> slicer" where
  "sl_new flen tlen c blen = sl_init
     \<lparr>sl_buffer = pb_new, sl_parsedItems = [], sl_state = STATE_INIT, sl_fromIdLen = flen,
      sl_toIdLen = tlen, sl_fromId = [], sl_toId = [], sl_headerLen = 0, sl_code = c,
      sl_bodyLen = blen\<rparr>"

definition addBuffer :: "bytes \<Rightarrow> slicer \<Rightarrow> slicer" where
  "addBuffer d s = s\<lparr>sl_buffer := snd (pb_write d (sl_buffer s))\<rparr>"

definition buffer_size :: "slicer \<Rightarrow> nat" where
  "buffer_size s = pb_totalSize (sl_buffer s)"

definition parsedItemCount :: "slicer \<Rightarrow> nat" where
  "parsedItemCount s = length (sl_parsedItems s)"

definition parsedItem :: "nat \<Rightarrow> slicer \<Rightarrow> CPacketData option" where
  "parsedItem i s = (if length (sl_parsedItems s) \<le> i then None else Some (sl_parsedItems s ! i))"

section \<open>One run of doParse\<close>

datatype 's stage = Next 's | Ret bool 's | Exc perror 's

fun and_then :: "'s stage \<Rightarrow> ('s \<Rightarrow> 's stage) \<Rightarrow> 's stage" where
  "and_then (Next s) f = f s"
| "and_then (Ret b s) f = Ret b s"
| "and_then (Exc e s) f = Exc e s"

definition on_buffer ::
  "(pbuf, 'a) meth \<Rightarrow> ('a \<Rightarrow> slicer \<Rightarrow> slicer stage) \<Rightarrow> slicer \<Rightarrow> slicer stage" where
  "on_buffer m k s =
     (case m (sl_buffer s) of
        (Inl e, b) \<Rightarrow> Exc e (s\<lparr>sl_buffer := b\<rparr>)
      | (Inr a, b) \<Rightarrow> k a (s\<lparr>sl_buffer := b\<rparr>))"

abbreviation sl_remaining :: "slicer \<Rightarrow> nat" where
  "sl_remaining s \<equiv> pb_remainingSize (sl_buffer s)"

abbreviation add_header :: "nat \<Rightarrow> slicer \<Rightarrow> slicer" where
  "add_header n s \<equiv> s\<lparr>sl_headerLen := sl_headerLen s + of_nat n\<rparr>"

text \<open>
  \<^verbatim>\<open>_readString8\<close>: \<open>Next\<close> for true and \<open>Ret False\<close> for false.  \<open>len\<close>, \<open>set_len\<close> and \<open>set_str\<close>
  are the references to the length and string members.
\<close>

definition sl_readString8 ::
  "(slicer \<Rightarrow> byte) \<Rightarrow> (byte \<Rightarrow> slicer \<Rightarrow> slicer) \<Rightarrow> (bytes \<Rightarrow> slicer \<Rightarrow> slicer)
   \<Rightarrow> slicer \<Rightarrow> slicer stage" where
  "sl_readString8 len set_len set_str s =
     and_then
       (if len s \<le> 0
        then if sl_remaining s < 1 then Ret False s
             else on_buffer pb_readInt8 (\<lambda>n s. Next (set_len n (add_header 1 s))) s
        else Next s)
       (\<lambda>s. if len s > 0
            then if sl_remaining s < unat (len s) then Ret False s
                 else on_buffer (pb_read (unat (len s)))
                        (\<lambda>d s. Next (set_str d (add_header (length d) s))) s
            else Next s)"

definition stage_magic :: "slicer \<Rightarrow> slicer stage" where
  "stage_magic s0 =
     (let s = s0\<lparr>sl_fromIdLen := 0, sl_toIdLen := 0, sl_headerLen := 0\<rparr> in
      if sl_remaining s < 2 then Ret False s
      else on_buffer pb_readInt16 (\<lambda>magic s.
        let s = add_header 2 s in
        if magic \<noteq> NET_MAGIC_CODE then Ret False (sl_init s)
        else Next (s\<lparr>sl_state := STATE_HEADER_CODE\<rparr>)) s)"

definition stage_code :: "slicer \<Rightarrow> slicer stage" where
  "stage_code s =
     (if sl_remaining s < 2 then Ret False s
      else on_buffer pb_readInt16 (\<lambda>c s.
        let s = add_header 2 (s\<lparr>sl_code := c\<rparr>) in
        if sl_code s \<ge> code_word CODE_MAX then Ret False (sl_init s)
        else Next (s\<lparr>sl_state := STATE_HEADER_FROMID\<rparr>)) s)"

definition stage_fromid :: "slicer \<Rightarrow> slicer stage" where
  "stage_fromid s =
     and_then (sl_readString8 sl_fromIdLen (\<lambda>n s. s\<lparr>sl_fromIdLen := n\<rparr>)
                 (\<lambda>d s. s\<lparr>sl_fromId := d\<rparr>) s)
       (\<lambda>s. Next (s\<lparr>sl_state := STATE_HEADER_TOID\<rparr>))"

definition stage_toid :: "slicer \<Rightarrow> slicer stage" where
  "stage_toid s =
     and_then (sl_readString8 sl_toIdLen (\<lambda>n s. s\<lparr>sl_toIdLen := n\<rparr>)
                 (\<lambda>d s. s\<lparr>sl_toId := d\<rparr>) s)
       (\<lambda>s. Next (s\<lparr>sl_state := STATE_HEADER_BLEN\<rparr>))"

definition stage_blen :: "slicer \<Rightarrow> slicer stage" where
  "stage_blen s =
     (if sl_remaining s < 4 then Ret False s
      else on_buffer pb_readInt32 (\<lambda>n s.
        let s = add_header 4 (s\<lparr>sl_bodyLen := n\<rparr>) in
        if sl_bodyLen s > MAX_PACKET_BODY_SIZE then Ret False (sl_init s)
        else Next (s\<lparr>sl_state := STATE_BODY\<rparr>)) s)"

text \<open>
  \<^verbatim>\<open>currHeaderLen_ + currBodyLen_\<close> is an unsigned 32-bit sum.  The body is copied from
  \<^verbatim>\<open>basePtr() + currHeaderLen_\<close>, whatever the read position is.
\<close>

definition stage_body :: "slicer \<Rightarrow> slicer stage" where
  "stage_body s =
     (let h = unat (sl_headerLen s); n = unat (sl_bodyLen s); base = pb_buffer (sl_buffer s) in
      if sl_remaining s < n then Ret False s
      else if length base < h + n then Exc BufferOverread s
      else
        (let data = \<lparr>pd_code = sl_code s, pd_fromId = sl_fromId s, pd_toId = sl_toId s,
                     pd_body = take n (drop h base)\<rparr> in
         on_buffer (pb_erase 0 (unat (ucast (sl_headerLen s) + sl_bodyLen s :: 32 word)))
           (\<lambda>_. on_buffer (pb_setReadPos 0) (\<lambda>_ s.
              Ret True (s\<lparr>sl_headerLen := 0, sl_state := STATE_HEADER_MAGIC\<rparr>)))
           (s\<lparr>sl_parsedItems := sl_parsedItems s @ [data]\<rparr>)))"

definition from_blen :: "slicer \<Rightarrow> slicer stage" where
  "from_blen s = and_then (stage_blen s) stage_body"

definition from_toid :: "slicer \<Rightarrow> slicer stage" where
  "from_toid s = and_then (stage_toid s) from_blen"

definition from_fromid :: "slicer \<Rightarrow> slicer stage" where
  "from_fromid s = and_then (stage_fromid s) from_toid"

definition from_code :: "slicer \<Rightarrow> slicer stage" where
  "from_code s = and_then (stage_code s) from_fromid"

definition from_magic :: "slicer \<Rightarrow> slicer stage" where
  "from_magic s = and_then (stage_magic s) from_code"

text \<open>The switch enters at the case of the state and falls through to the last case.\<close>

definition doParse_switch :: "slicer \<Rightarrow> slicer stage" where
  "doParse_switch s =
     (case sl_state s of
        STATE_INIT \<Rightarrow> from_magic ((sl_init s)\<lparr>sl_state := STATE_HEADER_MAGIC\<rparr>)
      | STATE_HEADER_MAGIC \<Rightarrow> from_magic s
      | STATE_HEADER_CODE \<Rightarrow> from_code s
      | STATE_HEADER_FROMID \<Rightarrow> from_fromid s
      | STATE_HEADER_TOID \<Rightarrow> from_toid s
      | STATE_HEADER_BLEN \<Rightarrow> from_blen s
      | STATE_BODY \<Rightarrow> stage_body s)"

definition doParse :: "(slicer, bool) meth" where
  "doParse s =
     (case doParse_switch s of
        Next s' \<Rightarrow> (Inr True, s')
      | Ret b s' \<Rightarrow> (Inr b, s')
      | Exc (CPacketException m) s' \<Rightarrow> (Inr False, s')
      | Exc e s' \<Rightarrow> (Inl e, s'))"

lemma pb_read_buffer:
  "pb_read n b = (r, b') \<Longrightarrow> pb_buffer b' = pb_buffer b"
  "pb_read n b = (Inr d, b') \<Longrightarrow> length d \<le> n"
  by (auto simp: pb_read_def pb_copy_def pb_fastforward_def bindS_def Let_def split: if_splits)

lemma pb_readInt_buffer:
  "pb_readInt16 b = (r, b') \<Longrightarrow> pb_buffer b' = pb_buffer b"
  "pb_readInt8 b = (r8, b') \<Longrightarrow> pb_buffer b' = pb_buffer b"
  "pb_readInt32 b = (r32, b') \<Longrightarrow> pb_buffer b' = pb_buffer b"
  by (auto simp: pb_readInt16_def pb_readInt8_def pb_readInt32_def bindS_def
      split: if_splits prod.splits sum.splits dest: pb_read_buffer(1))

lemma and_then_eq_Next: "and_then x f = Next s \<longleftrightarrow> (\<exists>s'. x = Next s' \<and> f s' = Next s)"
  by (cases x) simp_all

lemma and_then_eq_Ret:
  "and_then x f = Ret b s \<longleftrightarrow> x = Ret b s \<or> (\<exists>s'. x = Next s' \<and> f s' = Ret b s)"
  by (cases x) simp_all

lemma on_buffer_eq_Next:
  "on_buffer m k s = Next s' \<longleftrightarrow>
     (\<exists>a b. m (sl_buffer s) = (Inr a, b) \<and> k a (s\<lparr>sl_buffer := b\<rparr>) = Next s')"
  by (auto simp: on_buffer_def split: prod.splits sum.splits)

lemma on_buffer_eq_Ret:
  "on_buffer m k s = Ret c s' \<longleftrightarrow>
     (\<exists>a b. m (sl_buffer s) = (Inr a, b) \<and> k a (s\<lparr>sl_buffer := b\<rparr>) = Ret c s')"
  by (auto simp: on_buffer_def split: prod.splits sum.splits)

abbreviation sl_bytes :: "slicer \<Rightarrow> bytes" where
  "sl_bytes s \<equiv> pb_buffer (sl_buffer s)"

definition grows :: "(slicer \<Rightarrow> slicer stage) \<Rightarrow> bool" where
  "grows f \<longleftrightarrow> (\<forall>s s'. f s = Next s' \<longrightarrow> sl_bytes s' = sl_bytes s
     \<and> (\<exists>m \<le> 256. sl_headerLen s' = sl_headerLen s + of_nat m))"

lemma growsI:
  "(\<And>s s'. f s = Next s' \<Longrightarrow> sl_bytes s' = sl_bytes s
      \<and> (\<exists>m \<le> 256. sl_headerLen s' = sl_headerLen s + of_nat m)) \<Longrightarrow> grows f"
  by (simp add: grows_def)

lemma growsD:
  assumes "grows f" and "f s = Next s'"
  obtains m where "m \<le> 256" and "sl_headerLen s' = sl_headerLen s + of_nat m"
    and "sl_bytes s' = sl_bytes s"
  using assms unfolding grows_def by blast

lemma grows_code: "grows stage_code"
proof (rule growsI)
  fix s s' assume "stage_code s = Next s'"
  then have "sl_bytes s' = sl_bytes s" "sl_headerLen s' = sl_headerLen s + of_nat 2"
    by (auto simp: stage_code_def on_buffer_eq_Next Let_def dest: pb_readInt_buffer split: if_splits)
  moreover have "2 \<le> (256 :: nat)" by simp
  ultimately show "sl_bytes s' = sl_bytes s
      \<and> (\<exists>m \<le> 256. sl_headerLen s' = sl_headerLen s + of_nat m)" by blast
qed

lemma grows_blen: "grows stage_blen"
proof (rule growsI)
  fix s s' assume "stage_blen s = Next s'"
  then have "sl_bytes s' = sl_bytes s" "sl_headerLen s' = sl_headerLen s + of_nat 4"
    by (auto simp: stage_blen_def on_buffer_eq_Next Let_def dest: pb_readInt_buffer split: if_splits)
  moreover have "4 \<le> (256 :: nat)" by simp
  ultimately show "sl_bytes s' = sl_bytes s
      \<and> (\<exists>m \<le> 256. sl_headerLen s' = sl_headerLen s + of_nat m)" by blast
qed

lemma grows_readString8:
  assumes set: "\<And>n s. sl_buffer (set_len n s) = sl_buffer s \<and> sl_headerLen (set_len n s) = sl_headerLen s"
    "\<And>d s. sl_buffer (set_str d s) = sl_buffer s \<and> sl_headerLen (set_str d s) = sl_headerLen s"
  shows "grows (sl_readString8 len set_len set_str)"
proof (rule growsI)
  fix s s'
  assume "sl_readString8 len set_len set_str s = Next s'"
  then obtain s1
    where 1: "(if len s \<le> 0
        then if sl_remaining s < 1 then Ret False s
             else on_buffer pb_readInt8 (\<lambda>n s. Next (set_len n (add_header 1 s))) s
        else Next s) = Next s1"
      and 2: "(if len s1 > 0
            then if sl_remaining s1 < unat (len s1) then Ret False s1
                 else on_buffer (pb_read (unat (len s1)))
                        (\<lambda>d s. Next (set_str d (add_header (length d) s))) s1
            else Next s1) = Next s'"
    unfolding sl_readString8_def and_then_eq_Next by blast
  from 1 obtain k where k: "k \<le> 1" "sl_bytes s1 = sl_bytes s"
      "sl_headerLen s1 = sl_headerLen s + of_nat k"
  proof (cases "len s \<le> 0")
    case True
    with 1 have "sl_bytes s1 = sl_bytes s" "sl_headerLen s1 = sl_headerLen s + of_nat 1"
      by (auto simp: on_buffer_eq_Next set split: if_splits dest: pb_readInt_buffer)
    then show ?thesis using that [of 1] by simp
  qed (use that [of 0] in simp)
  obtain n where n: "n \<le> unat (len s1)" "sl_bytes s' = sl_bytes s1"
      "sl_headerLen s' = sl_headerLen s1 + of_nat n"
  proof (cases "len s1 > 0")
    case True
    with 2 obtain d b where "pb_read (unat (len s1)) (sl_buffer s1) = (Inr d, b)"
      and "s' = set_str d (add_header (length d) (s1\<lparr>sl_buffer := b\<rparr>))"
      by (auto simp: on_buffer_eq_Next split: if_splits)
    then show ?thesis using that [of "length d"] by (auto simp: set dest: pb_read_buffer)
  qed (use that [of 0] 2 in simp)
  have "unat (len s1) \<le> 255" by (rule unat_byte_le)
  then have "k + n \<le> 256" using k(1) n(1) by linarith
  moreover have "sl_headerLen s' = sl_headerLen s + of_nat (k + n)"
    using k(3) n(3) by (simp add: add.assoc)
  ultimately show "sl_bytes s' = sl_bytes s
      \<and> (\<exists>m \<le> 256. sl_headerLen s' = sl_headerLen s + of_nat m)"
    using k(2) n(2) by metis
qed

lemma grows_and_then_set:
  assumes "grows f" and "\<And>s. sl_buffer (g s) = sl_buffer s \<and> sl_headerLen (g s) = sl_headerLen s"
  shows "grows (\<lambda>s. and_then (f s) (\<lambda>s. Next (g s)))"
  using assms unfolding grows_def and_then_eq_Next by fastforce

lemma grows_fromid: "grows stage_fromid"
  unfolding stage_fromid_def
  by (intro grows_and_then_set grows_readString8) simp_all

lemma grows_toid: "grows stage_toid"
  unfolding stage_toid_def
  by (intro grows_and_then_set grows_readString8) simp_all

lemma magic_Next:
  "stage_magic s = Next s' \<Longrightarrow> sl_bytes s' = sl_bytes s \<and> sl_headerLen s' = 2"
  by (auto simp: stage_magic_def on_buffer_eq_Next Let_def dest: pb_readInt_buffer split: if_splits)

lemma blen_Next: "stage_blen s = Next s' \<Longrightarrow> sl_bodyLen s' \<le> MAX_PACKET_BODY_SIZE"
  by (auto simp: stage_blen_def on_buffer_eq_Next Let_def not_less split: if_splits)

lemma body_Ret_True:
  assumes "stage_body s = Ret True s'"
  shows "sl_state s' = STATE_HEADER_MAGIC"
    and "length (sl_bytes s')
      = length (sl_bytes s) - unat (ucast (sl_headerLen s) + sl_bodyLen s :: 32 word)"
    and "unat (ucast (sl_headerLen s) + sl_bodyLen s :: 32 word) \<le> length (sl_bytes s)"
  using assms
  by (auto simp: stage_body_def Let_def on_buffer_eq_Ret pb_erase_def pb_setReadPos_def
      split: if_splits)

lemma body_not_Next: "stage_body s \<noteq> Next s'"
  by (auto simp: stage_body_def Let_def on_buffer_eq_Next split: if_splits)


lemma body_amount_pos:
  assumes "unat (h :: 16 word) \<ge> 1" and "unat h \<le> 60000" and "n \<le> MAX_PACKET_BODY_SIZE"
  shows "unat (ucast h + n :: 32 word) = unat h + unat n"
proof -
  have "unat n \<le> 200000000"
    using assms(3) by (simp add: MAX_PACKET_BODY_SIZE_def word_le_nat_alt)
  with assms(2) show ?thesis
    by (simp add: unat_word_ariths unsigned_ucast_eq take_bit_eq_mod)
qed

lemma readString8_not_True: "sl_readString8 len set_len set_str s \<noteq> Ret True s'"
  by (auto simp: sl_readString8_def and_then_eq_Ret on_buffer_eq_Ret split: if_splits)

lemma stages_not_True:
  "stage_magic s \<noteq> Ret True s'" "stage_code s \<noteq> Ret True s'" "stage_fromid s \<noteq> Ret True s'"
  "stage_toid s \<noteq> Ret True s'" "stage_blen s \<noteq> Ret True s'"
  by (auto simp: stage_magic_def stage_code_def stage_fromid_def stage_toid_def stage_blen_def
      readString8_not_True and_then_eq_Ret on_buffer_eq_Ret Let_def split: if_splits)

lemma from_True:
  "from_blen s = Ret True s' \<Longrightarrow> \<exists>s1. stage_blen s = Next s1 \<and> stage_body s1 = Ret True s'"
  "from_toid s = Ret True s' \<Longrightarrow> \<exists>s1. stage_toid s = Next s1 \<and> from_blen s1 = Ret True s'"
  "from_fromid s = Ret True s' \<Longrightarrow> \<exists>s1. stage_fromid s = Next s1 \<and> from_toid s1 = Ret True s'"
  "from_code s = Ret True s' \<Longrightarrow> \<exists>s1. stage_code s = Next s1 \<and> from_fromid s1 = Ret True s'"
  "from_magic s = Ret True s' \<Longrightarrow> \<exists>s1. stage_magic s = Next s1 \<and> from_code s1 = Ret True s'"
  by (auto simp: from_blen_def from_toid_def from_fromid_def from_code_def from_magic_def
      and_then_eq_Ret stages_not_True)

lemma from_not_Next:
  "from_blen s \<noteq> Next s'" "from_toid s \<noteq> Next s'" "from_fromid s \<noteq> Next s'"
  "from_code s \<noteq> Next s'" "from_magic s \<noteq> Next s'"
  by (auto simp: from_blen_def from_toid_def from_fromid_def from_code_def from_magic_def
      and_then_eq_Next body_not_Next)

lemma from_magic_True:
  assumes "from_magic s = Ret True s'"
  shows "sl_state s' = STATE_HEADER_MAGIC" and "length (sl_bytes s') < length (sl_bytes s)"
proof -
  from assms obtain s1 s2 s3 s4 s5
    where 1: "stage_magic s = Next s1" and 2: "stage_code s1 = Next s2"
      and 3: "stage_fromid s2 = Next s3" and 4: "stage_toid s3 = Next s4"
      and 5: "stage_blen s4 = Next s5" and 6: "stage_body s5 = Ret True s'"
    using from_True by metis
  show "sl_state s' = STATE_HEADER_MAGIC" using body_Ret_True(1) [OF 6] .
  obtain a where a: "a \<le> 256" "sl_headerLen s2 = sl_headerLen s1 + of_nat a" "sl_bytes s2 = sl_bytes s1"
    using growsD [OF grows_code 2] .
  obtain b where b: "b \<le> 256" "sl_headerLen s3 = sl_headerLen s2 + of_nat b" "sl_bytes s3 = sl_bytes s2"
    using growsD [OF grows_fromid 3] .
  obtain c where c: "c \<le> 256" "sl_headerLen s4 = sl_headerLen s3 + of_nat c" "sl_bytes s4 = sl_bytes s3"
    using growsD [OF grows_toid 4] .
  obtain d where d: "d \<le> 256" "sl_headerLen s5 = sl_headerLen s4 + of_nat d" "sl_bytes s5 = sl_bytes s4"
    using growsD [OF grows_blen 5] .
  have "2 + a + b + c + d < 65536" using a(1) b(1) c(1) d(1) by linarith
  from unat_of_nat16 [OF this] have h: "unat (sl_headerLen s5) = 2 + a + b + c + d"
    using magic_Next [OF 1] a b c d by (simp add: add.assoc)
  have "unat (ucast (sl_headerLen s5) + sl_bodyLen s5 :: 32 word) \<ge> 1"
    using body_amount_pos [OF _ _ blen_Next [OF 5], of "sl_headerLen s5"] h a(1) b(1) c(1) d(1)
    by simp
  then show "length (sl_bytes s') < length (sl_bytes s)"
    using body_Ret_True(2,3) [OF 6] magic_Next [OF 1] a b c d by simp
qed


lemma later_True:
  "from_blen s = Ret True s' \<Longrightarrow> sl_state s' = STATE_HEADER_MAGIC \<and> length (sl_bytes s') \<le> length (sl_bytes s)"
  "from_toid s = Ret True s' \<Longrightarrow> sl_state s' = STATE_HEADER_MAGIC \<and> length (sl_bytes s') \<le> length (sl_bytes s)"
  "from_fromid s = Ret True s' \<Longrightarrow> sl_state s' = STATE_HEADER_MAGIC \<and> length (sl_bytes s') \<le> length (sl_bytes s)"
  "from_code s = Ret True s' \<Longrightarrow> sl_state s' = STATE_HEADER_MAGIC \<and> length (sl_bytes s') \<le> length (sl_bytes s)"
proof -
  show B: "sl_state s' = STATE_HEADER_MAGIC \<and> length (sl_bytes s') \<le> length (sl_bytes s)"
    if "from_blen s = Ret True s'" for s
  proof -
    from from_True(1) [OF that] obtain s1 where "stage_blen s = Next s1" "stage_body s1 = Ret True s'"
      by blast
    then show ?thesis using growsD [OF grows_blen] body_Ret_True
      by (metis diff_le_self)
  qed
  show T: "sl_state s' = STATE_HEADER_MAGIC \<and> length (sl_bytes s') \<le> length (sl_bytes s)"
    if "from_toid s = Ret True s'" for s
    using from_True(2) [OF that] B growsD [OF grows_toid] by metis
  show F: "sl_state s' = STATE_HEADER_MAGIC \<and> length (sl_bytes s') \<le> length (sl_bytes s)"
    if "from_fromid s = Ret True s'" for s
    using from_True(3) [OF that] T growsD [OF grows_fromid] by metis
  show "sl_state s' = STATE_HEADER_MAGIC \<and> length (sl_bytes s') \<le> length (sl_bytes s)"
    if "from_code s = Ret True s'" for s
    using from_True(4) [OF that] F growsD [OF grows_code] by metis
qed

lemma doParse_True_iff: "doParse s = (Inr True, s') \<longleftrightarrow> doParse_switch s = Ret True s'"
  by (auto simp: doParse_def doParse_switch_def body_not_Next from_not_Next
      split: stage.splits perror.splits ParsingState.splits)

definition slicer_size :: "slicer \<Rightarrow> nat" where
  "slicer_size s = 2 * length (sl_bytes s)
     + (if sl_state s = STATE_HEADER_MAGIC then 0 else 1)"

lemma doParse_True_decreases:
  assumes "doParse s = (Inr True, s')"
  shows "slicer_size s' < slicer_size s"
proof -
  from assms have t: "doParse_switch s = Ret True s'" by (simp add: doParse_True_iff)
  have init: "length (sl_bytes (sl_init s)) = 0" by (simp add: sl_init_def pb_clear_def)
  show ?thesis
  proof (cases "sl_state s")
    case STATE_INIT
    with t from_magic_True [of "(sl_init s)\<lparr>sl_state := STATE_HEADER_MAGIC\<rparr>" s'] init
    show ?thesis by (simp add: doParse_switch_def)
  next
    case STATE_HEADER_MAGIC
    with t from_magic_True [of s s'] show ?thesis
      by (simp add: doParse_switch_def slicer_size_def)
  next
    case STATE_BODY
    with t body_Ret_True [of s s'] show ?thesis
      by (simp add: doParse_switch_def slicer_size_def)
  qed (use t later_True [of s s'] in \<open>auto simp: doParse_switch_def slicer_size_def\<close>)
qed

function parse_loop :: "(slicer, unit) meth" where
  "parse_loop s =
     (case doParse s of
        (Inr True, s') \<Rightarrow> parse_loop s'
      | (Inr False, s') \<Rightarrow> (Inr (), s')
      | (Inl e, s') \<Rightarrow> (Inl e, s'))"
  by pat_completeness auto

termination
  by (relation "measure slicer_size") (auto intro: doParse_True_decreases)

definition parse :: "(slicer, bool) meth" where
  "parse s =
     (case parse_loop (s\<lparr>sl_parsedItems := []\<rparr>) of
        (Inl e, s') \<Rightarrow> (Inl e, s')
      | (Inr _, s') \<Rightarrow> (Inr (sl_parsedItems s' \<noteq> []), s'))"

section \<open>Slicing a stream of packets\<close>

text \<open>The bytes of a packet on the wire, and the packets the format can carry.\<close>

definition pkt_bytes :: "CPacketData \<Rightarrow> bytes" where
  "pkt_bytes p = enc_int16 NET_MAGIC_CODE @ enc_int16 (pd_code p) @ enc_string8 (pd_fromId p)
     @ enc_string8 (pd_toId p) @ enc_int32 (of_nat (length (pd_body p))) @ pd_body p"

definition pkt_ok :: "CPacketData \<Rightarrow> bool" where
  "pkt_ok p \<longleftrightarrow> pd_code p < code_word CODE_MAX \<and> fits8 (pd_fromId p) \<and> fits8 (pd_toId p)
     \<and> length (pd_body p) \<le> unat MAX_PACKET_BODY_SIZE"

lemma makePacket_bytes:
  assumes "fits8 (case i of Some x \<Rightarrow> x | None \<Rightarrow> [])" "fits8 (case j of Some x \<Rightarrow> x | None \<Rightarrow> [])"
  shows "makePacket c body i j = Inr (pkt_bytes \<lparr>pd_code = c,
    pd_fromId = (case i of Some x \<Rightarrow> x | None \<Rightarrow> []), pd_toId = (case j of Some x \<Rightarrow> x | None \<Rightarrow> []),
    pd_body = body\<rparr>)"
  using assms by (simp add: makePacket_def pkt_bytes_def codec_simps)

text \<open>Reading at the position where the field \<open>x\<close> starts, when all of it has arrived.\<close>

lemma pb_read_at:
  assumes "pb_wf b" and "pb_buffer b @ q = a @ x @ c" and "pb_readPos b = length a"
    and "\<not> pb_remainingSize b < n" and "n = length x"
  shows "pb_read n b = (Inr x, b\<lparr>pb_readPos := length a + n\<rparr>)"
proof -
  have len: "length a + length x \<le> length (pb_buffer b)"
    using assms by (simp add: pb_wf_def pb_remainingSize_def)
  have "pb_buffer b = take (length (pb_buffer b)) (a @ x @ c)"
    by (metis append_eq_conv_conj assms(2))
  also have "\<dots> = a @ x @ take (length (pb_buffer b) - length a - length x) c"
    using len by simp
  finally have "pb_pending b = x @ take (length (pb_buffer b) - length a - length x) c"
    unfolding pb_pending_def assms(3) by (metis append_eq_conv_conj)
  from pb_read_front [OF assms(1) this assms(5)] show ?thesis
    using assms(3) by simp
qed

lemma pb_readInt16_at:
  assumes "pb_wf b" and "pb_buffer b @ q = a @ enc_int16 v @ c" and "pb_readPos b = length a"
    and "\<not> pb_remainingSize b < 2"
  shows "pb_readInt16 b = (Inr v, b\<lparr>pb_readPos := length a + 2\<rparr>)"
  using pb_read_at [OF assms(1-4)]
  by (simp add: pb_readInt16_def bindS_def littleEndianMode_def) (simp add: enc_int16_def)

lemma pb_readInt8_at:
  assumes "pb_wf b" and "pb_buffer b @ q = a @ enc_int8 v @ c" and "pb_readPos b = length a"
    and "\<not> pb_remainingSize b < 1"
  shows "pb_readInt8 b = (Inr v, b\<lparr>pb_readPos := length a + 1\<rparr>)"
  using pb_read_at [OF assms(1-4)]
  by (simp add: pb_readInt8_def bindS_def) (simp add: enc_int8_def)

lemma pb_readInt32_at:
  assumes "pb_wf b" and "pb_buffer b @ q = a @ enc_int32 v @ c" and "pb_readPos b = length a"
    and "\<not> pb_remainingSize b < 4"
  shows "pb_readInt32 b = (Inr v, b\<lparr>pb_readPos := length a + 4\<rparr>)"
  using pb_read_at [OF assms(1-4)]
  by (simp add: pb_readInt32_def bindS_def littleEndianMode_def) (simp add: enc_int32_def)

text \<open>
  An identifier of length 0 is not stored, so the member keeps the identifier of the packet
  before.
\<close>

definition carry :: "bytes \<Rightarrow> bytes \<Rightarrow> bytes" where
  "carry old new = (if new = [] then old else new)"

text \<open>
  The state between two calls, in the middle of packet \<open>p\<close>, when the identifiers were \<open>f\<close> and
  \<open>t\<close> at its start: how much of its header has been read and stored.
\<close>

definition sl_at :: "CPacketData \<Rightarrow> bytes \<Rightarrow> bytes \<Rightarrow> slicer \<Rightarrow> bool" where
  "sl_at p f t s \<longleftrightarrow>
     pb_wf (sl_buffer s) \<and> pb_readPos (sl_buffer s) = unat (sl_headerLen s) \<and>
     (let r = pb_readPos (sl_buffer s); i = length (pd_fromId p); j = length (pd_toId p) in
      case sl_state s of
        STATE_INIT \<Rightarrow> False
      | STATE_HEADER_MAGIC \<Rightarrow> r = 0 \<and> sl_fromId s = f \<and> sl_toId s = t
      | STATE_HEADER_CODE \<Rightarrow> r = 2 \<and> sl_fromIdLen s = 0 \<and> sl_toIdLen s = 0
          \<and> sl_fromId s = f \<and> sl_toId s = t
      | STATE_HEADER_FROMID \<Rightarrow> sl_code s = pd_code p \<and> sl_toIdLen s = 0
          \<and> sl_fromId s = f \<and> sl_toId s = t
          \<and> (r = 4 \<and> sl_fromIdLen s = 0
             \<or> r = 5 \<and> sl_fromIdLen s = of_nat i \<and> 0 < i)
      | STATE_HEADER_TOID \<Rightarrow> sl_code s = pd_code p \<and> sl_fromId s = carry f (pd_fromId p)
          \<and> sl_toId s = t
          \<and> (r = 5 + i \<and> sl_toIdLen s = 0
             \<or> r = 6 + i \<and> sl_toIdLen s = of_nat j \<and> 0 < j)
      | STATE_HEADER_BLEN \<Rightarrow> sl_code s = pd_code p \<and> sl_fromId s = carry f (pd_fromId p)
          \<and> sl_toId s = carry t (pd_toId p) \<and> r = 6 + i + j
      | STATE_BODY \<Rightarrow> sl_code s = pd_code p \<and> sl_fromId s = carry f (pd_fromId p)
          \<and> sl_toId s = carry t (pd_toId p) \<and> r = 10 + i + j
          \<and> sl_bodyLen s = of_nat (length (pd_body p)))"

abbreviation sl_same :: "slicer \<Rightarrow> slicer \<Rightarrow> bool" where
  "sl_same s s' \<equiv> sl_bytes s' = sl_bytes s \<and> sl_parsedItems s' = sl_parsedItems s"

definition stage_ok ::
  "CPacketData \<Rightarrow> bytes \<Rightarrow> bytes \<Rightarrow> ParsingState \<Rightarrow> slicer \<Rightarrow> slicer stage \<Rightarrow> bool" where
  "stage_ok p f t Y s x \<longleftrightarrow>
     (case x of
        Next s' \<Rightarrow> sl_at p f t s' \<and> sl_state s' = Y \<and> sl_same s s'
      | Ret b s' \<Rightarrow> \<not> b \<and> sl_at p f t s' \<and> sl_same s s'
          \<and> length (sl_bytes s) < length (pkt_bytes p)
      | Exc e s' \<Rightarrow> False)"

definition advances ::
  "CPacketData \<Rightarrow> bytes \<Rightarrow> bytes \<Rightarrow> ParsingState \<Rightarrow> ParsingState
   \<Rightarrow> (slicer \<Rightarrow> slicer stage) \<Rightarrow> bool" where
  "advances p f t X Y st \<longleftrightarrow>
     (\<forall>s q rest. sl_at p f t s \<longrightarrow> sl_state s = X \<longrightarrow> sl_bytes s @ q = pkt_bytes p @ rest \<longrightarrow>
        stage_ok p f t Y s (st s))"

lemma advancesI:
  assumes "\<And>s q rest. sl_at p f t s \<Longrightarrow> sl_state s = X \<Longrightarrow> sl_bytes s @ q = pkt_bytes p @ rest \<Longrightarrow>
        stage_ok p f t Y s (st s)"
  shows "advances p f t X Y st"
  using assms by (simp add: advances_def)

lemma advances_magic:
  assumes "pkt_ok p"
  shows "advances p f t STATE_HEADER_MAGIC STATE_HEADER_CODE stage_magic"
proof (rule advancesI)
  fix s q rest
  assume at: "sl_at p f t s" and st: "sl_state s = STATE_HEADER_MAGIC"
    and str: "sl_bytes s @ q = pkt_bytes p @ rest"
  from at st have wf: "pb_wf (sl_buffer s)" and r: "pb_readPos (sl_buffer s) = 0"
    and ids: "sl_fromId s = f" "sl_toId s = t"
    by (simp_all add: sl_at_def)
  show "stage_ok p f t STATE_HEADER_CODE s (stage_magic s)"
  proof (cases "sl_remaining s < 2")
    case True
    then show ?thesis using wf r ids st
      by (simp add: stage_ok_def stage_magic_def sl_at_def pb_remainingSize_def pb_wf_def pkt_bytes_def)
  next
    case False
    from str have "sl_bytes s @ q = [] @ enc_int16 NET_MAGIC_CODE @ drop 2 (pkt_bytes p) @ rest"
      by (simp add: pkt_bytes_def)
    from pb_readInt16_at [OF wf this _ False] r
    have "pb_readInt16 (sl_buffer s) = (Inr NET_MAGIC_CODE, sl_buffer s\<lparr>pb_readPos := 2\<rparr>)"
      by simp
    then show ?thesis using False wf r ids
      by (simp add: stage_ok_def stage_magic_def sl_at_def on_buffer_def pb_remainingSize_def pb_wf_def)
  qed
qed

lemma length_pkt_bytes:
  "length (pkt_bytes p)
     = 10 + length (pd_fromId p) + length (pd_toId p) + length (pd_body p)"
  by (simp add: pkt_bytes_def)

lemma sl_remaining_eq: "sl_at p f t s \<Longrightarrow>
  sl_remaining s = length (sl_bytes s) - pb_readPos (sl_buffer s)"
  by (simp add: sl_at_def pb_wf_def pb_remainingSize_def)

lemma advances_code:
  assumes "pkt_ok p"
  shows "advances p f t STATE_HEADER_CODE STATE_HEADER_FROMID stage_code"
proof (rule advancesI)
  fix s q rest
  assume at: "sl_at p f t s" and st: "sl_state s = STATE_HEADER_CODE"
    and str: "sl_bytes s @ q = pkt_bytes p @ rest"
  from at st have wf: "pb_wf (sl_buffer s)" and r: "pb_readPos (sl_buffer s) = 2"
    "unat (sl_headerLen s) = 2"
    and ids: "sl_fromId s = f" "sl_toId s = t" "sl_fromIdLen s = 0" "sl_toIdLen s = 0"
    by (simp_all add: sl_at_def)
  show "stage_ok p f t STATE_HEADER_FROMID s (stage_code s)"
  proof (cases "sl_remaining s < 2")
    case True
    then show ?thesis using at st r sl_remaining_eq [OF at]
      by (simp add: stage_ok_def stage_code_def length_pkt_bytes)
  next
    case False
    from str have "sl_bytes s @ q
        = enc_int16 NET_MAGIC_CODE @ enc_int16 (pd_code p) @ drop 4 (pkt_bytes p) @ rest"
      by (simp add: pkt_bytes_def)
    from pb_readInt16_at [OF wf this _ False] r
    have "pb_readInt16 (sl_buffer s) = (Inr (pd_code p), sl_buffer s\<lparr>pb_readPos := 4\<rparr>)"
      by simp
    moreover have "\<not> code_word CODE_MAX \<le> pd_code p"
      using assms by (simp add: pkt_ok_def not_le)
    ultimately show ?thesis using False wf r ids sl_remaining_eq [OF at]
      by (simp add: stage_ok_def stage_code_def sl_at_def on_buffer_def pb_wf_def pkt_ok_def unat_add16 Let_def)
  qed
qed


definition sl_adv :: "nat \<Rightarrow> slicer \<Rightarrow> slicer" where
  "sl_adv n s = s\<lparr>sl_buffer := sl_buffer s\<lparr>pb_readPos := pb_readPos (sl_buffer s) + n\<rparr>,
                  sl_headerLen := sl_headerLen s + of_nat n\<rparr>"

lemma sl_adv_simps [simp]:
  "sl_bytes (sl_adv n s) = sl_bytes s" "sl_parsedItems (sl_adv n s) = sl_parsedItems s"
  "sl_fromId (sl_adv n s) = sl_fromId s" "sl_toId (sl_adv n s) = sl_toId s"
  "sl_fromIdLen (sl_adv n s) = sl_fromIdLen s" "sl_toIdLen (sl_adv n s) = sl_toIdLen s"
  "sl_code (sl_adv n s) = sl_code s" "sl_bodyLen (sl_adv n s) = sl_bodyLen s"
  "sl_state (sl_adv n s) = sl_state s" "sl_headerLen (sl_adv n s) = sl_headerLen s + of_nat n"
  "pb_readPos (sl_buffer (sl_adv n s)) = pb_readPos (sl_buffer s) + n"
  by (simp_all add: sl_adv_def)

lemma readString8_data:
  assumes "pb_wf (sl_buffer s)" and "sl_bytes s @ q = a @ v @ c"
    and "pb_readPos (sl_buffer s) = length a" and "unat (len s) = length v" and "v \<noteq> []"
  shows "sl_readString8 len set_len set_str s =
    (if sl_remaining s < length v then Ret False s else Next (set_str v (sl_adv (length v) s)))"
proof -
  have pos: "\<not> len s \<le> 0" "len s > 0"
    using assms(4,5) by (auto simp: word_neq_0_conv [symmetric])
  have "pb_read (length v) (sl_buffer s) = (Inr v, sl_buffer s\<lparr>pb_readPos := length a + length v\<rparr>)"
    if "\<not> sl_remaining s < length v"
    using pb_read_at [OF assms(1,2,3) that refl] .
  with pos assms(3,4) show ?thesis
    by (auto simp: sl_readString8_def on_buffer_def sl_adv_def)
qed

lemma readString8_start:
  assumes "pb_wf (sl_buffer s)" and "sl_bytes s @ q = a @ enc_string8 v @ c" and "fits8 v"
    and "pb_readPos (sl_buffer s) = length a" and "len s = 0"
    and len: "\<And>n s. len (set_len n s) = n"
  shows "sl_readString8 len set_len set_str s =
    (if sl_remaining s < 1 then Ret False s
     else if v = [] then Next (set_len 0 (sl_adv 1 s))
     else sl_readString8 len set_len set_str (set_len (of_nat (length v)) (sl_adv 1 s)))"
proof (cases "sl_remaining s < 1")
  case True
  with assms(5) show ?thesis by (simp add: sl_readString8_def)
next
  case False
  from assms(2) have "sl_bytes s @ q = a @ enc_int8 (of_nat (length v)) @ v @ c"
    by (simp add: enc_string8_def)
  from pb_readInt8_at [OF assms(1) this assms(4) False] assms(4)
  have rd: "on_buffer pb_readInt8 (\<lambda>n s. Next (set_len n (add_header 1 s))) s
      = Next (set_len (of_nat (length v)) (sl_adv 1 s))"
    by (simp add: on_buffer_def sl_adv_def)
  have "(of_nat (length v) :: byte) = 0 \<longleftrightarrow> v = []"
    using assms(3) by (simp add: fits8_def word_unat_eq_iff unat_of_nat take_bit_eq_mod)
  then show ?thesis
    using False assms(5) len
    by (cases "v = []") (simp_all add: sl_readString8_def rd [simplified] word_gt_0)
qed

lemma of_nat_byte: "fits8 v \<Longrightarrow> unat (of_nat (length v) :: byte) = length v"
  by (simp add: fits8_def unat_of_nat take_bit_eq_mod)

lemma fromid_data:
  assumes ok: "pkt_ok p" and at: "sl_at p f t s" and st: "sl_state s = STATE_HEADER_FROMID"
    and str: "sl_bytes s @ q = pkt_bytes p @ rest"
    and five: "pb_readPos (sl_buffer s) = 5" "pd_fromId p \<noteq> []"
  shows "stage_ok p f t STATE_HEADER_TOID s (stage_fromid s)"
proof -
  from at st five have wf: "pb_wf (sl_buffer s)"
    and h: "unat (sl_headerLen s) = 5" and toId: "sl_toId s = t" "sl_toIdLen s = 0"
    and len: "sl_fromIdLen s = of_nat (length (pd_fromId p))" and code: "sl_code s = pd_code p"
    by (simp_all add: sl_at_def)
  have fits: "fits8 (pd_fromId p)" using ok by (simp add: pkt_ok_def)
  let ?a = "enc_int16 NET_MAGIC_CODE @ enc_int16 (pd_code p) @ enc_int8 (of_nat (length (pd_fromId p)))"
  have "sl_bytes s @ q = ?a @ pd_fromId p @ drop (5 + length (pd_fromId p)) (pkt_bytes p) @ rest"
    using str by (simp add: pkt_bytes_def enc_string8_def)
  from readString8_data [OF wf this, where len = sl_fromIdLen]
  have "stage_fromid s = (if sl_remaining s < length (pd_fromId p) then Ret False s
    else Next ((sl_adv (length (pd_fromId p)) s)
      \<lparr>sl_fromId := pd_fromId p, sl_state := STATE_HEADER_TOID\<rparr>))"
    using five len of_nat_byte [OF fits] by (simp add: stage_fromid_def)
  then show ?thesis
    using at st wf h toId len five code fits sl_remaining_eq [OF at]
    by (simp add: stage_ok_def sl_at_def length_pkt_bytes pb_wf_def unat_add16 fits8_def carry_def)
      arith
qed


lemma stage_ok_same:
  "stage_ok p f t Y s1 x \<Longrightarrow> sl_same s s1 \<Longrightarrow> stage_ok p f t Y s x"
  by (cases x) (auto simp: stage_ok_def)

lemma advances_fromid:
  assumes ok: "pkt_ok p"
  shows "advances p f t STATE_HEADER_FROMID STATE_HEADER_TOID stage_fromid"
proof (rule advancesI)
  fix s q rest
  assume at: "sl_at p f t s" and st: "sl_state s = STATE_HEADER_FROMID"
    and str: "sl_bytes s @ q = pkt_bytes p @ rest"
  show "stage_ok p f t STATE_HEADER_TOID s (stage_fromid s)"
  proof (cases "pb_readPos (sl_buffer s) = 5")
    case True
    with at st have "pd_fromId p \<noteq> []" by (simp add: sl_at_def)
    with fromid_data [OF ok at st str True] show ?thesis by simp
  next
    case False
    with at st have wf: "pb_wf (sl_buffer s)" and r: "pb_readPos (sl_buffer s) = 4"
      and h: "unat (sl_headerLen s) = 4" and len: "sl_fromIdLen s = 0"
      and ids: "sl_fromId s = f" "sl_toId s = t" "sl_toIdLen s = 0" and code: "sl_code s = pd_code p"
      by (auto simp: sl_at_def)
    have fits: "fits8 (pd_fromId p)" using ok by (simp add: pkt_ok_def)
    let ?s = "(sl_adv 1 s)\<lparr>sl_fromIdLen := of_nat (length (pd_fromId p))\<rparr>"
    have "sl_bytes s @ q = (enc_int16 NET_MAGIC_CODE @ enc_int16 (pd_code p))
        @ enc_string8 (pd_fromId p) @ drop (5 + length (pd_fromId p)) (pkt_bytes p) @ rest"
      using str by (simp add: pkt_bytes_def)
    from readString8_start [OF wf this fits, where len = sl_fromIdLen] r len
    have eq: "stage_fromid s = (if sl_remaining s < 1 then Ret False s
      else if pd_fromId p = [] then Next ((sl_adv 1 s)\<lparr>sl_fromIdLen := 0, sl_state := STATE_HEADER_TOID\<rparr>)
      else stage_fromid ?s)"
      by (simp add: stage_fromid_def)
    have at1: "sl_at p f t ?s" "pb_readPos (sl_buffer ?s) = 5" "sl_bytes ?s @ q = pkt_bytes p @ rest"
      "sl_state ?s = STATE_HEADER_FROMID"
      if "\<not> sl_remaining s < 1" "pd_fromId p \<noteq> []"
      using that at st str wf r h ids code sl_remaining_eq [OF at]
      by (simp_all add: sl_at_def pb_wf_def unat_add16)
    show ?thesis
    proof (cases "sl_remaining s < 1 \<or> pd_fromId p = []")
      case True
      then show ?thesis using at st wf r h ids code sl_remaining_eq [OF at]
        by (auto simp: eq stage_ok_def sl_at_def length_pkt_bytes pb_wf_def unat_add16 carry_def)
    next
      case False
      then have "stage_fromid s = stage_fromid ?s" "pd_fromId p \<noteq> []" by (simp_all add: eq)
      with fromid_data [OF ok at1(1,4,3,2)] False show ?thesis
        by (simp add: stage_ok_same)
    qed
  qed
qed

lemma toid_data:
  assumes ok: "pkt_ok p" and at: "sl_at p f t s" and st: "sl_state s = STATE_HEADER_TOID"
    and str: "sl_bytes s @ q = pkt_bytes p @ rest"
    and six: "pb_readPos (sl_buffer s) = 6 + length (pd_fromId p)" "pd_toId p \<noteq> []"
  shows "stage_ok p f t STATE_HEADER_BLEN s (stage_toid s)"
proof -
  from at st six have wf: "pb_wf (sl_buffer s)"
    and h: "unat (sl_headerLen s) = 6 + length (pd_fromId p)"
    and fromId: "sl_fromId s = carry f (pd_fromId p)"
    and len: "sl_toIdLen s = of_nat (length (pd_toId p))" and code: "sl_code s = pd_code p"
    by (simp_all add: sl_at_def)
  have fits: "fits8 (pd_toId p)" "fits8 (pd_fromId p)" using ok by (simp_all add: pkt_ok_def)
  let ?a = "enc_int16 NET_MAGIC_CODE @ enc_int16 (pd_code p) @ enc_string8 (pd_fromId p)
    @ enc_int8 (of_nat (length (pd_toId p)))"
  have "sl_bytes s @ q = ?a @ pd_toId p
      @ drop (6 + length (pd_fromId p) + length (pd_toId p)) (pkt_bytes p) @ rest"
    using str by (simp add: pkt_bytes_def enc_string8_def)
  from readString8_data [OF wf this, where len = sl_toIdLen]
  have "stage_toid s = (if sl_remaining s < length (pd_toId p) then Ret False s
    else Next ((sl_adv (length (pd_toId p)) s)
      \<lparr>sl_toId := pd_toId p, sl_state := STATE_HEADER_BLEN\<rparr>))"
    using six len of_nat_byte [OF fits(1)] by (simp add: stage_toid_def)
  then show ?thesis
    using at st wf h fromId len six code fits sl_remaining_eq [OF at]
    by (simp add: stage_ok_def sl_at_def length_pkt_bytes pb_wf_def unat_add16 fits8_def carry_def)
      arith
qed

lemma advances_toid:
  assumes ok: "pkt_ok p"
  shows "advances p f t STATE_HEADER_TOID STATE_HEADER_BLEN stage_toid"
proof (rule advancesI)
  fix s q rest
  assume at: "sl_at p f t s" and st: "sl_state s = STATE_HEADER_TOID"
    and str: "sl_bytes s @ q = pkt_bytes p @ rest"
  show "stage_ok p f t STATE_HEADER_BLEN s (stage_toid s)"
  proof (cases "pb_readPos (sl_buffer s) = 6 + length (pd_fromId p)")
    case True
    with at st have "pd_toId p \<noteq> []" by (simp add: sl_at_def)
    with toid_data [OF ok at st str True] show ?thesis by simp
  next
    case False
    with at st have wf: "pb_wf (sl_buffer s)"
      and r: "pb_readPos (sl_buffer s) = 5 + length (pd_fromId p)"
      and h: "unat (sl_headerLen s) = 5 + length (pd_fromId p)" and len: "sl_toIdLen s = 0"
      and ids: "sl_fromId s = carry f (pd_fromId p)" "sl_toId s = t" and code: "sl_code s = pd_code p"
      by (auto simp: sl_at_def)
    have fits: "fits8 (pd_toId p)" "fits8 (pd_fromId p)" using ok by (simp_all add: pkt_ok_def)
    let ?s = "(sl_adv 1 s)\<lparr>sl_toIdLen := of_nat (length (pd_toId p))\<rparr>"
    have "sl_bytes s @ q = (enc_int16 NET_MAGIC_CODE @ enc_int16 (pd_code p)
          @ enc_string8 (pd_fromId p)) @ enc_string8 (pd_toId p)
          @ drop (6 + length (pd_fromId p) + length (pd_toId p)) (pkt_bytes p) @ rest"
      using str by (simp add: pkt_bytes_def)
    from readString8_start [OF wf this fits(1), where len = sl_toIdLen] r len
    have eq: "stage_toid s = (if sl_remaining s < 1 then Ret False s
      else if pd_toId p = [] then Next ((sl_adv 1 s)\<lparr>sl_toIdLen := 0, sl_state := STATE_HEADER_BLEN\<rparr>)
      else stage_toid ?s)"
      by (simp add: stage_toid_def)
    have at1: "sl_at p f t ?s" "pb_readPos (sl_buffer ?s) = 6 + length (pd_fromId p)"
      "sl_bytes ?s @ q = pkt_bytes p @ rest" "sl_state ?s = STATE_HEADER_TOID"
      if "\<not> sl_remaining s < 1" "pd_toId p \<noteq> []"
      using that at st str wf r h ids code fits(2) sl_remaining_eq [OF at]
      by (simp_all add: sl_at_def pb_wf_def unat_add16 fits8_def)
    show ?thesis
    proof (cases "sl_remaining s < 1 \<or> pd_toId p = []")
      case True
      then show ?thesis using at st wf r h ids code fits(2) sl_remaining_eq [OF at]
        by (auto simp: eq stage_ok_def sl_at_def length_pkt_bytes pb_wf_def unat_add16 carry_def
            fits8_def)
    next
      case False
      then have "stage_toid s = stage_toid ?s" "pd_toId p \<noteq> []" by (simp_all add: eq)
      with toid_data [OF ok at1(1,4,3,2)] False show ?thesis
        by (simp add: stage_ok_same)
    qed
  qed
qed

lemma advances_blen:
  assumes ok: "pkt_ok p"
  shows "advances p f t STATE_HEADER_BLEN STATE_BODY stage_blen"
proof (rule advancesI)
  fix s q rest
  assume at: "sl_at p f t s" and st: "sl_state s = STATE_HEADER_BLEN"
    and str: "sl_bytes s @ q = pkt_bytes p @ rest"
  let ?o = "6 + length (pd_fromId p) + length (pd_toId p)"
  from at st have wf: "pb_wf (sl_buffer s)" and r: "pb_readPos (sl_buffer s) = ?o"
    and h: "unat (sl_headerLen s) = ?o" and code: "sl_code s = pd_code p"
    and ids: "sl_fromId s = carry f (pd_fromId p)" "sl_toId s = carry t (pd_toId p)"
    by (simp_all add: sl_at_def)
  have fits: "fits8 (pd_toId p)" "fits8 (pd_fromId p)" using ok by (simp_all add: pkt_ok_def)
  show "stage_ok p f t STATE_BODY s (stage_blen s)"
  proof (cases "sl_remaining s < 4")
    case True
    then show ?thesis using at st r sl_remaining_eq [OF at]
      by (simp add: stage_ok_def stage_blen_def length_pkt_bytes)
  next
    case False
    from str have "sl_bytes s @ q = (enc_int16 NET_MAGIC_CODE @ enc_int16 (pd_code p)
        @ enc_string8 (pd_fromId p) @ enc_string8 (pd_toId p))
        @ enc_int32 (of_nat (length (pd_body p))) @ pd_body p @ rest"
      by (simp add: pkt_bytes_def)
    from pb_readInt32_at [OF wf this _ False] r
    have rd: "pb_readInt32 (sl_buffer s)
      = (Inr (of_nat (length (pd_body p))), sl_buffer s\<lparr>pb_readPos := ?o + 4\<rparr>)"
      by simp
    have "\<not> MAX_PACKET_BODY_SIZE < of_nat (length (pd_body p))"
      using ok by (simp add: pkt_ok_def not_less word_le_nat_alt unat_of_nat
          take_bit_nat_eq_self MAX_PACKET_BODY_SIZE_def take_bit_eq_mod)
    then show ?thesis using False wf r h ids code fits sl_remaining_eq [OF at] rd
      by (simp add: stage_ok_def stage_blen_def sl_at_def on_buffer_def pb_wf_def unat_add16
          Let_def fits8_def)
  qed
qed

definition delivered :: "bytes \<Rightarrow> bytes \<Rightarrow> CPacketData \<Rightarrow> CPacketData" where
  "delivered f t p = p\<lparr>pd_fromId := carry f (pd_fromId p), pd_toId := carry t (pd_toId p)\<rparr>"

text \<open>The state between two packets.\<close>

definition sl_ready :: "bytes \<Rightarrow> bytes \<Rightarrow> slicer \<Rightarrow> bool" where
  "sl_ready f t s \<longleftrightarrow> sl_state s = STATE_HEADER_MAGIC \<and> pb_readPos (sl_buffer s) = 0
     \<and> sl_headerLen s = 0 \<and> sl_fromId s = f \<and> sl_toId s = t"

lemma sl_ready_at: "sl_ready f t s \<Longrightarrow> sl_at p f t s"
  by (simp add: sl_ready_def sl_at_def pb_wf_def)

definition finish_ok ::
  "CPacketData \<Rightarrow> bytes \<Rightarrow> bytes \<Rightarrow> slicer \<Rightarrow> slicer stage \<Rightarrow> bool" where
  "finish_ok p f t s x \<longleftrightarrow>
     (case x of
        Next s' \<Rightarrow> False
      | Ret b s' \<Rightarrow> b = (length (pkt_bytes p) \<le> length (sl_bytes s)) \<and>
          (if b
           then sl_ready (carry f (pd_fromId p)) (carry t (pd_toId p)) s'
             \<and> sl_bytes s' = drop (length (pkt_bytes p)) (sl_bytes s)
             \<and> sl_parsedItems s' = sl_parsedItems s @ [delivered f t p]
           else sl_at p f t s' \<and> sl_same s s')
      | Exc e s' \<Rightarrow> False)"

definition finishes ::
  "CPacketData \<Rightarrow> bytes \<Rightarrow> bytes \<Rightarrow> ParsingState \<Rightarrow> (slicer \<Rightarrow> slicer stage) \<Rightarrow> bool" where
  "finishes p f t X st \<longleftrightarrow>
     (\<forall>s q rest. sl_at p f t s \<longrightarrow> sl_state s = X \<longrightarrow> sl_bytes s @ q = pkt_bytes p @ rest \<longrightarrow>
        finish_ok p f t s (st s))"

lemma finishesD:
  "finishes p f t X st \<Longrightarrow> sl_at p f t s \<Longrightarrow> sl_bytes s @ q = pkt_bytes p @ rest \<Longrightarrow>
   sl_state s = X \<Longrightarrow> finish_ok p f t s (st s)"
  unfolding finishes_def by blast

lemma finishes_and_then:
  assumes "advances p f t X Y st" and "finishes p f t Y g"
  shows "finishes p f t X (\<lambda>s. and_then (st s) g)"
  unfolding finishes_def
proof (intro allI impI)
  fix s q rest
  assume at: "sl_at p f t s" "sl_state s = X" and str: "sl_bytes s @ q = pkt_bytes p @ rest"
  with assms(1) have ok: "stage_ok p f t Y s (st s)" unfolding advances_def by blast
  show "finish_ok p f t s (and_then (st s) g)"
  proof (cases "st s")
    case (Next s1)
    with ok have 1: "sl_at p f t s1" "sl_state s1 = Y" "sl_same s s1" by (simp_all add: stage_ok_def)
    with str have "sl_bytes s1 @ q = pkt_bytes p @ rest" by simp
    with assms(2) 1(1,2) have "finish_ok p f t s1 (g s1)" unfolding finishes_def by blast
    with Next 1(3) show ?thesis by (cases "g s1") (auto simp: finish_ok_def)
  qed (use ok in \<open>simp_all add: stage_ok_def finish_ok_def\<close>)
qed

lemma stage_body_finishes:
  assumes ok: "pkt_ok p"
  shows "finishes p f t STATE_BODY stage_body"
  unfolding finishes_def
proof (intro allI impI)
  fix s q rest
  assume at: "sl_at p f t s" and st: "sl_state s = STATE_BODY"
    and str: "sl_bytes s @ q = pkt_bytes p @ rest"
  let ?o = "10 + length (pd_fromId p) + length (pd_toId p)"
  from at st have wf: "pb_wf (sl_buffer s)" and r: "pb_readPos (sl_buffer s) = ?o"
    and h: "unat (sl_headerLen s) = ?o" and code: "sl_code s = pd_code p"
    and ids: "sl_fromId s = carry f (pd_fromId p)" "sl_toId s = carry t (pd_toId p)"
    and blen: "sl_bodyLen s = of_nat (length (pd_body p))"
    by (simp_all add: sl_at_def)
  have fits: "length (pd_toId p) \<le> 255" "length (pd_fromId p) \<le> 255"
      "length (pd_body p) \<le> 200000000"
    using ok by (simp_all add: pkt_ok_def fits8_def MAX_PACKET_BODY_SIZE_def)
  then have n: "unat (sl_bodyLen s) = length (pd_body p)"
    by (simp add: blen unat_of_nat take_bit_eq_mod)
  have sum: "unat (ucast (sl_headerLen s) + sl_bodyLen s :: 32 word) = length (pkt_bytes p)"
    using body_amount_pos [of "sl_headerLen s" "sl_bodyLen s"] h n fits
    by (simp add: length_pkt_bytes MAX_PACKET_BODY_SIZE_def word_le_nat_alt)
  show "finish_ok p f t s (stage_body s)"
  proof (cases "sl_remaining s < length (pd_body p)")
    case True
    then show ?thesis using at r sl_remaining_eq [OF at]
      by (simp add: finish_ok_def stage_body_def Let_def n length_pkt_bytes)
  next
    case False
    then have len: "length (pkt_bytes p) \<le> length (sl_bytes s)"
      using wf r sl_remaining_eq [OF at] by (simp add: length_pkt_bytes pb_wf_def)
    have "sl_bytes s @ q = (enc_int16 NET_MAGIC_CODE @ enc_int16 (pd_code p)
        @ enc_string8 (pd_fromId p) @ enc_string8 (pd_toId p)
        @ enc_int32 (of_nat (length (pd_body p)))) @ pd_body p @ rest"
      using str by (simp add: pkt_bytes_def)
    then have "take (length (pd_body p)) (drop ?o (sl_bytes s @ q)) = pd_body p" by simp
    then have body: "take (length (pd_body p)) (drop ?o (sl_bytes s)) = pd_body p"
      using len by (simp add: length_pkt_bytes)
    show ?thesis
      using False len body code ids
      by (simp add: stage_body_def Let_def n h sum on_buffer_def pb_erase_def pb_setReadPos_def
          finish_ok_def sl_ready_def delivered_def length_pkt_bytes)
  qed
qed

lemma all_finish:
  assumes "pkt_ok p"
  shows "finishes p f t STATE_HEADER_BLEN from_blen" "finishes p f t STATE_HEADER_TOID from_toid"
    "finishes p f t STATE_HEADER_FROMID from_fromid" "finishes p f t STATE_HEADER_CODE from_code"
    "finishes p f t STATE_HEADER_MAGIC from_magic"
proof -
  note stages = stage_body_finishes [OF assms] advances_blen [OF assms] advances_toid [OF assms]
    advances_fromid [OF assms] advances_code [OF assms] advances_magic [OF assms]
  show b: "finishes p f t STATE_HEADER_BLEN from_blen"
    unfolding from_blen_def by (rule finishes_and_then [OF stages(2,1)])
  show t: "finishes p f t STATE_HEADER_TOID from_toid"
    unfolding from_toid_def by (rule finishes_and_then [OF stages(3) b])
  show f: "finishes p f t STATE_HEADER_FROMID from_fromid"
    unfolding from_fromid_def by (rule finishes_and_then [OF stages(4) t])
  show c: "finishes p f t STATE_HEADER_CODE from_code"
    unfolding from_code_def by (rule finishes_and_then [OF stages(5) f])
  show "finishes p f t STATE_HEADER_MAGIC from_magic"
    unfolding from_magic_def by (rule finishes_and_then [OF stages(6) c])
qed

lemma doParse_step:
  assumes "pkt_ok p" and at: "sl_at p f t s" and "sl_bytes s @ q = pkt_bytes p @ rest"
  shows "\<exists>b s'. doParse s = (Inr b, s') \<and> finish_ok p f t s (Ret b s')"
proof -
  note fin = all_finish [OF assms(1), THEN finishesD, OF assms(2,3)]
    stage_body_finishes [OF assms(1), THEN finishesD, OF assms(2,3)]
  have "sl_state s \<noteq> STATE_INIT" using at by (auto simp: sl_at_def)
  with fin have "finish_ok p f t s (doParse_switch s)"
    by (cases "sl_state s") (simp_all add: doParse_switch_def)
  then show ?thesis
    by (cases "doParse_switch s") (auto simp: doParse_def finish_ok_def)
qed

declare parse_loop.simps [simp del]

text \<open>The identifiers carried from packet to packet.\<close>

fun delivered_all :: "bytes \<Rightarrow> bytes \<Rightarrow> CPacketData list \<Rightarrow> CPacketData list" where
  "delivered_all f t [] = []"
| "delivered_all f t (p # ps) =
     delivered f t p # delivered_all (carry f (pd_fromId p)) (carry t (pd_toId p)) ps"

definition from_after :: "bytes \<Rightarrow> CPacketData list \<Rightarrow> bytes" where
  "from_after f ps = fold (\<lambda>p i. carry i (pd_fromId p)) ps f"

definition to_after :: "bytes \<Rightarrow> CPacketData list \<Rightarrow> bytes" where
  "to_after t ps = fold (\<lambda>p i. carry i (pd_toId p)) ps t"

lemma delivered_all_append:
  "delivered_all f t (ps @ qs)
     = delivered_all f t ps @ delivered_all (from_after f ps) (to_after t ps) qs"
  by (induction ps arbitrary: f t) (simp_all add: from_after_def to_after_def)

lemma length_delivered_all [simp]: "length (delivered_all f t ps) = length ps"
  by (induction ps arbitrary: f t) simp_all

definition stream :: "CPacketData list \<Rightarrow> bytes" where
  "stream ps = concat (map pkt_bytes ps)"

lemma stream_simps [simp]:
  "stream [] = []" "stream (p # ps) = pkt_bytes p @ stream ps" "stream (ps @ qs) = stream ps @ stream qs"
  by (simp_all add: stream_def)

text \<open>The state when the packets \<open>ps\<close> are still to be delivered.\<close>

definition sl_in :: "bytes \<Rightarrow> bytes \<Rightarrow> CPacketData list \<Rightarrow> slicer \<Rightarrow> bool" where
  "sl_in f t ps s \<longleftrightarrow> (case ps of [] \<Rightarrow> sl_ready f t s | p # _ \<Rightarrow> sl_at p f t s)"

lemma sl_ready_in: "sl_ready f t s \<Longrightarrow> sl_in f t ps s"
  by (auto simp: sl_in_def sl_ready_at split: list.splits)

definition short :: "CPacketData list \<Rightarrow> slicer \<Rightarrow> bool" where
  "short ps s \<longleftrightarrow> (case ps of [] \<Rightarrow> True | p # _ \<Rightarrow> length (sl_bytes s) < length (pkt_bytes p))"

lemma doParse_empty:
  assumes "sl_ready f t s" and "sl_bytes s = []"
  shows "\<exists>s'. doParse s = (Inr False, s') \<and> sl_ready f t s' \<and> sl_same s s'"
  using assms
  by (simp add: doParse_def doParse_switch_def sl_ready_def from_magic_def stage_magic_def Let_def
      pb_remainingSize_def)

lemma parse_loop_stream:
  assumes "list_all pkt_ok ps" and "sl_in f t ps s" and "sl_bytes s @ q = stream ps"
  shows "\<exists>ds ps' s'. ps = ds @ ps' \<and> parse_loop s = (Inr (), s')
    \<and> sl_parsedItems s' = sl_parsedItems s @ delivered_all f t ds
    \<and> sl_in (from_after f ds) (to_after t ds) ps' s' \<and> sl_bytes s' @ q = stream ps'
    \<and> short ps' s'"
  using assms
proof (induction ps arbitrary: f t s)
  case Nil
  then have "sl_ready f t s" "sl_bytes s = []" by (simp_all add: sl_in_def)
  from doParse_empty [OF this] obtain s' where "doParse s = (Inr False, s')" "sl_ready f t s'"
    "sl_same s s'" by blast
  then show ?case using Nil
    by (intro exI [of _ "[]"] exI [of _ s'])
      (simp add: parse_loop.simps [of s] sl_in_def short_def from_after_def to_after_def)
next
  case (Cons p ps)
  then have at: "sl_at p f t s" and str: "sl_bytes s @ q = pkt_bytes p @ stream ps"
    and ok: "pkt_ok p" by (simp_all add: sl_in_def)
  from doParse_step [OF ok at str] obtain b s1
    where step: "doParse s = (Inr b, s1)" and fin: "finish_ok p f t s (Ret b s1)" by blast
  show ?case
  proof (cases b)
    case False
    then have "parse_loop s = (Inr (), s1)" using step by (simp add: parse_loop.simps [of s])
    moreover have "sl_at p f t s1" "sl_same s s1" "length (sl_bytes s) < length (pkt_bytes p)"
      using fin False by (simp_all add: finish_ok_def)
    ultimately show ?thesis using str
      by (intro exI [of _ "[]"] exI [of _ "p # ps"] exI [of _ s1])
        (simp add: sl_in_def short_def from_after_def to_after_def)
  next
    case True
    let ?f = "carry f (pd_fromId p)" and ?t = "carry t (pd_toId p)"
    from fin True have "sl_ready ?f ?t s1" and len: "length (pkt_bytes p) \<le> length (sl_bytes s)"
      and b1: "sl_bytes s1 = drop (length (pkt_bytes p)) (sl_bytes s)"
      and i1: "sl_parsedItems s1 = sl_parsedItems s @ [delivered f t p]"
      by (simp_all add: finish_ok_def)
    have "sl_bytes s1 @ q = drop (length (pkt_bytes p)) (sl_bytes s @ q)"
      using len b1 by simp
    also have "\<dots> = stream ps" using str by simp
    finally have "sl_bytes s1 @ q = stream ps" .
    with Cons.IH [of ?f ?t s1] Cons.prems(1) sl_ready_in [OF \<open>sl_ready ?f ?t s1\<close>]
    obtain ds ps' s' where "ps = ds @ ps'" "parse_loop s1 = (Inr (), s')"
      "sl_parsedItems s' = sl_parsedItems s1 @ delivered_all ?f ?t ds"
      "sl_in (from_after ?f ds) (to_after ?t ds) ps' s'" "sl_bytes s' @ q = stream ps'"
      "short ps' s'" by auto
    moreover from this step True have "parse_loop s = (Inr (), s')"
      by (simp add: parse_loop.simps [of s])
    ultimately show ?thesis using i1
      by (intro exI [of _ "p # ds"] exI [of _ ps'] exI [of _ s'])
        (simp add: from_after_def to_after_def)
  qed
qed

text \<open>
  What a session does with a received chunk: \<^verbatim>\<open>addBuffer\<close>, \<^verbatim>\<open>parse\<close>, then the items one by
  one through \<^verbatim>\<open>parsedItemCount\<close> and \<^verbatim>\<open>parsedItem\<close>.
\<close>

definition receive :: "bytes \<Rightarrow> (slicer, CPacketData list) meth" where
  "receive d s =
     (case parse (addBuffer d s) of
        (Inl e, s') \<Rightarrow> (Inl e, s')
      | (Inr found, s') \<Rightarrow>
          (Inr (if found
                then map (\<lambda>i. the (parsedItem i s')) [0..<parsedItemCount s'] else []), s'))"

lemma parsed_items: "map (\<lambda>i. the (parsedItem i s)) [0..<parsedItemCount s] = sl_parsedItems s"
  by (rule nth_equalityI) (simp_all add: parsedItem_def parsedItemCount_def)

lemma receive_eq:
  "receive d s = (case parse_loop ((addBuffer d s)\<lparr>sl_parsedItems := []\<rparr>) of
     (Inl e, s') \<Rightarrow> (Inl e, s') | (Inr _, s') \<Rightarrow> (Inr (sl_parsedItems s'), s'))"
  by (auto simp: receive_def parse_def parsed_items split: prod.splits sum.splits)

lemma addBuffer_at: "sl_at p f t s \<Longrightarrow> sl_at p f t ((addBuffer d s)\<lparr>sl_parsedItems := []\<rparr>)"
  by (cases "sl_state s") (auto simp: sl_at_def addBuffer_def pb_write_def pb_wf_def Let_def)

lemma addBuffer_in:
  "sl_in f t ps s \<Longrightarrow> sl_in f t ps ((addBuffer d s)\<lparr>sl_parsedItems := []\<rparr>)"
  by (auto simp: sl_in_def addBuffer_at split: list.splits)
    (simp add: sl_ready_def addBuffer_def pb_write_def)

lemma receive_stream:
  assumes "list_all pkt_ok ps" and "sl_in f t ps s" and "sl_bytes s @ d @ q = stream ps"
  shows "\<exists>ds ps' s'. ps = ds @ ps' \<and> receive d s = (Inr (delivered_all f t ds), s')
    \<and> sl_in (from_after f ds) (to_after t ds) ps' s' \<and> sl_bytes s' @ q = stream ps'
    \<and> short ps' s'"
proof -
  let ?s = "(addBuffer d s)\<lparr>sl_parsedItems := []\<rparr>"
  have "sl_bytes ?s @ q = stream ps" using assms(3) by (simp add: addBuffer_def pb_write_def)
  from parse_loop_stream [OF assms(1) addBuffer_in [OF assms(2)] this] obtain ds ps' s'
    where "ps = ds @ ps'" "parse_loop ?s = (Inr (), s')" "sl_parsedItems s' = delivered_all f t ds"
      "sl_in (from_after f ds) (to_after t ds) ps' s'" "sl_bytes s' @ q = stream ps'" "short ps' s'"
    by auto
  then show ?thesis
    by (intro exI [of _ ds] exI [of _ ps'] exI [of _ s']) (simp add: receive_eq)
qed

lemma receive_chunks:
  assumes "list_all pkt_ok ps" and "sl_in f t ps s" and "sl_bytes s @ concat cs @ q = stream ps"
    and "short ps s"
  shows "\<exists>ds ps' xs s'. ps = ds @ ps' \<and> mapS receive cs s = (Inr xs, s')
    \<and> concat xs = delivered_all f t ds
    \<and> sl_in (from_after f ds) (to_after t ds) ps' s' \<and> sl_bytes s' @ q = stream ps'
    \<and> short ps' s'"
  using assms
proof (induction cs arbitrary: ps f t s)
  case Nil
  then show ?case
    by (intro exI [of _ "[]"] exI [of _ ps]) (simp add: from_after_def to_after_def)
next
  case (Cons c cs)
  from Cons.prems(3) have "sl_bytes s @ c @ concat cs @ q = stream ps" by simp
  from receive_stream [OF Cons.prems(1,2) this] obtain ds ps1 s1
    where 1: "ps = ds @ ps1" "receive c s = (Inr (delivered_all f t ds), s1)"
      "sl_in (from_after f ds) (to_after t ds) ps1 s1" "sl_bytes s1 @ concat cs @ q = stream ps1"
      "short ps1 s1" by blast
  from 1(1) Cons.prems(1) have "list_all pkt_ok ps1" by simp
  from Cons.IH [OF this 1(3,4,5)] obtain ds' ps2 xs s2 where 2: "ps1 = ds' @ ps2" "mapS receive cs s1 = (Inr xs, s2)"
    "concat xs = delivered_all (from_after f ds) (to_after t ds) ds'"
    "sl_in (from_after (from_after f ds) ds') (to_after (to_after t ds) ds') ps2 s2"
    "sl_bytes s2 @ q = stream ps2" "short ps2 s2"
    by blast
  have "mapS receive (c # cs) s = (Inr (delivered_all f t ds # xs), s2)"
    by (simp add: bindS_def 1(2) 2(2))
  with 1(1) 2 show ?case
    by (intro exI [of _ "ds @ ds'"] exI [of _ ps2])
      (simp add: delivered_all_append from_after_def to_after_def)
qed

lemma sl_new_ready: "sl_ready [] [] (sl_new a b c d)" "sl_bytes (sl_new a b c d) = []"
  by (simp_all add: sl_new_def sl_init_def sl_ready_def pb_clear_def)

section \<open>Safety on arbitrary input\<close>

text \<open>
  What holds between any two calls, whatever bytes have been received: the read position is the
  header length counted so far, the header has the length its state allows, and everything
  stored so far is within its bounds.
\<close>

definition sl_inv :: "slicer \<Rightarrow> bool" where
  "sl_inv s \<longleftrightarrow>
     pb_wf (sl_buffer s) \<and> pb_readPos (sl_buffer s) = unat (sl_headerLen s)
     \<and> fits8 (sl_fromId s) \<and> fits8 (sl_toId s) \<and> list_all pkt_ok (sl_parsedItems s)
     \<and> (let h = unat (sl_headerLen s) in
        case sl_state s of
          STATE_INIT \<Rightarrow> False
        | STATE_HEADER_MAGIC \<Rightarrow> h = 0
        | STATE_HEADER_CODE \<Rightarrow> h = 2 \<and> sl_fromIdLen s = 0 \<and> sl_toIdLen s = 0
        | STATE_HEADER_FROMID \<Rightarrow> h \<le> 4 + (if sl_fromIdLen s = 0 then 0 else 1)
            \<and> sl_toIdLen s = 0 \<and> sl_code s < code_word CODE_MAX
        | STATE_HEADER_TOID \<Rightarrow> h \<le> 260 + (if sl_toIdLen s = 0 then 0 else 1)
            \<and> sl_code s < code_word CODE_MAX
        | STATE_HEADER_BLEN \<Rightarrow> h \<le> 516 \<and> sl_code s < code_word CODE_MAX
        | STATE_BODY \<Rightarrow> h \<le> 520 \<and> sl_code s < code_word CODE_MAX
            \<and> sl_bodyLen s \<le> MAX_PACKET_BODY_SIZE)"

definition safe :: "ParsingState \<Rightarrow> slicer stage \<Rightarrow> bool" where
  "safe Y x \<longleftrightarrow>
     (case x of Next s' \<Rightarrow> sl_inv s' \<and> sl_state s' = Y | Ret b s' \<Rightarrow> sl_inv s' | Exc e s' \<Rightarrow> False)"

lemma pb_read_enough:
  assumes "pb_wf b" and "\<not> pb_remainingSize b < n"
  shows "pb_read n b = (Inr (take n (pb_pending b)), b\<lparr>pb_readPos := pb_readPos b + n\<rparr>)"
    and "length (take n (pb_pending b)) = n"
    and "pb_readPos b + n \<le> length (pb_buffer b)"
  using assms pb_read_eq [OF assms(1), of n]
  by (auto simp: pb_wf_def pb_remainingSize_def pb_pending_def min_def split: if_splits)

lemma readInt_enough:
  "pb_wf b \<Longrightarrow> \<not> pb_remainingSize b < 2 \<Longrightarrow>
     \<exists>v. pb_readInt16 b = (Inr v, b\<lparr>pb_readPos := pb_readPos b + 2\<rparr>)"
  "pb_wf b \<Longrightarrow> \<not> pb_remainingSize b < 1 \<Longrightarrow>
     \<exists>v. pb_readInt8 b = (Inr v, b\<lparr>pb_readPos := pb_readPos b + 1\<rparr>)"
  "pb_wf b \<Longrightarrow> \<not> pb_remainingSize b < 4 \<Longrightarrow>
     \<exists>v. pb_readInt32 b = (Inr v, b\<lparr>pb_readPos := pb_readPos b + 4\<rparr>)"
  using pb_read_enough [of b 2] pb_read_enough [of b 1] pb_read_enough [of b 4]
  by (simp_all add: pb_readInt16_def pb_readInt8_def pb_readInt32_def bindS_def)

lemma sl_init_simps [simp]:
  "sl_bytes (sl_init s) = []" "pb_readPos (sl_buffer (sl_init s)) = 0"
  "sl_headerLen (sl_init s) = 0" "sl_state (sl_init s) = STATE_HEADER_MAGIC"
  "sl_parsedItems (sl_init s) = []" "sl_fromId (sl_init s) = sl_fromId s"
  "sl_toId (sl_init s) = sl_toId s"
  by (simp_all add: sl_init_def pb_clear_def)

lemma sl_init_inv: "fits8 (sl_fromId s) \<Longrightarrow> fits8 (sl_toId s) \<Longrightarrow> sl_inv (sl_init s)"
  by (simp add: sl_inv_def sl_init_def pb_clear_def pb_wf_def)

lemma safe_magic:
  assumes inv: "sl_inv s" and st: "sl_state s = STATE_HEADER_MAGIC"
  shows "safe STATE_HEADER_CODE (stage_magic s)"
proof -
  from inv st have wf: "pb_wf (sl_buffer s)" and r: "pb_readPos (sl_buffer s) = 0"
    by (simp_all add: sl_inv_def)
  show ?thesis
  proof (cases "sl_remaining s < 2")
    case True
    with inv st show ?thesis by (simp add: safe_def stage_magic_def sl_inv_def Let_def)
  next
    case False
    from readInt_enough(1) [OF wf False] obtain v
      where "pb_readInt16 (sl_buffer s) = (Inr v, sl_buffer s\<lparr>pb_readPos := 2\<rparr>)"
      using r by auto
    with False inv st pb_read_enough(3) [OF wf False] show ?thesis
      by (simp add: safe_def stage_magic_def sl_inv_def on_buffer_def Let_def pb_wf_def)
  qed
qed

lemma safe_code:
  assumes inv: "sl_inv s" and st: "sl_state s = STATE_HEADER_CODE"
  shows "safe STATE_HEADER_FROMID (stage_code s)"
proof -
  from inv st have wf: "pb_wf (sl_buffer s)" and r: "pb_readPos (sl_buffer s) = 2"
    "unat (sl_headerLen s) = 2"
    by (simp_all add: sl_inv_def)
  show ?thesis
  proof (cases "sl_remaining s < 2")
    case True
    with inv st show ?thesis by (simp add: safe_def stage_code_def)
  next
    case False
    from readInt_enough(1) [OF wf False] obtain v
      where "pb_readInt16 (sl_buffer s) = (Inr v, sl_buffer s\<lparr>pb_readPos := 4\<rparr>)"
      using r by auto
    with False inv st r pb_read_enough(3) [OF wf False] show ?thesis
      by (auto simp add: safe_def stage_code_def sl_inv_def on_buffer_def Let_def pb_wf_def unat_add16 not_le)
  qed
qed

lemma safe_blen:
  assumes inv: "sl_inv s" and st: "sl_state s = STATE_HEADER_BLEN"
  shows "safe STATE_BODY (stage_blen s)"
proof -
  from inv st have wf: "pb_wf (sl_buffer s)" and r: "pb_readPos (sl_buffer s) = unat (sl_headerLen s)"
    "unat (sl_headerLen s) \<le> 516"
    by (simp_all add: sl_inv_def)
  show ?thesis
  proof (cases "sl_remaining s < 4")
    case True
    with inv st show ?thesis by (simp add: safe_def stage_blen_def)
  next
    case False
    from readInt_enough(3) [OF wf False] obtain v
      where "pb_readInt32 (sl_buffer s)
        = (Inr v, sl_buffer s\<lparr>pb_readPos := unat (sl_headerLen s) + 4\<rparr>)"
      using r by auto
    with False inv st r pb_read_enough(3) [OF wf False] show ?thesis
      by (auto simp add: safe_def stage_blen_def sl_inv_def on_buffer_def Let_def pb_wf_def unat_add16 not_less)
  qed
qed

lemma safe_body:
  assumes inv: "sl_inv s" and st: "sl_state s = STATE_BODY"
  shows "safe Y (stage_body s)"
proof -
  let ?h = "unat (sl_headerLen s)" and ?n = "unat (sl_bodyLen s)"
  from inv st have wf: "pb_wf (sl_buffer s)" and r: "pb_readPos (sl_buffer s) = ?h"
    "?h \<le> 520" and n: "sl_bodyLen s \<le> MAX_PACKET_BODY_SIZE"
    by (simp_all add: sl_inv_def)
  show ?thesis
  proof (cases "sl_remaining s < ?n")
    case True
    with inv st show ?thesis by (simp add: safe_def stage_body_def Let_def)
  next
    case False
    have len: "?h + ?n \<le> length (sl_bytes s)" using pb_read_enough(3) [OF wf False] r by simp
    have sum: "unat (ucast (sl_headerLen s) + sl_bodyLen s :: 32 word) \<le> length (sl_bytes s)"
    proof (cases "?h = 0")
      case True
      then have "sl_headerLen s = 0" by (simp add: word_unat_eq_iff)
      with len show ?thesis by simp
    next
      case False
      with body_amount_pos [OF _ _ n, of "sl_headerLen s"] r len show ?thesis by simp
    qed
    have "?n \<le> unat MAX_PACKET_BODY_SIZE" using n by (simp add: word_le_nat_alt)
    with False len sum inv st show ?thesis
      by (auto simp: safe_def stage_body_def Let_def on_buffer_def pb_erase_def pb_setReadPos_def
          sl_inv_def pb_wf_def pkt_ok_def)
  qed
qed

lemma readString8_second:
  assumes "pb_wf (sl_buffer s)" and "len s \<noteq> 0"
  shows "sl_readString8 len set_len set_str s = Ret False s \<or>
    (\<exists>d. length d \<le> 255 \<and> pb_readPos (sl_buffer s) + length d \<le> length (sl_bytes s)
      \<and> sl_readString8 len set_len set_str s = Next (set_str d (sl_adv (length d) s)))"
proof -
  have pos: "\<not> len s \<le> 0" "len s > 0" using assms(2) by (simp_all add: word_gt_0)
  show ?thesis
  proof (cases "sl_remaining s < unat (len s)")
    case True
    with pos show ?thesis by (simp add: sl_readString8_def)
  next
    case False
    note rd = pb_read_enough [OF assms(1) False]
    have "sl_readString8 len set_len set_str s
        = Next (set_str (take (unat (len s)) (pb_pending (sl_buffer s))) (sl_adv (unat (len s)) s))"
      using pos False rd(2) by (simp add: sl_readString8_def on_buffer_def rd(1) sl_adv_def)
    with rd unat_byte_le [of "len s"] show ?thesis
      by (intro disjI2 exI [of _ "take (unat (len s)) (pb_pending (sl_buffer s))"]) simp
  qed
qed

lemma readString8_first:
  assumes "pb_wf (sl_buffer s)" and "len s = 0" and len: "\<And>n s. len (set_len n s) = n"
  shows "sl_readString8 len set_len set_str s = Ret False s \<or>
    (\<exists>n. pb_readPos (sl_buffer s) + 1 \<le> length (sl_bytes s) \<and>
      sl_readString8 len set_len set_str s =
        (if n = 0 then Next (set_len 0 (sl_adv 1 s))
         else sl_readString8 len set_len set_str (set_len n (sl_adv 1 s))))"
proof (cases "sl_remaining s < 1")
  case True
  with assms(2) show ?thesis by (simp add: sl_readString8_def)
next
  case False
  from readInt_enough(2) [OF assms(1) False] obtain n
    where "pb_readInt8 (sl_buffer s) = (Inr n, sl_buffer s\<lparr>pb_readPos := pb_readPos (sl_buffer s) + 1\<rparr>)"
    by blast
  then have rd: "on_buffer pb_readInt8 (\<lambda>n s. Next (set_len n (add_header 1 s))) s
      = Next (set_len n (sl_adv 1 s))"
    by (simp add: on_buffer_def sl_adv_def)
  have "sl_readString8 len set_len set_str s =
        (if n = 0 then Next (set_len 0 (sl_adv 1 s))
         else sl_readString8 len set_len set_str (set_len n (sl_adv 1 s)))"
    using False assms(2) len
    by (cases "n = 0") (simp_all add: sl_readString8_def rd [simplified] word_gt_0)
  with pb_read_enough(3) [OF assms(1) False] show ?thesis by blast
qed

lemma safe_fromid_data:
  assumes inv: "sl_inv s" and st: "sl_state s = STATE_HEADER_FROMID" and "sl_fromIdLen s \<noteq> 0"
  shows "safe STATE_HEADER_TOID (stage_fromid s)"
proof -
  have wf: "pb_wf (sl_buffer s)" using inv by (simp add: sl_inv_def)
  from readString8_second [where len = sl_fromIdLen and set_len = "\<lambda>n s. s\<lparr>sl_fromIdLen := n\<rparr>"
      and set_str = "\<lambda>d s. s\<lparr>sl_fromId := d\<rparr>", OF wf assms(3)]
  consider "stage_fromid s = Ret False s"
    | d where "length d \<le> 255" "pb_readPos (sl_buffer s) + length d \<le> length (sl_bytes s)"
      "stage_fromid s = Next ((sl_adv (length d) s)\<lparr>sl_fromId := d, sl_state := STATE_HEADER_TOID\<rparr>)"
    unfolding stage_fromid_def by auto
  then show ?thesis
    using inv st by cases (simp_all add: safe_def sl_inv_def fits8_def pb_wf_def unat_add16 Let_def
        split: if_splits)
qed

lemma safe_fromid:
  assumes inv: "sl_inv s" and st: "sl_state s = STATE_HEADER_FROMID"
  shows "safe STATE_HEADER_TOID (stage_fromid s)"
proof (cases "sl_fromIdLen s = 0")
  case True
  have wf: "pb_wf (sl_buffer s)" and r: "pb_readPos (sl_buffer s) = unat (sl_headerLen s)"
    "unat (sl_headerLen s) \<le> 4"
    using inv st True by (simp_all add: sl_inv_def Let_def)
  let ?s = "\<lambda>n. (sl_adv 1 s)\<lparr>sl_fromIdLen := n\<rparr>"
  have sel: "sl_fromIdLen (s\<lparr>sl_fromIdLen := n\<rparr>) = n" for s :: slicer and n by simp
  have "stage_fromid s = Ret False s \<or> (\<exists>n. pb_readPos (sl_buffer s) + 1 \<le> length (sl_bytes s)
    \<and> stage_fromid s =
        (if n = 0 then Next ((?s 0)\<lparr>sl_state := STATE_HEADER_TOID\<rparr>) else stage_fromid (?s n)))"
    using readString8_first [where len = sl_fromIdLen and set_len = "\<lambda>n s. s\<lparr>sl_fromIdLen := n\<rparr>"
      and set_str = "\<lambda>d s. s\<lparr>sl_fromId := d\<rparr>", OF wf True sel]
  proof (elim disjE exE conjE)
    fix n assume "pb_readPos (sl_buffer s) + 1 \<le> length (sl_bytes s)"
    then show ?thesis if "sl_readString8 sl_fromIdLen (\<lambda>n s. s\<lparr>sl_fromIdLen := n\<rparr>)
          (\<lambda>d s. s\<lparr>sl_fromId := d\<rparr>) s =
        (if n = 0 then Next (?s 0) else sl_readString8 sl_fromIdLen
          (\<lambda>n s. s\<lparr>sl_fromIdLen := n\<rparr>) (\<lambda>d s. s\<lparr>sl_fromId := d\<rparr>) (?s n))"
      using that by (intro disjI2 exI [of _ n]) (simp add: stage_fromid_def)
  qed (simp_all add: stage_fromid_def)
  then consider "stage_fromid s = Ret False s"
    | n where "pb_readPos (sl_buffer s) + 1 \<le> length (sl_bytes s)" "stage_fromid s =
        (if n = 0 then Next ((?s 0)\<lparr>sl_state := STATE_HEADER_TOID\<rparr>) else stage_fromid (?s n))"
    by blast
  then show ?thesis
  proof cases
    case 1
    with inv show ?thesis by (simp add: safe_def)
  next
    case 2
    have "sl_inv (?s n)" if "n \<noteq> 0"
      using 2(1) that inv st r by (simp add: sl_inv_def pb_wf_def unat_add16 Let_def)
    with safe_fromid_data [of "?s n"] st
    have "n \<noteq> 0 \<Longrightarrow> safe STATE_HEADER_TOID (stage_fromid (?s n))" by simp
    moreover have "safe STATE_HEADER_TOID (Next ((?s 0)\<lparr>sl_state := STATE_HEADER_TOID\<rparr>))"
      using 2(1) inv st r by (simp add: safe_def sl_inv_def pb_wf_def unat_add16 Let_def)
    ultimately show ?thesis using 2(2) by simp
  qed
next
  case False
  with inv st show ?thesis by (rule safe_fromid_data)
qed

lemma safe_toid_data:
  assumes inv: "sl_inv s" and st: "sl_state s = STATE_HEADER_TOID" and "sl_toIdLen s \<noteq> 0"
  shows "safe STATE_HEADER_BLEN (stage_toid s)"
proof -
  have wf: "pb_wf (sl_buffer s)" using inv by (simp add: sl_inv_def)
  from readString8_second [where len = sl_toIdLen and set_len = "\<lambda>n s. s\<lparr>sl_toIdLen := n\<rparr>"
      and set_str = "\<lambda>d s. s\<lparr>sl_toId := d\<rparr>", OF wf assms(3)]
  consider "stage_toid s = Ret False s"
    | d where "length d \<le> 255" "pb_readPos (sl_buffer s) + length d \<le> length (sl_bytes s)"
      "stage_toid s = Next ((sl_adv (length d) s)\<lparr>sl_toId := d, sl_state := STATE_HEADER_BLEN\<rparr>)"
    unfolding stage_toid_def by auto
  then show ?thesis
    using inv st by cases (simp_all add: safe_def sl_inv_def fits8_def pb_wf_def unat_add16 Let_def
        split: if_splits)
qed

lemma safe_toid:
  assumes inv: "sl_inv s" and st: "sl_state s = STATE_HEADER_TOID"
  shows "safe STATE_HEADER_BLEN (stage_toid s)"
proof (cases "sl_toIdLen s = 0")
  case True
  have wf: "pb_wf (sl_buffer s)" and r: "pb_readPos (sl_buffer s) = unat (sl_headerLen s)"
    "unat (sl_headerLen s) \<le> 260"
    using inv st True by (simp_all add: sl_inv_def Let_def)
  let ?s = "\<lambda>n. (sl_adv 1 s)\<lparr>sl_toIdLen := n\<rparr>"
  have sel: "sl_toIdLen (s\<lparr>sl_toIdLen := n\<rparr>) = n" for s :: slicer and n by simp
  have "stage_toid s = Ret False s \<or> (\<exists>n. pb_readPos (sl_buffer s) + 1 \<le> length (sl_bytes s)
    \<and> stage_toid s =
        (if n = 0 then Next ((?s 0)\<lparr>sl_state := STATE_HEADER_BLEN\<rparr>) else stage_toid (?s n)))"
    using readString8_first [where len = sl_toIdLen and set_len = "\<lambda>n s. s\<lparr>sl_toIdLen := n\<rparr>"
      and set_str = "\<lambda>d s. s\<lparr>sl_toId := d\<rparr>", OF wf True sel]
  proof (elim disjE exE conjE)
    fix n assume "pb_readPos (sl_buffer s) + 1 \<le> length (sl_bytes s)"
    then show ?thesis if "sl_readString8 sl_toIdLen (\<lambda>n s. s\<lparr>sl_toIdLen := n\<rparr>)
          (\<lambda>d s. s\<lparr>sl_toId := d\<rparr>) s =
        (if n = 0 then Next (?s 0) else sl_readString8 sl_toIdLen
          (\<lambda>n s. s\<lparr>sl_toIdLen := n\<rparr>) (\<lambda>d s. s\<lparr>sl_toId := d\<rparr>) (?s n))"
      using that by (intro disjI2 exI [of _ n]) (simp add: stage_toid_def)
  qed (simp_all add: stage_toid_def)
  then consider "stage_toid s = Ret False s"
    | n where "pb_readPos (sl_buffer s) + 1 \<le> length (sl_bytes s)" "stage_toid s =
        (if n = 0 then Next ((?s 0)\<lparr>sl_state := STATE_HEADER_BLEN\<rparr>) else stage_toid (?s n))"
    by blast
  then show ?thesis
  proof cases
    case 1
    with inv show ?thesis by (simp add: safe_def)
  next
    case 2
    have "sl_inv (?s n)" if "n \<noteq> 0"
      using 2(1) that inv st r by (simp add: sl_inv_def pb_wf_def unat_add16 Let_def)
    with safe_toid_data [of "?s n"] st
    have "n \<noteq> 0 \<Longrightarrow> safe STATE_HEADER_BLEN (stage_toid (?s n))" by simp
    moreover have "safe STATE_HEADER_BLEN (Next ((?s 0)\<lparr>sl_state := STATE_HEADER_BLEN\<rparr>))"
      using 2(1) inv st r by (simp add: safe_def sl_inv_def pb_wf_def unat_add16 Let_def)
    ultimately show ?thesis using 2(2) by simp
  qed
next
  case False
  with inv st show ?thesis by (rule safe_toid_data)
qed

lemma safe_and_then:
  "safe Y x \<Longrightarrow> (\<And>s'. sl_inv s' \<Longrightarrow> sl_state s' = Y \<Longrightarrow> safe Z (g s')) \<Longrightarrow> safe Z (and_then x g)"
  by (cases x) (simp_all add: safe_def)

lemma safe_from:
  "sl_inv s \<Longrightarrow> sl_state s = STATE_HEADER_BLEN \<Longrightarrow> safe Y (from_blen s)"
  "sl_inv s \<Longrightarrow> sl_state s = STATE_HEADER_TOID \<Longrightarrow> safe Y (from_toid s)"
  "sl_inv s \<Longrightarrow> sl_state s = STATE_HEADER_FROMID \<Longrightarrow> safe Y (from_fromid s)"
  "sl_inv s \<Longrightarrow> sl_state s = STATE_HEADER_CODE \<Longrightarrow> safe Y (from_code s)"
  "sl_inv s \<Longrightarrow> sl_state s = STATE_HEADER_MAGIC \<Longrightarrow> safe Y (from_magic s)"
  unfolding from_magic_def from_code_def from_fromid_def from_toid_def from_blen_def
  by (assumption | rule safe_and_then safe_magic safe_code safe_fromid safe_toid safe_blen
      safe_body)+

lemma doParse_safe:
  assumes "sl_inv s"
  shows "\<exists>b s'. doParse s = (Inr b, s') \<and> sl_inv s'"
proof -
  have "sl_state s \<noteq> STATE_INIT" using assms by (auto simp: sl_inv_def Let_def)
  with assms have "safe STATE_INIT (doParse_switch s)"
    by (cases "sl_state s") (simp_all add: doParse_switch_def safe_from safe_body)
  then show ?thesis by (cases "doParse_switch s") (auto simp: doParse_def safe_def)
qed

lemma parse_loop_safe: "sl_inv s \<Longrightarrow> \<exists>s'. parse_loop s = (Inr (), s') \<and> sl_inv s'"
proof (induction s rule: parse_loop.induct)
  case (1 s)
  from doParse_safe [OF 1(2)] obtain b s1 where "doParse s = (Inr b, s1)" "sl_inv s1" by blast
  with 1(1) show ?case by (cases b) (simp_all add: parse_loop.simps [of s])
qed

lemma receive_safe:
  assumes "sl_inv s"
  shows "\<exists>xs s'. receive d s = (Inr xs, s') \<and> sl_inv s' \<and> list_all pkt_ok xs"
proof -
  have "sl_inv ((addBuffer d s)\<lparr>sl_parsedItems := []\<rparr>)"
    using assms
    by (cases "sl_state s") (auto simp: sl_inv_def addBuffer_def pb_write_def pb_wf_def Let_def)
  from parse_loop_safe [OF this] obtain s'
    where "parse_loop ((addBuffer d s)\<lparr>sl_parsedItems := []\<rparr>) = (Inr (), s')" "sl_inv s'" by blast
  then show ?thesis by (auto simp: receive_eq sl_inv_def)
qed

lemma sl_new_inv: "sl_inv (sl_new a b c d)"
  by (simp add: sl_inv_def sl_new_def sl_init_def pb_clear_def pb_wf_def fits8_def)

lemma receive_new_stream:
  assumes "list_all pkt_ok ps" and "concat cs @ q = stream ps"
  shows "\<exists>ds ps' xs s'. ps = ds @ ps' \<and> mapS receive cs (sl_new a b c d) = (Inr xs, s')
    \<and> concat xs = delivered_all [] [] ds \<and> sl_bytes s' @ q = stream ps' \<and> short ps' s'"
proof -
  have short: "short ps (sl_new a b c d)"
    by (simp add: short_def sl_new_ready length_pkt_bytes split: list.splits)
  have "sl_bytes (sl_new a b c d) @ concat cs @ q = stream ps"
    using assms(2) by (simp add: sl_new_ready)
  from receive_chunks [OF assms(1) sl_ready_in [OF sl_new_ready(1)] this short] show ?thesis
    by (elim exE conjE) (intro exI conjI)
qed

lemma delivered_all_same:
  "list_all (\<lambda>p. pd_fromId p \<noteq> [] \<and> pd_toId p \<noteq> []) ps \<Longrightarrow> delivered_all f t ps = ps"
  by (induction ps arbitrary: f t) (simp_all add: delivered_def carry_def)

lemma receive_all_stream:
  assumes "list_all pkt_ok ps" and "concat cs = stream ps"
  shows "\<exists>xs s'. mapS receive cs (sl_new a b c d) = (Inr xs, s')
    \<and> concat xs = delivered_all [] [] ps \<and> sl_bytes s' = []"
proof -
  from receive_new_stream [OF assms(1), of cs "[]" a b c d] assms(2) obtain ds ps' xs s'
    where *: "ps = ds @ ps'" "mapS receive cs (sl_new a b c d) = (Inr xs, s')"
      "concat xs = delivered_all [] [] ds" "sl_bytes s' = stream ps'" "short ps' s'"
    by (simp only: append_Nil2) blast
  have "ps' = []"
    using *(4,5) by (cases ps') (simp_all add: short_def)
  with * show ?thesis by auto
qed

lemma receive_one:
  assumes "pkt_ok p" and "concat cs = pkt_bytes p"
  shows "\<exists>xs s'. mapS receive cs (sl_new a b c d) = (Inr xs, s') \<and> concat xs = [p]"
proof -
  have "list_all pkt_ok [p]" using assms(1) by simp
  from receive_all_stream [OF this, of cs a b c d] assms(2) show ?thesis
    by (auto simp: delivered_def carry_def)
qed

lemma makePacket_pkt:
  "pkt_ok p \<Longrightarrow> makePacket (pd_code p) (pd_body p) (Some (pd_fromId p)) (Some (pd_toId p))
     = Inr (pkt_bytes p)"
  by (simp add: makePacket_def pkt_bytes_def codec_simps pkt_ok_def)

section \<open>Properties of the slicer\<close>

text \<open>C1: cutting a stream of well-formed packets.  Whatever chunks the bytes of a prefix of the
  stream arrive in, the slicer returns every packet that has arrived completely, in order and
  once, keeps exactly the bytes of the incomplete rest, and never throws; an empty identifier is
  delivered as the last non-empty one before it.\<close>

theorem slicer_delivers_prefix:
  assumes "list_all pkt_ok ps" and "concat cs @ q = stream ps"
  shows "\<exists>k xs s'. k \<le> length ps \<and> mapS receive cs (sl_new a b c d) = (Inr xs, s')
    \<and> concat xs = take k (delivered_all [] [] ps)
    \<and> concat cs = stream (take k ps) @ sl_bytes s'
    \<and> (k < length ps \<longrightarrow> length (sl_bytes s') < length (pkt_bytes (ps ! k)))"
proof -
  from receive_new_stream [OF assms, of a b c d] obtain ds ps' xs s'
    where *: "ps = ds @ ps'" "mapS receive cs (sl_new a b c d) = (Inr xs, s')"
      "concat xs = delivered_all [] [] ds" "sl_bytes s' @ q = stream ps'" "short ps' s'"
    by blast
  have "concat cs @ q = (stream ds @ sl_bytes s') @ q"
    using assms(2) *(1,4) by simp
  then have "concat cs = stream ds @ sl_bytes s'" by simp
  moreover have "length ds < length ps \<longrightarrow>
      length (sl_bytes s') < length (pkt_bytes (ps ! length ds))"
    using *(1,5) by (cases ps') (simp_all add: short_def)
  ultimately have "length ds \<le> length ps \<and> mapS receive cs (sl_new a b c d) = (Inr xs, s')
    \<and> concat xs = take (length ds) (delivered_all [] [] ps)
    \<and> concat cs = stream (take (length ds) ps) @ sl_bytes s'
    \<and> (length ds < length ps \<longrightarrow> length (sl_bytes s') < length (pkt_bytes (ps ! length ds)))"
    using *(1-3) by (simp add: delivered_all_append)
  then show ?thesis by (intro exI)
qed

definition sample_packet :: CPacketData where
  "sample_packet = \<lparr>pd_code = 13, pd_fromId = [65], pd_toId = [66, 67], pd_body = [1, 2, 3]\<rparr>"

lemma sample_packet_ok: "pkt_ok sample_packet"
  by (simp add: sample_packet_def pkt_ok_def fits8_def MAX_PACKET_BODY_SIZE_def)

theorem slicer_delivers_prefix_witness:
  "\<exists>k xs s'. k \<le> length [sample_packet, sample_packet]
    \<and> mapS receive [[0xBE], [0xBE, 13], [0, 1, 65, 2]] (sl_new 7 7 7 7) = (Inr xs, s')
    \<and> concat xs = take k (delivered_all [] [] [sample_packet, sample_packet])
    \<and> concat [[0xBE], [0xBE, 13], [0, 1, 65, 2]]
        = stream (take k [sample_packet, sample_packet]) @ sl_bytes s'
    \<and> (k < length [sample_packet, sample_packet]
        \<longrightarrow> length (sl_bytes s') < length (pkt_bytes ([sample_packet, sample_packet] ! k)))"
proof (rule slicer_delivers_prefix)
  show "list_all pkt_ok [sample_packet, sample_packet]" by (simp add: sample_packet_ok)
  show "concat [[0xBE], [0xBE, 13], [0, 1, 65, 2]] @ drop 7 (stream [sample_packet, sample_packet])
      = stream [sample_packet, sample_packet]"
    by code_simp
qed


text \<open>Sending and receiving.  The packets \<^verbatim>\<open>makePacket\<close> builds, with non-empty identifiers,
  are received exactly as they were sent, in order, however the connection cuts the bytes into
  chunks, and nothing stays in the buffer.\<close>

lemma makePacket_received:
  assumes "list_all (\<lambda>p. pkt_ok p \<and> pd_fromId p \<noteq> [] \<and> pd_toId p \<noteq> []) ps"
    and "list_all2 (\<lambda>p w. makePacket (pd_code p) (pd_body p) (Some (pd_fromId p))
           (Some (pd_toId p)) = Inr w) ps ws"
    and "concat cs = concat ws"
  shows "\<exists>xs s'. mapS receive cs (sl_new a b c d) = (Inr xs, s') \<and> concat xs = ps
    \<and> buffer_size s' = 0"
proof -
  have "list_all pkt_ok ps" using assms(1) by (simp add: list_all_iff)
  moreover have "ws = map pkt_bytes ps"
    using assms(2,1)
    by (induction ps ws rule: list_all2_induct) (simp_all add: makePacket_pkt)
  moreover from this have "concat cs = stream ps" using assms(3) by (simp add: stream_def)
  ultimately obtain xs s' where "mapS receive cs (sl_new a b c d) = (Inr xs, s')"
    "concat xs = delivered_all [] [] ps" "sl_bytes s' = []"
    using receive_all_stream [of ps cs a b c d] by blast
  moreover have "delivered_all [] [] ps = ps"
    using assms(1) by (intro delivered_all_same) (simp add: list_all_iff)
  ultimately show ?thesis by (simp add: buffer_size_def pb_totalSize_def)
qed

text \<open>C2: safety on arbitrary bytes.  Whatever chunks a fresh slicer is given, \<^verbatim>\<open>parse\<close> returns
  (its loop ends), it never reads outside its buffer and no exception leaves it, every packet it
  delivers has a known code, identifiers of at most 255 bytes and a body within the limit, and
  the read position stays inside the buffer at the header length counted so far.\<close>

theorem slicer_safe:
  "case mapS receive cs (sl_new a b c d) of
     (Inr xs, s') \<Rightarrow> sl_inv s' \<and> list_all pkt_ok (concat xs) \<and> length xs = length cs
   | (Inl e, s') \<Rightarrow> False"
proof -
  have "\<exists>xs s'. mapS receive cs s = (Inr xs, s') \<and> sl_inv s' \<and> list_all pkt_ok (concat xs)
      \<and> length xs = length cs" if "sl_inv s" for s
    using that
  proof (induction cs arbitrary: s)
    case Nil
    then show ?case by simp
  next
    case (Cons c cs)
    from receive_safe [OF Cons.prems] obtain x s1
      where 1: "receive c s = (Inr x, s1)" "sl_inv s1" "list_all pkt_ok x" by blast
    from Cons.IH [OF 1(2)] 1 show ?case by (auto simp: bindS_def)
  qed
  from this [OF sl_new_inv [of a b c d]] show ?thesis by auto
qed

text \<open>Packets are lost.  When a complete packet is followed, in the same chunk, by two bytes
  that are not the magic code, \<^verbatim>\<open>init\<close> also empties the list of parsed packets: the complete
  packet before the garbage is not delivered, and the whole buffer is dropped.\<close>

lemma slicer_garbage_loses_packet:
  assumes "pkt_ok p" and "le_dec [g1, g2] \<noteq> NET_MAGIC_CODE"
  shows "\<exists>s'. receive (pkt_bytes p @ [g1, g2] @ r) (sl_new a b c d) = (Inr [], s')
    \<and> buffer_size s' = 0"
proof -
  let ?s = "(addBuffer (pkt_bytes p @ [g1, g2] @ r) (sl_new a b c d))\<lparr>sl_parsedItems := []\<rparr>"
  have ready: "sl_ready [] [] ?s" and bytes: "sl_bytes ?s = pkt_bytes p @ [g1, g2] @ r"
    using sl_new_ready [of a b c d] by (simp_all add: sl_ready_def addBuffer_def pb_write_def)
  from doParse_step [OF assms(1) sl_ready_at [OF ready], of "[]" "[g1, g2] @ r"] bytes
  obtain b1 s1 where 1: "doParse ?s = (Inr b1, s1)" "finish_ok p [] [] ?s (Ret b1 s1)" by auto
  then have b1: "b1" and r1: "sl_state s1 = STATE_HEADER_MAGIC" "pb_readPos (sl_buffer s1) = 0"
    and bs: "sl_bytes s1 = [g1, g2] @ r"
    using bytes by (auto simp: finish_ok_def sl_ready_def split: if_splits)
  have wf: "pb_wf (sl_buffer s1)" "\<not> pb_remainingSize (sl_buffer s1) < 2"
    using r1 bs by (simp_all add: pb_wf_def pb_remainingSize_def)
  have "pb_read 2 (sl_buffer s1) = (Inr [g1, g2], (sl_buffer s1)\<lparr>pb_readPos := 2\<rparr>)"
    using pb_read_enough(1) [OF wf] r1 bs by (simp add: pb_pending_def)
  then have "pb_readInt16 (sl_buffer s1) = (Inr (le_dec [g1, g2]), (sl_buffer s1)\<lparr>pb_readPos := 2\<rparr>)"
    by (simp add: pb_readInt16_def bindS_def littleEndianMode_def)
  then have "\<exists>s2. doParse s1 = (Inr False, s2) \<and> sl_parsedItems s2 = [] \<and> sl_bytes s2 = []"
    using r1 wf(2) assms(2)
    by (simp add: doParse_def doParse_switch_def from_magic_def stage_magic_def on_buffer_def
        Let_def del: le_dec.simps)
  then obtain s2 where "doParse s1 = (Inr False, s2)" "sl_parsedItems s2 = []" "sl_bytes s2 = []"
    by blast
  then have "parse_loop ?s = (Inr (), s2)"
    unfolding parse_loop.simps [of ?s] 1(1) using b1 by (simp add: parse_loop.simps [of s1])
  with \<open>sl_parsedItems s2 = []\<close> \<open>sl_bytes s2 = []\<close> show ?thesis
    by (simp add: receive_eq buffer_size_def pb_totalSize_def)
qed

text \<open>Stale identifiers.  A packet sent without a receiver (an empty identifier, what
  \<^verbatim>\<open>makePacket\<close> writes by default) that follows a packet with one is delivered with the receiver
  of the packet before it.\<close>

lemma slicer_stale_receiver:
  assumes "pkt_ok p" and "pkt_ok q" and "pd_fromId p \<noteq> []" and "pd_fromId q \<noteq> []"
    and "pd_toId p \<noteq> []" and "pd_toId q = []"
  shows "\<exists>xs s'. mapS receive [pkt_bytes p, pkt_bytes q] (sl_new a b c d) = (Inr xs, s')
    \<and> concat xs = [p, q\<lparr>pd_toId := pd_toId p\<rparr>]"
proof -
  have "list_all pkt_ok [p, q]" using assms(1,2) by simp
  from receive_all_stream [OF this, of "[pkt_bytes p, pkt_bytes q]" a b c d] obtain xs s'
    where "mapS receive [pkt_bytes p, pkt_bytes q] (sl_new a b c d) = (Inr xs, s')"
      "concat xs = delivered_all [] [] [p, q]" by auto
  then show ?thesis
    using assms(3-6) by (simp add: delivered_def carry_def del: mapS.simps)
qed

text \<open>The errors of \<^verbatim>\<open>makePacket\<close>.  It throws exactly when an identifier is longer than 255
  bytes (and then nothing is sent); the body's size is not checked against the receiver's limit.\<close>

lemma makePacket_error:
  "makePacket code body (Some i) (Some j) =
     (if length i \<le> 255 \<and> length j \<le> 255
      then Inr (pkt_bytes \<lparr>pd_code = code, pd_fromId = i, pd_toId = j, pd_body = body\<rparr>)
      else Inl (CPacketException ''the string size is bigger than 1byte length..''))"
proof (cases "length i \<le> 255 \<and> length j \<le> 255")
  case True
  then show ?thesis by (simp add: makePacket_bytes fits8_def)
next
  case False
  have "run_writes (wr (\<lambda>b p. writeString8 b p v) # ss) (b, n)
      = Inl (CPacketException ''the string size is bigger than 1byte length..'')"
    if "\<not> length v \<le> 255" for v ss b n
    using that by (simp add: run_writes_Cons wr_def writeString8_def)
  with False show ?thesis
    by (cases "length i \<le> 255") (simp_all add: makePacket_def codec_simps fits8_def)
qed

end
