(* ===== verification/PaintItem.thy ===== *)
theory PaintItem
  imports BufferUtil
begin

text \<open>
  The items of a drawing: \<^verbatim>\<open>src/SharedPainter/PaintItem.h\<close> and \<^verbatim>\<open>PaintItemFactory.h\<close>.

  \<open>CPaintItem\<close> is the base class with the member \<open>it_content\<close> for what the subclass adds; the
  constructor of \<open>content\<close> is the object's class.  The virtual methods are functions that look
  at it.  The canvas (\<^verbatim>\<open>canvas_\<close>, \<^verbatim>\<open>object_\<close>, drawing, the clipboard) is user interface and left
  out; files are a map from paths to contents.

  Qt is not part of the repository.  What the items use of it is the record \<open>qt\<close>, an argument of
  the definitions; each property names what it needs of it.
\<close>

section \<open>Data\<close>

datatype PaintItemType = PT_LINE | PT_IMAGE | PT_BG_IMAGE | PT_FILE | PT_IMAGE_FILE | PT_TEXT | PT_MAX

definition item_type_num :: "PaintItemType \<Rightarrow> 16 word" where
  "item_type_num t = (case t of PT_LINE \<Rightarrow> 0 | PT_IMAGE \<Rightarrow> 1 | PT_BG_IMAGE \<Rightarrow> 2 | PT_FILE \<Rightarrow> 3
     | PT_IMAGE_FILE \<Rightarrow> 4 | PT_TEXT \<Rightarrow> 5 | PT_MAX \<Rightarrow> 6)"

text \<open>A \<^verbatim>\<open>QString\<close> is its UTF-16 code units; colours and fonts are what their accessors return.\<close>

type_synonym qstring = "16 word list"

record QColor =
  c_red :: "16 word"
  c_green :: "16 word"
  c_blue :: "16 word"
  c_alpha :: "16 word"

record QFont =
  f_family :: qstring
  f_pixelSize :: "32 word"
  f_bold :: bool

text \<open>
  Qt and the file system as the items see them: the UTF-8 conversions, the constructor of
  \<^verbatim>\<open>QColor\<close>, \<^verbatim>\<open>QFont::setPixelSize\<close>, \<^verbatim>\<open>QFileInfo::fileName\<close> and \<^verbatim>\<open>baseName\<close>, the path of a sibling
  file with another base name and the same suffix, \<^verbatim>\<open>QString::number\<close>, the download directory,
  whether a file can be opened for writing, and what \<^verbatim>\<open>writeRawData\<close> returns.
\<close>

record qt =
  q_fromUtf8 :: "bytes \<Rightarrow> qstring"
  q_toUtf8 :: "qstring \<Rightarrow> bytes"
  q_color :: "16 word \<Rightarrow> 16 word \<Rightarrow> 16 word \<Rightarrow> 16 word \<Rightarrow> QColor"
  q_setPixelSize :: "16 word \<Rightarrow> QFont \<Rightarrow> QFont"
  q_fileName :: "qstring \<Rightarrow> qstring"
  q_baseName :: "qstring \<Rightarrow> qstring"
  q_sibling :: "qstring \<Rightarrow> qstring \<Rightarrow> qstring"
  q_number :: "nat \<Rightarrow> qstring"
  q_downloadPath :: qstring
  q_canWrite :: "qstring \<Rightarrow> bool"
  q_written :: "bytes \<Rightarrow> int"
  q_newFont :: QFont
  q_newColor :: QColor

type_synonym files = "qstring \<rightharpoonup> bytes"

record SPaintData =
  sp_posX :: double
  sp_posY :: double
  sp_scale :: double
  sp_posSetFlag :: bool
  sp_itemId :: "32 word"
  sp_owner :: bytes

datatype content =
    LineContent "(double \<times> double) list" QColor "32 word"
  | ImageContent bytes
  | BgImageContent bytes
  | FileContent qstring
  | ImageFileContent qstring
  | TextContent qstring QFont QColor

record CPaintItem =
  it_data :: SPaintData
  it_prevData :: SPaintData
  it_mine :: bool
  it_wroteBytes :: nat
  it_totalBytes :: nat
  it_content :: content

text \<open>The floats 0 and 1 widened to doubles.\<close>

definition double_0 :: double where
  "double_0 = 0"

definition double_1 :: double where
  "double_1 = 0x3FF0000000000000"

definition new_paint_data :: SPaintData where
  "new_paint_data = \<lparr>sp_posX = double_0, sp_posY = double_0, sp_scale = double_1,
     sp_posSetFlag = False, sp_itemId = 0, sp_owner = []\<rparr>"

definition new_item :: "content \<Rightarrow> CPaintItem" where
  "new_item c = \<lparr>it_data = new_paint_data, it_prevData = new_paint_data, it_mine = False,
     it_wroteBytes = 0, it_totalBytes = 0, it_content = c\<rparr>"

section \<open>Methods of the base class\<close>

definition setData :: "SPaintData \<Rightarrow> CPaintItem \<Rightarrow> CPaintItem" where
  "setData d it = it\<lparr>it_prevData := it_data it, it_data := d\<rparr>"

definition setPos :: "double \<Rightarrow> double \<Rightarrow> CPaintItem \<Rightarrow> CPaintItem" where
  "setPos x y it =
     it\<lparr>it_prevData := (it_prevData it)\<lparr>sp_posX := sp_posX (it_data it), sp_posY := sp_posY (it_data it),
                                      sp_posSetFlag := sp_posSetFlag (it_data it)\<rparr>,
        it_data := (it_data it)\<lparr>sp_posX := x, sp_posY := y, sp_posSetFlag := True\<rparr>\<rparr>"

definition setScale :: "double \<Rightarrow> CPaintItem \<Rightarrow> CPaintItem" where
  "setScale sc it =
     it\<lparr>it_prevData := (it_prevData it)\<lparr>sp_scale := sp_scale (it_data it)\<rparr>,
        it_data := (it_data it)\<lparr>sp_scale := sc\<rparr>\<rparr>"

definition setOwner :: "bytes \<Rightarrow> CPaintItem \<Rightarrow> CPaintItem" where
  "setOwner o' it = it\<lparr>it_data := (it_data it)\<lparr>sp_owner := o'\<rparr>,
                      it_prevData := (it_prevData it)\<lparr>sp_owner := o'\<rparr>\<rparr>"

definition setItemId :: "32 word \<Rightarrow> CPaintItem \<Rightarrow> CPaintItem" where
  "setItemId i it = it\<lparr>it_data := (it_data it)\<lparr>sp_itemId := i\<rparr>,
                      it_prevData := (it_prevData it)\<lparr>sp_itemId := i\<rparr>\<rparr>"

definition setMyItem :: "CPaintItem \<Rightarrow> CPaintItem" where
  "setMyItem it = it\<lparr>it_mine := True\<rparr>"

definition isAvailablePosition :: "CPaintItem \<Rightarrow> bool" where
  "isAvailablePosition it = sp_posSetFlag (it_data it)"

text \<open>\<^verbatim>\<open>move\<close> also moves the item on the canvas; a background image does not move.\<close>

definition move :: "double \<Rightarrow> double \<Rightarrow> CPaintItem \<Rightarrow> CPaintItem" where
  "move x y it = (case it_content it of BgImageContent d \<Rightarrow> it | _ \<Rightarrow> setPos x y it)"

definition drawSendingStatus :: "nat \<Rightarrow> nat \<Rightarrow> CPaintItem \<Rightarrow> CPaintItem" where
  "drawSendingStatus wrote tot it = it\<lparr>it_wroteBytes := wrote, it_totalBytes := tot\<rparr>"

definition item_type :: "CPaintItem \<Rightarrow> PaintItemType" where
  "item_type it = (case it_content it of
       LineContent ps c w \<Rightarrow> PT_LINE | ImageContent d \<Rightarrow> PT_IMAGE | BgImageContent d \<Rightarrow> PT_BG_IMAGE
     | FileContent p \<Rightarrow> PT_FILE | ImageFileContent p \<Rightarrow> PT_IMAGE_FILE | TextContent t f c \<Rightarrow> PT_TEXT)"

definition isScalable :: "CPaintItem \<Rightarrow> bool" where
  "isScalable it = (case it_content it of
       ImageContent d \<Rightarrow> True | ImageFileContent p \<Rightarrow> True | TextContent t f c \<Rightarrow> True
     | LineContent ps c w \<Rightarrow> False | BgImageContent d \<Rightarrow> False | FileContent p \<Rightarrow> False)"

fun addPoint :: "double \<times> double \<Rightarrow> CPaintItem \<Rightarrow> CPaintItem" where
  "addPoint pt it = (case it_content it of
       LineContent ps c w \<Rightarrow> it\<lparr>it_content := LineContent (ps @ [pt]) c w\<rparr> | _ \<Rightarrow> it)"

section \<open>The basic data on the wire\<close>

definition serializeBasicData :: "SPaintData \<Rightarrow> nat \<Rightarrow> (bytes \<times> nat) result" where
  "serializeBasicData d writePos =
     run_writes
       [wr (\<lambda>b p. writeString8 b p (sp_owner d)),
        wr (\<lambda>b p. writeInt32 b p (sp_itemId d) True),
        wr (\<lambda>b p. writeInt8 b p (if sp_posSetFlag d then 1 else 0)),
        wr (\<lambda>b p. writeDouble b p (sp_posX d) True),
        wr (\<lambda>b p. writeDouble b p (sp_posY d) True),
        wr (\<lambda>b p. writeDouble b p (sp_scale d) True)]
       ([], writePos)"

text \<open>The flag and the id go through the locals \<^verbatim>\<open>f\<close> and \<^verbatim>\<open>t\<close> and are stored at the end only.\<close>

record basic_locals =
  bl_f :: byte
  bl_t :: "32 word"
  bl_res :: SPaintData

abbreviation bl_set ::
  "('v \<Rightarrow> SPaintData \<Rightarrow> SPaintData) \<Rightarrow> 'v \<Rightarrow> basic_locals \<Rightarrow> basic_locals" where
  "bl_set f v s \<equiv> s\<lparr>bl_res := f v (bl_res s)\<rparr>"

definition basic_reads :: "basic_locals rstmt list" where
  "basic_reads =
     [rs_string8 (bl_set (\<lambda>v d. d\<lparr>sp_owner := v\<rparr>)),
      rs_int32 (\<lambda>v s. s\<lparr>bl_t := v\<rparr>),
      rs_int8 (\<lambda>v s. s\<lparr>bl_f := v\<rparr>),
      rs_double (bl_set (\<lambda>v d. d\<lparr>sp_posX := v\<rparr>)),
      rs_double (bl_set (\<lambda>v d. d\<lparr>sp_posY := v\<rparr>)),
      rs_double (bl_set (\<lambda>v d. d\<lparr>sp_scale := v\<rparr>))]"

definition deserializeBasicData :: "bytes \<Rightarrow> nat \<Rightarrow> SPaintData \<Rightarrow> bool \<times> SPaintData \<times> nat" where
  "deserializeBasicData data pos res =
     (case run_reads basic_reads data \<lparr>bl_f = 0, bl_t = 0, bl_res = res\<rparr> pos of
        Done s pos' \<Rightarrow>
          (True, (bl_res s)\<lparr>sp_posSetFlag := (bl_f s = 1), sp_itemId := bl_t s\<rparr>, pos')
      | Thrown e s \<Rightarrow> (False, bl_res s, pos))"

definition enc_basic :: "SPaintData \<Rightarrow> bytes" where
  "enc_basic d = enc_string8 (sp_owner d) @ enc_int32 (sp_itemId d)
     @ enc_int8 (if sp_posSetFlag d then 1 else 0)
     @ enc_double (sp_posX d) @ enc_double (sp_posY d) @ enc_double (sp_scale d)"

definition ok_basic :: "SPaintData \<Rightarrow> bool" where
  "ok_basic d \<longleftrightarrow> fits8 (sp_owner d)"

lemma serializeBasicData_eq:
  "ok_basic d \<Longrightarrow> serializeBasicData d 0 = Inr (enc_basic d, length (enc_basic d))"
  by (simp add: serializeBasicData_def enc_basic_def ok_basic_def codec_simps)

lemma basic_reads_positional: "\<forall>st \<in> set basic_reads. positional st"
  by (simp add: basic_reads_def)

interpretation basic: object_codec enc_basic ok_basic "\<lambda>v s. v"
  "\<lambda>d. bindE (serializeBasicData d 0) (\<lambda>(buf, pos). Inr buf)" deserializeBasicData
proof unfold_locales
  fix v assume "ok_basic v"
  then show "bindE (serializeBasicData v 0) (\<lambda>(buf, pos). Inr buf) = Inr (enc_basic v)"
    by (simp add: serializeBasicData_eq)
next
  fix v r s assume "ok_basic v"
  then show "deserializeBasicData (enc_basic v @ r) 0 s = (True, v, length (enc_basic v))"
    by (simp add: deserializeBasicData_def basic_reads_def enc_basic_def ok_basic_def codec_simps)
next
  fix pre d p s
  show "deserializeBasicData (pre @ d) (length pre + p) s =
    (case deserializeBasicData d p s of (b, s', p') \<Rightarrow> (b, s', length pre + p'))"
    using positionalD [OF positional_run_reads [OF basic_reads_positional], of pre d _ p]
    by (auto simp: deserializeBasicData_def split: outcome.splits)
qed

section \<open>The items on the wire\<close>

text \<open>\<^verbatim>\<open>data = CPaintItem::serialize( &pos )\<close> followed by the statements of the subclass.\<close>

definition serialize_with :: "wstmt list \<Rightarrow> CPaintItem \<Rightarrow> bytes result" where
  "serialize_with stmts it =
     bindE (serializeBasicData (it_data it) 0) (\<lambda>st.
     bindE (run_writes stmts st) (\<lambda>(buf, pos). Inr buf))"

definition color_writes :: "QColor \<Rightarrow> wstmt list" where
  "color_writes c =
     [wr (\<lambda>b p. writeInt16 b p (c_red c) True),
      wr (\<lambda>b p. writeInt16 b p (c_green c) True),
      wr (\<lambda>b p. writeInt16 b p (c_blue c) True),
      wr (\<lambda>b p. writeInt16 b p (c_alpha c) True)]"

definition point_writes :: "double \<times> double \<Rightarrow> wstmt list" where
  "point_writes pt =
     [wr (\<lambda>b p. writeDouble b p (fst pt) True), wr (\<lambda>b p. writeDouble b p (snd pt) True)]"

definition line_writes :: "(double \<times> double) list \<Rightarrow> QColor \<Rightarrow> 32 word \<Rightarrow> wstmt list" where
  "line_writes ps c w =
     color_writes c
     @ [wr (\<lambda>b p. writeInt16 b p (ucast w) True),
        wr (\<lambda>b p. writeInt16 b p (of_nat (length ps)) True)]
     @ concat (map point_writes ps)"

definition image_writes :: "bytes \<Rightarrow> wstmt list" where
  "image_writes d = [wr (\<lambda>b p. writeString32 b p d True)]"

definition text_writes :: "qt \<Rightarrow> qstring \<Rightarrow> QFont \<Rightarrow> QColor \<Rightarrow> wstmt list" where
  "text_writes q t f c =
     color_writes c
     @ [wr (\<lambda>b p. writeInt16 b p (ucast (f_pixelSize f)) True),
        wr (\<lambda>b p. writeString16 b p (q_toUtf8 q t) True),
        wr (\<lambda>b p. writeString16 b p (q_toUtf8 q (f_family f)) True),
        wr (\<lambda>b p. writeInt8 b p (if f_bold f then 1 else 0))]"

definition file_writes :: "bytes \<Rightarrow> bytes \<Rightarrow> wstmt list" where
  "file_writes name d =
     [wr (\<lambda>b p. writeString16 b p name True),
      wr (\<lambda>b p. writeInt32 b p (of_nat (length d)) True),
      wr (\<lambda>b p. writeBinary b p d)]"

text \<open>A file item that cannot be opened serialises to the empty string.\<close>

definition serialize_item :: "qt \<Rightarrow> files \<Rightarrow> CPaintItem \<Rightarrow> bytes result" where
  "serialize_item q fs it =
     (case it_content it of
        LineContent ps c w \<Rightarrow> serialize_with (line_writes ps c w) it
      | ImageContent d \<Rightarrow> serialize_with (image_writes d) it
      | BgImageContent d \<Rightarrow> serialize_with (image_writes d) it
      | TextContent t f c \<Rightarrow> serialize_with (text_writes q t f c) it
      | FileContent p \<Rightarrow>
          (case fs p of None \<Rightarrow> Inr []
           | Some d \<Rightarrow> serialize_with (file_writes (q_toUtf8 q (q_fileName q p)) d) it)
      | ImageFileContent p \<Rightarrow>
          (case fs p of None \<Rightarrow> Inr []
           | Some d \<Rightarrow> serialize_with (file_writes (q_toUtf8 q (q_fileName q p)) d) it))"

text \<open>The locals of the deserialisers, with the points pushed so far.\<close>

record item_locals =
  l_r :: "16 word"
  l_g :: "16 word"
  l_b :: "16 word"
  l_a :: "16 word"
  l_w :: "16 word"
  l_ptCnt :: "16 word"
  l_x :: double
  l_points :: "(double \<times> double) list"
  l_text :: bytes
  l_family :: bytes
  l_bold :: byte
  l_data :: bytes

definition new_locals :: "(double \<times> double) list \<Rightarrow> item_locals" where
  "new_locals ps = \<lparr>l_r = 0, l_g = 0, l_b = 0, l_a = 0, l_w = 0, l_ptCnt = 0, l_x = 0,
     l_points = ps, l_text = [], l_family = [], l_bold = 0, l_data = []\<rparr>"

definition point_reads :: "item_locals rstmt list" where
  "point_reads =
     [rs_double (\<lambda>v s. s\<lparr>l_x := v\<rparr>),
      rs_double (\<lambda>v s. s\<lparr>l_points := l_points s @ [(l_x s, v)]\<rparr>)]"

definition color_reads :: "item_locals rstmt list" where
  "color_reads =
     [rs_int16 (\<lambda>v s. s\<lparr>l_r := v\<rparr>), rs_int16 (\<lambda>v s. s\<lparr>l_g := v\<rparr>),
      rs_int16 (\<lambda>v s. s\<lparr>l_b := v\<rparr>), rs_int16 (\<lambda>v s. s\<lparr>l_a := v\<rparr>)]"

definition points_loop :: "item_locals rstmt" where
  "points_loop data s pos = rep (unat (l_ptCnt s)) (run_reads point_reads) data s pos"

definition line_reads :: "item_locals rstmt list" where
  "line_reads = color_reads
     @ [rs_int16 (\<lambda>v s. s\<lparr>l_w := v\<rparr>), rs_int16 (\<lambda>v s. s\<lparr>l_ptCnt := v\<rparr>), points_loop]"

definition image_reads :: "item_locals rstmt list" where
  "image_reads = [rs_string32 (\<lambda>v s. s\<lparr>l_data := v\<rparr>)]"

definition text_reads :: "item_locals rstmt list" where
  "text_reads = color_reads
     @ [rs_int16 (\<lambda>v s. s\<lparr>l_w := v\<rparr>), rs_string16 (\<lambda>v s. s\<lparr>l_text := v\<rparr>),
        rs_string16 (\<lambda>v s. s\<lparr>l_family := v\<rparr>), rs_int8 (\<lambda>v s. s\<lparr>l_bold := v\<rparr>)]"

definition file_reads :: "item_locals rstmt list" where
  "file_reads =
     [rs_string16 (\<lambda>v s. s\<lparr>l_text := v\<rparr>), rs_string32 (\<lambda>v s. s\<lparr>l_data := v\<rparr>)]"

text \<open>
  \<^verbatim>\<open>if( ! CPaintItem::deserialize( data, &pos ) ) return false;\<close> and the statements of the
  subclass: \<open>fin\<close> is what happens after they all succeed, \<open>part\<close> what a throw leaves behind.
\<close>

definition deserialize_with ::
  "item_locals rstmt list \<Rightarrow> item_locals \<Rightarrow> (item_locals \<Rightarrow> CPaintItem \<Rightarrow> 'r)
   \<Rightarrow> (item_locals \<Rightarrow> CPaintItem \<Rightarrow> 'r) \<Rightarrow> bytes \<Rightarrow> CPaintItem \<Rightarrow> 'r" where
  "deserialize_with sts l fin part data it =
     (case deserializeBasicData data 0 (it_data it) of
        (False, d, pos) \<Rightarrow> part l (it\<lparr>it_data := d\<rparr>)
      | (True, d, pos) \<Rightarrow>
          (case run_reads sts data l pos of
             Done s pos' \<Rightarrow> fin s (it\<lparr>it_data := d\<rparr>)
           | Thrown e s \<Rightarrow> part s (it\<lparr>it_data := d\<rparr>)))"

definition deserialize_line ::
  "qt \<Rightarrow> (double \<times> double) list \<Rightarrow> QColor \<Rightarrow> 32 word \<Rightarrow> bytes \<Rightarrow> CPaintItem \<Rightarrow> bool \<times> CPaintItem"
where
  "deserialize_line q ps c w =
     deserialize_with line_reads (new_locals ps)
       (\<lambda>s it. (True, it\<lparr>it_content := LineContent (l_points s)
                  (q_color q (l_r s) (l_g s) (l_b s) (l_a s)) (ucast (l_w s))\<rparr>))
       (\<lambda>s it. (False, it\<lparr>it_content := LineContent (l_points s) c w\<rparr>))"

definition deserialize_image ::
  "(bytes \<Rightarrow> content) \<Rightarrow> bytes \<Rightarrow> CPaintItem \<Rightarrow> bool \<times> CPaintItem" where
  "deserialize_image mk =
     deserialize_with image_reads (new_locals [])
       (\<lambda>s it. (True, it\<lparr>it_content := mk (l_data s)\<rparr>)) (\<lambda>s it. (False, it))"

definition deserialize_text :: "qt \<Rightarrow> QFont \<Rightarrow> bytes \<Rightarrow> CPaintItem \<Rightarrow> bool \<times> CPaintItem" where
  "deserialize_text q f =
     deserialize_with text_reads (new_locals [])
       (\<lambda>s it. (True, it\<lparr>it_content := TextContent (q_fromUtf8 q (l_text s))
          ((q_setPixelSize q (l_w s) (f\<lparr>f_family := q_fromUtf8 q (l_family s)\<rparr>))
             \<lparr>f_bold := (l_bold s = 1)\<rparr>)
          (q_color q (l_r s) (l_g s) (l_b s) (l_a s))\<rparr>))
       (\<lambda>s it. (False, it))"

text \<open>
  \<^verbatim>\<open>Util::checkAndChangeSameFileName\<close>: the first of the path and its numbered siblings that
  does not exist.  It need not return: \<open>None\<close>.
\<close>

partial_function (option) checkAndChangeSameFileName ::
  "qt \<Rightarrow> (qstring \<Rightarrow> bool) \<Rightarrow> qstring \<Rightarrow> qstring option \<Rightarrow> nat \<Rightarrow> qstring option" where
  "checkAndChangeSameFileName q ex path base i =
     (if \<not> ex path then Some path
      else let b = (case base of Some x \<Rightarrow> x | None \<Rightarrow> q_baseName q path);
               name = b @ [40] @ q_number q i @ [41]
           in checkAndChangeSameFileName q ex (q_sibling q path name) (Some b) (Suc i))"

text \<open>
  A received file: the name is used as it came.  The file is opened (and so created) before its
  content is written; \<open>None\<close> when no free name is found.
\<close>

definition store_file ::
  "qt \<Rightarrow> files \<Rightarrow> (qstring \<Rightarrow> content) \<Rightarrow> bytes \<Rightarrow> bytes \<Rightarrow> CPaintItem
   \<Rightarrow> (bool \<times> CPaintItem \<times> files) option" where
  "store_file q fs mk name d it =
     (case checkAndChangeSameFileName q (\<lambda>p. fs p \<noteq> None)
             (q_downloadPath q @ q_fromUtf8 q name) None 1 of
        None \<Rightarrow> None
      | Some path \<Rightarrow>
          (let it' = it\<lparr>it_content := mk path\<rparr> in
           if \<not> q_canWrite q path then Some (False, it', fs)
           else if q_written q d \<noteq> int (length d)
           then Some (False, it', fs(path \<mapsto> take (nat (q_written q d)) d))
           else Some (True, it', fs(path \<mapsto> d))))"

definition deserialize_file ::
  "qt \<Rightarrow> files \<Rightarrow> (qstring \<Rightarrow> content) \<Rightarrow> bytes \<Rightarrow> CPaintItem
   \<Rightarrow> (bool \<times> CPaintItem \<times> files) option" where
  "deserialize_file q fs mk =
     deserialize_with file_reads (new_locals [])
       (\<lambda>s it. store_file q fs mk (l_text s) (l_data s) it) (\<lambda>s it. Some (False, it, fs))"

definition deserialize_item ::
  "qt \<Rightarrow> files \<Rightarrow> bytes \<Rightarrow> CPaintItem \<Rightarrow> (bool \<times> CPaintItem \<times> files) option" where
  "deserialize_item q fs data it =
     (let keep = (\<lambda>(ok, it'). Some (ok, it', fs)) in
      case it_content it of
        LineContent ps c w \<Rightarrow> keep (deserialize_line q ps c w data it)
      | ImageContent d \<Rightarrow> keep (deserialize_image ImageContent data it)
      | BgImageContent d \<Rightarrow> keep (deserialize_image BgImageContent data it)
      | TextContent t f c \<Rightarrow> keep (deserialize_text q f data it)
      | FileContent p \<Rightarrow> deserialize_file q fs FileContent data it
      | ImageFileContent p \<Rightarrow> deserialize_file q fs ImageFileContent data it)"

text \<open>The factory knows no background image: the assertion fails.\<close>

definition createItem :: "qt \<Rightarrow> 16 word \<Rightarrow> CPaintItem result" where
  "createItem q t =
     (if t = item_type_num PT_LINE then Inr (new_item (LineContent [] (q_newColor q) 0))
      else if t = item_type_num PT_FILE then Inr (new_item (FileContent []))
      else if t = item_type_num PT_TEXT
        then Inr (new_item (TextContent [] (q_newFont q) (q_newColor q)))
      else if t = item_type_num PT_IMAGE_FILE then Inr (new_item (ImageFileContent []))
      else if t = item_type_num PT_IMAGE then Inr (new_item (ImageContent []))
      else Inl AssertFailure)"

section \<open>Round trips\<close>

definition enc_color :: "QColor \<Rightarrow> bytes" where
  "enc_color c = enc_int16 (c_red c) @ enc_int16 (c_green c) @ enc_int16 (c_blue c)
     @ enc_int16 (c_alpha c)"

definition enc_points :: "(double \<times> double) list \<Rightarrow> bytes" where
  "enc_points ps = concat (map (\<lambda>pt. enc_double (fst pt) @ enc_double (snd pt)) ps)"

definition enc_line :: "(double \<times> double) list \<Rightarrow> QColor \<Rightarrow> 32 word \<Rightarrow> bytes" where
  "enc_line ps c w = enc_color c @ enc_int16 (ucast w) @ enc_int16 (of_nat (length ps)) @ enc_points ps"

definition enc_text :: "qt \<Rightarrow> qstring \<Rightarrow> QFont \<Rightarrow> QColor \<Rightarrow> bytes" where
  "enc_text q t f c = enc_color c @ enc_int16 (ucast (f_pixelSize f)) @ enc_string16 (q_toUtf8 q t)
     @ enc_string16 (q_toUtf8 q (f_family f)) @ enc_int8 (if f_bold f then 1 else 0)"

lemma length_enc_points: "length (enc_points ps) = 16 * length ps"
  by (induction ps) (simp_all add: enc_points_def)

lemma run_color_writes:
  "p = length buf \<Longrightarrow> run_writes (color_writes c @ ss) (buf, p)
     = run_writes ss (buf @ enc_color c, p + length (enc_color c))"
  by (simp add: color_writes_def enc_color_def codec_simps eval_nat_numeral)

lemma run_point_writes:
  "p = length buf \<Longrightarrow> run_writes (concat (map point_writes ps)) (buf, p)
     = Inr (buf @ enc_points ps, p + length (enc_points ps))"
proof (induction ps arbitrary: buf p)
  case Nil
  then show ?case by (simp add: enc_points_def)
next
  case (Cons pt ps)
  let ?b = "enc_double (fst pt) @ enc_double (snd pt)"
  have "run_writes (concat (map point_writes (pt # ps))) (buf, p)
      = run_writes (concat (map point_writes ps)) (buf @ ?b, p + 16)"
    using Cons.prems by (simp add: point_writes_def codec_simps add.commute)
  also have "\<dots> = Inr (buf @ enc_points (pt # ps), p + length (enc_points (pt # ps)))"
    using Cons.IH [of "p + 16" "buf @ ?b"] Cons.prems by (simp add: enc_points_def)
  finally show ?case .
qed

lemma run_line_writes:
  "p = length buf \<Longrightarrow> run_writes (line_writes ps c w) (buf, p)
     = Inr (buf @ enc_line ps c w, p + length (enc_line ps c w))"
  by (simp add: line_writes_def run_color_writes codec_simps run_point_writes enc_line_def)

lemma run_text_writes:
  "p = length buf \<Longrightarrow> fits16 (q_toUtf8 q t) \<Longrightarrow> fits16 (q_toUtf8 q (f_family f)) \<Longrightarrow>
   run_writes (text_writes q t f c) (buf, p)
     = Inr (buf @ enc_text q t f c, p + length (enc_text q t f c))"
  by (simp add: text_writes_def run_color_writes codec_simps enc_text_def)

lemma run_image_writes:
  "p = length buf \<Longrightarrow> fits32 d \<Longrightarrow> run_writes (image_writes d) (buf, p)
     = Inr (buf @ enc_string32 d, p + length (enc_string32 d))"
  by (simp add: image_writes_def codec_simps)

lemma writeBinary_end: "p = length buf \<Longrightarrow> run_writes [wr (\<lambda>b p. writeBinary b p d)] (buf, p)
    = Inr (buf @ d, p + length d)"
  by (simp add: run_writes_Cons wr_def writeBinary_def)

lemma run_file_writes:
  "p = length buf \<Longrightarrow> fits16 n \<Longrightarrow> run_writes (file_writes n d) (buf, p)
     = Inr (buf @ enc_string16 n @ enc_string32 d, p + length (enc_string16 n @ enc_string32 d))"
  by (simp add: file_writes_def codec_simps writeBinary_end enc_string32_def)

lemma serialize_with_eq:
  assumes "ok_basic (it_data it)"
    and "\<And>buf p. p = length buf \<Longrightarrow> run_writes stmts (buf, p) = Inr (buf @ e, p + length e)"
  shows "serialize_with stmts it = Inr (enc_basic (it_data it) @ e)"
  using assms by (simp add: serialize_with_def serializeBasicData_eq)

lemma positional_point_reads: "positional (run_reads point_reads)"
  by (rule positional_run_reads) (simp add: point_reads_def)

lemma positional_points_loop [simp]: "positional points_loop"
  using positional_rep [OF positional_point_reads]
  by (simp add: positional_def points_loop_def)

lemma read_points:
  "rep (length ps) (run_reads point_reads) (enc_points ps @ r) s 0
     = Done (s\<lparr>l_points := l_points s @ ps, l_x := (if ps = [] then l_x s else fst (last ps))\<rparr>)
         (length (enc_points ps))"
proof (induction ps arbitrary: s)
  case Nil
  then show ?case by (simp add: enc_points_def)
next
  case (Cons pt ps)
  let ?b = "enc_double (fst pt) @ enc_double (snd pt)"
  have "run_reads point_reads (?b @ enc_points ps @ r) s 0
      = Done (s\<lparr>l_x := fst pt, l_points := l_points s @ [pt]\<rparr>) (length ?b)"
    by (simp add: point_reads_def codec_simps)
  then have "rep (length (pt # ps)) (run_reads point_reads) (?b @ enc_points ps @ r) s 0
    = rep (length ps) (run_reads point_reads) (?b @ enc_points ps @ r)
        (s\<lparr>l_x := fst pt, l_points := l_points s @ [pt]\<rparr>) (length ?b)"
    by simp
  also have "\<dots> = shift (length ?b) (rep (length ps) (run_reads point_reads) (enc_points ps @ r)
        (s\<lparr>l_x := fst pt, l_points := l_points s @ [pt]\<rparr>) 0)"
    using positionalD0 [OF positional_rep [OF positional_point_reads], of "length ps" ?b] by simp
  finally show ?case using Cons.IH by (simp add: enc_points_def)
qed

lemma deserialize_with_eq:
  assumes "ok_basic d" and "\<forall>st \<in> set sts. positional st"
  shows "deserialize_with sts l fin part (enc_basic d @ e) it =
    (case run_reads sts e l 0 of
       Done s pos \<Rightarrow> fin s (it\<lparr>it_data := d\<rparr>) | Thrown x s \<Rightarrow> part s (it\<lparr>it_data := d\<rparr>))"
  using basic.de_enc [OF assms(1), of e "it_data it"]
    positionalD0 [OF positional_run_reads [OF assms(2)], of "enc_basic d" e l]
  by (cases "run_reads sts e l 0") (simp_all add: deserialize_with_def)

lemma run_line_reads:
  assumes "length ps \<le> n" and "n mod 65536 = length ps"
  shows "run_reads line_reads
      (enc_color c @ enc_int16 w @ enc_int16 (of_nat n) @ enc_points ps @ r) (new_locals []) 0
    = Done ((new_locals [])\<lparr>l_r := c_red c, l_g := c_green c, l_b := c_blue c, l_a := c_alpha c,
        l_w := w, l_ptCnt := of_nat n, l_points := ps,
        l_x := (if ps = [] then 0 else fst (last ps))\<rparr>) (12 + 16 * length ps)"
proof -
  have n: "unat (of_nat n :: 16 word) = length ps"
    using assms by (simp add: unat_of_nat take_bit_eq_mod)
  show ?thesis
    using read_points [of ps r]
    by (simp add: line_reads_def color_reads_def enc_color_def codec_simps)
      (simp add: run_reads_Cons points_loop_def n codec_simps new_locals_def length_enc_points)
qed

lemma run_text_reads:
  assumes "fits16 t" and "fits16 fam"
  shows "run_reads text_reads (enc_color c @ enc_int16 w @ enc_string16 t @ enc_string16 fam
      @ enc_int8 b @ r) l 0
    = Done (l\<lparr>l_r := c_red c, l_g := c_green c, l_b := c_blue c, l_a := c_alpha c,
        l_w := w, l_text := t, l_family := fam, l_bold := b\<rparr>)
        (15 + length t + length fam)"
  using assms by (simp add: text_reads_def color_reads_def enc_color_def codec_simps)

section \<open>Properties\<close>

text \<open>The items the format can carry.\<close>

definition ok_item :: "qt \<Rightarrow> CPaintItem \<Rightarrow> bool" where
  "ok_item q it \<longleftrightarrow> ok_basic (it_data it) \<and>
     (case it_content it of
        LineContent ps c w \<Rightarrow> length ps \<le> 0xffff \<and> unat w \<le> 0xffff
      | ImageContent d \<Rightarrow> fits32 d
      | BgImageContent d \<Rightarrow> fits32 d
      | TextContent t f c \<Rightarrow> fits16 (q_toUtf8 q t) \<and> fits16 (q_toUtf8 q (f_family f))
          \<and> 0 < unat (f_pixelSize f) \<and> unat (f_pixelSize f) \<le> 0xffff
      | FileContent p \<Rightarrow> False
      | ImageFileContent p \<Rightarrow> False)"

text \<open>
  What the round trip of an item needs of Qt: a colour is rebuilt from its components, the UTF-8
  image of a string converts back to it, and a positive pixel size is stored in the font.
\<close>

definition qt_carries :: "qt \<Rightarrow> CPaintItem \<Rightarrow> bool" where
  "qt_carries q it \<longleftrightarrow>
     (\<forall>n f. n \<noteq> 0 \<longrightarrow> q_setPixelSize q n f = f\<lparr>f_pixelSize := ucast n\<rparr>) \<and>
     (case it_content it of
        LineContent ps c w \<Rightarrow> q_color q (c_red c) (c_green c) (c_blue c) (c_alpha c) = c
      | TextContent t f c \<Rightarrow> q_color q (c_red c) (c_green c) (c_blue c) (c_alpha c) = c
          \<and> q_fromUtf8 q (q_toUtf8 q t) = t
          \<and> q_fromUtf8 q (q_toUtf8 q (f_family f)) = f_family f
      | _ \<Rightarrow> True)"

lemma ucast_ucast16: "unat (w :: 32 word) \<le> 0xffff \<Longrightarrow> ucast (ucast w :: 16 word) = w"
proof -
  assume "unat w \<le> 0xffff"
  then have "take_bit 16 w = w"
    by (simp add: word_unat_eq_iff unsigned_take_bit_eq take_bit_nat_eq_self)
  moreover have "ucast (ucast w :: 16 word) = take_bit 16 w"
    by (rule bit_word_eqI) (auto simp: bit_simps)
  ultimately show ?thesis by simp
qed

lemma ucast16_neq_0:
  "0 < unat (w :: 32 word) \<Longrightarrow> unat w \<le> 0xffff \<Longrightarrow> (ucast w :: 16 word) \<noteq> 0"
  by (simp add: word_unat_eq_iff unsigned_ucast_eq take_bit_eq_mod)

lemma line_roundtrip:
  assumes "ok_basic (it_data it)" and "n = length qs" and "ps = take (n mod 65536) qs"
  shows "serialize_with (line_writes qs c w) it
      = Inr (enc_basic (it_data it) @ enc_line qs c w)"
    and "deserialize_line q [] cn wn (enc_basic (it_data it) @ enc_line qs c w) tgt
      = (True, tgt\<lparr>it_data := it_data it, it_content := LineContent ps
          (q_color q (c_red c) (c_green c) (c_blue c) (c_alpha c)) (ucast (ucast w :: 16 word))\<rparr>)"
proof -
  show "serialize_with (line_writes qs c w) it = Inr (enc_basic (it_data it) @ enc_line qs c w)"
    by (rule serialize_with_eq [OF assms(1) run_line_writes])
  have len: "length ps \<le> n" "n mod 65536 = length ps"
    using assms(2,3) by (simp_all add: min_def)
  have "enc_points qs = enc_points ps @ enc_points (drop (n mod 65536) qs)"
    unfolding enc_points_def assms(3)
    by (metis append_take_drop_id concat_append map_append)
  then have e: "enc_line qs c w = enc_color c @ enc_int16 (ucast w) @ enc_int16 (of_nat n)
      @ enc_points ps @ enc_points (drop (n mod 65536) qs)"
    by (simp add: enc_line_def assms(2))
  have pos: "\<forall>st \<in> set line_reads. positional st"
    by (simp add: line_reads_def color_reads_def)
  show "deserialize_line q [] cn wn (enc_basic (it_data it) @ enc_line qs c w) tgt
      = (True, tgt\<lparr>it_data := it_data it, it_content := LineContent ps
          (q_color q (c_red c) (c_green c) (c_blue c) (c_alpha c)) (ucast (ucast w :: 16 word))\<rparr>)"
    unfolding deserialize_line_def deserialize_with_eq [OF assms(1) pos] e
    using run_line_reads [OF len, of c "ucast w"] by simp
qed

lemma text_roundtrip:
  assumes "ok_basic (it_data it)" and "fits16 (q_toUtf8 q t)" "fits16 (q_toUtf8 q (f_family f))"
  shows "serialize_with (text_writes q t f c) it
      = Inr (enc_basic (it_data it) @ enc_text q t f c)"
    and "deserialize_text q fn (enc_basic (it_data it) @ enc_text q t f c) tgt
      = (True, tgt\<lparr>it_data := it_data it, it_content := TextContent (q_fromUtf8 q (q_toUtf8 q t))
          ((q_setPixelSize q (ucast (f_pixelSize f))
              (fn\<lparr>f_family := q_fromUtf8 q (q_toUtf8 q (f_family f))\<rparr>))\<lparr>f_bold := f_bold f\<rparr>)
          (q_color q (c_red c) (c_green c) (c_blue c) (c_alpha c))\<rparr>)"
proof -
  show "serialize_with (text_writes q t f c) it = Inr (enc_basic (it_data it) @ enc_text q t f c)"
    by (rule serialize_with_eq [OF assms(1) run_text_writes [OF _ assms(2,3)]])
  have pos: "\<forall>st \<in> set text_reads. positional st"
    by (simp add: text_reads_def color_reads_def)
  show "deserialize_text q fn (enc_basic (it_data it) @ enc_text q t f c) tgt
      = (True, tgt\<lparr>it_data := it_data it, it_content := TextContent (q_fromUtf8 q (q_toUtf8 q t))
          ((q_setPixelSize q (ucast (f_pixelSize f))
              (fn\<lparr>f_family := q_fromUtf8 q (q_toUtf8 q (f_family f))\<rparr>))\<lparr>f_bold := f_bold f\<rparr>)
          (q_color q (c_red c) (c_green c) (c_blue c) (c_alpha c))\<rparr>)"
    unfolding deserialize_text_def deserialize_with_eq [OF assms(1) pos]
    using run_text_reads [OF assms(2,3), of c "ucast (f_pixelSize f)" _ "[]"]
    by (simp add: enc_text_def)
qed

lemma image_roundtrip:
  assumes "ok_basic (it_data it)" and "fits32 d"
  shows "serialize_with (image_writes d) it = Inr (enc_basic (it_data it) @ enc_string32 d)"
    and "deserialize_image mk (enc_basic (it_data it) @ enc_string32 d) tgt
      = (True, tgt\<lparr>it_data := it_data it, it_content := mk d\<rparr>)"
proof -
  show "serialize_with (image_writes d) it = Inr (enc_basic (it_data it) @ enc_string32 d)"
    by (rule serialize_with_eq [OF assms(1) run_image_writes [OF _ assms(2)]])
  have pos: "\<forall>st \<in> set image_reads. positional st" by (simp add: image_reads_def)
  have "run_reads image_reads (enc_string32 d) l 0 = Done (l\<lparr>l_data := d\<rparr>) (4 + length d)" for l
    using s32.run_read_str [OF assms(2), of "[]" "\<lambda>v s. s\<lparr>l_data := v\<rparr>" "[]" l]
    by (simp add: image_reads_def)
  then show "deserialize_image mk (enc_basic (it_data it) @ enc_string32 d) tgt
      = (True, tgt\<lparr>it_data := it_data it, it_content := mk d\<rparr>)"
    unfolding deserialize_image_def deserialize_with_eq [OF assms(1) pos] by simp
qed

lemma item_rt:
  assumes "ok_item q it" and "qt_carries q it" and "serialize_item q fs it = Inr d"
    and "it_content it0 = (case it_content it of
           LineContent ps c w \<Rightarrow> LineContent [] (q_newColor q) 0
         | ImageContent x \<Rightarrow> ImageContent []
         | BgImageContent x \<Rightarrow> BgImageContent []
         | TextContent t f c \<Rightarrow> TextContent [] (q_newFont q) (q_newColor q)
         | FileContent p \<Rightarrow> FileContent [] | ImageFileContent p \<Rightarrow> ImageFileContent [])"
  shows "deserialize_item q fs' d it0
    = Some (True, it0\<lparr>it_data := it_data it, it_content := it_content it\<rparr>, fs')"
proof -
  have basic: "ok_basic (it_data it)" using assms(1) by (simp add: ok_item_def)
  show ?thesis
  proof (cases "it_content it")
    case (LineContent ps c w)
    then have "length ps < 65536" "unat w \<le> 0xffff"
      "q_color q (c_red c) (c_green c) (c_blue c) (c_alpha c) = c"
      using assms(1,2) by (simp_all add: ok_item_def qt_carries_def)
    moreover have "d = enc_basic (it_data it) @ enc_line ps c w"
      using line_roundtrip(1) [where qs = ps, OF basic refl refl] assms(3) LineContent
      by (simp add: serialize_item_def)
    ultimately show ?thesis
      using line_roundtrip(2) [where qs = ps and q = q, OF basic refl refl] assms(4) LineContent
      by (simp add: deserialize_item_def Let_def ucast_ucast16)
  next
    case (TextContent t f c)
    then have fits: "fits16 (q_toUtf8 q t)" "fits16 (q_toUtf8 q (f_family f))"
      and px: "0 < unat (f_pixelSize f)" "unat (f_pixelSize f) \<le> 0xffff"
      and q: "q_color q (c_red c) (c_green c) (c_blue c) (c_alpha c) = c"
        "q_fromUtf8 q (q_toUtf8 q t) = t" "q_fromUtf8 q (q_toUtf8 q (f_family f)) = f_family f"
        "\<And>n f. n \<noteq> 0 \<Longrightarrow> q_setPixelSize q n f = f\<lparr>f_pixelSize := ucast n\<rparr>"
      using assms(1,2) by (simp_all add: ok_item_def qt_carries_def)
    have "d = enc_basic (it_data it) @ enc_text q t f c"
      using text_roundtrip(1) [where c = c, OF basic fits] assms(3) TextContent
      by (simp add: serialize_item_def)
    then show ?thesis
      using text_roundtrip(2) [where tgt = it0 and fn = "q_newFont q" and c = c, OF basic fits]
        assms(4) TextContent q(4) [OF ucast16_neq_0 [OF px]]
      by (simp add: deserialize_item_def Let_def q(1-3) ucast_ucast16 [OF px(2)])
  next
    case (ImageContent x)
    then have "fits32 x" using assms(1) by (simp add: ok_item_def)
    note rt = image_roundtrip [OF basic this]
    have "d = enc_basic (it_data it) @ enc_string32 x"
      using rt(1) assms(3) ImageContent by (simp add: serialize_item_def)
    then show ?thesis
      using rt(2) assms(4) ImageContent by (simp add: deserialize_item_def Let_def)
  next
    case (BgImageContent x)
    then have "fits32 x" using assms(1) by (simp add: ok_item_def)
    note rt = image_roundtrip [OF basic this]
    have "d = enc_basic (it_data it) @ enc_string32 x"
      using rt(1) assms(3) BgImageContent by (simp add: serialize_item_def)
    then show ?thesis
      using rt(2) assms(4) BgImageContent by (simp add: deserialize_item_def Let_def)
  qed (use assms(1) in \<open>simp_all add: ok_item_def\<close>)
qed

text \<open>C11: a drawn item survives the wire.  A line, text, image or background image that the
  format can carry, serialised and read into a fresh item of its class, arrives with its position,
  scale, owner, id and content; what the receiver's item had as previous data stays.\<close>

theorem item_roundtrip:
  assumes "ok_item q it" and "qt_carries q it" and "serialize_item q fs it = Inr d"
    and "it_content it0 = (case it_content it of
           LineContent ps c w \<Rightarrow> LineContent [] (q_newColor q) 0
         | ImageContent x \<Rightarrow> ImageContent []
         | BgImageContent x \<Rightarrow> BgImageContent []
         | TextContent t f c \<Rightarrow> TextContent [] (q_newFont q) (q_newColor q)
         | FileContent p \<Rightarrow> FileContent [] | ImageFileContent p \<Rightarrow> ImageFileContent [])"
  shows "deserialize_item q fs' d it0
    = Some (True, it0\<lparr>it_data := it_data it, it_content := it_content it\<rparr>, fs')"
  by (rule item_rt [OF assms])

text \<open>A concrete Qt for the witnesses: strings of ASCII characters, paths with slashes.\<close>

definition sample_qt :: qt where
  "sample_qt =
     \<lparr>q_fromUtf8 = map ucast, q_toUtf8 = map ucast,
      q_color = (\<lambda>r g b a. \<lparr>c_red = r, c_green = g, c_blue = b, c_alpha = a\<rparr>),
      q_setPixelSize = (\<lambda>n f. if n = 0 then f else f\<lparr>f_pixelSize := ucast n\<rparr>),
      q_fileName = (\<lambda>p. rev (takeWhile (\<lambda>c. c \<noteq> 47) (rev p))),
      q_baseName = (\<lambda>p. takeWhile (\<lambda>c. c \<noteq> 46) (rev (takeWhile (\<lambda>c. c \<noteq> 47) (rev p)))),
      q_sibling = (\<lambda>p n. rev (dropWhile (\<lambda>c. c \<noteq> 47) (rev p)) @ n @ dropWhile (\<lambda>c. c \<noteq> 46) p),
      q_number = (\<lambda>n. [48 + of_nat n]), q_downloadPath = [68, 47],
      q_canWrite = (\<lambda>p. True), q_written = (\<lambda>d. int (length d)),
      q_newFont = \<lparr>f_family = [], f_pixelSize = 12, f_bold = False\<rparr>,
      q_newColor = \<lparr>c_red = 0, c_green = 0, c_blue = 0, c_alpha = 255\<rparr>\<rparr>"

definition sample_line :: CPaintItem where
  "sample_line = setOwner [65] (setItemId 3 (setPos 5 6
     (new_item (LineContent [(1, 2), (3, 4)] \<lparr>c_red = 10, c_green = 20, c_blue = 30, c_alpha = 255\<rparr> 7))))"

lemma sample_line_ok: "ok_basic (it_data sample_line)"
  by (simp add: sample_line_def ok_basic_def fits8_def setOwner_def setItemId_def setPos_def new_item_def)

lemma sample_line_content:
  "it_content sample_line
     = LineContent [(1, 2), (3, 4)] \<lparr>c_red = 10, c_green = 20, c_blue = 30, c_alpha = 255\<rparr> 7"
  by (simp add: sample_line_def setOwner_def setItemId_def setPos_def new_item_def)

theorem item_roundtrip_witness:
  "deserialize_item sample_qt Map.empty
     (enc_basic (it_data sample_line)
        @ enc_line [(1, 2), (3, 4)] \<lparr>c_red = 10, c_green = 20, c_blue = 30, c_alpha = 255\<rparr> 7)
     (new_item (LineContent [] (q_newColor sample_qt) 0))
   = Some (True, (new_item (LineContent [] (q_newColor sample_qt) 0))
       \<lparr>it_data := it_data sample_line, it_content := it_content sample_line\<rparr>, Map.empty)"
proof (rule item_roundtrip)
  show "ok_item sample_qt sample_line"
    by (simp add: ok_item_def sample_line_ok sample_line_content)
  show "qt_carries sample_qt sample_line"
    by (simp add: qt_carries_def sample_line_content) (simp add: sample_qt_def)
  show "serialize_item sample_qt Map.empty sample_line = Inr (enc_basic (it_data sample_line)
      @ enc_line [(1, 2), (3, 4)] \<lparr>c_red = 10, c_green = 20, c_blue = 30, c_alpha = 255\<rparr> 7)"
    using line_roundtrip(1) [OF sample_line_ok refl refl]
    by (simp add: serialize_item_def sample_line_content)
qed (simp add: sample_line_content new_item_def)

lemma run_file_reads:
  assumes "fits16 n" and "fits32 d"
  shows "run_reads file_reads (enc_string16 n @ enc_string32 d) l 0
    = Done (l\<lparr>l_text := n, l_data := d\<rparr>) (6 + length n + length d)"
proof -
  have "run_reads file_reads (enc_string16 n @ enc_string32 d @ []) l 0
    = Done (l\<lparr>l_text := n, l_data := d\<rparr>) (6 + length n + length d)"
    using assms by (simp add: file_reads_def codec_simps del: append_Nil2)
  then show ?thesis by simp
qed

text \<open>File transfer.  A file item sends the base name and the bytes of its file; the receiver
  creates a file with that name and those bytes in its download directory, when no file of that
  name exists there and the disk takes the write.\<close>

lemma file_transfer:
  assumes "it_content it = FileContent path" and "ok_basic (it_data it)"
    and "fs path = Some d" and "fits32 d"
    and "fits16 (q_toUtf8 q (q_fileName q path))"
    and "dest = q_downloadPath q' @ q_fromUtf8 q' (q_toUtf8 q (q_fileName q path))"
    and "fs' dest = None" and "q_canWrite q' dest" and "q_written q' d = int (length d)"
    and "serialize_item q fs it = Inr w"
  shows "deserialize_item q' fs' w (new_item (FileContent []))
    = Some (True, (new_item (FileContent dest))\<lparr>it_data := it_data it\<rparr>, fs'(dest \<mapsto> d))"
proof -
  have w: "w = enc_basic (it_data it) @ enc_string16 (q_toUtf8 q (q_fileName q path)) @ enc_string32 d"
    using serialize_with_eq [OF assms(2) run_file_writes [OF _ assms(5)], of d] assms(1,3,10)
    by (simp add: serialize_item_def)
  have pos: "\<forall>st \<in> set file_reads. positional st" by (simp add: file_reads_def)
  have "deserialize_file q' fs' FileContent w (new_item (FileContent []))
    = store_file q' fs' FileContent (q_toUtf8 q (q_fileName q path)) d
        ((new_item (FileContent []))\<lparr>it_data := it_data it\<rparr>)"
    unfolding deserialize_file_def w deserialize_with_eq [OF assms(2) pos]
    by (simp add: run_file_reads [OF assms(5,4)])
  moreover have "checkAndChangeSameFileName q' (\<lambda>p. \<exists>y. fs' p = Some y) dest None 1 = Some dest"
    using assms(7) by (simp add: checkAndChangeSameFileName.simps)
  ultimately show ?thesis
    using assms(6,8,9)
    by (simp add: deserialize_item_def store_file_def new_item_def)
qed

lemma checkAndChange_free:
  "checkAndChangeSameFileName q ex path base i = Some p \<Longrightarrow> \<not> ex p"
proof (induction rule: checkAndChangeSameFileName.raw_induct [rotated 1, consumes 1])
  case (1 f q ex path base i p)
  then show ?case
    by (cases "ex path") (simp_all add: Let_def del: append_Cons append.simps, metis)
qed

text \<open>A received item never overwrites a file: whatever bytes a peer sends for whatever item,
  every file that existed before has the same content afterwards.\<close>

lemma receive_item_keeps_files:
  assumes "deserialize_item q fs data it = Some (ok, it', fs')" and "fs p = Some d"
  shows "fs' p = Some d"
proof -
  have store: "fs' p = Some d" if "store_file q fs mk name x item = Some (ok, it', fs')"
    for mk name x item
    using that assms(2) checkAndChange_free [of q "\<lambda>p. fs p \<noteq> None"]
    by (auto simp: store_file_def Let_def split: option.splits if_splits)
  have file_kind: "fs' p = Some d" if "deserialize_file q fs mk data it = Some (ok, it', fs')" for mk
    using that assms(2) store
    by (auto simp: deserialize_file_def deserialize_with_def split: prod.splits bool.splits
        outcome.splits)
  show ?thesis
    using assms file_kind
    by (auto simp: deserialize_item_def Let_def split: content.splits prod.splits)
qed


text \<open>Long lines are cut without notice.  The point count goes into 16 bits: the receiver of
  a line of n points reads \<^verbatim>\<open>n mod 65536\<close> of them and reports success.\<close>

lemma long_line_truncated:
  assumes "ok_basic (it_data it)" and "it_content it = LineContent ps c w"
    and "serialize_item q fs it = Inr d"
  shows "\<exists>c' w'. deserialize_item q fs' d (new_item (LineContent [] (q_newColor q) 0))
    = Some (True, (new_item (LineContent (take (length ps mod 65536) ps) c' w'))
        \<lparr>it_data := it_data it\<rparr>, fs')"
proof -
  have "d = enc_basic (it_data it) @ enc_line ps c w"
    using line_roundtrip(1) [where qs = ps, OF assms(1) refl refl] assms(2,3)
    by (simp add: serialize_item_def)
  then show ?thesis
    using line_roundtrip(2) [where qs = ps and q = q, OF assms(1) refl refl]
    by (simp add: deserialize_item_def Let_def new_item_def)
qed

end
