(* ===== verification/PaintTask.thy ===== *)
theory PaintTask
  imports PacketSlicer PaintItem
begin

text \<open>
  The tasks on items and their packet: \<^verbatim>\<open>SharedPaintTask.h\<close>, \<^verbatim>\<open>SharedPaintTaskFactory.h\<close> and
  \<^verbatim>\<open>TaskPacketBuilder.h\<close> of \<^verbatim>\<open>src/SharedPainter\<close>.  What a task does when it is executed is in
  \<open>CommandManager\<close>.

  A task is its base data and a body whose constructor is the class.  Members that a constructor
  leaves uninitialised are arguments of \<open>createTask\<close>.
\<close>

section \<open>Tasks\<close>

record STaskData =
  td_itemId :: "32 word"
  td_owner :: bytes

datatype task_body =
    AddItem
  | UpdateItem SPaintData SPaintData
  | RemoveItem
  | MoveItem double double double double

record CSharedPaintTask =
  tk_data :: STaskData
  tk_body :: task_body
  tk_sendData :: bool

text \<open>The enumerators \<^verbatim>\<open>Task_AddItem\<close>, \<^verbatim>\<open>Task_UpdateItem\<close>, \<^verbatim>\<open>Task_RemoveItem\<close>, \<^verbatim>\<open>Task_MoveItem\<close>.\<close>

definition task_type :: "CSharedPaintTask \<Rightarrow> 16 word" where
  "task_type t = (case tk_body t of
       AddItem \<Rightarrow> 0 | UpdateItem a b \<Rightarrow> 1 | RemoveItem \<Rightarrow> 2 | MoveItem a b c d \<Rightarrow> 3)"

definition task_owner :: "CSharedPaintTask \<Rightarrow> bytes" where
  "task_owner t = td_owner (tk_data t)"

definition task_itemId :: "CSharedPaintTask \<Rightarrow> 32 word" where
  "task_itemId t = td_itemId (tk_data t)"

definition setSendData :: "bool \<Rightarrow> CSharedPaintTask \<Rightarrow> CSharedPaintTask" where
  "setSendData b t = t\<lparr>tk_sendData := b\<rparr>"

definition new_task :: "bool \<Rightarrow> bytes \<Rightarrow> 32 word \<Rightarrow> task_body \<Rightarrow> CSharedPaintTask" where
  "new_task send ow i body = \<lparr>tk_data = \<lparr>td_itemId = i, td_owner = ow\<rparr>, tk_body = body, tk_sendData = send\<rparr>"

text \<open>The factory; \<open>junk\<close> is a task whose members hold what an uninitialised one may hold.\<close>

definition createTask :: "SPaintData \<Rightarrow> double \<Rightarrow> STaskData \<Rightarrow> bool \<Rightarrow> 16 word \<Rightarrow> CSharedPaintTask result" where
  "createTask jp jd jt js ty =
     (let mk = (\<lambda>b. Inr \<lparr>tk_data = jt, tk_body = b, tk_sendData = js\<rparr>) in
      if ty = 0 then mk AddItem
      else if ty = 2 then mk RemoveItem
      else if ty = 3 then mk (MoveItem jd jd jd jd)
      else if ty = 1 then mk (UpdateItem jp jp)
      else Inl AssertFailure)"

section \<open>Tasks on the wire\<close>

definition serializeTaskData :: "STaskData \<Rightarrow> nat \<Rightarrow> (bytes \<times> nat) result" where
  "serializeTaskData d writePos =
     run_writes
       [wr (\<lambda>b p. writeString8 b p (td_owner d)), wr (\<lambda>b p. writeInt32 b p (td_itemId d) True)]
       ([], writePos)"

record task_locals =
  tl_t :: "32 word"
  tl_res :: STaskData

definition task_reads :: "task_locals rstmt list" where
  "task_reads =
     [rs_string8 (\<lambda>v s. s\<lparr>tl_res := (tl_res s)\<lparr>td_owner := v\<rparr>\<rparr>),
      rs_int32 (\<lambda>v s. s\<lparr>tl_t := v\<rparr>)]"

definition deserializeTaskData :: "bytes \<Rightarrow> nat \<Rightarrow> STaskData \<Rightarrow> bool \<times> STaskData \<times> nat" where
  "deserializeTaskData data pos res =
     (case run_reads task_reads data \<lparr>tl_t = 0, tl_res = res\<rparr> pos of
        Done s pos' \<Rightarrow> (True, (tl_res s)\<lparr>td_itemId := tl_t s\<rparr>, pos')
      | Thrown e s \<Rightarrow> (False, tl_res s, pos))"

text \<open>\<^verbatim>\<open>data += CPaintItem::serializeBasicData( d )\<close>\<close>

definition append_basic :: "SPaintData \<Rightarrow> bytes \<Rightarrow> bytes result" where
  "append_basic d buf = bindE (serializeBasicData d 0) (\<lambda>(b, pos). Inr (buf @ b))"

definition serialize_task :: "CSharedPaintTask \<Rightarrow> bytes result" where
  "serialize_task t =
     bindE (serializeTaskData (tk_data t) 0) (\<lambda>(buf, pos).
       case tk_body t of
         AddItem \<Rightarrow> Inr buf
       | RemoveItem \<Rightarrow> Inr buf
       | UpdateItem prev d \<Rightarrow> bindE (append_basic prev buf) (append_basic d)
       | MoveItem px py x y \<Rightarrow>
           bindE (run_writes
             [wr (\<lambda>b p. writeDouble b p px True), wr (\<lambda>b p. writeDouble b p py True),
              wr (\<lambda>b p. writeDouble b p x True), wr (\<lambda>b p. writeDouble b p y True)] (buf, pos))
             (\<lambda>(buf', pos'). Inr buf'))"

type_synonym move_locals = "double \<times> double \<times> double \<times> double"

definition move_reads :: "move_locals rstmt list" where
  "move_reads =
     [rs_double (\<lambda>v (a, b, c, d). (v, b, c, d)), rs_double (\<lambda>v (a, b, c, d). (a, v, c, d)),
      rs_double (\<lambda>v (a, b, c, d). (a, b, v, d)), rs_double (\<lambda>v (a, b, c, d). (a, b, c, v))]"

text \<open>
  The update task ignores whether its two data blocks could be read (a failed read leaves the
  position alone); the move task starts at 0 whatever \<^verbatim>\<open>readPos\<close> says.
\<close>

definition deserialize_task :: "bytes \<Rightarrow> nat \<Rightarrow> CSharedPaintTask \<Rightarrow> bool \<times> CSharedPaintTask" where
  "deserialize_task data readPos t =
     (case tk_body t of
        UpdateItem prev d \<Rightarrow>
          (case deserializeTaskData data readPos (tk_data t) of
             (False, td, pos) \<Rightarrow> (False, t\<lparr>tk_data := td\<rparr>)
           | (True, td, pos) \<Rightarrow>
               (case deserializeBasicData data pos prev of (b1, prev', pos1) \<Rightarrow>
                case deserializeBasicData data pos1 d of (b2, d', pos2) \<Rightarrow>
                  (True, t\<lparr>tk_data := td, tk_body := UpdateItem prev' d'\<rparr>)))
      | MoveItem px py x y \<Rightarrow>
          (case deserializeTaskData data 0 (tk_data t) of
             (False, td, pos) \<Rightarrow> (False, t\<lparr>tk_data := td\<rparr>)
           | (True, td, pos) \<Rightarrow>
               (case run_reads move_reads data (px, py, x, y) pos of
                  Done (px', py', x', y') pos' \<Rightarrow>
                    (True, t\<lparr>tk_data := td, tk_body := MoveItem px' py' x' y'\<rparr>)
                | Thrown e (px', py', x', y') \<Rightarrow>
                    (False, t\<lparr>tk_data := td, tk_body := MoveItem px' py' x' y'\<rparr>)))
      | _ \<Rightarrow>
          (case deserializeTaskData data readPos (tk_data t) of
             (b, td, pos) \<Rightarrow> (b, t\<lparr>tk_data := td\<rparr>)))"

text \<open>\<^verbatim>\<open>try { ... return packet; } catch(...) { } return "";\<close>\<close>

definition or_empty :: "bytes result \<Rightarrow> bytes" where
  "or_empty m = (case m of Inl e \<Rightarrow> [] | Inr b \<Rightarrow> b)"

text \<open>\<^verbatim>\<open>task->serialize()\<close> is called before the \<^verbatim>\<open>try\<close>: its exception leaves \<^verbatim>\<open>make\<close>.\<close>

definition make_ExecuteTask :: "CSharedPaintTask \<Rightarrow> bytes option \<Rightarrow> bytes result" where
  "make_ExecuteTask t target =
     bindE (serialize_task t) (\<lambda>data.
       Inr (or_empty
         (bindE (run_writes [wr (\<lambda>b p. writeInt16 b p (task_type t) True)] ([], 0))
            (\<lambda>(body, pos). makePacket (code_word CODE_TASK_EXECUTE) (body @ data) None target))))"

definition parse_ExecuteTask ::
  "SPaintData \<Rightarrow> double \<Rightarrow> STaskData \<Rightarrow> bool \<Rightarrow> bytes \<Rightarrow> CSharedPaintTask option result" where
  "parse_ExecuteTask jp jd jt js body =
     (case readInt16 body 0 True of
        Inl e \<Rightarrow> Inr None
      | Inr (ty, n) \<Rightarrow>
          bindE (createTask jp jd jt js ty) (\<lambda>t.
            case deserialize_task (drop n body) 0 t of
              (True, t') \<Rightarrow> Inr (Some t')
            | (False, t') \<Rightarrow> Inr None))"

section \<open>Round trip\<close>

definition enc_task_data :: "STaskData \<Rightarrow> bytes" where
  "enc_task_data d = enc_string8 (td_owner d) @ enc_int32 (td_itemId d)"

definition ok_task_data :: "STaskData \<Rightarrow> bool" where
  "ok_task_data d \<longleftrightarrow> fits8 (td_owner d)"

lemma task_reads_positional: "\<forall>st \<in> set task_reads. positional st"
  by (simp add: task_reads_def)

lemma serializeTaskData_eq:
  "ok_task_data d \<Longrightarrow> serializeTaskData d 0 = Inr (enc_task_data d, length (enc_task_data d))"
  by (simp add: serializeTaskData_def enc_task_data_def ok_task_data_def codec_simps)

interpretation task_data: object_codec enc_task_data ok_task_data "\<lambda>v s. v"
  "\<lambda>d. bindE (serializeTaskData d 0) (\<lambda>(buf, pos). Inr buf)" deserializeTaskData
proof unfold_locales
  fix v assume "ok_task_data v"
  then show "bindE (serializeTaskData v 0) (\<lambda>(buf, pos). Inr buf) = Inr (enc_task_data v)"
    by (simp add: serializeTaskData_eq)
next
  fix v r s assume "ok_task_data v"
  then show "deserializeTaskData (enc_task_data v @ r) 0 s = (True, v, length (enc_task_data v))"
    by (simp add: deserializeTaskData_def task_reads_def enc_task_data_def ok_task_data_def codec_simps)
next
  fix pre d p s
  show "deserializeTaskData (pre @ d) (length pre + p) s =
    (case deserializeTaskData d p s of (b, s', p') \<Rightarrow> (b, s', length pre + p'))"
    using positionalD [OF positional_run_reads [OF task_reads_positional], of pre d _ p]
    by (auto simp: deserializeTaskData_def split: outcome.splits)
qed

definition enc_body :: "task_body \<Rightarrow> bytes" where
  "enc_body b = (case b of
       AddItem \<Rightarrow> [] | RemoveItem \<Rightarrow> [] | UpdateItem prev d \<Rightarrow> enc_basic prev @ enc_basic d
     | MoveItem px py x y \<Rightarrow> enc_double px @ enc_double py @ enc_double x @ enc_double y)"

definition ok_task :: "CSharedPaintTask \<Rightarrow> bool" where
  "ok_task t \<longleftrightarrow> ok_task_data (tk_data t) \<and>
     (case tk_body t of UpdateItem prev d \<Rightarrow> ok_basic prev \<and> ok_basic d | _ \<Rightarrow> True)"

lemma serialize_task_eq:
  "ok_task t \<Longrightarrow> serialize_task t = Inr (enc_task_data (tk_data t) @ enc_body (tk_body t))"
  by (cases "tk_body t")
    (simp_all add: serialize_task_def serializeTaskData_eq ok_task_def enc_body_def append_basic_def
      serializeBasicData_eq codec_simps)

lemma task_data_front:
  "ok_task_data d \<Longrightarrow> deserializeTaskData (enc_task_data d @ r) 0 s = (True, d, length (enc_task_data d))"
  by (rule task_data.de_enc)

lemma run_move_reads:
  "run_reads move_reads (a @ enc_double px @ enc_double py @ enc_double x @ enc_double y) s (length a)
    = Done (px, py, x, y) (length a + 32)"
proof -
  have "run_reads move_reads (enc_double px @ enc_double py @ enc_double x @ enc_double y @ []) s 0
    = Done (px, py, x, y) 32"
    by (simp add: move_reads_def codec_simps split: prod.splits del: append_Nil2)
  moreover have "\<forall>st \<in> set move_reads. positional st" by (simp add: move_reads_def)
  ultimately show ?thesis
    using positionalD0 [OF positional_run_reads, of move_reads a
        "enc_double px @ enc_double py @ enc_double x @ enc_double y" s] by simp
qed

lemma deserialize_task_eq:
  assumes "ok_task t" and "task_type t0 = task_type t"
  shows "deserialize_task (enc_task_data (tk_data t) @ enc_body (tk_body t)) 0 t0
    = (True, t0\<lparr>tk_data := tk_data t, tk_body := tk_body t\<rparr>)"
proof -
  have ok: "ok_task_data (tk_data t)" using assms(1) by (simp add: ok_task_def)
  show ?thesis
  proof (cases "tk_body t")
    case (UpdateItem prev d)
    then obtain a b where t0: "tk_body t0 = UpdateItem a b"
      using assms(2) by (cases "tk_body t0") (simp_all add: task_type_def)
    have oks: "ok_basic prev" "ok_basic d" using assms(1) UpdateItem by (simp_all add: ok_task_def)
    note at = basic.de_at [OF oks(1), of "enc_task_data (tk_data t)" "enc_basic d"]
      basic.de_at [OF oks(2), of "enc_task_data (tk_data t) @ enc_basic prev" "[]"]
    show ?thesis
      using task_data_front [OF ok, of "enc_basic prev @ enc_basic d"] at UpdateItem t0
      by (simp add: deserialize_task_def enc_body_def)
  next
    case (MoveItem px py x y)
    then obtain a b c e where t0: "tk_body t0 = MoveItem a b c e"
      using assms(2) by (cases "tk_body t0") (simp_all add: task_type_def)
    show ?thesis
      using task_data_front [OF ok, of "enc_double px @ enc_double py @ enc_double x @ enc_double y"]
        run_move_reads [of "enc_task_data (tk_data t)"] MoveItem t0
      by (simp add: deserialize_task_def enc_body_def)
  next
    case AddItem
    then have "tk_body t0 = AddItem"
      using assms(2) by (cases "tk_body t0") (simp_all add: task_type_def)
    then show ?thesis using task_data_front [OF ok, of "[]"] AddItem
      by (simp add: deserialize_task_def enc_body_def)
  next
    case RemoveItem
    then have "tk_body t0 = RemoveItem"
      using assms(2) by (cases "tk_body t0") (simp_all add: task_type_def)
    then show ?thesis using task_data_front [OF ok, of "[]"] RemoveItem
      by (simp add: deserialize_task_def enc_body_def)
  qed
qed

section \<open>Properties\<close>

lemma createTask_type:
  "ty = task_type t \<Longrightarrow> \<exists>t0. createTask jp jd jt js ty = Inr t0 \<and> task_type t0 = task_type t
     \<and> tk_sendData t0 = js"
  by (cases "tk_body t") (simp_all add: createTask_def task_type_def Let_def)

lemma parse_task_body:
  assumes "ok_task t"
  shows "parse_ExecuteTask jp jd jt js
      (enc_int16 (task_type t) @ enc_task_data (tk_data t) @ enc_body (tk_body t))
    = Inr (Some (t\<lparr>tk_sendData := js\<rparr>))"
proof -
  obtain t0 where t0: "createTask jp jd jt js (task_type t) = Inr t0" "task_type t0 = task_type t"
    "tk_sendData t0 = js" using createTask_type [OF refl, of jp jd jt js t] by blast
  have "t0\<lparr>tk_data := tk_data t, tk_body := tk_body t\<rparr> = t\<lparr>tk_sendData := js\<rparr>"
    using t0(3) by simp
  with deserialize_task_eq [OF assms t0(2)] show ?thesis
    by (simp add: parse_ExecuteTask_def readInt16_enc t0(1))
qed

text \<open>C12: a task survives its packet.  The packet \<^verbatim>\<open>CExecuteTask::make\<close> builds for a task is a
  packet with the task's code, no sender and the given receiver, and \<^verbatim>\<open>CExecuteTask::parse\<close> of
  its body gives a task of the same class with the same owner, item and data.\<close>

theorem task_packet_roundtrip:
  assumes "ok_task t" and "make_ExecuteTask t target = Inr w" and "w \<noteq> []"
  shows "\<exists>p. w = pkt_bytes p \<and> pd_code p = code_word CODE_TASK_EXECUTE \<and> pd_fromId p = []
    \<and> pd_toId p = (case target of Some i \<Rightarrow> i | None \<Rightarrow> [])
    \<and> parse_ExecuteTask jp jd jt js (pd_body p) = Inr (Some (t\<lparr>tk_sendData := js\<rparr>))"
proof -
  let ?to = "case target of Some i \<Rightarrow> i | None \<Rightarrow> []"
  let ?body = "enc_int16 (task_type t) @ enc_task_data (tk_data t) @ enc_body (tk_body t)"
  have w: "w = or_empty (makePacket (code_word CODE_TASK_EXECUTE) ?body None target)"
    using assms(2) serialize_task_eq [OF assms(1)]
    by (simp add: make_ExecuteTask_def codec_simps)
  have "fits8 ?to"
  proof (rule ccontr)
    assume "\<not> fits8 ?to"
    then obtain i where "target = Some i" "\<not> fits8 i" by (cases target) (simp_all add: fits8_def)
    then have "makePacket (code_word CODE_TASK_EXECUTE) ?body None target
        = Inl (CPacketException ''the string size is bigger than 1byte length..'')"
      by (simp add: makePacket_def codec_simps fits8_def)
        (simp add: run_writes_Cons wr_def writeString8_def)
    with w assms(3) show False by (simp add: or_empty_def)
  qed
  then have "w = pkt_bytes \<lparr>pd_code = code_word CODE_TASK_EXECUTE, pd_fromId = [], pd_toId = ?to,
      pd_body = ?body\<rparr>"
    using w by (simp add: or_empty_def makePacket_bytes fits8_def)
  then show ?thesis
    by (intro exI [of _ "\<lparr>pd_code = code_word CODE_TASK_EXECUTE, pd_fromId = [], pd_toId = ?to,
        pd_body = ?body\<rparr>"]) (simp add: parse_task_body [OF assms(1)])
qed

definition sample_task :: CSharedPaintTask where
  "sample_task = new_task True [65] 3 (MoveItem 1 2 3 4)"

theorem task_packet_roundtrip_witness:
  "\<exists>p. pkt_bytes \<lparr>pd_code = code_word CODE_TASK_EXECUTE, pd_fromId = [], pd_toId = [66],
        pd_body = enc_int16 (task_type sample_task) @ enc_task_data (tk_data sample_task)
          @ enc_body (tk_body sample_task)\<rparr> = pkt_bytes p
    \<and> pd_code p = code_word CODE_TASK_EXECUTE \<and> pd_fromId p = []
    \<and> pd_toId p = (case Some [66] of Some i \<Rightarrow> i | None \<Rightarrow> [])
    \<and> parse_ExecuteTask new_paint_data 0 (tk_data sample_task) False (pd_body p)
      = Inr (Some (sample_task\<lparr>tk_sendData := False\<rparr>))"
proof (rule task_packet_roundtrip)
  show ok: "ok_task sample_task"
    by (simp add: sample_task_def new_task_def ok_task_def ok_task_data_def fits8_def)
  show "make_ExecuteTask sample_task (Some [66]) = Inr (pkt_bytes
      \<lparr>pd_code = code_word CODE_TASK_EXECUTE, pd_fromId = [], pd_toId = [66],
        pd_body = enc_int16 (task_type sample_task) @ enc_task_data (tk_data sample_task)
          @ enc_body (tk_body sample_task)\<rparr>)"
    by (simp add: make_ExecuteTask_def serialize_task_eq [OF ok] codec_simps makePacket_bytes
        fits8_def or_empty_def)
qed (simp add: pkt_bytes_def enc_int16_def eval_nat_numeral)

text \<open>An update task without its data is accepted.  A body that ends right after the owner
  and the item id is parsed as a valid update task: the reads of the two data blocks fail, their
  failure is ignored, and the task keeps whatever its uninitialised members held.\<close>

lemma update_task_without_data_accepted:
  assumes "ok_task_data td"
  shows "parse_ExecuteTask jp jd jt js (enc_int16 1 @ enc_task_data td)
    = Inr (Some \<lparr>tk_data = td, tk_body = UpdateItem jp jp, tk_sendData = js\<rparr>)"
proof -
  have end_of: "run_reads (rs_string8 f # ss) d s (length d)
      = Thrown (CPacketException ''readInt8 failed..'') s" for f ss d s
    by (simp add: run_reads_Cons rs_str_def readString8_def readInt8_def read_def left_by_def)
  have "deserializeBasicData d (length d) jp = (False, jp, length d)" for d
    by (simp add: deserializeBasicData_def basic_reads_def end_of)
  then show ?thesis
    using task_data_front [OF assms, of "[]"]
    by (simp add: parse_ExecuteTask_def readInt16_enc createTask_def deserialize_task_def)
qed

end
