(* ===== verification/PaintUser.thy ===== *)
theory PaintUser
  imports BufferUtil
begin

text \<open>
  The user record of the client (\<^verbatim>\<open>src/SharedPainter/PaintUser.h\<close>) and of the server
  (\<^verbatim>\<open>src/SharedPaintServer/PaintUser.h\<close>), as data and on the wire.  Both are interpreted as
  \<open>object_codec\<close>.  The properties: what a user record becomes after a round trip (one flag is
  not sent), and that neither side reads the other's records as they were written.
\<close>

section \<open>The client's user\<close>

record SPaintUserInfoData =
  u_channel :: bytes
  u_userId :: bytes
  u_nickName :: bytes
  u_listenTcpPort :: "16 word"
  u_viewIp :: bytes
  u_localIp :: bytes
  u_superPeerCandidate :: bool
  u_screenRecording :: bool
  u_screenStreaming :: bool
  u_screenStreamingReceiver :: bool

definition new_user_info :: SPaintUserInfoData where
  "new_user_info =
     \<lparr>u_channel = [], u_userId = [], u_nickName = [], u_listenTcpPort = 0, u_viewIp = [],
      u_localIp = [], u_superPeerCandidate = False, u_screenRecording = False,
      u_screenStreaming = False, u_screenStreamingReceiver = False\<rparr>"

record CPaintUser =
  mySelfFlag :: bool
  screenStreamListenPort :: "16 word"
  sessionId :: int
  user_data :: SPaintUserInfoData

text \<open>
  \<^verbatim>\<open>CPaintUser( bool )\<close> leaves \<^verbatim>\<open>sessionId_\<close> uninitialised, \<^verbatim>\<open>CPaintUser( void )\<close> the stream port
  as well: their initial values are arguments.
\<close>

definition CPaintUser_myself :: "int \<Rightarrow> bool \<Rightarrow> CPaintUser" where
  "CPaintUser_myself sid myself =
     \<lparr>mySelfFlag = myself, screenStreamListenPort = 0, sessionId = sid,
      user_data = new_user_info\<rparr>"

definition CPaintUser_default :: "int \<Rightarrow> 16 word \<Rightarrow> CPaintUser" where
  "CPaintUser_default sid port =
     \<lparr>mySelfFlag = False, screenStreamListenPort = port, sessionId = sid,
      user_data = new_user_info\<rparr>"

definition setNickName :: "bytes \<Rightarrow> CPaintUser \<Rightarrow> CPaintUser" where
  "setNickName nick u = u\<lparr>user_data := (user_data u)\<lparr>u_nickName := nick\<rparr>\<rparr>"

definition setSuperPeerCandidate :: "bool \<Rightarrow> CPaintUser \<Rightarrow> CPaintUser" where
  "setSuperPeerCandidate enable u =
     u\<lparr>user_data := (user_data u)\<lparr>u_superPeerCandidate := enable\<rparr>\<rparr>"

definition setViewIPAddress :: "bytes \<Rightarrow> CPaintUser \<Rightarrow> CPaintUser" where
  "setViewIPAddress ip u = u\<lparr>user_data := (user_data u)\<lparr>u_viewIp := ip\<rparr>\<rparr>"

definition setScreenRecording :: "bool \<Rightarrow> CPaintUser \<Rightarrow> CPaintUser" where
  "setScreenRecording status u =
     u\<lparr>user_data := (user_data u)\<lparr>u_screenRecording := status\<rparr>\<rparr>"

definition setScreenStreamingReceiver :: "bool \<Rightarrow> CPaintUser \<Rightarrow> CPaintUser" where
  "setScreenStreamingReceiver status u =
     u\<lparr>user_data := (user_data u)\<lparr>u_screenStreamingReceiver := status\<rparr>\<rparr>"

definition isAvailableRecvScreenStream :: "CPaintUser \<Rightarrow> bool" where
  "isAvailableRecvScreenStream u \<longleftrightarrow> screenStreamListenPort u \<noteq> 0"

definition flag :: "bool \<Rightarrow> byte" where
  "flag b = (if b then 1 else 0)"

lemma flag_eq_1 [simp]: "flag b = 1 \<longleftrightarrow> b"
  by (simp add: flag_def)

definition serialize_user :: "CPaintUser \<Rightarrow> bytes result" where
  "serialize_user u =
     (let d = user_data u in
      bindE (run_writes
        [wr (\<lambda>b p. writeString8 b p (u_channel d)),
         wr (\<lambda>b p. writeString8 b p (u_userId d)),
         wr (\<lambda>b p. writeString8 b p (u_nickName d)),
         wr (\<lambda>b p. writeString8 b p (u_viewIp d)),
         wr (\<lambda>b p. writeString8 b p (u_localIp d)),
         wr (\<lambda>b p. writeInt16 b p (u_listenTcpPort d) True),
         wr (\<lambda>b p. writeInt8 b p (flag (u_superPeerCandidate d))),
         wr (\<lambda>b p. writeInt8 b p (flag (u_screenRecording d))),
         wr (\<lambda>b p. writeInt8 b p (flag (u_screenStreamingReceiver d)))]
        ([], 0)) (\<lambda>(body, pos). Inr body))"

text \<open>Each statement stores into a field of \<^verbatim>\<open>data_\<close>.\<close>

abbreviation to_data ::
  "('v \<Rightarrow> SPaintUserInfoData \<Rightarrow> SPaintUserInfoData) \<Rightarrow> 'v \<Rightarrow> CPaintUser \<Rightarrow> CPaintUser" where
  "to_data f v u \<equiv> u\<lparr>user_data := f v (user_data u)\<rparr>"

definition user_reads :: "CPaintUser rstmt list" where
  "user_reads =
     [rs_string8 (to_data (\<lambda>v d. d\<lparr>u_channel := v\<rparr>)),
      rs_string8 (to_data (\<lambda>v d. d\<lparr>u_userId := v\<rparr>)),
      rs_string8 (to_data (\<lambda>v d. d\<lparr>u_nickName := v\<rparr>)),
      rs_string8 (to_data (\<lambda>v d. d\<lparr>u_viewIp := v\<rparr>)),
      rs_string8 (to_data (\<lambda>v d. d\<lparr>u_localIp := v\<rparr>)),
      rs_int16 (to_data (\<lambda>v d. d\<lparr>u_listenTcpPort := v\<rparr>)),
      rs_int8 (to_data (\<lambda>f d. d\<lparr>u_superPeerCandidate := (f = 1)\<rparr>)),
      rs_int8 (to_data (\<lambda>f d. d\<lparr>u_screenRecording := (f = 1)\<rparr>)),
      rs_int8 (to_data (\<lambda>f d. d\<lparr>u_screenStreamingReceiver := (f = 1)\<rparr>))]"

definition deserialize_user :: "bytes \<Rightarrow> nat \<Rightarrow> CPaintUser \<Rightarrow> bool \<times> CPaintUser \<times> nat" where
  "deserialize_user data pos u = try_reads user_reads data pos u"

section \<open>The server's user\<close>

record ServerUserInfo =
  v_roomId :: bytes
  v_userId :: bytes
  v_nickName :: bytes
  v_viewIp :: bytes
  v_localIp :: bytes
  v_listenTcpPort :: "16 word"
  v_superPeerCandidate :: bool
  v_syncComplete :: bool

record ServerUser =
  v_sessionId :: int
  v_data :: ServerUserInfo

definition new_server_user :: ServerUser where
  "new_server_user =
     \<lparr>v_sessionId = 0,
      v_data = \<lparr>v_roomId = [], v_userId = [], v_nickName = [], v_viewIp = [], v_localIp = [],
               v_listenTcpPort = 0, v_superPeerCandidate = False, v_syncComplete = False\<rparr>\<rparr>"

definition serialize_server_user :: "ServerUser \<Rightarrow> bytes result" where
  "serialize_server_user u =
     (let d = v_data u in
      bindE (run_writes
        [wr (\<lambda>b p. writeString8 b p (v_roomId d)),
         wr (\<lambda>b p. writeString8 b p (v_userId d)),
         wr (\<lambda>b p. writeString8 b p (v_nickName d)),
         wr (\<lambda>b p. writeString8 b p (v_viewIp d)),
         wr (\<lambda>b p. writeString8 b p (v_localIp d)),
         wr (\<lambda>b p. writeInt16 b p (v_listenTcpPort d) True),
         wr (\<lambda>b p. writeInt8 b p (flag (v_superPeerCandidate d)))]
        ([], 0)) (\<lambda>(body, pos). Inr body))"

abbreviation to_vdata ::
  "('v \<Rightarrow> ServerUserInfo \<Rightarrow> ServerUserInfo) \<Rightarrow> 'v \<Rightarrow> ServerUser \<Rightarrow> ServerUser" where
  "to_vdata f v u \<equiv> u\<lparr>v_data := f v (v_data u)\<rparr>"

definition server_user_reads :: "ServerUser rstmt list" where
  "server_user_reads =
     [rs_string8 (to_vdata (\<lambda>v d. d\<lparr>v_roomId := v\<rparr>)),
      rs_string8 (to_vdata (\<lambda>v d. d\<lparr>v_userId := v\<rparr>)),
      rs_string8 (to_vdata (\<lambda>v d. d\<lparr>v_nickName := v\<rparr>)),
      rs_string8 (to_vdata (\<lambda>v d. d\<lparr>v_viewIp := v\<rparr>)),
      rs_string8 (to_vdata (\<lambda>v d. d\<lparr>v_localIp := v\<rparr>)),
      rs_int16 (to_vdata (\<lambda>v d. d\<lparr>v_listenTcpPort := v\<rparr>)),
      rs_int8 (to_vdata (\<lambda>f d. d\<lparr>v_superPeerCandidate := (f = 1)\<rparr>))]"

definition deserialize_server_user ::
  "bytes \<Rightarrow> nat \<Rightarrow> ServerUser \<Rightarrow> bool \<times> ServerUser \<times> nat" where
  "deserialize_server_user data pos u = try_reads server_user_reads data pos u"

section \<open>The users are object codecs\<close>

definition enc_user :: "CPaintUser \<Rightarrow> bytes" where
  "enc_user u = (let d = user_data u in
     enc_string8 (u_channel d) @ enc_string8 (u_userId d) @ enc_string8 (u_nickName d)
     @ enc_string8 (u_viewIp d) @ enc_string8 (u_localIp d) @ enc_int16 (u_listenTcpPort d)
     @ enc_int8 (flag (u_superPeerCandidate d)) @ enc_int8 (flag (u_screenRecording d))
     @ enc_int8 (flag (u_screenStreamingReceiver d)))"

definition ok_user :: "CPaintUser \<Rightarrow> bool" where
  "ok_user u = (let d = user_data u in
     fits8 (u_channel d) \<and> fits8 (u_userId d) \<and> fits8 (u_nickName d)
     \<and> fits8 (u_viewIp d) \<and> fits8 (u_localIp d))"

text \<open>Everything is copied but \<^verbatim>\<open>screenStreaming\<close>, which is not sent.\<close>

definition put_user :: "CPaintUser \<Rightarrow> CPaintUser \<Rightarrow> CPaintUser" where
  "put_user v u = u\<lparr>user_data := (user_data v)\<lparr>u_screenStreaming := u_screenStreaming (user_data u)\<rparr>\<rparr>"

definition enc_server_user :: "ServerUser \<Rightarrow> bytes" where
  "enc_server_user u = (let d = v_data u in
     enc_string8 (v_roomId d) @ enc_string8 (v_userId d) @ enc_string8 (v_nickName d)
     @ enc_string8 (v_viewIp d) @ enc_string8 (v_localIp d) @ enc_int16 (v_listenTcpPort d)
     @ enc_int8 (flag (v_superPeerCandidate d)))"

definition ok_server_user :: "ServerUser \<Rightarrow> bool" where
  "ok_server_user u = (let d = v_data u in
     fits8 (v_roomId d) \<and> fits8 (v_userId d) \<and> fits8 (v_nickName d)
     \<and> fits8 (v_viewIp d) \<and> fits8 (v_localIp d))"

definition put_server_user :: "ServerUser \<Rightarrow> ServerUser \<Rightarrow> ServerUser" where
  "put_server_user v u = u\<lparr>v_data := (v_data v)\<lparr>v_syncComplete := v_syncComplete (v_data u)\<rparr>\<rparr>"

lemma user_reads_positional: "\<forall>st \<in> set user_reads. positional st"
  by (simp add: user_reads_def)

lemma server_user_reads_positional: "\<forall>st \<in> set server_user_reads. positional st"
  by (simp add: server_user_reads_def)

lemma user_reads_run:
  "ok_user v \<Longrightarrow> run_reads user_reads (enc_user v @ r) u 0
     = Done (put_user v u) (length (enc_user v))"
  by (simp add: user_reads_def enc_user_def ok_user_def Let_def codec_simps put_user_def)

lemma server_user_reads_run:
  "ok_server_user v \<Longrightarrow> run_reads server_user_reads (enc_server_user v @ r) u 0
     = Done (put_server_user v u) (length (enc_server_user v))"
  by (simp add: server_user_reads_def enc_server_user_def ok_server_user_def Let_def codec_simps
      put_server_user_def)

interpretation user: object_codec enc_user ok_user put_user serialize_user deserialize_user
proof unfold_locales
  fix v assume "ok_user v"
  then show "serialize_user v = Inr (enc_user v)"
    by (simp add: serialize_user_def enc_user_def ok_user_def Let_def codec_simps)
next
  fix v r u assume "ok_user v"
  then show "deserialize_user (enc_user v @ r) 0 u = (True, put_user v u, length (enc_user v))"
    by (simp add: deserialize_user_def try_reads_def user_reads_run)
next
  fix pre d p u
  show "deserialize_user (pre @ d) (length pre + p) u =
    (case deserialize_user d p u of (b, s', p') \<Rightarrow> (b, s', length pre + p'))"
    unfolding deserialize_user_def by (rule try_reads_shift [OF user_reads_positional])
qed

interpretation server_user: object_codec enc_server_user ok_server_user put_server_user
  serialize_server_user deserialize_server_user
proof unfold_locales
  fix v assume "ok_server_user v"
  then show "serialize_server_user v = Inr (enc_server_user v)"
    by (simp add: serialize_server_user_def enc_server_user_def ok_server_user_def Let_def codec_simps)
next
  fix v r u assume "ok_server_user v"
  then show "deserialize_server_user (enc_server_user v @ r) 0 u
      = (True, put_server_user v u, length (enc_server_user v))"
    by (simp add: deserialize_server_user_def try_reads_def server_user_reads_run)
next
  fix pre d p u
  show "deserialize_server_user (pre @ d) (length pre + p) u =
    (case deserialize_server_user d p u of (b, s', p') \<Rightarrow> (b, s', length pre + p'))"
    unfolding deserialize_server_user_def by (rule try_reads_shift [OF server_user_reads_positional])
qed

section \<open>Properties\<close>

text \<open>A user record survives the wire: written by \<^verbatim>\<open>serialize\<close> and read back by \<^verbatim>\<open>deserialize\<close>
  from any position of a larger body into any user object, every field but \<^verbatim>\<open>screenStreaming\<close>
  arrives, that flag and the local members keep the reader's values, and the read position ends
  just behind the record.\<close>

lemma user_roundtrip:
  assumes "ok_user v" and "serialize_user v = Inr d"
  shows "deserialize_user (pre @ d @ r) (length pre) u =
    (True, u\<lparr>user_data := (user_data v)\<lparr>u_screenStreaming := u_screenStreaming (user_data u)\<rparr>\<rparr>,
     length pre + length d)"
  using user.ser_enc [OF assms(1)] user.de_at [OF assms(1), of pre r u] assms(2)
  by (simp add: put_user_def)

definition sample_user :: CPaintUser where
  "sample_user = CPaintUser_default 0 0
     \<lparr>user_data := new_user_info\<lparr>u_channel := [99], u_userId := [65, 66], u_listenTcpPort := 8080,
        u_screenRecording := True, u_screenStreaming := True\<rparr>\<rparr>"

lemma readInt8_end: "readInt8 [] 0 = Inl (CPacketException ''readInt8 failed..'')"
  by (simp add: readInt8_def read_def)

text \<open>The server's records are not the client's.  A user record the server writes is refused
  by the client's \<^verbatim>\<open>deserialize\<close> when nothing follows it: two flags are missing.  The refusal
  does not advance the read position, yet leaves the fields read so far in the object.\<close>

lemma server_user_refused_by_client:
  assumes "ok_server_user v" and "serialize_server_user v = Inr d"
  shows "\<exists>u'. deserialize_user d 0 u = (False, u', 0)
    \<and> u_userId (user_data u') = v_userId (v_data v)
    \<and> u_screenRecording (user_data u') = u_screenRecording (user_data u)"
proof -
  have d: "d = enc_server_user v" using server_user.ser_enc [OF assms(1)] assms(2) by simp
  have "run_reads user_reads (enc_server_user v @ []) u 0
    = Thrown (CPacketException ''readInt8 failed..'')
        (u\<lparr>user_data := (user_data u)\<lparr>u_channel := v_roomId (v_data v),
            u_userId := v_userId (v_data v), u_nickName := v_nickName (v_data v),
            u_viewIp := v_viewIp (v_data v), u_localIp := v_localIp (v_data v),
            u_listenTcpPort := v_listenTcpPort (v_data v),
            u_superPeerCandidate := v_superPeerCandidate (v_data v)\<rparr>\<rparr>)"
    using assms(1)
    by (simp add: user_reads_def enc_server_user_def ok_server_user_def Let_def codec_simps
        del: append_Nil2)
      (simp add: run_reads_Cons rs_def readInt8_end)
  then show ?thesis by (simp add: d deserialize_user_def try_reads_def)
qed

text \<open>The other direction: the server accepts a client's record but reads only its first
  seven fields and ends two bytes before the end of the record.\<close>

lemma client_user_cut_by_server:
  assumes "ok_user v" and "serialize_user v = Inr d"
  shows "\<exists>w'. deserialize_server_user (d @ r) 0 w = (True, w', length d - 2)
    \<and> v_userId (v_data w') = u_userId (user_data v)
    \<and> v_roomId (v_data w') = u_channel (user_data v)
    \<and> v_superPeerCandidate (v_data w') = u_superPeerCandidate (user_data v)
    \<and> v_syncComplete (v_data w') = v_syncComplete (v_data w)"
proof -
  have d: "d = enc_user v" using user.ser_enc [OF assms(1)] assms(2) by simp
  let ?s = "\<lparr>v_sessionId = 0, v_data = \<lparr>v_roomId = u_channel (user_data v),
    v_userId = u_userId (user_data v), v_nickName = u_nickName (user_data v),
    v_viewIp = u_viewIp (user_data v), v_localIp = u_localIp (user_data v),
    v_listenTcpPort = u_listenTcpPort (user_data v),
    v_superPeerCandidate = u_superPeerCandidate (user_data v), v_syncComplete = False\<rparr>\<rparr>"
  have ok: "ok_server_user ?s" using assms(1) by (simp add: ok_user_def ok_server_user_def Let_def)
  have split: "d @ r = enc_server_user ?s @ [flag (u_screenRecording (user_data v)),
      flag (u_screenStreamingReceiver (user_data v))] @ r"
    by (simp add: d enc_user_def enc_server_user_def Let_def enc_int8_def)
  have "length d - 2 = length (enc_server_user ?s)"
    by (simp add: d enc_user_def enc_server_user_def Let_def)
  with server_user.de_enc [OF ok, of _ w] show ?thesis
    unfolding split by (simp add: put_server_user_def)
qed

end
