(* ===== verification/PacketBuilders.thy ===== *)
theory PacketBuilders
  imports PaintTask PaintUser
begin

text \<open>
  The message classes of \<^verbatim>\<open>src/SharedPainter\<close>: \<^verbatim>\<open>SystemPacketBuilder.h\<close>,
  \<^verbatim>\<open>PaintPacketBuilder.h\<close>, \<^verbatim>\<open>WindowPacketBuilder.h\<close>, \<^verbatim>\<open>ScreenSharePacketBuilder.h\<close>,
  \<^verbatim>\<open>BroadCastPacketBuilder.h\<close> and \<^verbatim>\<open>UdpPacketBuilder.h\<close>.

  For a class \<^verbatim>\<open>CX\<close>, \<open>make_X\<close> returns the packet, or the empty string when a field does not
  fit, and \<open>parse_X\<close> takes a body and the reference arguments and returns the flag and what the
  reference arguments hold.  A C++ \<^verbatim>\<open>int\<close> is a \<open>32 word\<close>.  The interface is the locale
  \<open>message\<close>: what \<^verbatim>\<open>make\<close> builds, the slicer delivers and \<^verbatim>\<open>parse\<close> reads back.
\<close>

text \<open>\<^verbatim>\<open>try { ... return makePacket( code, body, from, to ); } catch(...) { } return "";\<close>\<close>

definition build :: "wstmt list \<Rightarrow> pcode \<Rightarrow> bytes option \<Rightarrow> bytes option \<Rightarrow> bytes" where
  "build stmts code from to =
     or_empty (bindE (run_writes stmts ([], 0))
       (\<lambda>(body, pos). makePacket (code_word code) body from to))"

text \<open>
  \<^verbatim>\<open>try { reads; } catch(...) { return false; } return true;\<close> where the reads go into locals:
  \<open>out\<close> stores them into the reference arguments at the end.
\<close>

definition parse_locals :: "'l rstmt list \<Rightarrow> 'l \<Rightarrow> ('l \<Rightarrow> 'o \<Rightarrow> 'o) \<Rightarrow> bytes \<Rightarrow> 'o \<Rightarrow> bool \<times> 'o" where
  "parse_locals sts l out body o' =
     (case run_reads sts body l 0 of Done l' pos \<Rightarrow> (True, out l' o') | Thrown e l' \<Rightarrow> (False, o'))"

text \<open>Stores into the components of a tuple.\<close>

abbreviation put1_2 :: "'a \<Rightarrow> 'a \<times> 'b \<Rightarrow> 'a \<times> 'b" where "put1_2 v s \<equiv> (v, snd s)"
abbreviation put2_2 :: "'b \<Rightarrow> 'a \<times> 'b \<Rightarrow> 'a \<times> 'b" where "put2_2 v s \<equiv> (fst s, v)"
abbreviation put1_3 :: "'a \<Rightarrow> 'a \<times> 'b \<times> 'c \<Rightarrow> 'a \<times> 'b \<times> 'c" where "put1_3 v s \<equiv> (v, snd s)"
abbreviation put2_3 :: "'b \<Rightarrow> 'a \<times> 'b \<times> 'c \<Rightarrow> 'a \<times> 'b \<times> 'c" where
  "put2_3 v s \<equiv> (fst s, v, snd (snd s))"
abbreviation put3_3 :: "'c \<Rightarrow> 'a \<times> 'b \<times> 'c \<Rightarrow> 'a \<times> 'b \<times> 'c" where
  "put3_3 v s \<equiv> (fst s, fst (snd s), v)"
abbreviation put1_4 :: "'a \<Rightarrow> 'a \<times> 'b \<times> 'c \<times> 'd \<Rightarrow> 'a \<times> 'b \<times> 'c \<times> 'd" where
  "put1_4 v s \<equiv> (v, snd s)"
abbreviation put2_4 :: "'b \<Rightarrow> 'a \<times> 'b \<times> 'c \<times> 'd \<Rightarrow> 'a \<times> 'b \<times> 'c \<times> 'd" where
  "put2_4 v s \<equiv> (fst s, v, snd (snd s))"
abbreviation put3_4 :: "'c \<Rightarrow> 'a \<times> 'b \<times> 'c \<times> 'd \<Rightarrow> 'a \<times> 'b \<times> 'c \<times> 'd" where
  "put3_4 v s \<equiv> (fst s, fst (snd s), v, snd (snd (snd s)))"
abbreviation put4_4 :: "'d \<Rightarrow> 'a \<times> 'b \<times> 'c \<times> 'd \<Rightarrow> 'a \<times> 'b \<times> 'c \<times> 'd" where
  "put4_4 v s \<equiv> (fst s, fst (snd s), fst (snd (snd s)), v)"

abbreviation w8 :: "bytes \<Rightarrow> wstmt" where "w8 v \<equiv> wr (\<lambda>b p. writeString8 b p v)"
abbreviation w16 :: "16 word \<Rightarrow> wstmt" where "w16 v \<equiv> wr (\<lambda>b p. writeInt16 b p v True)"
abbreviation wflag :: "bool \<Rightarrow> wstmt" where "wflag v \<equiv> wr (\<lambda>b p. writeInt8 b p (flag v))"

section \<open>System messages\<close>

definition make_ChatMessage :: "bytes \<Rightarrow> bytes \<Rightarrow> bytes \<Rightarrow> bytes" where
  "make_ChatMessage i nick msg = build [w8 i, w8 nick, w8 msg] CODE_SYSTEM_CHAT_MESSAGE None None"

definition parse_ChatMessage :: "bytes \<Rightarrow> bytes \<times> bytes \<times> bytes \<Rightarrow> bool \<times> bytes \<times> bytes \<times> bytes" where
  "parse_ChatMessage body s =
     caught (run_reads [rs_string8 put1_3, rs_string8 put2_3, rs_string8 put3_3] body s 0)"

definition make_VersionInfo :: "bytes \<Rightarrow> bytes \<Rightarrow> bytes" where
  "make_VersionInfo ver prot = build [w8 ver, w8 prot] CODE_SYSTEM_VERSION_INFO None None"

definition parse_VersionInfo :: "bytes \<Rightarrow> bytes \<times> bytes \<Rightarrow> bool \<times> bytes \<times> bytes" where
  "parse_VersionInfo body s = caught (run_reads [rs_string8 put1_2, rs_string8 put2_2] body s 0)"

definition make_ChangeNickName :: "bytes \<Rightarrow> bytes \<Rightarrow> bytes" where
  "make_ChangeNickName userid nick =
     build [w8 userid, w8 nick] CODE_SYSTEM_CHANGE_NICKNAME None None"

definition parse_ChangeNickName :: "bytes \<Rightarrow> bytes \<times> bytes \<Rightarrow> bool \<times> bytes \<times> bytes" where
  "parse_ChangeNickName body s =
     caught (run_reads [rs_string8 put1_2, rs_string8 put2_2] body s 0)"

definition parse_ChangeSuperPeer :: "bytes \<Rightarrow> bytes \<Rightarrow> bool \<times> bytes" where
  "parse_ChangeSuperPeer body s = caught (run_reads [rs_string8 (\<lambda>v _. v)] body s 0)"

text \<open>\<^verbatim>\<open>user->serialize()\<close> is inside the \<^verbatim>\<open>try\<close>; \<^verbatim>\<open>parse\<close> ignores whether \<^verbatim>\<open>deserialize\<close> succeeds.\<close>

definition make_JoinToServer :: "CPaintUser \<Rightarrow> bytes" where
  "make_JoinToServer u =
     or_empty (bindE (serialize_user u)
       (\<lambda>body. makePacket (code_word CODE_SYSTEM_JOIN_TO_SERVER) body None None))"

definition parse_JoinToServer :: "CPaintUser \<Rightarrow> bytes \<Rightarrow> CPaintUser option" where
  "parse_JoinToServer new body = Some (fst (snd (deserialize_user body 0 new)))"

definition make_JoinerToSuperPeer :: "CPaintUser \<Rightarrow> bytes" where
  "make_JoinerToSuperPeer u =
     or_empty (bindE (serialize_user u)
       (\<lambda>body. makePacket (code_word CODE_SYSTEM_JOIN_TO_SUPERPEER) body None None))"

definition parse_JoinerToSuperPeer :: "CPaintUser \<Rightarrow> bytes \<Rightarrow> CPaintUser option" where
  "parse_JoinerToSuperPeer new body = Some (fst (snd (deserialize_user body 0 new)))"

definition make_SyncRequest :: bytes where
  "make_SyncRequest = build [] CODE_SYSTEM_SYNC_REQUEST None None"

definition parse_SyncRequest :: "bytes \<Rightarrow> bytes \<times> bytes \<Rightarrow> bool \<times> bytes \<times> bytes" where
  "parse_SyncRequest body s = caught (run_reads [rs_string8 put1_2, rs_string8 put2_2] body s 0)"

definition make_SyncStart :: "bytes \<Rightarrow> bytes \<Rightarrow> bytes \<Rightarrow> bytes" where
  "make_SyncStart channel fromId toId =
     build [w8 channel] CODE_SYSTEM_SYNC_START (Some fromId) (Some toId)"

definition parse_SyncStart :: "bytes \<Rightarrow> bytes \<Rightarrow> bool \<times> bytes" where
  "parse_SyncStart body s = caught (run_reads [rs_string8 (\<lambda>v _. v)] body s 0)"

definition make_SyncComplete :: "bytes \<Rightarrow> bytes" where
  "make_SyncComplete targetId = build [] CODE_SYSTEM_SYNC_COMPLETE None (Some targetId)"

definition make_TcpAck :: bytes where
  "make_TcpAck = build [] CODE_SYSTEM_TCPACK None None"

definition make_LeftUser :: "bytes \<Rightarrow> bytes \<Rightarrow> bytes" where
  "make_LeftUser channel userId = build [w8 channel, w8 userId] CODE_SYSTEM_LEFT None None"

definition parse_LeftUser :: "bytes \<Rightarrow> bytes \<times> bytes \<Rightarrow> bool \<times> bytes \<times> bytes" where
  "parse_LeftUser body s = caught (run_reads [rs_string8 put1_2, rs_string8 put2_2] body s 0)"

text \<open>
  The lists of users: \<open>n\<close> times \<^verbatim>\<open>user->deserialize( body, &pos ); list.push_back( user );\<close>.  A
  record that cannot be read is kept as it is and leaves the position alone.  \<open>new\<close> is a freshly
  constructed user.
\<close>

fun read_users :: "CPaintUser \<Rightarrow> nat \<Rightarrow> bytes \<Rightarrow> nat \<Rightarrow> CPaintUser list \<times> nat" where
  "read_users new 0 body pos = ([], pos)"
| "read_users new (Suc n) body pos =
     (case deserialize_user body pos new of
        (ok, u, pos') \<Rightarrow> (case read_users new n body pos' of (us, pos'') \<Rightarrow> (u # us, pos'')))"

fun append_users :: "CPaintUser list \<Rightarrow> bytes \<Rightarrow> bytes result" where
  "append_users [] body = Inr body"
| "append_users (u # us) body = bindE (serialize_user u) (\<lambda>d. append_users us (body @ d))"

definition make_HistoryUserList :: "CPaintUser list \<Rightarrow> bytes" where
  "make_HistoryUserList us =
     or_empty (bindE (run_writes [w16 (of_nat (length us))] ([], 0)) (\<lambda>(body, pos).
       bindE (append_users us body)
         (\<lambda>body'. makePacket (code_word CODE_SYSTEM_HISTORY_USER_LIST) body' None None)))"

definition parse_HistoryUserList :: "CPaintUser \<Rightarrow> bytes \<Rightarrow> CPaintUser list" where
  "parse_HistoryUserList new body =
     (case readInt16 body 0 True of
        Inl e \<Rightarrow> []
      | Inr (count, n) \<Rightarrow> fst (read_users new (unat count) body n))"

text \<open>
  \<^verbatim>\<open>CResponseJoin\<close>: the arguments are the channel, the first flag, the list and the super peer's
  id.  The count is big endian.  What was stored before a throw stays stored, so a failure after
  the list has filled the list.
\<close>

record join_response =
  jr_channel :: bytes
  jr_firstFlag :: bool
  jr_list :: "CPaintUser list"
  jr_superPeerId :: bytes

record join_locals =
  jl_out :: join_response
  jl_flag :: byte
  jl_count :: "16 word"

definition join_users :: "CPaintUser \<Rightarrow> join_locals rstmt" where
  "join_users new body s pos =
     (case read_users new (unat (jl_count s)) body pos of
        (us, pos') \<Rightarrow>
          Done (s\<lparr>jl_out := (jl_out s)\<lparr>jr_firstFlag := (jl_flag s = 1), jr_list := jr_list (jl_out s) @ us\<rparr>\<rparr>)
            pos')"

definition join_reads :: "CPaintUser \<Rightarrow> join_locals rstmt list" where
  "join_reads new =
     [rs_string8 (\<lambda>v s. s\<lparr>jl_out := (jl_out s)\<lparr>jr_channel := v\<rparr>\<rparr>),
      rs_int8 (\<lambda>v s. s\<lparr>jl_flag := v\<rparr>),
      rs (\<lambda>d p. readInt16 d p False) (\<lambda>v s. s\<lparr>jl_count := v\<rparr>),
      join_users new,
      rs_string8 (\<lambda>v s. s\<lparr>jl_out := (jl_out s)\<lparr>jr_superPeerId := v\<rparr>\<rparr>)]"

definition parse_ResponseJoin :: "CPaintUser \<Rightarrow> bytes \<Rightarrow> join_response \<Rightarrow> bool \<times> join_response" where
  "parse_ResponseJoin new body s =
     (case caught (run_reads (join_reads new) body \<lparr>jl_out = s, jl_flag = 0, jl_count = 0\<rparr> 0) of
        (b, l) \<Rightarrow> (b, jl_out l))"

section \<open>Paint messages\<close>

definition make_SetBackgroundGridLine :: "32 word \<Rightarrow> bytes option \<Rightarrow> bytes" where
  "make_SetBackgroundGridLine sz target =
     build [w16 (ucast sz)] CODE_PAINT_SET_BG_GRID_LINE None target"

definition parse_SetBackgroundGridLine :: "bytes \<Rightarrow> 32 word \<Rightarrow> bool \<times> 32 word" where
  "parse_SetBackgroundGridLine = parse_locals [rs_int16 (\<lambda>v _. v)] 0 (\<lambda>l _. ucast l)"

type_synonym rgba = "32 word \<times> 32 word \<times> 32 word \<times> 32 word"

definition make_SetBackgroundColor :: "rgba \<Rightarrow> bytes option \<Rightarrow> bytes" where
  "make_SetBackgroundColor c target = (case c of (r, g, b, a) \<Rightarrow>
     build [w16 (ucast r), w16 (ucast g), w16 (ucast b), w16 (ucast a)]
       CODE_PAINT_SET_BG_COLOR None target)"

definition parse_SetBackgroundColor :: "bytes \<Rightarrow> rgba \<Rightarrow> bool \<times> rgba" where
  "parse_SetBackgroundColor =
     parse_locals [rs_int16 put1_4, rs_int16 put2_4, rs_int16 put3_4, rs_int16 put4_4] (0, 0, 0, 0)
       (\<lambda>(r, g, b, a) _. (ucast r, ucast g, ucast b, ucast a))"

text \<open>\<^verbatim>\<open>item->serialize()\<close> is called before the \<^verbatim>\<open>try\<close>, in both messages that carry an item.\<close>

definition make_SetBackgroundImage :: "qt \<Rightarrow> files \<Rightarrow> CPaintItem \<Rightarrow> bytes option \<Rightarrow> bytes result" where
  "make_SetBackgroundImage q fs it target =
     bindE (serialize_item q fs it) (\<lambda>data.
       Inr (or_empty (makePacket (code_word CODE_PAINT_SET_BG_IMAGE) data None target)))"

definition parse_SetBackgroundImage :: "bytes \<Rightarrow> CPaintItem option" where
  "parse_SetBackgroundImage body =
     (case deserialize_image BgImageContent body (new_item (BgImageContent [])) of
        (True, it) \<Rightarrow> Some it
      | (False, it) \<Rightarrow> None)"

definition make_ClearBackground :: bytes where
  "make_ClearBackground = build [] CODE_PAINT_CLEAR_BG None None"

definition make_ClearScreen :: bytes where
  "make_ClearScreen = build [] CODE_PAINT_CLEAR_SCREEN None None"

definition make_CreateItem :: "qt \<Rightarrow> files \<Rightarrow> CPaintItem \<Rightarrow> bytes option \<Rightarrow> bytes result" where
  "make_CreateItem q fs it target =
     bindE (serialize_item q fs it) (\<lambda>data.
       Inr (or_empty (bindE (run_writes [w16 (item_type_num (item_type it))] ([], 0))
         (\<lambda>(body, pos). makePacket (code_word CODE_PAINT_CREATE_ITEM) (body @ data) None target))))"

text \<open>The outer \<open>option\<close> is \<open>None\<close> when a received file finds no free name.\<close>

definition parse_CreateItem :: "qt \<Rightarrow> files \<Rightarrow> bytes \<Rightarrow> (CPaintItem option \<times> files) option result" where
  "parse_CreateItem q fs body =
     (case readInt16 body 0 True of
        Inl e \<Rightarrow> Inr (Some (None, fs))
      | Inr (ty, n) \<Rightarrow>
          bindE (createItem q ty) (\<lambda>it. Inr
            (case deserialize_item q fs (drop n body) it of
               None \<Rightarrow> None
             | Some (True, it', fs') \<Rightarrow> Some (Some it', fs')
             | Some (False, it', fs') \<Rightarrow> Some (None, fs'))))"

section \<open>Window messages\<close>

type_synonym int2 = "32 word \<times> 32 word"

text \<open>Scroll positions are \<^verbatim>\<open>int16_t\<close>: the 16 bits go over unchanged.\<close>

definition make_ChangeCanvasScrollPos :: "16 word \<Rightarrow> 16 word \<Rightarrow> bytes option \<Rightarrow> bytes" where
  "make_ChangeCanvasScrollPos h v target =
     build [w16 h, w16 v] CODE_WINDOW_CHANGE_CANVAS_SCROLL_POS None target"

definition parse_ChangeCanvasScrollPos ::
  "bytes \<Rightarrow> 16 word \<times> 16 word \<Rightarrow> bool \<times> 16 word \<times> 16 word" where
  "parse_ChangeCanvasScrollPos =
     parse_locals [rs_int16 put1_2, rs_int16 put2_2] (0, 0) (\<lambda>l _. l)"

definition make_ResizeWindowSplitter :: "32 word list \<Rightarrow> bytes option \<Rightarrow> bytes" where
  "make_ResizeWindowSplitter sizes target =
     build (w16 (of_nat (length sizes)) # map (\<lambda>v. w16 v) (map ucast sizes))
       CODE_WINDOW_RESIZE_WND_SPLITTER None target"

text \<open>The sizes are pushed onto the argument one by one, so a failure leaves a part of them.\<close>

definition splitter_sizes :: "(16 word \<times> 32 word list) rstmt" where
  "splitter_sizes body s pos =
     rep (unat (fst s)) (rs_int16 (\<lambda>v s. (fst s, snd s @ [ucast v]))) body s pos"

definition parse_ResizeWindowSplitter :: "bytes \<Rightarrow> 32 word list \<Rightarrow> bool \<times> 32 word list" where
  "parse_ResizeWindowSplitter body sizes =
     (case caught (run_reads [rs_int16 put1_2, splitter_sizes] body (0, sizes) 0) of
        (b, s) \<Rightarrow> (b, snd s))"

definition make_ResizeCanvas :: "32 word \<Rightarrow> 32 word \<Rightarrow> bytes option \<Rightarrow> bytes" where
  "make_ResizeCanvas w h target =
     build [w16 (ucast w), w16 (ucast h)] CODE_WINDOW_RESIZE_CANVAS None target"

definition parse_ResizeCanvas :: "bytes \<Rightarrow> int2 \<Rightarrow> bool \<times> int2" where
  "parse_ResizeCanvas =
     parse_locals [rs_int16 put1_2, rs_int16 put2_2] (0, 0) (\<lambda>(w, h) _. (ucast w, ucast h))"

definition make_ResizeMainWindow :: "32 word \<Rightarrow> 32 word \<Rightarrow> bytes option \<Rightarrow> bytes" where
  "make_ResizeMainWindow w h target =
     build [w16 (ucast w), w16 (ucast h)] CODE_WINDOW_RESIZE_MAIN_WND None target"

definition parse_ResizeMainWindow :: "bytes \<Rightarrow> int2 \<Rightarrow> bool \<times> int2" where
  "parse_ResizeMainWindow =
     parse_locals [rs_int16 put1_2, rs_int16 put2_2] (0, 0) (\<lambda>(w, h) _. (ucast w, ucast h))"

section \<open>Screen share messages\<close>

definition make_ChangeShowStream :: "bytes \<Rightarrow> bool \<Rightarrow> bool \<Rightarrow> bytes" where
  "make_ChangeShowStream from' sender start =
     build [wflag sender, wflag start] CODE_SCREENSHARE_CHANGE_SHOW_STREAM (Some from') None"

definition parse_ChangeShowStream :: "bytes \<Rightarrow> bool \<times> bool \<Rightarrow> bool \<times> bool \<times> bool" where
  "parse_ChangeShowStream body s =
     caught (run_reads [rs_int8 (\<lambda>v. put1_2 (v = 1)), rs_int8 (\<lambda>v. put2_2 (v = 1))] body s 0)"

definition make_ResShowStream :: "bytes \<Rightarrow> bool \<Rightarrow> 32 word \<Rightarrow> bytes" where
  "make_ResShowStream from' accept listenPort =
     build [wflag accept, w16 (ucast listenPort)] CODE_SCREENSHARE_RES_SHOW_STREAM (Some from') None"

definition parse_ResShowStream :: "bytes \<Rightarrow> bool \<times> 32 word \<Rightarrow> bool \<times> bool \<times> 32 word" where
  "parse_ResShowStream =
     parse_locals [rs_int8 put1_2, rs_int16 put2_2] (0, 0) (\<lambda>(t, port) _. (t = 1, ucast port))"

definition make_ChangeRecordStatus :: "bytes \<Rightarrow> bool \<Rightarrow> bytes" where
  "make_ChangeRecordStatus from' status =
     build [wflag status] CODE_SCREENSHARE_CHANGE_RECORD_STATUS (Some from') None"

definition parse_ChangeRecordStatus :: "bytes \<Rightarrow> bool \<Rightarrow> bool \<times> bool" where
  "parse_ChangeRecordStatus = parse_locals [rs_int8 (\<lambda>v _. v)] 0 (\<lambda>t _. t = 1)"

section \<open>Broadcast and UDP messages\<close>

definition make_ProbeServer :: "bytes \<Rightarrow> bytes \<Rightarrow> 32 word \<Rightarrow> bytes" where
  "make_ProbeServer channel addr port =
     build [w8 channel, w8 addr, w16 (ucast port)] CODE_BROAD_PROBE_SERVER None None"

text \<open>The strings are read into the arguments, the port through a local.\<close>

definition parse_address :: "bytes \<Rightarrow> bytes \<times> bytes \<times> 32 word \<Rightarrow> bool \<times> bytes \<times> bytes \<times> 32 word" where
  "parse_address body s =
     caught (run_reads [rs_string8 put1_3, rs_string8 put2_3, rs_int16 (\<lambda>v. put3_3 (ucast v))] body s 0)"

definition parse_ProbeServer :: "bytes \<Rightarrow> bytes \<times> bytes \<times> 32 word \<Rightarrow> bool \<times> bytes \<times> bytes \<times> 32 word" where
  "parse_ProbeServer = parse_address"

definition make_ServerInfo :: "bytes \<Rightarrow> bytes \<Rightarrow> 32 word \<Rightarrow> bytes" where
  "make_ServerInfo channel addr port =
     build [w8 channel, w8 addr, w16 (ucast port)] CODE_UDP_SERVER_INFO None None"

definition parse_ServerInfo :: "bytes \<Rightarrow> bytes \<times> bytes \<times> 32 word \<Rightarrow> bool \<times> bytes \<times> bytes \<times> 32 word" where
  "parse_ServerInfo = parse_address"

definition make_TextMessage :: "bytes \<Rightarrow> bytes \<Rightarrow> bytes \<Rightarrow> bytes \<Rightarrow> bytes" where
  "make_TextMessage channel myId nick msg =
     build [w8 channel, w8 myId, w8 nick, w8 msg] CODE_BROAD_TEXT_MESSAGE None None"

definition parse_TextMessage ::
  "bytes \<Rightarrow> bytes \<times> bytes \<times> bytes \<times> bytes \<Rightarrow> bool \<times> bytes \<times> bytes \<times> bytes \<times> bytes" where
  "parse_TextMessage body s =
     caught (run_reads [rs_string8 put1_4, rs_string8 put2_4, rs_string8 put3_4, rs_string8 put4_4]
       body s 0)"

section \<open>The interface of a message\<close>

definition opt_id :: "bytes option \<Rightarrow> bytes" where
  "opt_id i = (case i of Some x \<Rightarrow> x | None \<Rightarrow> [])"

definition packet :: "pcode \<Rightarrow> bytes option \<Rightarrow> bytes option \<Rightarrow> bytes \<Rightarrow> CPacketData" where
  "packet code from' to' body =
     \<lparr>pd_code = code_word code, pd_fromId = opt_id from', pd_toId = opt_id to', pd_body = body\<rparr>"

lemma build_eq:
  assumes "run_writes stmts ([], 0) = Inr (body, n)" and "fits8 (opt_id from')" "fits8 (opt_id to')"
  shows "build stmts code from' to' = pkt_bytes (packet code from' to' body)"
  using assms by (simp add: build_def packet_def or_empty_def makePacket_bytes opt_id_def)

lemma code_word_less: "code \<noteq> CODE_MAX \<Longrightarrow> code_word code < code_word CODE_MAX"
  by (cases code) (simp_all add: code_num_def pcodes_def)

text \<open>
  The bytes \<open>w\<close>, in whatever chunks they are received, are delivered as one packet with the
  code, and the parser \<open>prs\<close> turns, on its body, the arguments \<open>x\<close> into \<open>y\<close>.
\<close>

definition arrives_as ::
  "bytes \<Rightarrow> pcode \<Rightarrow> (bytes \<Rightarrow> 'o \<Rightarrow> bool \<times> 'o) \<Rightarrow> 'o \<Rightarrow> 'o \<Rightarrow> bool" where
  "arrives_as w code prs x y \<longleftrightarrow>
     (\<forall>cs a b c d. concat cs = w \<longrightarrow>
        (\<exists>xs s p. mapS receive cs (sl_new a b c d) = (Inr xs, s) \<and> concat xs = [p]
           \<and> pd_code p = code_word code \<and> prs (pd_body p) x = (True, y)))"

locale message =
  fixes code :: pcode
    and sender receiver :: "'m \<Rightarrow> bytes option"
    and body :: "'m \<Rightarrow> bytes"
    and ok :: "'m \<Rightarrow> bool"
    and mk :: "'m \<Rightarrow> bytes"
    and parse :: "bytes \<Rightarrow> 'o \<Rightarrow> bool \<times> 'o"
    and arrives :: "'m \<Rightarrow> 'o \<Rightarrow> 'o"
  assumes code_not_max: "code \<noteq> CODE_MAX"
    and ids_fit: "ok m \<Longrightarrow> fits8 (opt_id (sender m)) \<and> fits8 (opt_id (receiver m))"
    and body_small: "ok m \<Longrightarrow> length (body m) \<le> unat MAX_PACKET_BODY_SIZE"
    and mk_eq: "ok m \<Longrightarrow> mk m = pkt_bytes (packet code (sender m) (receiver m) (body m))"
    and parse_body: "ok m \<Longrightarrow> parse (body m) x = (True, arrives m x)"
begin

lemma packet_ok: "ok m \<Longrightarrow> pkt_ok (packet code (sender m) (receiver m) (body m))"
  using ids_fit body_small code_word_less [OF code_not_max] by (simp add: pkt_ok_def packet_def)

lemma arrives:
  assumes "ok m"
  shows "arrives_as (mk m) code parse x (arrives m x)"
  unfolding arrives_as_def
proof (intro allI impI)
  fix cs a b c d assume "concat cs = mk m"
  with mk_eq [OF assms] have "concat cs = pkt_bytes (packet code (sender m) (receiver m) (body m))"
    by simp
  from receive_one [OF packet_ok [OF assms] this, of a b c d] parse_body [OF assms]
  show "\<exists>xs s p. mapS receive cs (sl_new a b c d) = (Inr xs, s) \<and> concat xs = [p]
      \<and> pd_code p = code_word code \<and> parse (pd_body p) x = (True, arrives m x)"
    by (auto simp: packet_def)
qed

end

section \<open>Every message class keeps the contract\<close>

lemmas small_body = MAX_PACKET_BODY_SIZE_def fits8_def opt_id_def

interpretation chat: message CODE_SYSTEM_CHAT_MESSAGE "\<lambda>_. None" "\<lambda>_. None"
  "\<lambda>(i, n, t). enc_string8 i @ enc_string8 n @ enc_string8 t"
  "\<lambda>(i, n, t). fits8 i \<and> fits8 n \<and> fits8 t"
  "\<lambda>(i, n, t). make_ChatMessage i n t" parse_ChatMessage "\<lambda>m _. m"
  by unfold_locales
    (auto simp: make_ChatMessage_def parse_ChatMessage_def codec_simps small_body intro!: build_eq)

interpretation vers: message CODE_SYSTEM_VERSION_INFO "\<lambda>_. None" "\<lambda>_. None"
  "\<lambda>(v, p). enc_string8 v @ enc_string8 p" "\<lambda>(v, p). fits8 v \<and> fits8 p"
  "\<lambda>(v, p). make_VersionInfo v p" parse_VersionInfo "\<lambda>m _. m"
  by unfold_locales
    (auto simp: make_VersionInfo_def parse_VersionInfo_def codec_simps small_body intro!: build_eq)

interpretation nick: message CODE_SYSTEM_CHANGE_NICKNAME "\<lambda>_. None" "\<lambda>_. None"
  "\<lambda>(v1, v2). enc_string8 v1 @ enc_string8 v2" "\<lambda>(v1, v2). fits8 v1 \<and> fits8 v2"
  "\<lambda>(v1, v2). make_ChangeNickName v1 v2" parse_ChangeNickName "\<lambda>m _. m"
  by unfold_locales
    (auto simp: make_ChangeNickName_def parse_ChangeNickName_def codec_simps small_body intro!: build_eq)

interpretation left: message CODE_SYSTEM_LEFT "\<lambda>_. None" "\<lambda>_. None"
  "\<lambda>(v1, v2). enc_string8 v1 @ enc_string8 v2" "\<lambda>(v1, v2). fits8 v1 \<and> fits8 v2"
  "\<lambda>(v1, v2). make_LeftUser v1 v2" parse_LeftUser "\<lambda>m _. m"
  by unfold_locales
    (auto simp: make_LeftUser_def parse_LeftUser_def codec_simps small_body intro!: build_eq)

interpretation textmsg: message CODE_BROAD_TEXT_MESSAGE "\<lambda>_. None" "\<lambda>_. None"
  "\<lambda>(v1, v2, v3, v4). enc_string8 v1 @ enc_string8 v2 @ enc_string8 v3 @ enc_string8 v4" "\<lambda>(v1, v2, v3, v4). fits8 v1 \<and> fits8 v2 \<and> fits8 v3 \<and> fits8 v4"
  "\<lambda>(v1, v2, v3, v4). make_TextMessage v1 v2 v3 v4" parse_TextMessage "\<lambda>m _. m"
  by unfold_locales
    (auto simp: make_TextMessage_def parse_TextMessage_def codec_simps small_body intro!: build_eq)

interpretation sync_start: message CODE_SYSTEM_SYNC_START "\<lambda>(c, f, t). Some f" "\<lambda>(c, f, t). Some t"
  "\<lambda>(c, f, t). enc_string8 c" "\<lambda>(c, f, t). fits8 c \<and> fits8 f \<and> fits8 t"
  "\<lambda>(c, f, t). make_SyncStart c f t" parse_SyncStart "\<lambda>(c, f, t) _. c"
  by unfold_locales
    (auto simp: make_SyncStart_def parse_SyncStart_def codec_simps small_body intro!: build_eq)

text \<open>Numbers go through 16 bits: what fits arrives.\<close>

definition fits_short :: "32 word \<Rightarrow> bool" where
  "fits_short w \<longleftrightarrow> unat w \<le> 0xffff"

lemma fits_short_ucast: "fits_short w \<Longrightarrow> ucast (ucast w :: 16 word) = w"
  unfolding fits_short_def by (rule ucast_ucast16)

lemmas number_body = small_body fits_short_ucast parse_locals_def

interpretation grid: message CODE_PAINT_SET_BG_GRID_LINE "\<lambda>_. None" snd
  "\<lambda>(n, t). enc_int16 (ucast n)" "\<lambda>(n, t). fits_short n \<and> fits8 (opt_id t)"
  "\<lambda>(n, t). make_SetBackgroundGridLine n t" parse_SetBackgroundGridLine "\<lambda>(n, t) _. n"
  by unfold_locales
    (auto simp: make_SetBackgroundGridLine_def parse_SetBackgroundGridLine_def codec_simps
      number_body intro!: build_eq)

interpretation bgcolor: message CODE_PAINT_SET_BG_COLOR "\<lambda>_. None" snd
  "\<lambda>((r, g, b, a), t). enc_int16 (ucast r) @ enc_int16 (ucast g) @ enc_int16 (ucast b)
     @ enc_int16 (ucast a)"
  "\<lambda>((r, g, b, a), t). fits_short r \<and> fits_short g \<and> fits_short b \<and> fits_short a
     \<and> fits8 (opt_id t)"
  "\<lambda>(c, t). make_SetBackgroundColor c t" parse_SetBackgroundColor "\<lambda>(c, t) _. c"
  by unfold_locales
    (auto simp: make_SetBackgroundColor_def parse_SetBackgroundColor_def codec_simps
      number_body intro!: build_eq)

interpretation scroll: message CODE_WINDOW_CHANGE_CANVAS_SCROLL_POS "\<lambda>_. None" "\<lambda>(h, v, t). t"
  "\<lambda>(h, v, t). enc_int16 h @ enc_int16 v" "\<lambda>(h, v, t). fits8 (opt_id t)"
  "\<lambda>(h, v, t). make_ChangeCanvasScrollPos h v t" parse_ChangeCanvasScrollPos "\<lambda>(h, v, t) _. (h, v)"
  by unfold_locales
    (auto simp: make_ChangeCanvasScrollPos_def parse_ChangeCanvasScrollPos_def codec_simps
      number_body intro!: build_eq)

interpretation canvas: message CODE_WINDOW_RESIZE_CANVAS "\<lambda>_. None" "\<lambda>(w, h, t). t"
  "\<lambda>(w, h, t). enc_int16 (ucast w) @ enc_int16 (ucast h)"
  "\<lambda>(w, h, t). fits_short w \<and> fits_short h \<and> fits8 (opt_id t)"
  "\<lambda>(w, h, t). make_ResizeCanvas w h t" parse_ResizeCanvas "\<lambda>(w, h, t) _. (w, h)"
  by unfold_locales
    (auto simp: make_ResizeCanvas_def parse_ResizeCanvas_def codec_simps number_body
      intro!: build_eq)

interpretation mainwnd: message CODE_WINDOW_RESIZE_MAIN_WND "\<lambda>_. None" "\<lambda>(w, h, t). t"
  "\<lambda>(w, h, t). enc_int16 (ucast w) @ enc_int16 (ucast h)"
  "\<lambda>(w, h, t). fits_short w \<and> fits_short h \<and> fits8 (opt_id t)"
  "\<lambda>(w, h, t). make_ResizeMainWindow w h t" parse_ResizeMainWindow "\<lambda>(w, h, t) _. (w, h)"
  by unfold_locales
    (auto simp: make_ResizeMainWindow_def parse_ResizeMainWindow_def codec_simps number_body
      intro!: build_eq)

lemma length_int16s [simp]: "length (concat (map (\<lambda>v. enc_int16 (f v)) vs)) = 2 * length vs"
  by (induction vs) simp_all

lemma run_write_int16s:
  "run_writes (map (\<lambda>v. w16 (f v)) vs) (buf, length buf)
     = Inr (buf @ concat (map (\<lambda>v. enc_int16 (f v)) vs), length buf + 2 * length vs)"
  using i16.run_write_all [of "length buf" buf "map f vs" "[]"]
  by (simp add: list_all_iff o_def run_writes.simps(1))

interpretation splitter: message CODE_WINDOW_RESIZE_WND_SPLITTER "\<lambda>_. None" snd
  "\<lambda>(vs, t). enc_int16 (of_nat (length vs)) @ concat (map enc_int16 (map ucast vs))"
  "\<lambda>(vs, t). list_all fits_short vs \<and> length vs \<le> 0xffff \<and> fits8 (opt_id t)"
  "\<lambda>(vs, t). make_ResizeWindowSplitter vs t" parse_ResizeWindowSplitter "\<lambda>(vs, t) x. x @ vs"
proof (unfold_locales, goal_cases)
  case (5 m x)
  obtain vs t where m: "m = (vs, t)" by (cases m)
  with 5 have vs: "list_all fits_short vs" "length vs \<le> 0xffff" by simp_all
  have all: "list_all fits_short ws \<Longrightarrow> map ucast (map (ucast :: 32 word \<Rightarrow> 16 word) ws) = ws" for ws
    by (induction ws) (simp_all add: fits_short_ucast)
  have push: "fold (\<lambda>v s. (fst s, snd s @ [ucast v])) ws (n, x) = (n, x @ map ucast ws)"
    for ws :: "16 word list" and n :: "16 word"
    by (induction ws arbitrary: x) simp_all
  have n: "unat (of_nat (length vs) :: 16 word) = length vs"
    using vs(2) by (simp add: unat_of_nat take_bit_eq_mod)
  let ?st = "rs_int16 (\<lambda>v s. (fst s, snd s @ [ucast v])) :: (16 word \<times> 32 word list) rstmt"
  have front: "rep (length vs) ?st (concat (map enc_int16 (map ucast vs))) (of_nat (length vs), x) 0
      = Done (of_nat (length vs), x @ vs) (length (concat (map enc_int16 (map (ucast :: 32 word \<Rightarrow> 16 word) vs))))"
    using i16.rep_read [of "map ucast vs" "\<lambda>v s. (fst s, snd s @ [ucast v])" "[]" "(of_nat (length vs) :: 16 word, x)"]
    unfolding push all [OF vs(1)] by (simp add: list_all_iff)
  have pos: "positional splitter_sizes"
    using positionalD [OF positional_rep [OF i16.positional_rs]]
    by (intro positional_def [THEN iffD2] allI) (simp only: splitter_sizes_def)
  have "splitter_sizes (concat (map enc_int16 (map ucast vs))) (of_nat (length vs), x) 0
      = Done (of_nat (length vs), x @ vs) (length (concat (map enc_int16 (map (ucast :: 32 word \<Rightarrow> 16 word) vs))))"
    using front n by (simp add: splitter_sizes_def)
  then have "run_reads [rs_int16 put1_2, splitter_sizes]
      (enc_int16 (of_nat (length vs)) @ concat (map enc_int16 (map ucast vs))) (0, x) 0
    = Done (of_nat (length vs), x @ vs) (2 + length (concat (map enc_int16 (map (ucast :: 32 word \<Rightarrow> 16 word) vs))))"
    using i16.run_read [of "of_nat (length vs)" "[splitter_sizes]" put1_2] pos
    by (simp add: run_reads_Cons)
  then show ?case by (simp add: m parse_ResizeWindowSplitter_def)
next
  case (4 m)
  have "run_writes (w16 n # map (\<lambda>v. w16 v) (map ucast vs)) ([], 0)
      = Inr (enc_int16 n @ concat (map enc_int16 (map ucast vs)), 2 + 2 * length vs)"
    for n and vs :: "32 word list"
    using run_write_int16s [of ucast vs "enc_int16 n"] i16.run_write [of 0 "[]" n]
    by (simp add: o_def eval_nat_numeral)
  then show ?case using 4
    by (cases m) (simp add: make_ResizeWindowSplitter_def build_eq opt_id_def fits8_def)
qed (auto simp: o_def number_body)

interpretation showstream: message CODE_SCREENSHARE_CHANGE_SHOW_STREAM "\<lambda>(f, a, b). Some f" "\<lambda>_. None"
  "\<lambda>(f, a, b). enc_int8 (flag a) @ enc_int8 (flag b)" "\<lambda>(f, a, b). fits8 f"
  "\<lambda>(f, a, b). make_ChangeShowStream f a b" parse_ChangeShowStream "\<lambda>(f, a, b) _. (a, b)"
  by unfold_locales
    (auto simp: make_ChangeShowStream_def parse_ChangeShowStream_def codec_simps number_body
      intro!: build_eq)

interpretation resstream: message CODE_SCREENSHARE_RES_SHOW_STREAM "\<lambda>(f, a, p). Some f" "\<lambda>_. None"
  "\<lambda>(f, a, p). enc_int8 (flag a) @ enc_int16 (ucast p)" "\<lambda>(f, a, p). fits8 f \<and> fits_short p"
  "\<lambda>(f, a, p). make_ResShowStream f a p" parse_ResShowStream "\<lambda>(f, a, p) _. (a, p)"
  by unfold_locales
    (auto simp: make_ResShowStream_def parse_ResShowStream_def codec_simps number_body
      intro!: build_eq)

interpretation recstatus: message CODE_SCREENSHARE_CHANGE_RECORD_STATUS "\<lambda>(f, a). Some f" "\<lambda>_. None"
  "\<lambda>(f, a). enc_int8 (flag a)" "\<lambda>(f, a). fits8 f"
  "\<lambda>(f, a). make_ChangeRecordStatus f a" parse_ChangeRecordStatus "\<lambda>(f, a) _. a"
  by unfold_locales
    (auto simp: make_ChangeRecordStatus_def parse_ChangeRecordStatus_def codec_simps number_body
      intro!: build_eq)

interpretation probe: message CODE_BROAD_PROBE_SERVER "\<lambda>_. None" "\<lambda>_. None"
  "\<lambda>(c, a, p). enc_string8 c @ enc_string8 a @ enc_int16 (ucast p)"
  "\<lambda>(c, a, p). fits8 c \<and> fits8 a \<and> fits_short p"
  "\<lambda>(c, a, p). make_ProbeServer c a p" parse_ProbeServer "\<lambda>m _. m"
  by unfold_locales
    (auto simp: make_ProbeServer_def parse_ProbeServer_def parse_address_def codec_simps number_body
      intro!: build_eq)

interpretation srvinfo: message CODE_UDP_SERVER_INFO "\<lambda>_. None" "\<lambda>_. None"
  "\<lambda>(c, a, p). enc_string8 c @ enc_string8 a @ enc_int16 (ucast p)"
  "\<lambda>(c, a, p). fits8 c \<and> fits8 a \<and> fits_short p"
  "\<lambda>(c, a, p). make_ServerInfo c a p" parse_ServerInfo "\<lambda>m _. m"
  by unfold_locales
    (auto simp: make_ServerInfo_def parse_ServerInfo_def parse_address_def codec_simps number_body
      intro!: build_eq)

interpretation join: message CODE_SYSTEM_JOIN_TO_SERVER "\<lambda>_. None" "\<lambda>_. None" enc_user
  "\<lambda>u. ok_user u" make_JoinToServer
  "\<lambda>body new. (parse_JoinToServer new body \<noteq> None, the (parse_JoinToServer new body))" put_user
proof unfold_locales
  fix u :: CPaintUser assume ok: "ok_user u"
  show "length (enc_user u) \<le> unat MAX_PACKET_BODY_SIZE"
    using ok by (simp add: enc_user_def ok_user_def fits8_def Let_def MAX_PACKET_BODY_SIZE_def)
  show "make_JoinToServer u = pkt_bytes (packet CODE_SYSTEM_JOIN_TO_SERVER None None (enc_user u))"
    using makePacket_bytes [of None None]
    by (simp add: make_JoinToServer_def user.ser_enc [OF ok] or_empty_def packet_def opt_id_def fits8_def)
  fix x
  show "(parse_JoinToServer x (enc_user u) \<noteq> None, the (parse_JoinToServer x (enc_user u)))
      = (True, put_user u x)"
    using user.de_enc [OF ok, of "[]" x] by (simp add: parse_JoinToServer_def)
qed (simp_all add: opt_id_def fits8_def)

interpretation superjoin: message CODE_SYSTEM_JOIN_TO_SUPERPEER "\<lambda>_. None" "\<lambda>_. None" enc_user
  "\<lambda>u. ok_user u" make_JoinerToSuperPeer
  "\<lambda>body new. (parse_JoinerToSuperPeer new body \<noteq> None, the (parse_JoinerToSuperPeer new body))"
  put_user
proof unfold_locales
  fix u :: CPaintUser assume ok: "ok_user u"
  show "length (enc_user u) \<le> unat MAX_PACKET_BODY_SIZE"
    by (rule join.body_small [OF ok])
  show "make_JoinerToSuperPeer u = pkt_bytes (packet CODE_SYSTEM_JOIN_TO_SUPERPEER None None (enc_user u))"
    using makePacket_bytes [of None None]
    by (simp add: make_JoinerToSuperPeer_def user.ser_enc [OF ok] or_empty_def packet_def opt_id_def fits8_def)
  fix x
  show "(parse_JoinerToSuperPeer x (enc_user u) \<noteq> None, the (parse_JoinerToSuperPeer x (enc_user u)))
      = (True, put_user u x)"
    using user.de_enc [OF ok, of "[]" x] by (simp add: parse_JoinerToSuperPeer_def)
qed (simp_all add: opt_id_def fits8_def)

section \<open>Lists of users\<close>

lemma append_users_eq:
  "list_all ok_user us \<Longrightarrow> append_users us body = Inr (body @ concat (map enc_user us))"
  by (induction us arbitrary: body) (simp_all add: user.ser_enc)

lemma read_users_eq:
  "list_all ok_user us \<Longrightarrow> read_users new (length us) (pre @ concat (map enc_user us) @ r) (length pre)
     = (map (\<lambda>u. put_user u new) us, length pre + length (concat (map enc_user us)))"
proof (induction us arbitrary: pre)
  case Nil
  then show ?case by simp
next
  case (Cons u us)
  have "deserialize_user (pre @ enc_user u @ concat (map enc_user us) @ r) (length pre) new
      = (True, put_user u new, length pre + length (enc_user u))"
    using Cons.prems by (simp add: user.de_at)
  then show ?case
    using Cons.IH [of "pre @ enc_user u"] Cons.prems by simp
qed

lemma parse_history_eq:
  assumes "list_all ok_user us" and "length us \<le> 0xffff"
  shows "parse_HistoryUserList new (enc_int16 (of_nat (length us)) @ concat (map enc_user us))
    = map (\<lambda>u. put_user u new) us"
proof -
  have "unat (of_nat (length us) :: 16 word) = length us"
    using assms(2) by (simp add: unat_of_nat take_bit_eq_mod)
  then show ?thesis
    using read_users_eq [OF assms(1), of new "enc_int16 (of_nat (length us))" "[]"]
    by (simp add: parse_HistoryUserList_def readInt16_enc)
qed

lemma make_history_eq:
  assumes "list_all ok_user us"
  shows "make_HistoryUserList us = pkt_bytes (packet CODE_SYSTEM_HISTORY_USER_LIST None None
    (enc_int16 (of_nat (length us)) @ concat (map enc_user us)))"
  using makePacket_bytes [of None None]
  by (simp add: make_HistoryUserList_def codec_simps append_users_eq [OF assms] or_empty_def
      packet_def opt_id_def fits8_def)

interpretation history: message CODE_SYSTEM_HISTORY_USER_LIST "\<lambda>_. None" "\<lambda>_. None"
  "\<lambda>us. enc_int16 (of_nat (length us)) @ concat (map enc_user us)"
  "\<lambda>us. list_all ok_user us \<and> length us \<le> 0xffff
     \<and> length (concat (map enc_user us)) + 2 \<le> unat MAX_PACKET_BODY_SIZE"
  make_HistoryUserList
  "\<lambda>body x. (True, (fst x, parse_HistoryUserList (fst x) body))"
  "\<lambda>us x. (fst x, map (\<lambda>u. put_user u (fst x)) us)"
  by unfold_locales (simp_all add: make_history_eq parse_history_eq opt_id_def fits8_def)

lemma read_users_end:
  "read_users new n body (length body) = (replicate n new, length body)"
proof (induction n)
  case 0
  show ?case by simp
next
  case (Suc n)
  have end_of: "run_reads (rs_string8 f # ss) body s (length body)
      = Thrown (CPacketException ''readInt8 failed..'') s" for f ss s
    by (simp add: run_reads_Cons rs_str_def readString8_def readInt8_def read_def left_by_def)
  have "deserialize_user body (length body) new = (False, new, length body)"
    by (simp add: deserialize_user_def try_reads_def user_reads_def end_of)
  with Suc show ?case by simp
qed

section \<open>Items in packets\<close>

lemma parse_created_item:
  assumes "ok_item q it" and "qt_carries q it" and "serialize_item q fs it = Inr d"
    and "item_type it \<noteq> PT_BG_IMAGE"
  shows "\<exists>it0. createItem q (item_type_num (item_type it)) = Inr it0 \<and>
    parse_CreateItem q fs' (enc_int16 (item_type_num (item_type it)) @ d)
      = Inr (Some (Some (it0\<lparr>it_data := it_data it, it_content := it_content it\<rparr>), fs'))"
proof -
  obtain it0 where it0: "createItem q (item_type_num (item_type it)) = Inr it0"
    "it_content it0 = (case it_content it of
       LineContent ps c w \<Rightarrow> LineContent [] (q_newColor q) 0
     | ImageContent x \<Rightarrow> ImageContent [] | BgImageContent x \<Rightarrow> BgImageContent []
     | TextContent t f c \<Rightarrow> TextContent [] (q_newFont q) (q_newColor q)
     | FileContent p \<Rightarrow> FileContent [] | ImageFileContent p \<Rightarrow> ImageFileContent [])"
    using assms(1,4)
    by (cases "it_content it")
      (simp_all add: createItem_def item_type_num_def item_type_def new_item_def ok_item_def)
  have "deserialize_item q fs' d it0
      = Some (True, it0\<lparr>it_data := it_data it, it_content := it_content it\<rparr>, fs')"
    by (rule item_rt [OF assms(1-3) it0(2)])
  with it0(1) show ?thesis
    by (simp add: parse_CreateItem_def readInt16_enc)
qed

section \<open>Properties\<close>

text \<open>Text messages arrive.  A chat message, version, nickname, leave, sync start, broadcast
  text, probe or server info message whose strings have at most 255 bytes is received, however
  its bytes are cut, as one packet with its code, and its parser returns the strings (and the
  port, when it has 16 bits) that were sent, whatever the reference arguments held before.\<close>

lemma text_messages_arrive:
  assumes "fits8 u" "fits8 v" "fits8 w" "fits8 z" "fits_short port"
  shows "arrives_as (make_ChatMessage u v w) CODE_SYSTEM_CHAT_MESSAGE parse_ChatMessage x3 (u, v, w)
    \<and> arrives_as (make_VersionInfo u v) CODE_SYSTEM_VERSION_INFO parse_VersionInfo x2 (u, v)
    \<and> arrives_as (make_ChangeNickName u v) CODE_SYSTEM_CHANGE_NICKNAME parse_ChangeNickName x2 (u, v)
    \<and> arrives_as (make_LeftUser u v) CODE_SYSTEM_LEFT parse_LeftUser x2 (u, v)
    \<and> arrives_as (make_SyncStart u v w) CODE_SYSTEM_SYNC_START parse_SyncStart x1 u
    \<and> arrives_as (make_TextMessage u v w z) CODE_BROAD_TEXT_MESSAGE parse_TextMessage x4 (u, v, w, z)
    \<and> arrives_as (make_ProbeServer u v port) CODE_BROAD_PROBE_SERVER parse_ProbeServer xp (u, v, port)
    \<and> arrives_as (make_ServerInfo u v port) CODE_UDP_SERVER_INFO parse_ServerInfo xp (u, v, port)"
  using chat.arrives [of "(u, v, w)" x3] vers.arrives [of "(u, v)" x2] nick.arrives [of "(u, v)" x2]
    left.arrives [of "(u, v)" x2] sync_start.arrives [of "(u, v, w)" x1]
    textmsg.arrives [of "(u, v, w, z)" x4] probe.arrives [of "(u, v, port)" xp]
    srvinfo.arrives [of "(u, v, port)" xp] assms
  by simp

text \<open>Number messages arrive.  Scroll positions, sizes, colours, grid widths, flags and stream
  ports that fit into 16 bits are received as one packet and parsed to the values sent.\<close>

lemma number_messages_arrive:
  assumes "fits_short i" "fits_short j" "fits_short k" "fits_short l" "fits8 from'" "fits8 (opt_id t)"
  shows "arrives_as (make_ChangeCanvasScrollPos h v t) CODE_WINDOW_CHANGE_CANVAS_SCROLL_POS
           parse_ChangeCanvasScrollPos xs (h, v)
    \<and> arrives_as (make_ResizeCanvas i j t) CODE_WINDOW_RESIZE_CANVAS parse_ResizeCanvas x2 (i, j)
    \<and> arrives_as (make_ResizeMainWindow i j t) CODE_WINDOW_RESIZE_MAIN_WND parse_ResizeMainWindow x2 (i, j)
    \<and> arrives_as (make_SetBackgroundColor (i, j, k, l) t) CODE_PAINT_SET_BG_COLOR
        parse_SetBackgroundColor x4 (i, j, k, l)
    \<and> arrives_as (make_SetBackgroundGridLine i t) CODE_PAINT_SET_BG_GRID_LINE
        parse_SetBackgroundGridLine x1 i
    \<and> arrives_as (make_ChangeShowStream from' a b) CODE_SCREENSHARE_CHANGE_SHOW_STREAM
        parse_ChangeShowStream xf (a, b)
    \<and> arrives_as (make_ResShowStream from' a i) CODE_SCREENSHARE_RES_SHOW_STREAM
        parse_ResShowStream xr (a, i)
    \<and> arrives_as (make_ChangeRecordStatus from' a) CODE_SCREENSHARE_CHANGE_RECORD_STATUS
        parse_ChangeRecordStatus xb a"
  using scroll.arrives [of "(h, v, t)" xs] canvas.arrives [of "(i, j, t)" x2]
    mainwnd.arrives [of "(i, j, t)" x2] bgcolor.arrives [of "((i, j, k, l), t)" x4]
    grid.arrives [of "(i, t)" x1] showstream.arrives [of "(from', a, b)" xf]
    resstream.arrives [of "(from', a, i)" xr] recstatus.arrives [of "(from', a)" xb] assms
  by simp

text \<open>Long chat messages vanish.  \<^verbatim>\<open>make\<close> returns the empty string, which sends nothing,
  exactly when the id, the nickname or the message has more than 255 bytes.\<close>

lemma long_chat_message_vanishes:
  "make_ChatMessage i nick msg = [] \<longleftrightarrow> length i > 255 \<or> length nick > 255 \<or> length msg > 255"
proof (cases "fits8 i \<and> fits8 nick \<and> fits8 msg")
  case True
  then have "make_ChatMessage i nick msg = pkt_bytes (packet CODE_SYSTEM_CHAT_MESSAGE None None
      (enc_string8 i @ enc_string8 nick @ enc_string8 msg))"
    using chat.mk_eq [of "(i, nick, msg)"] by simp
  with True show ?thesis by (simp add: fits8_def pkt_bytes_def enc_int16_def eval_nat_numeral)
next
  case False
  have "run_writes (w8 v # ss) st = Inl (CPacketException ''the string size is bigger than 1byte length..'')"
    if "\<not> fits8 v" for v ss st
    using that by (cases st) (simp add: run_writes_Cons wr_def writeString8_def fits8_def)
  with False have "make_ChatMessage i nick msg = []"
    by (cases "fits8 i"; cases "fits8 nick")
      (simp_all add: make_ChatMessage_def build_def or_empty_def codec_simps)
  with False show ?thesis by (auto simp: fits8_def)
qed

text \<open>The list of users arrives.  A history of at most 65535 users that the format can carry
  is received as one packet and parsed to the list of the same users in the same order.\<close>

lemma history_users_arrive:
  assumes "list_all ok_user us" and "length us \<le> 0xffff"
    and "length (concat (map enc_user us)) + 2 \<le> unat MAX_PACKET_BODY_SIZE"
    and "concat cs = make_HistoryUserList us"
  shows "\<exists>xs s p. mapS receive cs (sl_new a b c d) = (Inr xs, s) \<and> concat xs = [p]
    \<and> pd_code p = code_word CODE_SYSTEM_HISTORY_USER_LIST
    \<and> parse_HistoryUserList new (pd_body p) = map (\<lambda>u. put_user u new) us"
  using history.arrives [of us "(new, [])"] assms
  unfolding arrives_as_def by auto

text \<open>A two-byte history is a list of blank users.  The parser ignores that a record cannot be
  read: a body with only a count gives that many users with no id and no channel.\<close>

lemma history_count_makes_blank_users:
  "parse_HistoryUserList new (enc_int16 n) = replicate (unat n) new"
  using readInt16_enc [of n "[]"] read_users_end [of new "unat n" "enc_int16 n"]
  by (simp add: parse_HistoryUserList_def)

text \<open>A drawn item arrives.  The packet \<^verbatim>\<open>CCreateItem::make\<close> builds for a line, text or image
  is received as one packet addressed to the target, and \<^verbatim>\<open>CCreateItem::parse\<close> of its body gives
  a new item of the class with the same position, scale, owner, id and content.\<close>

lemma created_item_arrives:
  assumes "ok_item q it" and "qt_carries q it" and "item_type it \<noteq> PT_BG_IMAGE"
    and "make_CreateItem q fs it target = Inr w" and "fits8 (opt_id target)"
    and "length w \<le> unat MAX_PACKET_BODY_SIZE" and "concat cs = w"
  shows "\<exists>xs s p it'. mapS receive cs (sl_new a b c d) = (Inr xs, s) \<and> concat xs = [p]
    \<and> pd_code p = code_word CODE_PAINT_CREATE_ITEM \<and> pd_toId p = opt_id target
    \<and> parse_CreateItem q fs' (pd_body p) = Inr (Some (Some it', fs'))
    \<and> it_data it' = it_data it \<and> it_content it' = it_content it \<and> \<not> it_mine it'"
proof -
  from assms(4) obtain body where body: "serialize_item q fs it = Inr body"
    unfolding make_CreateItem_def bindE_eq_Inr by blast
  let ?p = "packet CODE_PAINT_CREATE_ITEM None target (enc_int16 (item_type_num (item_type it)) @ body)"
  have w: "w = pkt_bytes ?p"
    using assms(4,5) body makePacket_bytes [of None target]
    by (simp add: make_CreateItem_def codec_simps or_empty_def packet_def opt_id_def fits8_def)
  have "pkt_ok ?p"
    using assms(5,6) w code_word_less [of CODE_PAINT_CREATE_ITEM]
    by (simp add: pkt_ok_def packet_def opt_id_def fits8_def length_pkt_bytes)
  from receive_one [OF this, of cs a b c d] assms(7) w obtain xs s
    where xs: "mapS receive cs (sl_new a b c d) = (Inr xs, s)" "concat xs = [?p]" by auto
  obtain it0 where it0: "createItem q (item_type_num (item_type it)) = Inr it0"
    "parse_CreateItem q fs' (pd_body ?p)
      = Inr (Some (Some (it0\<lparr>it_data := it_data it, it_content := it_content it\<rparr>), fs'))"
    using parse_created_item [OF assms(1,2) body assms(3)] by (auto simp: packet_def)
  have "\<not> it_mine it0"
    using it0(1) by (auto simp: createItem_def new_item_def split: if_splits)
  with xs it0(2) show ?thesis
    by (intro exI [of _ xs] exI [of _ s] exI [of _ ?p]
        exI [of _ "it0\<lparr>it_data := it_data it, it_content := it_content it\<rparr>"])
      (simp add: packet_def)
qed

text \<open>An unknown item type stops the program.  For every type but line, image, file, image
  file and text (a background image among them) the factory's assertion fails while the packet is
  parsed, whatever follows in the body.\<close>

lemma create_item_unknown_type:
  "parse_CreateItem q fs (enc_int16 ty @ d) = Inl AssertFailure \<longleftrightarrow> ty \<notin> {0, 1, 3, 4, 5}"
  by (auto simp: parse_CreateItem_def readInt16_enc createItem_def item_type_num_def)

end
