(* ===== verification/CommandManager.thy ===== *)
theory CommandManager
  imports PacketBuilders
begin

text \<open>
  The history of a drawing: \<^verbatim>\<open>SharedPaintCommandManager.h/.cpp\<close>, \<^verbatim>\<open>SharedPaintCommand.h/.cpp\<close>,
  \<^verbatim>\<open>SharedPaintTask.cpp\<close> and \<^verbatim>\<open>SharedPaintManagementData.h\<close> of \<^verbatim>\<open>src/SharedPainter\<close>.

  A method of the command manager is a function on the record \<open>cmd_mngr\<close>.  The tasks are shared
  objects; each is pushed into the history once, so its index there is its identity.  An item is
  shared too and is named by the owner and the id it was stored under (\<open>item_ptr\<close>).  What the
  methods send and the observers they call are the list \<open>cm_events\<close>, oldest first.
\<close>

section \<open>The items of a user\<close>

record CSharedPaintItemList =
  il_owner :: bytes
  il_itemMap :: "32 word \<rightharpoonup> CPaintItem"

definition new_item_list :: "bytes \<Rightarrow> CSharedPaintItemList" where
  "new_item_list ow = \<lparr>il_owner = ow, il_itemMap = (\<lambda>i. None)\<rparr>"

definition list_addItem :: "CPaintItem \<Rightarrow> CSharedPaintItemList \<Rightarrow> bool \<times> CSharedPaintItemList" where
  "list_addItem it l =
     (let i = sp_itemId (it_data it) in
      case il_itemMap l i of
        Some old \<Rightarrow> (False, l)
      | None \<Rightarrow> (True, l\<lparr>il_itemMap := (il_itemMap l)(i \<mapsto> it)\<rparr>))"

definition list_findItem :: "32 word \<Rightarrow> CSharedPaintItemList \<Rightarrow> CPaintItem option" where
  "list_findItem i l = il_itemMap l i"

definition list_removeItem :: "32 word \<Rightarrow> CSharedPaintItemList \<Rightarrow> CSharedPaintItemList" where
  "list_removeItem i l =
     (case il_itemMap l i of None \<Rightarrow> l | Some it \<Rightarrow> l\<lparr>il_itemMap := (il_itemMap l)(i := None)\<rparr>)"

section \<open>State\<close>

type_synonym item_ptr = "bytes \<times> 32 word"

definition ptr_of :: "CPaintItem \<Rightarrow> item_ptr" where
  "ptr_of it = (sp_owner (it_data it), sp_itemId (it_data it))"

datatype event =
    AddTask nat bool
  | AddPaintItem item_ptr
  | RemovePaintItem item_ptr
  | UpdatePaintItem item_ptr
  | MovePaintItem item_ptr double double
  | ShowErrorMessage item_ptr
  | SendDataToUsers bytes

text \<open>
  A command holds its item, here by its name, and what its constructor has read of the item.
\<close>

datatype CSharedPaintCommand =
    AddItemCommand item_ptr
  | RemoveItemCommand item_ptr
  | UpdateItemCommand item_ptr SPaintData SPaintData
  | MoveItemCommand item_ptr double double double double

definition new_AddItemCommand :: "CPaintItem \<Rightarrow> CSharedPaintCommand" where
  "new_AddItemCommand it = AddItemCommand (ptr_of it)"

definition new_RemoveItemCommand :: "CPaintItem \<Rightarrow> CSharedPaintCommand" where
  "new_RemoveItemCommand it = RemoveItemCommand (ptr_of it)"

definition new_UpdateItemCommand :: "CPaintItem \<Rightarrow> CSharedPaintCommand" where
  "new_UpdateItemCommand it = UpdateItemCommand (ptr_of it) (it_prevData it) (it_data it)"

definition new_MoveItemCommand :: "CPaintItem \<Rightarrow> CSharedPaintCommand" where
  "new_MoveItemCommand it =
     MoveItemCommand (ptr_of it) (sp_posX (it_prevData it)) (sp_posY (it_prevData it))
       (sp_posX (it_data it)) (sp_posY (it_data it))"

record cmd_mngr =
  cm_historyTaskList :: "CSharedPaintTask list"
  cm_historyItemSet :: "item_ptr set"
  cm_userItemListMap :: "bytes \<rightharpoonup> CSharedPaintItemList"
  cm_commandList :: "CSharedPaintCommand list"
  cm_redoCommandList :: "CSharedPaintCommand list"
  cm_allowPainters :: "bytes set"
  cm_currentPlayPos :: int
  cm_events :: "event list"

definition DEFAULT_INIT_PLAYBACK_POS :: int where
  "DEFAULT_INIT_PLAYBACK_POS = - 2"

definition new_cmd_mngr :: cmd_mngr where
  "new_cmd_mngr = \<lparr>cm_historyTaskList = [], cm_historyItemSet = {}, cm_userItemListMap = (\<lambda>u. None),
     cm_commandList = [], cm_redoCommandList = [], cm_allowPainters = {},
     cm_currentPlayPos = DEFAULT_INIT_PLAYBACK_POS, cm_events = []\<rparr>"

definition fire :: "event \<Rightarrow> cmd_mngr \<Rightarrow> cmd_mngr" where
  "fire e s = s\<lparr>cm_events := cm_events s @ [e]\<rparr>"

section \<open>Items\<close>

definition clearHistoryItem :: "cmd_mngr \<Rightarrow> cmd_mngr" where
  "clearHistoryItem s = s\<lparr>cm_historyItemSet := {}, cm_userItemListMap := (\<lambda>u. None)\<rparr>"

definition clearHistoryTask :: "cmd_mngr \<Rightarrow> cmd_mngr" where
  "clearHistoryTask s = s\<lparr>cm_currentPlayPos := DEFAULT_INIT_PLAYBACK_POS, cm_historyTaskList := []\<rparr>"

definition clearHistoryCommand :: "cmd_mngr \<Rightarrow> cmd_mngr" where
  "clearHistoryCommand s = s\<lparr>cm_commandList := [], cm_redoCommandList := []\<rparr>"

definition cm_clear :: "cmd_mngr \<Rightarrow> cmd_mngr" where
  "cm_clear s = clearHistoryCommand (clearHistoryTask (clearHistoryItem s))"

definition historyItemCount :: "cmd_mngr \<Rightarrow> nat" where
  "historyItemCount s = card (cm_historyItemSet s)"

definition historyTaskCount :: "cmd_mngr \<Rightarrow> nat" where
  "historyTaskCount s = length (cm_historyTaskList s)"

definition generateItemId :: "cmd_mngr \<Rightarrow> 32 word" where
  "generateItemId s = of_nat (card (cm_historyItemSet s) + 1)"

definition findItemList :: "bytes \<Rightarrow> cmd_mngr \<Rightarrow> CSharedPaintItemList option" where
  "findItemList ow s = cm_userItemListMap s ow"

definition findItem :: "bytes \<Rightarrow> 32 word \<Rightarrow> cmd_mngr \<Rightarrow> CPaintItem option" where
  "findItem ow i s = (case findItemList ow s of None \<Rightarrow> None | Some l \<Rightarrow> list_findItem i l)"

text \<open>An unknown owner gets a list before it is known whether the item can be added.\<close>

definition addHistoryItem :: "CPaintItem \<Rightarrow> cmd_mngr \<Rightarrow> cmd_mngr" where
  "addHistoryItem it s =
     (let ow = sp_owner (it_data it);
          l = (case cm_userItemListMap s ow of Some l \<Rightarrow> l | None \<Rightarrow> new_item_list ow)
      in case list_addItem it l of
           (True, l') \<Rightarrow> s\<lparr>cm_userItemListMap := (cm_userItemListMap s)(ow \<mapsto> l'),
                          cm_historyItemSet := insert (ptr_of it) (cm_historyItemSet s)\<rparr>
         | (False, l') \<Rightarrow> fire (ShowErrorMessage (ptr_of it))
             (s\<lparr>cm_userItemListMap := (cm_userItemListMap s)(ow \<mapsto> l')\<rparr>))"

text \<open>\<^verbatim>\<open>item->setData( d )\<close> through the shared pointer that \<^verbatim>\<open>findItem\<close> has returned.\<close>

definition setItemData :: "item_ptr \<Rightarrow> SPaintData \<Rightarrow> cmd_mngr \<Rightarrow> cmd_mngr" where
  "setItemData p d s =
     s\<lparr>cm_userItemListMap := (cm_userItemListMap s)(fst p :=
         map_option (\<lambda>l. l\<lparr>il_itemMap := (il_itemMap l)(snd p := map_option (setData d) (il_itemMap l (snd p)))\<rparr>)
           (cm_userItemListMap s (fst p)))\<rparr>"

section \<open>Painters\<close>

definition addPainter :: "bytes \<Rightarrow> cmd_mngr \<Rightarrow> cmd_mngr" where
  "addPainter u s = s\<lparr>cm_allowPainters := insert u (cm_allowPainters s)\<rparr>"

definition isAllowPainterToDraw :: "bytes \<Rightarrow> cmd_mngr \<Rightarrow> bool" where
  "isAllowPainterToDraw u s \<longleftrightarrow> u \<in> cm_allowPainters s"

section \<open>Executing and rolling back a task\<close>

text \<open>\<^verbatim>\<open>historyTaskList_[i]\<close>; an index outside the vector is undefined behaviour.\<close>

definition task_at :: "int \<Rightarrow> (cmd_mngr, CSharedPaintTask) meth" where
  "task_at i s =
     (if 0 \<le> i \<and> i < int (length (cm_historyTaskList s))
      then (Inr (cm_historyTaskList s ! nat i), s) else (Inl BufferOverread, s))"

definition sendPacket :: "int \<Rightarrow> CSharedPaintTask \<Rightarrow> (cmd_mngr, unit) meth" where
  "sendPacket i t s =
     (if tk_sendData t
      then (case make_ExecuteTask t None of
              Inl e \<Rightarrow> (Inl e, s)
            | Inr msg \<Rightarrow> (Inr (), (fire (SendDataToUsers msg) s)
                \<lparr>cm_historyTaskList := (cm_historyTaskList s)[nat i := setSendData False t]\<rparr>))
      else (Inr (), s))"

definition execute_body :: "CSharedPaintTask \<Rightarrow> cmd_mngr \<Rightarrow> cmd_mngr" where
  "execute_body t s =
     (let p = (task_owner t, task_itemId t) in
      case findItem (task_owner t) (task_itemId t) s of
        None \<Rightarrow> s
      | Some it \<Rightarrow>
          (case tk_body t of
             AddItem \<Rightarrow> fire (AddPaintItem p) s
           | RemoveItem \<Rightarrow> fire (RemovePaintItem p) s
           | UpdateItem prev d \<Rightarrow> fire (UpdatePaintItem p) (setItemData p d s)
           | MoveItem px py x y \<Rightarrow> fire (MovePaintItem p x y) s))"

definition rollback_body :: "CSharedPaintTask \<Rightarrow> cmd_mngr \<Rightarrow> cmd_mngr" where
  "rollback_body t s =
     (let p = (task_owner t, task_itemId t) in
      case findItem (task_owner t) (task_itemId t) s of
        None \<Rightarrow> s
      | Some it \<Rightarrow>
          (case tk_body t of
             AddItem \<Rightarrow> fire (RemovePaintItem p) s
           | RemoveItem \<Rightarrow> fire (AddPaintItem p) s
           | UpdateItem prev d \<Rightarrow> fire (UpdatePaintItem p) (setItemData p prev s)
           | MoveItem px py x y \<Rightarrow> fire (MovePaintItem p px py) s))"

definition task_execute :: "int \<Rightarrow> (cmd_mngr, bool) meth" where
  "task_execute i =
     bindS (task_at i) (\<lambda>t.
     bindS (sendPacket i t) (\<lambda>u s. (Inr True, execute_body t s)))"

definition task_rollback :: "int \<Rightarrow> (cmd_mngr, unit) meth" where
  "task_rollback i = bindS (task_at i) (\<lambda>t s. (Inr (), rollback_body t s))"

section \<open>Playback and the history of tasks\<close>

definition isPlaybackMode :: "cmd_mngr \<Rightarrow> bool" where
  "isPlaybackMode s \<longleftrightarrow>
     \<not> (cm_currentPlayPos s = DEFAULT_INIT_PLAYBACK_POS
        \<or> int (length (cm_historyTaskList s)) - 1 = cm_currentPlayPos s)"

text \<open>The part of \<^verbatim>\<open>executeTask\<close> before the task is executed.\<close>

definition push_task :: "CSharedPaintTask \<Rightarrow> bool \<Rightarrow> cmd_mngr \<Rightarrow> cmd_mngr" where
  "push_task t send s =
     (let pb = isPlaybackMode s;
          n = length (cm_historyTaskList s) + 1;
          s1 = s\<lparr>cm_historyTaskList := cm_historyTaskList s @ [setSendData send t]\<rparr>;
          s2 = (if pb then s1 else s1\<lparr>cm_currentPlayPos := int n - 1\<rparr>)
      in fire (AddTask n pb) s2)"

definition executeTask :: "CSharedPaintTask \<Rightarrow> bool \<Rightarrow> (cmd_mngr, bool) meth" where
  "executeTask t send s =
     (let s' = push_task t send s in
      if isPlaybackMode s \<or> \<not> isAllowPainterToDraw (task_owner t) s' then (Inr True, s')
      else task_execute (int (length (cm_historyTaskList s))) s')"

definition loopS :: "('x \<Rightarrow> ('s, 'a) meth) \<Rightarrow> 'x list \<Rightarrow> ('s, unit) meth" where
  "loopS f xs = bindS (mapS f xs) (\<lambda>rs. returnS ())"

text \<open>\<^verbatim>\<open>if( isAllowPainterToDraw( historyTaskList_[i]->owner() ) ) ...\<close>\<close>

definition if_allowed :: "(int \<Rightarrow> (cmd_mngr, 'a) meth) \<Rightarrow> int \<Rightarrow> (cmd_mngr, unit) meth" where
  "if_allowed m i = bindS (task_at i) (\<lambda>t s.
     if isAllowPainterToDraw (task_owner t) s then bindS (m i) (\<lambda>r. returnS ()) s else (Inr (), s))"

definition playforwardTo :: "int \<Rightarrow> int \<Rightarrow> (cmd_mngr, unit) meth" where
  "playforwardTo a b s =
     (if a < - 1 \<or> a \<ge> int (length (cm_historyTaskList s)) then (Inr (), s)
      else if b < 0 \<or> b \<ge> int (length (cm_historyTaskList s)) then (Inr (), s)
      else loopS (if_allowed task_execute) [a + 1..b] s)"

definition playbackwardTo :: "int \<Rightarrow> int \<Rightarrow> (cmd_mngr, unit) meth" where
  "playbackwardTo a b s =
     (if a < 0 \<or> a \<ge> int (length (cm_historyTaskList s)) then (Inr (), s)
      else if b < - 1 \<or> b \<ge> int (length (cm_historyTaskList s)) then (Inr (), s)
      else loopS (if_allowed task_rollback) (rev [b + 1..a]) s)"

definition playbackTo :: "int \<Rightarrow> (cmd_mngr, unit) meth" where
  "playbackTo p s =
     bindS (if cm_currentPlayPos s < p then playforwardTo (cm_currentPlayPos s) p
            else playbackwardTo (cm_currentPlayPos s) p)
       (\<lambda>u s'. (Inr (), s'\<lparr>cm_currentPlayPos := p\<rparr>)) s"

text \<open>\<^verbatim>\<open>if( historyTaskList_[i]->owner() != userId ) continue;\<close>\<close>

definition if_owner :: "bytes \<Rightarrow> (int \<Rightarrow> (cmd_mngr, 'a) meth) \<Rightarrow> int \<Rightarrow> (cmd_mngr, unit) meth" where
  "if_owner u m i = bindS (task_at i) (\<lambda>t.
     if task_owner t \<noteq> u then returnS () else bindS (m i) (\<lambda>r. returnS ()))"

definition setAllowPainterToDraw :: "bytes \<Rightarrow> bool \<Rightarrow> (cmd_mngr, unit) meth" where
  "setAllowPainterToDraw u enabled s =
     (if enabled = isAllowPainterToDraw u s then (Inr (), s)
      else if enabled
      then loopS (if_owner u task_execute) [0..cm_currentPlayPos s]
             (s\<lparr>cm_allowPainters := insert u (cm_allowPainters s)\<rparr>)
      else loopS (if_owner u task_rollback) (rev [0..cm_currentPlayPos s])
             (s\<lparr>cm_allowPainters := cm_allowPainters s - {u}\<rparr>))"

section \<open>Commands\<close>

definition do_task :: "item_ptr \<Rightarrow> task_body \<Rightarrow> (cmd_mngr, bool) meth" where
  "do_task p b = executeTask (new_task True (fst p) (snd p) b) True"

fun command_execute :: "CSharedPaintCommand \<Rightarrow> (cmd_mngr, bool) meth" where
  "command_execute (AddItemCommand p) = do_task p AddItem"
| "command_execute (RemoveItemCommand p) = do_task p RemoveItem"
| "command_execute (UpdateItemCommand p prev d) = do_task p (UpdateItem prev d)"
| "command_execute (MoveItemCommand p px py x y) = do_task p (MoveItem px py x y)"

fun command_undo :: "CSharedPaintCommand \<Rightarrow> (cmd_mngr, bool) meth" where
  "command_undo (AddItemCommand p) = do_task p RemoveItem"
| "command_undo (RemoveItemCommand p) = do_task p AddItem"
| "command_undo (UpdateItemCommand p prev d) = do_task p (UpdateItem prev d)"
| "command_undo (MoveItemCommand p px py x y) = do_task p (MoveItem px py x y)"

definition executeCommand :: "CSharedPaintCommand \<Rightarrow> (cmd_mngr, bool) meth" where
  "executeCommand c = bindS (command_execute c) (\<lambda>ret s.
     (Inr ret, if ret then s\<lparr>cm_commandList := c # cm_commandList s, cm_redoCommandList := []\<rparr> else s))"

definition redoCommand :: "(cmd_mngr, bool) meth" where
  "redoCommand s = (case cm_redoCommandList s of
       [] \<Rightarrow> (Inr False, s)
     | c # cs \<Rightarrow> bindS (command_execute c) (\<lambda>ret s'.
         (Inr ret, if ret then s'\<lparr>cm_commandList := c # cm_commandList s',
                                 cm_redoCommandList := List.tl (cm_redoCommandList s')\<rparr> else s')) s)"

definition undoCommand :: "(cmd_mngr, bool) meth" where
  "undoCommand s = (case cm_commandList s of
       [] \<Rightarrow> (Inr False, s)
     | c # cs \<Rightarrow> bindS (command_undo c) (\<lambda>ret s'.
         (Inr ret, if ret then s'\<lparr>cm_redoCommandList := c # cm_redoCommandList s',
                                 cm_commandList := List.tl (cm_commandList s')\<rparr> else s')) s)"

text \<open>
  \<^verbatim>\<open>CSharedPaintManager::addPaintItem\<close> on the history: a new id, the packet that creates the item
  elsewhere, the item's entry and the command.  The packet is the argument \<open>create\<close>.
\<close>

definition addPaintItem ::
  "bool \<Rightarrow> (CPaintItem \<Rightarrow> bytes result) \<Rightarrow> CPaintItem \<Rightarrow> (cmd_mngr, bool) meth" where
  "addPaintItem enabled create it s =
     (if \<not> enabled then (Inr False, s)
      else let it' = setItemId (generateItemId s) it in
        case create it' of
          Inl e \<Rightarrow> (Inl e, s)
        | Inr msg \<Rightarrow> executeCommand (new_AddItemCommand it')
            (addHistoryItem it' (fire (SendDataToUsers msg) s)))"

section \<open>The items as a map\<close>

text \<open>
  What the clients of the item lists rely on: a lookup finds what was added, an item that is
  there is not replaced, and the number of items counts the keys.
\<close>

locale item_store =
  fixes lookup :: "'s \<Rightarrow> 'k \<Rightarrow> 'v option" and add :: "'v \<Rightarrow> 's \<Rightarrow> 's" and key :: "'v \<Rightarrow> 'k"
    and inv :: "'s \<Rightarrow> bool" and count :: "'s \<Rightarrow> nat"
  assumes lookup_add: "lookup (add v s) k = (if k = key v \<and> lookup s k = None then Some v else lookup s k)"
    and inv_add: "inv s \<Longrightarrow> inv (add v s)"
    and count_keys: "inv s \<Longrightarrow> count s = card {k. lookup s k \<noteq> None}"
    and finite_keys: "inv s \<Longrightarrow> finite {k. lookup s k \<noteq> None}"
begin

definition add_all :: "'v list \<Rightarrow> 's \<Rightarrow> 's" where
  "add_all vs s = fold add vs s"

lemma add_all_Cons: "add_all (v # vs) s = add_all vs (add v s)"
  by (simp add: add_all_def)

lemma lookup_stays: "lookup s k = Some v \<Longrightarrow> lookup (add_all vs s) k = Some v"
proof (induction vs arbitrary: s)
  case Nil
  then show ?case by (simp add: add_all_def)
next
  case (Cons w vs)
  then have "lookup (add w s) k = Some v" by (simp add: lookup_add)
  with Cons.IH show ?case by (simp add: add_all_Cons)
qed

lemma lookup_first:
  "lookup s k = None \<Longrightarrow> lookup (add_all vs s) k = find (\<lambda>v. key v = k) vs"
proof (induction vs arbitrary: s)
  case Nil
  then show ?case by (simp add: add_all_def)
next
  case (Cons w vs)
  show ?case
  proof (cases "key w = k")
    case True
    with Cons.prems have "lookup (add w s) k = Some w" by (simp add: lookup_add)
    with True show ?thesis by (simp add: add_all_Cons lookup_stays)
  next
    case False
    with Cons.prems have "lookup (add w s) k = None" by (auto simp: lookup_add)
    with False Cons.IH show ?thesis by (simp add: add_all_Cons)
  qed
qed

lemma count_add:
  assumes "inv s"
  shows "count (add v s) = (if lookup s (key v) = None then Suc (count s) else count s)"
proof -
  have "{k. lookup (add v s) k \<noteq> None} = insert (key v) {k. lookup s k \<noteq> None}"
    by (auto simp: lookup_add)
  with assms show ?thesis
    by (simp add: count_keys inv_add finite_keys card_insert_if del: not_None_eq)
qed

lemma inv_add_all: "inv s \<Longrightarrow> inv (add_all vs s)"
  by (induction vs arbitrary: s) (simp_all add: add_all_def inv_add)

lemma count_add_all_distinct:
  "inv s \<Longrightarrow> \<forall>v\<in>set vs. lookup s (key v) = None \<Longrightarrow> distinct (map key vs) \<Longrightarrow>
   count (add_all vs s) = count s + length vs"
proof (induction vs arbitrary: s)
  case Nil
  then show ?case by (simp add: add_all_def)
next
  case (Cons w vs)
  have "\<forall>v\<in>set vs. lookup (add w s) (key v) = None"
    using Cons.prems by (auto simp: lookup_add) (metis imageI)
  with Cons show ?case by (simp add: add_all_Cons inv_add count_add)
qed

end

definition item_at :: "cmd_mngr \<Rightarrow> item_ptr \<Rightarrow> CPaintItem option" where
  "item_at s p = findItem (fst p) (snd p) s"

text \<open>The set of all items and the lists of the users hold the same items.\<close>

definition items_ok :: "cmd_mngr \<Rightarrow> bool" where
  "items_ok s \<longleftrightarrow> finite (cm_historyItemSet s) \<and> (\<forall>p. p \<in> cm_historyItemSet s \<longleftrightarrow> item_at s p \<noteq> None)"

lemmas item_defs = item_at_def findItem_def findItemList_def list_findItem_def

lemma item_at_fire [simp]: "item_at (fire e s) = item_at s"
  by (simp add: fun_eq_iff item_defs fire_def)

lemma item_at_addHistoryItem:
  "item_at (addHistoryItem it s) p = (if p = ptr_of it \<and> item_at s p = None then Some it else item_at s p)"
  by (cases p) (auto simp: addHistoryItem_def Let_def list_addItem_def new_item_list_def ptr_of_def
      item_defs fire_def split: option.splits)

lemma historyItemSet_addHistoryItem:
  "cm_historyItemSet (addHistoryItem it s) =
    (if item_at s (ptr_of it) = None then insert (ptr_of it) (cm_historyItemSet s) else cm_historyItemSet s)"
  by (auto simp: addHistoryItem_def Let_def list_addItem_def new_item_list_def ptr_of_def
      item_defs fire_def split: option.splits)

lemma items_ok_addHistoryItem: "items_ok s \<Longrightarrow> items_ok (addHistoryItem it s)"
  by (auto simp: items_ok_def historyItemSet_addHistoryItem item_at_addHistoryItem)

interpretation history: item_store item_at addHistoryItem ptr_of items_ok historyItemCount
proof unfold_locales
  fix s assume "items_ok s"
  then have "{p. item_at s p \<noteq> None} = cm_historyItemSet s" and "finite (cm_historyItemSet s)"
    by (auto simp: items_ok_def)
  then show "historyItemCount s = card {p. item_at s p \<noteq> None}" and "finite {p. item_at s p \<noteq> None}"
    by (simp_all add: historyItemCount_def)
qed (simp_all add: item_at_addHistoryItem items_ok_addHistoryItem)

section \<open>What the observers see\<close>

text \<open>
  An observer that draws keeps the items it shows and where it has moved them; the data of the
  items is in the history.  \<open>view_of\<close> is both, and \<open>perform\<close> and \<open>unperform\<close> are what
  executing a task and rolling it back mean for it.
\<close>

record screen =
  sc_visible :: "item_ptr set"
  sc_pos :: "item_ptr \<Rightarrow> double \<times> double"

definition blank :: screen where
  "blank = \<lparr>sc_visible = {}, sc_pos = (\<lambda>p. (0, 0))\<rparr>"

fun draw :: "event \<Rightarrow> screen \<Rightarrow> screen" where
  "draw (AddPaintItem p) sc = sc\<lparr>sc_visible := insert p (sc_visible sc)\<rparr>"
| "draw (RemovePaintItem p) sc = sc\<lparr>sc_visible := sc_visible sc - {p}\<rparr>"
| "draw (MovePaintItem p x y) sc = sc\<lparr>sc_pos := (sc_pos sc)(p := (x, y))\<rparr>"
| "draw e sc = sc"

type_synonym view = "screen \<times> (item_ptr \<Rightarrow> SPaintData option)"

definition item_data :: "cmd_mngr \<Rightarrow> item_ptr \<Rightarrow> SPaintData option" where
  "item_data s p = map_option it_data (item_at s p)"

definition view_of :: "cmd_mngr \<Rightarrow> view" where
  "view_of s = (fold draw (cm_events s) blank, item_data s)"

definition task_ptr :: "CSharedPaintTask \<Rightarrow> item_ptr" where
  "task_ptr t = (task_owner t, task_itemId t)"

definition perform :: "CSharedPaintTask \<Rightarrow> view \<Rightarrow> view" where
  "perform t v = (let p = task_ptr t in
     if snd v p = None then v else
     case tk_body t of
       AddItem \<Rightarrow> (draw (AddPaintItem p) (fst v), snd v)
     | RemoveItem \<Rightarrow> (draw (RemovePaintItem p) (fst v), snd v)
     | UpdateItem prev d \<Rightarrow> (fst v, (snd v)(p \<mapsto> d))
     | MoveItem px py x y \<Rightarrow> (draw (MovePaintItem p x y) (fst v), snd v))"

definition unperform :: "CSharedPaintTask \<Rightarrow> view \<Rightarrow> view" where
  "unperform t v = (let p = task_ptr t in
     if snd v p = None then v else
     case tk_body t of
       AddItem \<Rightarrow> (draw (RemovePaintItem p) (fst v), snd v)
     | RemoveItem \<Rightarrow> (draw (AddPaintItem p) (fst v), snd v)
     | UpdateItem prev d \<Rightarrow> (fst v, (snd v)(p \<mapsto> prev))
     | MoveItem px py x y \<Rightarrow> (draw (MovePaintItem p px py) (fst v), snd v))"

text \<open>A task fits a view when what it says of the item before is so.\<close>

definition fits :: "CSharedPaintTask \<Rightarrow> view \<Rightarrow> bool" where
  "fits t v \<longleftrightarrow> (let p = task_ptr t in
     case tk_body t of
       AddItem \<Rightarrow> p \<notin> sc_visible (fst v)
     | RemoveItem \<Rightarrow> p \<in> sc_visible (fst v)
     | UpdateItem prev d \<Rightarrow> snd v p = None \<or> snd v p = Some prev
     | MoveItem px py x y \<Rightarrow> sc_pos (fst v) p = (px, py))"

locale undoable =
  fixes exec :: "'t \<Rightarrow> 'v \<Rightarrow> 'v" and unexec :: "'t \<Rightarrow> 'v \<Rightarrow> 'v" and can :: "'t \<Rightarrow> 'v \<Rightarrow> bool"
  assumes unexec_exec: "can t v \<Longrightarrow> unexec t (exec t v) = v"
begin

primrec can_all :: "'t list \<Rightarrow> 'v \<Rightarrow> bool" where
  "can_all [] v = True"
| "can_all (t # ts) v = (can t v \<and> can_all ts (exec t v))"

lemma can_all_append: "can_all (as @ bs) v \<longleftrightarrow> can_all as v \<and> can_all bs (fold exec as v)"
  by (induction as arbitrary: v) simp_all

lemma unexec_all: "can_all ts v \<Longrightarrow> fold unexec (rev ts) (fold exec ts v) = v"
  by (induction ts arbitrary: v) (simp_all add: unexec_exec)

lemma back_to_prefix:
  "can_all (as @ bs) v \<Longrightarrow> fold unexec (rev bs) (fold exec (as @ bs) v) = fold exec as v"
  by (simp add: can_all_append unexec_all)

end

lemma sc_pos_same: "sc_pos a p = q \<Longrightarrow> a\<lparr>sc_pos := (sc_pos a)(p := q)\<rparr> = a"
  by (cases a) auto

interpretation tasks: undoable perform unperform fits
proof
  fix t and v :: view assume "fits t v"
  then show "unperform t (perform t v) = v"
    by (cases v; cases "tk_body t")
      (auto simp: fits_def perform_def unperform_def Let_def insert_absorb sc_pos_same)
qed

text \<open>Each task of the list fits the view that the tasks before it have made.\<close>

primrec replayable :: "CSharedPaintTask list \<Rightarrow> view \<Rightarrow> bool" where
  "replayable [] v = True"
| "replayable (t # ts) v = (fits t v \<and> replayable ts (perform t v))"

lemma replayable_can_all: "replayable ts v = tasks.can_all ts v"
  by (induction ts arbitrary: v) simp_all

section \<open>Single steps\<close>

definition sendable :: "CSharedPaintTask \<Rightarrow> bool" where
  "sendable t \<longleftrightarrow> (\<not> tk_sendData t \<or> (\<exists>w. make_ExecuteTask t None = Inr w))"

definition plain :: "cmd_mngr \<Rightarrow> CSharedPaintTask list" where
  "plain s = map (setSendData False) (cm_historyTaskList s)"

text \<open>What executing and rolling back tasks leaves alone.\<close>

definition kept :: "cmd_mngr \<Rightarrow> CSharedPaintTask list \<times> bytes set \<times> int
    \<times> CSharedPaintCommand list \<times> CSharedPaintCommand list \<times> item_ptr set" where
  "kept s = (plain s, cm_allowPainters s, cm_currentPlayPos s, cm_commandList s,
     cm_redoCommandList s, cm_historyItemSet s)"

definition all_sendable :: "cmd_mngr \<Rightarrow> bool" where
  "all_sendable s \<longleftrightarrow> (\<forall>t \<in> set (cm_historyTaskList s). sendable t)"

lemma setSendData_simps [simp]:
  "task_owner (setSendData b t) = task_owner t" "task_itemId (setSendData b t) = task_itemId t"
  "tk_body (setSendData b t) = tk_body t" "task_ptr (setSendData b t) = task_ptr t"
  "tk_sendData (setSendData b t) = b" "setSendData b (setSendData c t) = setSendData b t"
  "perform (setSendData b t) = perform t" "unperform (setSendData b t) = unperform t"
  "make_ExecuteTask (setSendData b t) = make_ExecuteTask t"
  by (simp_all add: setSendData_def task_owner_def task_itemId_def task_ptr_def perform_def unperform_def
      make_ExecuteTask_def serialize_task_def task_type_def fun_eq_iff Let_def cong: if_cong)

lemma setSendData_same: "\<not> tk_sendData t \<Longrightarrow> setSendData False t = t"
  by (simp add: setSendData_def)

lemma item_at_setItemData:
  "item_at (setItemData p d s) q = (if q = p then map_option (setData d) (item_at s p) else item_at s q)"
  by (cases p; cases q) (auto simp: setItemData_def item_defs split: option.splits)

lemma view_of_execute_body: "view_of (execute_body t s) = perform t (view_of s)"
proof (cases "item_at s (task_ptr t)")
  case None
  then show ?thesis by (simp add: execute_body_def perform_def view_of_def item_data_def task_ptr_def
        item_at_def Let_def)
next
  case (Some it)
  then have "findItem (task_owner t) (task_itemId t) s = Some it"
    by (simp add: item_at_def task_ptr_def)
  with Some show ?thesis
    by (cases "tk_body t")
      (auto simp: execute_body_def perform_def view_of_def item_data_def task_ptr_def Let_def fun_eq_iff
        item_at_setItemData setData_def fire_def setItemData_def item_at_def findItem_def findItemList_def
        list_findItem_def split: option.splits)
qed

lemma view_of_rollback_body: "view_of (rollback_body t s) = unperform t (view_of s)"
proof (cases "item_at s (task_ptr t)")
  case None
  then show ?thesis by (simp add: rollback_body_def unperform_def view_of_def item_data_def task_ptr_def
        item_at_def Let_def)
next
  case (Some it)
  then have "findItem (task_owner t) (task_itemId t) s = Some it"
    by (simp add: item_at_def task_ptr_def)
  with Some show ?thesis
    by (cases "tk_body t")
      (auto simp: rollback_body_def unperform_def view_of_def item_data_def task_ptr_def Let_def fun_eq_iff
        item_at_setItemData setData_def fire_def setItemData_def item_at_def findItem_def findItemList_def
        list_findItem_def split: option.splits)
qed

lemma bodies_keep [simp]:
  "kept (execute_body t s) = kept s" "kept (rollback_body t s) = kept s"
  "cm_historyTaskList (execute_body t s) = cm_historyTaskList s"
  "cm_historyTaskList (rollback_body t s) = cm_historyTaskList s"
  by (auto simp: execute_body_def rollback_body_def kept_def plain_def fire_def setItemData_def Let_def
      split: option.splits task_body.splits)


lemma plain_nth: "i < length (cm_historyTaskList s) \<Longrightarrow> plain s ! i = setSendData False (cm_historyTaskList s ! i)"
  by (simp add: plain_def)

lemma kept_plain: "kept s' = kept s \<Longrightarrow> plain s' = plain s"
  "kept s' = kept s \<Longrightarrow> length (cm_historyTaskList s') = length (cm_historyTaskList s)"
  "kept s' = kept s \<Longrightarrow> cm_allowPainters s' = cm_allowPainters s"
  "kept s' = kept s \<Longrightarrow> cm_currentPlayPos s' = cm_currentPlayPos s"
proof -
  assume k: "kept s' = kept s"
  then show *: "plain s' = plain s" by (simp add: kept_def)
  from arg_cong [OF *, of length]
  show "length (cm_historyTaskList s') = length (cm_historyTaskList s)" by (simp add: plain_def)
  from k show "cm_allowPainters s' = cm_allowPainters s" "cm_currentPlayPos s' = cm_currentPlayPos s"
    by (simp_all add: kept_def)
qed

lemma sendable_plain: "sendable (setSendData False t)"
  by (simp add: sendable_def)

text \<open>Sending changes nothing but the flag of the task and what has been sent.\<close>

lemma sendPacket_step:
  assumes "n < length (cm_historyTaskList s)" and "cm_historyTaskList s ! n = t" and "all_sendable s"
  obtains s' where "sendPacket (int n) t s = (Inr (), s')" and "kept s' = kept s"
    and "all_sendable s'" and "view_of s' = view_of s"
proof (cases "tk_sendData t")
  case False
  then show ?thesis using that [of s] assms(3) by (simp add: sendPacket_def)
next
  case True
  have "sendable t" using assms by (auto simp: all_sendable_def)
  with True obtain w where w: "make_ExecuteTask t None = Inr w" by (auto simp: sendable_def)
  let ?s' = "(fire (SendDataToUsers w) s)
    \<lparr>cm_historyTaskList := (cm_historyTaskList s)[n := setSendData False t]\<rparr>"
  have "kept ?s' = kept s"
    using assms(1,2) by (simp add: kept_def plain_def fire_def map_update list_update_same_conv)
  moreover have "all_sendable ?s'"
    using assms(3) by (auto simp: all_sendable_def sendable_plain dest!: set_update_subset_insert [THEN subsetD])
  moreover have "view_of ?s' = view_of s"
    by (simp add: view_of_def fire_def item_data_def item_defs fun_eq_iff)
  ultimately show ?thesis using that [of ?s'] True w by (simp add: sendPacket_def)
qed

lemma task_at_in: "n < length (cm_historyTaskList s) \<Longrightarrow> task_at (int n) s = (Inr (cm_historyTaskList s ! n), s)"
  by (simp add: task_at_def)

text \<open>
  A step at a position of the history has the effect \<open>f\<close>: it succeeds, keeps what is kept, and
  changes the view as \<open>f\<close> of the task says.
\<close>

definition acts :: "(CSharedPaintTask \<Rightarrow> view \<Rightarrow> view) \<Rightarrow> (int \<Rightarrow> (cmd_mngr, 'a) meth) \<Rightarrow> bool" where
  "acts f m \<longleftrightarrow> (\<forall>s n. n < length (cm_historyTaskList s) \<longrightarrow> all_sendable s \<longrightarrow>
     (\<exists>r s'. m (int n) s = (Inr r, s') \<and> kept s' = kept s \<and> all_sendable s'
        \<and> view_of s' = f (plain s ! n) (view_of s)))"

lemma acts_execute: "acts perform task_execute"
  unfolding acts_def
proof (intro allI impI)
  fix s n assume n: "n < length (cm_historyTaskList s)" and a: "all_sendable s"
  let ?t = "cm_historyTaskList s ! n"
  obtain s1 where s1: "sendPacket (int n) ?t s = (Inr (), s1)" "kept s1 = kept s" "all_sendable s1"
    "view_of s1 = view_of s"
    by (rule sendPacket_step [OF n refl a])
  have "task_execute (int n) s = (Inr True, execute_body ?t s1)"
    by (simp add: task_execute_def bindS_def task_at_in [OF n] s1(1))
  moreover have "all_sendable (execute_body ?t s1)"
    using s1(3) by (simp add: all_sendable_def)
  ultimately show "\<exists>r s'. task_execute (int n) s = (Inr r, s') \<and> kept s' = kept s \<and> all_sendable s'
      \<and> view_of s' = perform (plain s ! n) (view_of s)"
    using s1(2,4) n by (auto simp: view_of_execute_body plain_nth)
qed

lemma acts_rollback: "acts unperform task_rollback"
  unfolding acts_def
  by (auto simp: task_rollback_def bindS_def task_at_in view_of_rollback_body plain_nth all_sendable_def)

lemma acts_if_allowed:
  assumes "acts f m"
  shows "n < length (cm_historyTaskList s) \<Longrightarrow> all_sendable s \<Longrightarrow>
    \<exists>s'. if_allowed m (int n) s = (Inr (), s') \<and> kept s' = kept s \<and> all_sendable s'
      \<and> view_of s' = (if task_owner (plain s ! n) \<in> cm_allowPainters s
                       then f (plain s ! n) (view_of s) else view_of s)"
proof -
  assume n: "n < length (cm_historyTaskList s)" and a: "all_sendable s"
  from assms n a obtain r s' where "m (int n) s = (Inr r, s')" "kept s' = kept s" "all_sendable s'"
    "view_of s' = f (plain s ! n) (view_of s)"
    unfolding acts_def by blast
  with n a show ?thesis
    by (simp add: if_allowed_def bindS_def task_at_in isAllowPainterToDraw_def plain_nth)
qed

definition allowed_tasks :: "cmd_mngr \<Rightarrow> CSharedPaintTask list \<Rightarrow> CSharedPaintTask list" where
  "allowed_tasks s ts = filter (\<lambda>t. task_owner t \<in> cm_allowPainters s) ts"

lemma loop_acts:
  assumes m: "acts f m"
  shows "\<forall>n\<in>set ns. n < length (cm_historyTaskList s) \<Longrightarrow> all_sendable s \<Longrightarrow>
    \<exists>s' rs. mapS (if_allowed m) (map int ns) s = (Inr rs, s') \<and> kept s' = kept s \<and> all_sendable s'
      \<and> view_of s' = fold f (allowed_tasks s (map (\<lambda>n. plain s ! n) ns)) (view_of s)"
proof (induction ns arbitrary: s)
  case Nil
  then show ?case by (simp add: allowed_tasks_def)
next
  case (Cons n ns)
  from acts_if_allowed [OF m, of n s] Cons.prems obtain s1 where
    s1: "if_allowed m (int n) s = (Inr (), s1)" "kept s1 = kept s" "all_sendable s1"
      "view_of s1 = (if task_owner (plain s ! n) \<in> cm_allowPainters s
                       then f (plain s ! n) (view_of s) else view_of s)"
    by auto
  note k = kept_plain [OF s1(2)]
  from Cons.IH [of s1] Cons.prems(1) s1(3) obtain s' rs where
    s': "mapS (if_allowed m) (map int ns) s1 = (Inr rs, s')" "kept s' = kept s1" "all_sendable s'"
      "view_of s' = fold f (allowed_tasks s1 (map (\<lambda>n. plain s1 ! n) ns)) (view_of s1)"
    by (auto simp: k)
  show ?case
    using s1 s' k by (auto simp: bindS_def allowed_tasks_def)
qed

section \<open>Playback\<close>

lemma nth_interval:
  "b \<le> length xs \<Longrightarrow> map (\<lambda>n. xs ! n) [a..<b] = drop a (take b xs)"
  by (rule nth_equalityI) auto

lemma upto_int: "- 1 \<le> a \<Longrightarrow> [a + 1..b] = map int [nat (a + 1)..<nat (b + 1)]"
  by (rule nth_equalityI) auto

lemma loopS_eq: "mapS f xs s = (Inr vals, s') \<Longrightarrow> loopS f xs s = (Inr (), s')"
  by (simp add: loopS_def bindS_def)

lemma loop_interval:
  assumes "acts f m" and "- 1 \<le> a" and "b < int (length (cm_historyTaskList s))" and "all_sendable s"
  shows "\<exists>s'. loopS (if_allowed m) [a + 1..b] s = (Inr (), s') \<and> kept s' = kept s \<and> all_sendable s'
    \<and> view_of s' = fold f (allowed_tasks s (drop (nat (a + 1)) (take (nat (b + 1)) (plain s)))) (view_of s)"
    and "\<exists>s'. loopS (if_allowed m) (rev [a + 1..b]) s = (Inr (), s') \<and> kept s' = kept s \<and> all_sendable s'
    \<and> view_of s' = fold f (allowed_tasks s (rev (drop (nat (a + 1)) (take (nat (b + 1)) (plain s))))) (view_of s)"
proof -
  let ?ns = "[nat (a + 1)..<nat (b + 1)]"
  have len: "nat (b + 1) \<le> length (plain s)" using assms(3) by (auto simp: plain_def)
  note eqs = upto_int [OF assms(2)] nth_interval [OF len]
  have inside: "\<forall>n\<in>set ?ns. n < length (cm_historyTaskList s)" using assms(3) by auto
  from loop_acts [OF assms(1) inside assms(4)]
  show "\<exists>s'. loopS (if_allowed m) [a + 1..b] s = (Inr (), s') \<and> kept s' = kept s \<and> all_sendable s'
    \<and> view_of s' = fold f (allowed_tasks s (drop (nat (a + 1)) (take (nat (b + 1)) (plain s)))) (view_of s)"
    unfolding eqs by (blast dest: loopS_eq)
  from inside have "\<forall>n\<in>set (rev ?ns). n < length (cm_historyTaskList s)" by simp
  from loop_acts [OF assms(1) this assms(4)]
  show "\<exists>s'. loopS (if_allowed m) (rev [a + 1..b]) s = (Inr (), s') \<and> kept s' = kept s \<and> all_sendable s'
    \<and> view_of s' = fold f (allowed_tasks s (rev (drop (nat (a + 1)) (take (nat (b + 1)) (plain s))))) (view_of s)"
    unfolding upto_int [OF assms(2)] rev_map [symmetric] eqs(2) [symmetric] by (blast dest: loopS_eq)
qed

lemma allowed_tasks_simps:
  "allowed_tasks s (as @ bs) = allowed_tasks s as @ allowed_tasks s bs"
  "allowed_tasks s (rev as) = rev (allowed_tasks s as)"
  by (simp_all add: allowed_tasks_def rev_filter)

text \<open>The view that the first tasks of the history make, as far as their owners may draw.\<close>

definition replay :: "cmd_mngr \<Rightarrow> int \<Rightarrow> view \<Rightarrow> view" where
  "replay s p v = fold perform (allowed_tasks s (take (nat (p + 1)) (plain s))) v"

lemma take_split: "m \<le> n \<Longrightarrow> take n xs = take m xs @ drop m (take n xs)"
  by (metis append_take_drop_id min.absorb1 take_take)

lemma playforward_replay:
  assumes "- 1 \<le> a" "a < b" "b < int (length (cm_historyTaskList s))" "all_sendable s"
    and "view_of s = replay s a v"
  shows "\<exists>s'. playforwardTo a b s = (Inr (), s') \<and> kept s' = kept s \<and> view_of s' = replay s b v"
proof -
  from loop_interval(1) [OF acts_execute assms(1,3,4)] obtain s' where
    s': "loopS (if_allowed task_execute) [a + 1..b] s = (Inr (), s')" "kept s' = kept s"
      "view_of s' = fold perform (allowed_tasks s (drop (nat (a + 1)) (take (nat (b + 1)) (plain s)))) (view_of s)"
    by blast
  have "take (nat (b + 1)) (plain s)
      = take (nat (a + 1)) (plain s) @ drop (nat (a + 1)) (take (nat (b + 1)) (plain s))"
    using assms(2) by (intro take_split) simp
  then have "replay s b v = view_of s'"
    unfolding replay_def s'(3) assms(5) by (metis allowed_tasks_simps(1) fold_append o_apply)
  with s' assms(1-3) show ?thesis by (auto simp: playforwardTo_def)
qed

lemma playbackward_replay:
  assumes "- 1 \<le> b" "b \<le> a" "a < int (length (cm_historyTaskList s))" "all_sendable s"
    and v: "view_of s = replay s a v" and r: "replayable (allowed_tasks s (plain s)) v"
  shows "\<exists>s'. playbackwardTo a b s = (Inr (), s') \<and> kept s' = kept s \<and> view_of s' = replay s b v"
proof (cases "a < 0")
  case True
  with assms(1,2) have "b = a" by simp
  with True v show ?thesis by (auto simp: playbackwardTo_def)
next
  case False
  from loop_interval(2) [OF acts_rollback assms(1,3,4)] obtain s' where
    s': "loopS (if_allowed task_rollback) (rev [b + 1..a]) s = (Inr (), s')" "kept s' = kept s"
      "view_of s' = fold unperform (allowed_tasks s (rev (drop (nat (b + 1)) (take (nat (a + 1)) (plain s))))) (view_of s)"
    by blast
  let ?as = "allowed_tasks s (take (nat (b + 1)) (plain s))"
  let ?bs = "allowed_tasks s (drop (nat (b + 1)) (take (nat (a + 1)) (plain s)))"
  have "take (nat (a + 1)) (plain s)
      = take (nat (b + 1)) (plain s) @ drop (nat (b + 1)) (take (nat (a + 1)) (plain s))"
    using assms(2) by (intro take_split) simp
  then have ab: "allowed_tasks s (take (nat (a + 1)) (plain s)) = ?as @ ?bs"
    by (metis allowed_tasks_simps(1))
  have "allowed_tasks s (plain s) = (?as @ ?bs) @ allowed_tasks s (drop (nat (a + 1)) (plain s))"
    by (metis ab allowed_tasks_simps(1) append_take_drop_id)
  with r have "tasks.can_all (?as @ ?bs) v"
    by (metis replayable_can_all tasks.can_all_append)
  from tasks.back_to_prefix [OF this] have "view_of s' = replay s b v"
    by (simp add: s'(3) v replay_def ab allowed_tasks_simps(2))
  with s' False assms(1-3) show ?thesis by (auto simp: playbackwardTo_def)
qed

lemma replay_kept: "kept s' = kept s \<Longrightarrow> replay s' p v = replay s p v"
  by (simp add: replay_def allowed_tasks_def kept_def)

lemma playback_core:
  assumes "- 1 \<le> cm_currentPlayPos s" "cm_currentPlayPos s < int (length (cm_historyTaskList s))"
    and "- 1 \<le> p" "p < int (length (cm_historyTaskList s))" and "all_sendable s"
    and "replayable (allowed_tasks s (plain s)) v" and "view_of s = replay s (cm_currentPlayPos s) v"
  shows "\<exists>s'. playbackTo p s = (Inr (), s') \<and> cm_currentPlayPos s' = p \<and> view_of s' = replay s p v
    \<and> plain s' = plain s \<and> cm_allowPainters s' = cm_allowPainters s"
proof -
  have "\<exists>s'. (if cm_currentPlayPos s < p then playforwardTo (cm_currentPlayPos s) p
      else playbackwardTo (cm_currentPlayPos s) p) s = (Inr (), s') \<and> kept s' = kept s
      \<and> view_of s' = replay s p v"
    using playforward_replay [of "cm_currentPlayPos s" p s v] playbackward_replay [of p "cm_currentPlayPos s" s v]
      assms by auto
  then obtain s' where s': "(if cm_currentPlayPos s < p then playforwardTo (cm_currentPlayPos s) p
      else playbackwardTo (cm_currentPlayPos s) p) s = (Inr (), s')" "kept s' = kept s"
      "view_of s' = replay s p v" by blast
  let ?s = "s'\<lparr>cm_currentPlayPos := p\<rparr>"
  have "playbackTo p s = (Inr (), ?s)"
    unfolding playbackTo_def bindS_def s'(1) by simp
  moreover have "view_of ?s = view_of s'"
    by (simp add: view_of_def item_data_def item_defs fun_eq_iff)
  moreover have "plain ?s = plain s'" by (simp add: plain_def)
  ultimately show ?thesis using s'(2,3) kept_plain [OF s'(2)] by simp
qed

section \<open>Properties of the items\<close>

lemma items_ok_new: "items_ok new_cmd_mngr"
  by (simp add: items_ok_def new_cmd_mngr_def item_defs)

lemma item_at_new: "item_at new_cmd_mngr p = None"
  by (simp add: new_cmd_mngr_def item_defs)

text \<open>Looking an item up.  After any sequence of items has been added to the empty history,
  the lookup of an owner and an id finds the first item that was added with them, so an item is
  never replaced by a later one; every lookup that fails names an item that was not added; and
  when no two of the items have the same owner and id, all are counted.\<close>

lemma history_lookup:
  "item_at (fold addHistoryItem vs new_cmd_mngr) p = find (\<lambda>it. ptr_of it = p) vs
   \<and> (distinct (map ptr_of vs) \<longrightarrow> historyItemCount (fold addHistoryItem vs new_cmd_mngr) = length vs)"
proof -
  have fold: "fold addHistoryItem vs new_cmd_mngr = history.add_all vs new_cmd_mngr"
    by (simp add: history.add_all_def)
  have "historyItemCount new_cmd_mngr = 0" by (simp add: historyItemCount_def new_cmd_mngr_def)
  with history.count_add_all_distinct [OF items_ok_new, of vs]
  show ?thesis unfolding fold
    by (simp add: history.lookup_first [OF item_at_new] item_at_new)
qed

definition sample_item :: "bytes \<Rightarrow> 32 word \<Rightarrow> CPaintItem" where
  "sample_item ow i = setItemId i (setOwner ow (new_item (ImageContent [1])))"

lemma ptr_of_sample [simp]: "ptr_of (sample_item ow i) = (ow, i)"
  by (simp add: sample_item_def setItemId_def setOwner_def ptr_of_def)

lemma sample_data [simp]: "sp_owner (it_data (sample_item ow i)) = ow" "sp_itemId (it_data (sample_item ow i)) = i"
  by (simp_all add: sample_item_def setItemId_def setOwner_def)

text \<open>The ids of a user's own items are at most the number of all items.\<close>

definition own_ids_ok :: "bytes \<Rightarrow> cmd_mngr \<Rightarrow> bool" where
  "own_ids_ok me s \<longleftrightarrow> items_ok s \<and> (\<forall>i. item_at s (me, i) \<noteq> None \<longrightarrow> unat i \<le> historyItemCount s)"

lemma own_ids_ok_other:
  assumes "own_ids_ok me s" and "sp_owner (it_data it) \<noteq> me"
  shows "own_ids_ok me (addHistoryItem it s)"
  using assms history.count_add [of s it]
  by (auto simp: own_ids_ok_def items_ok_addHistoryItem item_at_addHistoryItem ptr_of_def)

lemma generateItemId_unat:
  "historyItemCount s + 1 < 2 ^ 32 \<Longrightarrow> unat (generateItemId s) = historyItemCount s + 1"
  by (simp add: generateItemId_def historyItemCount_def unat_of_nat take_bit_eq_mod
      flip: of_nat_Suc)

lemma generated_id_facts:
  assumes "own_ids_ok me s" and "historyItemCount s + 1 < 2 ^ 32" and "sp_owner (it_data it) = me"
  shows "item_at (addHistoryItem (setItemId (generateItemId s) it) s) (me, generateItemId s)
      = Some (setItemId (generateItemId s) it)"
    and "cm_events (addHistoryItem (setItemId (generateItemId s) it) s) = cm_events s"
    and "own_ids_ok me (addHistoryItem (setItemId (generateItemId s) it) s)"
    and "sp_owner (it_data other) \<noteq> me \<longrightarrow> own_ids_ok me (addHistoryItem other s)"
proof -
  let ?i = "generateItemId s" let ?it = "setItemId (generateItemId s) it"
  have p: "ptr_of ?it = (me, ?i)" using assms(3) by (simp add: ptr_of_def setItemId_def)
  have u: "unat ?i = historyItemCount s + 1" by (rule generateItemId_unat [OF assms(2)])
  have free: "item_at s (me, ?i) = None"
    using assms(1) u unfolding own_ids_ok_def by fastforce
  show "item_at (addHistoryItem ?it s) (me, ?i) = Some ?it"
    by (simp add: item_at_addHistoryItem p free)
  show "cm_events (addHistoryItem ?it s) = cm_events s"
    using free assms(3) by (auto simp: addHistoryItem_def Let_def list_addItem_def new_item_list_def item_defs
        setItemId_def split: option.splits)
  have "items_ok s" using assms(1) by (simp add: own_ids_ok_def)
  then have "historyItemCount (addHistoryItem ?it s) = historyItemCount s + 1"
    using history.count_add [of s ?it] p free by simp
  with assms(1) u show "own_ids_ok me (addHistoryItem ?it s)"
    by (auto simp: own_ids_ok_def items_ok_addHistoryItem item_at_addHistoryItem p)
  show "sp_owner (it_data other) \<noteq> me \<longrightarrow> own_ids_ok me (addHistoryItem other s)"
    using own_ids_ok_other [OF assms(1)] by blast
qed

text \<open>The ids are fresh.  While the ids of a user's own items are at most the number of items
  in the history and fewer than \<open>2^32 - 1\<close> items are there, the id \<^verbatim>\<open>generateItemId\<close> gives for
  the next one of the user's items is not taken: the item is stored and found, no error is
  reported, and the ids stay so; they also stay so when another user's item arrives.\<close>

lemma generated_id_fresh:
  assumes "own_ids_ok me s" and "historyItemCount s + 1 < 2 ^ 32" and "sp_owner (it_data it) = me"
  shows "let it' = setItemId (generateItemId s) it; s' = addHistoryItem it' s in
     item_at s' (me, generateItemId s) = Some it' \<and> cm_events s' = cm_events s \<and> own_ids_ok me s'
     \<and> (\<forall>other. sp_owner (it_data other) \<noteq> me \<longrightarrow> own_ids_ok me (addHistoryItem other s))"
  unfolding Let_def using generated_id_facts [OF assms] by blast

section \<open>Properties of the playback\<close>


text \<open>A history of one painter that adds an item and moves it.\<close>

definition sample_tasks :: "CSharedPaintTask list" where
  "sample_tasks = [new_task False [7] 1 AddItem, new_task False [7] 1 (MoveItem 0 0 5 6)]"

definition sample_mngr :: cmd_mngr where
  "sample_mngr = (addHistoryItem (sample_item [7] 1) (addPainter [7] new_cmd_mngr))
     \<lparr>cm_historyTaskList := sample_tasks, cm_currentPlayPos := 1,
      cm_events := [AddPaintItem ([7], 1), MovePaintItem ([7], 1) 5 6]\<rparr>"

lemma sample_mngr_item: "item_at sample_mngr p = (if p = ([7], 1) then Some (sample_item [7] 1) else None)"
proof -
  have "item_at sample_mngr p = item_at (addHistoryItem (sample_item [7] 1) (addPainter [7] new_cmd_mngr)) p"
    by (simp add: sample_mngr_def item_defs)
  moreover have "item_at (addPainter [7] new_cmd_mngr) p = None"
    by (simp add: addPainter_def new_cmd_mngr_def item_defs)
  ultimately show ?thesis by (simp add: item_at_addHistoryItem)
qed

lemma sample_mngr_facts:
  "cm_currentPlayPos sample_mngr = 1" "historyTaskCount sample_mngr = 2" "all_sendable sample_mngr"
  "plain sample_mngr = sample_tasks" "allowed_tasks sample_mngr sample_tasks = sample_tasks"
  by (simp_all add: sample_mngr_def historyTaskCount_def sample_tasks_def all_sendable_def sendable_def
      new_task_def plain_def setSendData_def allowed_tasks_def task_owner_def addHistoryItem_def Let_def
      addPainter_def new_cmd_mngr_def list_addItem_def new_item_list_def)

lemma sample_allowed: "cm_allowPainters sample_mngr = {[7]}"
  by (simp add: sample_mngr_def addHistoryItem_def Let_def addPainter_def new_cmd_mngr_def list_addItem_def
      new_item_list_def)

lemma sample_mngr_view:
  "view_of sample_mngr = replay sample_mngr 1 (blank, item_data sample_mngr)"
  "replayable sample_tasks (blank, item_data sample_mngr)"
proof -
  have d: "item_data sample_mngr ([7], 1) \<noteq> None" by (simp add: item_data_def sample_mngr_item)
  have e: "cm_events sample_mngr = [AddPaintItem ([7], 1), MovePaintItem ([7], 1) 5 6]"
    by (simp add: sample_mngr_def)
  show "view_of sample_mngr = replay sample_mngr 1 (blank, item_data sample_mngr)"
    using d by (simp add: view_of_def replay_def e sample_mngr_facts(4)) (auto simp: sample_tasks_def
        allowed_tasks_def sample_allowed perform_def Let_def task_ptr_def task_owner_def task_itemId_def new_task_def)
  show "replayable sample_tasks (blank, item_data sample_mngr)"
    using d by (simp add: sample_tasks_def fits_def perform_def Let_def task_ptr_def task_owner_def
        task_itemId_def new_task_def blank_def)
qed


section \<open>Executing tasks outside and inside the playback\<close>

definition sent :: "cmd_mngr \<Rightarrow> bytes list" where
  "sent s = concat (map (\<lambda>e. case e of SendDataToUsers w \<Rightarrow> [w] | _ \<Rightarrow> []) (cm_events s))"

lemma sent_fire: "sent (fire e s) = sent s @ (case e of SendDataToUsers w \<Rightarrow> [w] | _ \<Rightarrow> [])"
  by (simp add: sent_def fire_def)

lemma sent_bodies [simp]: "sent (execute_body t s) = sent s" "sent (rollback_body t s) = sent s"
  by (auto simp: execute_body_def rollback_body_def Let_def sent_def fire_def setItemData_def
      split: option.splits task_body.splits)

lemma sent_tasks [simp]: "sent (s\<lparr>cm_historyTaskList := ts\<rparr>) = sent s"
  by (simp add: sent_def)

lemma task_execute_sends:
  assumes "n < length (cm_historyTaskList s)" and "cm_historyTaskList s ! n = t" and "tk_sendData t"
    and "make_ExecuteTask t None = Inr w"
  shows "task_execute (int n) s = (Inr True, execute_body t ((fire (SendDataToUsers w) s)
    \<lparr>cm_historyTaskList := (cm_historyTaskList s)[n := setSendData False t]\<rparr>))"
  using assms by (simp add: task_execute_def bindS_def task_at_in sendPacket_def)

lemma task_execute_silent:
  assumes "n < length (cm_historyTaskList s)" and "\<not> tk_sendData (cm_historyTaskList s ! n)"
  shows "task_execute (int n) s = (Inr True, execute_body (cm_historyTaskList s ! n) s)"
  using assms by (simp add: task_execute_def bindS_def task_at_in sendPacket_def)

lemma view_of_updates [simp]:
  "view_of (s\<lparr>cm_historyTaskList := ts\<rparr>) = view_of s"
  "view_of (s\<lparr>cm_currentPlayPos := q\<rparr>) = view_of s"
  "view_of (s\<lparr>cm_commandList := cs, cm_redoCommandList := ds\<rparr>) = view_of s"
  "view_of (s\<lparr>cm_redoCommandList := ds, cm_commandList := cs\<rparr>) = view_of s"
  "view_of (fire (AddTask n b) s) = view_of s"
  "view_of (fire (SendDataToUsers w) s) = view_of s"
  by (simp_all add: view_of_def item_data_def item_defs fire_def fun_eq_iff)

lemma push_task_simps:
  "cm_historyTaskList (push_task t b s) = cm_historyTaskList s @ [setSendData b t]"
  "view_of (push_task t b s) = view_of s" "sent (push_task t b s) = sent s"
  "cm_allowPainters (push_task t b s) = cm_allowPainters s"
  "cm_commandList (push_task t b s) = cm_commandList s"
  "cm_redoCommandList (push_task t b s) = cm_redoCommandList s"
  "cm_historyItemSet (push_task t b s) = cm_historyItemSet s"
  "cm_currentPlayPos (push_task t b s)
    = (if isPlaybackMode s then cm_currentPlayPos s else int (length (cm_historyTaskList s)))"
  by (auto simp: push_task_def Let_def view_of_def item_data_def item_defs fire_def fun_eq_iff sent_def)

text \<open>A task of the user's own that is executed while the history is played back is neither
  drawn nor sent: it is only put at the end of the history, the position stays and the playback
  goes on.  The packet is sent when the task is executed there, and only the first time.\<close>

lemma playback_defers_sending:
  assumes "isPlaybackMode s" and "cm_currentPlayPos s < int (historyTaskCount s)"
    and "make_ExecuteTask t None = Inr w"
  shows "\<exists>s1 s2 s3. executeTask t True s = (Inr True, s1) \<and> sent s1 = sent s \<and> view_of s1 = view_of s
    \<and> isPlaybackMode s1 \<and> cm_currentPlayPos s1 = cm_currentPlayPos s
    \<and> task_execute (int (historyTaskCount s)) s1 = (Inr True, s2) \<and> sent s2 = sent s @ [w]
    \<and> task_execute (int (historyTaskCount s)) s2 = (Inr True, s3) \<and> sent s3 = sent s2"
proof -
  let ?n = "length (cm_historyTaskList s)"
  let ?t = "setSendData True t"
  let ?s1 = "push_task t True s"
  let ?s2 = "execute_body ?t ((fire (SendDataToUsers w) ?s1)
    \<lparr>cm_historyTaskList := (cm_historyTaskList ?s1)[?n := setSendData False ?t]\<rparr>)"
  let ?s3 = "execute_body (cm_historyTaskList ?s2 ! ?n) ?s2"
  have "executeTask t True s = (Inr True, ?s1)" using assms(1) by (simp add: executeTask_def)
  moreover have "isPlaybackMode ?s1"
    using assms(1,2) by (simp add: isPlaybackMode_def push_task_simps historyTaskCount_def)
  moreover have "task_execute (int ?n) ?s1 = (Inr True, ?s2)"
    by (rule task_execute_sends) (simp_all add: push_task_simps assms(3))
  moreover have "task_execute (int ?n) ?s2 = (Inr True, ?s3)"
    by (rule task_execute_silent) (simp_all add: push_task_simps)
  moreover have "sent ?s2 = sent s @ [w]" by (simp add: sent_fire push_task_simps)
  ultimately show ?thesis
    using assms(1) by (intro exI [of _ ?s1] exI [of _ ?s2] exI [of _ ?s3] conjI)
      (simp_all add: push_task_simps historyTaskCount_def)
qed

lemma ok_task_make: "ok_task t \<Longrightarrow> \<exists>w. make_ExecuteTask t None = Inr w"
  by (simp add: make_ExecuteTask_def serialize_task_eq)

section \<open>Undo and redo\<close>

lemma kept_fields:
  "kept s' = kept s \<Longrightarrow> cm_commandList s' = cm_commandList s"
  "kept s' = kept s \<Longrightarrow> cm_redoCommandList s' = cm_redoCommandList s"
  by (simp_all add: kept_def)

text \<open>A task that may be drawn, outside the playback, is sent and drawn at once.\<close>

lemma executeTask_now:
  assumes "\<not> isPlaybackMode s" and "task_owner t \<in> cm_allowPainters s" and "ok_task t"
  shows "\<exists>s' w. executeTask t True s = (Inr True, s') \<and> make_ExecuteTask t None = Inr w
    \<and> sent s' = sent s @ [w] \<and> view_of s' = perform t (view_of s) \<and> \<not> isPlaybackMode s'
    \<and> cm_historyTaskList s' = cm_historyTaskList s @ [setSendData False t]
    \<and> cm_allowPainters s' = cm_allowPainters s
    \<and> cm_commandList s' = cm_commandList s \<and> cm_redoCommandList s' = cm_redoCommandList s"
proof -
  obtain w where w: "make_ExecuteTask t None = Inr w" using ok_task_make [OF assms(3)] by blast
  let ?n = "length (cm_historyTaskList s)"
  let ?s1 = "push_task t True s"
  let ?t = "setSendData True t"
  let ?u = "(fire (SendDataToUsers w) ?s1)
    \<lparr>cm_historyTaskList := (cm_historyTaskList ?s1)[?n := setSendData False ?t]\<rparr>"
  have "executeTask t True s = (Inr True, execute_body ?t ?u)"
    using assms(1,2) task_execute_sends [of ?n ?s1 ?t w] w
    by (simp add: executeTask_def push_task_simps isAllowPainterToDraw_def)
  moreover have "cm_historyTaskList (execute_body ?t ?u) = cm_historyTaskList s @ [setSendData False t]"
    by (simp add: push_task_simps)
  moreover have k: "kept (execute_body ?t ?u) = kept ?u" by simp
  have "cm_currentPlayPos (execute_body ?t ?u) = int ?n"
    using kept_plain(4) [OF k] assms(1) by (simp add: fire_def push_task_simps)
  then have "\<not> isPlaybackMode (execute_body ?t ?u)"
    by (simp add: isPlaybackMode_def push_task_simps)
  moreover have "sent (execute_body ?t ?u) = sent s @ [w]" by (simp add: sent_fire push_task_simps)
  moreover have "view_of (execute_body ?t ?u) = perform t (view_of s)"
    by (simp add: view_of_execute_body push_task_simps)
  ultimately show ?thesis
    using w kept_plain(3) [OF k] kept_fields [OF k] by (simp add: fire_def push_task_simps)
qed

definition can_draw :: "item_ptr \<Rightarrow> cmd_mngr \<Rightarrow> bool" where
  "can_draw p s \<longleftrightarrow> \<not> isPlaybackMode s \<and> fst p \<in> cm_allowPainters s \<and> fits8 (fst p)
     \<and> item_data s p \<noteq> None"

lemma snd_perform_dom: "snd (perform t v) p = None \<longleftrightarrow> snd v p = None"
  by (auto simp: perform_def Let_def split: task_body.splits)

lemma do_task_now:
  assumes "can_draw p s" and "ok_task (new_task True (fst p) (snd p) b)"
  shows "\<exists>s'. do_task p b s = (Inr True, s') \<and> length (sent s') = length (sent s) + 1
    \<and> view_of s' = perform (new_task True (fst p) (snd p) b) (view_of s) \<and> can_draw p s'
    \<and> cm_historyTaskList s' = cm_historyTaskList s @ [new_task False (fst p) (snd p) b]
    \<and> cm_commandList s' = cm_commandList s \<and> cm_redoCommandList s' = cm_redoCommandList s"
proof -
  let ?t = "new_task True (fst p) (snd p) b"
  have "task_owner ?t = fst p" "setSendData False ?t = new_task False (fst p) (snd p) b"
    by (simp_all add: new_task_def task_owner_def setSendData_def)
  with executeTask_now [of s ?t] assms obtain s' w where s': "do_task p b s = (Inr True, s')"
    "sent s' = sent s @ [w]" "view_of s' = perform ?t (view_of s)" "\<not> isPlaybackMode s'"
    "cm_historyTaskList s' = cm_historyTaskList s @ [new_task False (fst p) (snd p) b]"
    "cm_allowPainters s' = cm_allowPainters s"
    "cm_commandList s' = cm_commandList s" "cm_redoCommandList s' = cm_redoCommandList s"
    unfolding do_task_def can_draw_def by auto
  have "snd (view_of s') p \<noteq> None"
    using assms(1) by (simp add: s'(3) snd_perform_dom) (simp add: can_draw_def view_of_def)
  then have "can_draw p s'" using s'(4,6) assms(1) by (simp add: can_draw_def view_of_def)
  with s' show ?thesis by auto
qed

definition visible :: "item_ptr \<Rightarrow> cmd_mngr \<Rightarrow> bool" where
  "visible p s \<longleftrightarrow> p \<in> sc_visible (fst (view_of s))"

definition shown_at :: "item_ptr \<Rightarrow> cmd_mngr \<Rightarrow> double \<times> double" where
  "shown_at p s = sc_pos (fst (view_of s)) p"

text \<open>Executing, undoing and redoing a command, seen from the stacks and the history.\<close>

definition body_of :: "CSharedPaintCommand \<Rightarrow> task_body" where
  "body_of c = (case c of AddItemCommand p \<Rightarrow> AddItem | RemoveItemCommand p \<Rightarrow> RemoveItem
     | UpdateItemCommand p prev d \<Rightarrow> UpdateItem prev d | MoveItemCommand p px py x y \<Rightarrow> MoveItem px py x y)"

definition undo_body_of :: "CSharedPaintCommand \<Rightarrow> task_body" where
  "undo_body_of c = (case c of AddItemCommand p \<Rightarrow> RemoveItem | RemoveItemCommand p \<Rightarrow> AddItem
     | UpdateItemCommand p prev d \<Rightarrow> UpdateItem prev d | MoveItemCommand p px py x y \<Rightarrow> MoveItem px py x y)"

definition ptr_of_cmd :: "CSharedPaintCommand \<Rightarrow> item_ptr" where
  "ptr_of_cmd c = (case c of AddItemCommand p \<Rightarrow> p | RemoveItemCommand p \<Rightarrow> p
     | UpdateItemCommand p prev d \<Rightarrow> p | MoveItemCommand p px py x y \<Rightarrow> p)"

lemma command_methods:
  "command_execute c = do_task (ptr_of_cmd c) (body_of c)"
  "command_undo c = do_task (ptr_of_cmd c) (undo_body_of c)"
  by (cases c; simp add: ptr_of_cmd_def body_of_def undo_body_of_def)+

definition ok_command :: "CSharedPaintCommand \<Rightarrow> bool" where
  "ok_command c \<longleftrightarrow> (case c of UpdateItemCommand p prev d \<Rightarrow> ok_basic prev \<and> ok_basic d | _ \<Rightarrow> True)"

lemma ok_command_task:
  "ok_command c \<Longrightarrow> fits8 (fst (ptr_of_cmd c)) \<Longrightarrow>
    ok_task (new_task True (fst (ptr_of_cmd c)) (snd (ptr_of_cmd c)) (body_of c))
    \<and> ok_task (new_task True (fst (ptr_of_cmd c)) (snd (ptr_of_cmd c)) (undo_body_of c))"
  by (cases c) (simp_all add: ok_command_def ok_task_def new_task_def ok_task_data_def body_of_def
      undo_body_of_def ptr_of_cmd_def)

definition task_of :: "CSharedPaintCommand \<Rightarrow> task_body \<Rightarrow> CSharedPaintTask" where
  "task_of c b = new_task False (fst (ptr_of_cmd c)) (snd (ptr_of_cmd c)) b"

lemma new_task_flag: "new_task b ow i body = setSendData b (new_task False ow i body)"
  by (simp add: new_task_def setSendData_def)

lemma can_draw_updates [simp]:
  "can_draw p (s\<lparr>cm_commandList := cs, cm_redoCommandList := ds\<rparr>) = can_draw p s"
  "can_draw p (s\<lparr>cm_redoCommandList := ds, cm_commandList := cs\<rparr>) = can_draw p s"
  "sent (s\<lparr>cm_commandList := cs, cm_redoCommandList := ds\<rparr>) = sent s"
  "sent (s\<lparr>cm_redoCommandList := ds, cm_commandList := cs\<rparr>) = sent s"
  by (simp_all add: can_draw_def isPlaybackMode_def item_data_def item_defs sent_def)

lemma do_command:
  assumes "can_draw (ptr_of_cmd c) s" and "ok_command c" and "b = body_of c \<or> b = undo_body_of c"
  shows "\<exists>s'. do_task (ptr_of_cmd c) b s = (Inr True, s') \<and> length (sent s') = length (sent s) + 1
    \<and> view_of s' = perform (task_of c b) (view_of s) \<and> can_draw (ptr_of_cmd c) s'
    \<and> cm_historyTaskList s' = cm_historyTaskList s @ [task_of c b]
    \<and> cm_commandList s' = cm_commandList s \<and> cm_redoCommandList s' = cm_redoCommandList s"
proof -
  have "fits8 (fst (ptr_of_cmd c))" using assms(1) by (simp add: can_draw_def)
  with ok_command_task [OF assms(2)] assms(3)
  have "ok_task (new_task True (fst (ptr_of_cmd c)) (snd (ptr_of_cmd c)) b)" by auto
  from do_task_now [OF assms(1) this] show ?thesis
    unfolding task_of_def by (simp add: new_task_flag [of True])
qed

lemma executeCommand_step:
  assumes "can_draw (ptr_of_cmd c) s" and "ok_command c"
  shows "\<exists>s'. executeCommand c s = (Inr True, s') \<and> length (sent s') = length (sent s) + 1
    \<and> view_of s' = perform (task_of c (body_of c)) (view_of s) \<and> can_draw (ptr_of_cmd c) s'
    \<and> cm_historyTaskList s' = cm_historyTaskList s @ [task_of c (body_of c)]
    \<and> cm_commandList s' = c # cm_commandList s \<and> cm_redoCommandList s' = []"
  using do_command [OF assms, of "body_of c"]
  by (auto simp: executeCommand_def bindS_def command_methods)

lemma undoCommand_step:
  assumes "can_draw (ptr_of_cmd c) s" and "ok_command c" and "cm_commandList s = c # cs"
  shows "\<exists>s'. undoCommand s = (Inr True, s') \<and> length (sent s') = length (sent s) + 1
    \<and> view_of s' = perform (task_of c (undo_body_of c)) (view_of s) \<and> can_draw (ptr_of_cmd c) s'
    \<and> cm_historyTaskList s' = cm_historyTaskList s @ [task_of c (undo_body_of c)]
    \<and> cm_commandList s' = cs \<and> cm_redoCommandList s' = c # cm_redoCommandList s"
  using do_command [OF assms(1,2), of "undo_body_of c"] assms(3)
  by (auto simp: undoCommand_def bindS_def command_methods)

lemma redoCommand_step:
  assumes "can_draw (ptr_of_cmd c) s" and "ok_command c" and "cm_redoCommandList s = c # cs"
  shows "\<exists>s'. redoCommand s = (Inr True, s') \<and> length (sent s') = length (sent s) + 1
    \<and> view_of s' = perform (task_of c (body_of c)) (view_of s) \<and> can_draw (ptr_of_cmd c) s'
    \<and> cm_historyTaskList s' = cm_historyTaskList s @ [task_of c (body_of c)]
    \<and> cm_commandList s' = c # cm_commandList s \<and> cm_redoCommandList s' = cs"
  using do_command [OF assms(1,2), of "body_of c"] assms(3)
  by (auto simp: redoCommand_def bindS_def command_methods)

text \<open>Undo and redo of adding an item.  Outside the playback, for an item of the history whose
  owner may draw, executing the command that adds it shows the item, undoing hides it and redoing
  shows it again; each is one more packet and one more task at the end of the history (undo never
  shortens it), and the command moves between the two stacks.\<close>

lemma undo_redo_add_item:
  assumes "can_draw p s"
  shows "\<exists>s1 s2 s3. executeCommand (AddItemCommand p) s = (Inr True, s1)
    \<and> undoCommand s1 = (Inr True, s2) \<and> redoCommand s2 = (Inr True, s3)
    \<and> visible p s1 \<and> \<not> visible p s2 \<and> visible p s3
    \<and> cm_commandList s1 = AddItemCommand p # cm_commandList s \<and> cm_redoCommandList s1 = []
    \<and> cm_commandList s2 = cm_commandList s \<and> cm_redoCommandList s2 = [AddItemCommand p]
    \<and> cm_commandList s3 = AddItemCommand p # cm_commandList s \<and> cm_redoCommandList s3 = []
    \<and> length (sent s3) = length (sent s) + 3 \<and> historyTaskCount s3 = historyTaskCount s + 3"
proof -
  let ?c = "AddItemCommand p"
  have p: "ptr_of_cmd ?c = p" "body_of ?c = AddItem" "undo_body_of ?c = RemoveItem" and ok: "ok_command ?c"
    by (simp_all add: ptr_of_cmd_def body_of_def undo_body_of_def ok_command_def)
  have eff: "snd v p \<noteq> None \<Longrightarrow> p \<in> sc_visible (fst (perform (task_of ?c AddItem) v))"
    "snd v p \<noteq> None \<Longrightarrow> p \<notin> sc_visible (fst (perform (task_of ?c RemoveItem) v))" for v
    by (auto simp: perform_def Let_def task_of_def p task_ptr_def task_owner_def task_itemId_def new_task_def)
  have known: "can_draw p s' \<Longrightarrow> snd (view_of s') p \<noteq> None" for s'
    by (simp add: can_draw_def view_of_def)
  obtain s1 where s1: "executeCommand ?c s = (Inr True, s1)" "length (sent s1) = length (sent s) + 1"
    "view_of s1 = perform (task_of ?c AddItem) (view_of s)" "can_draw p s1"
    "cm_historyTaskList s1 = cm_historyTaskList s @ [task_of ?c AddItem]"
    "cm_commandList s1 = ?c # cm_commandList s" "cm_redoCommandList s1 = []"
    using executeCommand_step [of ?c s] assms ok by (auto simp: p)
  obtain s2 where s2: "undoCommand s1 = (Inr True, s2)" "length (sent s2) = length (sent s1) + 1"
    "view_of s2 = perform (task_of ?c RemoveItem) (view_of s1)" "can_draw p s2"
    "cm_historyTaskList s2 = cm_historyTaskList s1 @ [task_of ?c RemoveItem]"
    "cm_commandList s2 = cm_commandList s" "cm_redoCommandList s2 = [?c]"
    using undoCommand_step [of ?c s1] s1(4,6,7) ok by (auto simp: p)
  obtain s3 where s3: "redoCommand s2 = (Inr True, s3)" "length (sent s3) = length (sent s2) + 1"
    "view_of s3 = perform (task_of ?c AddItem) (view_of s2)"
    "cm_historyTaskList s3 = cm_historyTaskList s2 @ [task_of ?c AddItem]"
    "cm_commandList s3 = ?c # cm_commandList s" "cm_redoCommandList s3 = []"
    using redoCommand_step [of ?c s2] s2(4,6,7) ok by (auto simp: p)
  have "visible p s1" "\<not> visible p s2" "visible p s3"
    using eff(1) [OF known [OF assms]] eff(2) [OF known [OF s1(4)]] eff(1) [OF known [OF s2(4)]]
    unfolding visible_def s1(3) [symmetric] s2(3) [symmetric] s3(3) [symmetric] by simp_all
  with s1 s2 s3 show ?thesis
    by (intro exI [of _ s1] exI [of _ s2] exI [of _ s3]) (simp add: historyTaskCount_def)
qed

lemma sample_can_draw: "can_draw ([7], 1) sample_mngr"
  using sample_mngr_facts(1,2)
  by (simp add: can_draw_def isPlaybackMode_def historyTaskCount_def sample_allowed fits8_def item_data_def
      sample_mngr_item)

text \<open>Undoing a move or an update does not undo it.  Outside the playback, for an item of the
  history whose owner may draw, the task that the undo of a move command sends moves the item to the
  new place again, not to the old one, and the undo of an update sets the new data again.\<close>

lemma undo_of_move_and_update_repeats:
  assumes "can_draw p s" and "ok_basic prev" and "ok_basic d"
  shows "(\<exists>s1 s2. executeCommand (MoveItemCommand p px py x y) s = (Inr True, s1)
      \<and> undoCommand s1 = (Inr True, s2) \<and> shown_at p s1 = (x, y) \<and> shown_at p s2 = (x, y))
    \<and> (\<exists>s1 s2. executeCommand (UpdateItemCommand p prev d) s = (Inr True, s1)
      \<and> undoCommand s1 = (Inr True, s2) \<and> item_data s1 p = Some d \<and> item_data s2 p = Some d)"
proof -
  let ?m = "MoveItemCommand p px py x y" let ?u = "UpdateItemCommand p prev d"
  have p: "ptr_of_cmd ?m = p" "ptr_of_cmd ?u = p" and ok: "ok_command ?m" "ok_command ?u"
    and m: "body_of ?m = MoveItem px py x y" "undo_body_of ?m = MoveItem px py x y"
    and u: "body_of ?u = UpdateItem prev d" "undo_body_of ?u = UpdateItem prev d"
    using assms(2,3) by (simp_all add: ptr_of_cmd_def body_of_def undo_body_of_def ok_command_def)
  have eff: "snd v p \<noteq> None \<Longrightarrow> sc_pos (fst (perform (task_of ?m (MoveItem px py x y)) v)) p = (x, y)"
    "snd v p \<noteq> None \<Longrightarrow> snd (perform (task_of ?u (UpdateItem prev d)) v) p = Some d" for v
    by (auto simp: perform_def Let_def task_of_def p task_ptr_def task_owner_def task_itemId_def new_task_def)
  have known: "can_draw p s' \<Longrightarrow> snd (view_of s') p \<noteq> None" for s'
    by (simp add: can_draw_def view_of_def)
  have dat: "item_data s' p = snd (view_of s') p" for s' by (simp add: view_of_def)
  obtain s1 where s1: "executeCommand ?m s = (Inr True, s1)" "can_draw p s1"
    "view_of s1 = perform (task_of ?m (MoveItem px py x y)) (view_of s)" "cm_commandList s1 = ?m # cm_commandList s"
    using executeCommand_step [of ?m s] assms ok by (auto simp: p m)
  obtain s2 where s2: "undoCommand s1 = (Inr True, s2)"
    "view_of s2 = perform (task_of ?m (MoveItem px py x y)) (view_of s1)"
    using undoCommand_step [of ?m s1] s1(2,4) ok by (auto simp: p m)
  obtain u1 where u1: "executeCommand ?u s = (Inr True, u1)" "can_draw p u1"
    "view_of u1 = perform (task_of ?u (UpdateItem prev d)) (view_of s)" "cm_commandList u1 = ?u # cm_commandList s"
    using executeCommand_step [of ?u s] assms ok by (auto simp: p u)
  obtain u2 where u2: "undoCommand u1 = (Inr True, u2)"
    "view_of u2 = perform (task_of ?u (UpdateItem prev d)) (view_of u1)"
    using undoCommand_step [of ?u u1] u1(2,4) ok by (auto simp: p u)
  have "shown_at p s1 = (x, y)" "shown_at p s2 = (x, y)" "item_data u1 p = Some d" "item_data u2 p = Some d"
    using eff(1) [OF known [OF assms(1)]] eff(1) [OF known [OF s1(2)]]
      eff(2) [OF known [OF assms(1)]] eff(2) [OF known [OF u1(2)]]
    unfolding shown_at_def dat s1(3) [symmetric] s2(2) [symmetric] u1(3) [symmetric] u2(2) [symmetric]
    by simp_all
  with s1(1) s2(1) u1(1) u2(1) show ?thesis by blast
qed

section \<open>What every operation keeps\<close>

text \<open>
  A method is safe for a property of the state when, whatever it returns or throws, the property
  still holds, and it never uses an index outside the history.
\<close>

definition safe :: "('s \<Rightarrow> bool) \<Rightarrow> ('s, 'a) meth \<Rightarrow> bool" where
  "safe P m \<longleftrightarrow> (\<forall>s. P s \<longrightarrow> fst (m s) \<noteq> Inl BufferOverread \<and> P (snd (m s)))"

lemma safe_bindS:
  assumes "safe P m" and "\<And>a. safe P (k a)"
  shows "safe P (bindS m k)"
  unfolding safe_def
proof (intro allI impI)
  fix s assume s: "P s"
  obtain r s' where m: "m s = (r, s')" by (cases "m s")
  with assms(1) s have "r \<noteq> Inl BufferOverread" "P s'" unfolding safe_def by (metis fst_conv, metis snd_conv)
  with m assms(2) show "fst (bindS m k s) \<noteq> Inl BufferOverread \<and> P (snd (bindS m k s))"
    by (cases r) (auto simp: bindS_def safe_def)
qed

lemma safe_returnS: "safe P (returnS a)"
  by (simp add: safe_def)

lemma safe_pure: "(\<And>s. P s \<Longrightarrow> P (f s)) \<Longrightarrow> safe P (\<lambda>s. (Inr a, f s))"
  by (simp add: safe_def)

lemma safe_mapS: "\<forall>x\<in>set xs. safe P (f x) \<Longrightarrow> safe P (mapS f xs)"
proof (induction xs)
  case Nil
  show ?case by (simp add: safe_def)
next
  case (Cons x xs)
  have "safe P (bindS (f x) (\<lambda>a. bindS (mapS f xs) (\<lambda>as. returnS (a # as))))"
    using Cons by (intro safe_bindS safe_returnS) simp_all
  then show ?case by (simp add: safe_def)
qed

lemma safe_loopS: "\<forall>x\<in>set xs. safe P (f x) \<Longrightarrow> safe P (loopS f xs)"
  unfolding loopS_def by (intro safe_bindS safe_returnS safe_mapS)

text \<open>The writers never read outside a buffer.\<close>

lemma run_writes_no_overread:
  "\<forall>st\<in>set sts. \<forall>b. st b \<noteq> Inl BufferOverread \<Longrightarrow> run_writes sts b \<noteq> Inl BufferOverread"
proof (induction sts arbitrary: b)
  case Nil
  show ?case by simp
next
  case (Cons st sts)
  then show ?case by (cases b) (auto simp: run_writes.simps(2) bindE_eq_Inl)
qed

lemma wr_no_overread: "(\<And>b p. f b p \<noteq> Inl BufferOverread) \<Longrightarrow> wr f x \<noteq> Inl BufferOverread"
  by (auto simp: wr_def bindE_eq_Inl split: prod.splits)

lemma writers_no_overread:
  "writeInt8 b p c \<noteq> Inl BufferOverread" "writeInt16 b p x16 LE \<noteq> Inl BufferOverread"
  "writeInt32 b p x32 LE \<noteq> Inl BufferOverread" "writeDouble b p x64 LE \<noteq> Inl BufferOverread"
  "writeString8 b p v \<noteq> Inl BufferOverread"
  by (auto simp: writeInt8_def writeInt16_def writeInt32_def writeDouble_def writeString8_def
      string_insert_def bindE_eq_Inl split: if_splits)

lemma serializers_no_overread:
  "serializeTaskData d n \<noteq> Inl BufferOverread" "serializeBasicData sd n \<noteq> Inl BufferOverread"
  unfolding serializeTaskData_def serializeBasicData_def
  by (rule run_writes_no_overread; auto intro!: wr_no_overread simp: writers_no_overread)+

lemma append_basic_no_overread: "append_basic sd b \<noteq> Inl BufferOverread"
  using serializers_no_overread(2) [of sd 0] by (auto simp: append_basic_def bindE_eq_Inl split: prod.splits)

lemma serialize_task_no_overread: "serialize_task t \<noteq> Inl BufferOverread"
proof (cases "serializeTaskData (tk_data t) 0")
  case (Inl e)
  with serializers_no_overread(1) [of "tk_data t" 0] show ?thesis by (simp add: serialize_task_def)
next
  case (Inr x)
  have moves: "run_writes
      [wr (\<lambda>b p. writeDouble b p px True), wr (\<lambda>b p. writeDouble b p py True),
       wr (\<lambda>b p. writeDouble b p x1 True), wr (\<lambda>b p. writeDouble b p y True)] bp \<noteq> Inl BufferOverread"
    for px py x1 y bp
    by (rule run_writes_no_overread) (auto intro!: wr_no_overread simp: writers_no_overread)
  show ?thesis
    using Inr append_basic_no_overread moves
    by (cases x; cases "tk_body t") (auto simp: serialize_task_def bindE_eq_Inl split: prod.splits)
qed

lemma make_ExecuteTask_no_overread: "make_ExecuteTask t target \<noteq> Inl BufferOverread"
  using serialize_task_no_overread [of t] by (auto simp: make_ExecuteTask_def bindE_eq_Inl)

text \<open>
  The items are kept once each; the position is in the history, or -1, or the initial -2 and then
  the history is empty.
\<close>

definition cm_inv :: "cmd_mngr \<Rightarrow> bool" where
  "cm_inv s \<longleftrightarrow> items_ok s \<and> - 2 \<le> cm_currentPlayPos s
     \<and> cm_currentPlayPos s < int (length (cm_historyTaskList s))
     \<and> (cm_currentPlayPos s = - 2 \<longrightarrow> cm_historyTaskList s = [])"

definition inv_with :: "nat \<Rightarrow> cmd_mngr \<Rightarrow> bool" where
  "inv_with n s \<longleftrightarrow> cm_inv s \<and> length (cm_historyTaskList s) = n"

lemma items_ok_cong:
  "(\<And>p. (item_at s' p = None) = (item_at s p = None)) \<Longrightarrow> cm_historyItemSet s' = cm_historyItemSet s \<Longrightarrow>
   items_ok s' = items_ok s"
  by (simp add: items_ok_def)

lemma cm_inv_cong:
  assumes "\<And>p. (item_at s' p = None) = (item_at s p = None)" and "cm_historyItemSet s' = cm_historyItemSet s"
    and "cm_currentPlayPos s' = cm_currentPlayPos s"
    and "length (cm_historyTaskList s') = length (cm_historyTaskList s)"
  shows "cm_inv s' = cm_inv s" and "inv_with n s' = inv_with n s"
  using assms by (auto simp: cm_inv_def inv_with_def items_ok_cong [OF assms(1,2)] simp flip: length_0_conv)

lemma item_at_bodies:
  "(item_at (execute_body t s) p = None) = (item_at s p = None)"
  "(item_at (rollback_body t s) p = None) = (item_at s p = None)"
  by (auto simp: execute_body_def rollback_body_def Let_def item_at_setItemData
      split: option.splits task_body.splits)

lemma bodies_inv [simp]:
  "inv_with n (execute_body t s) = inv_with n s" "inv_with n (rollback_body t s) = inv_with n s"
proof -
  have k: "kept (execute_body t s) = kept s" "kept (rollback_body t s) = kept s" by simp_all
  then show "inv_with n (execute_body t s) = inv_with n s" "inv_with n (rollback_body t s) = inv_with n s"
    by (intro cm_inv_cong(2); simp add: item_at_bodies kept_plain(4) [OF k(1)] kept_plain(4) [OF k(2)];
        simp add: kept_def)+
qed

lemma safe_task_at: "0 \<le> i \<Longrightarrow> i < int n \<Longrightarrow> safe (inv_with n) (task_at i)"
  by (auto simp: safe_def task_at_def inv_with_def)

lemma safe_sendPacket: "safe (inv_with n) (sendPacket i t)"
proof -
  have "inv_with n (fire e s\<lparr>cm_historyTaskList := (cm_historyTaskList s)[j := t']\<rparr>) = inv_with n s" for e s j t'
    by (rule cm_inv_cong(2)) (simp_all add: fire_def item_defs)
  then show ?thesis
    using make_ExecuteTask_no_overread [of t None] by (auto simp: safe_def sendPacket_def split: sum.splits)
qed

lemma safe_task_steps:
  assumes "0 \<le> i" and "i < int n"
  shows "safe (inv_with n) (task_execute i)" and "safe (inv_with n) (task_rollback i)"
  unfolding task_execute_def task_rollback_def
  by (intro safe_bindS safe_task_at assms safe_sendPacket safe_pure; simp)+

lemma safe_if_allowed:
  assumes "0 \<le> i" and "i < int n" and m: "safe (inv_with n) (m i)"
  shows "safe (inv_with n) (if_allowed m i)"
proof -
  have "safe (inv_with n) (\<lambda>s. if isAllowPainterToDraw (task_owner t) s
      then bindS (m i) (\<lambda>r. returnS ()) s else (Inr (), s))" for t
    using safe_bindS [OF m, of "\<lambda>r. returnS ()"] safe_returnS by (auto simp: safe_def)
  then show ?thesis unfolding if_allowed_def by (intro safe_bindS safe_task_at assms)
qed

lemma safe_if_owner:
  assumes "0 \<le> i" and "i < int n" and m: "safe (inv_with n) (m i)"
  shows "safe (inv_with n) (if_owner u m i)"
  unfolding if_owner_def by (intro safe_bindS safe_task_at assms) (auto intro: safe_bindS safe_returnS m)


lemma safe_playback_loops:
  assumes "inv_with n s"
  shows "fst (playforwardTo a b s) \<noteq> Inl BufferOverread \<and> inv_with n (snd (playforwardTo a b s))"
    and "fst (playbackwardTo a b s) \<noteq> Inl BufferOverread \<and> inv_with n (snd (playbackwardTo a b s))"
proof -
  have n: "length (cm_historyTaskList s) = n" using assms by (simp add: inv_with_def)
  have "safe (inv_with n) (loopS (if_allowed task_execute) [a + 1..b])" if "- 1 \<le> a" "b < int n"
    using that by (intro safe_loopS ballI safe_if_allowed safe_task_steps) auto
  then show "fst (playforwardTo a b s) \<noteq> Inl BufferOverread \<and> inv_with n (snd (playforwardTo a b s))"
    using assms n by (auto simp: playforwardTo_def safe_def)
  have "safe (inv_with n) (loopS (if_allowed task_rollback) (rev [b + 1..a]))" if "- 1 \<le> b" "a < int n"
    using that by (intro safe_loopS ballI safe_if_allowed safe_task_steps) auto
  then show "fst (playbackwardTo a b s) \<noteq> Inl BufferOverread \<and> inv_with n (snd (playbackwardTo a b s))"
    using assms n by (auto simp: playbackwardTo_def safe_def)
qed

lemma inv_with_self: "cm_inv s \<Longrightarrow> inv_with (length (cm_historyTaskList s)) s"
  by (simp add: inv_with_def)

lemma safe_playbackTo:
  assumes "cm_inv s" and "- 1 \<le> p" and "p < int (length (cm_historyTaskList s))"
  shows "fst (playbackTo p s) \<noteq> Inl BufferOverread \<and> cm_inv (snd (playbackTo p s))"
proof -
  let ?n = "length (cm_historyTaskList s)"
  let ?m = "if cm_currentPlayPos s < p then playforwardTo (cm_currentPlayPos s) p
    else playbackwardTo (cm_currentPlayPos s) p"
  obtain r s' where m: "?m s = (r, s')" by (cases "?m s")
  have "fst (?m s) \<noteq> Inl BufferOverread \<and> inv_with ?n (snd (?m s))"
    using safe_playback_loops [OF inv_with_self [OF assms(1)]] by auto
  then have r: "r \<noteq> Inl BufferOverread" "inv_with ?n s'" unfolding m by simp_all
  have "items_ok (s'\<lparr>cm_currentPlayPos := p\<rparr>) = items_ok s'"
    by (rule items_ok_cong) (simp_all add: item_defs)
  with r(2) assms(2,3) have "cm_inv (s'\<lparr>cm_currentPlayPos := p\<rparr>)"
    by (auto simp: inv_with_def cm_inv_def)
  with r m show ?thesis
    unfolding playbackTo_def bindS_def m by (cases r) (auto simp: inv_with_def)
qed

lemma cm_inv_painters: "cm_inv (s\<lparr>cm_allowPainters := us\<rparr>) = cm_inv s"
  by (rule cm_inv_cong(1)) (simp_all add: item_defs)

lemma safe_setAllow: "safe cm_inv (setAllowPainterToDraw u b)"
  unfolding safe_def
proof (intro allI impI)
  fix s assume s: "cm_inv s"
  let ?n = "length (cm_historyTaskList s)"
  have q: "cm_currentPlayPos s < int ?n" using s by (simp add: cm_inv_def)
  have i: "inv_with ?n (s\<lparr>cm_allowPainters := us\<rparr>)" for us
    using s by (simp add: inv_with_def cm_inv_painters)
  have "safe (inv_with ?n) (loopS (if_owner u task_execute) [0..cm_currentPlayPos s])"
    "safe (inv_with ?n) (loopS (if_owner u task_rollback) (rev [0..cm_currentPlayPos s]))"
    using q by (intro safe_loopS ballI safe_if_owner safe_task_steps; auto)+
  with i have "fst (loopS (if_owner u task_execute) [0..cm_currentPlayPos s] (s\<lparr>cm_allowPainters := us\<rparr>))
      \<noteq> Inl BufferOverread
    \<and> cm_inv (snd (loopS (if_owner u task_execute) [0..cm_currentPlayPos s] (s\<lparr>cm_allowPainters := us\<rparr>)))"
    "fst (loopS (if_owner u task_rollback) (rev [0..cm_currentPlayPos s]) (s\<lparr>cm_allowPainters := us\<rparr>))
      \<noteq> Inl BufferOverread
    \<and> cm_inv (snd (loopS (if_owner u task_rollback) (rev [0..cm_currentPlayPos s]) (s\<lparr>cm_allowPainters := us\<rparr>)))"
    for us unfolding safe_def inv_with_def by blast+
  with s show "fst (setAllowPainterToDraw u b s) \<noteq> Inl BufferOverread \<and> cm_inv (snd (setAllowPainterToDraw u b s))"
    by (simp add: setAllowPainterToDraw_def)
qed

lemma push_task_inv: "cm_inv s \<Longrightarrow> inv_with (length (cm_historyTaskList s) + 1) (push_task t b s)"
proof -
  assume s: "cm_inv s"
  have "items_ok (push_task t b s) = items_ok s"
    by (rule items_ok_cong) (simp_all add: push_task_simps push_task_def Let_def fire_def item_defs)
  with s show ?thesis
    by (auto simp: inv_with_def cm_inv_def push_task_simps isPlaybackMode_def DEFAULT_INIT_PLAYBACK_POS_def)
qed

lemma safe_executeTask: "safe cm_inv (executeTask t b)"
  unfolding safe_def
proof (intro allI impI)
  fix s assume "cm_inv s"
  let ?n = "length (cm_historyTaskList s)"
  from \<open>cm_inv s\<close> have i: "inv_with (?n + 1) (push_task t b s)" by (rule push_task_inv)
  have "safe (inv_with (?n + 1)) (task_execute (int ?n))" by (intro safe_task_steps) simp_all
  with i have "fst (task_execute (int ?n) (push_task t b s)) \<noteq> Inl BufferOverread
    \<and> cm_inv (snd (task_execute (int ?n) (push_task t b s)))"
    unfolding safe_def inv_with_def by blast
  with i show "fst (executeTask t b s) \<noteq> Inl BufferOverread \<and> cm_inv (snd (executeTask t b s))"
    by (simp add: executeTask_def Let_def inv_with_def)
qed

lemma cm_inv_stacks:
  "cm_inv (s\<lparr>cm_commandList := cs, cm_redoCommandList := ds\<rparr>) = cm_inv s"
  "cm_inv (s\<lparr>cm_redoCommandList := ds, cm_commandList := cs\<rparr>) = cm_inv s"
  by (rule cm_inv_cong(1); simp add: item_defs)+

lemma safe_commands: "safe cm_inv (executeCommand c)" "safe cm_inv undoCommand" "safe cm_inv redoCommand"
proof -
  have d: "safe cm_inv (command_execute c)" "safe cm_inv (command_undo c)" for c
    unfolding command_methods do_task_def by (rule safe_executeTask)+
  have k: "safe cm_inv (bindS (command_execute c) (\<lambda>ret s. (Inr ret, if ret then f s else s)))"
    "safe cm_inv (bindS (command_undo c) (\<lambda>ret s. (Inr ret, if ret then f s else s)))"
    if "\<And>s. cm_inv (f s) = cm_inv s" for c and f :: "cmd_mngr \<Rightarrow> cmd_mngr"
    using that by (intro safe_bindS d; simp add: safe_def)+
  show "safe cm_inv (executeCommand c)"
    unfolding executeCommand_def by (rule k(1)) (simp add: cm_inv_stacks)
  show "safe cm_inv undoCommand"
    unfolding safe_def
  proof (intro allI impI)
    fix s assume s: "cm_inv s"
    show "fst (undoCommand s) \<noteq> Inl BufferOverread \<and> cm_inv (snd (undoCommand s))"
    proof (cases "cm_commandList s")
      case (Cons c cs)
      have "safe cm_inv (bindS (command_undo c) (\<lambda>ret s'. (Inr ret, if ret
          then s'\<lparr>cm_redoCommandList := c # cm_redoCommandList s', cm_commandList := List.tl (cm_commandList s')\<rparr>
          else s')))" by (rule k(2)) (simp add: cm_inv_stacks)
      with s Cons show ?thesis by (simp add: undoCommand_def safe_def)
    qed (simp add: undoCommand_def s)
  qed
  show "safe cm_inv redoCommand"
    unfolding safe_def
  proof (intro allI impI)
    fix s assume s: "cm_inv s"
    show "fst (redoCommand s) \<noteq> Inl BufferOverread \<and> cm_inv (snd (redoCommand s))"
    proof (cases "cm_redoCommandList s")
      case (Cons c cs)
      have "safe cm_inv (bindS (command_execute c) (\<lambda>ret s'. (Inr ret, if ret
          then s'\<lparr>cm_commandList := c # cm_commandList s', cm_redoCommandList := List.tl (cm_redoCommandList s')\<rparr>
          else s')))" by (rule k(1)) (simp add: cm_inv_stacks)
      with s Cons show ?thesis by (simp add: redoCommand_def safe_def)
    qed (simp add: redoCommand_def s)
  qed
qed

section \<open>The histories that can be reached\<close>

datatype cm_op =
    OpExecuteTask CSharedPaintTask bool
  | OpExecuteCommand CSharedPaintCommand
  | OpUndo
  | OpRedo
  | OpPlaybackTo int
  | OpAddHistoryItem CPaintItem
  | OpAddPainter bytes
  | OpAllow bytes bool
  | OpClear

definition pureS :: "('s \<Rightarrow> 's) \<Rightarrow> ('s, unit) meth" where
  "pureS f s = (Inr (), f s)"

definition ignore :: "('s, 'a) meth \<Rightarrow> ('s, unit) meth" where
  "ignore m = bindS m (\<lambda>r. returnS ())"

fun run_op :: "cm_op \<Rightarrow> (cmd_mngr, unit) meth" where
  "run_op (OpExecuteTask t b) = ignore (executeTask t b)"
| "run_op (OpExecuteCommand c) = ignore (executeCommand c)"
| "run_op OpUndo = ignore undoCommand"
| "run_op OpRedo = ignore redoCommand"
| "run_op (OpPlaybackTo p) = playbackTo p"
| "run_op (OpAddHistoryItem it) = pureS (addHistoryItem it)"
| "run_op (OpAddPainter u) = pureS (addPainter u)"
| "run_op (OpAllow u b) = setAllowPainterToDraw u b"
| "run_op OpClear = pureS cm_clear"

text \<open>The slider of the window only gives positions of the history, and -1.\<close>

fun op_ok :: "cm_op \<Rightarrow> cmd_mngr \<Rightarrow> bool" where
  "op_ok (OpPlaybackTo p) s \<longleftrightarrow> - 1 \<le> p \<and> p < int (historyTaskCount s)"
| "op_ok _ s \<longleftrightarrow> True"

inductive cm_reachable :: "cmd_mngr \<Rightarrow> bool" where
  start: "cm_reachable new_cmd_mngr"
| step: "cm_reachable s \<Longrightarrow> op_ok x s \<Longrightarrow> cm_reachable (snd (run_op x s))"

lemma cm_inv_new: "cm_inv new_cmd_mngr"
  using items_ok_new by (simp add: cm_inv_def) (simp add: new_cmd_mngr_def DEFAULT_INIT_PLAYBACK_POS_def)

lemma cm_inv_pure:
  "cm_inv s \<Longrightarrow> cm_inv (addHistoryItem it s)" "cm_inv s \<Longrightarrow> cm_inv (addPainter u s)" "cm_inv (cm_clear s)"
proof -
  have f: "cm_currentPlayPos (addHistoryItem it s) = cm_currentPlayPos s"
    "cm_historyTaskList (addHistoryItem it s) = cm_historyTaskList s"
    by (auto simp: addHistoryItem_def Let_def fire_def split: prod.splits bool.splits)
  then show "cm_inv s \<Longrightarrow> cm_inv (addHistoryItem it s)"
    by (simp add: cm_inv_def items_ok_addHistoryItem)
  show "cm_inv s \<Longrightarrow> cm_inv (addPainter u s)" by (simp add: addPainter_def cm_inv_painters)
  show "cm_inv (cm_clear s)"
    by (simp add: cm_inv_def cm_clear_def clearHistoryItem_def clearHistoryTask_def clearHistoryCommand_def
        items_ok_def item_defs DEFAULT_INIT_PLAYBACK_POS_def)
qed

lemma safe_ignore: "safe P m \<Longrightarrow> safe P (ignore m)"
  unfolding ignore_def by (intro safe_bindS safe_returnS)

lemma run_op_safe:
  assumes "cm_inv s" and "op_ok x s"
  shows "fst (run_op x s) \<noteq> Inl BufferOverread \<and> cm_inv (snd (run_op x s))"
proof (cases x)
  case (OpPlaybackTo p)
  with assms safe_playbackTo show ?thesis by (simp add: historyTaskCount_def)
qed (use assms(1) safe_ignore [OF safe_executeTask] safe_ignore [OF safe_commands(1)]
      safe_ignore [OF safe_commands(2)] safe_ignore [OF safe_commands(3)] safe_setAllow
      in \<open>simp_all add: safe_def pureS_def cm_inv_pure\<close>)

lemma reachable_inv: "cm_reachable s \<Longrightarrow> cm_inv s"
  by (induction rule: cm_reachable.induct) (simp_all add: cm_inv_new run_op_safe)

text \<open>C10: the state of the history is sound.  In every state that any sequence of operations can
  reach from a new manager (with the errors they may throw, and playback to positions of the
  history and -1 only), the set of all items and the lists of the users hold the same items, the
  position is in the history or -1, or -2 with an empty history; and no operation there uses an
  index outside the history.\<close>

theorem history_invariant:
  assumes "cm_reachable s"
  shows "items_ok s \<and> - 2 \<le> cm_currentPlayPos s \<and> cm_currentPlayPos s < int (historyTaskCount s)
    \<and> (cm_currentPlayPos s = - 2 \<longrightarrow> cm_historyTaskList s = [])
    \<and> (\<forall>x. op_ok x s \<longrightarrow> fst (run_op x s) \<noteq> Inl BufferOverread)"
proof -
  have "cm_inv s" using assms by (rule reachable_inv)
  then show ?thesis using run_op_safe [of s] by (simp add: cm_inv_def historyTaskCount_def)
qed

theorem history_invariant_witness:
  "items_ok (snd (run_op (OpExecuteTask (new_task False [7] 1 AddItem) False) new_cmd_mngr))"
proof -
  have "cm_reachable (snd (run_op (OpExecuteTask (new_task False [7] 1 AddItem) False) new_cmd_mngr))"
    by (rule cm_reachable.step [OF cm_reachable.start]) simp
  from history_invariant [OF this] show ?thesis by simp
qed

text \<open>Without that restriction the index can leave the history.  \<^verbatim>\<open>playbackTo\<close> refuses to play
  to a position past the end but stores it, and forbidding a painter to draw then reads past the
  end of the vector of tasks.\<close>

lemma rejected_position_is_stored:
  "\<exists>s. playbackTo 5 sample_mngr = (Inr (), s) \<and> cm_currentPlayPos s = 5
     \<and> plain s = plain sample_mngr \<and> view_of s = view_of sample_mngr
     \<and> fst (setAllowPainterToDraw [7] False s) = Inl BufferOverread"
proof -
  let ?s = "sample_mngr\<lparr>cm_currentPlayPos := 5\<rparr>"
  have n: "length (cm_historyTaskList sample_mngr) = 2"
    using sample_mngr_facts(2) by (simp add: historyTaskCount_def)
  have "playbackTo 5 sample_mngr = (Inr (), ?s)"
    using n by (simp add: playbackTo_def sample_mngr_facts(1) playforwardTo_def bindS_def)
  moreover have "fst (setAllowPainterToDraw [7] False ?s) = Inl BufferOverread"
  proof -
    have l: "rev [0..5::int] = [5, 4, 3, 2, 1, 0]" by (simp add: upto_rec1)
    show ?thesis
      by (simp add: setAllowPainterToDraw_def isAllowPainterToDraw_def sample_allowed l loopS_def bindS_def
          if_owner_def task_at_def n)
  qed
  ultimately show ?thesis by (intro exI [of _ ?s]) (simp add: plain_def)
qed

end
