(* ===== verification/StdMap.thy ===== *)
theory StdMap
  imports Prelude "HOL-Library.List_Lexorder"
begin

text \<open>
  \<^verbatim>\<open>std::map\<close> where the code iterates over it: the entries in the order of the keys.
  \<^verbatim>\<open>std::string\<close> keys are compared as sequences of unsigned bytes, which is the order
  \<open>List_Lexorder\<close> gives \<open>bytes\<close>.
\<close>

type_synonym ('k, 'v) std_map = "('k \<times> 'v) list"

fun m_put :: "'k::linorder \<Rightarrow> 'v \<Rightarrow> ('k, 'v) std_map \<Rightarrow> ('k, 'v) std_map" where
  "m_put k v [] = [(k, v)]"
| "m_put k v ((k', v') # m) =
     (if k < k' then (k, v) # (k', v') # m
      else if k = k' then (k, v) # m
      else (k', v') # m_put k v m)"

definition m_find :: "'k \<Rightarrow> ('k, 'v) std_map \<Rightarrow> 'v option" where
  "m_find k m = map_of m k"

definition m_erase :: "'k \<Rightarrow> ('k, 'v) std_map \<Rightarrow> ('k, 'v) std_map" where
  "m_erase k m = filter (\<lambda>e. fst e \<noteq> k) m"

definition m_ok :: "('k::linorder, 'v) std_map \<Rightarrow> bool" where
  "m_ok m \<longleftrightarrow> sorted_wrt (<) (map fst m)"

text \<open>
  What the room and the manager rely on: lookup after an update, at most one entry for a key, in
  order.
\<close>

locale ordered_map =
  fixes find :: "'k::linorder \<Rightarrow> 'm \<Rightarrow> 'v option" and put :: "'k \<Rightarrow> 'v \<Rightarrow> 'm \<Rightarrow> 'm"
    and erase :: "'k \<Rightarrow> 'm \<Rightarrow> 'm" and entries :: "'m \<Rightarrow> ('k \<times> 'v) list" and ok :: "'m \<Rightarrow> bool"
  assumes find_put: "find k (put k' v m) = (if k = k' then Some v else find k m)"
    and find_erase: "find k (erase k' m) = (if k = k' then None else find k m)"
    and entries_erase: "entries (erase k m) = filter (\<lambda>e. fst e \<noteq> k) (entries m)"
    and ok_put: "ok m \<Longrightarrow> ok (put k v m)"
    and ok_erase: "ok m \<Longrightarrow> ok (erase k m)"
    and ok_sorted: "ok m \<Longrightarrow> sorted_wrt (<) (map fst (entries m))"
    and find_entries: "ok m \<Longrightarrow> find k m = Some v \<longleftrightarrow> (k, v) \<in> set (entries m)"
begin

lemma keys_distinct: "ok m \<Longrightarrow> distinct (map fst (entries m))"
  using ok_sorted strict_sorted_iff by blast

lemma find_None: "ok m \<Longrightarrow> find k m = None \<longleftrightarrow> k \<notin> fst ` set (entries m)"
  using find_entries [of m k] by (cases "find k m") force+

lemma entries_put: "ok m \<Longrightarrow> set (entries (put k v m)) = insert (k, v) {e \<in> set (entries m). fst e \<noteq> k}"
proof -
  assume m: "ok m"
  have "(a, b) \<in> set (entries (put k v m)) \<longleftrightarrow> (a, b) \<in> insert (k, v) {e \<in> set (entries m). fst e \<noteq> k}" for a b
    using find_entries [OF ok_put [OF m, of k v], of a b] find_entries [OF m, of a b] find_put [of a k v m]
    by (auto split: if_splits)
  then show ?thesis by auto
qed

lemma length_put:
  assumes "ok m"
  shows "length (entries (put k v m)) = (if find k m = None then Suc (length (entries m)) else length (entries m))"
proof -
  have len: "length (entries x) = card (fst ` set (entries x))" if "ok x" for x
    using keys_distinct [OF that] by (metis distinct_card length_map list.set_map)
  have "fst ` set (entries (put k v m)) = insert k (fst ` set (entries m))"
    unfolding entries_put [OF assms] by force
  with find_None [OF assms, of k] show ?thesis
    by (simp add: len assms ok_put card_insert_if)
qed

end

lemma keys_m_put: "fst ` set (m_put k v m) = insert k (fst ` set m)"
  by (induction k v m rule: m_put.induct) auto

lemma m_find_put: "m_find k (m_put k' v m) = (if k = k' then Some v else m_find k m)"
  by (induction k' v m rule: m_put.induct) (auto simp: m_find_def)

lemma m_ok_put: "m_ok m \<Longrightarrow> m_ok (m_put k v m)"
proof (induction k v m rule: m_put.induct)
  case (1 k v)
  then show ?case by (simp add: m_ok_def)
next
  case (2 k v k' v' m)
  then have m: "m_ok m" "\<forall>a\<in>fst ` set m. k' < a" by (auto simp: m_ok_def)
  show ?case
  proof (cases "k' < k")
    case True
    with 2 m(1) have "m_ok (m_put k v m)" by simp
    with True m(2) show ?thesis
      using keys_m_put [of k v m] by (auto simp: m_ok_def)
  next
    case False
    with 2(2) m show ?thesis by (auto simp: m_ok_def)
  qed
qed

interpretation std: ordered_map m_find m_put m_erase "\<lambda>m. m" m_ok
proof unfold_locales
  fix k k' :: 'a and v :: 'b and m :: "('a, 'b) std_map"
  show "m_find k (m_put k' v m) = (if k = k' then Some v else m_find k m)" by (rule m_find_put)
  show "m_find k (m_erase k' m) = (if k = k' then None else m_find k m)"
    by (induction m) (auto simp: m_find_def m_erase_def)
  show "m_erase k m = filter (\<lambda>e. fst e \<noteq> k) m" by (simp add: m_erase_def)
  show "m_ok m \<Longrightarrow> m_ok (m_put k v m)" by (rule m_ok_put)
  show "m_ok m \<Longrightarrow> m_ok (m_erase k m)"
    by (induction m) (auto simp: m_ok_def m_erase_def)
  show "m_ok m \<Longrightarrow> sorted_wrt (<) (map fst m)" by (simp add: m_ok_def)
  show "m_ok m \<Longrightarrow> (m_find k m = Some v) = ((k, v) \<in> set m)"
    unfolding m_find_def m_ok_def by (intro map_of_eq_Some_iff) (simp add: strict_sorted_iff)
qed

end
