(* ===== verification/ServerRoom.thy ===== *)
theory ServerRoom
  imports StdMap PacketBuilders
begin

text \<open>
  The relay server: \<^verbatim>\<open>SharedPaintRoom\<close>, \<^verbatim>\<open>SharedPaintManager\<close>, \<^verbatim>\<open>SharedPaintClient\<close> and the
  builders of \<^verbatim>\<open>SystemPacketBuilder.h\<close> in \<^verbatim>\<open>src/SharedPaintServer\<close>.

  A client session is a number.  The sessions' users and what the server does outside (writing to
  a socket, closing it, connecting, starting a timer) are the \<open>world\<close>; a method of a room acts on
  the room and the world, a method of the manager and of a session on the whole server.  The
  network library (Coconut) is not part of the repository: what the builders use of it, the
  writers of integers and strings, is the record \<open>coconut\<close>.
\<close>

section \<open>Packets\<close>

datatype SharedPaintCodeType =
    SRV_JOIN_TO_SERVER | SRV_JOIN_TO_SUPERPEER | SRV_RES_JOIN | SRV_LEFT | SRV_TCPSYN | SRV_TCPACK
  | SRV_CHANGE_SUPERPEER | SRV_SYNC_REQUEST | SRV_SYNC_START | SRV_SYNC_COMPLETE | SRV_VERSION_INFO
  | SRV_CHANGE_NICKNAME | SRV_CHAT_MESSAGE

fun srv_code :: "SharedPaintCodeType \<Rightarrow> 16 word" where
  "srv_code SRV_JOIN_TO_SERVER = 0"
| "srv_code SRV_JOIN_TO_SUPERPEER = 1"
| "srv_code SRV_RES_JOIN = 2"
| "srv_code SRV_LEFT = 3"
| "srv_code SRV_TCPSYN = 4"
| "srv_code SRV_TCPACK = 5"
| "srv_code SRV_CHANGE_SUPERPEER = 6"
| "srv_code SRV_SYNC_REQUEST = 7"
| "srv_code SRV_SYNC_START = 8"
| "srv_code SRV_SYNC_COMPLETE = 9"
| "srv_code SRV_VERSION_INFO = 10"
| "srv_code SRV_CHANGE_NICKNAME = 11"
| "srv_code SRV_CHAT_MESSAGE = 12"

record coconut =
  co_int16 :: "16 word \<Rightarrow> bytes"
  co_int32 :: "32 word \<Rightarrow> bytes"
  co_string8 :: "bytes \<Rightarrow> bytes"

record SharedPaintProtocol =
  pr_code :: "16 word"
  pr_fromId :: bytes
  pr_toId :: bytes
  pr_payload :: bytes
  pr_bytes :: bytes

text \<open>
  The header's \<^verbatim>\<open>serialize\<close> and \<^verbatim>\<open>processSerialize\<close>: a packet that is built has its header data,
  and \<^verbatim>\<open>basePtr\<close> and \<^verbatim>\<open>totalSize\<close> give the written buffer.
\<close>

definition header_serialize :: "coconut \<Rightarrow> 16 word \<Rightarrow> bytes \<Rightarrow> bytes \<Rightarrow> nat \<Rightarrow> bytes" where
  "header_serialize co code fromId toId payloadSize =
     co_int16 co 0xBEBE @ co_int16 co code @ co_string8 co fromId @ co_string8 co toId
     @ co_int32 co (of_nat payloadSize)"

definition processSerialize :: "coconut \<Rightarrow> 16 word \<Rightarrow> bytes \<Rightarrow> bytes \<Rightarrow> bytes" where
  "processSerialize co code toId payload = header_serialize co code [] toId (length payload) @ payload"

definition new_prot :: "coconut \<Rightarrow> 16 word \<Rightarrow> bytes \<Rightarrow> bytes \<Rightarrow> SharedPaintProtocol" where
  "new_prot co code toId body =
     \<lparr>pr_code = code, pr_fromId = [], pr_toId = toId, pr_payload = body,
      pr_bytes = processSerialize co code toId body\<rparr>"

text \<open>\<^verbatim>\<open>try { ... return prot; } catch(...) { } return null;\<close>\<close>

definition or_null :: "'a result \<Rightarrow> 'a option" where
  "or_null m = (case m of Inl e \<Rightarrow> None | Inr a \<Rightarrow> Some a)"

definition build_prot ::
  "coconut \<Rightarrow> wstmt list \<Rightarrow> SharedPaintCodeType \<Rightarrow> bytes \<Rightarrow> SharedPaintProtocol option" where
  "build_prot co stmts code toId =
     or_null (bindE (run_writes stmts ([], 0)) (\<lambda>(body, pos). Inr (new_prot co (srv_code code) toId body)))"

definition srv_ChangeSuperPeer :: "coconut \<Rightarrow> bytes \<Rightarrow> SharedPaintProtocol option" where
  "srv_ChangeSuperPeer co uid =
     build_prot co [wr (\<lambda>b p. writeString8 b p uid)] SRV_CHANGE_SUPERPEER []"

definition srv_RequestSync :: "coconut \<Rightarrow> bytes \<Rightarrow> bytes \<Rightarrow> bytes \<Rightarrow> SharedPaintProtocol option" where
  "srv_RequestSync co channel runner target =
     build_prot co [wr (\<lambda>b p. writeString8 b p channel), wr (\<lambda>b p. writeString8 b p target)]
       SRV_SYNC_REQUEST runner"

definition srv_ResponseJoin ::
  "coconut \<Rightarrow> bytes \<Rightarrow> bool \<Rightarrow> bytes \<Rightarrow> bytes option \<Rightarrow> SharedPaintProtocol option" where
  "srv_ResponseJoin co channel firstFlag joinerList superPeer =
     build_prot co
       [wr (\<lambda>b p. writeString8 b p channel), wr (\<lambda>b p. writeInt8 b p (flag firstFlag)),
        wr (\<lambda>b p. writeBinary b p joinerList),
        wr (\<lambda>b p. writeString8 b p (case superPeer of Some i \<Rightarrow> i | None \<Rightarrow> []))]
       SRV_RES_JOIN []"

definition srv_NewJoiner :: "coconut \<Rightarrow> ServerUser \<Rightarrow> SharedPaintProtocol option" where
  "srv_NewJoiner co u =
     or_null (bindE (serialize_server_user u)
       (\<lambda>body. Inr (new_prot co (srv_code SRV_JOIN_TO_SERVER) [] body)))"

definition srv_LeftUser :: "coconut \<Rightarrow> bytes \<Rightarrow> bytes \<Rightarrow> SharedPaintProtocol option" where
  "srv_LeftUser co channel uid =
     build_prot co [wr (\<lambda>b p. writeString8 b p channel), wr (\<lambda>b p. writeString8 b p uid)] SRV_LEFT []"

definition nick_reads :: "(bytes \<times> bytes) rstmt list" where
  "nick_reads = [rs_string8 (\<lambda>v (a, b). (v, b)), rs_string8 (\<lambda>v (a, b). (a, v))]"

text \<open>The flag, the user id and the nick name, with what a failing parse has stored.\<close>

definition srv_parse_ChangeNickName :: "bytes \<Rightarrow> bool \<times> bytes \<times> bytes" where
  "srv_parse_ChangeNickName body = caught (run_reads nick_reads body ([], []) 0)"

section \<open>Sessions and the world\<close>

record SharedPaintClient =
  cl_user :: ServerUser
  cl_invalidSessionFlag :: bool
  cl_peerIp :: bytes

datatype server_out =
    SocketWrite nat bytes
  | SocketClose nat
  | ConnectTcp bytes "16 word"
  | SetTimer nat

record world =
  w_clients :: "nat \<Rightarrow> SharedPaintClient"
  w_out :: "server_out list"

definition put_out :: "server_out \<Rightarrow> world \<Rightarrow> world" where
  "put_out x w = w\<lparr>w_out := w_out w @ [x]\<rparr>"

definition upd_client :: "nat \<Rightarrow> (SharedPaintClient \<Rightarrow> SharedPaintClient) \<Rightarrow> world \<Rightarrow> world" where
  "upd_client i f w = w\<lparr>w_clients := (w_clients w)(i := f (w_clients w i))\<rparr>"

definition upd_user :: "(ServerUserInfo \<Rightarrow> ServerUserInfo) \<Rightarrow> SharedPaintClient \<Rightarrow> SharedPaintClient" where
  "upd_user f c = c\<lparr>cl_user := (cl_user c)\<lparr>v_data := f (v_data (cl_user c))\<rparr>\<rparr>"

definition userId_of :: "world \<Rightarrow> nat \<Rightarrow> bytes" where
  "userId_of w i = v_userId (v_data (cl_user (w_clients w i)))"

definition roomId_of :: "world \<Rightarrow> nat \<Rightarrow> bytes" where
  "roomId_of w i = v_roomId (v_data (cl_user (w_clients w i)))"

definition is_candidate :: "world \<Rightarrow> nat \<Rightarrow> bool" where
  "is_candidate w i = v_superPeerCandidate (v_data (cl_user (w_clients w i)))"

section \<open>Rooms\<close>

record SharedPaintRoom =
  rm_roomId :: bytes
  rm_superPeer :: "nat option"
  rm_clientMap :: "(bytes, nat) std_map"
  rm_lastSyncRunnerIndex :: nat

definition new_room :: "bytes \<Rightarrow> SharedPaintRoom" where
  "new_room rid = \<lparr>rm_roomId = rid, rm_superPeer = None, rm_clientMap = [], rm_lastSyncRunnerIndex = 0\<rparr>"

type_synonym room_state = "SharedPaintRoom \<times> world"

text \<open>The result is the first flag.\<close>

definition addJoiner :: "nat \<Rightarrow> (room_state, bool) meth" where
  "addJoiner j = (\<lambda>(r, w).
     let u = userId_of w j;
         (r', w') =
           (case m_find u (rm_clientMap r) of
              None \<Rightarrow>
                (r\<lparr>rm_clientMap := m_put u j (rm_clientMap r)\<rparr>,
                 upd_client j (upd_user (\<lambda>d. d\<lparr>v_syncComplete := True\<rparr>)) w)
            | Some k \<Rightarrow>
                if j \<noteq> k
                then (r\<lparr>rm_clientMap := m_put u j (rm_clientMap r)\<rparr>,
                      put_out (SocketClose k) (upd_client k (\<lambda>c. c\<lparr>cl_invalidSessionFlag := True\<rparr>) w))
                else (r, w))
     in (Inr (length (rm_clientMap r') = 1), (r', w')))"

definition room_findUser :: "bytes \<Rightarrow> SharedPaintRoom \<Rightarrow> nat option" where
  "room_findUser u r = m_find u (rm_clientMap r)"

text \<open>Dereferencing a null packet is a failed assertion of \<^verbatim>\<open>boost::shared_ptr\<close>.\<close>

definition cast_one ::
  "bytes \<Rightarrow> SharedPaintProtocol option \<Rightarrow> bool \<Rightarrow> bytes \<times> nat \<Rightarrow> (room_state, unit) meth" where
  "cast_one fromid prot sendMySelf = (\<lambda>(u, k) (r, w).
     if \<not> sendMySelf \<and> u = fromid then (Inr (), (r, w))
     else case prot of
            None \<Rightarrow> (Inl AssertFailure, (r, w))
          | Some p \<Rightarrow> (Inr (), (r, put_out (SocketWrite k (pr_bytes p)) w)))"

definition room_roomCast :: "bytes \<Rightarrow> SharedPaintProtocol option \<Rightarrow> bool \<Rightarrow> (room_state, unit) meth" where
  "room_roomCast fromid prot sendMySelf rw =
     bindS (mapS (cast_one fromid prot sendMySelf) (rm_clientMap (fst rw))) (\<lambda>us. returnS ()) rw"

definition room_uniCast :: "SharedPaintProtocol option \<Rightarrow> (room_state, unit) meth" where
  "room_uniCast prot = (\<lambda>(r, w).
     case prot of
       None \<Rightarrow> (Inl AssertFailure, (r, w))
     | Some p \<Rightarrow>
         (case m_find (pr_toId p) (rm_clientMap r) of
            None \<Rightarrow> (Inr (), (r, w))
          | Some k \<Rightarrow> (Inr (), (r, put_out (SocketWrite k (pr_bytes p)) w))))"

definition room_setSuperPeerSession :: "coconut \<Rightarrow> nat \<Rightarrow> (room_state, unit) meth" where
  "room_setSuperPeerSession co i = (\<lambda>(r, w).
     if rm_superPeer r = Some i then (Inr (), (r, w))
     else if rm_superPeer r \<noteq> None then (Inr (), (r, w))
     else bindS (room_roomCast (userId_of w i) (srv_ChangeSuperPeer co (userId_of w i)) True)
            (\<lambda>u (r', w'). (Inr (), (r'\<lparr>rm_superPeer := Some i\<rparr>, w'))) (r, w))"

definition tossSuperPeerRightToCandidates :: "coconut \<Rightarrow> (room_state, unit) meth" where
  "tossSuperPeerRightToCandidates co = (\<lambda>(r, w).
     case find (\<lambda>e. is_candidate w (snd e)) (rm_clientMap r) of
       None \<Rightarrow> (Inr (), (r, w))
     | Some e \<Rightarrow> room_setSuperPeerSession co (snd e) (r, w))"

definition removeJoiner :: "coconut \<Rightarrow> nat \<Rightarrow> (room_state, unit) meth" where
  "removeJoiner co j = (\<lambda>(r, w).
     let u = userId_of w j in
     case m_find u (rm_clientMap r) of
       None \<Rightarrow> (Inr (), (r, w))
     | Some k \<Rightarrow>
         (let r1 = r\<lparr>rm_clientMap := m_erase u (rm_clientMap r)\<rparr> in
          bindS (if rm_superPeer r1 = Some j
                 then (\<lambda>(r2, w2). tossSuperPeerRightToCandidates co (r2\<lparr>rm_superPeer := None\<rparr>, w2))
                 else returnS ())
            (\<lambda>x. room_roomCast u (srv_LeftUser co (rm_roomId r) u) False) (r1, w)))"

fun serialize_clients :: "world \<Rightarrow> (bytes \<times> nat) list \<Rightarrow> bytes \<Rightarrow> bytes result" where
  "serialize_clients w [] acc = Inr acc"
| "serialize_clients w (e # es) acc =
     bindE (serialize_server_user (cl_user (w_clients w (snd e)))) (\<lambda>d. serialize_clients w es (acc @ d))"

definition room_serializeJoinerInfoPacket :: "(room_state, bytes) meth" where
  "room_serializeJoinerInfoPacket = (\<lambda>(r, w).
     (bindE (writeInt16 [] 0 (of_nat (length (rm_clientMap r))) False) (\<lambda>(body, n).
      bindE (serialize_clients w (rm_clientMap r) []) (\<lambda>us. Inr (body @ us))), (r, w)))"

text \<open>
  The two loops of \<^verbatim>\<open>syncStart\<close> keep the last name they do not skip; an empty \<^verbatim>\<open>runner\<close> means
  that there is none.
\<close>

fun first_try :: "nat \<Rightarrow> bytes \<Rightarrow> nat \<Rightarrow> (bytes \<times> nat) list \<Rightarrow> bytes \<Rightarrow> bytes" where
  "first_try lst target i [] runner = runner"
| "first_try lst target i (e # es) runner =
     first_try lst target (i + 1) es (if i = lst then runner else if target = fst e then runner else fst e)"

fun second_try :: "bytes \<Rightarrow> (bytes \<times> nat) list \<Rightarrow> bytes \<Rightarrow> bytes" where
  "second_try target [] runner = runner"
| "second_try target (e # es) runner = second_try target es (if target = fst e then runner else fst e)"

definition room_syncStart :: "coconut \<Rightarrow> bytes \<Rightarrow> (room_state, unit) meth" where
  "room_syncStart co target = (\<lambda>(r, w).
     let m = rm_clientMap r;
         runner1 = first_try (rm_lastSyncRunnerIndex r) target 0 m [];
         (runner, r') =
           (if runner1 = [] then (second_try target m [], r)
            else (runner1, r\<lparr>rm_lastSyncRunnerIndex := (rm_lastSyncRunnerIndex r + 1) mod length m\<rparr>))
     in if runner = [] then (Inr (), (r', w))
        else room_uniCast (srv_RequestSync co (rm_roomId r') runner target) (r', w))"

section \<open>The manager\<close>

record server =
  sv_rooms :: "(bytes, SharedPaintRoom) std_map"
  sv_world :: world

text \<open>Every operation of the manager looks the room up and does nothing when there is none.\<close>

definition on_room :: "bytes \<Rightarrow> 'a \<Rightarrow> (room_state, 'a) meth \<Rightarrow> (server, 'a) meth" where
  "on_room rid dflt m s =
     (case m_find rid (sv_rooms s) of
        None \<Rightarrow> (Inr dflt, s)
      | Some r \<Rightarrow>
          (case m (r, sv_world s) of
             (x, (r', w')) \<Rightarrow> (x, s\<lparr>sv_rooms := m_put rid r' (sv_rooms s), sv_world := w'\<rparr>)))"

definition joinRoom :: "nat \<Rightarrow> (server, bool) meth" where
  "joinRoom i s =
     (let rid = roomId_of (sv_world s) i in
      case m_find rid (sv_rooms s) of
        Some r \<Rightarrow> on_room rid False (addJoiner i) s
      | None \<Rightarrow>
          (case addJoiner i (new_room rid, sv_world s) of
             (x, (r', w')) \<Rightarrow> (x, s\<lparr>sv_rooms := m_put rid r' (sv_rooms s), sv_world := w'\<rparr>)))"

definition findUser :: "bytes \<Rightarrow> bytes \<Rightarrow> server \<Rightarrow> nat option" where
  "findUser rid u s = (case m_find rid (sv_rooms s) of None \<Rightarrow> None | Some r \<Rightarrow> room_findUser u r)"

definition totalUserCount :: "server \<Rightarrow> nat" where
  "totalUserCount s = fold (\<lambda>e n. n + length (rm_clientMap (snd e))) (sv_rooms s) 0"

definition leaveRoom :: "coconut \<Rightarrow> nat \<Rightarrow> (server, unit) meth" where
  "leaveRoom co i s = on_room (roomId_of (sv_world s) i) () (removeJoiner co i) s"

definition serializeJoinerInfoPacket :: "bytes \<Rightarrow> (server, bytes) meth" where
  "serializeJoinerInfoPacket rid = on_room rid [] room_serializeJoinerInfoPacket"

definition syncStart :: "coconut \<Rightarrow> bytes \<Rightarrow> bytes \<Rightarrow> (server, unit) meth" where
  "syncStart co rid target = on_room rid () (room_syncStart co target)"

definition uniCast :: "bytes \<Rightarrow> SharedPaintProtocol option \<Rightarrow> (server, unit) meth" where
  "uniCast rid prot = on_room rid () (room_uniCast prot)"

definition roomCast :: "bytes \<Rightarrow> bytes \<Rightarrow> SharedPaintProtocol option \<Rightarrow> bool \<Rightarrow> (server, unit) meth" where
  "roomCast rid fromid prot sendMySelf = on_room rid () (room_roomCast fromid prot sendMySelf)"

definition setSuperPeerSession :: "coconut \<Rightarrow> nat \<Rightarrow> (server, unit) meth" where
  "setSuperPeerSession co i s = on_room (roomId_of (sv_world s) i) () (room_setSuperPeerSession co i) s"

definition currentSuperPeerSession :: "bytes \<Rightarrow> server \<Rightarrow> nat option" where
  "currentSuperPeerSession rid s =
     (case m_find rid (sv_rooms s) of None \<Rightarrow> None | Some r \<Rightarrow> rm_superPeer r)"

section \<open>What a session does with a packet\<close>

definition on_world :: "(world \<Rightarrow> world) \<Rightarrow> (server, unit) meth" where
  "on_world f s = (Inr (), s\<lparr>sv_world := f (sv_world s)\<rparr>)"

definition user_at :: "nat \<Rightarrow> server \<Rightarrow> ServerUserInfo" where
  "user_at i s = v_data (cl_user (w_clients (sv_world s) i))"

definition checkIfSuperPeer :: "coconut \<Rightarrow> nat \<Rightarrow> (server, unit) meth" where
  "checkIfSuperPeer co i =
     bindS (askS (user_at i)) (\<lambda>u.
     bindS (if v_superPeerCandidate u then setSuperPeerSession co i else returnS ()) (\<lambda>x.
       on_world (\<lambda>w. put_out (SetTimer i) (put_out (ConnectTcp (v_viewIp u) (v_listenTcpPort u)) w))))"

definition socket_write :: "nat \<Rightarrow> SharedPaintProtocol option \<Rightarrow> (server, unit) meth" where
  "socket_write i prot =
     (case prot of None \<Rightarrow> throwS AssertFailure
      | Some p \<Rightarrow> on_world (put_out (SocketWrite i (pr_bytes p))))"

definition handle_JOIN_TO_SERVER :: "coconut \<Rightarrow> nat \<Rightarrow> SharedPaintProtocol \<Rightarrow> (server, unit) meth" where
  "handle_JOIN_TO_SERVER co i prot =
     bindS (on_world (upd_client i (\<lambda>c. c\<lparr>cl_user := fst (snd (deserialize_server_user (pr_payload prot) 0 (cl_user c)))\<rparr>)))
       (\<lambda>x.
     bindS (on_world (upd_client i (\<lambda>c. upd_user (\<lambda>d. d\<lparr>v_viewIp := cl_peerIp c\<rparr>) c))) (\<lambda>x.
     bindS (joinRoom i) (\<lambda>firstFlag.
     bindS (askS (user_at i)) (\<lambda>u.
     bindS (askS (\<lambda>s. srv_NewJoiner co (cl_user (w_clients (sv_world s) i)))) (\<lambda>noti.
     bindS (roomCast (v_roomId u) (v_userId u) noti False) (\<lambda>x.
     bindS (checkIfSuperPeer co i) (\<lambda>x.
     bindS (serializeJoinerInfoPacket (v_roomId u)) (\<lambda>userlist.
     bindS (askS (\<lambda>s. map_option (userId_of (sv_world s)) (currentSuperPeerSession (v_roomId u) s))) (\<lambda>sp.
       socket_write i (srv_ResponseJoin co (v_roomId u) firstFlag userlist sp))))))))))"

definition handle_LEAVE :: "coconut \<Rightarrow> nat \<Rightarrow> (server, unit) meth" where
  "handle_LEAVE co i = leaveRoom co i"

text \<open>A packet without receiver goes to the room, another to its receiver.\<close>

definition relay :: "nat \<Rightarrow> SharedPaintProtocol \<Rightarrow> (server, unit) meth" where
  "relay i prot =
     bindS (askS (user_at i)) (\<lambda>u.
       if pr_toId prot = [] then roomCast (v_roomId u) (v_userId u) (Some prot) False
       else uniCast (v_roomId u) (Some prot))"

definition handle_CHANGE_NICKNAME :: "nat \<Rightarrow> SharedPaintProtocol \<Rightarrow> (server, unit) meth" where
  "handle_CHANGE_NICKNAME i prot =
     (case srv_parse_ChangeNickName (pr_payload prot) of (ok, userid, nickname) \<Rightarrow>
        bindS (askS (\<lambda>s. findUser (v_roomId (user_at i s)) userid s)) (\<lambda>client.
          case client of
            None \<Rightarrow> returnS ()
          | Some k \<Rightarrow>
              bindS (on_world (upd_client k (upd_user (\<lambda>d. d\<lparr>v_nickName := nickname\<rparr>)))) (\<lambda>x. relay i prot)))"

definition handle_SYNC_REQUEST :: "coconut \<Rightarrow> nat \<Rightarrow> (server, unit) meth" where
  "handle_SYNC_REQUEST co i =
     bindS (askS (user_at i)) (\<lambda>u. syncStart co (v_roomId u) (v_userId u))"

definition handle_TCPACK :: "coconut \<Rightarrow> nat \<Rightarrow> (server, unit) meth" where
  "handle_TCPACK co i =
     bindS (on_world (upd_client i (upd_user (\<lambda>d. d\<lparr>v_superPeerCandidate := True\<rparr>)))) (\<lambda>x.
       setSuperPeerSession co i)"

definition onSharedPaintReceived :: "coconut \<Rightarrow> nat \<Rightarrow> SharedPaintProtocol \<Rightarrow> (server, unit) meth" where
  "onSharedPaintReceived co i prot =
     (if pr_code prot = srv_code SRV_JOIN_TO_SERVER then handle_JOIN_TO_SERVER co i prot
      else if pr_code prot = srv_code SRV_LEFT then handle_LEAVE co i
      else if pr_code prot = srv_code SRV_TCPACK then handle_TCPACK co i
      else if pr_code prot = srv_code SRV_SYNC_REQUEST then handle_SYNC_REQUEST co i
      else if pr_code prot = srv_code SRV_CHANGE_NICKNAME then handle_CHANGE_NICKNAME i prot
      else relay i prot)"

text \<open>\<^verbatim>\<open>onClosed\<close> and \<^verbatim>\<open>onError\<close>.\<close>

definition onClosed :: "coconut \<Rightarrow> nat \<Rightarrow> (server, unit) meth" where
  "onClosed co i s =
     (if cl_invalidSessionFlag (w_clients (sv_world s) i) then (Inr (), s) else leaveRoom co i s)"

section \<open>Delivery\<close>

definition casts :: "bytes \<Rightarrow> bool \<Rightarrow> bytes \<Rightarrow> (bytes \<times> nat) list \<Rightarrow> server_out list" where
  "casts fromid sendMySelf bs m =
     map (\<lambda>e. SocketWrite (snd e) bs) (filter (\<lambda>e. sendMySelf \<or> fst e \<noteq> fromid) m)"

definition add_outs :: "server_out list \<Rightarrow> world \<Rightarrow> world" where
  "add_outs xs w = w\<lparr>w_out := w_out w @ xs\<rparr>"

lemma add_outs_simps [simp]:
  "add_outs [] w = w" "add_outs ys (add_outs xs w) = add_outs (xs @ ys) w"
  "w_out (add_outs xs w) = w_out w @ xs" "w_clients (add_outs xs w) = w_clients w"
  "userId_of (add_outs xs w) = userId_of w" "is_candidate (add_outs xs w) = is_candidate w"
  "roomId_of (add_outs xs w) = roomId_of w" "put_out x w = add_outs [x] w"
  by (simp_all add: add_outs_def put_out_def userId_of_def is_candidate_def roomId_of_def fun_eq_iff)

lemma cast_one_eq:
  "cast_one fromid (Some p) b e (r, w) = (Inr (), (r, add_outs (casts fromid b (pr_bytes p) [e]) w))"
  by (cases e) (simp add: cast_one_def casts_def)

lemma casts_Cons: "casts fromid b bs (e # m) = casts fromid b bs [e] @ casts fromid b bs m"
  by (simp add: casts_def)

lemma cast_loop:
  "mapS (cast_one fromid (Some p) b) m (r, w)
    = (Inr (replicate (length m) ()), (r, add_outs (casts fromid b (pr_bytes p) m) w))"
proof (induction m arbitrary: w)
  case Nil
  show ?case by (simp add: casts_def)
next
  case (Cons e m)
  show ?case by (simp add: bindS_def cast_one_eq Cons casts_Cons [of _ _ _ e m])
qed

lemma room_roomCast_eq:
  "room_roomCast fromid (Some p) b (r, w) = (Inr (), (r, add_outs (casts fromid b (pr_bytes p) (rm_clientMap r)) w))"
  by (simp add: room_roomCast_def bindS_def cast_loop)

lemma on_room_Some:
  "m_find rid (sv_rooms s) = Some r \<Longrightarrow> m (r, sv_world s) = (x, (r', w')) \<Longrightarrow>
   on_room rid d m s = (x, s\<lparr>sv_rooms := m_put rid r' (sv_rooms s), sv_world := w'\<rparr>)"
  by (simp add: on_room_def)

lemma on_room_None: "m_find rid (sv_rooms s) = None \<Longrightarrow> on_room rid d m s = (Inr d, s)"
  by (simp add: on_room_def)

text \<open>The codes the server handles itself.\<close>

definition handled :: "16 word set" where
  "handled = srv_code ` {SRV_JOIN_TO_SERVER, SRV_LEFT, SRV_TCPACK, SRV_SYNC_REQUEST, SRV_CHANGE_NICKNAME}"

lemma relay_dispatch: "pr_code prot \<notin> handled \<Longrightarrow> onSharedPaintReceived co i prot = relay i prot"
  by (simp add: onSharedPaintReceived_def handled_def fun_eq_iff)

text \<open>C13: relaying.  A packet the server does not handle itself, from a session whose user's room
  exists, is written once to every member of the room except the one with the sender's user id, in
  the order of the user ids, when it names no receiver; otherwise once to the receiver, if the room
  has it, and to nobody else.  The packet is the sender's bytes; no user, room or super peer
  changes.\<close>

theorem relay_delivers:
  assumes "pr_code prot \<notin> handled" and "m_find (v_roomId (user_at i s)) (sv_rooms s) = Some r"
  shows "\<exists>s'. onSharedPaintReceived co i prot s = (Inr (), s')
    \<and> w_out (sv_world s') = w_out (sv_world s) @
        (if pr_toId prot = []
         then [SocketWrite k (pr_bytes prot). (u, k) \<leftarrow> rm_clientMap r, u \<noteq> v_userId (user_at i s)]
         else case m_find (pr_toId prot) (rm_clientMap r) of
                None \<Rightarrow> [] | Some k \<Rightarrow> [SocketWrite k (pr_bytes prot)])
    \<and> w_clients (sv_world s') = w_clients (sv_world s)
    \<and> (\<forall>rid. m_find rid (sv_rooms s') = m_find rid (sv_rooms s))"
proof (cases "pr_toId prot = []")
  case True
  let ?u = "v_userId (user_at i s)"
  have l: "[SocketWrite k (pr_bytes prot). (u, k) \<leftarrow> m, u \<noteq> ?u] = casts ?u False (pr_bytes prot) m" for m
    by (induction m) (auto simp: casts_def)
  have "onSharedPaintReceived co i prot s = (Inr (), s\<lparr>sv_rooms := m_put (v_roomId (user_at i s)) r (sv_rooms s),
      sv_world := add_outs (casts ?u False (pr_bytes prot) (rm_clientMap r)) (sv_world s)\<rparr>)"
    using True on_room_Some [where m = "room_roomCast ?u (Some prot) False", OF assms(2) room_roomCast_eq]
    by (simp add: relay_dispatch [OF assms(1)] relay_def bindS_def askS_def roomCast_def)
  then show ?thesis using True assms(2) by (simp add: l std.find_put)
next
  case False
  let ?o = "case m_find (pr_toId prot) (rm_clientMap r) of None \<Rightarrow> [] | Some k \<Rightarrow> [SocketWrite k (pr_bytes prot)]"
  have "room_uniCast (Some prot) (r, sv_world s) = (Inr (), (r, add_outs ?o (sv_world s)))"
    by (simp add: room_uniCast_def split: option.splits)
  then have "onSharedPaintReceived co i prot s = (Inr (), s\<lparr>sv_rooms := m_put (v_roomId (user_at i s)) r (sv_rooms s),
      sv_world := add_outs ?o (sv_world s)\<rparr>)"
    using False on_room_Some [OF assms(2)]
    by (simp add: relay_dispatch [OF assms(1)] relay_def bindS_def askS_def uniCast_def)
  then show ?thesis using False assms(2) by (simp add: std.find_put)
qed

section \<open>A small server\<close>

text \<open>Two members \<open>[65]\<close> and \<open>[66]\<close> of the room \<open>[82]\<close>, the sessions 0 and 1.\<close>

definition sample_client :: "bytes \<Rightarrow> bool \<Rightarrow> SharedPaintClient" where
  "sample_client u cand = \<lparr>cl_user = \<lparr>v_sessionId = 0, v_data = \<lparr>v_roomId = [82], v_userId = u, v_nickName = [],
     v_viewIp = [], v_localIp = [], v_listenTcpPort = 0, v_superPeerCandidate = cand, v_syncComplete = False\<rparr>\<rparr>,
     cl_invalidSessionFlag = False, cl_peerIp = [49]\<rparr>"

definition sample_room :: SharedPaintRoom where
  "sample_room = \<lparr>rm_roomId = [82], rm_superPeer = Some 0, rm_clientMap = [([65], 0), ([66], 1)],
     rm_lastSyncRunnerIndex = 0\<rparr>"

definition sample_server :: server where
  "sample_server = \<lparr>sv_rooms = [([82], sample_room)], sv_world = \<lparr>w_clients =
     (\<lambda>i. if i = 0 then sample_client [65] True else sample_client [66] True), w_out = []\<rparr>\<rparr>"

lemma sample_server_simps:
  "m_find [82] (sv_rooms sample_server) = Some sample_room" "user_at 0 sample_server = v_data (cl_user (sample_client [65] True))"
  "user_at (Suc n) sample_server = v_data (cl_user (sample_client [66] True))"
  "v_roomId (v_data (cl_user (sample_client u c))) = [82]" "v_userId (v_data (cl_user (sample_client u c))) = u"
  "rm_clientMap sample_room = [([65], 0), ([66], 1)]" "w_out (sv_world sample_server) = []"
  by (simp_all add: sample_server_def m_find_def user_at_def sample_client_def sample_room_def)

definition sample_coconut :: coconut where
  "sample_coconut = \<lparr>co_int16 = enc_int16, co_int32 = enc_int32, co_string8 = enc_string8\<rparr>"

theorem relay_delivers_witness:
  "\<exists>s'. onSharedPaintReceived sample_coconut 0 (new_prot sample_coconut 12 [] [1]) sample_server = (Inr (), s')
    \<and> w_out (sv_world s') = [SocketWrite 1 (pr_bytes (new_prot sample_coconut 12 [] [1]))]"
proof -
  let ?p = "new_prot sample_coconut 12 [] [1]"
  have "pr_code ?p \<notin> handled" by (simp add: handled_def new_prot_def)
  moreover have "m_find (v_roomId (user_at 0 sample_server)) (sv_rooms sample_server) = Some sample_room"
    by (simp add: sample_server_simps)
  ultimately obtain s' where "onSharedPaintReceived sample_coconut 0 ?p sample_server = (Inr (), s')"
    "w_out (sv_world s') = w_out (sv_world sample_server) @
        (if pr_toId ?p = []
         then [SocketWrite k (pr_bytes ?p). (u, k) \<leftarrow> rm_clientMap sample_room, u \<noteq> v_userId (user_at 0 sample_server)]
         else case m_find (pr_toId ?p) (rm_clientMap sample_room) of
                None \<Rightarrow> [] | Some k \<Rightarrow> [SocketWrite k (pr_bytes ?p)])"
    using relay_delivers [of ?p 0 sample_server sample_room sample_coconut] by blast
  then show ?thesis by (simp add: sample_server_simps new_prot_def)
qed

section \<open>Choosing who sends the drawing\<close>

lemma first_try_last:
  "first_try lst target i es runner =
    last (runner # [u. (j, (u, k)) \<leftarrow> List.enumerate i es, j \<noteq> lst, u \<noteq> target])"
  by (induction es arbitrary: i runner) auto

lemma second_try_last: "second_try target es runner = last (runner # filter (\<lambda>u. u \<noteq> target) (map fst es))"
  by (induction es arbitrary: runner) auto

definition sync_runner :: "SharedPaintRoom \<Rightarrow> bytes \<Rightarrow> bytes" where
  "sync_runner r target =
     (let m = rm_clientMap r; r1 = first_try (rm_lastSyncRunnerIndex r) target 0 m []
      in if r1 = [] then second_try target m [] else r1)"

lemma last_in: "xs \<noteq> [] \<Longrightarrow> last (x # xs) \<in> set xs"
  by simp

lemma first_try_other:
  "first_try lst target i es [] \<noteq> [] \<Longrightarrow>
     first_try lst target i es [] \<in> fst ` set es \<and> first_try lst target i es [] \<noteq> target"
proof -
  let ?us = "[u. (j, (u, k)) \<leftarrow> List.enumerate i es, j \<noteq> lst, u \<noteq> target]"
  have sub: "set ?us \<subseteq> {u \<in> fst ` set es. u \<noteq> target}"
    by (auto simp: in_set_enumerate_eq) (metis add.commute fst_conv image_eqI less_diff_conv2 nth_mem)
  assume "first_try lst target i es [] \<noteq> []"
  then have "?us \<noteq> []" unfolding first_try_last by (metis last_ConsL)
  from last_in [OF this, of "[]"] sub show ?thesis unfolding first_try_last by blast
qed

lemma sync_runner_other:
  assumes "[] \<notin> fst ` set (rm_clientMap r)" and "\<exists>u \<in> fst ` set (rm_clientMap r). u \<noteq> target"
  shows "sync_runner r target \<in> fst ` set (rm_clientMap r)" and "sync_runner r target \<noteq> target"
    and "sync_runner r target \<noteq> []"
proof -
  let ?m = "rm_clientMap r"
  let ?r1 = "first_try (rm_lastSyncRunnerIndex r) target 0 ?m []"
  have "sync_runner r target \<in> fst ` set ?m \<and> sync_runner r target \<noteq> target"
  proof (cases "?r1 = []")
    case True
    have ne: "filter (\<lambda>u. u \<noteq> target) (map fst ?m) \<noteq> []" using assms(2) by (auto simp: filter_empty_conv)
    from last_in [OF this, of "[]"] True show ?thesis
      by (auto simp: sync_runner_def Let_def second_try_last)
  next
    case False
    with first_try_other [OF False] show ?thesis by (simp add: sync_runner_def Let_def)
  qed
  with assms(1) show "sync_runner r target \<in> fst ` set ?m" "sync_runner r target \<noteq> target"
    "sync_runner r target \<noteq> []" by metis+
qed

lemma sync_runner_none:
  assumes "\<not> (\<exists>u \<in> fst ` set (rm_clientMap r). u \<noteq> target)"
  shows "sync_runner r target = []"
proof -
  have "filter (\<lambda>u. u \<noteq> target) (map fst (rm_clientMap r)) = []" using assms by (auto simp: filter_empty_conv)
  moreover have "first_try (rm_lastSyncRunnerIndex r) target 0 (rm_clientMap r) [] = []"
    using first_try_other [of "rm_lastSyncRunnerIndex r" target 0 "rm_clientMap r"] assms by blast
  ultimately show ?thesis by (simp add: sync_runner_def second_try_last)
qed

lemma sync_runner_last:
  assumes "rm_clientMap r = m @ [(u, k)]" and "u \<noteq> target" and "u \<noteq> []" and "rm_lastSyncRunnerIndex r \<noteq> length m"
  shows "sync_runner r target = u"
  using assms by (simp add: sync_runner_def first_try_last enumerate_append_eq Let_def)

lemma build_prot_eq:
  "run_writes stmts ([], 0) = Inr (body, n) \<Longrightarrow> build_prot co stmts code toId = Some (new_prot co (srv_code code) toId body)"
  by (simp add: build_prot_def or_null_def)

lemma srv_builders:
  "fits8 uid \<Longrightarrow> srv_ChangeSuperPeer co uid = Some (new_prot co (srv_code SRV_CHANGE_SUPERPEER) [] (enc_string8 uid))"
  "fits8 ch \<Longrightarrow> fits8 uid \<Longrightarrow> srv_RequestSync co ch runner uid
     = Some (new_prot co (srv_code SRV_SYNC_REQUEST) runner (enc_string8 ch @ enc_string8 uid))"
  "fits8 ch \<Longrightarrow> fits8 uid \<Longrightarrow> srv_LeftUser co ch uid
     = Some (new_prot co (srv_code SRV_LEFT) [] (enc_string8 ch @ enc_string8 uid))"
  "ok_server_user u \<Longrightarrow> srv_NewJoiner co u
     = Some (new_prot co (srv_code SRV_JOIN_TO_SERVER) [] (enc_server_user u))"
  unfolding srv_ChangeSuperPeer_def srv_RequestSync_def srv_LeftUser_def srv_NewJoiner_def
  by (simp_all add: build_prot_def or_null_def codec_simps server_user.ser_enc)

lemma room_syncStart_eq:
  "room_syncStart co target (r, w) =
    (let r' = r\<lparr>rm_lastSyncRunnerIndex :=
           if first_try (rm_lastSyncRunnerIndex r) target 0 (rm_clientMap r) [] = [] then rm_lastSyncRunnerIndex r
           else (rm_lastSyncRunnerIndex r + 1) mod length (rm_clientMap r)\<rparr>
     in if sync_runner r target = [] then (Inr (), (r', w))
        else room_uniCast (srv_RequestSync co (rm_roomId r) (sync_runner r target) target) (r', w))"
  by (simp add: room_syncStart_def sync_runner_def Let_def)

definition sync_request :: "coconut \<Rightarrow> bytes \<Rightarrow> bytes \<Rightarrow> bytes \<Rightarrow> bytes" where
  "sync_request co rid runner target =
     processSerialize co (srv_code SRV_SYNC_REQUEST) runner (enc_string8 rid @ enc_string8 target)"

lemma room_syncStart_run:
  assumes "fits8 (rm_roomId r)" and "fits8 target"
  shows "\<exists>r'. room_syncStart co target (r, w) = (Inr (), (r', add_outs
    (case m_find (sync_runner r target) (rm_clientMap r) of
       None \<Rightarrow> [] | Some k \<Rightarrow> if sync_runner r target = [] then []
         else [SocketWrite k (sync_request co (rm_roomId r) (sync_runner r target) target)]) w))
    \<and> rm_clientMap r' = rm_clientMap r \<and> rm_superPeer r' = rm_superPeer r \<and> rm_roomId r' = rm_roomId r"
  using srv_builders(2) [OF assms, of co "sync_runner r target"]
  by (auto simp: room_syncStart_eq Let_def room_uniCast_def sync_request_def new_prot_def split: option.splits)

lemma sync_request_run:
  assumes "pr_code prot = srv_code SRV_SYNC_REQUEST" and "m_find (v_roomId (user_at i s)) (sv_rooms s) = Some r"
    and "fits8 (rm_roomId r)" and "fits8 (v_userId (user_at i s))"
  shows "\<exists>s'. onSharedPaintReceived co i prot s = (Inr (), s') \<and> w_out (sv_world s') = w_out (sv_world s) @
    (case m_find (sync_runner r (v_userId (user_at i s))) (rm_clientMap r) of
       None \<Rightarrow> [] | Some k \<Rightarrow> if sync_runner r (v_userId (user_at i s)) = [] then []
         else [SocketWrite k (sync_request co (rm_roomId r) (sync_runner r (v_userId (user_at i s)))
                                (v_userId (user_at i s)))])"
proof -
  let ?me = "v_userId (user_at i s)"
  have h: "onSharedPaintReceived co i prot s = on_room (v_roomId (user_at i s)) () (room_syncStart co ?me) s"
    using assms(1) by (simp add: onSharedPaintReceived_def handle_SYNC_REQUEST_def syncStart_def bindS_def askS_def)
  from room_syncStart_run [OF assms(3,4), of co "sv_world s"] obtain r' where
    "room_syncStart co ?me (r, sv_world s) = (Inr (), (r', add_outs
      (case m_find (sync_runner r ?me) (rm_clientMap r) of
         None \<Rightarrow> [] | Some k \<Rightarrow> if sync_runner r ?me = [] then []
           else [SocketWrite k (sync_request co (rm_roomId r) (sync_runner r ?me) ?me)]) (sv_world s)))" by blast
  from on_room_Some [where m = "room_syncStart co ?me", OF assms(2) this] show ?thesis unfolding h by simp
qed

text \<open>C14: asking for the drawing.  When a session asks to be synchronised and its room (whose map is
  in order, without an empty user id) has another member, exactly one packet is written: the sync
  request for the asking user, to a member with another user id; when it has no other member,
  nothing is written.\<close>

theorem sync_request_goes_to_other:
  assumes "pr_code prot = srv_code SRV_SYNC_REQUEST" and "m_find (v_roomId (user_at i s)) (sv_rooms s) = Some r"
    and "fits8 (rm_roomId r)" and "fits8 (v_userId (user_at i s))"
    and "m_ok (rm_clientMap r)" and "[] \<notin> fst ` set (rm_clientMap r)"
  shows "\<exists>s'. onSharedPaintReceived co i prot s = (Inr (), s') \<and>
    (if \<exists>(u, k) \<in> set (rm_clientMap r). u \<noteq> v_userId (user_at i s)
     then \<exists>u k. (u, k) \<in> set (rm_clientMap r) \<and> u \<noteq> v_userId (user_at i s)
       \<and> w_out (sv_world s') = w_out (sv_world s) @
           [SocketWrite k (sync_request co (rm_roomId r) u (v_userId (user_at i s)))]
     else w_out (sv_world s') = w_out (sv_world s))"
proof (cases "\<exists>u \<in> fst ` set (rm_clientMap r). u \<noteq> v_userId (user_at i s)")
  case True
  note other = sync_runner_other [OF assms(6) True]
  then obtain k where k: "(sync_runner r (v_userId (user_at i s)), k) \<in> set (rm_clientMap r)" by auto
  with std.find_entries [OF assms(5)]
  have "m_find (sync_runner r (v_userId (user_at i s))) (rm_clientMap r) = Some k" by blast
  with sync_request_run [OF assms(1-4), of co] other k True show ?thesis by fastforce
next
  case False
  from sync_runner_none [OF False] sync_request_run [OF assms(1-4), of co] False show ?thesis
    by (fastforce split: option.splits)
qed

theorem sync_request_goes_to_other_witness:
  "\<exists>s'. onSharedPaintReceived sample_coconut 0 (new_prot sample_coconut 7 [] []) sample_server = (Inr (), s')
    \<and> w_out (sv_world s') = [SocketWrite 1 (sync_request sample_coconut [82] [66] [65])]"
proof -
  let ?p = "new_prot sample_coconut 7 [] []"
  have "pr_code ?p = srv_code SRV_SYNC_REQUEST" "fits8 (rm_roomId sample_room)"
    "m_find (v_roomId (user_at 0 sample_server)) (sv_rooms sample_server) = Some sample_room"
    "fits8 (v_userId (user_at 0 sample_server))" "m_ok (rm_clientMap sample_room)"
    "[] \<notin> fst ` set (rm_clientMap sample_room)" and id: "rm_roomId sample_room = [82]"
    by (simp_all add: new_prot_def sample_server_simps fits8_def m_ok_def) (simp_all add: sample_room_def)
  from sync_request_goes_to_other [OF this(1,3,2,4,5,6), of sample_coconut] id show ?thesis
    by (auto simp: sample_server_simps)
qed

text \<open>The choice is not the round robin that the comment announces.  Whenever the member with the
  largest user id does not ask itself and is not the one at the last index, it is the one that is
  asked, whatever the index is.\<close>

lemma sync_asks_last_member:
  assumes "pr_code prot = srv_code SRV_SYNC_REQUEST" and "m_find (v_roomId (user_at i s)) (sv_rooms s) = Some r"
    and "fits8 (rm_roomId r)" and "fits8 (v_userId (user_at i s))"
    and "m_ok (rm_clientMap r)" and "rm_clientMap r = m @ [(u, k)]"
    and "u \<noteq> v_userId (user_at i s)" and "u \<noteq> []" and "rm_lastSyncRunnerIndex r \<noteq> length m"
  shows "\<exists>s'. onSharedPaintReceived co i prot s = (Inr (), s') \<and>
    w_out (sv_world s') = w_out (sv_world s) @
      [SocketWrite k (sync_request co (rm_roomId r) u (v_userId (user_at i s)))]"
proof -
  have "(u, k) \<in> set (rm_clientMap r)" using assms(6) by simp
  with std.find_entries [OF assms(5)] have "m_find u (rm_clientMap r) = Some k" by blast
  with sync_request_run [OF assms(1-4), of co] sync_runner_last [OF assms(6-9)] assms(8) show ?thesis by simp
qed

section \<open>The super peer\<close>

lemma setSuperPeer_run:
  assumes "rm_superPeer r = None" and "fits8 (userId_of w i)"
  shows "room_setSuperPeerSession co i (r, w) = (Inr (), (r\<lparr>rm_superPeer := Some i\<rparr>, add_outs
    (map (\<lambda>e. SocketWrite (snd e) (processSerialize co (srv_code SRV_CHANGE_SUPERPEER) [] (enc_string8 (userId_of w i))))
       (rm_clientMap r)) w))"
proof -
  have "casts f True bs m = map (\<lambda>e. SocketWrite (snd e) bs) m" for f bs m by (simp add: casts_def)
  then show ?thesis
    using assms(1) by (simp add: room_setSuperPeerSession_def bindS_def srv_builders(1) [OF assms(2)]
        room_roomCast_eq new_prot_def)
qed

text \<open>What is written when the super peer role passes on, and when a user leaves.\<close>

definition super_peer_news :: "coconut \<Rightarrow> world \<Rightarrow> nat option \<Rightarrow> (bytes \<times> nat) list \<Rightarrow> server_out list" where
  "super_peer_news co w new m = (case new of None \<Rightarrow> [] | Some i \<Rightarrow>
     map (\<lambda>e. SocketWrite (snd e) (processSerialize co (srv_code SRV_CHANGE_SUPERPEER) [] (enc_string8 (userId_of w i)))) m)"

definition left_news :: "coconut \<Rightarrow> bytes \<Rightarrow> bytes \<Rightarrow> (bytes \<times> nat) list \<Rightarrow> server_out list" where
  "left_news co rid u m =
     map (\<lambda>e. SocketWrite (snd e) (processSerialize co (srv_code SRV_LEFT) [] (enc_string8 rid @ enc_string8 u))) m"

definition candidate_in :: "world \<Rightarrow> (bytes \<times> nat) list \<Rightarrow> nat option" where
  "candidate_in w m = map_option snd (find (\<lambda>e. is_candidate w (snd e)) m)"

lemma find_in: "find P xs = Some x \<Longrightarrow> x \<in> set xs \<and> P x"
  by (auto simp: find_Some_iff)

lemma toss_run:
  assumes "rm_superPeer r = None" and "\<forall>e \<in> set (rm_clientMap r). fits8 (userId_of w (snd e))"
  shows "tossSuperPeerRightToCandidates co (r, w)
    = (Inr (), (r\<lparr>rm_superPeer := candidate_in w (rm_clientMap r)\<rparr>,
        add_outs (super_peer_news co w (candidate_in w (rm_clientMap r)) (rm_clientMap r)) w))"
proof (cases "find (\<lambda>e. is_candidate w (snd e)) (rm_clientMap r)")
  case None
  with assms(1) show ?thesis
    by (cases r) (simp add: tossSuperPeerRightToCandidates_def candidate_in_def super_peer_news_def)
next
  case (Some e)
  with find_in [OF Some] assms(2) have "fits8 (userId_of w (snd e))" by blast
  from setSuperPeer_run [OF assms(1) this] Some show ?thesis
    by (simp add: tossSuperPeerRightToCandidates_def candidate_in_def super_peer_news_def)
qed

lemma erase_keys: "casts u False bs (m_erase u m) = map (\<lambda>e. SocketWrite (snd e) bs) (m_erase u m)"
  by (simp add: casts_def m_erase_def filter_filter)

text \<open>C15: the super peer's role passes on.  When the session that is the super peer leaves its room,
  its user is taken out of the map, the new super peer is the first remaining member, in the
  order of the user ids, that is a candidate (none, if there is no candidate), and the remaining
  members are told: first, if there is one, who the new super peer is, then who left.\<close>

theorem super_peer_passes_on:
  assumes "m_find (roomId_of (sv_world s) j) (sv_rooms s) = Some r" and "rm_superPeer r = Some j"
    and "m_find (userId_of (sv_world s) j) (rm_clientMap r) = Some k"
    and "fits8 (rm_roomId r)" and "fits8 (userId_of (sv_world s) j)"
    and "\<forall>e \<in> set (rm_clientMap r). fits8 (userId_of (sv_world s) (snd e))"
  defines "rest \<equiv> m_erase (userId_of (sv_world s) j) (rm_clientMap r)"
  shows "\<exists>s' r'. leaveRoom co j s = (Inr (), s')
    \<and> m_find (roomId_of (sv_world s) j) (sv_rooms s') = Some r'
    \<and> rm_clientMap r' = rest \<and> rm_superPeer r' = candidate_in (sv_world s) rest
    \<and> w_out (sv_world s') = w_out (sv_world s) @ super_peer_news co (sv_world s) (candidate_in (sv_world s) rest) rest
        @ left_news co (rm_roomId r) (userId_of (sv_world s) j) rest"
proof -
  let ?w = "sv_world s" let ?u = "userId_of ?w j"
  let ?r1 = "r\<lparr>rm_clientMap := rest, rm_superPeer := None\<rparr>"
  have "\<forall>e \<in> set rest. fits8 (userId_of ?w (snd e))" using assms(6) by (simp add: rest_def m_erase_def)
  then have t: "tossSuperPeerRightToCandidates co (?r1, ?w) = (Inr (), (r\<lparr>rm_clientMap := rest, rm_superPeer := candidate_in ?w rest\<rparr>,
      add_outs (super_peer_news co ?w (candidate_in ?w rest) rest) ?w))"
    using toss_run [of ?r1 ?w co] by simp
  have "removeJoiner co j (r, ?w) = (Inr (), (r\<lparr>rm_clientMap := rest, rm_superPeer := candidate_in ?w rest\<rparr>,
      add_outs (super_peer_news co ?w (candidate_in ?w rest) rest @ left_news co (rm_roomId r) ?u rest) ?w))"
    using assms(2,3) t
    by (simp add: removeJoiner_def Let_def bindS_def srv_builders(3) [OF assms(4,5)] room_roomCast_eq rest_def
        erase_keys left_news_def new_prot_def)
  from on_room_Some [where m = "removeJoiner co j", OF assms(1) this] show ?thesis
    unfolding leaveRoom_def by (simp add: std.find_put)
qed

theorem super_peer_passes_on_witness:
  "\<exists>s' r'. leaveRoom sample_coconut 0 sample_server = (Inr (), s') \<and> m_find [82] (sv_rooms s') = Some r'
    \<and> rm_clientMap r' = [([66], 1)] \<and> rm_superPeer r' = Some 1"
proof -
  have w: "roomId_of (sv_world sample_server) 0 = [82]" "userId_of (sv_world sample_server) 0 = [65]"
    "userId_of (sv_world sample_server) 1 = [66]" "is_candidate (sv_world sample_server) 1"
    by (simp_all add: sample_server_def roomId_of_def userId_of_def is_candidate_def sample_client_def)
  have 1: "m_find (roomId_of (sv_world sample_server) 0) (sv_rooms sample_server) = Some sample_room"
    using w(1) sample_server_simps(1) by simp
  have "rm_superPeer sample_room = Some 0"
    "m_find (userId_of (sv_world sample_server) 0) (rm_clientMap sample_room) = Some 0"
    "fits8 (rm_roomId sample_room)" "fits8 (userId_of (sv_world sample_server) 0)"
    "\<forall>e \<in> set (rm_clientMap sample_room). fits8 (userId_of (sv_world sample_server) (snd e))"
    using w by (simp_all add: sample_server_simps fits8_def m_find_def) (simp_all add: sample_room_def)
  from super_peer_passes_on [OF 1 this, of sample_coconut] w show ?thesis
    by (auto simp: sample_server_simps m_erase_def candidate_in_def)
qed

text \<open>A super peer that connects again.  When a user whose session is the super peer joins the
  room with a second session, the server closes the first session and gives its place in the map
  to the second, but the room's super peer stays the closed session: its \<^verbatim>\<open>onClosed\<close> does nothing,
  and no session of the room can become super peer after that.\<close>

lemma rejoined_super_peer_stays_stale:
  assumes "m_find (roomId_of (sv_world s) j) (sv_rooms s) = Some r" and "rm_superPeer r = Some k"
    and "m_find (userId_of (sv_world s) j) (rm_clientMap r) = Some k" and "j \<noteq> k"
  shows "\<exists>f s1. joinRoom j s = (Inr f, s1)
    \<and> findUser (roomId_of (sv_world s) j) (userId_of (sv_world s) j) s1 = Some j
    \<and> w_out (sv_world s1) = w_out (sv_world s) @ [SocketClose k]
    \<and> onClosed co k s1 = (Inr (), s1)
    \<and> currentSuperPeerSession (roomId_of (sv_world s) j) s1 = Some k
    \<and> (\<forall>i s2. setSuperPeerSession co i s1 = (Inr (), s2) \<longrightarrow>
          currentSuperPeerSession (roomId_of (sv_world s) j) s2 = Some k)"
proof -
  let ?w = "sv_world s" let ?u = "userId_of ?w j" let ?rid = "roomId_of ?w j"
  let ?r1 = "r\<lparr>rm_clientMap := m_put ?u j (rm_clientMap r)\<rparr>"
  let ?w1 = "add_outs [SocketClose k] (upd_client k (\<lambda>c. c\<lparr>cl_invalidSessionFlag := True\<rparr>) ?w)"
  let ?s1 = "s\<lparr>sv_rooms := m_put ?rid ?r1 (sv_rooms s), sv_world := ?w1\<rparr>"
  have "addJoiner j (r, ?w) = (Inr (length (m_put ?u j (rm_clientMap r)) = 1), (?r1, ?w1))"
    using assms(3,4) by (simp add: addJoiner_def Let_def)
  from on_room_Some [where m = "addJoiner j", OF assms(1) this]
  have join: "joinRoom j s = (Inr (length (m_put ?u j (rm_clientMap r)) = 1), ?s1)"
    using assms(1) by (simp add: joinRoom_def Let_def)
  have "onClosed co k ?s1 = (Inr (), ?s1)" by (simp add: onClosed_def upd_client_def)
  moreover have cur: "currentSuperPeerSession ?rid ?s1 = Some k"
    using assms(2) by (simp add: currentSuperPeerSession_def std.find_put)
  moreover have "findUser ?rid ?u ?s1 = Some j"
    by (simp add: findUser_def room_findUser_def std.find_put)
  moreover have "w_out (sv_world ?s1) = w_out ?w @ [SocketClose k]" by (simp add: upd_client_def)
  moreover have "currentSuperPeerSession ?rid s2 = Some k" if "setSuperPeerSession co i ?s1 = (Inr (), s2)" for i s2
  proof (cases "roomId_of ?w1 i = ?rid")
    case True
    have "room_setSuperPeerSession co i (?r1, ?w1) = (Inr (), (?r1, ?w1))"
      using assms(2) by (simp add: room_setSuperPeerSession_def)
    with that True have "s2 = ?s1\<lparr>sv_rooms := m_put ?rid ?r1 (sv_rooms ?s1), sv_world := ?w1\<rparr>"
      by (simp add: setSuperPeerSession_def on_room_def std.find_put)
    with assms(2) show ?thesis by (simp add: currentSuperPeerSession_def std.find_put)
  next
    case False
    have sp: "\<exists>v. snd (on_room rid () m x) = v \<and> m_find ?rid (sv_rooms v) = m_find ?rid (sv_rooms x)"
      if "rid \<noteq> ?rid" for rid m x
      using that by (auto simp: on_room_def std.find_put split: option.splits prod.splits)
    from sp [of "roomId_of ?w1 i" "room_setSuperPeerSession co i" ?s1] False that cur show ?thesis
      by (auto simp: setSuperPeerSession_def currentSuperPeerSession_def)
  qed
  ultimately show ?thesis using join by blast
qed

section \<open>The server never fails\<close>

definition succeeds :: "('s \<Rightarrow> bool) \<Rightarrow> ('s, 'a) meth \<Rightarrow> ('a \<Rightarrow> bool) \<Rightarrow> bool" where
  "succeeds P m Q \<longleftrightarrow> (\<forall>s. P s \<longrightarrow> (\<exists>a s'. m s = (Inr a, s') \<and> P s' \<and> Q a))"

lemma succeeds_bindS:
  "succeeds P m Q \<Longrightarrow> (\<And>a. Q a \<Longrightarrow> succeeds P (k a) R) \<Longrightarrow> succeeds P (bindS m k) R"
  by (fastforce simp: succeeds_def bindS_def)

lemma succeeds_returnS: "Q a \<Longrightarrow> succeeds P (returnS a) Q"
  by (simp add: succeeds_def)

lemma succeeds_askS: "(\<And>s. P s \<Longrightarrow> Q (f s)) \<Longrightarrow> succeeds P (askS f) Q"
  by (simp add: succeeds_def askS_def)

definition world_ok :: "world \<Rightarrow> bool" where
  "world_ok w \<longleftrightarrow> (\<forall>i. ok_server_user (cl_user (w_clients w i)) \<and> fits8 (cl_peerIp (w_clients w i)))"

definition room_ok :: "SharedPaintRoom \<Rightarrow> bool" where
  "room_ok r \<longleftrightarrow> m_ok (rm_clientMap r) \<and> fits8 (rm_roomId r)"

definition rw_ok :: "room_state \<Rightarrow> bool" where
  "rw_ok rw \<longleftrightarrow> room_ok (fst rw) \<and> world_ok (snd rw)"

definition server_ok :: "server \<Rightarrow> bool" where
  "server_ok s \<longleftrightarrow> m_ok (sv_rooms s) \<and> (\<forall>rid r. m_find rid (sv_rooms s) = Some r \<longrightarrow> room_ok r)
     \<and> world_ok (sv_world s)"

lemma world_ok_outs [simp]: "world_ok (add_outs xs w) = world_ok w"
  by (simp add: world_ok_def)

lemma world_ok_fits: "world_ok w \<Longrightarrow> fits8 (userId_of w i)" "world_ok w \<Longrightarrow> fits8 (roomId_of w i)"
  unfolding world_ok_def ok_server_user_def userId_of_def roomId_of_def Let_def by blast+

lemma world_ok_upd: "world_ok w \<Longrightarrow> ok_server_user (cl_user (f (w_clients w i))) \<Longrightarrow>
    fits8 (cl_peerIp (f (w_clients w i))) \<Longrightarrow> world_ok (upd_client i f w)"
  by (simp add: world_ok_def upd_client_def)

lemma succeeds_roomCast: "succeeds rw_ok (room_roomCast u (Some p) b) (\<lambda>x. True)"
  by (auto simp: succeeds_def rw_ok_def room_roomCast_eq)

lemma succeeds_on_room:
  assumes "succeeds rw_ok m Q" and "Q d"
  shows "succeeds server_ok (on_room rid d m) Q"
  unfolding succeeds_def
proof (intro allI impI)
  fix s assume s: "server_ok s"
  show "\<exists>a s'. on_room rid d m s = (Inr a, s') \<and> server_ok s' \<and> Q a"
  proof (cases "m_find rid (sv_rooms s)")
    case None
    with s assms(2) show ?thesis by (simp add: on_room_None)
  next
    case (Some r)
    with s have "rw_ok (r, sv_world s)" by (auto simp: server_ok_def rw_ok_def)
    with assms(1) obtain a r' w' where m: "m (r, sv_world s) = (Inr a, (r', w'))" "rw_ok (r', w')" "Q a"
      unfolding succeeds_def by (metis surj_pair)
    let ?s = "s\<lparr>sv_rooms := m_put rid r' (sv_rooms s), sv_world := w'\<rparr>"
    have "server_ok ?s" using s m(2) by (auto simp: server_ok_def rw_ok_def std.find_put std.ok_put)
    with on_room_Some [where m = m and d = d, OF Some m(1)] m(3) show ?thesis by blast
  qed
qed

lemma addJoiner_ok: "rw_ok (r, w) \<Longrightarrow> \<exists>a r' w'. addJoiner j (r, w) = (Inr a, (r', w')) \<and> rw_ok (r', w')"
  by (auto simp: addJoiner_def Let_def rw_ok_def room_ok_def std.ok_put world_ok_def upd_client_def
      upd_user_def ok_server_user_def split: option.splits)

lemma succeeds_joinRoom: "succeeds server_ok (joinRoom i) (\<lambda>x. True)"
  unfolding succeeds_def
proof (intro allI impI)
  fix s assume s: "server_ok s"
  let ?rid = "roomId_of (sv_world s) i"
  have j: "succeeds rw_ok (addJoiner i) (\<lambda>x. True)" using addJoiner_ok by (fastforce simp: succeeds_def)
  show "\<exists>a s'. joinRoom i s = (Inr a, s') \<and> server_ok s' \<and> True"
  proof (cases "m_find ?rid (sv_rooms s)")
    case (Some r)
    with succeeds_on_room [OF j, of ?rid False] s show ?thesis
      by (auto simp: joinRoom_def Let_def succeeds_def)
  next
    case None
    have "fits8 ?rid" using s world_ok_fits(2) by (simp add: server_ok_def)
    with s have "rw_ok (new_room ?rid, sv_world s)"
      by (simp add: rw_ok_def room_ok_def new_room_def m_ok_def server_ok_def)
    from addJoiner_ok [OF this, of i] None s show ?thesis
      by (auto simp: joinRoom_def Let_def server_ok_def rw_ok_def std.find_put std.ok_put)
  qed
qed

lemma succeeds_setSuper: "succeeds rw_ok (room_setSuperPeerSession co i) (\<lambda>x. True)"
proof -
  have "\<exists>r' w'. room_setSuperPeerSession co i (r, w) = (Inr (), (r', w')) \<and> rw_ok (r', w')" if "rw_ok (r, w)" for r w
  proof (cases "rm_superPeer r")
    case None
    from that have "fits8 (userId_of w i)" by (simp add: rw_ok_def world_ok_fits)
    from setSuperPeer_run [OF None this] that show ?thesis by (simp add: rw_ok_def room_ok_def)
  next
    case (Some k)
    with that show ?thesis by (simp add: room_setSuperPeerSession_def)
  qed
  then show ?thesis by (fastforce simp: succeeds_def)
qed

lemma succeeds_remove: "succeeds rw_ok (removeJoiner co j) (\<lambda>x. True)"
proof -
  have "\<exists>r' w'. removeJoiner co j (r, w) = (Inr (), (r', w')) \<and> rw_ok (r', w')" if ok: "rw_ok (r, w)" for r w
  proof -
    let ?r1 = "r\<lparr>rm_clientMap := m_erase (userId_of w j) (rm_clientMap r)\<rparr>"
    have r1: "rw_ok (?r1, w)" "rw_ok (?r1\<lparr>rm_superPeer := None\<rparr>, w)"
      using ok by (simp_all add: rw_ok_def room_ok_def std.ok_erase)
    let ?m = "if rm_superPeer ?r1 = Some j
      then (\<lambda>(r2, w2). tossSuperPeerRightToCandidates co (r2\<lparr>rm_superPeer := None\<rparr>, w2)) else returnS ()"
    have f: "fits8 (rm_roomId r)" "fits8 (userId_of w j)" "\<And>i. fits8 (userId_of w i)"
      using ok by (simp_all add: rw_ok_def room_ok_def world_ok_fits)
    have "\<exists>r' w'. ?m (?r1, w) = (Inr (), (r', w')) \<and> rw_ok (r', w')"
      using r1 toss_run [of "?r1\<lparr>rm_superPeer := None\<rparr>" w co] f(3)
      by (auto simp: rw_ok_def room_ok_def)
    then obtain r' w' where m: "?m (?r1, w) = (Inr (), (r', w'))" "rw_ok (r', w')" by blast
    show ?thesis
    proof (cases "m_find (userId_of w j) (rm_clientMap r)")
      case None
      with ok show ?thesis by (simp add: removeJoiner_def Let_def)
    next
      case (Some k)
      have "removeJoiner co j (r, w) = bindS ?m (\<lambda>x. room_roomCast (userId_of w j)
          (srv_LeftUser co (rm_roomId r) (userId_of w j)) False) (?r1, w)"
        using Some by (simp only: removeJoiner_def Let_def prod.case option.case)
      also have "\<dots> = room_roomCast (userId_of w j) (srv_LeftUser co (rm_roomId r) (userId_of w j)) False (r', w')"
        by (rule bindS_Inr [where m = ?m, OF m(1)])
      finally show ?thesis
        using m(2) by (simp add: srv_builders(3) [OF f(1,2)] room_roomCast_eq rw_ok_def)
    qed
  qed
  then show ?thesis by (fastforce simp: succeeds_def)
qed


lemma serialize_clients_ok: "world_ok w \<Longrightarrow> \<exists>b. serialize_clients w es acc = Inr b"
proof (induction es arbitrary: acc)
  case Nil
  then show ?case by simp
next
  case (Cons e es)
  then have "ok_server_user (cl_user (w_clients w (snd e)))" by (simp add: world_ok_def)
  with Cons show ?case by (simp add: server_user.ser_enc)
qed

lemma succeeds_joinerInfo: "succeeds rw_ok room_serializeJoinerInfoPacket (\<lambda>x. True)"
proof -
  have "\<exists>b. room_serializeJoinerInfoPacket (r, w) = (Inr b, (r, w))" if w: "world_ok w" for r w
  proof -
    obtain b where "serialize_clients w (rm_clientMap r) [] = Inr b" using serialize_clients_ok [OF w] by blast
    then show ?thesis by (simp add: room_serializeJoinerInfoPacket_def writeInt16_def string_insert_def)
  qed
  then show ?thesis by (fastforce simp: succeeds_def rw_ok_def)
qed

lemma succeeds_sync: "fits8 target \<Longrightarrow> succeeds rw_ok (room_syncStart co target) (\<lambda>x. True)"
proof -
  assume t: "fits8 target"
  have "\<exists>r' w'. room_syncStart co target (r, w) = (Inr (), (r', w')) \<and> rw_ok (r', w')" if "rw_ok (r, w)" for r w
  proof -
    from that have "fits8 (rm_roomId r)" by (simp add: rw_ok_def room_ok_def)
    from room_syncStart_run [OF this t, of co w] that show ?thesis
      by (auto simp: rw_ok_def room_ok_def)
  qed
  then show ?thesis by (fastforce simp: succeeds_def)
qed

lemma succeeds_uniCast: "succeeds rw_ok (room_uniCast (Some p)) (\<lambda>x. True)"
  by (auto simp: succeeds_def room_uniCast_def rw_ok_def split: option.splits)

text \<open>Strings that are read with an 8-bit length are short.\<close>

lemma readString8_fits: "readString8 d p = Inr (v, n) \<Longrightarrow> fits8 v" "left_by readInt8 d p = Some v \<Longrightarrow> fits8 v"
proof -
  have r: "length v \<le> unat (len :: byte)" if "read d q (unat len) = Inr v" for len q v
    using that by (auto simp: read_def split: if_splits)
  have "length v \<le> 255" if "read d q (unat (len :: byte)) = Inr v" for len q v
    using r [OF that] unat_byte_le [of len] by simp
  then show "readString8 d p = Inr (v, n) \<Longrightarrow> fits8 v" "left_by readInt8 d p = Some v \<Longrightarrow> fits8 v"
    by (auto simp: readString8_def left_by_def bindE_eq_Inr fits8_def unat_byte_le split: if_splits sum.splits)
qed

fun left_state :: "'s outcome \<Rightarrow> 's" where
  "left_state (Done s p) = s"
| "left_state (Thrown e s) = s"

definition keeps_read :: "('s \<Rightarrow> bool) \<Rightarrow> 's rstmt \<Rightarrow> bool" where
  "keeps_read P st \<longleftrightarrow> (\<forall>d s p. P s \<longrightarrow> P (left_state (st d s p)))"

lemma keeps_run_reads: "\<forall>st\<in>set sts. keeps_read P st \<Longrightarrow> keeps_read P (run_reads sts)"
proof (induction sts)
  case Nil
  show ?case by (simp add: keeps_read_def)
next
  case (Cons st sts)
  have "P (left_state (run_reads (st # sts) d s p))" if "P s" for d s p
  proof -
    have 1: "P (left_state (st d s p))" using Cons.prems that by (simp add: keeps_read_def)
    show ?thesis
    proof (cases "st d s p")
      case (Done s' p')
      with 1 Cons show ?thesis by (simp add: run_reads.simps(2) keeps_read_def)
    next
      case (Thrown e s')
      with 1 show ?thesis by (simp add: run_reads.simps(2))
    qed
  qed
  then show ?case by (simp add: keeps_read_def)
qed

lemma keeps_rs: "(\<And>v s. P s \<Longrightarrow> P (upd v s)) \<Longrightarrow> keeps_read P (rs f upd)"
  by (auto simp: keeps_read_def rs_def split: sum.splits prod.splits)

lemma keeps_rs_string8:
  assumes "\<And>v s. P s \<Longrightarrow> fits8 v \<Longrightarrow> P (upd v s)"
  shows "keeps_read P (rs_string8 upd)"
  using assms readString8_fits
  by (auto simp: keeps_read_def rs_str_def split: sum.splits prod.splits option.splits)

lemma deserialize_keeps_ok: "ok_server_user u \<Longrightarrow> ok_server_user (fst (snd (deserialize_server_user d 0 u)))"
proof -
  have "keeps_read ok_server_user (run_reads server_user_reads)"
    by (rule keeps_run_reads)
      (auto simp: server_user_reads_def ok_server_user_def Let_def intro!: keeps_rs keeps_rs_string8)
  then have "ok_server_user u \<Longrightarrow> ok_server_user (left_state (run_reads server_user_reads d u 0))"
    by (simp add: keeps_read_def)
  then show "ok_server_user u \<Longrightarrow> ok_server_user (fst (snd (deserialize_server_user d 0 u)))"
    by (cases "run_reads server_user_reads d u 0") (simp_all add: deserialize_server_user_def try_reads_def)
qed

lemma nick_fits: "srv_parse_ChangeNickName d = (ok, u, n) \<Longrightarrow> fits8 n"
proof -
  have "keeps_read (\<lambda>x. fits8 (snd x)) (run_reads nick_reads)"
    by (rule keeps_run_reads) (auto simp: nick_reads_def intro!: keeps_rs_string8)
  then have "fits8 (snd (left_state (run_reads nick_reads d ([], []) 0)))"
    by (simp add: keeps_read_def fits8_def)
  then show "srv_parse_ChangeNickName d = (ok, u, n) \<Longrightarrow> fits8 n"
    by (cases "run_reads nick_reads d ([], []) 0") (simp_all add: srv_parse_ChangeNickName_def)
qed

section \<open>Every handler succeeds\<close>

lemma succeeds_on_world: "(\<And>w. world_ok w \<Longrightarrow> world_ok (f w)) \<Longrightarrow> succeeds server_ok (on_world f) (\<lambda>x. True)"
  by (simp add: succeeds_def on_world_def server_ok_def)

lemma succeeds_here: "(\<And>s. succeeds P (m s) Q) \<Longrightarrow> succeeds P (\<lambda>s. m s s) Q"
  by (simp add: succeeds_def)

lemma succeeds_setSuperPeer: "succeeds server_ok (setSuperPeerSession co i) (\<lambda>x. True)"
  using succeeds_here [of server_ok "\<lambda>s. on_room (roomId_of (sv_world s) i) () (room_setSuperPeerSession co i)"]
    succeeds_on_room [OF succeeds_setSuper]
  by (simp add: setSuperPeerSession_def [abs_def])

lemma succeeds_leave: "succeeds server_ok (leaveRoom co i) (\<lambda>x. True)"
  using succeeds_here [of server_ok "\<lambda>s. on_room (roomId_of (sv_world s) i) () (removeJoiner co i)"]
    succeeds_on_room [OF succeeds_remove]
  by (simp add: leaveRoom_def [abs_def])

lemma ok_user_at: "server_ok s \<Longrightarrow> fits8 (v_userId (user_at i s)) \<and> fits8 (v_roomId (user_at i s))"
  using world_ok_fits [of "sv_world s" i] by (simp add: server_ok_def user_at_def userId_of_def roomId_of_def)

lemma succeeds_relay: "succeeds server_ok (relay i prot) (\<lambda>x. True)"
  unfolding relay_def roomCast_def uniCast_def
  by (intro succeeds_bindS [where Q = "\<lambda>u. True"] succeeds_askS; (rule TrueI)?)
    (simp add: succeeds_on_room succeeds_roomCast succeeds_uniCast)

lemma succeeds_T: "succeeds P m Q \<Longrightarrow> succeeds P m (\<lambda>x. True)"
  by (fastforce simp: succeeds_def)

lemma succeeds_user: "succeeds server_ok (askS (user_at i)) (\<lambda>u. fits8 (v_userId u) \<and> fits8 (v_roomId u))"
  by (rule succeeds_askS) (rule ok_user_at)

lemma succeeds_checkIfSuperPeer: "succeeds server_ok (checkIfSuperPeer co i) (\<lambda>x. True)"
  unfolding checkIfSuperPeer_def
  by (intro succeeds_bindS [OF succeeds_user] succeeds_bindS [where Q = "\<lambda>x. True"] succeeds_on_world)
    (simp_all add: succeeds_setSuperPeer succeeds_returnS)

lemma succeeds_sync_request: "succeeds server_ok (handle_SYNC_REQUEST co i) (\<lambda>x. True)"
  unfolding handle_SYNC_REQUEST_def syncStart_def
  by (rule succeeds_bindS [OF succeeds_user]) (simp add: succeeds_on_room succeeds_sync)

lemma succeeds_tcpack: "succeeds server_ok (handle_TCPACK co i) (\<lambda>x. True)"
  unfolding handle_TCPACK_def
  by (intro succeeds_bindS [where Q = "\<lambda>x. True"] succeeds_on_world world_ok_upd succeeds_setSuperPeer)
    (simp_all add: upd_user_def world_ok_def ok_server_user_def Let_def)

lemma succeeds_nick: "succeeds server_ok (handle_CHANGE_NICKNAME i prot) (\<lambda>x. True)"
proof -
  obtain ok u n where p: "srv_parse_ChangeNickName (pr_payload prot) = (ok, u, n)"
    by (cases "srv_parse_ChangeNickName (pr_payload prot)") auto
  have n: "fits8 n" by (rule nick_fits [OF p])
  have w: "succeeds server_ok (on_world (upd_client k (upd_user (\<lambda>d. d\<lparr>v_nickName := n\<rparr>)))) (\<lambda>x. True)" for k
    using n by (intro succeeds_on_world world_ok_upd)
      (simp_all add: upd_user_def world_ok_def ok_server_user_def Let_def)
  show ?thesis
    unfolding handle_CHANGE_NICKNAME_def p prod.case
    by (rule succeeds_bindS [where Q = "\<lambda>x. True", OF succeeds_askS])
      (auto intro!: succeeds_returnS succeeds_bindS [OF w] succeeds_relay split: option.splits)
qed

lemma succeeds_write:
  "succeeds server_ok (socket_write i (Some p)) (\<lambda>x. True)"
  unfolding socket_write_def by (simp add: succeeds_on_world)

lemma run_writeBinary:
  "p = length buf \<Longrightarrow> run_writes (wr (\<lambda>b p. writeBinary b p d) # ss) (buf, p) = run_writes ss (buf @ d, p + length d)"
  by (simp add: run_writes.simps(2) wr_def writeBinary_def string_insert_def)

lemma srv_ResponseJoin_ok:
  assumes "fits8 ch" and "\<forall>u. sp = Some u \<longrightarrow> fits8 u"
  shows "srv_ResponseJoin co ch f us sp = Some (new_prot co (srv_code SRV_RES_JOIN) []
    (enc_string8 ch @ enc_int8 (flag f) @ us @ enc_string8 (case sp of Some i \<Rightarrow> i | None \<Rightarrow> [])))"
proof -
  have "fits8 (case sp of Some i \<Rightarrow> i | None \<Rightarrow> [])" using assms(2) by (cases sp) (simp_all add: fits8_def)
  with assms(1) show ?thesis
    unfolding srv_ResponseJoin_def build_prot_def
    by (simp add: or_null_def codec_simps run_writeBinary)
qed

lemma succeeds_join: "succeeds server_ok (handle_JOIN_TO_SERVER co i prot) (\<lambda>x. True)"
proof -
  have upd: "succeeds server_ok (on_world (upd_client i (\<lambda>c. c\<lparr>cl_user := fst (snd (deserialize_server_user (pr_payload prot) 0 (cl_user c)))\<rparr>)))
      (\<lambda>x. True)"
    by (intro succeeds_on_world world_ok_upd) (simp_all add: deserialize_keeps_ok, simp_all add: world_ok_def deserialize_keeps_ok)
  have ip: "succeeds server_ok (on_world (upd_client i (\<lambda>c. upd_user (\<lambda>d. d\<lparr>v_viewIp := cl_peerIp c\<rparr>) c))) (\<lambda>x. True)"
    by (intro succeeds_on_world world_ok_upd) (simp_all add: upd_user_def world_ok_def ok_server_user_def Let_def)
  have noti: "succeeds server_ok (askS (\<lambda>s. srv_NewJoiner co (cl_user (w_clients (sv_world s) i)))) (\<lambda>p. p \<noteq> None)"
    by (rule succeeds_askS) (simp add: server_ok_def world_ok_def srv_builders(4))
  have sp: "succeeds server_ok (askS (\<lambda>s. map_option (userId_of (sv_world s)) (currentSuperPeerSession r s)))
      (\<lambda>sp. \<forall>u. sp = Some u \<longrightarrow> fits8 u)" for r
    by (rule succeeds_askS) (auto simp: server_ok_def world_ok_fits)
  have info: "succeeds server_ok (serializeJoinerInfoPacket r) (\<lambda>x. True)" for r
    unfolding serializeJoinerInfoPacket_def by (intro succeeds_on_room succeeds_joinerInfo TrueI)
  have cast: "succeeds server_ok (roomCast r u p False) (\<lambda>x. True)" if "p \<noteq> None" for r u p
    using that unfolding roomCast_def by (auto intro!: succeeds_on_room succeeds_roomCast)
  show ?thesis
    unfolding handle_JOIN_TO_SERVER_def
    by (intro succeeds_bindS [OF upd] succeeds_bindS [OF ip] succeeds_bindS [OF succeeds_joinRoom]
        succeeds_bindS [OF succeeds_user] succeeds_bindS [OF noti] succeeds_bindS [OF cast]
        succeeds_bindS [OF succeeds_checkIfSuperPeer] succeeds_bindS [OF info] succeeds_bindS [OF sp])
      (auto simp: srv_ResponseJoin_ok intro: succeeds_write)
qed

lemma succeeds_received: "succeeds server_ok (onSharedPaintReceived co i prot) (\<lambda>x. True)"
proof -
  have "onSharedPaintReceived co i prot \<in> {handle_JOIN_TO_SERVER co i prot, handle_LEAVE co i,
      handle_TCPACK co i, handle_SYNC_REQUEST co i, handle_CHANGE_NICKNAME i prot, relay i prot}"
    by (simp add: onSharedPaintReceived_def)
  then show ?thesis
    using succeeds_join succeeds_leave succeeds_tcpack succeeds_sync_request succeeds_nick succeeds_relay
    by (auto simp: handle_LEAVE_def)
qed

lemma succeeds_closed: "succeeds server_ok (onClosed co i) (\<lambda>x. True)"
  using succeeds_leave [of co i] by (auto simp: succeeds_def onClosed_def)

text \<open>
  The states of the server: sessions whose peer address is \<open>ip\<close>, and any sequence of received
  packets and closed connections.
\<close>

definition new_server :: "(nat \<Rightarrow> bytes) \<Rightarrow> server" where
  "new_server ip = \<lparr>sv_rooms = [], sv_world = \<lparr>w_clients =
     (\<lambda>i. \<lparr>cl_user = new_server_user, cl_invalidSessionFlag = False, cl_peerIp = ip i\<rparr>), w_out = []\<rparr>\<rparr>"

datatype server_event = Received nat SharedPaintProtocol | Closed nat

fun server_step :: "coconut \<Rightarrow> server_event \<Rightarrow> (server, unit) meth" where
  "server_step co (Received i prot) = onSharedPaintReceived co i prot"
| "server_step co (Closed i) = onClosed co i"

inductive server_reachable :: "coconut \<Rightarrow> (nat \<Rightarrow> bytes) \<Rightarrow> server \<Rightarrow> bool" for co ip where
  start: "server_reachable co ip (new_server ip)"
| step: "server_reachable co ip s \<Longrightarrow> server_reachable co ip (snd (server_step co e s))"

lemma succeeds_step: "succeeds server_ok (server_step co e) (\<lambda>x. True)"
  by (cases e) (simp_all add: succeeds_received succeeds_closed)

lemma server_reachable_ok:
  "server_reachable co ip s \<Longrightarrow> (\<forall>i. fits8 (ip i)) \<Longrightarrow> server_ok s"
proof (induction rule: server_reachable.induct)
  case start
  then show ?case
    by (simp add: server_ok_def new_server_def world_ok_def m_ok_def m_find_def ok_server_user_def
        new_server_user_def fits8_def)
next
  case (step s e)
  then obtain a s' where "server_step co e s = (Inr a, s')" "server_ok s'"
    using succeeds_step [of co e] unfolding succeeds_def by blast
  then show ?case by simp
qed

text \<open>C16: the server never fails.  With peer addresses of at most 255 bytes, in every state that any
  sequence of packets from any sessions (well formed or not) and of closed connections can
  reach, every further packet and every further close is handled to its end: no exception leaves
  a handler and no null packet is dereferenced; and the maps of rooms and of members stay in
  order, without a key twice.\<close>

theorem server_never_fails:
  assumes "server_reachable co ip s" and "\<forall>i. fits8 (ip i)"
  shows "(\<forall>e. \<exists>s'. server_step co e s = (Inr (), s')) \<and> m_ok (sv_rooms s)
    \<and> (\<forall>rid r. m_find rid (sv_rooms s) = Some r \<longrightarrow> m_ok (rm_clientMap r))"
proof -
  have ok: "server_ok s" by (rule server_reachable_ok [OF assms])
  then have "\<exists>s'. server_step co e s = (Inr (), s')" for e
    using succeeds_step [of co e] unfolding succeeds_def by force
  with ok show ?thesis by (auto simp: server_ok_def room_ok_def)
qed

theorem server_never_fails_witness:
  "\<exists>s'. server_step sample_coconut (Received 1 (new_prot sample_coconut 7 [] []))
    (snd (server_step sample_coconut (Received 0 (new_prot sample_coconut 0 [] [1, 82])) (new_server (\<lambda>i. [49]))))
    = (Inr (), s')"
proof -
  have "server_reachable sample_coconut (\<lambda>i. [49])
    (snd (server_step sample_coconut (Received 0 (new_prot sample_coconut 0 [] [1, 82])) (new_server (\<lambda>i. [49]))))"
    by (rule server_reachable.step [OF server_reachable.start])
  moreover have "\<forall>i::nat. fits8 [49]" by (simp add: fits8_def)
  ultimately show ?thesis using server_never_fails [of sample_coconut "\<lambda>i. [49]"] by blast
qed


section \<open>The join response and the client\<close>

lemma server_user_then_byte:
  assumes "ok_server_user v"
  shows "\<exists>u'. deserialize_user (enc_server_user v @ [f]) 0 u = (False, u', 0)
    \<and> u_userId (user_data u') = v_userId (v_data v)"
proof -
  have f: "[f] = enc_int8 f @ []" by (simp add: enc_int8_def)
  have e: "readInt8 [] 0 = Inl (CPacketException ''readInt8 failed..'')"
    by (simp add: readInt8_def read_def)
  have "\<exists>u'. run_reads user_reads (enc_server_user v @ enc_int8 f @ []) u 0
      = Thrown (CPacketException ''readInt8 failed..'') u' \<and> u_userId (user_data u') = v_userId (v_data v)"
    using assms
    by (simp add: user_reads_def enc_server_user_def ok_server_user_def Let_def codec_simps
        del: append_Nil2)
      (simp add: run_reads.simps(2) rs_def e)
  then show ?thesis unfolding f by (auto simp: deserialize_user_def try_reads_def)
qed

text \<open>The server's join response is misread by the client.  Take the response for a room with one
  member, its own user, and no super peer, as the server builds it.  The client's parser accepts
  it, takes the channel, the flag and the user's fields; but the user's record lacks two flags,
  so reading the user fails at the end of the packet, the position stays in front of the record,
  and the super peer's id, empty in the packet, becomes the first field of the record, the room
  id.\<close>

lemma server_join_response_misread:
  assumes "rm_clientMap r = [(u, k)]" and "ok_server_user (cl_user (w_clients w k))" and "fits8 (rm_roomId r)"
    and "fst (room_serializeJoinerInfoPacket (r, w)) = Inr us"
    and "srv_ResponseJoin co (rm_roomId r) first us None = Some p"
  shows "\<exists>res usr. parse_ResponseJoin new (pr_payload p) res0 = (True, res)
    \<and> jr_channel res = rm_roomId r \<and> jr_firstFlag res = first \<and> jr_list res = jr_list res0 @ [usr]
    \<and> u_userId (user_data usr) = v_userId (v_data (cl_user (w_clients w k)))
    \<and> jr_superPeerId res = v_roomId (v_data (cl_user (w_clients w k)))"
proof -
  let ?v = "cl_user (w_clients w k)"
  have "us = enc_int16_be 1 @ enc_server_user ?v"
    using assms(4) i16be.write_append [of 1 "[]"]
    by (simp add: room_serializeJoinerInfoPacket_def assms(1) server_user.ser_enc [OF assms(2)] any_def)
  then have p: "pr_payload p = (enc_string8 (rm_roomId r) @ enc_int8 (flag first) @ enc_int16_be 1)
      @ enc_server_user ?v @ enc_string8 []" (is "_ = ?pre @ ?d")
    using assms(5) srv_ResponseJoin_ok [OF assms(3), of None co first us] by (simp add: new_prot_def)
  let ?st = "\<lparr>jl_out = res0\<lparr>jr_channel := rm_roomId r\<rparr>, jl_flag = flag first, jl_count = 1\<rparr>"
  have head: "run_reads (take 3 (join_reads new)) (?pre @ ?d) \<lparr>jl_out = res0, jl_flag = 0, jl_count = 0\<rparr> 0
      = Done ?st (length ?pre)"
    using assms(3) by (simp add: join_reads_def codec_simps i16be.run_read any_def)
  obtain usr where usr: "deserialize_user ?d 0 new = (False, usr, 0)"
    "u_userId (user_data usr) = v_userId (v_data ?v)"
    using server_user_then_byte [OF assms(2), of 0 new] by (auto simp: enc_string8_def enc_int8_def)
  from user.de_shift [of ?pre ?d 0 new] usr(1)
  have "deserialize_user (?pre @ ?d) (length ?pre) new = (False, usr, length ?pre)" by simp
  then have body: "join_users new (?pre @ ?d) ?st (length ?pre)
      = Done (?st\<lparr>jl_out := (jl_out ?st)\<lparr>jr_firstFlag := first, jr_list := jr_list res0 @ [usr]\<rparr>\<rparr>) (length ?pre)"
    by (simp add: join_users_def)
  have "fits8 (v_roomId (v_data ?v))" using assms(2) by (simp add: ok_server_user_def Let_def)
  then have "run_reads (drop 4 (join_reads new)) (?pre @ ?d) s (length ?pre)
      = Done (s\<lparr>jl_out := (jl_out s)\<lparr>jr_superPeerId := v_roomId (v_data ?v)\<rparr>\<rparr>)
          (length ?pre + length (enc_string8 (v_roomId (v_data ?v))))" for s
    using positionalD0 [OF positional_run_reads, of "drop 4 (join_reads new)" ?pre ?d s]
    by (simp add: join_reads_def enc_server_user_def Let_def codec_simps)
  note tail = this
  have split: "join_reads new = take 3 (join_reads new) @ join_users new # drop 4 (join_reads new)"
    by (simp add: join_reads_def)
  have "run_reads (join_reads new) (?pre @ ?d) \<lparr>jl_out = res0, jl_flag = 0, jl_count = 0\<rparr> 0
      = Done (\<lparr>jl_out = res0\<lparr>jr_channel := rm_roomId r, jr_firstFlag := first, jr_list := jr_list res0 @ [usr],
          jr_superPeerId := v_roomId (v_data ?v)\<rparr>, jl_flag = flag first, jl_count = 1\<rparr>)
        (length ?pre + length (enc_string8 (v_roomId (v_data ?v))))"
    by (subst split) (simp only: run_reads_append head outcome.case run_reads.simps(2) body tail, simp)
  with usr(2) show ?thesis
    unfolding parse_ResponseJoin_def p by simp
qed

end
