(* ===== verification/ServerProtocol.thy ===== *)
theory ServerProtocol
  imports ServerRoom
begin

text \<open>
  How the server takes a packet from the bytes of a connection: \<^verbatim>\<open>SharedPaintProtocol::processRead\<close> and
  the methods about the bytes that are left.  The read buffer belongs to the network library, which
  is not part of the repository: it is a type \<open>'b\<close> with the operations the code calls, the record
  \<open>read_buffer\<close>.  The library makes a fresh protocol object for every packet, appends received bytes
  to its buffer, calls \<open>processRead\<close>, and gives what is left to the next object.
\<close>

section \<open>The read buffer\<close>

text \<open>An operation that throws is \<open>None\<close>; a reader gives the value, how many bytes it took, and the buffer.\<close>

record 'b read_buffer =
  rb_remainingSize :: "'b \<Rightarrow> nat"
  rb_readPos :: "'b \<Rightarrow> nat"
  rb_totalSize :: "'b \<Rightarrow> nat"
  rb_readInt8 :: "'b \<Rightarrow> (8 word \<times> nat \<times> 'b) option"
  rb_readInt16 :: "'b \<Rightarrow> (16 word \<times> nat \<times> 'b) option"
  rb_readInt32 :: "'b \<Rightarrow> (32 word \<times> nat \<times> 'b) option"
  rb_read :: "nat \<Rightarrow> 'b \<Rightarrow> (bytes \<times> nat \<times> 'b) option"

section \<open>State\<close>

record HeaderData =
  hd_magic :: "16 word"
  hd_code :: "16 word"
  hd_fromId :: bytes
  hd_toId :: bytes
  hd_blen :: "32 word"

definition new_HeaderData :: HeaderData where
  "new_HeaderData = \<lparr>hd_magic = 0xBEBE, hd_code = 0, hd_fromId = [], hd_toId = [], hd_blen = 0\<rparr>"

record SharedPaintHeader =
  sh_hlen :: "32 word"
  sh_data :: HeaderData

definition sh_totalLength :: "SharedPaintHeader \<Rightarrow> 32 word" where
  "sh_totalLength h = hd_blen (sh_data h) + sh_hlen h"

datatype read_state = Init | MagicCode | Code | FromId | ToId | BodyLength | Payload | Complete

record 'b protocol =
  pt_buffer :: 'b
  pt_currHeaderData :: HeaderData
  pt_header :: SharedPaintHeader
  pt_initHeader :: SharedPaintHeader
  pt_state :: read_state
  pt_payload_pos :: nat
  pt_startRead_pos :: nat
  pt_invalidPacketRecved :: bool
  pt_currIdLen :: "8 word"
  pt_currHeaderLen :: "32 word"

text \<open>The last three arguments are what the constructors leave uninitialised.\<close>

definition new_protocol :: "'b \<Rightarrow> 32 word \<Rightarrow> nat \<Rightarrow> 8 word \<Rightarrow> 'b protocol" where
  "new_protocol b hlen start idLen =
     \<lparr>pt_buffer = b, pt_currHeaderData = new_HeaderData,
      pt_header = \<lparr>sh_hlen = hlen, sh_data = new_HeaderData\<rparr>,
      pt_initHeader = \<lparr>sh_hlen = hlen, sh_data = new_HeaderData\<rparr>,
      pt_state = Init, pt_payload_pos = 0, pt_startRead_pos = start, pt_invalidPacketRecved = False,
      pt_currIdLen = idLen, pt_currHeaderLen = hlen\<rparr>"

definition isReadComplete :: "'b protocol \<Rightarrow> bool" where
  "isReadComplete s \<longleftrightarrow> pt_state s = Complete"

section \<open>Reading\<close>

text \<open>A case of the switch falls through to the next, breaks, or returns true.\<close>

datatype flow = Falls | Breaks | ReturnsTrue

definition next_case :: "('b protocol \<Rightarrow> 'b protocol \<times> flow) \<Rightarrow> ('b protocol \<Rightarrow> 'b protocol \<times> flow) \<Rightarrow>
    'b protocol \<Rightarrow> 'b protocol \<times> flow" where
  "next_case f g s = (case f s of (s', Falls) \<Rightarrow> g s' | (s', Breaks) \<Rightarrow> (s', Breaks) | (s', ReturnsTrue) \<Rightarrow> (s', ReturnsTrue))"

text \<open>\<^verbatim>\<open>currHeaderLen_ += readBuffer_->read...( x )\<close>; an exception leaves the switch.\<close>

definition header_read :: "('b \<Rightarrow> ('v \<times> nat \<times> 'b) option) \<Rightarrow> ('v \<Rightarrow> 'b protocol \<Rightarrow> 'b protocol) \<Rightarrow>
    ('b protocol \<Rightarrow> 'b protocol \<times> flow) \<Rightarrow> 'b protocol \<Rightarrow> 'b protocol \<times> flow" where
  "header_read rdr put k s =
     (case rdr (pt_buffer s) of
        None \<Rightarrow> (s, Breaks)
      | Some (v, n, b) \<Rightarrow>
          k (put v (s\<lparr>pt_buffer := b, pt_currHeaderLen := pt_currHeaderLen s + of_nat n\<rparr>)))"

definition case_Init :: "'b protocol \<Rightarrow> 'b protocol \<times> flow" where
  "case_Init s = (if pt_state s = Init then s\<lparr>pt_state := MagicCode\<rparr> else s, Falls)"

definition case_MagicCode :: "'b read_buffer \<Rightarrow> 'b protocol \<Rightarrow> 'b protocol \<times> flow" where
  "case_MagicCode R s =
     (if pt_state s \<noteq> MagicCode then (s, Falls)
      else (let s = s\<lparr>pt_startRead_pos := rb_readPos R (pt_buffer s), pt_currHeaderLen := 0\<rparr> in
        if rb_remainingSize R (pt_buffer s) < 2 then (s, Breaks)
        else header_read (rb_readInt16 R)
               (\<lambda>v s. s\<lparr>pt_currHeaderData := (pt_currHeaderData s)\<lparr>hd_magic := v\<rparr>\<rparr>)
               (\<lambda>s. if hd_magic (pt_currHeaderData s) = 0xBEBE then (s\<lparr>pt_state := Code\<rparr>, Falls)
                    else (s\<lparr>pt_invalidPacketRecved := True\<rparr>, Breaks)) s))"

definition case_Code :: "'b read_buffer \<Rightarrow> 'b protocol \<Rightarrow> 'b protocol \<times> flow" where
  "case_Code R s =
     (if pt_state s \<noteq> Code then (s, Falls)
      else if rb_remainingSize R (pt_buffer s) < 2 then (s, Breaks)
      else header_read (rb_readInt16 R)
             (\<lambda>v s. s\<lparr>pt_currHeaderData := (pt_currHeaderData s)\<lparr>hd_code := v\<rparr>\<rparr>)
             (\<lambda>s. (s\<lparr>pt_currIdLen := 0, pt_state := FromId\<rparr>, Falls)) s)"

text \<open>The length byte of an identifier: it is read once.\<close>

definition id_length :: "'b read_buffer \<Rightarrow> 'b protocol \<Rightarrow> 'b protocol \<times> flow" where
  "id_length R s =
     (if \<not> pt_currIdLen s \<le> 0 then (s, Falls)
      else if rb_remainingSize R (pt_buffer s) < 1 then (s, Breaks)
      else header_read (rb_readInt8 R) (\<lambda>v s. s\<lparr>pt_currIdLen := v\<rparr>) (\<lambda>s. (s, Falls)) s)"

text \<open>The bytes of an identifier whose length is known.\<close>

definition id_bytes :: "'b read_buffer \<Rightarrow> (bytes \<Rightarrow> 'b protocol \<Rightarrow> 'b protocol) \<Rightarrow> 'b protocol \<Rightarrow> 'b protocol \<times> flow" where
  "id_bytes R put s =
     (if \<not> 0 < pt_currIdLen s then (s, Falls)
      else if rb_remainingSize R (pt_buffer s) < unat (pt_currIdLen s) then (s, Breaks)
      else header_read (rb_read R (unat (pt_currIdLen s))) put (\<lambda>s. (s, Falls)) s)"

definition read_id ::
  "'b read_buffer \<Rightarrow> (bytes \<Rightarrow> 'b protocol \<Rightarrow> 'b protocol) \<Rightarrow> read_state \<Rightarrow> 'b protocol \<Rightarrow> 'b protocol \<times> flow" where
  "read_id R put nxt =
     next_case (id_length R) (next_case (id_bytes R put)
       (\<lambda>s. (s\<lparr>pt_currIdLen := 0, pt_state := nxt\<rparr>, Falls)))"

definition case_FromId :: "'b read_buffer \<Rightarrow> 'b protocol \<Rightarrow> 'b protocol \<times> flow" where
  "case_FromId R s =
     (if pt_state s \<noteq> FromId then (s, Falls)
      else read_id R (\<lambda>v s. s\<lparr>pt_currHeaderData := (pt_currHeaderData s)\<lparr>hd_fromId := v\<rparr>\<rparr>) ToId s)"

definition case_ToId :: "'b read_buffer \<Rightarrow> 'b protocol \<Rightarrow> 'b protocol \<times> flow" where
  "case_ToId R s =
     (if pt_state s \<noteq> ToId then (s, Falls)
      else read_id R (\<lambda>v s. s\<lparr>pt_currHeaderData := (pt_currHeaderData s)\<lparr>hd_toId := v\<rparr>\<rparr>) BodyLength s)"

definition case_BodyLength :: "'b read_buffer \<Rightarrow> 'b protocol \<Rightarrow> 'b protocol \<times> flow" where
  "case_BodyLength R s =
     (if pt_state s \<noteq> BodyLength then (s, Falls)
      else if rb_remainingSize R (pt_buffer s) < 4 then (s, Breaks)
      else header_read (rb_readInt32 R)
             (\<lambda>v s. s\<lparr>pt_currHeaderData := (pt_currHeaderData s)\<lparr>hd_blen := v\<rparr>\<rparr>)
             (\<lambda>s. (s\<lparr>pt_state := Payload,
                     pt_header := \<lparr>sh_hlen = pt_currHeaderLen s, sh_data = pt_currHeaderData s\<rparr>,
                     pt_payload_pos := pt_payload_pos s + unat (pt_currHeaderLen s)\<rparr>, Falls)) s)"

text \<open>\<^verbatim>\<open>int remain = header_.totalLength() - readBuffer_->totalSize()\<close>, cut to 32 bits.\<close>

definition case_Payload :: "'b read_buffer \<Rightarrow> 'b protocol \<Rightarrow> 'b protocol \<times> flow" where
  "case_Payload R s =
     (if pt_state s \<noteq> Payload then (s, Falls)
      else if 0 <s sh_totalLength (pt_header s) - of_nat (rb_totalSize R (pt_buffer s)) then (s, Breaks)
      else (s\<lparr>pt_state := Complete\<rparr>, Falls))"

definition case_Complete :: "'b read_buffer \<Rightarrow> 'b protocol \<Rightarrow> 'b protocol \<times> flow" where
  "case_Complete R s =
     (if pt_state s \<noteq> Complete then (s, Falls)
      else (s\<lparr>pt_initHeader := pt_header s, pt_payload_pos := rb_readPos R (pt_buffer s)\<rparr>, ReturnsTrue))"

definition processRead :: "'b read_buffer \<Rightarrow> 'b protocol \<Rightarrow> bool \<times> 'b protocol" where
  "processRead R s =
     (case next_case case_Init (next_case (case_MagicCode R) (next_case (case_Code R)
        (next_case (case_FromId R) (next_case (case_ToId R) (next_case (case_BodyLength R)
        (next_case (case_Payload R) (case_Complete R))))))) s of
        (s', f) \<Rightarrow> (f = ReturnsTrue, s'))"

section \<open>What is left, and what is passed on\<close>

definition readPayloadSize :: "'b read_buffer \<Rightarrow> 'b protocol \<Rightarrow> 64 word" where
  "readPayloadSize R s = of_nat (rb_readPos R (pt_buffer s)) - of_nat (pt_payload_pos s)"

text \<open>The numbers are \<^verbatim>\<open>size_t\<close>; \<^verbatim>\<open>totalLength()\<close> is an \<^verbatim>\<open>int\<close>.  Before a packet is complete the base class answers.\<close>

definition remainingBufferSize :: "'b read_buffer \<Rightarrow> ('b protocol \<Rightarrow> 64 word) \<Rightarrow> 'b protocol \<Rightarrow> 64 word" where
  "remainingBufferSize R base s =
     (if isReadComplete s
      then of_nat (rb_remainingSize R (pt_buffer s))
        - (scast (sh_totalLength (pt_initHeader s)) - of_nat (pt_payload_pos s) - readPayloadSize R s)
      else base s)"

text \<open>How far behind the read position the left bytes start.\<close>

definition remainingBufferPtr :: "'b read_buffer \<Rightarrow> ('b protocol \<Rightarrow> 64 word) \<Rightarrow> 'b protocol \<Rightarrow> 64 word" where
  "remainingBufferPtr R base s =
     (if isReadComplete s
      then scast (sh_totalLength (pt_initHeader s)) - of_nat (pt_payload_pos s) - readPayloadSize R s
      else base s)"

text \<open>The bytes to pass on and their number: the packet as it was read, or \<open>written\<close> bytes of the write buffer.\<close>

datatype base_ptr = NoPtr | ReadBufferAt nat | WriteBuffer

definition pt_basePtr :: "nat \<Rightarrow> 'b protocol \<Rightarrow> base_ptr" where
  "pt_basePtr written s =
     (if isReadComplete s then ReadBufferAt (pt_startRead_pos s) else if 0 < written then WriteBuffer else NoPtr)"

definition pt_totalSize :: "nat \<Rightarrow> 'b protocol \<Rightarrow> 64 word" where
  "pt_totalSize written s =
     (if isReadComplete s then scast (sh_totalLength (pt_header s)) else of_nat written)"

section \<open>What is assumed of the read buffer\<close>

text \<open>
  The buffer shows the bytes it holds and a position in them; the readers give the integer at the
  position, in the byte order of the clients, and advance.
\<close>

definition reader_at :: "('b \<Rightarrow> ('v \<times> nat \<times> 'b) option) \<Rightarrow> ('b \<Rightarrow> bytes \<times> nat) \<Rightarrow>
    (bytes \<Rightarrow> nat \<Rightarrow> ('v \<times> nat) result) \<Rightarrow> bool" where
  "reader_at rdr view rd \<longleftrightarrow> (\<forall>b d p v n. view b = (d, p) \<longrightarrow> rd d p = Inr (v, n) \<longrightarrow>
     (\<exists>b'. rdr b = Some (v, n, b') \<and> view b' = (d, p + n)))"

definition transports :: "'b read_buffer \<Rightarrow> ('b \<Rightarrow> bytes \<times> nat) \<Rightarrow> (bytes \<Rightarrow> 'b \<Rightarrow> 'b) \<Rightarrow> bool" where
  "transports R view add \<longleftrightarrow>
     (\<forall>b d p. view b = (d, p) \<longrightarrow> p \<le> length d \<and> rb_remainingSize R b = length d - p
        \<and> rb_readPos R b = p \<and> rb_totalSize R b = length d \<and> (\<forall>x. view (add x b) = (d @ x, p)))
     \<and> reader_at (rb_readInt8 R) view readInt8
     \<and> reader_at (rb_readInt16 R) view (\<lambda>d p. readInt16 d p True)
     \<and> reader_at (rb_readInt32 R) view (\<lambda>d p. readInt32 d p True)
     \<and> (\<forall>n. reader_at (rb_read R n) view
          (\<lambda>d p. if p + n \<le> length d then Inr (take n (drop p d), n) else Inl BufferOverread))"

lemma reader_atD:
  "reader_at rdr view rd \<Longrightarrow> view b = (d, p) \<Longrightarrow> rd d p = Inr (v, n) \<Longrightarrow>
   \<exists>b'. rdr b = Some (v, n, b') \<and> view b' = (d, p + n)"
  unfolding reader_at_def by blast

lemma transportsD:
  assumes "transports R view add" and "view b = (d, p)"
  shows "p \<le> length d" "rb_remainingSize R b = length d - p" "rb_readPos R b = p" "rb_totalSize R b = length d"
    "view (add x b) = (d @ x, p)"
  using assms by (auto simp: transports_def)

lemma transports_readers:
  assumes "transports R view add" and "view b = (pre @ e @ x, length pre)"
  shows "e = enc_int8 v1 \<Longrightarrow> \<exists>b'. rb_readInt8 R b = Some (v1, 1, b') \<and> view b' = (pre @ e @ x, length pre + 1)"
    and "e = enc_int16 v2 \<Longrightarrow> \<exists>b'. rb_readInt16 R b = Some (v2, 2, b') \<and> view b' = (pre @ e @ x, length pre + 2)"
    and "e = enc_int32 v4 \<Longrightarrow> \<exists>b'. rb_readInt32 R b = Some (v4, 4, b') \<and> view b' = (pre @ e @ x, length pre + 4)"
    and "\<exists>b'. rb_read R (length e) b = Some (e, length e, b') \<and> view b' = (pre @ e @ x, length pre + length e)"
proof -
  have r: "readInt8 (pre @ enc_int8 v1 @ x) (length pre) = Inr (v1, 1)"
    "readInt16 (pre @ enc_int16 v2 @ x) (length pre) True = Inr (v2, 2)"
    "readInt32 (pre @ enc_int32 v4 @ x) (length pre) True = Inr (v4, 4)"
    using i8.read_shift [of pre _ 0] i16.read_shift [of pre _ 0] i32.read_shift [of pre _ 0]
    by (simp_all add: readInt8_enc readInt16_enc readInt32_enc)
  have R: "reader_at (rb_readInt8 R) view readInt8" "reader_at (rb_readInt16 R) view (\<lambda>d p. readInt16 d p True)"
    "reader_at (rb_readInt32 R) view (\<lambda>d p. readInt32 d p True)"
    "reader_at (rb_read R (length e)) view
      (\<lambda>d p. if p + length e \<le> length d then Inr (take (length e) (drop p d), length e) else Inl BufferOverread)"
    using assms(1) by (simp_all add: transports_def)
  show "e = enc_int8 v1 \<Longrightarrow> \<exists>b'. rb_readInt8 R b = Some (v1, 1, b') \<and> view b' = (pre @ e @ x, length pre + 1)"
    using reader_atD [OF R(1) assms(2)] r(1) by blast
  show "e = enc_int16 v2 \<Longrightarrow> \<exists>b'. rb_readInt16 R b = Some (v2, 2, b') \<and> view b' = (pre @ e @ x, length pre + 2)"
    using reader_atD [OF R(2) assms(2)] r(2) by blast
  show "e = enc_int32 v4 \<Longrightarrow> \<exists>b'. rb_readInt32 R b = Some (v4, 4, b') \<and> view b' = (pre @ e @ x, length pre + 4)"
    using reader_atD [OF R(3) assms(2)] r(3) by blast
  show "\<exists>b'. rb_read R (length e) b = Some (e, length e, b') \<and> view b' = (pre @ e @ x, length pre + length e)"
    using reader_atD [OF R(4) assms(2), of e "length e"] by simp
qed

section \<open>In the middle of a packet\<close>

text \<open>The fields of the packet, up to the state, and the position after them.\<close>

definition header_bytes :: "CPacketData \<Rightarrow> bytes" where
  "header_bytes p = enc_int16 NET_MAGIC_CODE @ enc_int16 (pd_code p) @ enc_string8 (pd_fromId p)
     @ enc_string8 (pd_toId p) @ enc_int32 (of_nat (length (pd_body p)))"

lemma pkt_bytes_header: "pkt_bytes p = header_bytes p @ pd_body p"
  by (simp add: pkt_bytes_def header_bytes_def)

fun read_so_far :: "CPacketData \<Rightarrow> read_state \<Rightarrow> bytes" where
  "read_so_far p Init = []"
| "read_so_far p MagicCode = []"
| "read_so_far p Code = enc_int16 NET_MAGIC_CODE"
| "read_so_far p FromId = enc_int16 NET_MAGIC_CODE @ enc_int16 (pd_code p)"
| "read_so_far p ToId = enc_int16 NET_MAGIC_CODE @ enc_int16 (pd_code p) @ enc_string8 (pd_fromId p)"
| "read_so_far p BodyLength = enc_int16 NET_MAGIC_CODE @ enc_int16 (pd_code p) @ enc_string8 (pd_fromId p)
     @ enc_string8 (pd_toId p)"
| "read_so_far p Payload = header_bytes p"
| "read_so_far p Complete = header_bytes p"

fun id_at :: "CPacketData \<Rightarrow> read_state \<Rightarrow> bytes" where
  "id_at p FromId = pd_fromId p"
| "id_at p ToId = pd_toId p"
| "id_at p st = []"

definition header_of :: "CPacketData \<Rightarrow> HeaderData" where
  "header_of p = \<lparr>hd_magic = NET_MAGIC_CODE, hd_code = pd_code p, hd_fromId = pd_fromId p, hd_toId = pd_toId p,
     hd_blen = of_nat (length (pd_body p))\<rparr>"

definition order_of :: "read_state \<Rightarrow> nat" where
  "order_of st = (case st of Init \<Rightarrow> 0 | MagicCode \<Rightarrow> 1 | Code \<Rightarrow> 2 | FromId \<Rightarrow> 3 | ToId \<Rightarrow> 4
     | BodyLength \<Rightarrow> 5 | Payload \<Rightarrow> 6 | Complete \<Rightarrow> 7)"

text \<open>The header data holds what has been read, and is as it was made otherwise.\<close>

definition header_upto :: "CPacketData \<Rightarrow> read_state \<Rightarrow> HeaderData" where
  "header_upto p st = \<lparr>hd_magic = NET_MAGIC_CODE,
     hd_code = (if 3 \<le> order_of st then pd_code p else 0),
     hd_fromId = (if 4 \<le> order_of st then pd_fromId p else []),
     hd_toId = (if 5 \<le> order_of st then pd_toId p else []),
     hd_blen = (if 6 \<le> order_of st then of_nat (length (pd_body p)) else 0)\<rparr>"

definition reading :: "('b \<Rightarrow> bytes \<times> nat) \<Rightarrow> CPacketData \<Rightarrow> bytes \<Rightarrow> 'b protocol \<Rightarrow> bool" where
  "reading view p d s \<longleftrightarrow>
     (let st = pt_state s; id = id_at p st; done = read_so_far p st;
          k = length done + (if pt_currIdLen s = 0 \<or> id = [] then 0 else 1) in
      view (pt_buffer s) = (d, k)
      \<and> \<not> pt_invalidPacketRecved s
      \<and> pt_currHeaderData s = header_upto p st
      \<and> ((st = FromId \<or> st = ToId) \<longrightarrow> pt_currIdLen s = 0 \<or> pt_currIdLen s = of_nat (length id))
      \<and> (2 \<le> order_of st \<longrightarrow> pt_currHeaderLen s = of_nat k \<and> pt_startRead_pos s = 0)
      \<and> (st \<noteq> Complete \<and> order_of st \<le> 5 \<longrightarrow> pt_payload_pos s = 0)
      \<and> (6 \<le> order_of st \<longrightarrow> pt_header s = \<lparr>sh_hlen = of_nat k, sh_data = header_of p\<rparr>
           \<and> pt_payload_pos s = k)
      \<and> (st = Complete \<longrightarrow> pt_initHeader s = pt_header s \<and> length (pkt_bytes p) \<le> length d))"

text \<open>A case has done its part, or the bytes do not reach.\<close>

definition goes_on :: "('b \<Rightarrow> bytes \<times> nat) \<Rightarrow> CPacketData \<Rightarrow> bytes \<Rightarrow> read_state \<Rightarrow> 'b protocol \<times> flow \<Rightarrow> bool" where
  "goes_on view p d st r \<longleftrightarrow> reading view p d (fst r)
     \<and> (snd r = Falls \<and> pt_state (fst r) = st \<or> snd r = Breaks \<and> length d < length (pkt_bytes p))"

lemma piece:
  assumes "d @ q = pre @ e @ post" and "length pre + length e \<le> length d"
  obtains x where "d = pre @ e @ x"
proof -
  have "take (length pre + length e) (d @ q) = pre @ e" by (simp add: assms(1))
  then have "take (length pre + length e) d = pre @ e" using assms(2) by simp
  then have "d = (pre @ e) @ drop (length pre + length e) d" by (metis append_take_drop_id)
  then show thesis using that by simp
qed

lemmas header_simps = header_upto_def order_of_def NET_MAGIC_CODE_def

lemma magic_goes_on:
  assumes T: "transports R view add" and r: "reading view p d s" and st: "pt_state s = MagicCode"
    and d: "d @ q = pkt_bytes p @ rest"
  shows "goes_on view p d Code (case_MagicCode R s)"
proof -
  have v: "view (pt_buffer s) = (d, 0)" using r st by (simp add: reading_def)
  show ?thesis
  proof (cases "length d < 2")
    case True
    then show ?thesis using transportsD [OF T v] r st
      by (simp add: case_MagicCode_def goes_on_def length_pkt_bytes reading_def Let_def order_of_def)
  next
    case False
    have "d @ q = [] @ enc_int16 NET_MAGIC_CODE @ (drop 2 (pkt_bytes p) @ rest)"
      using d by (simp add: pkt_bytes_def enc_int16_def)
    then obtain x where x: "d = [] @ enc_int16 NET_MAGIC_CODE @ x"
      by (rule piece) (use False in simp)
    with v have v': "view (pt_buffer s) = ([] @ enc_int16 NET_MAGIC_CODE @ x, length [])" by simp
    from transports_readers(2) [OF T v' refl] obtain b where
      "rb_readInt16 R (pt_buffer s) = Some (NET_MAGIC_CODE, 2, b)" "view b = (d, 2)" using x by auto
    then show ?thesis using transportsD [OF T v] r st False
      by (simp add: case_MagicCode_def goes_on_def reading_def Let_def header_read_def header_simps)
  qed
qed

lemma code_goes_on:
  assumes T: "transports R view add" and r: "reading view p d s" and st: "pt_state s = Code"
    and d: "d @ q = pkt_bytes p @ rest"
  shows "goes_on view p d FromId (case_Code R s)"
proof -
  let ?pre = "enc_int16 NET_MAGIC_CODE" and ?e = "enc_int16 (pd_code p)"
  have v: "view (pt_buffer s) = (d, length ?pre)" using r st by (simp add: reading_def)
  show ?thesis
  proof (cases "length d < length ?pre + length ?e")
    case True
    then have "rb_remainingSize R (pt_buffer s) < 2" using transportsD [OF T v] by simp
    with True show ?thesis using r st
      by (simp add: case_Code_def goes_on_def length_pkt_bytes)
  next
    case False
    have "d @ q = ?pre @ ?e @ (drop 4 (pkt_bytes p) @ rest)"
      using d by (simp add: pkt_bytes_def enc_int16_def)
    then obtain x where x: "d = ?pre @ ?e @ x" by (rule piece) (use False in simp)
    with v have v': "view (pt_buffer s) = (?pre @ ?e @ x, length ?pre)" by simp
    from transports_readers(2) [OF T v' refl] obtain b where
      "rb_readInt16 R (pt_buffer s) = Some (pd_code p, 2, b)" "view b = (d, 4)" using x by auto
    moreover have "\<not> rb_remainingSize R (pt_buffer s) < 2" using transportsD(1,2) [OF T v] False by simp
    ultimately show ?thesis using r st
      by (simp add: case_Code_def goes_on_def reading_def Let_def header_read_def header_simps)
  qed
qed

lemma blen_goes_on:
  assumes T: "transports R view add" and r: "reading view p d s" and st: "pt_state s = BodyLength"
    and d: "d @ q = pkt_bytes p @ rest" and ok: "pkt_ok p"
  shows "goes_on view p d Payload (case_BodyLength R s)"
proof -
  let ?pre = "read_so_far p BodyLength" and ?e = "enc_int32 (of_nat (length (pd_body p)))"
  have v: "view (pt_buffer s) = (d, length ?pre)" using r st by (simp add: reading_def)
  show ?thesis
  proof (cases "length d < length ?pre + length ?e")
    case True
    then have "rb_remainingSize R (pt_buffer s) < 4" using transportsD(1,2) [OF T v] by simp
    with True show ?thesis using r st
      by (simp add: case_BodyLength_def goes_on_def length_pkt_bytes)
  next
    case False
    have "d @ q = ?pre @ ?e @ (pd_body p @ rest)" using d by (simp add: pkt_bytes_def)
    then obtain x where x: "d = ?pre @ ?e @ x" by (rule piece) (use False in simp)
    with v have v': "view (pt_buffer s) = (?pre @ ?e @ x, length ?pre)" by simp
    from transports_readers(3) [OF T v' refl] obtain b where
      b: "rb_readInt32 R (pt_buffer s) = Some (of_nat (length (pd_body p)), 4, b)" "view b = (d, length ?pre + 4)"
      using x by auto
    have "length (header_bytes p) \<le> 1000" using ok by (simp add: header_bytes_def pkt_ok_def fits8_def)
    then have n: "unat (of_nat (length (header_bytes p)) :: 32 word) = length (header_bytes p)"
      by (simp add: unat_of_nat take_bit_eq_mod)
    have len: "pt_currHeaderLen s + 4 = of_nat (length (header_bytes p))"
      using r st by (simp add: reading_def header_bytes_def order_of_def)
    have "\<not> rb_remainingSize R (pt_buffer s) < 4" using transportsD(1,2) [OF T v] False by simp
    then show ?thesis using r st b len n
      by (simp add: case_BodyLength_def goes_on_def reading_def Let_def header_read_def header_simps header_of_def)
        (simp add: header_bytes_def)
  qed
qed

lemma id_length_step:
  assumes T: "transports R view add" and v: "view (pt_buffer s) = (d, length pre)"
    and d: "d @ q = pre @ enc_string8 i @ post" and "pt_currIdLen s = 0"
  shows "id_length R s = (s, Breaks) \<and> length d < length pre + 1
    \<or> (\<exists>b. id_length R s = (s\<lparr>pt_buffer := b, pt_currHeaderLen := pt_currHeaderLen s + 1, pt_currIdLen := of_nat (length i)\<rparr>, Falls)
         \<and> view b = (d, length pre + 1))"
proof (cases "length d < length pre + 1")
  case True
  then have "rb_remainingSize R (pt_buffer s) < 1" using transportsD(1,2) [OF T v] by simp
  with True show ?thesis using assms(4) by (simp add: id_length_def)
next
  case False
  let ?e = "enc_int8 (of_nat (length i))"
  have "d @ q = pre @ ?e @ (i @ post)" using d by (simp add: enc_string8_def)
  then obtain x where x: "d = pre @ ?e @ x" by (rule piece) (use False in simp)
  with v have v': "view (pt_buffer s) = (pre @ ?e @ x, length pre)" by simp
  from transports_readers(1) [OF T v' refl] obtain b where
    "rb_readInt8 R (pt_buffer s) = Some (of_nat (length i), 1, b)" "view b = (d, length pre + 1)" using x by auto
  moreover have "\<not> rb_remainingSize R (pt_buffer s) < 1" using transportsD(1,2) [OF T v] False by simp
  ultimately show ?thesis using assms(4) by (auto simp: id_length_def header_read_def)
qed

lemma id_bytes_step:
  assumes T: "transports R view add" and v: "view (pt_buffer s) = (d, length pre)"
    and d: "d @ q = pre @ i @ post" and i: "i \<noteq> []" "fits8 i" and "pt_currIdLen s = of_nat (length i)"
  shows "id_bytes R put s = (s, Breaks) \<and> length d < length pre + length i
    \<or> (\<exists>b. id_bytes R put s
          = (put i (s\<lparr>pt_buffer := b, pt_currHeaderLen := pt_currHeaderLen s + of_nat (length i)\<rparr>), Falls)
         \<and> view b = (d, length pre + length i))"
proof -
  have n: "unat (pt_currIdLen s) = length i" using of_nat_byte [OF i(2)] assms(6) by simp
  then have pos: "0 < pt_currIdLen s" using i(1) by (simp add: word_less_nat_alt)
  show ?thesis
  proof (cases "length d < length pre + length i")
    case True
    then have "rb_remainingSize R (pt_buffer s) < length i" using transportsD(1,2) [OF T v] i(1) by (cases i) auto
    with True show ?thesis using n pos by (simp add: id_bytes_def)
  next
    case False
    obtain x where x: "d = pre @ i @ x" by (rule piece [OF d]) (use False in simp)
    with v have v': "view (pt_buffer s) = (pre @ i @ x, length pre)" by simp
    from transports_readers(4) [OF T v'] obtain b where
      "rb_read R (length i) (pt_buffer s) = Some (i, length i, b)" "view b = (d, length pre + length i)" using x by auto
    moreover have "\<not> rb_remainingSize R (pt_buffer s) < length i" using transportsD(1,2) [OF T v] False by simp
    ultimately show ?thesis using n pos by (auto simp: id_bytes_def header_read_def)
  qed
qed

text \<open>Both identifiers; the identifier is stored by \<open>g\<close>.\<close>

lemma read_id_step:
  assumes T: "transports R view add" and d: "d @ q = pre @ enc_string8 i @ post" and i: "fits8 i"
    and v: "view (pt_buffer s) = (d, length pre + (if pt_currIdLen s = 0 \<or> i = [] then 0 else 1))"
    and l: "pt_currIdLen s = 0 \<or> pt_currIdLen s = of_nat (length i)"
    and h: "pt_currHeaderLen s = of_nat (length pre + (if pt_currIdLen s = 0 \<or> i = [] then 0 else 1))"
  shows "(\<exists>b k. read_id R (\<lambda>v s. s\<lparr>pt_currHeaderData := g v (pt_currHeaderData s)\<rparr>) nxt s
          = (s\<lparr>pt_buffer := b, pt_currHeaderLen := of_nat (length pre + (if k = 0 \<or> i = [] then 0 else 1)),
               pt_currIdLen := k\<rparr>, Breaks)
        \<and> (k = 0 \<or> k = of_nat (length i)) \<and> view b = (d, length pre + (if k = 0 \<or> i = [] then 0 else 1))
        \<and> length d < length pre + 1 + length i)
    \<or> (\<exists>b. read_id R (\<lambda>v s. s\<lparr>pt_currHeaderData := g v (pt_currHeaderData s)\<rparr>) nxt s
          = (s\<lparr>pt_buffer := b, pt_currHeaderLen := of_nat (length pre + 1 + length i), pt_currIdLen := 0,
               pt_currHeaderData := (if i = [] then pt_currHeaderData s else g i (pt_currHeaderData s)),
               pt_state := nxt\<rparr>, Falls)
        \<and> view b = (d, length pre + 1 + length i))"
    (is "?stays (read_id R ?put nxt s) \<or> ?goes (read_id R ?put nxt s)")
proof -
  let ?n = "of_nat (length i) :: 8 word"
  have n0: "?n = 0 \<longleftrightarrow> i = []" using of_nat_byte [OF i] by (auto simp flip: unat_eq_0)
  let ?rest = "next_case (id_bytes R ?put) (\<lambda>s. (s\<lparr>pt_currIdLen := 0, pt_state := nxt\<rparr>, Falls))"
  let ?known = "\<lambda>b. s\<lparr>pt_buffer := b, pt_currHeaderLen := of_nat (length pre + 1), pt_currIdLen := ?n\<rparr>"
  have bytes: "?stays (?rest (?known b)) \<or> ?goes (?rest (?known b))"
    if b: "view b = (d, length pre + 1)" for b
  proof (cases "i = []")
    case True
    then show ?thesis using b n0 by (intro disjI2) (auto simp: next_case_def id_bytes_def)
  next
    case False
    let ?s = "s\<lparr>pt_buffer := b, pt_currHeaderLen := of_nat (length pre + 1), pt_currIdLen := ?n\<rparr>"
    have "d @ q = (pre @ enc_int8 ?n) @ i @ post" using d by (simp add: enc_string8_def)
    from id_bytes_step [OF T _ this False i, of ?s ?put] b
    consider (short) "id_bytes R ?put ?s = (?s, Breaks)" "length d < length pre + 1 + length i"
      | (all) b' where "id_bytes R ?put ?s = (?put i (?s\<lparr>pt_buffer := b', pt_currHeaderLen := pt_currHeaderLen ?s + of_nat (length i)\<rparr>), Falls)"
          "view b' = (d, length pre + 1 + length i)" by auto
    then show ?thesis
    proof cases
      case short
      then show ?thesis using b False n0
        by (intro disjI1 exI [of _ b] exI [of _ ?n]) (simp add: next_case_def)
    next
      case all
      then show ?thesis using False by (intro disjI2 exI [of _ b']) (simp add: next_case_def add.assoc)
    qed
  qed
  show ?thesis
  proof (cases "pt_currIdLen s = 0")
    case True
    with v have v0: "view (pt_buffer s) = (d, length pre)" by simp
    from id_length_step [OF T v0 d True] show ?thesis
    proof (elim disjE exE conjE)
      assume e: "id_length R s = (s, Breaks)" "length d < length pre + 1"
      then show ?thesis using v0 h True
        by (intro disjI1 exI [of _ "pt_buffer s"] exI [of _ 0]) (simp add: read_id_def next_case_def)
    next
      fix b assume e: "view b = (d, length pre + 1)"
        "id_length R s = (s\<lparr>pt_buffer := b, pt_currHeaderLen := pt_currHeaderLen s + 1, pt_currIdLen := ?n\<rparr>, Falls)"
      have "s\<lparr>pt_buffer := b, pt_currHeaderLen := pt_currHeaderLen s + 1, pt_currIdLen := ?n\<rparr> = ?known b"
        using h True by simp
      with e(2) have "read_id R ?put nxt s = ?rest (?known b)"
        by (simp only: read_id_def next_case_def [of "id_length R"] prod.case flow.case)
      then show ?thesis using bytes [OF e(1)] by (simp only:)
    qed
  next
    case False
    with l n0 have "i \<noteq> []" "pt_currIdLen s = ?n" by auto
    with v h False have k: "view (pt_buffer s) = (d, length pre + 1)" "s = ?known (pt_buffer s)" by simp_all
    have "id_length R s = (s, Falls)" using False by (simp add: id_length_def)
    then have "read_id R ?put nxt s = ?rest s"
      by (simp only: read_id_def next_case_def [of "id_length R"] prod.case flow.case)
    also have "\<dots> = ?rest (?known (pt_buffer s))" using k(2) by (rule arg_cong)
    finally show ?thesis using bytes [OF k(1)] by (simp only:)
  qed
qed


lemma from_goes_on:
  assumes T: "transports R view add" and r: "reading view p d s" and st: "pt_state s = FromId"
    and d: "d @ q = pkt_bytes p @ rest" and ok: "pkt_ok p"
  shows "goes_on view p d ToId (case_FromId R s)"
proof -
  let ?pre = "read_so_far p FromId" and ?i = "pd_fromId p"
  let ?g = "\<lambda>v h. h\<lparr>hd_fromId := v\<rparr>"
  have i: "fits8 ?i" using ok by (simp add: pkt_ok_def)
  have dd: "d @ q = ?pre @ enc_string8 ?i @ (drop (4 + Suc (length ?i)) (pkt_bytes p) @ rest)"
    using d by (simp add: pkt_bytes_def enc_int16_def enc_string8_def)
  have "view (pt_buffer s) = (d, length ?pre + (if pt_currIdLen s = 0 \<or> ?i = [] then 0 else 1))"
    "pt_currIdLen s = 0 \<or> pt_currIdLen s = of_nat (length ?i)"
    "pt_currHeaderLen s = of_nat (length ?pre + (if pt_currIdLen s = 0 \<or> ?i = [] then 0 else 1))"
    using r st by (simp_all add: reading_def Let_def order_of_def)
  from read_id_step [OF T dd i this, of ?g ToId]
  consider (stays) b k where "case_FromId R s = (s\<lparr>pt_buffer := b,
        pt_currHeaderLen := of_nat (length ?pre + (if k = 0 \<or> ?i = [] then 0 else 1)), pt_currIdLen := k\<rparr>, Breaks)"
      "k = 0 \<or> k = of_nat (length ?i)" "view b = (d, length ?pre + (if k = 0 \<or> ?i = [] then 0 else 1))"
      "length d < length ?pre + 1 + length ?i"
    | (goes) b where "case_FromId R s = (s\<lparr>pt_buffer := b, pt_currHeaderLen := of_nat (length ?pre + 1 + length ?i),
        pt_currIdLen := 0, pt_currHeaderData := (if ?i = [] then pt_currHeaderData s else ?g ?i (pt_currHeaderData s)),
        pt_state := ToId\<rparr>, Falls)" "view b = (d, length ?pre + 1 + length ?i)"
    unfolding case_FromId_def using st by (simp only: simp_thms if_False) blast
  then show ?thesis
  proof cases
    case stays
    have "length d < length (pkt_bytes p)" using stays(4) by (simp add: length_pkt_bytes)
    moreover have "reading view p d (fst (case_FromId R s))" unfolding stays(1) reading_def Let_def fst_conv
      using r st stays(2,3) by (simp add: reading_def Let_def order_of_def header_upto_def)
    ultimately show ?thesis by (simp add: goes_on_def stays(1))
  next
    case goes
    have "reading view p d (fst (case_FromId R s))" unfolding goes(1) reading_def Let_def fst_conv
      using r st goes(2) by (simp add: reading_def Let_def order_of_def header_upto_def enc_string8_def)
    then show ?thesis by (simp add: goes_on_def goes(1))
  qed
qed

lemma to_goes_on:
  assumes T: "transports R view add" and r: "reading view p d s" and st: "pt_state s = ToId"
    and d: "d @ q = pkt_bytes p @ rest" and ok: "pkt_ok p"
  shows "goes_on view p d BodyLength (case_ToId R s)"
proof -
  let ?pre = "read_so_far p ToId" and ?i = "pd_toId p"
  let ?g = "\<lambda>v h. h\<lparr>hd_toId := v\<rparr>"
  have i: "fits8 ?i" using ok by (simp add: pkt_ok_def)
  have dd: "d @ q = ?pre @ enc_string8 ?i @ (drop (length ?pre + Suc (length ?i)) (pkt_bytes p) @ rest)"
    using d by (simp add: pkt_bytes_def enc_string8_def)
  have "view (pt_buffer s) = (d, length ?pre + (if pt_currIdLen s = 0 \<or> ?i = [] then 0 else 1))"
    "pt_currIdLen s = 0 \<or> pt_currIdLen s = of_nat (length ?i)"
    "pt_currHeaderLen s = of_nat (length ?pre + (if pt_currIdLen s = 0 \<or> ?i = [] then 0 else 1))"
    using r st by (simp_all add: reading_def Let_def order_of_def)
  from read_id_step [OF T dd i this, of ?g BodyLength]
  consider (stays) b k where "case_ToId R s = (s\<lparr>pt_buffer := b,
        pt_currHeaderLen := of_nat (length ?pre + (if k = 0 \<or> ?i = [] then 0 else 1)), pt_currIdLen := k\<rparr>, Breaks)"
      "k = 0 \<or> k = of_nat (length ?i)" "view b = (d, length ?pre + (if k = 0 \<or> ?i = [] then 0 else 1))"
      "length d < length ?pre + 1 + length ?i"
    | (goes) b where "case_ToId R s = (s\<lparr>pt_buffer := b, pt_currHeaderLen := of_nat (length ?pre + 1 + length ?i),
        pt_currIdLen := 0, pt_currHeaderData := (if ?i = [] then pt_currHeaderData s else ?g ?i (pt_currHeaderData s)),
        pt_state := BodyLength\<rparr>, Falls)" "view b = (d, length ?pre + 1 + length ?i)"
    unfolding case_ToId_def using st by (simp only: simp_thms if_False) blast
  then show ?thesis
  proof cases
    case stays
    have "length d < length (pkt_bytes p)" using stays(4) by (simp add: length_pkt_bytes)
    moreover have "reading view p d (fst (case_ToId R s))" unfolding stays(1) reading_def Let_def fst_conv
      using r st stays(2,3) by (simp add: reading_def Let_def order_of_def header_upto_def)
    ultimately show ?thesis by (simp add: goes_on_def stays(1))
  next
    case goes
    have "reading view p d (fst (case_ToId R s))" unfolding goes(1) reading_def Let_def fst_conv
      using r st goes(2) by (simp add: reading_def Let_def order_of_def header_upto_def enc_string8_def)
    then show ?thesis by (simp add: goes_on_def goes(1))
  qed
qed

text \<open>Where a call of \<open>processRead\<close> leaves the object.\<close>

definition ends :: "('b \<Rightarrow> bytes \<times> nat) \<Rightarrow> CPacketData \<Rightarrow> bytes \<Rightarrow> 'b protocol \<times> flow \<Rightarrow> bool" where
  "ends view p d r \<longleftrightarrow> reading view p d (fst r)
     \<and> (snd r = Breaks \<and> pt_state (fst r) \<noteq> Complete \<and> length d < length (pkt_bytes p)
        \<or> snd r = ReturnsTrue \<and> pt_state (fst r) = Complete \<and> length (pkt_bytes p) \<le> length d)"

lemma order_of_inj [simp]: "order_of a = order_of b \<longleftrightarrow> a = b"
  by (cases a; cases b) (simp_all add: order_of_def)

lemma next_ends:
  assumes r: "reading view p d s" and k: "order_of st \<le> order_of (pt_state s)" and nxt: "order_of nxt = Suc (order_of st)"
    and does: "pt_state s = st \<Longrightarrow> goes_on view p d nxt (f s)"
    and skips: "pt_state s \<noteq> st \<Longrightarrow> f s = (s, Falls)"
    and notlast: "order_of st < 6"
    and breaks: "pt_state s = st \<Longrightarrow> snd (f s) = Breaks \<Longrightarrow> pt_state (fst (f s)) \<noteq> Complete"
    and g: "\<And>s'. reading view p d s' \<Longrightarrow> order_of nxt \<le> order_of (pt_state s') \<Longrightarrow> ends view p d (g s')"
  shows "ends view p d (next_case f g s)"
proof (cases "pt_state s = st")
  case True
  then show ?thesis using does breaks g [of "fst (f s)"]
    by (cases "f s") (auto simp: next_case_def goes_on_def ends_def)
next
  case False
  then have "order_of nxt \<le> order_of (pt_state s)" using k nxt order_of_inj [of st "pt_state s"]
    by (auto simp only: le_less Suc_le_eq)
  then show ?thesis using skips [OF False] g [OF r] by (simp add: next_case_def)
qed

lemma payload_ends:
  assumes T: "transports R view add" and r: "reading view p d s" and st: "6 \<le> order_of (pt_state s)"
    and len: "length d < 2 ^ 31" and ok: "pkt_ok p"
  shows "ends view p d (next_case (case_Payload R) (case_Complete R) s)"
proof -
  have v: "view (pt_buffer s) = (d, length (header_bytes p))" and h: "pt_state s = Payload \<or> pt_state s = Complete"
    using r st by (cases "pt_state s"; simp add: reading_def Let_def order_of_def)+
  note T' = transportsD [OF T v]
  let ?t = "length (pkt_bytes p)"
  have t: "?t < 2 ^ 31" using ok by (simp add: pkt_ok_def fits8_def length_pkt_bytes MAX_PACKET_BODY_SIZE_def)
  have tl: "sh_totalLength (pt_header s) = of_nat ?t"
    using r st h by (auto simp: reading_def Let_def sh_totalLength_def header_of_def header_bytes_def length_pkt_bytes order_of_def)
  have w: "(of_nat ?t - of_nat (length d) :: 32 word) = word_of_int (int ?t - int (length d))" by simp
  have "sint (of_nat ?t - of_nat (length d) :: 32 word) = signed_take_bit 31 (int ?t - int (length d))"
    unfolding w sint_sbintrunc' by simp
  also have "\<dots> = int ?t - int (length d)" using t len by (intro signed_take_bit_int_eq_self) simp_all
  finally have "sint (of_nat ?t - of_nat (length d) :: 32 word) = int ?t - int (length d)" .
  then have c: "0 <s sh_totalLength (pt_header s) - of_nat (rb_totalSize R (pt_buffer s)) \<longleftrightarrow> length d < ?t"
    by (simp add: tl T' word_sless_alt)
  show ?thesis
  proof (cases "pt_state s = Complete")
    case True
    then show ?thesis using r T'
      by (simp add: next_case_def case_Payload_def case_Complete_def ends_def reading_def Let_def order_of_def)
  next
    case False
    with h have p: "pt_state s = Payload" by simp
    show ?thesis
    proof (cases "length d < ?t")
      case True
      then show ?thesis using r p c by (simp add: next_case_def case_Payload_def ends_def)
    next
      case False
      then show ?thesis using r p c T' unfolding ends_def reading_def Let_def
        by (simp add: next_case_def case_Payload_def case_Complete_def order_of_def header_upto_def)
    qed
  qed
qed

lemma breaks_early:
  "snd (case_MagicCode R s) = Breaks \<Longrightarrow> pt_state s = MagicCode \<Longrightarrow> pt_state (fst (case_MagicCode R s)) = MagicCode"
  "snd (case_Code R s) = Breaks \<Longrightarrow> pt_state s = Code \<Longrightarrow> pt_state (fst (case_Code R s)) = Code"
  "snd (case_BodyLength R s) = Breaks \<Longrightarrow> pt_state s = BodyLength \<Longrightarrow> pt_state (fst (case_BodyLength R s)) = BodyLength"
  by (auto simp: case_MagicCode_def case_Code_def case_BodyLength_def header_read_def Let_def
      split: if_splits option.splits)

lemma id_breaks_early:
  assumes "\<And>v s. pt_state (put v s) = pt_state s"
  shows "snd (read_id R put nxt s) = Breaks \<Longrightarrow> pt_state (fst (read_id R put nxt s)) = pt_state s"
  using assms by (auto simp: read_id_def next_case_def id_length_def id_bytes_def header_read_def
      split: if_splits option.splits flow.splits prod.splits)

lemma processRead_ends:
  assumes T: "transports R view add" and r: "reading view p d s" and d: "d @ q = pkt_bytes p @ rest"
    and len: "length d < 2 ^ 31" and ok: "pkt_ok p"
  shows "reading view p d (snd (processRead R s))"
    "fst (processRead R s) \<longleftrightarrow> length (pkt_bytes p) \<le> length d"
    "pt_state (snd (processRead R s)) = Complete \<longleftrightarrow> length (pkt_bytes p) \<le> length d"
proof -
  define e where "e = next_case case_Init (next_case (case_MagicCode R) (next_case (case_Code R)
        (next_case (case_FromId R) (next_case (case_ToId R) (next_case (case_BodyLength R)
        (next_case (case_Payload R) (case_Complete R))))))) s"
  note nx = next_ends [where st = MagicCode and nxt = Code] next_ends [where st = Code and nxt = FromId]
    next_ends [where st = FromId and nxt = ToId] next_ends [where st = ToId and nxt = BodyLength]
    next_ends [where st = BodyLength and nxt = Payload]
  let ?c6 = "next_case (case_Payload R) (case_Complete R)"
  have b5: "ends view p d (next_case (case_BodyLength R) ?c6 s')"
    if "reading view p d s'" "order_of BodyLength \<le> order_of (pt_state s')" for s'
    by (rule nx(5) [OF that(1,2)])
      (use that payload_ends [OF T] blen_goes_on [OF T that(1)] breaks_early(3) [of R s'] d len ok in
        \<open>auto simp: order_of_def case_BodyLength_def\<close>)
  have b4: "ends view p d (next_case (case_ToId R) (next_case (case_BodyLength R) ?c6) s')"
    if "reading view p d s'" "order_of ToId \<le> order_of (pt_state s')" for s'
    by (rule nx(4) [OF that(1,2) _ _ _ _ _ b5])
      (use to_goes_on [OF T that(1) _ d ok] id_breaks_early [of _ R BodyLength s'] in
        \<open>auto simp: case_ToId_def order_of_def\<close>)
  have b3: "ends view p d (next_case (case_FromId R) (next_case (case_ToId R) (next_case (case_BodyLength R) ?c6)) s')"
    if "reading view p d s'" "order_of FromId \<le> order_of (pt_state s')" for s'
    by (rule nx(3) [OF that(1,2) _ _ _ _ _ b4])
      (use from_goes_on [OF T that(1) _ d ok] id_breaks_early [of _ R ToId s'] in
        \<open>auto simp: case_FromId_def order_of_def\<close>)
  have b2: "ends view p d (next_case (case_Code R) (next_case (case_FromId R) (next_case (case_ToId R)
      (next_case (case_BodyLength R) ?c6))) s')"
    if "reading view p d s'" "order_of Code \<le> order_of (pt_state s')" for s'
    by (rule nx(2) [OF that(1,2) _ _ _ _ _ b3])
      (use code_goes_on [OF T that(1) _ d] breaks_early(2) [of R s'] in \<open>auto simp: case_Code_def order_of_def\<close>)
  have b1: "ends view p d (next_case (case_MagicCode R) (next_case (case_Code R) (next_case (case_FromId R)
      (next_case (case_ToId R) (next_case (case_BodyLength R) ?c6)))) s')"
    if "reading view p d s'" "order_of MagicCode \<le> order_of (pt_state s')" for s'
    by (rule nx(1) [OF that(1,2) _ _ _ _ _ b2])
      (use magic_goes_on [OF T that(1) _ d] breaks_early(1) [of R s'] in \<open>auto simp: case_MagicCode_def order_of_def\<close>)
  have r': "reading view p d (fst (case_Init s))" "order_of MagicCode \<le> order_of (pt_state (fst (case_Init s)))"
    using r by (simp add: case_Init_def reading_def Let_def header_upto_def order_of_def)
      (cases "pt_state s"; simp add: case_Init_def order_of_def)
  have "ends view p d e" unfolding e_def
    using b1 [OF r'] by (simp add: next_case_def [of case_Init] case_Init_def split: if_splits)
  then show "reading view p d (snd (processRead R s))"
    "fst (processRead R s) \<longleftrightarrow> length (pkt_bytes p) \<le> length d"
    "pt_state (snd (processRead R s)) = Complete \<longleftrightarrow> length (pkt_bytes p) \<le> length d"
    by (auto simp: processRead_def ends_def e_def split_def)
qed

section \<open>Packets in any chunks\<close>

text \<open>The network library appends what was received and calls \<^verbatim>\<open>processRead\<close>.\<close>

definition feed :: "'b read_buffer \<Rightarrow> (bytes \<Rightarrow> 'b \<Rightarrow> 'b) \<Rightarrow> bytes list \<Rightarrow> 'b protocol \<Rightarrow> 'b protocol" where
  "feed R add cs s = foldl (\<lambda>s c. snd (processRead R (s\<lparr>pt_buffer := add c (pt_buffer s)\<rparr>))) s cs"

lemma reading_add:
  assumes "transports R view add" and "reading view p d s"
  shows "reading view p (d @ c) (s\<lparr>pt_buffer := add c (pt_buffer s)\<rparr>)"
  using assms(2) transportsD(5) [OF assms(1), of "pt_buffer s" d] by (auto simp: reading_def Let_def)

lemma feed_reading:
  assumes T: "transports R view add" and ok: "pkt_ok p"
    and "reading view p d s" and "d @ concat cs @ q = pkt_bytes p @ rest" and "length (d @ concat cs) < 2 ^ 31"
    and "pt_state s = Complete \<longleftrightarrow> length (pkt_bytes p) \<le> length d"
  shows "reading view p (d @ concat cs) (feed R add cs s)"
    "pt_state (feed R add cs s) = Complete \<longleftrightarrow> length (pkt_bytes p) \<le> length (d @ concat cs)"
  using assms(3-)
proof (induction cs arbitrary: d s)
  case Nil
  { case 1 then show ?case by (simp add: feed_def) next case 2 then show ?case by (simp add: feed_def) }
next
  case (Cons c cs)
  let ?next = "\<lambda>s. snd (processRead R (s\<lparr>pt_buffer := add c (pt_buffer s)\<rparr>))"
  have step: "feed R add (c # cs) s = feed R add cs (?next s)" for s by (simp add: feed_def)
  have ends: "reading view p (d @ c) (?next s)" "pt_state (?next s) = Complete \<longleftrightarrow> length (pkt_bytes p) \<le> length (d @ c)"
    if "reading view p d s" "d @ concat (c # cs) @ q = pkt_bytes p @ rest" "length (d @ concat (c # cs)) < 2 ^ 31" for d s
    using processRead_ends(1,3) [OF T reading_add [OF T that(1)] _ _ ok, of c "concat cs @ q" rest] that(2,3) by simp_all
  { case (1 d s)
    then show ?case unfolding step using Cons.IH(1) [OF ends(1) _ _ ends(2)] by simp
  next
    case (2 d s)
    then show ?case unfolding step using Cons.IH(2) [OF ends(1) _ _ ends(2)] by simp }
qed

lemma reading_new: "view b = ([], 0) \<Longrightarrow> reading view p [] (new_protocol b hl st il)"
  by (simp add: reading_def new_protocol_def header_simps new_HeaderData_def)

lemma scast_length: "n < 2 ^ 31 \<Longrightarrow> (scast (of_nat n :: 32 word) :: 64 word) = of_nat n"
proof -
  assume "n < 2 ^ 31"
  then have "sint (word_of_int (int n) :: 32 word) = int n"
    unfolding sint_sbintrunc' by (intro signed_take_bit_int_eq_self) simp_all
  then show "(scast (of_nat n :: 32 word) :: 64 word) = of_nat n" by (simp add: scast_eq)
qed

text \<open>C17: However the bytes of a connection are cut into chunks, a fresh \<open>SharedPaintProtocol\<close> takes the
  first packet from them: it is complete exactly when the bytes of the packet are all there, its header
  then has the fields the client wrote, what is passed on is the packet as it came (where it starts and how
  long it is), and what is left for the next packet begins right behind it, with its exact size.  The
  chunks hold less than two gigabytes.  The packet is never called invalid.\<close>

theorem server_takes_packets:
  assumes T: "transports R view add" and b: "view b = ([], 0)" and ok: "pkt_ok p"
    and d: "concat cs @ q = pkt_bytes p @ rest" and len: "length (concat cs) < 2 ^ 31"
    and s: "s = feed R add cs (new_protocol b hl st il)"
  shows "\<not> pt_invalidPacketRecved s \<and>
    (isReadComplete s \<longleftrightarrow> length (pkt_bytes p) \<le> length (concat cs)) \<and>
    (isReadComplete s \<longrightarrow> sh_data (pt_header s) = header_of p
       \<and> pt_basePtr w s = ReadBufferAt 0 \<and> pt_totalSize w s = of_nat (length (pkt_bytes p))
       \<and> remainingBufferSize R base s = of_nat (length (concat cs) - length (pkt_bytes p))
       \<and> of_nat (rb_readPos R (pt_buffer s)) + remainingBufferPtr R base' s = of_nat (length (pkt_bytes p)))"
proof -
  let ?d = "concat cs" and ?t = "length (pkt_bytes p)" and ?k = "length (header_bytes p)"
  have "?t > 0" by (simp add: length_pkt_bytes)
  with feed_reading [OF T ok reading_new [of view b], of cs q rest hl st il] d len s b
  have r: "reading view p ?d s" and c: "pt_state s = Complete \<longleftrightarrow> ?t \<le> length ?d"
    by (simp_all add: new_protocol_def)
  have whole: "sh_data (pt_header s) = header_of p
       \<and> pt_basePtr w s = ReadBufferAt 0 \<and> pt_totalSize w s = of_nat ?t
       \<and> remainingBufferSize R base s = of_nat (length ?d - ?t)
       \<and> of_nat (rb_readPos R (pt_buffer s)) + remainingBufferPtr R base' s = of_nat ?t" if "isReadComplete s"
  proof -
    have st: "pt_state s = Complete" using that by (simp add: isReadComplete_def)
    have v: "view (pt_buffer s) = (?d, ?k)" and h: "pt_header s = \<lparr>sh_hlen = of_nat ?k, sh_data = header_of p\<rparr>"
      "pt_payload_pos s = ?k" "pt_initHeader s = pt_header s" "pt_startRead_pos s = 0" "?t \<le> length ?d"
      using r st by (simp_all add: reading_def Let_def order_of_def)
    have t: "sh_totalLength (pt_header s) = of_nat ?t"
      by (simp add: h(1) sh_totalLength_def header_of_def header_bytes_def length_pkt_bytes)
    have t': "(scast (of_nat ?t :: 32 word) :: 64 word) = of_nat ?t" using len h(5) by (intro scast_length) simp
    have k: "?k \<le> ?t" by (simp add: header_bytes_def length_pkt_bytes)
    show ?thesis using h k st transportsD [OF T v] t t'
      by (simp add: pt_basePtr_def pt_totalSize_def remainingBufferSize_def remainingBufferPtr_def readPayloadSize_def
          isReadComplete_def of_nat_diff)
  qed
  show ?thesis using r c whole by (auto simp: reading_def Let_def isReadComplete_def)
qed

text \<open>C18: The server takes a header that declares a body of two gigabytes or more for a complete packet: the
  bytes that are missing are counted in an \<^verbatim>\<open>int\<close>, which is then negative.  Ten received bytes
  are enough.  The length that is then passed on with the pointer to them is wrong: it is more than
  \<open>2 ^ 63\<close>, or, when body and header together do not fit 32 bits (a declared body of at least \<open>2 ^ 32 - 10\<close>
  bytes), what is left of the sum, less than the ten bytes that are there.\<close>

theorem huge_length_completes:
  assumes T: "transports R view add" and b: "view b = ([], 0)"
    and L: "2 ^ 31 \<le> unat L"
    and d: "d = enc_int16 NET_MAGIC_CODE @ enc_int16 code @ enc_string8 [] @ enc_string8 [] @ enc_int32 L"
    and s: "s = feed R add [d] (new_protocol b hl st il)"
  shows "isReadComplete s \<and> rb_totalSize R (pt_buffer s) = 10
    \<and> (if unat L < 2 ^ 32 - 10 then 2 ^ 63 < unat (pt_totalSize w s)
       else unat (pt_totalSize w s) = unat L + 10 - 2 ^ 32 \<and> unat (pt_totalSize w s) < 10)"
proof -
  let ?m = "enc_int16 NET_MAGIC_CODE" and ?c = "enc_int16 code" and ?z = "enc_int8 0 :: bytes" and ?l = "enc_int32 L"
  have e: "enc_string8 [] = ?z" by (simp add: enc_string8_def)
  have dl: "length d = 10" by (simp add: d e)
  have v0: "view (add d b) = ([] @ ?m @ (?c @ ?z @ ?z @ ?l), length [])"
    using transportsD(5) [OF T b, of d] by (simp add: d e)
  obtain b1 where b1: "rb_readInt16 R (add d b) = Some (NET_MAGIC_CODE, 2, b1)"
    and v1: "view b1 = (?m @ ?c @ (?z @ ?z @ ?l), length ?m)"
    using transports_readers(2) [OF T v0 refl] by auto
  obtain b2 where b2: "rb_readInt16 R b1 = Some (code, 2, b2)"
    and v2: "view b2 = ((?m @ ?c) @ ?z @ (?z @ ?l), length (?m @ ?c))"
    using transports_readers(2) [OF T v1 refl] by auto
  obtain b3 where b3: "rb_readInt8 R b2 = Some (0, 1, b3)"
    and v3: "view b3 = ((?m @ ?c @ ?z) @ ?z @ ?l, length (?m @ ?c @ ?z))"
    using transports_readers(1) [OF T v2 refl] by auto
  obtain b4 where b4: "rb_readInt8 R b3 = Some (0, 1, b4)"
    and v4: "view b4 = ((?m @ ?c @ ?z @ ?z) @ ?l @ [], length (?m @ ?c @ ?z @ ?z))"
    using transports_readers(1) [OF T v3 refl] by auto
  obtain b5 where b5: "rb_readInt32 R b4 = Some (L, 4, b5)" and v5: "view b5 = (d, 10)"
    using transports_readers(3) [OF T v4 refl] by (auto simp: d e)
  note vs = transportsD(1,2,3,4) [OF T v0] transportsD(1,2,3,4) [OF T v1] transportsD(1,2,3,4) [OF T v2]
    transportsD(1,2,3,4) [OF T v3] transportsD(1,2,3,4) [OF T v4] transportsD(1,2,3,4) [OF T v5]
  define n where "n = unat L"
  define t where "t = int n + 10 - 2 ^ 32"
  have "unat L < 2 ^ LENGTH(32)" by (rule unsigned_less)
  then have "n < 2 ^ 32" by (simp add: n_def)
  then have t: "- (2 ^ 31) + 10 \<le> t" "t < 10" using L by (simp_all add: t_def flip: n_def)
  have Lt: "L + 10 = word_of_int t" "L + 10 - 10 = word_of_int (t - 10)"
    by (simp_all add: t_def n_def)
  have sl: "sint (word_of_int k :: 32 word) = k" if "- (2 ^ 31) \<le> k" "k < 2 ^ 31" for k
    unfolding sint_sbintrunc' using that by (intro signed_take_bit_int_eq_self) simp_all
  have neg: "\<not> 0 <s L + 10 - 10" unfolding Lt(2) word_sless_alt using sl [of "t - 10"] t by simp
  have s': "isReadComplete s \<and> pt_buffer s = b5 \<and> sh_totalLength (pt_header s) = L + 10"
    using b1 b2 b3 b4 b5 vs neg dl
    by (simp add: s feed_def processRead_def new_protocol_def next_case_def case_Init_def case_MagicCode_def case_Code_def
        case_FromId_def case_ToId_def case_BodyLength_def case_Payload_def case_Complete_def header_read_def read_id_def
        id_length_def id_bytes_def isReadComplete_def sh_totalLength_def NET_MAGIC_CODE_def Let_def)
  have "(scast (L + 10) :: 64 word) = word_of_int t" unfolding Lt(1) scast_eq using sl [of t] t by simp
  moreover have "uint (word_of_int t :: 64 word) = t + 2 ^ 64" if "t < 0"
  proof -
    have "uint (word_of_int t :: 64 word) = (t + 2 ^ 64) mod 2 ^ 64" by (simp add: uint_word_of_int take_bit_eq_mod)
    also have "\<dots> = t + 2 ^ 64" using t that by (intro mod_pos_pos_trivial) simp_all
    finally show ?thesis .
  qed
  moreover have "uint (word_of_int t :: 64 word) = t" if "0 \<le> t"
    using t that by (simp add: uint_word_of_int take_bit_eq_mod)
  ultimately have "t < 0 \<Longrightarrow> 2 ^ 63 < unat (scast (L + 10) :: 64 word)"
    "0 \<le> t \<Longrightarrow> unat (scast (L + 10) :: 64 word) = nat t" using t by (simp_all add: unat_eq_nat_uint)
  moreover have "unat L < 2 ^ 32 - 10 \<longleftrightarrow> t < 0" "0 \<le> t \<Longrightarrow> nat t = unat L + 10 - 2 ^ 32"
    by (auto simp: t_def simp flip: n_def)
  ultimately show ?thesis using s' vs(24) dl t(2) by (auto simp: pt_totalSize_def)
qed

text \<open>A buffer that keeps what it read before what is left.\<close>

definition list_view :: "bytes \<times> bytes \<Rightarrow> bytes \<times> nat" where
  "list_view b = (fst b @ snd b, length (fst b))"

definition list_add :: "bytes \<Rightarrow> bytes \<times> bytes \<Rightarrow> bytes \<times> bytes" where
  "list_add x b = (fst b, snd b @ x)"

definition list_reader :: "(bytes \<Rightarrow> nat \<Rightarrow> ('v \<times> nat) result) \<Rightarrow> bytes \<times> bytes \<Rightarrow> ('v \<times> nat \<times> (bytes \<times> bytes)) option" where
  "list_reader rd b = (case rd (fst b @ snd b) (length (fst b)) of
     Inl _ \<Rightarrow> None | Inr (v, n) \<Rightarrow> Some (v, n, (fst b @ take n (snd b), drop n (snd b))))"

definition list_buffer :: "(bytes \<times> bytes) read_buffer" where
  "list_buffer = \<lparr>rb_remainingSize = (\<lambda>b. length (snd b)), rb_readPos = (\<lambda>b. length (fst b)),
     rb_totalSize = (\<lambda>b. length (fst b) + length (snd b)), rb_readInt8 = list_reader readInt8,
     rb_readInt16 = list_reader (\<lambda>d p. readInt16 d p True), rb_readInt32 = list_reader (\<lambda>d p. readInt32 d p True),
     rb_read = (\<lambda>n. list_reader
       (\<lambda>d p. if p + n \<le> length d then Inr (take n (drop p d), n) else Inl BufferOverread))\<rparr>"

lemma list_reader_at:
  assumes "\<And>d p v n. p \<le> length d \<Longrightarrow> rd d p = Inr (v, n) \<Longrightarrow> p + n \<le> length d"
  shows "reader_at (list_reader rd) list_view rd"
proof -
  have "\<exists>b'. list_reader rd b = Some (v, n, b') \<and> list_view b' = (d, p + n)"
    if b: "list_view b = (d, p)" and r: "rd d p = Inr (v, n)" for b d p v n
  proof -
    have "fst b @ snd b = d" "length (fst b) = p" using b by (simp_all add: list_view_def)
    moreover from this have "n \<le> length (snd b)" using assms [OF _ r] by auto
    ultimately show ?thesis using r by (auto simp: list_reader_def list_view_def)
  qed
  then show ?thesis unfolding reader_at_def by blast
qed

lemma list_buffer_transports: "transports list_buffer list_view list_add"
proof -
  have "reader_at (list_reader readInt8) list_view readInt8"
    by (rule list_reader_at) (rule i8.read_bound)
  moreover have "reader_at (list_reader (\<lambda>d p. readInt16 d p True)) list_view (\<lambda>d p. readInt16 d p True)"
    by (rule list_reader_at) (rule i16.read_bound)
  moreover have "reader_at (list_reader (\<lambda>d p. readInt32 d p True)) list_view (\<lambda>d p. readInt32 d p True)"
    by (rule list_reader_at) (rule i32.read_bound)
  moreover have "reader_at (list_reader (\<lambda>d p. if p + n \<le> length d then Inr (take n (drop p d), n) else Inl BufferOverread))
      list_view (\<lambda>d p. if p + n \<le> length d then Inr (take n (drop p d), n) else Inl BufferOverread)" for n
    by (rule list_reader_at) (simp split: if_splits)
  ultimately show ?thesis by (auto simp: transports_def list_buffer_def list_view_def list_add_def)
qed

lemma server_takes_packets_witness:
  "isReadComplete (feed list_buffer list_add [take 5 (pkt_bytes sample_packet), drop 5 (pkt_bytes sample_packet) @ [1, 2]]
     (new_protocol ([], []) 0 0 0))"
proof -
  let ?p = "sample_packet"
  have len: "length (concat [take 5 (pkt_bytes ?p), drop 5 (pkt_bytes ?p) @ [1, 2]]) < 2 ^ 31"
    by (simp add: length_pkt_bytes sample_packet_def)
  have d: "concat [take 5 (pkt_bytes ?p), drop 5 (pkt_bytes ?p) @ [1, 2]] @ [] = pkt_bytes ?p @ [1, 2]"
    by simp
  have "list_view ([], []) = ([], 0)" by (simp add: list_view_def)
  from server_takes_packets [OF list_buffer_transports this sample_packet_ok d len refl, of 0 0 0 0 "\<lambda>s. 0"]
  show ?thesis by simp
qed

lemma huge_length_completes_witness:
  "isReadComplete (feed list_buffer list_add
     [enc_int16 NET_MAGIC_CODE @ enc_int16 1 @ enc_string8 [] @ enc_string8 [] @ enc_int32 0xFFFFFF00]
     (new_protocol ([], []) 0 0 0))"
proof -
  have "list_view ([], []) = ([], 0)" by (simp add: list_view_def)
  from huge_length_completes [OF list_buffer_transports this _ refl refl, of "0xFFFFFF00" 1 0 0 0 0]
  show ?thesis by simp
qed

end
