(* ===== verification/UtilVersion.thy ===== *)
theory UtilVersion
  imports Prelude "HOL-Library.Product_Lexorder"
begin

text \<open>
  Version numbers as \<^verbatim>\<open>Util.h\<close> of \<^verbatim>\<open>src/SharedPainter\<close> reads and compares them.  A
  \<^verbatim>\<open>std::string\<close> is its bytes.  \<open>None\<close> in an outer \<open>option\<close> is a run the language says nothing
  about or that does not return: \<^verbatim>\<open>atoi\<close> of a number outside \<^verbatim>\<open>int\<close>, a tokenizer without a
  delimiter.
\<close>

section \<open>std::string::find\<close>

fun find_sub :: "bytes \<Rightarrow> bytes \<Rightarrow> nat option" where
  "find_sub d [] = (if d = [] then Some 0 else None)"
| "find_sub d (x # xs) =
     (if take (length d) (x # xs) = d then Some 0 else map_option Suc (find_sub d xs))"

definition find_from :: "bytes \<Rightarrow> bytes \<Rightarrow> nat \<Rightarrow> nat option" where
  "find_from s d p = (if p > length s then None else map_option (\<lambda>i. p + i) (find_sub d (drop p s)))"

section \<open>Tokens\<close>

partial_function (option) token_loop :: "bytes \<Rightarrow> bytes \<Rightarrow> nat \<Rightarrow> bytes list \<Rightarrow> bytes list option" where
  "token_loop s d p acc =
     (case find_from s d p of
        None \<Rightarrow> Some (if p \<noteq> 0 then acc @ [drop p s] else acc)
      | Some q \<Rightarrow> token_loop s d (q + length d) (acc @ [take (q - p) (drop p s)]))"

declare token_loop.simps [code]

definition stringTokenizer :: "bytes \<Rightarrow> bytes \<Rightarrow> bytes list \<Rightarrow> (bool \<times> bytes list) option" where
  "stringTokenizer s d l = map_option (\<lambda>l'. (l' \<noteq> [], l')) (token_loop s d 0 l)"

section \<open>Versions\<close>

definition INT_MAX :: int where "INT_MAX = 2147483647"

definition is_space :: "byte \<Rightarrow> bool" where
  "is_space c \<longleftrightarrow> c = 32 \<or> (9 \<le> c \<and> c \<le> 13)"

definition is_digit :: "byte \<Rightarrow> bool" where
  "is_digit c \<longleftrightarrow> 48 \<le> c \<and> c \<le> 57"

definition digits_value :: "bytes \<Rightarrow> int" where
  "digits_value ds = fold (\<lambda>c v. 10 * v + (uint c - 48)) ds 0"

definition atoi :: "bytes \<Rightarrow> int option" where
  "atoi s =
     (let t = dropWhile is_space s;
          neg = (t \<noteq> [] \<and> List.hd t = 45);
          u = (if t \<noteq> [] \<and> (List.hd t = 45 \<or> List.hd t = 43) then List.tl t else t);
          n = digits_value (takeWhile is_digit u);
          v = (if neg then - n else n)
      in if - INT_MAX - 1 \<le> v \<and> v \<le> INT_MAX then Some v else None)"

definition parseVersionString :: "bytes \<Rightarrow> (int \<times> int \<times> int) option option" where
  "parseVersionString v =
     Option.bind (stringTokenizer v [46] []) (\<lambda>(ok, l).
       if \<not> ok then Some None
       else if length l < 3 then Some None
       else Option.bind (atoi (l ! 0)) (\<lambda>major.
            Option.bind (atoi (l ! 1)) (\<lambda>minor.
            Option.bind (atoi (l ! 2)) (\<lambda>revision. Some (Some (major, minor, revision))))))"

definition compareVersion :: "bytes \<Rightarrow> bytes \<Rightarrow> int option" where
  "compareVersion version1 version2 =
     Option.bind (parseVersionString version1) (\<lambda>v1. case v1 of
       None \<Rightarrow> Some 0
     | Some (major1, minor1, rev1) \<Rightarrow>
         Option.bind (parseVersionString version2) (\<lambda>v2. case v2 of
           None \<Rightarrow> Some 0
         | Some (major2, minor2, rev2) \<Rightarrow>
             Some (if major1 = major2 \<and> minor1 = minor2 \<and> rev1 = rev2 then 0
                   else if major1 > major2 then 1 else if major1 < major2 then - 1
                   else if minor1 > minor2 then 1 else if minor1 < minor2 then - 1
                   else if rev1 > rev2 then 1 else if rev1 < rev2 then - 1
                   else 0)))"

definition VERSION_TEXT :: bytes where
  "VERSION_TEXT = [48, 46, 49, 50, 46, 48]"

definition PROTOCOL_VERSION_TEXT :: bytes where
  "PROTOCOL_VERSION_TEXT = [48, 46, 48, 46, 49]"

section \<open>The tokenizer returns\<close>

lemma find_sub_Some:
  "find_sub d s = Some i \<Longrightarrow> take (length d) (drop i s) = d \<and> i + length d \<le> length s"
proof (induction d s arbitrary: i rule: find_sub.induct)
  case (1 d)
  then show ?case by (auto split: if_splits)
next
  case (2 d x xs)
  show ?case
  proof (cases "take (length d) (x # xs) = d")
    case True
    with 2(2) have "i = 0" by simp
    moreover from True have "length d \<le> length (x # xs)"
      by (metis length_take min.cobounded1)
    ultimately show ?thesis using True by simp
  next
    case False
    with 2(2) obtain j where "find_sub d xs = Some j" "i = Suc j" by auto
    with 2(1) False show ?thesis by auto
  qed
qed

lemma find_from_Some:
  assumes "find_from s d p = Some q"
  shows "p \<le> q" and "q + length d \<le> length s" and "take (length d) (drop q s) = d"
proof -
  from assms obtain i where i: "find_sub d (drop p s) = Some i" "q = p + i" "p \<le> length s"
    by (auto simp: find_from_def split: if_splits)
  then show "p \<le> q" "q + length d \<le> length s" "take (length d) (drop q s) = d"
    using find_sub_Some [OF i(1)] by (auto simp: add.commute)
qed

lemma token_loop_returns:
  assumes "d \<noteq> []"
  shows "\<exists>l. token_loop s d p acc = Some l"
proof (induction "length s - p" arbitrary: p acc rule: less_induct)
  case less
  show ?case
  proof (cases "find_from s d p")
    case None
    then show ?thesis by (subst token_loop.simps) simp
  next
    case (Some q)
    then have "p \<le> q" "q + length d \<le> length s" by (rule find_from_Some)+
    with assms have "length s - (q + length d) < length s - p"
      by (cases d) auto
    from less [OF this] Some show ?thesis by (subst token_loop.simps) simp
  qed
qed


section \<open>The tokens\<close>

fun pieces :: "byte \<Rightarrow> bytes \<Rightarrow> bytes list" where
  "pieces c [] = [[]]"
| "pieces c (x # s) =
     (if x = c then [] # pieces c s else (case pieces c s of [] \<Rightarrow> [[x]] | t # ts \<Rightarrow> (x # t) # ts))"

fun join :: "byte \<Rightarrow> bytes list \<Rightarrow> bytes" where
  "join c [] = []"
| "join c [t] = t"
| "join c (t # ts) = t @ c # join c ts"

lemma pieces_not_Nil [simp]: "pieces c s \<noteq> []"
  by (induction s) (auto split: list.splits)

lemma pieces_free: "c \<notin> set s \<Longrightarrow> pieces c s = [s]"
  by (induction s) auto

lemma pieces_append: "c \<notin> set a \<Longrightarrow> pieces c (a @ c # b) = a # pieces c b"
  by (induction a) auto

lemma length_pieces: "length (pieces c s) = Suc (count_list s c)"
  by (induction s) (auto split: list.splits)

lemma join_Cons: "ts \<noteq> [] \<Longrightarrow> join c (t # ts) = t @ c # join c ts"
  by (cases ts) auto

lemma join_pieces: "join c (pieces c s) = s"
proof (induction s)
  case Nil
  then show ?case by simp
next
  case (Cons x s)
  show ?case
  proof (cases "x = c")
    case True
    with Cons show ?thesis by (simp add: join_Cons)
  next
    case False
    obtain t ts where "pieces c s = t # ts" by (cases "pieces c s") auto
    with Cons False show ?thesis by (cases ts) auto
  qed
qed

lemma pieces_no_delimiter: "t \<in> set (pieces c s) \<Longrightarrow> c \<notin> set t"
  by (induction s arbitrary: t) (auto split: list.splits if_splits)

lemma find_sub_byte:
  "find_sub [c] s = (if c \<in> set s then Some (length (takeWhile (\<lambda>x. x \<noteq> c) s)) else None)"
  by (induction s) auto

lemma token_loop_byte:
  "token_loop (u @ s) [c] (length u) acc =
     Some (acc @ (if u = [] \<and> c \<notin> set s then [] else pieces c s))"
proof (induction "length s" arbitrary: u s acc rule: less_induct)
  case less
  show ?case
  proof (cases "c \<in> set s")
    case False
    then have "find_from (u @ s) [c] (length u) = None"
      by (simp add: find_from_def find_sub_byte)
    with False show ?thesis by (subst token_loop.simps) (simp add: pieces_free)
  next
    case True
    then obtain a b where s: "s = a @ c # b" "c \<notin> set a" by (meson split_list_first)
    moreover from s(2) have "takeWhile (\<lambda>x. x \<noteq> c) s = a"
      unfolding s(1) by (subst takeWhile_append2) auto
    ultimately have "find_from (u @ s) [c] (length u) = Some (length u + length a)"
      by (simp add: find_from_def find_sub_byte)
    moreover have "token_loop ((u @ a @ [c]) @ b) [c] (length (u @ a @ [c])) (acc @ [a]) =
        Some ((acc @ [a]) @ pieces c b)"
      using less [of b "u @ a @ [c]" "acc @ [a]"] s by simp
    ultimately show ?thesis
      using s by (subst token_loop.simps) (simp add: pieces_append)
  qed
qed

lemma stringTokenizer_byte:
  "stringTokenizer s [c] l =
     Some (l @ (if c \<in> set s then pieces c s else []) \<noteq> [], l @ (if c \<in> set s then pieces c s else []))"
  using token_loop_byte [of "[]" s c l] by (simp add: stringTokenizer_def)

text \<open>The tokenizer that reads version numbers (\<^verbatim>\<open>Util::stringTokenizer\<close>) always returns when the
  delimiter is not empty.  For a delimiter of one character its tokens are the parts of the string
  between the delimiters: none contains the delimiter, and joined with it they are the string
  again.  A string without the delimiter gives no token at all and the result \<open>False\<close>.
\<close>

lemma tokenizer_splits:
  "(\<forall>s d l. d \<noteq> [] \<longrightarrow> stringTokenizer s d l \<noteq> None) \<and>
   (\<forall>s c. c \<notin> set s \<longrightarrow> stringTokenizer s [c] [] = Some (False, [])) \<and>
   (\<forall>s c. c \<in> set s \<longrightarrow> (\<exists>ts. stringTokenizer s [c] [] = Some (True, ts) \<and> join c ts = s \<and>
      (\<forall>t\<in>set ts. c \<notin> set t)))"
proof (intro conjI allI impI)
  fix s d :: bytes and l :: "bytes list"
  assume "d \<noteq> []"
  from token_loop_returns [OF this, of s 0 l] show "stringTokenizer s d l \<noteq> None"
    by (auto simp: stringTokenizer_def)
next
  fix s :: bytes and c :: byte
  show "c \<notin> set s \<Longrightarrow> stringTokenizer s [c] [] = Some (False, [])"
    by (simp add: stringTokenizer_byte)
  show "c \<in> set s \<Longrightarrow> \<exists>ts. stringTokenizer s [c] [] = Some (True, ts) \<and> join c ts = s \<and>
      (\<forall>t\<in>set ts. c \<notin> set t)"
    using join_pieces pieces_no_delimiter by (auto simp: stringTokenizer_byte)
qed

section \<open>The comparison\<close>

text \<open>A version as it is written: three decimal numbers, then anything but a digit.\<close>

fun decimal :: "nat \<Rightarrow> bytes" where
  "decimal n = (if n < 10 then [48 + of_nat n] else decimal (n div 10) @ [48 + of_nat (n mod 10)])"

declare decimal.simps [simp del]

definition version_text :: "nat \<times> nat \<times> nat \<Rightarrow> bytes \<Rightarrow> bytes" where
  "version_text v r = (case v of (a, b, c) \<Rightarrow> decimal a @ 46 # decimal b @ 46 # decimal c @ r)"

definition fits_int :: "nat \<times> nat \<times> nat \<Rightarrow> bool" where
  "fits_int v = (case v of (a, b, c) \<Rightarrow> int a \<le> INT_MAX \<and> int b \<le> INT_MAX \<and> int c \<le> INT_MAX)"

lemma uint_digit: "n < 10 \<Longrightarrow> uint (48 + of_nat n :: byte) = 48 + int n"
  by (simp add: uint_nat unat_word_ariths unat_of_nat take_bit_eq_mod)

lemma digit_byte: "n < 10 \<Longrightarrow> is_digit (48 + of_nat n)"
  using uint_digit [of n] by (simp add: is_digit_def word_le_def)

lemma decimal_digits: "x \<in> set (decimal n) \<Longrightarrow> is_digit x"
proof (induction n rule: decimal.induct)
  case (1 n)
  then show ?case
    by (subst (asm) (2) decimal.simps) (auto split: if_splits simp: digit_byte)
qed

lemma decimal_not_Nil [simp]: "decimal n \<noteq> []"
  by (subst decimal.simps) simp

lemma digits_value_append: "digits_value (xs @ [x]) = 10 * digits_value xs + (uint x - 48)"
  by (simp add: digits_value_def)

lemma digits_value_decimal: "digits_value (decimal n) = int n"
proof (induction n rule: decimal.induct)
  case (1 n)
  show ?case
  proof (cases "n < 10")
    case True
    then show ?thesis by (subst decimal.simps) (simp add: digits_value_def uint_digit)
  next
    case False
    with 1 show ?thesis
      by (subst decimal.simps) (simp add: digits_value_append uint_digit zdiv_int zmod_int)
  qed
qed

lemma takeWhile_decimal:
  assumes "r = [] \<or> \<not> is_digit (List.hd r)"
  shows "takeWhile is_digit (decimal n @ r) = decimal n"
proof -
  have "takeWhile is_digit (decimal n @ r) = decimal n @ takeWhile is_digit r"
    by (rule takeWhile_append2) (rule decimal_digits)
  with assms show ?thesis by (cases r) auto
qed

lemma digit_first: "is_digit c \<Longrightarrow> \<not> is_space c \<and> c \<noteq> 43 \<and> c \<noteq> 45 \<and> c \<noteq> 46"
  by (auto simp: is_digit_def is_space_def word_le_nat_alt)

lemma atoi_decimal:
  assumes "r = [] \<or> \<not> is_digit (List.hd r)" and "int n \<le> INT_MAX"
  shows "atoi (decimal n @ r) = Some (int n)"
proof -
  obtain x xs where d: "decimal n = x # xs" by (cases "decimal n") auto
  then have "is_digit x" using decimal_digits [of x n] by simp
  then have x: "\<not> is_space x" "x \<noteq> 43" "x \<noteq> 45" using digit_first by auto
  then have "dropWhile is_space (decimal n @ r) = decimal n @ r" by (simp add: d)
  moreover have "List.hd (decimal n @ r) = x" by (simp add: d)
  ultimately show ?thesis
    using x assms takeWhile_decimal [OF assms(1), of n]
    by (simp add: atoi_def Let_def digits_value_decimal INT_MAX_def)
qed

lemma decimal_no_dot: "46 \<notin> set (decimal n)"
  using decimal_digits digit_first by blast

lemma parse_version_text:
  assumes "r = [] \<or> \<not> is_digit (List.hd r)" and "fits_int (a, b, c)"
  shows "parseVersionString (version_text (a, b, c) r) = Some (Some (int a, int b, int c))"
proof -
  obtain t ts where p: "pieces 46 (decimal c @ r) = t # ts" by (cases "pieces 46 (decimal c @ r)") auto
  obtain r' where t: "t = decimal c @ r'" "r' = [] \<or> \<not> is_digit (List.hd r')"
  proof (cases "46 \<in> set r")
    case True
    then obtain u w where r: "r = u @ 46 # w" "46 \<notin> set u" by (meson split_list_first)
    then have "t = decimal c @ u"
      using p pieces_append [of 46 "decimal c @ u" w] decimal_no_dot by simp
    moreover have "u = [] \<or> \<not> is_digit (List.hd u)" using r assms(1) by (cases u) auto
    ultimately show ?thesis by (rule that)
  next
    case False
    then have "t = decimal c @ r" using p decimal_no_dot [of c] by (simp add: pieces_free)
    then show ?thesis using assms(1) by (rule that)
  qed
  have "pieces 46 (version_text (a, b, c) r) = decimal a # decimal b # t # ts"
    by (simp add: version_text_def pieces_append decimal_no_dot p)
  moreover have "46 \<in> set (version_text (a, b, c) r)" by (simp add: version_text_def)
  moreover have "atoi (decimal a) = Some (int a)" "atoi (decimal b) = Some (int b)"
    "atoi t = Some (int c)"
    using assms(2) atoi_decimal [of "[]"] atoi_decimal [OF t(2)] t(1) by (auto simp: fits_int_def)
  ultimately show ?thesis
    by (simp add: parseVersionString_def stringTokenizer_byte)
qed

text \<open>C40: comparing two versions (\<^verbatim>\<open>Util::compareVersion\<close>) is comparing the triples of their numbers
  in lexicographic order, for every three numbers that fit an \<^verbatim>\<open>int\<close>, whatever follows the third
  number (a suffix, further numbers).
\<close>

theorem compareVersion_lexicographic:
  assumes "fits_int v" and "fits_int w"
    and "r = [] \<or> \<not> is_digit (List.hd r)" and "q = [] \<or> \<not> is_digit (List.hd q)"
  shows "compareVersion (version_text v r) (version_text w q) =
    Some (if v = w then 0 else if v < w then - 1 else 1)"
proof -
  obtain a b c a' b' c' where "v = (a, b, c)" "w = (a', b', c')" by (cases v, cases w) auto
  then show ?thesis
    using assms by (auto simp: compareVersion_def parse_version_text)
qed

lemma compareVersion_lexicographic_witness:
  "compareVersion (version_text (0, 12, 0) []) (version_text (0, 9, 7) [46, 56]) = Some 1"
  by (subst compareVersion_lexicographic) (simp_all add: fits_int_def INT_MAX_def is_digit_def)

text \<open>A protocol version with fewer than two dots is not a version, and the comparison answers
  that it is the same as the program's own: a peer that sends such a version is compatible.
\<close>

lemma malformed_version_is_compatible:
  assumes "count_list v 46 < 2"
  shows "compareVersion PROTOCOL_VERSION_TEXT v = Some 0"
proof -
  have "PROTOCOL_VERSION_TEXT = version_text (0, 0, 1) []"
    by (simp add: PROTOCOL_VERSION_TEXT_def version_text_def decimal.simps)
  then have "parseVersionString PROTOCOL_VERSION_TEXT = Some (Some (0, 0, 1))"
    using parse_version_text [of "[]" 0 0 1] by (simp add: fits_int_def INT_MAX_def)
  moreover have "parseVersionString v = Some None"
    using assms length_pieces [of 46 v]
    by (auto simp: parseVersionString_def stringTokenizer_byte)
  ultimately show ?thesis by (simp add: compareVersion_def)
qed

end
