(* ===== verification/UpgradeManager.thy ===== *)
theory UpgradeManager
  imports UtilVersion
begin

text \<open>
  The upgrade check: \<^verbatim>\<open>UpgradeManager.h/.cpp\<close> of \<^verbatim>\<open>src/SharedPainter\<close>.  A timer calls \<^verbatim>\<open>doJob\<close>
  once a second; what it asks the network for comes back as a \<^verbatim>\<open>finished\<close> signal.  The enum is its
  numbers, because \<^verbatim>\<open>gotoNextState\<close> counts.

  From Qt: \<open>trim\<close> is \<^verbatim>\<open>QString::trimmed\<close> after the conversion of the bytes to a \<^verbatim>\<open>QString\<close> and
  back; a reply is the bytes that are left to read; whether the patch file can be written is the
  argument \<open>written\<close>.
\<close>

section \<open>State\<close>

definition FirstRunState :: int where "FirstRunState = 0"
definition InitState :: int where "InitState = 1"
definition DownloadVersionInfo :: int where "DownloadVersionInfo = 2"
definition DownloadingVersionInfo :: int where "DownloadingVersionInfo = 3"
definition DownloadCompleteVersionInfo :: int where "DownloadCompleteVersionInfo = 4"
definition DownloadPatchFile :: int where "DownloadPatchFile = 5"
definition DownloadingPatchFile :: int where "DownloadingPatchFile = 6"
definition DownloadCompletePatchFile :: int where "DownloadCompletePatchFile = 7"
definition WaitConfirmFromUser :: int where "WaitConfirmFromUser = 8"
definition WaitForUnlimited :: int where "WaitForUnlimited = 9"
definition ErrorState :: int where "ErrorState = 10"

lemmas upgrade_states = FirstRunState_def InitState_def DownloadVersionInfo_def
  DownloadingVersionInfo_def DownloadCompleteVersionInfo_def DownloadPatchFile_def
  DownloadingPatchFile_def DownloadCompletePatchFile_def WaitConfirmFromUser_def
  WaitForUnlimited_def ErrorState_def

datatype upgrade_action =
    GetVersionInfo
  | GetPatch
  | NewVersion bytes bytes
  | RunUpgrader
  | ExitProgram

record upgrade_manager =
  um_state :: int
  um_timerSecond :: int
  um_reply :: bytes
  um_remoteVersion :: bytes
  um_patchContents :: bytes
  um_downloaded :: bool
  um_actions :: "upgrade_action list"

definition new_upgrade_manager :: upgrade_manager where
  "new_upgrade_manager = \<lparr>um_state = FirstRunState, um_timerSecond = 0, um_reply = [],
     um_remoteVersion = [], um_patchContents = [], um_downloaded = False, um_actions = []\<rparr>"

definition DEFAULT_UPGRADE_CHECK_SECOND :: int where
  "DEFAULT_UPGRADE_CHECK_SECOND = 20"

section \<open>Operations\<close>

definition um_act :: "upgrade_action \<Rightarrow> upgrade_manager \<Rightarrow> upgrade_manager" where
  "um_act a s = s\<lparr>um_actions := um_actions s @ [a]\<rparr>"

definition gotoState :: "int \<Rightarrow> upgrade_manager \<Rightarrow> upgrade_manager" where
  "gotoState n s = s\<lparr>um_state := n\<rparr>"

definition gotoNextState :: "upgrade_manager \<Rightarrow> upgrade_manager" where
  "gotoNextState s = s\<lparr>um_state := um_state s + 1\<rparr>"

definition isAvailableUpgrade :: "upgrade_manager \<Rightarrow> bool option" where
  "isAvailableUpgrade s =
     (if \<not> um_downloaded s then Some False
      else map_option (\<lambda>c. \<not> c \<ge> 0) (compareVersion VERSION_TEXT (um_remoteVersion s)))"

definition doUpgradeNow :: "upgrade_manager \<Rightarrow> upgrade_manager" where
  "doUpgradeNow s =
     (if \<not> um_downloaded s then s
      else um_act ExitProgram (um_act RunUpgrader (gotoState WaitForUnlimited s)))"

definition stopVersionCheck :: "upgrade_manager \<Rightarrow> upgrade_manager" where
  "stopVersionCheck s =
     (let s1 = s\<lparr>um_state := 1\<rparr>; s2 = s1\<lparr>um_timerSecond := 0\<rparr> in s2\<lparr>um_state := WaitForUnlimited\<rparr>)"

definition currentVersionContents :: "upgrade_manager \<Rightarrow> (bytes \<times> bytes) option" where
  "currentVersionContents s =
     (if um_remoteVersion s = [] then None else Some (um_remoteVersion s, um_patchContents s))"

text \<open>
  \<^verbatim>\<open>QIODevice::readLine( buf, 1024 )\<close>: the bytes up to and with the next newline, 1023 at most.
\<close>

function read_lines :: "bytes \<Rightarrow> bytes list" where
  "read_lines s =
     (if s = [] then []
      else let l = (case find_sub [10] s of None \<Rightarrow> length s | Some i \<Rightarrow> i + 1); n = min l 1023
        in take n s # read_lines (drop n s))"
  by pat_completeness auto
termination
  by (relation "measure length") (auto simp: min_def split: option.splits)

declare read_lines.simps [simp del]

fun version_lines :: "(bytes \<Rightarrow> bytes) \<Rightarrow> nat \<Rightarrow> bytes list \<Rightarrow> bytes \<times> bytes \<Rightarrow> bytes \<times> bytes" where
  "version_lines trim n [] (version, contents) = (version, contents)"
| "version_lines trim n (l # ls) (version, contents) =
     (if n = 0 then version_lines trim 1 ls (trim l, [])
      else version_lines trim (n + 1) ls (version, contents @ l))"

definition processVersionInfoFile :: "(bytes \<Rightarrow> bytes) \<Rightarrow> upgrade_manager \<Rightarrow> upgrade_manager option" where
  "processVersionInfoFile trim s =
     (let (version, contents) =
            version_lines trim 0 (read_lines (um_reply s)) (um_remoteVersion s, um_patchContents s);
          s1 = s\<lparr>um_reply := [], um_remoteVersion := version, um_patchContents := trim contents\<rparr>
      in map_option (\<lambda>c. if c < 0 then gotoNextState s1 else gotoState ErrorState s1)
           (compareVersion VERSION_TEXT (um_remoteVersion s1)))"

definition processPatchFile :: "bool \<Rightarrow> upgrade_manager \<Rightarrow> upgrade_manager" where
  "processPatchFile written s =
     (let s1 = s\<lparr>um_reply := []\<rparr> in
      if \<not> written then gotoState ErrorState s1
      else gotoNextState (um_act (NewVersion (um_remoteVersion s1) (um_patchContents s1))
             (s1\<lparr>um_downloaded := True\<rparr>)))"

definition request :: "upgrade_action \<Rightarrow> upgrade_manager \<Rightarrow> upgrade_manager" where
  "request a s = gotoNextState (um_act a (s\<lparr>um_reply := []\<rparr>))"

text \<open>The case \<^verbatim>\<open>InitState\<close> falls through to the next one when the time has come.\<close>

definition doJob :: "(bytes \<Rightarrow> bytes) \<Rightarrow> bool \<Rightarrow> upgrade_manager \<Rightarrow> upgrade_manager option" where
  "doJob trim written s =
     (let st = um_state s in
      if st = FirstRunState then Some (gotoState DownloadVersionInfo s)
      else if st = InitState then
        (if um_timerSecond s \<ge> DEFAULT_UPGRADE_CHECK_SECOND
         then Some (request GetVersionInfo (gotoNextState s)) else Some s)
      else if st = DownloadVersionInfo then Some (request GetVersionInfo s)
      else if st = DownloadingVersionInfo then Some s
      else if st = DownloadCompleteVersionInfo then processVersionInfoFile trim s
      else if st = DownloadPatchFile then Some (request GetPatch s)
      else if st = DownloadingPatchFile then Some s
      else if st = DownloadCompletePatchFile then Some (processPatchFile written s)
      else if st = WaitConfirmFromUser then Some s
      else if st = WaitForUnlimited then Some s
      else if st = ErrorState then Some (gotoState InitState (s\<lparr>um_timerSecond := 0\<rparr>))
      else Some s)"

definition onTimer :: "(bytes \<Rightarrow> bytes) \<Rightarrow> bool \<Rightarrow> upgrade_manager \<Rightarrow> upgrade_manager option" where
  "onTimer trim written s = doJob trim written (s\<lparr>um_timerSecond := um_timerSecond s + 1\<rparr>)"

definition finished :: "bool \<Rightarrow> upgrade_manager \<Rightarrow> upgrade_manager" where
  "finished ok s = (if \<not> ok then gotoState ErrorState s else gotoNextState s)"

section \<open>Runs\<close>

text \<open>
  The runs of the program: the timer, the answer to a request that is under way (one for each, it
  carries the bytes of the reply), and the user, who is asked only after the patch has come.
\<close>

definition pending :: "upgrade_manager \<Rightarrow> bool" where
  "pending s \<longleftrightarrow> um_state s = DownloadingVersionInfo \<or> um_state s = DownloadingPatchFile"

inductive upgrade_step :: "(bytes \<Rightarrow> bytes) \<Rightarrow> upgrade_manager \<Rightarrow> upgrade_manager \<Rightarrow> bool" for trim where
  Timer: "onTimer trim written s = Some s' \<Longrightarrow> upgrade_step trim s s'"
| Answer: "pending s \<Longrightarrow> upgrade_step trim s (finished ok (s\<lparr>um_reply := data\<rparr>))"
| Upgrade: "upgrade_step trim s (doUpgradeNow s)"
| Stop: "um_downloaded s \<Longrightarrow> upgrade_step trim s (stopVersionCheck s)"

inductive upgrade_run :: "(bytes \<Rightarrow> bytes) \<Rightarrow> upgrade_manager \<Rightarrow> bool" for trim where
  Start: "upgrade_run trim new_upgrade_manager"
| Step: "upgrade_run trim s \<Longrightarrow> upgrade_step trim s s' \<Longrightarrow> upgrade_run trim s'"

definition newer :: "upgrade_manager \<Rightarrow> bool" where
  "newer s \<longleftrightarrow> compareVersion VERSION_TEXT (um_remoteVersion s) = Some (- 1)"

definition upgrade_ok :: "upgrade_manager \<Rightarrow> bool" where
  "upgrade_ok s \<longleftrightarrow>
     (um_state s \<in> {DownloadPatchFile..DownloadCompletePatchFile} \<longrightarrow> newer s) \<and>
     (um_downloaded s \<longrightarrow> newer s \<and> um_state s \<in> {WaitConfirmFromUser, WaitForUnlimited}) \<and>
     (um_state s \<in> {WaitConfirmFromUser, WaitForUnlimited} \<longrightarrow> um_downloaded s) \<and>
     um_state s \<in> {FirstRunState..ErrorState} \<and>
     (\<forall>v c. NewVersion v c \<in> set (um_actions s) \<longrightarrow> um_downloaded s \<and> v = um_remoteVersion s) \<and>
     (RunUpgrader \<in> set (um_actions s) \<longrightarrow> um_downloaded s)"

lemma compareVersion_sign:
  assumes "compareVersion v w = Some c"
  shows "c \<in> {- 1, 0, 1}"
proof (cases "\<exists>x y. parseVersionString v = Some (Some x) \<and> parseVersionString w = Some (Some y)")
  case True
  then obtain a b c' d e f where "parseVersionString v = Some (Some (a, b, c'))"
    "parseVersionString w = Some (Some (d, e, f))" by (metis prod_cases3)
  with assms show ?thesis by (simp add: compareVersion_def split: if_splits)
next
  case False
  with assms show ?thesis
    by (auto simp: compareVersion_def bind_eq_Some_conv split: option.splits)
qed

lemmas upgrade_defs = gotoState_def gotoNextState_def um_act_def newer_def

text \<open>One line for each case of \<^verbatim>\<open>doJob\<close>.\<close>

lemma doJob_cases:
  assumes "doJob trim written s = Some s'"
  obtains "s' = s"
  | "um_state s = FirstRunState" "s' = gotoState DownloadVersionInfo s"
  | "um_state s = InitState" "s' = request GetVersionInfo (gotoNextState s)"
  | "um_state s = DownloadVersionInfo" "s' = request GetVersionInfo s"
  | "um_state s = DownloadCompleteVersionInfo" "processVersionInfoFile trim s = Some s'"
  | "um_state s = DownloadPatchFile" "s' = request GetPatch s"
  | "um_state s = DownloadCompletePatchFile" "s' = processPatchFile written s"
  | "um_state s = ErrorState" "s' = gotoState InitState (s\<lparr>um_timerSecond := 0\<rparr>)"
  using assms by (auto simp: doJob_def Let_def split: if_split_asm)

lemma upgrade_ok_doJob:
  assumes "upgrade_ok s" and "doJob trim written s = Some s'"
  shows "upgrade_ok s'"
  using assms(2)
proof (cases rule: doJob_cases)
  case 5
  with assms(1) show ?thesis
    using compareVersion_sign
    by (fastforce simp: upgrade_ok_def processVersionInfoFile_def upgrade_defs upgrade_states Let_def
        split: prod.splits)
qed (use assms(1) in \<open>auto simp: upgrade_ok_def request_def processPatchFile_def upgrade_defs
      upgrade_states Let_def\<close>)

lemma upgrade_ok_step:
  assumes "upgrade_step trim s s'" and "upgrade_ok s"
  shows "upgrade_ok s'"
  using assms(1)
proof (cases rule: upgrade_step.cases)
  case (Timer written)
  have "upgrade_ok (s\<lparr>um_timerSecond := um_timerSecond s + 1\<rparr>)"
    using assms(2) by (simp add: upgrade_ok_def newer_def)
  with Timer show ?thesis by (auto simp: onTimer_def intro: upgrade_ok_doJob)
next
  case (Answer ok data)
  with assms(2) show ?thesis
    by (auto simp: upgrade_ok_def pending_def finished_def upgrade_defs upgrade_states)
next
  case Upgrade
  with assms(2) show ?thesis
    by (auto simp: upgrade_ok_def doUpgradeNow_def upgrade_defs upgrade_states)
next
  case Stop
  with assms(2) show ?thesis
    by (auto simp: upgrade_ok_def stopVersionCheck_def upgrade_defs upgrade_states)
qed

lemma upgrade_run_ok: "upgrade_run trim s \<Longrightarrow> upgrade_ok s"
proof (induction rule: upgrade_run.induct)
  case Start
  then show ?case
    by (simp add: upgrade_ok_def new_upgrade_manager_def upgrade_states)
next
  case (Step s s')
  then show ?case by (blast intro: upgrade_ok_step)
qed

text \<open>C39: on every run the upgrade program is started, the user is told of a new version and an
  upgrade is available only after the patch has been stored, and only when the version it was
  downloaded for is greater than the program's own; the state is then one of the two in which
  nothing more is downloaded.
\<close>

theorem upgrade_only_to_newer:
  assumes "upgrade_run trim s"
  shows "(um_downloaded s \<longleftrightarrow> isAvailableUpgrade s = Some True) \<and>
    (um_downloaded s \<longrightarrow> um_state s \<in> {WaitConfirmFromUser, WaitForUnlimited}) \<and>
    (\<forall>v c. NewVersion v c \<in> set (um_actions s) \<longrightarrow>
       um_downloaded s \<and> compareVersion VERSION_TEXT v = Some (- 1)) \<and>
    (RunUpgrader \<in> set (um_actions s) \<longrightarrow> um_downloaded s)"
  using upgrade_run_ok [OF assms] by (auto simp: upgrade_ok_def newer_def isAvailableUpgrade_def)

lemma run_timer: "upgrade_run trim s \<Longrightarrow> onTimer trim written s = Some s' \<Longrightarrow> upgrade_run trim s'"
  by (blast intro: upgrade_run.Step upgrade_step.Timer)

lemma run_answer:
  "upgrade_run trim s \<Longrightarrow> pending s \<Longrightarrow> upgrade_run trim (finished ok (s\<lparr>um_reply := data\<rparr>))"
  by (blast intro: upgrade_run.Step upgrade_step.Answer)

lemma upgrade_only_to_newer_witness:
  "\<exists>s. upgrade_run (\<lambda>t. t) s \<and> um_downloaded s \<and> isAvailableUpgrade s = Some True"
proof -
  let ?s0 = "new_upgrade_manager" and ?v = "[49, 46, 48, 46, 48] :: bytes"
  let ?run = "upgrade_run (\<lambda>t :: bytes. t)"
  let ?s2 = "?s0\<lparr>um_state := 3, um_timerSecond := 2, um_actions := [GetVersionInfo]\<rparr>"
  let ?s4 = "?s2\<lparr>um_state := 5, um_timerSecond := 3, um_remoteVersion := ?v\<rparr>"
  let ?s5 = "?s4\<lparr>um_state := 6, um_timerSecond := 4, um_actions := [GetVersionInfo, GetPatch]\<rparr>"
  let ?s7 = "?s5\<lparr>um_state := 8, um_timerSecond := 5, um_downloaded := True,
      um_actions := [GetVersionInfo, GetPatch, NewVersion ?v []]\<rparr>"
  note defs = onTimer_def doJob_def new_upgrade_manager_def upgrade_states upgrade_defs request_def
    finished_def pending_def Let_def
  have "?run ?s0" by (rule upgrade_run.Start)
  then have "?run (?s0\<lparr>um_state := 2, um_timerSecond := 1\<rparr>)"
    by (rule run_timer [where written = True]) (simp add: defs)
  then have "?run ?s2" by (rule run_timer [where written = True]) (simp add: defs)
  moreover have "pending ?s2" by (simp add: defs)
  ultimately have "?run (finished True (?s2\<lparr>um_reply := ?v\<rparr>))" by (rule run_answer)
  moreover have "onTimer (\<lambda>t. t) True (finished True (?s2\<lparr>um_reply := ?v\<rparr>)) = Some ?s4"
  proof -
    have "compareVersion VERSION_TEXT ?v = Some (- 1)" by code_simp
    moreover have "version_lines (\<lambda>t. t) 0 (read_lines ?v) ([], []) = (?v, [])" by code_simp
    ultimately show ?thesis by (simp add: defs processVersionInfoFile_def)
  qed
  ultimately have "?run ?s4" by (rule run_timer)
  then have "?run ?s5" by (rule run_timer [where written = True]) (simp add: defs)
  moreover have "pending ?s5" by (simp add: defs)
  ultimately have "?run (finished True (?s5\<lparr>um_reply := [80]\<rparr>))" by (rule run_answer)
  then have "?run ?s7"
    by (rule run_timer [where written = True]) (simp add: defs processPatchFile_def)
  with upgrade_only_to_newer [OF this] show ?thesis by (intro exI [of _ ?s7]) simp
qed

section \<open>The check is made again\<close>

fun ticks :: "(bytes \<Rightarrow> bytes) \<Rightarrow> nat \<Rightarrow> upgrade_manager \<Rightarrow> upgrade_manager option" where
  "ticks trim 0 s = Some s"
| "ticks trim (Suc n) s = Option.bind (onTimer trim True s) (ticks trim n)"

lemma ticks_add: "ticks trim (m + n) s = Option.bind (ticks trim m s) (ticks trim n)"
  by (induction m arbitrary: s) (auto split: Option.bind_split)

lemma ticks_wait:
  "um_state s = InitState \<Longrightarrow> um_timerSecond s + int n < DEFAULT_UPGRADE_CHECK_SECOND \<Longrightarrow>
   ticks trim n s = Some (s\<lparr>um_timerSecond := um_timerSecond s + int n\<rparr>)"
proof (induction n arbitrary: s)
  case 0
  then show ?case by simp
next
  case (Suc n)
  then have "onTimer trim True s = Some (s\<lparr>um_timerSecond := um_timerSecond s + 1\<rparr>)"
    by (simp add: onTimer_def doJob_def upgrade_states)
  with Suc.prems Suc.IH [of "s\<lparr>um_timerSecond := um_timerSecond s + 1\<rparr>"] show ?case
    by (simp add: ac_simps)
qed

definition asks_again :: "(bytes \<Rightarrow> bytes) \<Rightarrow> nat \<Rightarrow> upgrade_manager \<Rightarrow> bool" where
  "asks_again trim n s \<longleftrightarrow> (\<exists>s'. ticks trim n s = Some s' \<and> um_state s' = DownloadingVersionInfo \<and>
     um_actions s' = um_actions s @ [GetVersionInfo])"

lemma asks_again_Suc:
  "onTimer trim True s = Some s' \<Longrightarrow> um_actions s' = um_actions s \<Longrightarrow> asks_again trim n s' \<Longrightarrow>
   asks_again trim (Suc n) s"
  by (simp add: asks_again_def)

lemma init_asks_again:
  assumes "um_state s = InitState" and "um_timerSecond s + int n = DEFAULT_UPGRADE_CHECK_SECOND - 1"
  shows "asks_again trim (Suc n) s"
proof -
  have "ticks trim n s = Some (s\<lparr>um_timerSecond := um_timerSecond s + int n\<rparr>)"
    using assms by (intro ticks_wait) (auto simp: DEFAULT_UPGRADE_CHECK_SECOND_def)
  then have "ticks trim (n + 1) s =
      onTimer trim True (s\<lparr>um_timerSecond := um_timerSecond s + int n\<rparr>)"
    unfolding ticks_add by (simp add: Option.bind_eq_Some_conv split: Option.bind_split)
  with assms show ?thesis
    by (simp add: asks_again_def onTimer_def doJob_def request_def upgrade_defs upgrade_states)
qed

text \<open>The check is never given up: after an error, and after a version that is not newer, the
  version is asked for again when the timer has called 21 times; at the start at the second call.
\<close>

lemma version_is_asked_again:
  "(um_state s = ErrorState \<longrightarrow> asks_again trim 21 s) \<and>
   (um_state s = FirstRunState \<longrightarrow> asks_again trim 2 s)"
proof (intro conjI impI)
  let ?s' = "s\<lparr>um_timerSecond := 0, um_state := InitState\<rparr>"
  assume "um_state s = ErrorState"
  then have t: "onTimer trim True s = Some ?s'"
    by (simp add: onTimer_def doJob_def upgrade_defs upgrade_states)
  have a: "asks_again trim (Suc 19) ?s'"
    by (rule init_asks_again) (simp_all add: DEFAULT_UPGRADE_CHECK_SECOND_def)
  have "asks_again trim (Suc (Suc 19)) s" by (rule asks_again_Suc [OF t _ a]) simp
  then show "asks_again trim 21 s" by simp
next
  assume "um_state s = FirstRunState"
  then show "asks_again trim 2 s"
    by (simp add: asks_again_def numeral_2_eq_2 onTimer_def doJob_def request_def upgrade_defs
        upgrade_states)
qed

end
