(* ===== verification/DefferedCaller.thy ===== *)
theory DefferedCaller
  imports Prelude
begin

text \<open>
  Calls that are moved to the main thread: \<^verbatim>\<open>DefferedCaller.h/.cpp\<close> of \<^verbatim>\<open>src/SharedPainter\<close>.

  A deferred function is a value of a type \<open>'f\<close>; \<open>run f\<close> is what calling it does to the rest of the
  program (\<open>'w\<close>) and to the caller object itself, with everything other threads defer while it
  runs.  It does not handle events of its own, so \<^verbatim>\<open>customEvent\<close> and \<^verbatim>\<open>timerEvent\<close> are not entered
  from within it.  \<open>clock\<close> is \<^verbatim>\<open>QDateTime::currentMSecsSinceEpoch\<close>.  A shared pointer to a timer is
  its number; \<open>dc_posted\<close> counts the events posted and \<open>dc_shots\<close> lists the single shots asked of Qt.
\<close>

section \<open>State\<close>

record 'f methodtimer =
  mt_ptr :: nat
  mt_start :: bool
  mt_remain :: int
  mt_func :: 'f
  mt_tick :: int

record 'f deffered_caller =
  dc_autoDelete :: bool
  dc_methods :: "'f list"
  dc_timers :: "'f methodtimer list"
  dc_next :: nat
  dc_posted :: nat
  dc_shots :: "int list"
  dc_deleted :: bool

definition new_deffered_caller :: "'f deffered_caller" where
  "new_deffered_caller = \<lparr>dc_autoDelete = False, dc_methods = [], dc_timers = [], dc_next = 0,
     dc_posted = 0, dc_shots = [], dc_deleted = False\<rparr>"

type_synonym ('f, 'w) running = "'f \<Rightarrow> 'w \<times> 'f deffered_caller \<Rightarrow> 'w \<times> 'f deffered_caller"

section \<open>Deferring\<close>

definition performMainThreadAlwaysDeffered :: "'f \<Rightarrow> 'f deffered_caller \<Rightarrow> 'f deffered_caller" where
  "performMainThreadAlwaysDeffered f c =
     (let c1 = c\<lparr>dc_methods := dc_methods c @ [f]\<rparr> in c1\<lparr>dc_posted := dc_posted c1 + 1\<rparr>)"

definition performMainThread ::
  "('f, 'w) running \<Rightarrow> bool \<Rightarrow> 'f \<Rightarrow> 'w \<times> 'f deffered_caller \<Rightarrow> 'w \<times> 'f deffered_caller" where
  "performMainThread run mainThread f s =
     (if mainThread then run f s else (fst s, performMainThreadAlwaysDeffered f (snd s)))"

definition performMainThreadAfterMilliseconds :: "'f \<Rightarrow> int \<Rightarrow> 'f deffered_caller \<Rightarrow> 'f deffered_caller" where
  "performMainThreadAfterMilliseconds f msec c =
     (let c1 = c\<lparr>dc_timers := dc_timers c @
            [\<lparr>mt_ptr = dc_next c, mt_start = False, mt_remain = msec, mt_func = f, mt_tick = 0\<rparr>],
          dc_next := dc_next c + 1\<rparr>
      in c1\<lparr>dc_posted := dc_posted c1 + 1\<rparr>)"

definition singleShot :: "'f \<Rightarrow> 'f deffered_caller" where
  "singleShot f = performMainThreadAlwaysDeffered f (new_deffered_caller\<lparr>dc_autoDelete := True\<rparr>)"

definition singleShotAfterMiliseconds :: "'f \<Rightarrow> int \<Rightarrow> 'f deffered_caller" where
  "singleShotAfterMiliseconds f msec =
     performMainThreadAfterMilliseconds f msec (new_deffered_caller\<lparr>dc_autoDelete := True\<rparr>)"

section \<open>The events\<close>

definition delete_when_done :: "'f deffered_caller \<Rightarrow> 'f deffered_caller" where
  "delete_when_done c = (if dc_timers c = [] \<and> dc_autoDelete c then c\<lparr>dc_deleted := True\<rparr> else c)"

definition elapse :: "int \<Rightarrow> 'f methodtimer \<Rightarrow> 'f methodtimer" where
  "elapse now m =
     (if mt_start m then m\<lparr>mt_remain := mt_remain m - (now - mt_tick m), mt_tick := now\<rparr> else m)"

definition fire_timer :: "('f, 'w) running \<Rightarrow> 'f methodtimer \<Rightarrow> 'w \<times> 'f deffered_caller \<Rightarrow> 'w \<times> 'f deffered_caller" where
  "fire_timer run m s =
     (if mt_remain m < 10
      then (let (w, c) = run (mt_func m) s
            in (w, c\<lparr>dc_timers := filter (\<lambda>t. mt_ptr t \<noteq> mt_ptr m) (dc_timers c)\<rparr>))
      else s)"

definition timerEvent ::
  "('f, 'w) running \<Rightarrow> ('w \<Rightarrow> int) \<Rightarrow> 'w \<times> 'f deffered_caller \<Rightarrow> 'w \<times> 'f deffered_caller" where
  "timerEvent run clock s =
     (let timers = map (elapse (clock (fst s))) (dc_timers (snd s));
          (w, c) = fold (fire_timer run) timers (fst s, (snd s)\<lparr>dc_timers := timers\<rparr>)
      in (w, delete_when_done c))"

definition start_timer :: "int \<Rightarrow> 'f methodtimer \<Rightarrow> 'f methodtimer" where
  "start_timer now m = (if mt_start m then m else m\<lparr>mt_tick := now, mt_start := True\<rparr>)"

definition start_timers :: "int \<Rightarrow> 'f deffered_caller \<Rightarrow> 'f deffered_caller" where
  "start_timers now c =
     c\<lparr>dc_timers := map (start_timer now) (dc_timers c),
       dc_shots := dc_shots c @ map mt_remain (filter (\<lambda>m. \<not> mt_start m) (dc_timers c))\<rparr>"

partial_function (option) customEvent ::
  "('f, 'w) running \<Rightarrow> ('w \<Rightarrow> int) \<Rightarrow> 'w \<times> 'f deffered_caller \<Rightarrow> ('w \<times> 'f deffered_caller) option"
where
  "customEvent run clock s =
     (let timers = dc_timers (snd s); methods = dc_methods (snd s);
          s1 = (fst s, start_timers (clock (fst s)) (snd s));
          (w, c) = fold run methods s1
      in if length timers \<noteq> length (dc_timers c) then customEvent run clock (w, c)
         else if length methods < length (dc_methods c)
         then customEvent run clock (w, c\<lparr>dc_methods := drop (length methods) (dc_methods c)\<rparr>)
         else Some (w, delete_when_done (c\<lparr>dc_methods := []\<rparr>)))"

declare customEvent.simps [code]

section \<open>First in, first out\<close>

text \<open>
  The reference: one function at a time is taken from the front of a queue, and what it defers
  goes to the end.  \<open>spawn f\<close> is what is deferred while \<open>f\<close> runs.
\<close>

partial_function (option) fifo_order :: "('f \<Rightarrow> 'f list) \<Rightarrow> 'f list \<Rightarrow> 'f list option" where
  "fifo_order spawn q =
     (case q of [] \<Rightarrow> Some [] | f # q' \<Rightarrow> Option.bind (fifo_order spawn (q' @ spawn f)) (\<lambda>fs. Some (f # fs)))"

definition logging :: "('f \<Rightarrow> 'f list) \<Rightarrow> ('f, 'f list) running" where
  "logging spawn f s = (fst s @ [f], fold performMainThreadAlwaysDeffered (spawn f) (snd s))"

lemma fifo_order_Nil [simp]: "fifo_order spawn [] = Some []"
  by (subst fifo_order.simps) simp

lemma fifo_order_batch:
  "fifo_order spawn (xs @ ys) = map_option (\<lambda>fs. xs @ fs) (fifo_order spawn (ys @ concat (map spawn xs)))"
proof (induction xs arbitrary: ys)
  case Nil
  then show ?case by (simp add: option.map_ident)
next
  case (Cons x xs)
  show ?case
    using Cons [of "ys @ spawn x"]
    by (subst fifo_order.simps) (cases "fifo_order spawn (ys @ spawn x @ concat (map spawn xs))"; simp)
qed

lemma fold_deferring:
  "fold performMainThreadAlwaysDeffered fs c =
    c\<lparr>dc_methods := dc_methods c @ fs, dc_posted := dc_posted c + length fs\<rparr>"
  by (induction fs arbitrary: c) (simp_all add: performMainThreadAlwaysDeffered_def Let_def)

lemma fold_logging:
  "fold (logging spawn) fs (tr, c) =
    (tr @ fs, c\<lparr>dc_methods := dc_methods c @ concat (map spawn fs),
      dc_posted := dc_posted c + length (concat (map spawn fs))\<rparr>)"
  by (induction fs arbitrary: tr c) (simp_all add: logging_def fold_deferring)

lemma customEvent_logging:
  assumes "\<forall>f\<in>set (dc_methods c). rank f < (n :: nat)"
    and decreasing: "\<And>f g. g \<in> set (spawn f) \<Longrightarrow> rank g < rank f"
  shows "\<exists>fs c'. fifo_order spawn (dc_methods c) = Some fs \<and>
    customEvent (logging spawn) clock (tr, c) = Some (tr @ fs, c') \<and> dc_methods c' = [] \<and>
    length (dc_timers c') = length (dc_timers c)"
  using assms(1)
proof (induction n arbitrary: c tr)
  case 0
  then show ?case
    by (subst customEvent.simps) (simp add: start_timers_def delete_when_done_def)
next
  case (Suc n)
  let ?ms = "dc_methods c" and ?new = "concat (map spawn (dc_methods c))"
  let ?c1 = "start_timers (clock tr) c"
  let ?c2 = "?c1\<lparr>dc_posted := dc_posted ?c1 + length ?new, dc_methods := ?new\<rparr>"
  have c1: "dc_methods ?c1 = ?ms" "length (dc_timers ?c1) = length (dc_timers c)"
    by (simp_all add: start_timers_def)
  have "\<forall>f\<in>set ?new. rank f < n"
    using Suc.prems decreasing by (fastforce dest: less_le_trans)
  then have "\<forall>f\<in>set (dc_methods ?c2). rank f < n" by simp
  from Suc.IH [OF this, of "tr @ ?ms"] obtain fs c' where IH: "fifo_order spawn ?new = Some fs"
    "customEvent (logging spawn) clock (tr @ ?ms, ?c2) = Some (tr @ ?ms @ fs, c')"
    "dc_methods c' = []" "length (dc_timers c') = length (dc_timers c)"
    using c1 by auto
  have order: "fifo_order spawn ?ms = Some (?ms @ fs)"
    using fifo_order_batch [of spawn ?ms "[]"] IH(1) by simp
  show ?case
  proof (cases "?new = []")
    case True
    with order IH(1) c1 show ?thesis
      by (subst customEvent.simps) (auto simp: Let_def fold_logging delete_when_done_def)
  next
    case False
    then have "length ?ms < length (?ms @ ?new)" by (metis length_append length_greater_0_conv less_add_same_cancel1)
    then have "customEvent (logging spawn) clock (tr, c) =
        customEvent (logging spawn) clock (tr @ ?ms, ?c2)"
      using c1 by (subst customEvent.simps)
        (simp add: Let_def fold_logging del: length_append length_concat sum_list_eq_0_iff)
    with order IH show ?thesis by simp
  qed
qed

text \<open>When the deferred functions start no timers and do not defer each other for ever (each
  defers only functions of a lower rank), one event runs them all: it returns, the queue is then
  empty, and each function has run once, in the order in which the functions were deferred, the
  ones deferred meanwhile included.  The batches of \<^verbatim>\<open>customEvent\<close> are so the same as a queue that is
  served one function at a time.
\<close>

lemma customEvent_is_fifo:
  fixes rank :: "'f \<Rightarrow> nat"
  assumes "\<forall>f. \<forall>g\<in>set (spawn f). rank g < rank f"
  shows "\<exists>fs c'. fifo_order spawn (dc_methods c) = Some fs \<and>
    customEvent (logging spawn) clock (tr, c) = Some (tr @ fs, c') \<and> dc_methods c' = []"
proof -
  obtain n where "\<forall>f\<in>set (dc_methods c). rank f < n"
    by (metis List.finite_set finite_imageI finite_nat_set_iff_bounded imageI)
  with assms customEvent_logging [of c rank n spawn clock tr] show ?thesis by blast
qed

section \<open>A timer started meanwhile\<close>

text \<open>The other threads start one timer while the first function runs.\<close>

definition timer_meanwhile :: "'f \<Rightarrow> ('f, 'f list \<times> bool) running" where
  "timer_meanwhile t f s =
     ((fst (fst s) @ [f], False),
      if snd (fst s) then performMainThreadAfterMilliseconds t 2000 (snd s) else snd s)"

text \<open>Each function starts a timer itself.\<close>

definition timer_always :: "'f \<Rightarrow> ('f, 'f list) running" where
  "timer_always t f s = (fst s @ [f], performMainThreadAfterMilliseconds t 2000 (snd s))"

lemma fold_timer_meanwhile:
  "fold (timer_meanwhile t) fs ((tr, False), c) = ((tr @ fs, False), c)"
  by (induction fs arbitrary: tr) (simp_all add: timer_meanwhile_def)

lemma fold_timer_always:
  "\<exists>w c'. fold (timer_always t) fs (tr, c) = (w, c') \<and> dc_methods c' = dc_methods c \<and>
     length (dc_timers c') = length (dc_timers c) + length fs"
proof (induction fs arbitrary: tr c)
  case Nil
  then show ?case by simp
next
  case (Cons f fs)
  have "timer_always t f (tr, c) = (tr @ [f], performMainThreadAfterMilliseconds t 2000 c)"
    by (simp add: timer_always_def)
  with Cons [of "tr @ [f]" "performMainThreadAfterMilliseconds t 2000 c"] show ?case
    by (auto simp: performMainThreadAfterMilliseconds_def Let_def)
qed

lemma customEvent_not_before:
  assumes "methods \<noteq> []"
  shows "dc_methods c = methods \<Longrightarrow> customEvent (timer_always t) clock (tr, c) \<noteq> Some r"
proof -
  have never: "run = timer_always t \<longrightarrow> dc_methods (snd s) \<noteq> methods"
    if "customEvent run clock s = Some r" for run :: "('a, 'a list) running" and clock s r
    using that
  proof (rule customEvent.raw_induct
      [where P = "\<lambda>run clock s r. run = timer_always t \<longrightarrow> dc_methods (snd s) \<noteq> methods", rotated])
    fix ce :: "('a, 'a list) running \<Rightarrow> ('a list \<Rightarrow> int) \<Rightarrow> 'a list \<times> 'a deffered_caller
        \<Rightarrow> ('a list \<times> 'a deffered_caller) option"
      and run clock s r
    assume IH: "\<And>run clock s r. ce run clock s = Some r \<Longrightarrow>
        run = timer_always t \<longrightarrow> dc_methods (snd s) \<noteq> methods"
      and body: "(let timers = dc_timers (snd s); methods = dc_methods (snd s);
          s1 = (fst s, start_timers (clock (fst s)) (snd s)); (w, c) = fold run methods s1
        in if length timers \<noteq> length (dc_timers c) then ce run clock (w, c)
           else if length methods < length (dc_methods c)
           then ce run clock (w, c\<lparr>dc_methods := drop (length methods) (dc_methods c)\<rparr>)
           else Some (w, delete_when_done (c\<lparr>dc_methods := []\<rparr>))) = Some r"
    let ?s = "start_timers (clock (fst s)) (snd s)"
    show "run = timer_always t \<longrightarrow> dc_methods (snd s) \<noteq> methods"
    proof (intro impI notI)
      assume run: "run = timer_always t" and m: "dc_methods (snd s) = methods"
      obtain w c' where f: "fold (timer_always t) methods (fst s, ?s) = (w, c')"
        "dc_methods c' = methods" "length (dc_timers c') = length (dc_timers (snd s)) + length methods"
        using fold_timer_always [of t methods "fst s" ?s] m by (auto simp: start_timers_def)
      with body run m assms have "ce run clock (w, c') = Some r"
        by (simp add: Let_def)
      from IH [OF this] run f(2) show False by simp
    qed
  qed
  show "dc_methods c = methods \<Longrightarrow> customEvent (timer_always t) clock (tr, c) \<noteq> Some r"
    using never [of "timer_always t" clock "(tr, c)" r] by auto
qed

text \<open>The number of timers is compared before the functions that have run leave the queue.  When
  another thread starts a timer while they run, all of them run a second time; and when one of
  them starts a timer itself, the event calls itself again for ever.
\<close>

lemma timer_repeats_deferred_calls:
  assumes "dc_methods c = methods" and "methods \<noteq> []"
  shows "(\<exists>c'. customEvent (timer_meanwhile t) clock ((tr, True), c) =
      Some ((tr @ methods @ methods, False), c') \<and> dc_methods c' = []) \<and>
    customEvent (timer_always t) clock' (tr, c) = None"
proof
  let ?c1 = "start_timers (clock (tr, True)) c"
  let ?c2 = "performMainThreadAfterMilliseconds t 2000 ?c1"
  let ?c3 = "start_timers (clock (tr @ methods, False)) ?c2"
  have fst_run: "fold (timer_meanwhile t) methods ((tr, True), ?c1) = ((tr @ methods, False), ?c2)"
    using assms(2) fold_timer_meanwhile [of t "List.tl methods"]
    by (cases methods) (simp_all add: timer_meanwhile_def)
  have c2: "dc_methods ?c2 = methods" "length (dc_timers ?c2) = Suc (length (dc_timers c))"
    using assms(1) by (simp_all add: performMainThreadAfterMilliseconds_def start_timers_def Let_def)
  have c3: "dc_methods ?c3 = methods" "length (dc_timers ?c3) = length (dc_timers ?c2)"
    using c2 by (simp_all add: start_timers_def)
  have "customEvent (timer_meanwhile t) clock ((tr, True), c) =
      customEvent (timer_meanwhile t) clock ((tr @ methods, False), ?c2)"
    using fst_run c2 assms(1) by (subst customEvent.simps) (simp add: Let_def)
  also have "\<dots> = Some ((tr @ methods @ methods, False), delete_when_done (?c3\<lparr>dc_methods := []\<rparr>))"
    using c2 c3 by (subst customEvent.simps) (simp add: Let_def fold_timer_meanwhile)
  finally show "\<exists>c'. customEvent (timer_meanwhile t) clock ((tr, True), c) =
      Some ((tr @ methods @ methods, False), c') \<and> dc_methods c' = []"
    by (simp add: delete_when_done_def)
  show "customEvent (timer_always t) clock' (tr, c) = None"
    using customEvent_not_before [OF assms(2,1)] by (cases "customEvent (timer_always t) clock' (tr, c)") auto
qed

section \<open>Timers\<close>

definition log_only :: "('f, 'f list) running" where
  "log_only f s = (fst s @ [f], snd s)"

definition due :: "'f methodtimer \<Rightarrow> bool" where
  "due m \<longleftrightarrow> mt_remain m < 10"

lemma fold_fire_timer:
  "fold (fire_timer log_only) ms (tr, c) =
    (tr @ map mt_func (filter due ms),
     c\<lparr>dc_timers := filter (\<lambda>t. \<forall>m\<in>set ms. due m \<longrightarrow> mt_ptr t \<noteq> mt_ptr m) (dc_timers c)\<rparr>)"
proof (induction ms arbitrary: tr c)
  case Nil
  then show ?case by simp
next
  case (Cons m ms)
  then show ?case
    by (cases "due m") (auto simp: fire_timer_def log_only_def due_def intro!: filter_cong)
qed

lemma filter_other_pointers:
  assumes "distinct (map mt_ptr ms)"
  shows "filter (\<lambda>t. \<forall>m\<in>set ms. due m \<longrightarrow> mt_ptr t \<noteq> mt_ptr m) ms = filter (\<lambda>t. \<not> due t) ms"
proof (rule filter_cong [OF refl])
  fix t assume "t \<in> set ms"
  with assms have "\<forall>m\<in>set ms. mt_ptr t = mt_ptr m \<longrightarrow> t = m"
    by (auto simp: distinct_map dest: inj_onD)
  with \<open>t \<in> set ms\<close> show "(\<forall>m\<in>set ms. due m \<longrightarrow> mt_ptr t \<noteq> mt_ptr m) = (\<not> due t)" by auto
qed

text \<open>The timer event runs the functions whose time has come (less than 10 ms are left) in the order
  in which they were deferred and forgets them; the others keep waiting for what is left of their
  time.
\<close>

lemma timerEvent_runs_due:
  assumes "distinct (map mt_ptr (dc_timers c))" and "ms = map (elapse (clock tr)) (dc_timers c)"
  shows "\<exists>c'. timerEvent log_only clock (tr, c) = (tr @ map mt_func (filter due ms), c') \<and>
    dc_timers c' = filter (\<lambda>m. \<not> due m) ms \<and> dc_methods c' = dc_methods c"
proof -
  have "map mt_ptr ms = map mt_ptr (dc_timers c)" by (simp add: assms(2) elapse_def)
  with assms(1) have "distinct (map mt_ptr ms)" by simp
  from filter_other_pointers [OF this] show ?thesis
    by (simp add: timerEvent_def Let_def fold_fire_timer delete_when_done_def flip: assms(2))
qed

end
