(* ===== verification/NetSession.thy ===== *)
theory NetSession
  imports PacketSlicer
begin

text \<open>
  Connections of the client: \<^verbatim>\<open>NetPeerSession.h\<close>, \<^verbatim>\<open>NetPacketData.h\<close>, \<^verbatim>\<open>NetBroadCastSession.h\<close>
  and \<^verbatim>\<open>NetUdpSession.h\<close> of \<^verbatim>\<open>src/SharedPainter\<close>.

  From \<^verbatim>\<open>boost::asio\<close>: an asynchronous operation is started by the code and completed by an event,
  the handler's call.  What the session asks of asio is recorded: \<open>ps_wire\<close> are the buffers handed to
  \<^verbatim>\<open>async_write\<close>, \<open>ps_reading\<close> an outstanding \<^verbatim>\<open>async_receive\<close>, \<open>ps_connectingTo\<close> the endpoint of an
  outstanding \<^verbatim>\<open>async_connect\<close>.  \<^verbatim>\<open>async_connect\<close> opens the socket.  The calls of the event target
  are \<open>ps_fired\<close>, oldest first; each is made as the last thing the session does with its own state.
\<close>

section \<open>Packets to send\<close>

record net_packet =
  np_packetId :: int
  np_buffer :: pbuf

definition new_net_packet :: "int \<Rightarrow> bytes \<Rightarrow> net_packet" where
  "new_net_packet i body = \<lparr>np_packetId = i, np_buffer = snd (pb_write body pb_new)\<rparr>"

section \<open>Peer sessions\<close>

datatype net_event =
    Net_Disconnected
  | Net_ConnectFailed
  | Net_Connected
  | Net_Received bytes
  | Net_Sending net_packet

record peer_session =
  ps_sessionId :: int
  ps_stopped :: bool
  ps_connected :: bool
  ps_open :: bool
  ps_evtTarget :: bool
  ps_writeList :: "net_packet list"
  ps_wire :: "bytes list"
  ps_reading :: bool
  ps_connectingTo :: "nat option"
  ps_deadline :: "int option"
  ps_fired :: "net_event list"

definition new_peer_session :: "int \<Rightarrow> peer_session" where
  "new_peer_session i = \<lparr>ps_sessionId = i, ps_stopped = True, ps_connected = False, ps_open = False,
     ps_evtTarget = False, ps_writeList = [], ps_wire = [], ps_reading = False,
     ps_connectingTo = None, ps_deadline = None, ps_fired = []\<rparr>"

definition NET_BUF_SIZE :: nat where "NET_BUF_SIZE = 4096"

definition ps_isConnecting :: "peer_session \<Rightarrow> bool" where
  "ps_isConnecting s \<longleftrightarrow> ps_open s \<and> \<not> ps_connected s"

definition ps_isConnected :: "peer_session \<Rightarrow> bool" where
  "ps_isConnected s \<longleftrightarrow> ps_open s \<and> ps_connected s"

definition ps_fire :: "net_event \<Rightarrow> peer_session \<Rightarrow> peer_session" where
  "ps_fire e s = (if ps_evtTarget s then s\<lparr>ps_fired := ps_fired s @ [e]\<rparr> else s)"

definition ps_close :: "peer_session \<Rightarrow> peer_session" where
  "ps_close s =
     (let s1 = (if ps_open s then s\<lparr>ps_open := False\<rparr> else s) in
      if ps_connected s1 then ps_fire Net_Disconnected (s1\<lparr>ps_connected := False\<rparr>) else s1)"

text \<open>
  The endpoints still to be tried are numbered; \<open>n\<close> is how many there are.  \<open>now\<close> is the time in
  seconds.
\<close>

definition ps_start_connect :: "int \<Rightarrow> nat \<Rightarrow> nat \<Rightarrow> peer_session \<Rightarrow> peer_session" where
  "ps_start_connect now n i s =
     (if i < n
      then s\<lparr>ps_deadline := Some (now + 10), ps_connectingTo := Some i, ps_open := True\<rparr>
      else ps_close (ps_fire Net_ConnectFailed s))"

text \<open>\<open>resolved\<close>: the number of endpoints the resolver finds, \<open>None\<close> when it throws.\<close>

definition ps_connect :: "int \<Rightarrow> nat option \<Rightarrow> peer_session \<Rightarrow> bool \<times> peer_session" where
  "ps_connect now resolved s =
     (let s1 = (ps_close s)\<lparr>ps_stopped := False\<rparr> in
      case resolved of None \<Rightarrow> (False, s1) | Some n \<Rightarrow> (True, ps_start_connect now n 0 s1))"

definition ps_start_read :: "peer_session \<Rightarrow> peer_session" where
  "ps_start_read s = s\<lparr>ps_reading := True\<rparr>"

definition ps_connect_complete :: "peer_session \<Rightarrow> peer_session" where
  "ps_connect_complete s =
     ps_start_read (ps_fire Net_Connected (s\<lparr>ps_connected := True, ps_deadline := None\<rparr>))"

definition ps_start :: "peer_session \<Rightarrow> peer_session" where
  "ps_start s = ps_connect_complete s"

definition ps_handle_connect :: "int \<Rightarrow> nat \<Rightarrow> bool \<Rightarrow> nat \<Rightarrow> peer_session \<Rightarrow> peer_session" where
  "ps_handle_connect now n failed i s =
     (let s = s\<lparr>ps_connectingTo := None\<rparr> in
      if \<not> ps_open s then ps_start_connect now n (i + 1) s
      else if failed then ps_start_connect now n (i + 1) (ps_close s)
      else ps_start s)"

definition ps_handle_check_deadline :: "int \<Rightarrow> peer_session \<Rightarrow> peer_session" where
  "ps_handle_check_deadline now s =
     (if ps_stopped s then s
      else case ps_deadline s of
        None \<Rightarrow> s
      | Some t \<Rightarrow> if t \<le> now then ps_close (s\<lparr>ps_deadline := None\<rparr>) else s)"

definition ps_handle_read :: "bool \<Rightarrow> bytes \<Rightarrow> peer_session \<Rightarrow> peer_session" where
  "ps_handle_read failed d s =
     (let s = s\<lparr>ps_reading := False\<rparr> in
      if \<not> failed then ps_start_read (ps_fire (Net_Received d) s) else ps_close s)"

section \<open>Writing\<close>

definition ps_start_write :: "(peer_session, unit) meth" where
  "ps_start_write s =
     (case ps_writeList s of
        [] \<Rightarrow> (Inr (), s)
      | p # ps \<Rightarrow>
          (case pb_read NET_BUF_SIZE (np_buffer p) of
             (Inl e, b) \<Rightarrow> (Inl e, s\<lparr>ps_writeList := p\<lparr>np_buffer := b\<rparr> # ps\<rparr>)
           | (Inr d, b) \<Rightarrow>
               (let s' = s\<lparr>ps_writeList := p\<lparr>np_buffer := b\<rparr> # ps\<rparr> in
                if length d > 0 then (Inr (), s'\<lparr>ps_wire := ps_wire s' @ [d]\<rparr>)
                else (Inl AssertFailure, s'))))"

definition ps_sendPacket :: "net_packet \<Rightarrow> (peer_session, unit) meth" where
  "ps_sendPacket p s =
     (if pb_totalSize (np_buffer p) \<le> 0 then (Inr (), s)
      else let write_in_progress = (ps_writeList s \<noteq> []);
               s1 = s\<lparr>ps_writeList := ps_writeList s @ [p]\<rparr>
        in if \<not> write_in_progress then ps_start_write s1 else (Inr (), s1))"

definition ps_sendData :: "bytes \<Rightarrow> (peer_session, unit) meth" where
  "ps_sendData d = ps_sendPacket (new_net_packet (- 1) d)"

definition ps_handle_write :: "bool \<Rightarrow> (peer_session, unit) meth" where
  "ps_handle_write failed s =
     (if failed then (Inr (), ps_close s)
      else case ps_writeList s of
        [] \<Rightarrow> (Inl BufferOverread, s)
      | p # ps \<Rightarrow>
          (let s1 = ps_fire (Net_Sending p) s;
               s2 = (if pb_remainingSize (np_buffer p) \<le> 0
                     then s1\<lparr>ps_writeList := List.tl (ps_writeList s1)\<rparr> else s1)
           in if ps_writeList s2 \<noteq> [] then ps_start_write s2 else (Inr (), s2)))"

section \<open>The bytes on the wire\<close>

text \<open>
  What the session is asked to do with its socket up, and what asio answers: a packet, or the end of
  the write that is under way.
\<close>

inductive sending :: "peer_session \<Rightarrow> net_packet list \<Rightarrow> bool" where
  Idle: "ps_writeList s = [] \<Longrightarrow> ps_wire s = [] \<Longrightarrow> sending s []"
| Send: "sending s ps \<Longrightarrow> ps_sendPacket (new_net_packet i d) s = (r, s') \<Longrightarrow>
    sending s' (if d = [] then ps else ps @ [new_net_packet i d])"
| Wrote: "sending s ps \<Longrightarrow> ps_writeList s \<noteq> [] \<Longrightarrow> ps_handle_write False s = (r, s') \<Longrightarrow> sending s' ps"

definition waiting :: "peer_session \<Rightarrow> bytes" where
  "waiting s = concat (map (\<lambda>p. pb_pending (np_buffer p)) (ps_writeList s))"

definition write_ok :: "peer_session \<Rightarrow> bool" where
  "write_ok s \<longleftrightarrow> (\<forall>p\<in>set (ps_writeList s). pb_wf (np_buffer p)) \<and>
     (\<forall>p\<in>set (List.tl (ps_writeList s)). pb_pending (np_buffer p) \<noteq> []) \<and>
     (\<forall>d\<in>set (ps_wire s). d \<noteq> [] \<and> length d \<le> NET_BUF_SIZE)"

lemma new_net_packet_buffer:
  "pb_wf (np_buffer (new_net_packet i d))" "pb_pending (np_buffer (new_net_packet i d)) = d"
  "pb_totalSize (np_buffer (new_net_packet i d)) = length d"
  by (simp_all add: new_net_packet_def pb_write_def pb_wf_def pb_pending_def pb_new_def pb_totalSize_def)

text \<open>One write: the front packet gives up its next bytes.\<close>

lemma ps_start_write_front:
  assumes "ps_writeList s = p # ps" and "pb_wf (np_buffer p)" and "pb_pending (np_buffer p) \<noteq> []"
  obtains b where "pb_wf b" and "pb_pending b = drop NET_BUF_SIZE (pb_pending (np_buffer p))"
    and "ps_start_write s = (Inr (), s\<lparr>ps_writeList := p\<lparr>np_buffer := b\<rparr> # ps,
           ps_wire := ps_wire s @ [take NET_BUF_SIZE (pb_pending (np_buffer p))]\<rparr>)"
proof -
  obtain b where "pb_read NET_BUF_SIZE (np_buffer p) = (Inr (take NET_BUF_SIZE (pb_pending (np_buffer p))), b)"
    "pb_wf b" "pb_pending b = drop NET_BUF_SIZE (pb_pending (np_buffer p))"
    using pb.get_result [OF assms(2), of NET_BUF_SIZE] by blast
  with assms that show ?thesis by (simp add: ps_start_write_def Let_def NET_BUF_SIZE_def)
qed

definition starts :: "peer_session \<Rightarrow> unit result \<times> peer_session \<Rightarrow> bool" where
  "starts s x \<longleftrightarrow> (case x of (r, s') \<Rightarrow> r = Inr () \<and> write_ok s' \<and>
     concat (ps_wire s') @ waiting s' = concat (ps_wire s) @ waiting s \<and>
     length (waiting s') < length (waiting s) \<and> ps_writeList s' \<noteq> [])"

lemma ps_start_write_ok:
  assumes "write_ok s" and "ps_writeList s = p # ps" and "pb_pending (np_buffer p) \<noteq> []"
  shows "starts s (ps_start_write s)"
proof -
  from assms have "pb_wf (np_buffer p)" by (simp add: write_ok_def)
  from ps_start_write_front [OF assms(2) this assms(3)] obtain b where b: "pb_wf b"
    "pb_pending b = drop NET_BUF_SIZE (pb_pending (np_buffer p))"
    "ps_start_write s = (Inr (), s\<lparr>ps_writeList := p\<lparr>np_buffer := b\<rparr> # ps,
       ps_wire := ps_wire s @ [take NET_BUF_SIZE (pb_pending (np_buffer p))]\<rparr>)" .
  have "take NET_BUF_SIZE (pb_pending (np_buffer p)) \<noteq> []"
    using assms(3) by (simp add: NET_BUF_SIZE_def)
  moreover have "length (pb_pending (np_buffer p)) > 0" using assms(3) by simp
  ultimately show ?thesis
    using assms b by (auto simp: starts_def write_ok_def waiting_def NET_BUF_SIZE_def)
qed

lemma waiting_Nil [simp]: "ps_writeList s = [] \<Longrightarrow> waiting s = []"
  by (simp add: waiting_def)

lemma pb_remaining_zero: "pb_wf b \<Longrightarrow> pb_remainingSize b = 0 \<longleftrightarrow> pb_pending b = []"
  by (simp add: pb.remaining_eq)

lemma write_ok_fire: "write_ok (ps_fire e s) = write_ok s" "waiting (ps_fire e s) = waiting s"
  "ps_wire (ps_fire e s) = ps_wire s" "ps_writeList (ps_fire e s) = ps_writeList s"
  by (simp_all add: ps_fire_def write_ok_def waiting_def)

text \<open>What the completion of a write does: the next bytes go out, or there is nothing left.\<close>

lemma ps_handle_write_ok:
  assumes "write_ok s" and "ps_writeList s \<noteq> []"
  shows "\<exists>s'. ps_handle_write False s = (Inr (), s') \<and> write_ok s' \<and>
    concat (ps_wire s') @ waiting s' = concat (ps_wire s) @ waiting s \<and>
    (length (waiting s') < length (waiting s) \<or> (ps_writeList s' = [] \<and> waiting s = []))"
proof -
  obtain p ps where l: "ps_writeList s = p # ps" using assms(2) by (cases "ps_writeList s") auto
  have wf: "pb_wf (np_buffer p)" using assms(1) l by (simp add: write_ok_def)
  let ?s1 = "ps_fire (Net_Sending p) s"
  let ?s2 = "if pb_pending (np_buffer p) = [] then ?s1\<lparr>ps_writeList := ps\<rparr> else ?s1"
  have s2: "write_ok ?s2" "waiting ?s2 = waiting s" "ps_wire ?s2 = ps_wire s"
    using assms(1) l by (cases ps; auto simp: write_ok_fire write_ok_def waiting_def)+
  have eq: "ps_handle_write False s = (if ps_writeList ?s2 \<noteq> [] then ps_start_write ?s2 else (Inr (), ?s2))"
    using l wf by (simp add: ps_handle_write_def Let_def pb_remaining_zero write_ok_fire)
  show ?thesis
  proof (cases "ps_writeList ?s2")
    case Nil
    with s2 eq show ?thesis by (intro exI [of _ ?s2]) (auto simp: waiting_def)
  next
    case (Cons q qs)
    then have "pb_pending (np_buffer q) \<noteq> []"
      using assms(1) l by (auto simp: write_ok_fire write_ok_def split: if_splits)
    from ps_start_write_ok [OF s2(1) Cons this] s2 eq Cons show ?thesis
      by (auto simp: starts_def split: prod.splits)
  qed
qed

lemma ps_sendPacket_ok:
  assumes "write_ok s"
  shows "\<exists>s'. ps_sendPacket (new_net_packet i d) s = (Inr (), s') \<and> write_ok s' \<and>
    concat (ps_wire s') @ waiting s' = concat (ps_wire s) @ waiting s @ d"
proof (cases "d = []")
  case True
  with assms show ?thesis by (simp add: ps_sendPacket_def new_net_packet_buffer)
next
  case False
  let ?p = "new_net_packet i d"
  let ?s1 = "s\<lparr>ps_writeList := ps_writeList s @ [?p]\<rparr>"
  have s1: "write_ok ?s1" "waiting ?s1 = waiting s @ d"
    using assms False
    by (cases "ps_writeList s"; auto simp: write_ok_def waiting_def new_net_packet_buffer)+
  show ?thesis
  proof (cases "ps_writeList s = []")
    case True
    then have "ps_writeList ?s1 = ?p # []" by simp
    from ps_start_write_ok [OF s1(1) this] True False s1(2) show ?thesis
      by (auto simp: starts_def ps_sendPacket_def new_net_packet_buffer Let_def split: prod.splits)
  next
    case False
    with \<open>d \<noteq> []\<close> s1 show ?thesis
      by (simp add: ps_sendPacket_def new_net_packet_buffer Let_def)
  qed
qed

definition bodies :: "net_packet list \<Rightarrow> bytes" where
  "bodies ps = concat (map (\<lambda>p. pb_pending (np_buffer p)) ps)"

lemma sending_ok:
  "sending s ps \<Longrightarrow> write_ok s \<and> concat (ps_wire s) @ waiting s = bodies ps"
proof (induction rule: sending.induct)
  case (Idle s)
  then show ?case by (simp add: write_ok_def waiting_def bodies_def)
next
  case (Send s ps i d r s')
  with ps_sendPacket_ok [of s i d] show ?case
    by (auto simp: bodies_def new_net_packet_buffer)
next
  case (Wrote s ps r s')
  with ps_handle_write_ok [of s] show ?case by auto
qed

text \<open>The session is left alone until everything is out.\<close>

fun wrote :: "nat \<Rightarrow> (peer_session, unit) meth" where
  "wrote 0 s = (Inr (), s)"
| "wrote (Suc n) s = (if ps_writeList s = [] then (Inr (), s)
     else bindS (ps_handle_write False) (\<lambda>u. wrote n) s)"

lemma wrote_drains:
  "write_ok s \<Longrightarrow> length (waiting s) \<le> n \<Longrightarrow>
   \<exists>s'. wrote (Suc n) s = (Inr (), s') \<and> ps_writeList s' = [] \<and> write_ok s' \<and>
     concat (ps_wire s') = concat (ps_wire s) @ waiting s"
proof (induction n arbitrary: s)
  case 0
  then have "waiting s = []" by simp
  with 0 show ?case
    using ps_handle_write_ok [of s] by (cases "ps_writeList s = []") (auto simp: bindS_def)
next
  case (Suc n)
  show ?case
  proof (cases "ps_writeList s = []")
    case True
    with Suc.prems show ?thesis by (simp add: waiting_def)
  next
    case False
    from ps_handle_write_ok [OF Suc.prems(1) False] obtain s1 where
      s1: "ps_handle_write False s = (Inr (), s1)" "write_ok s1"
        "concat (ps_wire s1) @ waiting s1 = concat (ps_wire s) @ waiting s"
        "length (waiting s1) < length (waiting s) \<or> ps_writeList s1 = [] \<and> waiting s = []" by blast
    then have "length (waiting s1) \<le> n" using Suc.prems(2) by (auto simp: waiting_def)
    from Suc.IH [OF s1(2) this] s1 False show ?thesis by (auto simp: bindS_def)
  qed
qed


text \<open>What a session is given to send goes out in order and nothing is lost: at every moment the
  buffers handed to the socket followed by what still waits are the packets given to it, no
  assertion fails, no buffer is empty or longer than 4096 bytes; and when the socket answers every
  write, a bounded number of answers later everything is out.
\<close>

lemma session_writes_in_order:
  assumes "sending s ps"
  shows "concat (ps_wire s) @ waiting s = bodies ps \<and>
    (\<forall>d\<in>set (ps_wire s). d \<noteq> [] \<and> length d \<le> NET_BUF_SIZE) \<and>
    (\<exists>n s'. n \<le> Suc (length (waiting s)) \<and> wrote n s = (Inr (), s') \<and> ps_writeList s' = [] \<and>
       concat (ps_wire s') = bodies ps)"
  using sending_ok [OF assms] wrote_drains [of s "length (waiting s)"] by (auto simp: write_ok_def)

definition sample_session :: peer_session where
  "sample_session = (new_peer_session 3)\<lparr>ps_connected := True, ps_open := True, ps_evtTarget := True\<rparr>"

lemma sending_two:
  "sending (snd (ps_sendPacket (new_net_packet 2 e) (snd (ps_sendPacket (new_net_packet 1 d) sample_session))))
     ((if d = [] then [] else [new_net_packet 1 d]) @ (if e = [] then [] else [new_net_packet 2 e]))"
proof -
  have "sending sample_session []"
    by (rule sending.Idle) (simp_all add: sample_session_def new_peer_session_def)
  then have "sending (snd (ps_sendPacket (new_net_packet 1 d) sample_session))
      (if d = [] then [] else [] @ [new_net_packet 1 d])"
    by (rule sending.Send) (rule prod.collapse [symmetric])
  from sending.Send [OF this prod.collapse [symmetric], of 2 e] show ?thesis by (auto split: if_splits)
qed

text \<open>C19: from one paint session to the other: packets that \<^verbatim>\<open>makePacket\<close> builds and that the slicer
  admits (with a known code, a sender and a receiver of at most 255 bytes, and a body of at most
  \<^verbatim>\<open>MAX_PACKET_BODY_SIZE\<close> bytes) and that a session sends arrive at the slicer of the session at the
  other end as they were, in order and once, whatever pieces the connection cuts the bytes into.
  (\<^verbatim>\<open>makePacket\<close> builds larger packets too, and sessions send them; the slicer refuses their header.)
\<close>

theorem session_to_session:
  assumes "list_all (\<lambda>p. pkt_ok p \<and> pd_fromId p \<noteq> [] \<and> pd_toId p \<noteq> []) pkts"
    and "sending s ps" and "map (\<lambda>p. pb_pending (np_buffer p)) ps = map pkt_bytes pkts"
  shows "\<exists>n s'. wrote n s = (Inr (), s') \<and> ps_writeList s' = [] \<and>
    (\<forall>cs. concat cs = concat (ps_wire s') \<longrightarrow>
      (\<exists>xs sl. mapS receive cs (sl_new a b c d) = (Inr xs, sl) \<and> concat xs = pkts))"
proof -
  have "list_all pkt_ok pkts" "delivered_all [] [] pkts = pkts"
    using assms(1) by (auto simp: list_all_iff intro!: delivered_all_same)
  moreover have "bodies ps = stream pkts" by (simp add: bodies_def stream_def assms(3))
  moreover obtain n s' where "wrote n s = (Inr (), s')" "ps_writeList s' = []"
    "concat (ps_wire s') = bodies ps"
    using wrote_drains [OF conjunct1 [OF sending_ok [OF assms(2)]] order_refl] sending_ok [OF assms(2)]
    by (metis (no_types))
  ultimately show ?thesis
    using receive_all_stream [of pkts _ a b c d] by (intro exI [of _ n] exI [of _ s']) force
qed

lemma session_to_session_witness:
  "\<exists>n s'. wrote n (snd (ps_sendPacket (new_net_packet 2 (pkt_bytes sample_packet))
      (snd (ps_sendPacket (new_net_packet 1 (pkt_bytes sample_packet)) sample_session)))) = (Inr (), s') \<and>
    (\<forall>cs. concat cs = concat (ps_wire s') \<longrightarrow> (\<exists>xs sl. mapS receive cs (sl_new 0 0 0 0) = (Inr xs, sl) \<and>
       concat xs = [sample_packet, sample_packet]))"
proof -
  have ne: "pkt_bytes sample_packet \<noteq> []" by (simp add: length_pkt_bytes flip: length_greater_0_conv)
  have "list_all (\<lambda>p. pkt_ok p \<and> pd_fromId p \<noteq> [] \<and> pd_toId p \<noteq> []) [sample_packet, sample_packet]"
    by (simp add: sample_packet_ok) (simp add: sample_packet_def)
  from session_to_session [OF this sending_two, of "pkt_bytes sample_packet" "pkt_bytes sample_packet" 0 0 0 0]
  show ?thesis using ne by (auto simp: new_net_packet_buffer)
qed

section \<open>Broadcast and UDP sessions\<close>

text \<open>
  \<open>opened\<close> and \<open>bound\<close> say whether the calls of the socket succeed.  \<open>bc_timer\<close>: a timer is running;
  \<open>bc_datagrams\<close> are the datagrams sent, with their port.
\<close>

datatype broadcast_event = Bc_SentMessage int | Bc_BroadCastReceived bytes

record broadcast_session =
  bc_open :: bool
  bc_evtTarget :: bool
  bc_port :: int
  bc_sendSecond :: int
  bc_sentCount :: int
  bc_stop :: bool
  bc_msg :: bytes
  bc_timer :: "int option"
  bc_receiving :: bool
  bc_datagrams :: "(int \<times> bytes) list"
  bc_fired :: "broadcast_event list"

definition DEFAULT_SEND_SEC :: int where "DEFAULT_SEND_SEC = 3"

definition new_broadcast_session :: broadcast_session where
  "new_broadcast_session = \<lparr>bc_open = False, bc_evtTarget = False, bc_port = 0,
     bc_sendSecond = DEFAULT_SEND_SEC, bc_sentCount = 0, bc_stop = True, bc_msg = [], bc_timer = None,
     bc_receiving = False, bc_datagrams = [], bc_fired = []\<rparr>"

definition bc_setBroadCastMessage :: "bytes \<Rightarrow> broadcast_session \<Rightarrow> broadcast_session" where
  "bc_setBroadCastMessage m s = s\<lparr>bc_msg := m\<rparr>"

definition bc_sendData :: "int \<Rightarrow> bytes \<Rightarrow> broadcast_session \<Rightarrow> broadcast_session" where
  "bc_sendData port d s = (if bc_open s then s\<lparr>bc_datagrams := bc_datagrams s @ [(port, d)]\<rparr> else s)"

definition bc_openUdp :: "bool \<Rightarrow> broadcast_session \<Rightarrow> bool \<times> broadcast_session" where
  "bc_openUdp opened s =
     (if bc_open s then (False, s) else if opened then (True, s\<lparr>bc_open := True\<rparr>) else (False, s))"

definition bc_listenUdp :: "bool \<Rightarrow> bool \<Rightarrow> broadcast_session \<Rightarrow> bool \<times> broadcast_session" where
  "bc_listenUdp opened bound s =
     (case bc_openUdp opened s of
        (False, s1) \<Rightarrow> (False, s1)
      | (True, s1) \<Rightarrow> if bound then (True, s1\<lparr>bc_receiving := True\<rparr>) else (False, s1))"

definition bc_close :: "broadcast_session \<Rightarrow> broadcast_session" where
  "bc_close s = s\<lparr>bc_open := False, bc_stop := True, bc_timer := None\<rparr>"

definition bc_start_timer :: "int \<Rightarrow> broadcast_session \<Rightarrow> broadcast_session" where
  "bc_start_timer sec s = s\<lparr>bc_sendSecond := sec, bc_timer := Some sec\<rparr>"

definition bc_startSend :: "bool \<Rightarrow> int \<Rightarrow> bytes \<Rightarrow> int \<Rightarrow> broadcast_session \<Rightarrow> bool \<times> broadcast_session" where
  "bc_startSend opened port m sec s =
     (let s1 = s\<lparr>bc_port := port\<rparr>;
          (ok, s2) = (if bc_open s1 then (True, s1) else bc_openUdp opened s1)
      in if ok
         then (True, bc_start_timer (if sec \<le> 0 then DEFAULT_SEND_SEC else sec)
                 (bc_setBroadCastMessage m (s2\<lparr>bc_stop := False, bc_sentCount := 0\<rparr>)))
         else (False, s2))"

definition bc_pauseSend :: "broadcast_session \<Rightarrow> broadcast_session" where
  "bc_pauseSend s = s\<lparr>bc_sentCount := 0, bc_timer := None, bc_stop := True\<rparr>"

definition bc_resumeSend :: "broadcast_session \<Rightarrow> broadcast_session" where
  "bc_resumeSend s = bc_start_timer (bc_sendSecond s) (s\<lparr>bc_stop := False\<rparr>)"

definition bc_fire :: "broadcast_event \<Rightarrow> broadcast_session \<Rightarrow> broadcast_session" where
  "bc_fire e s = (if bc_evtTarget s then s\<lparr>bc_fired := bc_fired s @ [e]\<rparr> else s)"

definition bc_handle_timer :: "bool \<Rightarrow> broadcast_session \<Rightarrow> broadcast_session" where
  "bc_handle_timer failed s =
     (let s = s\<lparr>bc_timer := None\<rparr> in
      if bc_stop s then s
      else if failed then s
      else bc_start_timer (bc_sendSecond s)
        (if bc_sentCount s < 100
         then (let s1 = bc_sendData (bc_port s) (bc_msg s) s;
                   s2 = s1\<lparr>bc_sentCount := bc_sentCount s1 + 1\<rparr>
               in bc_fire (Bc_SentMessage (bc_sentCount s2)) s2)
         else s))"

definition bc_handle_receive :: "bool \<Rightarrow> bytes \<Rightarrow> broadcast_session \<Rightarrow> broadcast_session" where
  "bc_handle_receive failed d s =
     (let s = s\<lparr>bc_receiving := False\<rparr> in
      if \<not> failed then (bc_fire (Bc_BroadCastReceived d) s)\<lparr>bc_receiving := True\<rparr> else s)"

record udp_session =
  us_open :: bool
  us_evtTarget :: bool
  us_addr :: bytes
  us_port :: int
  us_receiving :: bool
  us_datagrams :: "(bytes \<times> int \<times> bytes) list"
  us_fired :: "bytes list"

definition new_udp_session :: udp_session where
  "new_udp_session = \<lparr>us_open = False, us_evtTarget = False, us_addr = [], us_port = 0,
     us_receiving = False, us_datagrams = [], us_fired = []\<rparr>"

definition us_setTargetAddress :: "bytes \<Rightarrow> int \<Rightarrow> udp_session \<Rightarrow> udp_session" where
  "us_setTargetAddress addr port s = s\<lparr>us_addr := addr, us_port := port\<rparr>"

definition us_opening :: "bool \<Rightarrow> udp_session \<Rightarrow> bool \<times> udp_session" where
  "us_opening opened s =
     (if us_open s then (False, s) else if opened then (True, s\<lparr>us_open := True\<rparr>) else (False, s))"

definition us_sendTo :: "bool \<Rightarrow> bytes \<Rightarrow> int \<Rightarrow> bytes \<Rightarrow> udp_session \<Rightarrow> udp_session" where
  "us_sendTo opened addr port d s =
     (let (ok, s1) = (if us_open s then (True, s) else us_opening opened s) in
      if \<not> ok then s1
      else if us_open s1 then s1\<lparr>us_datagrams := us_datagrams s1 @ [(addr, port, d)]\<rparr> else s1)"

definition us_sendData :: "bool \<Rightarrow> bytes \<Rightarrow> udp_session \<Rightarrow> udp_session" where
  "us_sendData opened d s = us_sendTo opened (us_addr s) (us_port s) d s"

definition us_listen :: "bool \<Rightarrow> bool \<Rightarrow> udp_session \<Rightarrow> bool \<times> udp_session" where
  "us_listen opened bound s =
     (case us_opening opened s of
        (False, s1) \<Rightarrow> (False, s1)
      | (True, s1) \<Rightarrow> if bound then (True, s1\<lparr>us_receiving := True\<rparr>) else (False, s1))"

definition us_close :: "udp_session \<Rightarrow> udp_session" where
  "us_close s = s\<lparr>us_open := False\<rparr>"

definition us_handle_receive :: "bool \<Rightarrow> bytes \<Rightarrow> udp_session \<Rightarrow> udp_session" where
  "us_handle_receive failed d s =
     (let s = s\<lparr>us_receiving := False\<rparr> in
      if \<not> failed
      then (if us_evtTarget s then s\<lparr>us_fired := us_fired s @ [d]\<rparr> else s)\<lparr>us_receiving := True\<rparr>
      else s)"

lemma timer_sends:
  "bc_open s \<Longrightarrow> \<not> bc_stop s \<Longrightarrow> 0 \<le> bc_sentCount s \<Longrightarrow> bc_sentCount s \<le> 100 \<Longrightarrow>
   let s' = (bc_handle_timer False ^^ n) s; k = min n (nat (100 - bc_sentCount s))
   in bc_datagrams s' = bc_datagrams s @ replicate k (bc_port s, bc_msg s) \<and>
      bc_sentCount s' = bc_sentCount s + int k \<and> bc_open s' \<and> \<not> bc_stop s' \<and>
      bc_port s' = bc_port s \<and> bc_msg s' = bc_msg s"
proof (induction n)
  case 0
  then show ?case by simp
next
  case (Suc n)
  let ?s = "(bc_handle_timer False ^^ n) s"
  from Suc show ?case
    by (cases "n < nat (100 - bc_sentCount s)")
      (auto simp: Let_def bc_handle_timer_def bc_sendData_def bc_fire_def bc_start_timer_def
        min_def replicate_append_same [symmetric])
qed

text \<open>A search for servers sends its message once for each call of the timer, with the port and the
  message it was started with, and 100 times at most, however long it runs.
\<close>

lemma broadcast_is_bounded:
  assumes "bc_startSend opened port m sec s = (True, s1)"
  shows "bc_datagrams ((bc_handle_timer False ^^ n) s1) = bc_datagrams s @ replicate (min n 100) (port, m)"
proof -
  have s1: "bc_open s1" "\<not> bc_stop s1" "bc_sentCount s1 = 0" "bc_port s1 = port" "bc_msg s1 = m"
    "bc_datagrams s1 = bc_datagrams s"
    using assms by (auto simp: bc_startSend_def bc_openUdp_def bc_start_timer_def
        bc_setBroadCastMessage_def Let_def split: if_splits)
  with timer_sends [of s1 n] show ?thesis by (simp add: Let_def)
qed

end
