(* ===== verification/PaintManager.thy ===== *)
theory PaintManager
  imports CommandManager StdMap NetSession DefferedCaller UtilVersion
begin

text \<open>
  The client's centre, \<^verbatim>\<open>class CSharedPaintManager\<close> of \<^verbatim>\<open>src/SharedPainter\<close>: its users, its
  sessions, what it sends and what it tells the observers.  (What it does with a received packet is
  in \<open>PaintDispatch\<close>.)

  A method is a \<open>meth\<close> on the record \<open>paint_manager\<close>.  Users are shared objects: a
  \<^verbatim>\<open>boost::shared_ptr\<close> to one is its place in the list \<open>pm_users\<close>; \<^verbatim>\<open>myUserInfo_\<close> is place 0 and
  never replaced.  A paint session is named by its session id, which is never used twice.  The
  mutexes are recursive and left out: a handler of the network thread and an event of the main
  thread are each one step.  \<open>pm_mainThread\<close> says which of the two is running.

  The observers are the user interface: what they are told is the list \<open>pm_trace\<close>, oldest first.
  From outside the repository, or outside this class, come the fields of \<open>env\<close>.
\<close>

section \<open>State\<close>

type_synonym user_ptr = nat

datatype observer_call =
    Ob_VersionError bytes
  | Ob_ItemError item_ptr
  | Ob_Connected int
  | Ob_ConnectFailed
  | Ob_SendingPacket int int int
  | Ob_ReceivedPacket
  | Ob_Disconnected
  | Ob_SyncStart
  | Ob_SyncComplete
  | Ob_AddPaintItem item_ptr
  | Ob_UpdatePaintItem item_ptr
  | Ob_RemovePaintItem item_ptr
  | Ob_MovePaintItem item_ptr double double
  | Ob_ResizeMainWindow "32 word" "32 word"
  | Ob_ResizeCanvas "32 word" "32 word"
  | Ob_ChangeCanvasScrollPos "16 word" "16 word"
  | Ob_ResizeWindowSplitter "32 word list"
  | Ob_SetBackgroundImage "CPaintItem option"
  | Ob_SetBackgroundColor rgba
  | Ob_SetBackgroundGridLine "32 word"
  | Ob_ClearScreen
  | Ob_ClearBackground
  | Ob_EnterPaintUser user_ptr
  | Ob_LeavePaintUser user_ptr
  | Ob_UpdatePaintUser user_ptr
  | Ob_GetServerInfo bytes bytes "32 word"
  | Ob_ReceivedBroadcastTextMessage bytes bytes bytes bytes
  | Ob_AddTask nat bool
  | Ob_ServerFinding int
  | Ob_ChangedNickName bytes bytes bytes
  | Ob_ReceivedChatMessage bytes bytes bytes
  | Ob_ChangeScreenRecordStatus user_ptr bool
  | Ob_ChangeShowScreenStream user_ptr bool bool
  | Canvas_clearScreen

text \<open>What is bound and handed to \<^verbatim>\<open>caller_\<close>.\<close>

datatype deferred = D_fire observer_call | D_close | D_removeSession int | D_reconnect

datatype ConnectionMode = INIT_MODE | PEER_MODE | SERVER_MODE

record paint_session =
  pa_peer :: peer_session
  pa_slicer :: slicer

record send_byte_info =
  si_session :: int
  si_wroteBytes :: int
  si_totalBytes :: int

record paint_manager =
  pm_mainThread :: bool
  pm_queue :: "deferred list"
  pm_timers :: "(deferred \<times> int) list"
  pm_taskQueue :: "observer_call list"
  pm_cmdQueue :: "observer_call list"
  pm_syncTimers :: nat
  pm_trace :: "observer_call list"
  pm_enabled :: bool
  pm_syncStarted :: bool
  pm_cmd :: cmd_mngr
  pm_backgroundImage :: "CPaintItem option"
  pm_windowSize :: int2
  pm_canvasSize :: int2
  pm_scrollPos :: "16 word \<times> 16 word"
  pm_splitterSizes :: "32 word list"
  pm_backgroundColor :: rgba
  pm_gridLineSize :: "32 word"
  pm_users :: "CPaintUser list"
  pm_joinerMap :: "(bytes, user_ptr) std_map"
  pm_joinerHistory :: "user_ptr list"
  pm_findingServerMode :: bool
  pm_listenTcpPort :: int
  pm_listenUdpPort :: int
  pm_retryCount :: int
  pm_lastConnectMode :: ConnectionMode
  pm_lastConnectAddress :: bytes
  pm_lastConnectPort :: int
  pm_superPeerId :: bytes
  pm_sessions :: "int \<rightharpoonup> paint_session"
  pm_nextSession :: int
  pm_sessionList :: "int list"
  pm_superPeerSession :: "int option"
  pm_relayServerSession :: "int option"
  pm_server :: bool
  pm_udpForConnection :: "udp_session option"
  pm_bcListener :: "broadcast_session option"
  pm_bcFinder :: "broadcast_session option"
  pm_bcSendMessage :: "broadcast_session option"
  pm_udpSessionMap :: "(bytes, udp_session) std_map"
  pm_udpForStream :: "udp_session option"
  pm_PACKETID :: int
  pm_sendInfo :: "(int, send_byte_info list) std_map"
  pm_lastPacketId :: int
  pm_files :: files

type_synonym 'a pm = "(paint_manager, 'a) meth"

text \<open>
  The machine's address, the resolver (how many endpoints, or that it throws), the time, whether a
  socket can be opened and bound to a port, the order of the pointers to the items in a \<^verbatim>\<open>std::set\<close>,
  the constructor of \<^verbatim>\<open>QColor\<close>, a user object, a slicer's and a task's members as
  they are before they are initialised, and Qt as the items see it.
\<close>

record env =
  en_myIp :: bytes
  en_resolve :: "bytes \<Rightarrow> int \<Rightarrow> nat option"
  en_now :: int
  en_tcpBind :: "int \<Rightarrow> bool"
  en_udpOpen :: bool
  en_udpBind :: "int \<Rightarrow> bool"
  en_itemOrder :: "item_ptr set \<Rightarrow> item_ptr list"
  en_qcolor :: "rgba \<Rightarrow> rgba"
  en_newUser :: CPaintUser
  en_newSlicer :: slicer
  en_newTask :: CSharedPaintTask
  en_newDouble :: double
  en_newPaintData :: SPaintData
  en_qt :: qt

definition my :: user_ptr where "my = 0"

definition user :: "user_ptr \<Rightarrow> paint_manager \<Rightarrow> CPaintUser" where
  "user p s = pm_users s ! p"

definition id_of :: "user_ptr \<Rightarrow> paint_manager \<Rightarrow> bytes" where
  "id_of p s = u_userId (user_data (user p s))"

definition myId :: "paint_manager \<Rightarrow> bytes" where
  "myId s = id_of my s"

definition upd_userp :: "user_ptr \<Rightarrow> (CPaintUser \<Rightarrow> CPaintUser) \<Rightarrow> paint_manager \<Rightarrow> paint_manager" where
  "upd_userp p f s = s\<lparr>pm_users := (pm_users s)[p := f (user p s)]\<rparr>"

definition new_userp :: "CPaintUser \<Rightarrow> paint_manager \<Rightarrow> user_ptr \<times> paint_manager" where
  "new_userp u s = (length (pm_users s), s\<lparr>pm_users := pm_users s @ [u]\<rparr>)"

definition WHITE :: rgba where "WHITE = (255, 255, 255, 255)"

section \<open>Telling the observers\<close>

definition notify :: "observer_call \<Rightarrow> paint_manager \<Rightarrow> paint_manager" where
  "notify e s = s\<lparr>pm_trace := pm_trace s @ [e]\<rparr>"

definition fireObserver_ConnectFailed :: "unit pm" where
  "fireObserver_ConnectFailed = updS (notify Ob_ConnectFailed)"

definition fireObserver_Connected :: "int \<Rightarrow> unit pm" where
  "fireObserver_Connected i = updS (notify (Ob_Connected i))"

definition fireObserver_DisConnected :: "unit pm" where
  "fireObserver_DisConnected = updS (notify Ob_Disconnected)"

definition fireObserver_ShowErrorMessage :: "observer_call \<Rightarrow> unit pm" where
  "fireObserver_ShowErrorMessage e = updS (notify e)"

definition fireObserver_SyncStart :: "unit pm" where
  "fireObserver_SyncStart = updS (\<lambda>s. notify Ob_SyncStart (s\<lparr>pm_enabled := False\<rparr>))"

definition fireObserver_SyncComplete :: "unit pm" where
  "fireObserver_SyncComplete = updS (\<lambda>s. notify Ob_SyncComplete (s\<lparr>pm_enabled := True\<rparr>))"

definition fireObserver_UpdatePaintItem :: "item_ptr \<Rightarrow> unit pm" where
  "fireObserver_UpdatePaintItem p = updS (notify (Ob_UpdatePaintItem p))"

definition fireObserver_AddPaintItem :: "item_ptr \<Rightarrow> unit pm" where
  "fireObserver_AddPaintItem p = updS (notify (Ob_AddPaintItem p))"

definition fireObserver_MovePaintItem :: "item_ptr \<Rightarrow> double \<Rightarrow> double \<Rightarrow> unit pm" where
  "fireObserver_MovePaintItem p x y = updS (notify (Ob_MovePaintItem p x y))"

definition fireObserver_RemovePaintItem :: "item_ptr \<Rightarrow> unit pm" where
  "fireObserver_RemovePaintItem p = updS (notify (Ob_RemovePaintItem p))"

definition fireObserver_ResizeMainWindow :: "32 word \<Rightarrow> 32 word \<Rightarrow> unit pm" where
  "fireObserver_ResizeMainWindow w h =
     updS (\<lambda>s. notify (Ob_ResizeMainWindow w h) (s\<lparr>pm_windowSize := (w, h)\<rparr>))"

definition fireObserver_ChangeCanvasScrollPos :: "16 word \<Rightarrow> 16 word \<Rightarrow> unit pm" where
  "fireObserver_ChangeCanvasScrollPos h v =
     updS (\<lambda>s. notify (Ob_ChangeCanvasScrollPos h v) (s\<lparr>pm_scrollPos := (h, v)\<rparr>))"

definition fireObserver_ChangeScreenRecordStatus :: "user_ptr \<Rightarrow> bool \<Rightarrow> unit pm" where
  "fireObserver_ChangeScreenRecordStatus u b = updS (notify (Ob_ChangeScreenRecordStatus u b))"

definition fireObserver_ChangeShowScreenStreams :: "user_ptr \<Rightarrow> bool \<Rightarrow> bool \<Rightarrow> unit pm" where
  "fireObserver_ChangeShowScreenStreams u sender b = updS (notify (Ob_ChangeShowScreenStream u sender b))"

definition fireObserver_ResizeCanvas :: "32 word \<Rightarrow> 32 word \<Rightarrow> unit pm" where
  "fireObserver_ResizeCanvas w h =
     updS (\<lambda>s. notify (Ob_ResizeCanvas w h) (s\<lparr>pm_canvasSize := (w, h)\<rparr>))"

definition fireObserver_ResizeWindowSplitter :: "32 word list \<Rightarrow> unit pm" where
  "fireObserver_ResizeWindowSplitter sizes =
     updS (\<lambda>s. notify (Ob_ResizeWindowSplitter sizes) (s\<lparr>pm_splitterSizes := sizes\<rparr>))"

definition fireObserver_SendingPacket :: "int \<Rightarrow> int \<Rightarrow> int \<Rightarrow> unit pm" where
  "fireObserver_SendingPacket i n t = updS (notify (Ob_SendingPacket i n t))"

definition fireObserver_ClearBackground :: "unit pm" where
  "fireObserver_ClearBackground = updS (\<lambda>s. notify Ob_ClearBackground (s\<lparr>pm_backgroundImage := None\<rparr>))"

definition fireObserver_SetBackgroundImage :: "CPaintItem option \<Rightarrow> unit pm" where
  "fireObserver_SetBackgroundImage img =
     updS (\<lambda>s. notify (Ob_SetBackgroundImage img) (s\<lparr>pm_backgroundImage := img\<rparr>))"

definition fireObserver_SetBackgroundColor :: "env \<Rightarrow> rgba \<Rightarrow> unit pm" where
  "fireObserver_SetBackgroundColor e c =
     updS (\<lambda>s. notify (Ob_SetBackgroundColor c) (s\<lparr>pm_backgroundColor := en_qcolor e c\<rparr>))"

definition fireObserver_SetBackgroundGridLine :: "32 word \<Rightarrow> unit pm" where
  "fireObserver_SetBackgroundGridLine sz =
     updS (\<lambda>s. notify (Ob_SetBackgroundGridLine sz) (s\<lparr>pm_gridLineSize := sz\<rparr>))"

definition fireObserver_ReceivedBroadcastTextMessage :: "bytes \<Rightarrow> bytes \<Rightarrow> bytes \<Rightarrow> bytes \<Rightarrow> unit pm" where
  "fireObserver_ReceivedBroadcastTextMessage ch from nick msg =
     updS (notify (Ob_ReceivedBroadcastTextMessage ch from nick msg))"

definition fireObserver_GetServerInfo :: "bytes \<Rightarrow> bytes \<Rightarrow> 32 word \<Rightarrow> unit pm" where
  "fireObserver_GetServerInfo ch addr port = updS (notify (Ob_GetServerInfo ch addr port))"

definition fireObserver_EnterPaintUser :: "user_ptr \<Rightarrow> unit pm" where
  "fireObserver_EnterPaintUser u = updS (notify (Ob_EnterPaintUser u))"

definition fireObserver_LeavePaintUser :: "user_ptr \<Rightarrow> unit pm" where
  "fireObserver_LeavePaintUser u = updS (notify (Ob_LeavePaintUser u))"

definition fireObserver_UpdatePaintUser :: "user_ptr \<Rightarrow> unit pm" where
  "fireObserver_UpdatePaintUser u = updS (notify (Ob_UpdatePaintUser u))"

definition fireObserver_ReceivedPacket :: "unit pm" where
  "fireObserver_ReceivedPacket = updS (notify Ob_ReceivedPacket)"

definition fireObserver_AddTask :: "nat \<Rightarrow> bool \<Rightarrow> unit pm" where
  "fireObserver_AddTask n playback = updS (notify (Ob_AddTask n playback))"

definition fireObserver_ServerFinding :: "int \<Rightarrow> unit pm" where
  "fireObserver_ServerFinding n = updS (notify (Ob_ServerFinding n))"

definition fireObserver_ChangedNickName :: "bytes \<Rightarrow> bytes \<Rightarrow> bytes \<Rightarrow> unit pm" where
  "fireObserver_ChangedNickName u prev nick = updS (notify (Ob_ChangedNickName u prev nick))"

definition fireObserver_ReceivedChatMessage :: "bytes \<Rightarrow> bytes \<Rightarrow> bytes \<Rightarrow> unit pm" where
  "fireObserver_ReceivedChatMessage u nick msg = updS (notify (Ob_ReceivedChatMessage u nick msg))"

text \<open>
  \<^verbatim>\<open>clearAllItems\<close> with \<^verbatim>\<open>clearAllHistoryUsers\<close>; both assert.
\<close>

definition clearAllHistoryUsers :: "unit pm" where
  "clearAllHistoryUsers =
     thenS (updS (\<lambda>s. s\<lparr>pm_joinerHistory := filter (\<lambda>p. mySelfFlag (user p s)) (pm_joinerHistory s)\<rparr>))
       (assertS (\<lambda>s. length (pm_joinerHistory s) = 1))"

definition clearAllItems :: "unit pm" where
  "clearAllItems =
     thenS (assertS pm_mainThread)
    (thenS (updS (\<lambda>s. notify Canvas_clearScreen (s\<lparr>pm_backgroundColor := WHITE, pm_backgroundImage := None\<rparr>)))
    (thenS (updS (\<lambda>s. s\<lparr>pm_cmd := cm_clear (pm_cmd s)\<rparr>))
       clearAllHistoryUsers))"

definition fireObserver_ClearScreen :: "unit pm" where
  "fireObserver_ClearScreen = thenS (updS (notify Ob_ClearScreen)) clearAllItems"

text \<open>The bound call.\<close>

definition fireObserver :: "env \<Rightarrow> observer_call \<Rightarrow> unit pm" where
  "fireObserver e c = (case c of
       Ob_SyncStart \<Rightarrow> fireObserver_SyncStart
     | Ob_SyncComplete \<Rightarrow> fireObserver_SyncComplete
     | Ob_ResizeMainWindow w h \<Rightarrow> fireObserver_ResizeMainWindow w h
     | Ob_ChangeCanvasScrollPos h v \<Rightarrow> fireObserver_ChangeCanvasScrollPos h v
     | Ob_ResizeCanvas w h \<Rightarrow> fireObserver_ResizeCanvas w h
     | Ob_ResizeWindowSplitter sizes \<Rightarrow> fireObserver_ResizeWindowSplitter sizes
     | Ob_ClearScreen \<Rightarrow> fireObserver_ClearScreen
     | Ob_ClearBackground \<Rightarrow> fireObserver_ClearBackground
     | Ob_SetBackgroundImage img \<Rightarrow> fireObserver_SetBackgroundImage img
     | Ob_SetBackgroundColor c \<Rightarrow> fireObserver_SetBackgroundColor e c
     | Ob_SetBackgroundGridLine sz \<Rightarrow> fireObserver_SetBackgroundGridLine sz
     | _ \<Rightarrow> updS (notify c))"

text \<open>\<^verbatim>\<open>caller_.performMainThread( boost::bind( &CSharedPaintManager::fireObserver_..., ... ) )\<close>.\<close>

definition perform :: "env \<Rightarrow> observer_call \<Rightarrow> unit pm" where
  "perform e c s =
     (if pm_mainThread s then fireObserver e c s
      else (Inr (), s\<lparr>pm_queue := pm_queue s @ [D_fire c]\<rparr>))"

definition performAlwaysDeffered :: "deferred \<Rightarrow> unit pm" where
  "performAlwaysDeffered d = updS (\<lambda>s. s\<lparr>pm_queue := pm_queue s @ [d]\<rparr>)"

section \<open>Users\<close>

definition findHistoryUser :: "bytes \<Rightarrow> paint_manager \<Rightarrow> user_ptr option" where
  "findHistoryUser u s = find (\<lambda>p. id_of p s = u) (pm_joinerHistory s)"

definition findUser_session :: "int \<Rightarrow> paint_manager \<Rightarrow> user_ptr option" where
  "findUser_session i s = find (\<lambda>p. sessionId (user p s) = i) (map snd (pm_joinerMap s))"

definition pm_findUser :: "bytes \<Rightarrow> paint_manager \<Rightarrow> user_ptr option" where
  "pm_findUser u s = m_find u (pm_joinerMap s)"

definition userCount :: "paint_manager \<Rightarrow> nat" where
  "userCount s = length (pm_joinerMap s)"

definition setMyself :: "CPaintUser \<Rightarrow> CPaintUser" where
  "setMyself u = u\<lparr>mySelfFlag := True\<rparr>"

definition setUserData :: "SPaintUserInfoData \<Rightarrow> CPaintUser \<Rightarrow> CPaintUser" where
  "setUserData d u = u\<lparr>user_data := d\<rparr>"

definition setSessionId :: "int \<Rightarrow> CPaintUser \<Rightarrow> CPaintUser" where
  "setSessionId i u = u\<lparr>sessionId := i\<rparr>"

definition setChannel :: "bytes \<Rightarrow> CPaintUser \<Rightarrow> CPaintUser" where
  "setChannel c u = u\<lparr>user_data := (user_data u)\<lparr>u_channel := c\<rparr>\<rparr>"

definition setListenTcpPort :: "16 word \<Rightarrow> CPaintUser \<Rightarrow> CPaintUser" where
  "setListenTcpPort p u = u\<lparr>user_data := (user_data u)\<lparr>u_listenTcpPort := p\<rparr>\<rparr>"

definition setLocalIPAddress :: "bytes \<Rightarrow> CPaintUser \<Rightarrow> CPaintUser" where
  "setLocalIPAddress ip u = u\<lparr>user_data := (user_data u)\<lparr>u_localIp := ip\<rparr>\<rparr>"

definition setScreenStreaming :: "bool \<Rightarrow> CPaintUser \<Rightarrow> CPaintUser" where
  "setScreenStreaming b u = u\<lparr>user_data := (user_data u)\<lparr>u_screenStreaming := b\<rparr>\<rparr>"

definition setScreenStreamListenPort :: "16 word \<Rightarrow> CPaintUser \<Rightarrow> CPaintUser" where
  "setScreenStreamListenPort p u = u\<lparr>screenStreamListenPort := p\<rparr>"

definition addHistoryUser :: "user_ptr \<Rightarrow> paint_manager \<Rightarrow> paint_manager" where
  "addHistoryUser p s =
     (case findHistoryUser (id_of p s) s of
        Some q \<Rightarrow> s
      | None \<Rightarrow>
          (let s1 = s\<lparr>pm_joinerHistory := pm_joinerHistory s @ [p]\<rparr>;
               s2 = (if id_of p s1 = myId s1 then upd_userp p setMyself s1 else s1)
           in s2\<lparr>pm_cmd := addPainter (id_of p s2) (pm_cmd s2)\<rparr>))"

text \<open>The part of \<^verbatim>\<open>addUser\<close> under the lock: the user object that counts, and the first flag.\<close>

definition addUser_table :: "user_ptr \<Rightarrow> paint_manager \<Rightarrow> (user_ptr \<times> bool) \<times> paint_manager" where
  "addUser_table p s =
     (let (p1, s1) =
            (case findHistoryUser (id_of p s) s of
               Some h \<Rightarrow> (h, upd_userp h (setUserData (user_data (user p s))) s)
             | None \<Rightarrow> (p, addHistoryUser p s))
      in case m_find (id_of p1 s1) (pm_joinerMap s1) of
           None \<Rightarrow> ((p1, True), s1\<lparr>pm_joinerMap := m_put (id_of p1 s1) p1 (pm_joinerMap s1)\<rparr>)
         | Some q \<Rightarrow> ((p1, False), upd_userp q (setUserData (user_data (user p1 s1))) s1))"

definition addUser :: "env \<Rightarrow> user_ptr \<Rightarrow> bool pm" where
  "addUser e p s =
     (case addUser_table p s of
        ((p1, first), s1) \<Rightarrow>
          bindS (whenS (\<not> mySelfFlag (user p1 s1))
              (if first then perform e (Ob_EnterPaintUser p1) else perform e (Ob_UpdatePaintUser p1)))
            (\<lambda>u. returnS first) s1)"

definition removeUser :: "env \<Rightarrow> bytes \<Rightarrow> unit pm" where
  "removeUser e u s =
     (case m_find u (pm_joinerMap s) of
        None \<Rightarrow> (Inr (), s)
      | Some p \<Rightarrow> perform e (Ob_LeavePaintUser p) (s\<lparr>pm_joinerMap := m_erase u (pm_joinerMap s)\<rparr>))"

definition clearAllUsers :: "env \<Rightarrow> unit pm" where
  "clearAllUsers e =
     thenS (updS (\<lambda>s. s\<lparr>pm_joinerMap := []\<rparr>)) (bindS (addUser e my) (\<lambda>first. returnS ()))"

text \<open>\<^verbatim>\<open>std::sort\<close> by nick name; the order of equal names is not specified, here it is stable.\<close>

definition userList :: "paint_manager \<Rightarrow> user_ptr list" where
  "userList s = sort_key (\<lambda>p. u_nickName (user_data (user p s))) (map snd (pm_joinerMap s))"

definition serializeHistoryJoinerList :: "paint_manager \<Rightarrow> bytes" where
  "serializeHistoryJoinerList s = make_HistoryUserList (map (\<lambda>p. user p s) (pm_joinerHistory s))"

definition serializeJoinerList :: "paint_manager \<Rightarrow> bytes" where
  "serializeJoinerList s = concat (map (\<lambda>(u, p). make_JoinerToSuperPeer (user p s)) (pm_joinerMap s))"

section \<open>Sessions and sending\<close>

definition isconnected :: "paint_manager \<Rightarrow> int \<Rightarrow> bool" where
  "isconnected s i = (case pm_sessions s i of None \<Rightarrow> False | Some p \<Rightarrow> ps_isConnected (pa_peer p))"

definition isconnecting :: "paint_manager \<Rightarrow> int \<Rightarrow> bool" where
  "isconnecting s i = (case pm_sessions s i of None \<Rightarrow> False | Some p \<Rightarrow> ps_isConnecting (pa_peer p))"

definition connected_opt :: "paint_manager \<Rightarrow> int option \<Rightarrow> bool" where
  "connected_opt s x = (case x of None \<Rightarrow> False | Some i \<Rightarrow> isconnected s i)"

definition isConnected :: "paint_manager \<Rightarrow> bool" where
  "isConnected s =
     (if connected_opt s (pm_relayServerSession s) then True
      else if connected_opt s (pm_superPeerSession s) then True
      else list_ex (isconnected s) (pm_sessionList s))"

definition isConnecting :: "paint_manager \<Rightarrow> bool" where
  "isConnecting s =
     (if (case pm_relayServerSession s of None \<Rightarrow> False | Some i \<Rightarrow> isconnecting s i) then True
      else if (case pm_superPeerSession s of None \<Rightarrow> False | Some i \<Rightarrow> isconnecting s i) then True
      else list_ex (isconnecting s) (pm_sessionList s))"

definition isMySelfSuperPeer :: "paint_manager \<Rightarrow> bool" where
  "isMySelfSuperPeer s \<longleftrightarrow> pm_superPeerSession s = None \<and> pm_superPeerId s = myId s"

definition isRelayServerMode :: "paint_manager \<Rightarrow> bool" where
  "isRelayServerMode s \<longleftrightarrow> pm_relayServerSession s \<noteq> None"

definition isAlwaysP2PMode :: "paint_manager \<Rightarrow> bool" where
  "isAlwaysP2PMode s \<longleftrightarrow> pm_relayServerSession s = None"

definition isRelayServerSession :: "int \<Rightarrow> paint_manager \<Rightarrow> bool" where
  "isRelayServerSession i s \<longleftrightarrow> pm_relayServerSession s = Some i"

definition isSuperPeerSession :: "int \<Rightarrow> paint_manager \<Rightarrow> bool" where
  "isSuperPeerSession i s \<longleftrightarrow> pm_superPeerSession s = Some i"

definition findSession :: "int \<Rightarrow> paint_manager \<Rightarrow> int option" where
  "findSession i s = find (\<lambda>j. j = i) (pm_sessionList s)"

text \<open>A call on the peer session of a paint session; one that has been deleted is a dangling pointer.\<close>

definition on_peer :: "int \<Rightarrow> (peer_session, 'a) meth \<Rightarrow> 'a pm" where
  "on_peer i m s =
     (case pm_sessions s i of
        None \<Rightarrow> (Inl BufferOverread, s)
      | Some p \<Rightarrow>
          (case m (pa_peer p) of
             (r, q) \<Rightarrow> (r, s\<lparr>pm_sessions := (pm_sessions s)(i \<mapsto> p\<lparr>pa_peer := q\<rparr>)\<rparr>)))"

definition send_all :: "int list \<Rightarrow> int \<Rightarrow> bytes \<Rightarrow> unit pm" where
  "send_all ids packetId msg =
     bindS (mapS (\<lambda>i. on_peer i (ps_sendPacket (new_net_packet packetId msg))) ids) (\<lambda>us. returnS ())"

definition sendDataToSessions :: "int list \<Rightarrow> bytes \<Rightarrow> int \<Rightarrow> int pm" where
  "sendDataToSessions sessions msg toSessionId s =
     (let packetId = pm_PACKETID s + 1;
          sendable = filter (\<lambda>i. isconnected s i \<and> \<not> (toSessionId \<ge> 0 \<and> i \<noteq> toSessionId)) sessions;
          infos = map (\<lambda>i. \<lparr>si_session = i, si_wroteBytes = 0, si_totalBytes = int (length msg)\<rparr>) sendable;
          s1 = s\<lparr>pm_PACKETID := packetId\<rparr>
      in if sendable \<noteq> []
         then bindS (send_all sendable packetId msg) (\<lambda>u. returnS packetId)
           (s1\<lparr>pm_sendInfo := (if m_find packetId (pm_sendInfo s1) = None
                              then m_put packetId infos (pm_sendInfo s1) else pm_sendInfo s1),
              pm_lastPacketId := packetId\<rparr>)
         else (Inr (- 1), s1))"

definition sendDataToUsers_to :: "bytes \<Rightarrow> int \<Rightarrow> int pm" where
  "sendDataToUsers_to msg toSessionId s =
     (if connected_opt s (pm_superPeerSession s)
      then sendDataToSessions [the (pm_superPeerSession s)] msg toSessionId s
      else if length (pm_sessionList s) > 0
      then sendDataToSessions (pm_sessionList s) msg toSessionId s
      else if connected_opt s (pm_relayServerSession s)
      then sendDataToSessions [the (pm_relayServerSession s)] msg toSessionId s
      else (Inr (- 1), s))"

definition sendDataToUsers :: "bytes \<Rightarrow> int pm" where
  "sendDataToUsers msg = sendDataToUsers_to msg (- 1)"

definition sendDataToUsers_unit :: "bytes \<Rightarrow> unit pm" where
  "sendDataToUsers_unit msg = bindS (sendDataToUsers msg) (\<lambda>i. returnS ())"

definition sendMyUserInfo :: "int \<Rightarrow> unit pm" where
  "sendMyUserInfo i s =
     on_peer i (ps_sendData
       (if isRelayServerSession i s then make_JoinToServer (user my s) else make_JoinerToSuperPeer (user my s))) s"

definition notifyRemoveUserInfo :: "user_ptr \<Rightarrow> unit pm" where
  "notifyRemoveUserInfo p s =
     sendDataToUsers_unit (make_LeftUser (u_channel (user_data (user p s))) (id_of p s)) s"

section \<open>The end of a session\<close>

definition DEFAULT_RECONNECT_TRY_COUNT :: int where
  "DEFAULT_RECONNECT_TRY_COUNT = 3"

definition tryReconnectToRelayServer :: "int option \<Rightarrow> unit pm" where
  "tryReconnectToRelayServer unconnected = updS (\<lambda>s.
     if (case unconnected of None \<Rightarrow> True | Some i \<Rightarrow> isRelayServerSession i s)
     then (let n = pm_retryCount s; s1 = s\<lparr>pm_retryCount := n + 1\<rparr> in
           if n < DEFAULT_RECONNECT_TRY_COUNT
           then s1\<lparr>pm_timers := pm_timers s1 @ [(D_reconnect, 2000)]\<rparr> else s1)
     else s)"

definition removeSession :: "int \<Rightarrow> unit pm" where
  "removeSession i = performAlwaysDeffered (D_removeSession i)"

definition removeUdpStreamSession :: "bytes \<Rightarrow> unit pm" where
  "removeUdpStreamSession u = updS (\<lambda>s. s\<lparr>pm_udpSessionMap := m_erase u (pm_udpSessionMap s)\<rparr>)"

definition onDisconnected :: "env \<Rightarrow> int \<Rightarrow> unit pm" where
  "onDisconnected e i =
     thenS (tryReconnectToRelayServer (Some i))
    (thenS (\<lambda>s. whenS (\<not> isConnected s) (perform e Ob_Disconnected) s)
    (thenS (\<lambda>s. case findUser_session i s of
         None \<Rightarrow> (Inr (), s)
       | Some p \<Rightarrow>
           (let u = id_of p s in
            thenS (\<lambda>s. whenS (isAlwaysP2PMode s) (notifyRemoveUserInfo p) s)
           (thenS (removeUser e u)
              (removeUdpStreamSession u)) s))
      (removeSession i)))"

definition onConnectFailed :: "env \<Rightarrow> int \<Rightarrow> unit pm" where
  "onConnectFailed e i =
     thenS (tryReconnectToRelayServer (Some i))
    (thenS (\<lambda>s. whenS (isRelayServerSession i s) (perform e Ob_ConnectFailed) s)
      (removeSession i))"

text \<open>The calls a peer session has made on its target, taken one after the other.\<close>

definition take_fired :: "int \<Rightarrow> paint_manager \<Rightarrow> net_event list \<times> paint_manager" where
  "take_fired i s =
     (case pm_sessions s i of
        None \<Rightarrow> ([], s)
      | Some p \<Rightarrow>
          (ps_fired (pa_peer p),
           s\<lparr>pm_sessions := (pm_sessions s)(i \<mapsto> p\<lparr>pa_peer := (pa_peer p)\<lparr>ps_fired := []\<rparr>\<rparr>)\<rparr>))"

definition handle_end :: "env \<Rightarrow> int \<Rightarrow> net_event \<Rightarrow> unit pm" where
  "handle_end e i ev = (case ev of
       Net_Disconnected \<Rightarrow> onDisconnected e i
     | Net_ConnectFailed \<Rightarrow> onConnectFailed e i
     | _ \<Rightarrow> returnS ())"

definition ends :: "env \<Rightarrow> int \<Rightarrow> unit pm" where
  "ends e i s =
     (case take_fired i s of
        (evs, s1) \<Rightarrow> bindS (mapS (handle_end e i) evs) (\<lambda>us. returnS ()) s1)"

definition close_session :: "env \<Rightarrow> int \<Rightarrow> unit pm" where
  "close_session e i = thenS (on_peer i (updS ps_close)) (ends e i)"

text \<open>
  The last shared pointer to a paint session is gone: its destructor closes the connection and the
  object is deleted.  The byte counts of the packets hold plain pointers, which keep no session alive
  and are only compared: \<open>pm_sendInfo\<close> may go on naming a session that is gone.
\<close>

definition referenced :: "int \<Rightarrow> paint_manager \<Rightarrow> bool" where
  "referenced i s \<longleftrightarrow>
     i \<in> set (pm_sessionList s) \<or> pm_superPeerSession s = Some i \<or> pm_relayServerSession s = Some i"

definition release :: "env \<Rightarrow> int option \<Rightarrow> unit pm" where
  "release e x s = (case x of
       None \<Rightarrow> (Inr (), s)
     | Some i \<Rightarrow>
         if referenced i s \<or> pm_sessions s i = None then (Inr (), s)
         else thenS (close_session e i) (updS (\<lambda>s. s\<lparr>pm_sessions := (pm_sessions s)(i := None)\<rparr>)) s)"

definition set_superPeerSession :: "env \<Rightarrow> int option \<Rightarrow> unit pm" where
  "set_superPeerSession e x s = release e (pm_superPeerSession s) (s\<lparr>pm_superPeerSession := x\<rparr>)"

definition set_relayServerSession :: "env \<Rightarrow> int option \<Rightarrow> unit pm" where
  "set_relayServerSession e x s = release e (pm_relayServerSession s) (s\<lparr>pm_relayServerSession := x\<rparr>)"

definition clearAllSessions :: "env \<Rightarrow> unit pm" where
  "clearAllSessions e =
     thenS (set_superPeerSession e None)
    (thenS (set_relayServerSession e None)
       (\<lambda>s. bindS (mapS (close_session e) (pm_sessionList s)) (\<lambda>us. returnS ()) s))"

definition delayedRemoveSession :: "env \<Rightarrow> int \<Rightarrow> unit pm" where
  "delayedRemoveSession e i =
     thenS (\<lambda>s. if i \<in> set (pm_sessionList s)
                then release e (Some i) (s\<lparr>pm_sessionList := remove1 i (pm_sessionList s)\<rparr>)
                else (Inr (), s))
    (thenS (\<lambda>s. whenS (pm_superPeerSession s = Some i) (set_superPeerSession e None) s)
       (\<lambda>s. whenS (pm_relayServerSession s = Some i) (set_relayServerSession e None) s))"

end
