(* ===== verification/PaintActions.thy ===== *)
theory PaintActions
  imports PaintManager
begin

text \<open>
  What the user interface and the network ask of \<^verbatim>\<open>CSharedPaintManager\<close>: connecting and closing, the
  actions on the drawing, the search for servers, and the events of the sessions other than a
  received packet.
\<close>

section \<open>Searching and listening\<close>

definition DEFAULT_BROADCAST_PORT :: int where "DEFAULT_BROADCAST_PORT = 3336"
definition DEFAULT_BROADCAST_UDP_PORT_FOR_TEXTMSG :: int where "DEFAULT_BROADCAST_UDP_PORT_FOR_TEXTMSG = 3338"
definition START_SERVER_PORT :: int where "START_SERVER_PORT = 4001"
definition START_UDP_LISTEN_PORT :: int where "START_UDP_LISTEN_PORT = 5001"
definition START_UDP_LISTEN_PORT_FOR_STREAM :: int where "START_UDP_LISTEN_PORT_FOR_STREAM = 6000"

definition startListenBroadCast :: "env \<Rightarrow> bool pm" where
  "startListenBroadCast e s =
     (let (ok, b) = bc_listenUdp (en_udpOpen e) (en_udpBind e DEFAULT_BROADCAST_PORT)
            (new_broadcast_session\<lparr>bc_evtTarget := True\<rparr>)
      in (Inr ok, s\<lparr>pm_bcListener := Some b\<rparr>))"

definition stopListenBroadCast :: "unit pm" where
  "stopListenBroadCast = updS (\<lambda>s. s\<lparr>pm_bcListener := map_option bc_close (pm_bcListener s)\<rparr>)"

definition u_stopFindingServer :: "unit pm" where
  "u_stopFindingServer = updS (\<lambda>s.
     if \<not> pm_findingServerMode s then s
     else s\<lparr>pm_bcFinder := map_option bc_close (pm_bcFinder s),
            pm_udpForConnection := map_option us_close (pm_udpForConnection s),
            pm_findingServerMode := False\<rparr>)"

definition stopFindingServer :: "env \<Rightarrow> unit pm" where
  "stopFindingServer e = thenS u_stopFindingServer (bindS (startListenBroadCast e) (\<lambda>ok. returnS ()))"

text \<open>\<^verbatim>\<open>while( true ) { if( session->listen( port ) ) break; port++; }\<close>\<close>

partial_function (option) listen_loop :: "env \<Rightarrow> int \<Rightarrow> udp_session \<Rightarrow> (int \<times> udp_session) option" where
  "listen_loop e port u =
     (let (ok, u') = us_listen (en_udpOpen e) (en_udpBind e port) u
      in if ok then Some (port, u') else listen_loop e (port + 1) u')"

declare listen_loop.simps [code]

section \<open>Closing\<close>

definition clearScreen :: "env \<Rightarrow> bool \<Rightarrow> unit pm" where
  "clearScreen e sendData =
     thenS (whenS sendData (sendDataToUsers_unit make_ClearScreen)) (perform e Ob_ClearScreen)"

definition closeSession :: "env \<Rightarrow> unit pm" where
  "closeSession e =
     thenS (updS (\<lambda>s. s\<lparr>pm_enabled := True\<rparr>))
    (thenS (clearAllUsers e)
    (thenS (clearAllSessions e)
    (thenS (stopFindingServer e)
       (updS (\<lambda>s. s\<lparr>pm_syncStarted := False, pm_findingServerMode := False\<rparr>)))))"

definition pm_close :: "env \<Rightarrow> unit pm" where
  "pm_close e =
     thenS (assertS pm_mainThread)
    (thenS (clearScreen e False)
    (thenS clearAllItems
       (closeSession e)))"

definition perform_close :: "env \<Rightarrow> unit pm" where
  "perform_close e s =
     (if pm_mainThread s then pm_close e s else (Inr (), s\<lparr>pm_queue := pm_queue s @ [D_close]\<rparr>))"

definition onTimeoutSyncStart :: "env \<Rightarrow> unit pm" where
  "onTimeoutSyncStart e s = (if pm_syncStarted s = False then pm_close e s else (Inr (), s))"

section \<open>Connecting\<close>

text \<open>A new peer session in a new paint session.\<close>

definition new_session :: "env \<Rightarrow> paint_manager \<Rightarrow> int \<times> paint_manager" where
  "new_session e s =
     (let i = pm_nextSession s in
      (i, s\<lparr>pm_nextSession := i + 1,
           pm_sessions := (pm_sessions s)(i \<mapsto>
             \<lparr>pa_peer = (new_peer_session i)\<lparr>ps_evtTarget := True\<rparr>, pa_slicer = en_newSlicer e\<rparr>)\<rparr>))"

definition connect_session :: "env \<Rightarrow> int \<Rightarrow> bytes \<Rightarrow> int \<Rightarrow> unit pm" where
  "connect_session e i addr port =
     thenS (on_peer i (updS (\<lambda>p. snd (ps_connect (en_now e) (en_resolve e addr port) p)))) (ends e i)"

definition connectToSuperPeer :: "env \<Rightarrow> user_ptr \<Rightarrow> bool pm" where
  "connectToSuperPeer e p =
     thenS (assertS (\<lambda>s. \<not> mySelfFlag (user p s)))
     (\<lambda>s. case new_session e s of
        (i, s1) \<Rightarrow>
          thenS (set_superPeerSession e (Some i))
         (thenS (\<lambda>s. connect_session e i (u_viewIp (user_data (user p s)))
                       (uint (u_listenTcpPort (user_data (user p s)))) s)
            (returnS True)) s1)"

definition LOCALHOST :: bytes where
  "LOCALHOST = [108, 111, 99, 97, 108, 104, 111, 115, 116]"

definition u_connectToPeer :: "env \<Rightarrow> bytes \<Rightarrow> int \<Rightarrow> bool pm" where
  "u_connectToPeer e addr port s =
     (if port = pm_listenTcpPort s \<and> (addr = en_myIp e \<or> addr = LOCALHOST) then (Inr False, s)
      else case new_session e s of
        (i, s1) \<Rightarrow>
          thenS (updS (\<lambda>s. s\<lparr>pm_sessionList := pm_sessionList s @ [i]\<rparr>))
         (thenS (connect_session e i addr port)
         (thenS (updS (\<lambda>s. s\<lparr>pm_lastConnectMode := PEER_MODE, pm_lastConnectAddress := addr,
                            pm_lastConnectPort := port\<rparr>))
            (returnS True))) s1)"

definition u_requestJoinServer :: "env \<Rightarrow> bytes \<Rightarrow> int \<Rightarrow> bytes \<Rightarrow> bool pm" where
  "u_requestJoinServer e addr port roomid s =
     (case new_session e s of
        (i, s1) \<Rightarrow>
          thenS (set_relayServerSession e (Some i))
         (thenS (connect_session e i addr port)
         (thenS (updS (\<lambda>s. s\<lparr>pm_lastConnectMode := SERVER_MODE, pm_lastConnectAddress := addr,
                            pm_lastConnectPort := port\<rparr>))
            (returnS True))) s1)"

definition reconnect :: "env \<Rightarrow> unit pm" where
  "reconnect e s =
     (if isConnected s \<or> isConnecting s then (Inr (), s)
      else if pm_lastConnectAddress s = [] \<or> pm_lastConnectPort s < 0 then (Inr (), s)
      else case pm_lastConnectMode s of
        PEER_MODE \<Rightarrow>
          bindS (u_connectToPeer e (pm_lastConnectAddress s) (pm_lastConnectPort s)) (\<lambda>b. returnS ()) s
      | SERVER_MODE \<Rightarrow>
          bindS (u_requestJoinServer e (pm_lastConnectAddress s) (pm_lastConnectPort s)
                   (u_channel (user_data (user my s)))) (\<lambda>b. returnS ()) s
      | INIT_MODE \<Rightarrow> (Inr (), s))"

definition connectToPeer :: "env \<Rightarrow> bytes \<Rightarrow> int \<Rightarrow> bool pm" where
  "connectToPeer e addr port =
     thenS (updS (\<lambda>s. s\<lparr>pm_retryCount := 0\<rparr>)) (thenS (pm_close e) (u_connectToPeer e addr port))"

definition requestJoinServer :: "env \<Rightarrow> bytes \<Rightarrow> int \<Rightarrow> bytes \<Rightarrow> bool pm" where
  "requestJoinServer e addr port roomid =
     thenS (updS (\<lambda>s. s\<lparr>pm_retryCount := 0\<rparr>)) (thenS (pm_close e) (u_requestJoinServer e addr port roomid))"

text \<open>
  The parameter of \<^verbatim>\<open>startServer\<close> is hidden by the variable of the loop.  A bound acceptor is \<open>pm_server\<close>.
\<close>

definition startServer :: "env \<Rightarrow> int \<Rightarrow> bool pm" where
  "startServer e port s =
     (if pm_server s then (Inr True, s)
      else let s1 = s\<lparr>pm_server := True\<rparr>;
               s2 = (case find (en_tcpBind e) [START_SERVER_PORT .. START_SERVER_PORT + 99] of
                       None \<Rightarrow> s1 | Some p \<Rightarrow> s1\<lparr>pm_listenTcpPort := p\<rparr>)
           in if pm_listenTcpPort s2 > 0
              then (Inr True, upd_userp my (setListenTcpPort (of_int (pm_listenTcpPort s2))) s2)
              else (Inl AssertFailure, s2))"

definition stopServer :: "unit pm" where
  "stopServer = updS (\<lambda>s. s\<lparr>pm_server := False\<rparr>)"

text \<open>\<open>None\<close> when the search for a free port does not end.\<close>

definition startFindingServer :: "env \<Rightarrow> paint_manager \<Rightarrow> (bool result \<times> paint_manager) option" where
  "startFindingServer e s =
     (case thenS stopListenBroadCast (thenS u_stopFindingServer (thenS (clearAllUsers e) (clearAllSessions e))) s of
        (Inl err, s1) \<Rightarrow> Some (Inl err, s1)
      | (Inr u, s1) \<Rightarrow>
          map_option (\<lambda>(port, u).
            let probe = make_ProbeServer (u_channel (user_data (user my s1))) (en_myIp e) (of_int port);
                b = snd (bc_startSend (en_udpOpen e) DEFAULT_BROADCAST_PORT probe 3
                           (new_broadcast_session\<lparr>bc_evtTarget := True\<rparr>))
            in (Inr True, s1\<lparr>pm_udpForConnection := Some u, pm_listenUdpPort := port,
                            pm_bcFinder := Some b, pm_findingServerMode := True\<rparr>))
          (listen_loop e START_UDP_LISTEN_PORT (new_udp_session\<lparr>us_evtTarget := True\<rparr>)))"

section \<open>My user\<close>

definition initialize :: "env \<Rightarrow> bytes \<Rightarrow> unit pm" where
  "initialize e uid =
     thenS (updS (upd_userp my (setUserData (new_user_info\<lparr>u_userId := uid\<rparr>))))
       (bindS (addUser e my) (\<lambda>first. returnS ()))"

definition changeNickName :: "env \<Rightarrow> bytes \<Rightarrow> unit pm" where
  "changeNickName e nick s =
     (let prev = u_nickName (user_data (user my s)) in
      if prev = nick then (Inr (), s)
      else thenS (updS (upd_userp my (setNickName nick)))
        (thenS (\<lambda>s. sendDataToUsers_unit (make_ChangeNickName (myId s) (u_nickName (user_data (user my s)))) s)
          (\<lambda>s. whenS (prev \<noteq> [] \<and> prev \<noteq> nick) (perform e (Ob_ChangedNickName (myId s) prev nick)) s)) s)"

definition setPaintChannel :: "env \<Rightarrow> bytes \<Rightarrow> unit pm" where
  "setPaintChannel e ch = updS (\<lambda>s.
     let probe = make_ProbeServer ch (en_myIp e) (of_int (pm_listenUdpPort s));
         s1 = s\<lparr>pm_bcFinder := map_option (bc_setBroadCastMessage probe) (pm_bcFinder s)\<rparr>
     in upd_userp my (setLocalIPAddress (en_myIp e)) (upd_userp my (setChannel ch) s1))"

definition sendChatMessage :: "env \<Rightarrow> bytes \<Rightarrow> unit pm" where
  "sendChatMessage e msg =
     thenS (\<lambda>s. sendDataToUsers_unit (make_ChatMessage (myId s) (u_nickName (user_data (user my s))) msg) s)
       (\<lambda>s. perform e (Ob_ReceivedChatMessage (myId s) (u_nickName (user_data (user my s))) msg) s)"

definition sendBroadCastTextMessage :: "env \<Rightarrow> bytes \<Rightarrow> bytes \<Rightarrow> unit pm" where
  "sendBroadCastTextMessage e ch msg =
     thenS (updS (\<lambda>s.
         let d = make_TextMessage ch (myId s) (u_nickName (user_data (user my s))) msg in
         s\<lparr>pm_bcSendMessage := map_option (bc_sendData DEFAULT_BROADCAST_UDP_PORT_FOR_TEXTMSG d) (pm_bcSendMessage s)\<rparr>))
       (\<lambda>s. perform e (Ob_ReceivedBroadcastTextMessage ch (myId s) (u_nickName (user_data (user my s))) msg) s)"

section \<open>The command manager\<close>

text \<open>
  What a method of the command manager sends and reports, in order.  The observers of a task and of
  the history are called through callers of their own, so on the network thread they wait in queues
  of their own.
\<close>

definition call_of :: "event \<Rightarrow> observer_call option" where
  "call_of ev = (case ev of
       AddTask n pb \<Rightarrow> Some (Ob_AddTask n pb)
     | AddPaintItem p \<Rightarrow> Some (Ob_AddPaintItem p)
     | RemovePaintItem p \<Rightarrow> Some (Ob_RemovePaintItem p)
     | UpdatePaintItem p \<Rightarrow> Some (Ob_UpdatePaintItem p)
     | MovePaintItem p x y \<Rightarrow> Some (Ob_MovePaintItem p x y)
     | ShowErrorMessage p \<Rightarrow> Some (Ob_ItemError p)
     | SendDataToUsers msg \<Rightarrow> None)"

definition of_history :: "event \<Rightarrow> bool" where
  "of_history ev = (case ev of AddTask n pb \<Rightarrow> True | ShowErrorMessage p \<Rightarrow> True | _ \<Rightarrow> False)"

definition handle_event :: "env \<Rightarrow> event \<Rightarrow> unit pm" where
  "handle_event e ev s = (case ev of
       SendDataToUsers msg \<Rightarrow> sendDataToUsers_unit msg s
     | _ \<Rightarrow>
         (case call_of ev of
            None \<Rightarrow> (Inr (), s)
          | Some c \<Rightarrow>
              if pm_mainThread s then fireObserver e c s
              else if of_history ev then (Inr (), s\<lparr>pm_cmdQueue := pm_cmdQueue s @ [c]\<rparr>)
              else (Inr (), s\<lparr>pm_taskQueue := pm_taskQueue s @ [c]\<rparr>)))"

definition on_cmd :: "env \<Rightarrow> (cmd_mngr, 'a) meth \<Rightarrow> 'a pm" where
  "on_cmd e m s =
     (case m ((pm_cmd s)\<lparr>cm_events := []\<rparr>) of
        (r, c) \<Rightarrow>
          bindS (mapS (handle_event e) (cm_events c)) (\<lambda>us s. (r, s)) (s\<lparr>pm_cmd := c\<lparr>cm_events := []\<rparr>\<rparr>))"

section \<open>The drawing\<close>

definition pm_redoCommand :: "env \<Rightarrow> unit pm" where
  "pm_redoCommand e s =
     (if \<not> pm_enabled s then (Inr (), s) else bindS (on_cmd e redoCommand) (\<lambda>b. returnS ()) s)"

definition pm_undoCommand :: "env \<Rightarrow> unit pm" where
  "pm_undoCommand e s =
     (if \<not> pm_enabled s then (Inr (), s) else bindS (on_cmd e undoCommand) (\<lambda>b. returnS ()) s)"

definition pm_addPaintItem :: "env \<Rightarrow> CPaintItem \<Rightarrow> bool pm" where
  "pm_addPaintItem e it s =
     on_cmd e (addPaintItem (pm_enabled s) (\<lambda>it. make_CreateItem (en_qt e) (pm_files s) it None) it) s"

definition run_command :: "env \<Rightarrow> CSharedPaintCommand \<Rightarrow> unit pm" where
  "run_command e c s =
     (if \<not> pm_enabled s then (Inr (), s) else bindS (on_cmd e (executeCommand c)) (\<lambda>b. returnS ()) s)"

definition updatePaintItem :: "env \<Rightarrow> CPaintItem \<Rightarrow> unit pm" where
  "updatePaintItem e it = run_command e (new_UpdateItemCommand it)"

definition movePaintItem :: "env \<Rightarrow> CPaintItem \<Rightarrow> unit pm" where
  "movePaintItem e it = run_command e (new_MoveItemCommand it)"

definition removePaintItem :: "env \<Rightarrow> CPaintItem \<Rightarrow> unit pm" where
  "removePaintItem e it = run_command e (new_RemoveItemCommand it)"

text \<open>The error of \<^verbatim>\<open>image->serialize()\<close> leaves the method.\<close>

definition raise_or :: "'a result \<Rightarrow> ('a \<Rightarrow> 'b pm) \<Rightarrow> 'b pm" where
  "raise_or r k s = (case r of Inl err \<Rightarrow> (Inl err, s) | Inr a \<Rightarrow> k a s)"

definition sendBackgroundImage :: "env \<Rightarrow> CPaintItem option \<Rightarrow> int pm" where
  "sendBackgroundImage e img = (case img of
       None \<Rightarrow> returnS (- 1)
     | Some it \<Rightarrow>
         thenS (updS (\<lambda>s. s\<lparr>pm_backgroundImage := Some it\<rparr>))
        (thenS (fireObserver_SetBackgroundImage (Some it))
          (\<lambda>s. raise_or (make_SetBackgroundImage (en_qt e) (pm_files s) it None) sendDataToUsers s)))"

definition setBackgroundColor :: "env \<Rightarrow> rgba \<Rightarrow> unit pm" where
  "setBackgroundColor e c =
     thenS (sendDataToUsers_unit (make_SetBackgroundColor c None)) (fireObserver_SetBackgroundColor e c)"

definition clearBackground :: "unit pm" where
  "clearBackground =
     thenS (updS (\<lambda>s. s\<lparr>pm_backgroundImage := None\<rparr>))
    (thenS (sendDataToUsers_unit make_ClearBackground)
       fireObserver_ClearBackground)"

definition setBackgroundGridLine :: "32 word \<Rightarrow> unit pm" where
  "setBackgroundGridLine sz =
     thenS (sendDataToUsers_unit (make_SetBackgroundGridLine sz None)) (fireObserver_SetBackgroundGridLine sz)"

text \<open>The scroll positions are \<^verbatim>\<open>int\<close>; the members and the packet hold 16 bits.\<close>

definition notifyChangeCanvasScrollPos :: "32 word \<Rightarrow> 32 word \<Rightarrow> int pm" where
  "notifyChangeCanvasScrollPos h v =
     thenS (updS (\<lambda>s. s\<lparr>pm_scrollPos := (ucast h, ucast v)\<rparr>))
       (sendDataToUsers (make_ChangeCanvasScrollPos (ucast h) (ucast v) None))"

definition notifyResizingCanvas :: "32 word \<Rightarrow> 32 word \<Rightarrow> int pm" where
  "notifyResizingCanvas w h =
     thenS (updS (\<lambda>s. s\<lparr>pm_canvasSize := (w, h)\<rparr>)) (sendDataToUsers (make_ResizeCanvas w h None))"

definition notifyResizingMainWindow :: "32 word \<Rightarrow> 32 word \<Rightarrow> int pm" where
  "notifyResizingMainWindow w h =
     thenS (updS (\<lambda>s. s\<lparr>pm_windowSize := (w, h)\<rparr>)) (sendDataToUsers (make_ResizeMainWindow w h None))"

definition notifyResizingWindowSplitter :: "32 word list \<Rightarrow> int pm" where
  "notifyResizingWindowSplitter sizes =
     thenS (updS (\<lambda>s. s\<lparr>pm_splitterSizes := sizes\<rparr>)) (sendDataToUsers (make_ResizeWindowSplitter sizes None))"

definition notifyScreenRecordingStatus :: "bool \<Rightarrow> int pm" where
  "notifyScreenRecordingStatus b =
     thenS (updS (upd_userp my (setScreenRecording b)))
       (\<lambda>s. sendDataToUsers (make_ChangeRecordStatus (myId s) b) s)"

definition notifyChangeShowScreenStream :: "bool \<Rightarrow> bool \<Rightarrow> int pm" where
  "notifyChangeShowScreenStream senderFlag b =
     thenS (updS (upd_userp my (if senderFlag then setScreenStreaming b else setScreenStreamingReceiver b)))
       (\<lambda>s. sendDataToUsers (make_ChangeShowStream (myId s) senderFlag b) s)"

definition sendScreenStreamData :: "env \<Rightarrow> bytes \<Rightarrow> unit pm" where
  "sendScreenStreamData e d = updS (\<lambda>s.
     s\<lparr>pm_udpSessionMap := map (\<lambda>(u, session). (u, us_sendData (en_udpOpen e) d session)) (pm_udpSessionMap s)\<rparr>)"

text \<open>The port; \<open>None\<close> when no port is found.\<close>

definition sendResponseShowScreenStream ::
  "env \<Rightarrow> bytes \<Rightarrow> bool \<Rightarrow> paint_manager \<Rightarrow> (int result \<times> paint_manager) option" where
  "sendResponseShowScreenStream e toId accept s =
     (case pm_findUser toId s of
        None \<Rightarrow> Some (Inr 0, s)
      | Some p \<Rightarrow>
          map_option (\<lambda>(port, s1).
              thenS (updS (upd_userp my (setScreenStreamListenPort (of_int port))))
             (thenS (\<lambda>s. bindS (sendDataToUsers_to (make_ResShowStream (myId s) accept (of_int port))
                                  (sessionId (user p s))) (\<lambda>i. returnS ()) s)
                (returnS port)) s1)
            (if accept
             then map_option (\<lambda>(port, u). (port, s\<lparr>pm_udpForStream := Some u\<rparr>))
               (listen_loop e START_UDP_LISTEN_PORT_FOR_STREAM new_udp_session)
             else Some (0, s)))"

definition plabackTo :: "env \<Rightarrow> int \<Rightarrow> unit pm" where
  "plabackTo e p = on_cmd e (playbackTo p)"

definition pm_setAllowPainterToDraw :: "env \<Rightarrow> bytes \<Rightarrow> bool \<Rightarrow> unit pm" where
  "pm_setAllowPainterToDraw e u b = on_cmd e (setAllowPainterToDraw u b)"

section \<open>The whole state as packets\<close>

fun concat_results :: "bytes result list \<Rightarrow> bytes result" where
  "concat_results [] = Inr []"
| "concat_results (r # xs) = bindE r (\<lambda>a. bindE (concat_results xs) (\<lambda>b. Inr (a @ b)))"

definition history_items :: "env \<Rightarrow> paint_manager \<Rightarrow> CPaintItem list" where
  "history_items e s =
     List.map_filter (\<lambda>p. item_at (pm_cmd s) p) (en_itemOrder e (cm_historyItemSet (pm_cmd s)))"

definition serializeData :: "env \<Rightarrow> bytes option \<Rightarrow> paint_manager \<Rightarrow> bytes result" where
  "serializeData e target s = concat_results
     ([Inr (make_VersionInfo VERSION_TEXT PROTOCOL_VERSION_TEXT),
       Inr (make_ResizeMainWindow (fst (pm_windowSize s)) (snd (pm_windowSize s)) target),
       Inr (make_ResizeCanvas (fst (pm_canvasSize s)) (snd (pm_canvasSize s)) target),
       Inr (make_ResizeWindowSplitter (pm_splitterSizes s) target),
       Inr (make_ChangeCanvasScrollPos (fst (pm_scrollPos s)) (snd (pm_scrollPos s)) target)]
      @ (if 0 <s pm_gridLineSize s then [Inr (make_SetBackgroundGridLine (pm_gridLineSize s) target)] else [])
      @ (if pm_backgroundColor s \<noteq> WHITE then [Inr (make_SetBackgroundColor (pm_backgroundColor s) target)] else [])
      @ (case pm_backgroundImage s of None \<Rightarrow> []
         | Some it \<Rightarrow> [make_SetBackgroundImage (en_qt e) (pm_files s) it target])
      @ [Inr (serializeHistoryJoinerList s)]
      @ map (\<lambda>it. make_CreateItem (en_qt e) (pm_files s) it target) (history_items e s)
      @ map (\<lambda>t. make_ExecuteTask t target) (cm_historyTaskList (pm_cmd s)))"

definition sendAllSyncData :: "env \<Rightarrow> int \<Rightarrow> unit pm" where
  "sendAllSyncData e toSessionId s =
     (if isAlwaysP2PMode s = False then (Inr (), s)
      else raise_or (serializeData e None s) (\<lambda>d s.
        bindS (sendDataToUsers_to
            (make_SyncStart (u_channel (user_data (user my s))) (myId s) [] @ d
             @ serializeJoinerList s @ make_SyncComplete []) toSessionId) (\<lambda>i. returnS ()) s) s)"

definition requestSyncData :: "env \<Rightarrow> unit pm" where
  "requestSyncData e s =
     (if pm_syncStarted s then (Inr (), s)
      else thenS (clearScreen e False)
        (thenS (updS (\<lambda>s. s\<lparr>pm_syncTimers := pm_syncTimers s + 1\<rparr>))
          (\<lambda>s. case pm_relayServerSession s of
               None \<Rightarrow> (Inr (), s) | Some i \<Rightarrow> on_peer i (ps_sendData make_SyncRequest) s)) s)"

section \<open>Events of the sessions\<close>

definition onConnected :: "env \<Rightarrow> int \<Rightarrow> unit pm" where
  "onConnected e i =
     thenS (\<lambda>s. whenS (isSuperPeerSession i s) (requestSyncData e) s)
    (thenS (\<lambda>s. whenS (isRelayServerSession i s \<or> isSuperPeerSession i s \<or> isAlwaysP2PMode s)
        (thenS (sendMyUserInfo i)
          (\<lambda>s. whenS (isRelayServerSession i s) (updS (\<lambda>s. s\<lparr>pm_retryCount := 0\<rparr>)) s)) s)
    (thenS (\<lambda>s. whenS (isAlwaysP2PMode s \<and> isMySelfSuperPeer s) (sendAllSyncData e i) s)
       (\<lambda>s. whenS (isRelayServerSession i s \<or> isAlwaysP2PMode s) (perform e (Ob_Connected i)) s)))"

definition handle_net_event :: "env \<Rightarrow> int \<Rightarrow> net_event \<Rightarrow> unit pm" where
  "handle_net_event e i ev = (case ev of
       Net_Connected \<Rightarrow> onConnected e i
     | _ \<Rightarrow> handle_end e i ev)"

definition net_events :: "env \<Rightarrow> int \<Rightarrow> unit pm" where
  "net_events e i s =
     (case take_fired i s of
        (evs, s1) \<Rightarrow> bindS (mapS (handle_net_event e i) evs) (\<lambda>us. returnS ()) s1)"

definition onAccepted :: "env \<Rightarrow> unit pm" where
  "onAccepted e s =
     (case new_session e s of
        (i, s0) \<Rightarrow>
          (let s1 = snd (on_peer i (updS (\<lambda>p. p\<lparr>ps_open := True\<rparr>)) s0) in
           if isRelayServerMode s1 \<and> isMySelfSuperPeer s1 = False
           then release e (Some i) s1
           else thenS (updS (\<lambda>s. s\<lparr>pm_sessionList := pm_sessionList s @ [i]\<rparr>))
               (thenS (updS (\<lambda>s. if isAlwaysP2PMode s then s\<lparr>pm_superPeerId := myId s\<rparr> else s))
               (thenS (on_peer i (updS ps_start)) (net_events e i))) s1))"

definition onSentMessage :: "env \<Rightarrow> int \<Rightarrow> unit pm" where
  "onSentMessage e n = perform e (Ob_ServerFinding n)"

text \<open>\<^verbatim>\<open>wroteBytes\<close> of the first entry for the session.\<close>

fun set_wrote :: "int \<Rightarrow> int \<Rightarrow> send_byte_info list \<Rightarrow> send_byte_info list" where
  "set_wrote i n [] = []"
| "set_wrote i n (d # ds) =
     (if si_session d = i then d\<lparr>si_wroteBytes := n\<rparr> # ds else d # set_wrote i n ds)"

definition onSendingPacket :: "env \<Rightarrow> int \<Rightarrow> net_packet \<Rightarrow> unit pm" where
  "onSendingPacket e i p s =
     (let k = np_packetId p in
      if k < 0 then (Inr (), s)
      else case m_find k (pm_sendInfo s) of
        None \<Rightarrow> (Inr (), s)
      | Some ds \<Rightarrow>
          (let n = int (pb_totalSize (np_buffer p)) - int (pb_remainingSize (np_buffer p));
               ds' = set_wrote i n ds;
               totalBytes = sum_list (map si_totalBytes ds');
               wroteBytes = sum_list (map si_wroteBytes ds');
               info = m_put k ds' (pm_sendInfo s)
           in perform e (Ob_SendingPacket k wroteBytes totalBytes)
                (s\<lparr>pm_sendInfo := (if totalBytes \<le> wroteBytes then m_erase k info else info)\<rparr>)))"

section \<open>The main thread\<close>

text \<open>
  The functions deferred to the main thread run there in the order in which they were deferred
  (\<open>DefferedCaller.customEvent_is_fifo\<close>), one caller independent of the others.
\<close>

definition run_deferred :: "env \<Rightarrow> deferred \<Rightarrow> unit pm" where
  "run_deferred e d = (case d of
       D_fire c \<Rightarrow> fireObserver e c
     | D_close \<Rightarrow> pm_close e
     | D_removeSession i \<Rightarrow> delayedRemoveSession e i
     | D_reconnect \<Rightarrow> reconnect e)"

text \<open>One deferred call of \<^verbatim>\<open>caller_\<close>, of the tasks' caller, of the command manager's caller.\<close>

definition main_step :: "env \<Rightarrow> unit pm" where
  "main_step e s = (case pm_queue s of
       [] \<Rightarrow> (Inr (), s)
     | d # ds \<Rightarrow> run_deferred e d (s\<lparr>pm_queue := ds, pm_mainThread := True\<rparr>))"

definition task_step :: "env \<Rightarrow> unit pm" where
  "task_step e s = (case pm_taskQueue s of
       [] \<Rightarrow> (Inr (), s)
     | c # cs \<Rightarrow> fireObserver e c (s\<lparr>pm_taskQueue := cs, pm_mainThread := True\<rparr>))"

definition cmd_step :: "env \<Rightarrow> unit pm" where
  "cmd_step e s = (case pm_cmdQueue s of
       [] \<Rightarrow> (Inr (), s)
     | c # cs \<Rightarrow> fireObserver e c (s\<lparr>pm_cmdQueue := cs, pm_mainThread := True\<rparr>))"

definition timer_step :: "env \<Rightarrow> unit pm" where
  "timer_step e s = (case pm_timers s of
       [] \<Rightarrow> (Inr (), s)
     | (d, msec) # ds \<Rightarrow> run_deferred e d (s\<lparr>pm_timers := ds, pm_mainThread := True\<rparr>))"

end
