(* ===== verification/PaintDispatch.thy ===== *)
theory PaintDispatch
  imports PaintActions
begin

text \<open>
  What \<^verbatim>\<open>CSharedPaintManager\<close> does with a received packet: \<^verbatim>\<open>dispatchPaintPacket\<close> with a handler for
  each code, \<^verbatim>\<open>dispatchUdpPacket\<close>, \<^verbatim>\<open>dispatchBroadCastPacket\<close>, the loops that feed them, and
  \<^verbatim>\<open>deserializeData\<close>.  A session is \<open>None\<close> where the code passes \<^verbatim>\<open>NULL\<close>; using it then is
  undefined behaviour (\<open>BufferOverread\<close>).
\<close>

section \<open>Handlers\<close>

definition sid_of :: "int option \<Rightarrow> (int \<Rightarrow> 'a pm) \<Rightarrow> 'a pm" where
  "sid_of session k s = (case session of None \<Rightarrow> (Inl BufferOverread, s) | Some i \<Rightarrow> k i s)"

definition VERSION_ERROR :: bytes where
  "VERSION_ERROR = map (\<lambda>c. of_nat (of_char c)) ''protocol version is not compatible : ''"

definition VERSION_DIFFERS :: bytes where
  "VERSION_DIFFERS = map (\<lambda>c. of_nat (of_char c)) '' <> ''"

text \<open>
  The result of the comparison is needed; a version whose numbers do not fit an \<^verbatim>\<open>int\<close> is undefined
  behaviour.
\<close>

definition dispatch_VERSION_INFO :: "env \<Rightarrow> bytes \<Rightarrow> bool pm" where
  "dispatch_VERSION_INFO e body s =
     (let (ok, version, protVersion) = parse_VersionInfo body ([], []);
          mismatch = (if ok then map_option (\<lambda>c. 0 \<noteq> c) (compareVersion PROTOCOL_VERSION_TEXT protVersion)
                      else Some True)
      in case mismatch of
           None \<Rightarrow> (Inl BufferOverread, s)
         | Some False \<Rightarrow> (Inr True, s)
         | Some True \<Rightarrow>
             thenS (clearAllSessions e)
            (thenS (perform_close e)
            (thenS (perform e (Ob_VersionError (VERSION_ERROR @ protVersion @ VERSION_DIFFERS @ PROTOCOL_VERSION_TEXT)))
               (returnS False))) s)"

definition dispatch_CHANGE_NICKNAME :: "env \<Rightarrow> bytes \<Rightarrow> unit pm" where
  "dispatch_CHANGE_NICKNAME e body s =
     (let (ok, userid, nickname) = parse_ChangeNickName body ([], []) in
      if \<not> ok then (Inr (), s)
      else case pm_findUser userid s of
        None \<Rightarrow> (Inr (), s)
      | Some p \<Rightarrow>
          (let prevNickName = u_nickName (user_data (user p s)) in
           thenS (updS (upd_userp p (setNickName nickname)))
             (perform e (Ob_ChangedNickName userid prevNickName nickname)) s))"

definition dispatch_JOIN_TO_SERVER :: "env \<Rightarrow> int option \<Rightarrow> bytes \<Rightarrow> unit pm" where
  "dispatch_JOIN_TO_SERVER e session body s =
     (case parse_JoinToServer (en_newUser e) body of
        None \<Rightarrow> (Inr (), s)
      | Some u \<Rightarrow>
          thenS (\<lambda>s. if pm_relayServerSession s = None then (Inl AssertFailure, s)
                     else sid_of session (\<lambda>i. assertS (isRelayServerSession i)) s)
            (\<lambda>s. case new_userp u s of (p, s1) \<Rightarrow> bindS (addUser e p) (\<lambda>first. returnS ()) s1) s)"

definition dispatch_JOIN_TO_SUPERPEER :: "env \<Rightarrow> int option \<Rightarrow> bytes \<Rightarrow> unit pm" where
  "dispatch_JOIN_TO_SUPERPEER e session body s =
     (case parse_JoinerToSuperPeer (en_newUser e) body of
        None \<Rightarrow> (Inr (), s)
      | Some u \<Rightarrow>
          (case new_userp u s of
             (p, s1) \<Rightarrow>
               thenS (\<lambda>s. whenS (isAlwaysP2PMode s) (bindS (addUser e p) (\<lambda>first. returnS ())) s)
                 (\<lambda>s. case pm_findUser (u_userId (user_data u)) s of
                      None \<Rightarrow> (Inr (), s)
                    | Some q \<Rightarrow> sid_of session (\<lambda>i. updS (upd_userp q (setSessionId i))) s) s1))"

fun addUsers :: "env \<Rightarrow> CPaintUser list \<Rightarrow> unit pm" where
  "addUsers e [] s = (Inr (), s)"
| "addUsers e (u # us) s =
     (case new_userp u s of (p, s1) \<Rightarrow> thenS (addUser e p) (addUsers e us) s1)"

definition dispatch_RES_JOIN :: "env \<Rightarrow> bytes \<Rightarrow> unit pm" where
  "dispatch_RES_JOIN e body s =
     (let (ok, r) = parse_ResponseJoin (en_newUser e) body
            \<lparr>jr_channel = [], jr_firstFlag = False, jr_list = [], jr_superPeerId = []\<rparr>
      in if \<not> ok then (Inr (), s)
         else thenS (addUsers e (jr_list r))
           (bindS (\<lambda>s.
              if jr_superPeerId r \<noteq> myId s
              then (case pm_findUser (jr_superPeerId r) s of
                      None \<Rightarrow> (Inr False, s) | Some p \<Rightarrow> connectToSuperPeer e p s)
              else (Inr False, s))
            (\<lambda>connectSuperPeerFlag.
              thenS (updS (\<lambda>s. s\<lparr>pm_superPeerId := jr_superPeerId r\<rparr>))
                (\<lambda>s. whenS (False = jr_firstFlag r \<and> False = connectSuperPeerFlag
                            \<and> pm_relayServerSession s \<noteq> None) (requestSyncData e) s))) s)"

definition dispatch_CHANGE_SUPERPEER :: "env \<Rightarrow> bytes \<Rightarrow> unit pm" where
  "dispatch_CHANGE_SUPERPEER e body s =
     (let (ok, userid) = parse_ChangeSuperPeer body [] in
      if \<not> ok then (Inr (), s)
      else thenS (\<lambda>s.
             if userid \<noteq> myId s
             then (case pm_findUser userid s of
                     None \<Rightarrow> (Inr (), s) | Some p \<Rightarrow> bindS (connectToSuperPeer e p) (\<lambda>b. returnS ()) s)
             else (Inr (), s))
           (updS (\<lambda>s. s\<lparr>pm_superPeerId := userid\<rparr>)) s)"

definition relay_send :: "bytes \<Rightarrow> unit pm" where
  "relay_send msg s = (case pm_relayServerSession s of
       None \<Rightarrow> (Inl AssertFailure, s) | Some i \<Rightarrow> on_peer i (ps_sendData msg) s)"

definition dispatch_TCPSYN :: "unit pm" where
  "dispatch_TCPSYN = relay_send make_TcpAck"

definition dispatch_SYNC_START :: "env \<Rightarrow> bytes \<Rightarrow> unit pm" where
  "dispatch_SYNC_START e body s =
     (if fst (parse_SyncStart body [])
      then perform e Ob_SyncStart (s\<lparr>pm_syncStarted := True\<rparr>) else (Inr (), s))"

definition dispatch_SYNC_COMPLETE :: "env \<Rightarrow> unit pm" where
  "dispatch_SYNC_COMPLETE e s = perform e Ob_SyncComplete (s\<lparr>pm_syncStarted := False\<rparr>)"

definition dispatch_SYNC_REQUEST :: "env \<Rightarrow> bytes \<Rightarrow> unit pm" where
  "dispatch_SYNC_REQUEST e body s =
     (let (ok, channel, target) = parse_SyncRequest body ([], []) in
      if \<not> ok then (Inr (), s)
      else raise_or (serializeData e (Some target) s) (\<lambda>d s.
        let package = make_SyncStart channel (myId s) target @ d @ make_SyncComplete target in
        if isMySelfSuperPeer s
        then thenS (assertS (\<lambda>s. length (pm_sessionList s) > 0))
          (\<lambda>s. case pm_findUser target s of
               None \<Rightarrow> (Inr (), s)
             | Some p \<Rightarrow> bindS (sendDataToUsers_to package (sessionId (user p s))) (\<lambda>i. returnS ()) s) s
        else relay_send package s) s)"

definition dispatch_LEFT :: "env \<Rightarrow> bytes \<Rightarrow> unit pm" where
  "dispatch_LEFT e body s =
     (let (ok, channel, userId) = parse_LeftUser body ([], []) in
      if ok then removeUser e userId s else (Inr (), s))"

definition dispatch_CHAT_MESSAGE :: "env \<Rightarrow> bytes \<Rightarrow> unit pm" where
  "dispatch_CHAT_MESSAGE e body s =
     (let (ok, userId, nickName, msg) = parse_ChatMessage body ([], [], []) in
      if ok then perform e (Ob_ReceivedChatMessage userId nickName msg) s else (Inr (), s))"

fun addHistoryUsers :: "CPaintUser list \<Rightarrow> paint_manager \<Rightarrow> paint_manager" where
  "addHistoryUsers [] s = s"
| "addHistoryUsers (u # us) s =
     (case new_userp u s of (p, s1) \<Rightarrow>
        addHistoryUsers us
          (case findHistoryUser (id_of p s1) s1 of None \<Rightarrow> addHistoryUser p s1 | Some q \<Rightarrow> s1))"

definition dispatch_HISTORY_USER_LIST :: "env \<Rightarrow> bytes \<Rightarrow> unit pm" where
  "dispatch_HISTORY_USER_LIST e body = updS (addHistoryUsers (parse_HistoryUserList (en_newUser e) body))"

definition dispatch_CLEAR_SCREEN :: "env \<Rightarrow> unit pm" where
  "dispatch_CLEAR_SCREEN e = perform e Ob_ClearScreen"

definition dispatch_CLEAR_BG :: "env \<Rightarrow> unit pm" where
  "dispatch_CLEAR_BG e = perform e Ob_ClearBackground"

text \<open>A body that cannot be read gives a null image.\<close>

definition dispatch_SET_BG_IMAGE :: "env \<Rightarrow> bytes \<Rightarrow> unit pm" where
  "dispatch_SET_BG_IMAGE e body = perform e (Ob_SetBackgroundImage (parse_SetBackgroundImage body))"

definition dispatch_SET_BG_GRID_LINE :: "env \<Rightarrow> bytes \<Rightarrow> unit pm" where
  "dispatch_SET_BG_GRID_LINE e body s =
     (let (ok, sz) = parse_SetBackgroundGridLine body 0 in
      if ok then perform e (Ob_SetBackgroundGridLine sz) s else (Inr (), s))"

definition dispatch_SET_BG_COLOR :: "env \<Rightarrow> bytes \<Rightarrow> unit pm" where
  "dispatch_SET_BG_COLOR e body s =
     (let (ok, c) = parse_SetBackgroundColor body (0, 0, 0, 0) in
      if ok then perform e (Ob_SetBackgroundColor c) s else (Inr (), s))"

text \<open>A received file for which no free name is found does not return: \<open>None\<close>.\<close>

definition dispatch_CREATE_ITEM :: "env \<Rightarrow> bytes \<Rightarrow> paint_manager \<Rightarrow> (unit result \<times> paint_manager) option" where
  "dispatch_CREATE_ITEM e body s =
     (case parse_CreateItem (en_qt e) (pm_files s) body of
        Inl err \<Rightarrow> Some (Inl err, s)
      | Inr None \<Rightarrow> None
      | Inr (Some (None, fs)) \<Rightarrow> Some (Inr (), s\<lparr>pm_files := fs\<rparr>)
      | Inr (Some (Some it, fs)) \<Rightarrow>
          Some (on_cmd e (\<lambda>c. (Inr (), addHistoryItem it c)) (s\<lparr>pm_files := fs\<rparr>)))"

definition dispatch_TASK_EXECUTE :: "env \<Rightarrow> bytes \<Rightarrow> unit pm" where
  "dispatch_TASK_EXECUTE e body =
     raise_or (parse_ExecuteTask (en_newPaintData e) (en_newDouble e) (tk_data (en_newTask e))
                 (tk_sendData (en_newTask e)) body)
       (\<lambda>x. case x of
            None \<Rightarrow> returnS ()
          | Some t \<Rightarrow> bindS (on_cmd e (executeTask t False)) (\<lambda>b. returnS ()))"

definition dispatch_RESIZE_MAIN_WND :: "env \<Rightarrow> bytes \<Rightarrow> unit pm" where
  "dispatch_RESIZE_MAIN_WND e body s =
     (let (ok, width, height) = parse_ResizeMainWindow body (0, 0) in
      if \<not> ok then (Inr (), s)
      else if width \<le>s 0 \<or> height \<le>s 0 then (Inr (), s)
      else perform e (Ob_ResizeMainWindow width height) s)"

definition dispatch_RESIZE_WND_SPLITTER :: "env \<Rightarrow> bytes \<Rightarrow> unit pm" where
  "dispatch_RESIZE_WND_SPLITTER e body s =
     (let (ok, sizes) = parse_ResizeWindowSplitter body [] in
      if \<not> ok then (Inr (), s)
      else if length sizes \<le> 0 then (Inr (), s)
      else perform e (Ob_ResizeWindowSplitter sizes) s)"

definition dispatch_RESIZE_CANVAS :: "env \<Rightarrow> bytes \<Rightarrow> unit pm" where
  "dispatch_RESIZE_CANVAS e body s =
     (let (ok, width, height) = parse_ResizeCanvas body (0, 0) in
      if \<not> ok then (Inr (), s)
      else if width \<le>s 0 \<or> height \<le>s 0 then (Inr (), s)
      else perform e (Ob_ResizeCanvas width height) s)"

definition dispatch_CHANGE_CANVAS_SCROLL_POS :: "env \<Rightarrow> bytes \<Rightarrow> unit pm" where
  "dispatch_CHANGE_CANVAS_SCROLL_POS e body s =
     (let (ok, posH, posV) = parse_ChangeCanvasScrollPos body (0, 0) in
      if \<not> ok then (Inr (), s)
      else if posH <s 0 \<or> posV <s 0 then (Inr (), s)
      else perform e (Ob_ChangeCanvasScrollPos posH posV) s)"

definition dispatch_CHANGE_RECORD_STATUS :: "env \<Rightarrow> CPacketData \<Rightarrow> unit pm" where
  "dispatch_CHANGE_RECORD_STATUS e data s =
     (let (ok, status) = parse_ChangeRecordStatus (pd_body data) False in
      if \<not> ok then (Inr (), s)
      else case pm_findUser (pd_fromId data) s of
        None \<Rightarrow> (Inr (), s)
      | Some p \<Rightarrow>
          thenS (updS (upd_userp p (setScreenRecording status)))
            (perform e (Ob_ChangeScreenRecordStatus p status)) s)"

definition dispatch_CHANGE_SHOW_STREAM :: "env \<Rightarrow> CPacketData \<Rightarrow> unit pm" where
  "dispatch_CHANGE_SHOW_STREAM e data s =
     (let (ok, sender, status) = parse_ChangeShowStream (pd_body data) (False, False) in
      if \<not> ok then (Inr (), s)
      else case pm_findUser (pd_fromId data) s of
        None \<Rightarrow> (Inr (), s)
      | Some p \<Rightarrow>
          thenS (if sender then updS (upd_userp p (setScreenStreaming status))
                 else thenS (updS (upd_userp p (setScreenStreamingReceiver status)))
                        (removeUdpStreamSession (pd_fromId data)))
            (perform e (Ob_ChangeShowScreenStream p sender status)) s)"

definition dispatch_RES_SHOW_STREAM :: "env \<Rightarrow> CPacketData \<Rightarrow> unit pm" where
  "dispatch_RES_SHOW_STREAM e data s =
     (let (ok, accept, port) = parse_ResShowStream (pd_body data) (False, 0) in
      if \<not> ok then (Inr (), s)
      else case pm_findUser (pd_fromId data) s of
        None \<Rightarrow> (Inr (), s)
      | Some p \<Rightarrow>
          thenS (updS (upd_userp p (setScreenStreamListenPort (if accept then ucast port else 0))))
            (updS (\<lambda>s.
               if accept \<and> 0 <s port \<and> m_find (pd_fromId data) (pm_udpSessionMap s) = None
               then s\<lparr>pm_udpSessionMap := m_put (pd_fromId data)
                        (us_setTargetAddress (u_localIp (user_data (user p s)))
                           (uint (screenStreamListenPort (user p s))) new_udp_session)
                        (pm_udpSessionMap s)\<rparr>
               else s)) s)"

section \<open>Dispatch\<close>

definition always :: "'a \<Rightarrow> unit pm \<Rightarrow> 'a pm" where
  "always a m = thenS m (returnS a)"

text \<open>The cases that only leave the switch.\<close>

definition handler_of :: "env \<Rightarrow> int option \<Rightarrow> CPacketData \<Rightarrow> unit pm" where
  "handler_of e session data =
     (let body = pd_body data; is = (\<lambda>c. pd_code data = code_word c) in
     if is CODE_SYSTEM_CHANGE_NICKNAME then dispatch_CHANGE_NICKNAME e body
     else if is CODE_SYSTEM_JOIN_TO_SERVER then dispatch_JOIN_TO_SERVER e session body
     else if is CODE_SYSTEM_JOIN_TO_SUPERPEER then dispatch_JOIN_TO_SUPERPEER e session body
     else if is CODE_SYSTEM_RES_JOIN then dispatch_RES_JOIN e body
     else if is CODE_SYSTEM_CHANGE_SUPERPEER then dispatch_CHANGE_SUPERPEER e body
     else if is CODE_SYSTEM_TCPSYN then dispatch_TCPSYN
     else if is CODE_SYSTEM_SYNC_START then dispatch_SYNC_START e body
     else if is CODE_SYSTEM_SYNC_COMPLETE then dispatch_SYNC_COMPLETE e
     else if is CODE_SYSTEM_SYNC_REQUEST then dispatch_SYNC_REQUEST e body
     else if is CODE_SYSTEM_LEFT then dispatch_LEFT e body
     else if is CODE_SYSTEM_CHAT_MESSAGE then dispatch_CHAT_MESSAGE e body
     else if is CODE_SYSTEM_HISTORY_USER_LIST then dispatch_HISTORY_USER_LIST e body
     else if is CODE_PAINT_CLEAR_SCREEN then dispatch_CLEAR_SCREEN e
     else if is CODE_PAINT_CLEAR_BG then dispatch_CLEAR_BG e
     else if is CODE_PAINT_SET_BG_IMAGE then dispatch_SET_BG_IMAGE e body
     else if is CODE_PAINT_SET_BG_GRID_LINE then dispatch_SET_BG_GRID_LINE e body
     else if is CODE_PAINT_SET_BG_COLOR then dispatch_SET_BG_COLOR e body
     else if is CODE_TASK_EXECUTE then dispatch_TASK_EXECUTE e body
     else if is CODE_WINDOW_RESIZE_MAIN_WND then dispatch_RESIZE_MAIN_WND e body
     else if is CODE_WINDOW_RESIZE_WND_SPLITTER then dispatch_RESIZE_WND_SPLITTER e body
     else if is CODE_WINDOW_RESIZE_CANVAS then dispatch_RESIZE_CANVAS e body
     else if is CODE_WINDOW_CHANGE_CANVAS_SCROLL_POS then dispatch_CHANGE_CANVAS_SCROLL_POS e body
     else if is CODE_SCREENSHARE_CHANGE_RECORD_STATUS then dispatch_CHANGE_RECORD_STATUS e data
     else if is CODE_SCREENSHARE_CHANGE_SHOW_STREAM then dispatch_CHANGE_SHOW_STREAM e data
     else if is CODE_SCREENSHARE_RES_SHOW_STREAM then dispatch_RES_SHOW_STREAM e data
     else returnS ())"

definition dispatchPaintPacket ::
  "env \<Rightarrow> int option \<Rightarrow> CPacketData \<Rightarrow> paint_manager \<Rightarrow> (bool result \<times> paint_manager) option" where
  "dispatchPaintPacket e session data s =
     (let body = pd_body data; is = (\<lambda>c. pd_code data = code_word c) in
      if is CODE_PAINT_CREATE_ITEM
      then map_option (\<lambda>(r, s). (case r of Inl err \<Rightarrow> Inl err | Inr u \<Rightarrow> Inr True, s)) (dispatch_CREATE_ITEM e body s)
      else Some (
        if is CODE_SYSTEM_VERSION_INFO then dispatch_VERSION_INFO e body s
        else always True
         (handler_of e session data) s))"

section \<open>Received bytes\<close>

text \<open>Steps that may not return.\<close>

definition thenO :: "('a result \<times> paint_manager) option \<Rightarrow> ('a \<Rightarrow> paint_manager \<Rightarrow> ('b result \<times> paint_manager) option)
    \<Rightarrow> ('b result \<times> paint_manager) option" where
  "thenO x k = (case x of
       None \<Rightarrow> None
     | Some (Inl err, s) \<Rightarrow> Some (Inl err, s)
     | Some (Inr a, s) \<Rightarrow> k a s)"

text \<open>
  The packet is relayed to the other connections.  \<^verbatim>\<open>makePacket\<close> is given the code and the body only.
\<close>

definition relay_others :: "int \<Rightarrow> CPacketData \<Rightarrow> unit pm" where
  "relay_others i data s =
     (if length (pm_sessionList s) \<le> 1 then (Inr (), s)
      else bindS (sendDataToSessions (remove1 i (pm_sessionList s))
             (or_empty (makePacket (pd_code data) (pd_body data) None None)) (- 1)) (\<lambda>k. returnS ()) s)"

definition onReceivedPacket ::
  "env \<Rightarrow> int \<Rightarrow> CPacketData \<Rightarrow> paint_manager \<Rightarrow> (unit result \<times> paint_manager) option" where
  "onReceivedPacket e i data s =
     thenO (dispatchPaintPacket e (Some i) data s) (\<lambda>b s.
       Some (thenS (perform e Ob_ReceivedPacket) (relay_others i data) s))"

text \<open>
  \<^verbatim>\<open>CPaintSession::onINetPeerSessionEvent_Received\<close>.  A session that is deleted while one of its packets
  is handled is used afterwards: a dangling pointer.
\<close>

fun packet_loop :: "env \<Rightarrow> int \<Rightarrow> CPacketData list \<Rightarrow> paint_manager \<Rightarrow> (unit result \<times> paint_manager) option" where
  "packet_loop e i [] s = Some (if pm_sessions s i = None then Inl BufferOverread else Inr (), s)"
| "packet_loop e i (d # ds) s =
     (if pm_sessions s i = None then Some (Inl BufferOverread, s)
      else if \<not> isconnected s i then Some (Inr (), s)
      else thenO (onReceivedPacket e i d s) (\<lambda>u. packet_loop e i ds))"

definition session_received :: "env \<Rightarrow> int \<Rightarrow> bytes \<Rightarrow> paint_manager \<Rightarrow> (unit result \<times> paint_manager) option" where
  "session_received e i d s =
     (case pm_sessions s i of
        None \<Rightarrow> Some (Inl BufferOverread, s)
      | Some p \<Rightarrow>
          (case receive d (pa_slicer p) of
             (r, sl) \<Rightarrow>
               (let s1 = s\<lparr>pm_sessions := (pm_sessions s)(i \<mapsto> p\<lparr>pa_slicer := sl\<rparr>)\<rparr> in
                case r of Inl err \<Rightarrow> Some (Inl err, s1) | Inr ds \<Rightarrow> packet_loop e i ds s1)))"

text \<open>The calls a peer session makes on its paint session, taken one after the other.\<close>

definition paint_session_event ::
  "env \<Rightarrow> int \<Rightarrow> net_event \<Rightarrow> paint_manager \<Rightarrow> (unit result \<times> paint_manager) option" where
  "paint_session_event e i ev s = (case ev of
       Net_Received d \<Rightarrow> session_received e i d s
     | Net_Sending p \<Rightarrow> Some (onSendingPacket e i p s)
     | _ \<Rightarrow> Some (handle_net_event e i ev s))"

fun events_loop :: "env \<Rightarrow> int \<Rightarrow> net_event list \<Rightarrow> paint_manager \<Rightarrow> (unit result \<times> paint_manager) option" where
  "events_loop e i [] s = Some (Inr (), s)"
| "events_loop e i (ev # evs) s = thenO (paint_session_event e i ev s) (\<lambda>u. events_loop e i evs)"

text \<open>A handler of the peer session, and the calls it makes.\<close>

definition session_handler ::
  "env \<Rightarrow> int \<Rightarrow> (peer_session, unit) meth \<Rightarrow> paint_manager \<Rightarrow> (unit result \<times> paint_manager) option" where
  "session_handler e i m s =
     thenO (Some (on_peer i m s)) (\<lambda>u s. case take_fired i s of (evs, s1) \<Rightarrow> events_loop e i evs s1)"

fun dispatch_loop :: "env \<Rightarrow> CPacketData list \<Rightarrow> paint_manager \<Rightarrow> (unit result \<times> paint_manager) option" where
  "dispatch_loop e [] s = Some (Inr (), s)"
| "dispatch_loop e (d # ds) s =
     thenO (dispatchPaintPacket e None d s) (\<lambda>go. if go then dispatch_loop e ds else (\<lambda>s. Some (Inr (), s)))"

definition deserializeData :: "env \<Rightarrow> bytes \<Rightarrow> paint_manager \<Rightarrow> (bool result \<times> paint_manager) option" where
  "deserializeData e d s =
     (case receive d (en_newSlicer e) of
        (Inl err, sl) \<Rightarrow> Some (Inl err, s)
      | (Inr [], sl) \<Rightarrow> Some (Inr False, s)
      | (Inr (p # ps), sl) \<Rightarrow>
          if pd_code p \<noteq> code_word CODE_SYSTEM_VERSION_INFO then Some (Inr False, s)
          else (let (ok, version, protocolVersion) = parse_VersionInfo (pd_body p) ([], []) in
            if \<not> ok then Some (Inr False, s)
            else case compareVersion PROTOCOL_VERSION_TEXT protocolVersion of
              None \<Rightarrow> Some (Inl BufferOverread, s)
            | Some c \<Rightarrow>
                if 0 \<noteq> c then Some (Inr False, s)
                else thenO (dispatch_loop e ps s) (\<lambda>u s.
                  Some (thenS (sendDataToUsers_unit d) (returnS True) s))))"

section \<open>UDP and broadcast packets\<close>

definition dispatchUdpPacket :: "env \<Rightarrow> CPacketData \<Rightarrow> unit pm" where
  "dispatchUdpPacket e data s =
     (if pd_code data = code_word CODE_UDP_SERVER_INFO
      then (let (ok, paintChannel, addr, port) = parse_ServerInfo (pd_body data) ([], [], 0) in
        if \<not> ok then (Inr (), s)
        else if u_channel (user_data (user my s)) \<noteq> paintChannel then (Inr (), s)
        else perform e (Ob_GetServerInfo paintChannel addr port) s)
      else (Inr (), s))"

text \<open>The address of the probe resolves.\<close>

definition answer_probe :: "env \<Rightarrow> bytes \<Rightarrow> 32 word \<Rightarrow> paint_manager \<Rightarrow> paint_manager" where
  "answer_probe e addr port s =
     s\<lparr>pm_udpForConnection := Some (us_sendTo (en_udpOpen e) addr (sint port)
         (make_ServerInfo (u_channel (user_data (user my s))) (en_myIp e) (of_int (pm_listenTcpPort s)))
         new_udp_session)\<rparr>"

definition text_message :: "env \<Rightarrow> bytes \<Rightarrow> unit pm" where
  "text_message e body s =
     (let (ok, paintChannel, fromId, nickName, message) = parse_TextMessage body ([], [], [], []) in
      if \<not> ok then (Inr (), s)
      else if u_channel (user_data (user my s)) \<noteq> paintChannel then (Inr (), s)
      else if myId s = fromId then (Inr (), s)
      else perform e (Ob_ReceivedBroadcastTextMessage paintChannel fromId nickName message) s)"

text \<open>The case \<^verbatim>\<open>CODE_BROAD_PROBE_SERVER\<close> has no \<^verbatim>\<open>break\<close>.\<close>

definition dispatchBroadCastPacket :: "env \<Rightarrow> CPacketData \<Rightarrow> unit pm" where
  "dispatchBroadCastPacket e data s =
     (let body = pd_body data in
      if pd_code data = code_word CODE_BROAD_PROBE_SERVER
      then (let (ok, paintChannel, addr, port) = parse_ProbeServer body ([], [], 0) in
        if ok \<and> u_channel (user_data (user my s)) \<noteq> paintChannel then (Inr (), s)
        else text_message e body (if ok then answer_probe e addr port s else s))
      else if pd_code data = code_word CODE_BROAD_TEXT_MESSAGE then text_message e body s
      else (Inr (), s))"

definition datagram_received :: "env \<Rightarrow> (CPacketData \<Rightarrow> unit pm) \<Rightarrow> bytes \<Rightarrow> unit pm" where
  "datagram_received e handler d s =
     (case receive d (en_newSlicer e) of
        (Inl err, sl) \<Rightarrow> (Inl err, s)
      | (Inr ds, sl) \<Rightarrow> bindS (mapS handler ds) (\<lambda>us. returnS ()) s)"

definition onUdpReceived :: "env \<Rightarrow> bytes \<Rightarrow> unit pm" where
  "onUdpReceived e = datagram_received e (dispatchUdpPacket e)"

definition onBroadCastReceived :: "env \<Rightarrow> bytes \<Rightarrow> unit pm" where
  "onBroadCastReceived e = datagram_received e (dispatchBroadCastPacket e)"

end
