(* ===== verification/ManagerInvariant.thy ===== *)
theory ManagerInvariant
  imports PaintDispatch
begin

text \<open>
  What every method of the client's manager keeps.  \<open>manager_frame\<close> is the contract of the changes a
  closing session makes, \<open>manager_invariant\<close> that of all changes; both speak of a predicate \<open>P\<close> on
  the manager that looks at its tables only (\<open>core\<close>).  Inside, every operation is shown to keep \<open>P\<close>
  once; the interpretations at the end give the tables of users, of sessions and the history.
\<close>

section \<open>Rules for methods\<close>

lemma keep_thenS:
  assumes "P (snd (m s))" and "\<And>s'. P s' \<Longrightarrow> P (snd (k s'))"
  shows "P (snd (thenS m k s))"
  using assms by (auto simp: thenS_def bindS_def split: prod.splits sum.splits)

lemma keep_bindS:
  assumes "P (snd (m s))" and "\<And>a s'. P s' \<Longrightarrow> P (snd (k a s'))"
  shows "P (snd (bindS m k s))"
  using assms by (auto simp: bindS_def split: prod.splits sum.splits)

lemma keep_whenS: "P (snd (m s)) \<Longrightarrow> P s \<Longrightarrow> P (snd (whenS b m s))"
  by (simp add: whenS_def)

lemma keep_mapS: "(\<And>x s'. P s' \<Longrightarrow> P (snd (f x s'))) \<Longrightarrow> P s \<Longrightarrow> P (snd (mapS f xs s))"
proof (induction xs arbitrary: s)
  case (Cons x xs)
  show ?case by (simp, intro keep_bindS [of P]) (use Cons in simp_all)
qed simp

lemma updS_simp [simp]: "updS f s = (Inr (), f s)"
  by (simp add: updS_def)

lemma assertS_state [simp]: "snd (assertS Q s) = s"
  by (simp add: assertS_def)

lemma raise_or_state: "P s \<Longrightarrow> (\<And>a. P s \<Longrightarrow> P (snd (k a s))) \<Longrightarrow> P (snd (raise_or r k s))"
  by (simp add: raise_or_def split: sum.split)

section \<open>The tables\<close>

type_synonym tables = "CPaintUser list \<times> (bytes, user_ptr) std_map \<times> user_ptr list
  \<times> (int \<rightharpoonup> paint_session) \<times> int \<times> int list \<times> int option \<times> int option \<times> cmd_mngr \<times> files"

definition core :: "paint_manager \<Rightarrow> tables" where
  "core s = (pm_users s, pm_joinerMap s, pm_joinerHistory s, pm_sessions s, pm_nextSession s,
     pm_sessionList s, pm_superPeerSession s, pm_relayServerSession s, pm_cmd s, pm_files s)"

definition keeps_id :: "(CPaintUser \<Rightarrow> CPaintUser) \<Rightarrow> bool" where
  "keeps_id f \<longleftrightarrow> (\<forall>u. u_userId (user_data (f u)) = u_userId (user_data u))"

lemma keeps_id_setters [simp]:
  "keeps_id setMyself" "keeps_id (setSessionId i)" "keeps_id (setChannel c)" "keeps_id (setListenTcpPort p)"
  "keeps_id (setLocalIPAddress ip)" "keeps_id (setScreenStreaming b)" "keeps_id (setScreenStreamListenPort p)"
  "keeps_id (setNickName nick)" "keeps_id (setScreenRecording b)" "keeps_id (setScreenStreamingReceiver b)"
  by (simp_all add: keeps_id_def setMyself_def setSessionId_def setChannel_def setListenTcpPort_def
      setLocalIPAddress_def setScreenStreaming_def setScreenStreamListenPort_def setNickName_def
      setScreenRecording_def setScreenStreamingReceiver_def)

definition quiet :: "observer_call \<Rightarrow> bool" where
  "quiet c \<longleftrightarrow> c \<noteq> Ob_ClearScreen"

lemma quiet_simps [simp]: "\<not> quiet Ob_ClearScreen" "quiet Ob_Disconnected" "quiet Ob_ConnectFailed"
  "quiet (Ob_LeavePaintUser p)"
  by (simp_all add: quiet_def)

section \<open>What a closing session changes\<close>

locale manager_frame =
  fixes P :: "paint_manager \<Rightarrow> bool"
  assumes core: "core s' = core s \<Longrightarrow> P s' = P s"
    and peer: "P s \<Longrightarrow> pm_sessions s i = Some p \<Longrightarrow>
      P (s\<lparr>pm_sessions := (pm_sessions s)(i \<mapsto> p\<lparr>pa_peer := q\<rparr>)\<rparr>)"
    and leave: "P s \<Longrightarrow> P (s\<lparr>pm_joinerMap := m_erase u (pm_joinerMap s)\<rparr>)"
begin

lemma updates [simp]:
  "P (s\<lparr>pm_mainThread := a1\<rparr>) = P s" "P (s\<lparr>pm_queue := a2\<rparr>) = P s" "P (s\<lparr>pm_timers := a3\<rparr>) = P s"
  "P (s\<lparr>pm_taskQueue := a4\<rparr>) = P s" "P (s\<lparr>pm_cmdQueue := a4\<rparr>) = P s" "P (s\<lparr>pm_syncTimers := a5\<rparr>) = P s"
  "P (s\<lparr>pm_trace := a4\<rparr>) = P s" "P (s\<lparr>pm_enabled := a1\<rparr>) = P s" "P (s\<lparr>pm_syncStarted := a1\<rparr>) = P s"
  "P (s\<lparr>pm_backgroundImage := a6\<rparr>) = P s" "P (s\<lparr>pm_windowSize := a7\<rparr>) = P s"
  "P (s\<lparr>pm_canvasSize := a7\<rparr>) = P s" "P (s\<lparr>pm_scrollPos := a8\<rparr>) = P s" "P (s\<lparr>pm_splitterSizes := a9\<rparr>) = P s"
  "P (s\<lparr>pm_backgroundColor := b1\<rparr>) = P s" "P (s\<lparr>pm_gridLineSize := b2\<rparr>) = P s"
  "P (s\<lparr>pm_findingServerMode := a1\<rparr>) = P s" "P (s\<lparr>pm_listenTcpPort := b3\<rparr>) = P s"
  "P (s\<lparr>pm_listenUdpPort := b3\<rparr>) = P s" "P (s\<lparr>pm_retryCount := b3\<rparr>) = P s"
  "P (s\<lparr>pm_lastConnectMode := b4\<rparr>) = P s" "P (s\<lparr>pm_lastConnectAddress := b5\<rparr>) = P s"
  "P (s\<lparr>pm_lastConnectPort := b3\<rparr>) = P s" "P (s\<lparr>pm_superPeerId := b5\<rparr>) = P s" "P (s\<lparr>pm_server := a1\<rparr>) = P s"
  "P (s\<lparr>pm_udpForConnection := b6\<rparr>) = P s" "P (s\<lparr>pm_bcListener := b7\<rparr>) = P s" "P (s\<lparr>pm_bcFinder := b7\<rparr>) = P s"
  "P (s\<lparr>pm_bcSendMessage := b7\<rparr>) = P s" "P (s\<lparr>pm_udpSessionMap := b8\<rparr>) = P s"
  "P (s\<lparr>pm_udpForStream := b6\<rparr>) = P s" "P (s\<lparr>pm_PACKETID := b3\<rparr>) = P s" "P (s\<lparr>pm_sendInfo := b9\<rparr>) = P s"
  "P (s\<lparr>pm_lastPacketId := b3\<rparr>) = P s"
  by (rule core, simp add: core_def)+

lemmas keep = keep_thenS [of P] keep_bindS [of P] keep_whenS [of P] keep_mapS [of P] raise_or_state [of P]

lemma notify [simp]: "P (notify c s) = P s"
  by (simp add: notify_def)

lemma fire: "quiet c \<Longrightarrow> P s \<Longrightarrow> P (snd (fireObserver e c s))"
  by (auto simp: fireObserver_def fireObserver_SyncStart_def fireObserver_SyncComplete_def
      fireObserver_ResizeMainWindow_def fireObserver_ChangeCanvasScrollPos_def fireObserver_ResizeCanvas_def
      fireObserver_ResizeWindowSplitter_def fireObserver_ClearBackground_def fireObserver_SetBackgroundImage_def
      fireObserver_SetBackgroundColor_def fireObserver_SetBackgroundGridLine_def split: observer_call.split)

lemma perform_quiet: "quiet c \<Longrightarrow> P s \<Longrightarrow> P (snd (perform e c s))"
  by (simp add: perform_def fire)

lemma performAlwaysDeffered: "P s \<Longrightarrow> P (snd (performAlwaysDeffered d s))"
  by (simp add: performAlwaysDeffered_def)

lemma on_peer: "P s \<Longrightarrow> P (snd (on_peer i m s))"
  by (auto simp: on_peer_def peer split: option.split prod.split)

lemma send_all: "P s \<Longrightarrow> P (snd (send_all ids k msg s))"
  by (auto simp: send_all_def intro!: keep on_peer)

lemma sendDataToSessions: "P s \<Longrightarrow> P (snd (sendDataToSessions ids msg t s))"
  by (auto simp: sendDataToSessions_def Let_def intro!: keep send_all)

lemma sendDataToUsers_to: "P s \<Longrightarrow> P (snd (sendDataToUsers_to msg t s))"
  by (auto simp: sendDataToUsers_to_def intro!: sendDataToSessions)

lemma sendDataToUsers: "P s \<Longrightarrow> P (snd (sendDataToUsers msg s))"
  by (simp add: sendDataToUsers_def sendDataToUsers_to)

lemma sendDataToUsers_unit: "P s \<Longrightarrow> P (snd (sendDataToUsers_unit msg s))"
  by (auto simp: sendDataToUsers_unit_def intro!: keep sendDataToUsers)

lemma removeUser: "P s \<Longrightarrow> P (snd (removeUser e u s))"
  by (auto simp: removeUser_def leave perform_quiet split: option.split)

lemma tryReconnect: "P s \<Longrightarrow> P (snd (tryReconnectToRelayServer x s))"
  by (simp add: tryReconnectToRelayServer_def Let_def)

lemmas session_ops = on_peer sendDataToUsers_unit sendDataToUsers sendDataToUsers_to sendDataToSessions
  removeUser tryReconnect performAlwaysDeffered perform_quiet

lemma onDisconnected: "P s \<Longrightarrow> P (snd (onDisconnected e i s))"
  by (auto simp: onDisconnected_def notifyRemoveUserInfo_def removeUdpStreamSession_def removeSession_def Let_def
      intro!: keep session_ops split: option.split)

lemma onConnectFailed: "P s \<Longrightarrow> P (snd (onConnectFailed e i s))"
  by (auto simp: onConnectFailed_def removeSession_def intro!: keep session_ops)

lemma take_fired: "P s \<Longrightarrow> P (snd (take_fired i s))"
  by (auto simp: take_fired_def peer split: option.split)

lemma take_fired_eq: "take_fired i s = (evs, s') \<Longrightarrow> P s \<Longrightarrow> P s'"
  using take_fired [of s i] by simp

lemma ends: "P s \<Longrightarrow> P (snd (ends e i s))"
  using take_fired [of s i]
  by (auto simp: ends_def handle_end_def intro!: keep onDisconnected onConnectFailed
      split: prod.split net_event.split)

lemma close_session: "P s \<Longrightarrow> P (snd (close_session e i s))"
  by (auto simp: close_session_def intro!: keep on_peer ends)

end

text \<open>The tables that name sessions; they do not change while a session is closed.\<close>

definition refs :: "paint_manager \<Rightarrow> int list \<times> int option \<times> int option" where
  "refs s = (pm_sessionList s, pm_superPeerSession s, pm_relayServerSession s)"

interpretation refs: manager_frame "\<lambda>s. refs s = r"
  by unfold_locales (auto simp: refs_def core_def)

lemma referenced_refs: "refs s = refs s' \<Longrightarrow> referenced i s = referenced i s'"
  by (simp add: refs_def referenced_def)

section \<open>All changes\<close>

lemma safe_keeps: "safe Q m \<Longrightarrow> keeps Q m"
  by (simp add: safe_def keeps_def)

lemma cm_inv_events [simp]: "cm_inv (c\<lparr>cm_events := es\<rparr>) = cm_inv c"
  by (rule cm_inv_cong) (simp_all add: item_defs)

lemma keeps_addPaintItem: "keeps cm_inv (addPaintItem b create it)"
proof -
  have "cm_inv (fire ev s)" if "cm_inv s" for ev s
    using that by (simp add: fire_def)
  then show ?thesis
    using safe_commands(1) by (auto simp: keeps_def safe_def addPaintItem_def Let_def cm_inv_pure split: sum.split)
qed

locale manager_invariant = manager_frame +
  assumes user_exists: "P s \<Longrightarrow> 0 < length (pm_users s)"
    and new_user: "P s \<Longrightarrow> P (s\<lparr>pm_users := pm_users s @ [u]\<rparr>)"
    and upd_user: "P s \<Longrightarrow> keeps_id f \<Longrightarrow> P (upd_userp p f s)"
    and enter: "P s \<Longrightarrow> p < length (pm_users s) \<Longrightarrow> P (snd (addUser_table p s))"
    and remember: "P s \<Longrightarrow> p < length (pm_users s) \<Longrightarrow> P (addHistoryUser p s)"
    and forget: "P s \<Longrightarrow> P (s\<lparr>pm_joinerHistory := filter Q (pm_joinerHistory s)\<rparr>)"
    and no_users: "P s \<Longrightarrow> P (s\<lparr>pm_joinerMap := []\<rparr>)"
    and clear: "P s \<Longrightarrow> P (s\<lparr>pm_cmd := cm_clear (pm_cmd s)\<rparr>)"
    and cmd: "P s \<Longrightarrow> (cm_inv (pm_cmd s) \<Longrightarrow> cm_inv c) \<Longrightarrow> P (s\<lparr>pm_cmd := c\<rparr>)"
    and slicer: "P s \<Longrightarrow> pm_sessions s i = Some ps \<Longrightarrow>
      P (s\<lparr>pm_sessions := (pm_sessions s)(i \<mapsto> ps\<lparr>pa_slicer := snd (receive d (pa_slicer ps))\<rparr>)\<rparr>)"
    and open_session: "P s \<Longrightarrow> P (s\<lparr>pm_nextSession := pm_nextSession s + 1,
      pm_sessions := (pm_sessions s)(pm_nextSession s \<mapsto> ps)\<rparr>)"
    and open_listed: "P s \<Longrightarrow> P (s\<lparr>pm_nextSession := pm_nextSession s + 1,
      pm_sessions := (pm_sessions s)(pm_nextSession s \<mapsto> ps),
      pm_sessionList := pm_sessionList s @ [pm_nextSession s]\<rparr>)"
    and open_superPeer: "P s \<Longrightarrow> P (s\<lparr>pm_nextSession := pm_nextSession s + 1,
      pm_sessions := (pm_sessions s)(pm_nextSession s \<mapsto> ps),
      pm_superPeerSession := Some (pm_nextSession s)\<rparr>)"
    and open_relay: "P s \<Longrightarrow> P (s\<lparr>pm_nextSession := pm_nextSession s + 1,
      pm_sessions := (pm_sessions s)(pm_nextSession s \<mapsto> ps),
      pm_relayServerSession := Some (pm_nextSession s)\<rparr>)"
    and unlist: "P s \<Longrightarrow> P (s\<lparr>pm_sessionList := remove1 i (pm_sessionList s)\<rparr>)"
    and no_superPeer: "P s \<Longrightarrow> P (s\<lparr>pm_superPeerSession := None\<rparr>)"
    and no_relay: "P s \<Longrightarrow> P (s\<lparr>pm_relayServerSession := None\<rparr>)"
    and delete: "P s \<Longrightarrow> \<not> referenced i s \<Longrightarrow> P (s\<lparr>pm_sessions := (pm_sessions s)(i := None)\<rparr>)"
    and store: "P s \<Longrightarrow> parse_CreateItem (qt :: qt) (pm_files s) body = Inr (Some (x, fs)) \<Longrightarrow> P (s\<lparr>pm_files := fs\<rparr>)"
begin

lemma clearAllItems: "P s \<Longrightarrow> P (snd (clearAllItems s))"
  by (auto simp: clearAllItems_def clearAllHistoryUsers_def intro!: keep clear forget)

lemma fireObserver: "P s \<Longrightarrow> P (snd (fireObserver e c s))"
proof (cases "quiet c")
  case False
  then have "c = Ob_ClearScreen" by (simp add: quiet_def)
  then show "P s \<Longrightarrow> ?thesis"
    by (auto simp: fireObserver_def fireObserver_ClearScreen_def intro!: keep clearAllItems)
qed (rule fire)

lemma perform: "P s \<Longrightarrow> P (snd (perform e c s))"
  by (simp add: perform_def fireObserver)

lemma addUser: "P s \<Longrightarrow> p < length (pm_users s) \<Longrightarrow> P (snd (addUser e p s))"
  using enter [of s p] by (auto simp: addUser_def intro!: keep perform split: prod.split)

lemma clearAllUsers: "P s \<Longrightarrow> P (snd (clearAllUsers e s))"
  unfolding clearAllUsers_def
  by (simp add: thenS_def bindS_Inr, rule keep) (auto simp: my_def intro!: addUser no_users dest: user_exists)

lemma release: "P s \<Longrightarrow> P (snd (release e x s))"
proof (cases x)
  case None
  then show "P s \<Longrightarrow> ?thesis" by (simp add: release_def)
next
  case (Some i)
  have "P (snd (thenS (close_session e i) (updS (\<lambda>s. s\<lparr>pm_sessions := (pm_sessions s)(i := None)\<rparr>)) s))"
    if "P s" "\<not> referenced i s"
  proof (cases "close_session e i s")
    case (Pair r s')
    have "P s'" using close_session [OF that(1)] Pair by (metis snd_conv)
    moreover have "refs s' = refs s" using refs.close_session [of s "refs s" e i] Pair by simp
    ultimately have "P (s'\<lparr>pm_sessions := (pm_sessions s')(i := None)\<rparr>)"
      using that(2) referenced_refs by (blast intro: delete)
    with Pair \<open>P s'\<close> show ?thesis by (simp add: thenS_def bindS_def split: sum.split)
  qed
  then show "P s \<Longrightarrow> ?thesis" using Some by (auto simp: release_def)
qed

lemma drop_sessions: "P s \<Longrightarrow> P (snd (set_superPeerSession e None s))"
  "P s \<Longrightarrow> P (snd (set_relayServerSession e None s))"
  by (auto simp: set_superPeerSession_def set_relayServerSession_def intro!: release no_superPeer no_relay)

lemma clearAllSessions: "P s \<Longrightarrow> P (snd (clearAllSessions e s))"
  by (auto simp: clearAllSessions_def intro!: keep drop_sessions close_session)

lemma delayedRemoveSession: "P s \<Longrightarrow> P (snd (delayedRemoveSession e i s))"
  by (auto simp: delayedRemoveSession_def intro!: keep drop_sessions release unlist)

end

section \<open>What the user interface and the sessions ask for\<close>

context manager_invariant
begin

lemma close_methods:
  "P s \<Longrightarrow> P (snd (startListenBroadCast e s))" "P s \<Longrightarrow> P (snd (stopListenBroadCast s))"
  "P s \<Longrightarrow> P (snd (u_stopFindingServer s))" "P s \<Longrightarrow> P (snd (stopFindingServer e s))"
  "P s \<Longrightarrow> P (snd (clearScreen e b s))" "P s \<Longrightarrow> P (snd (closeSession e s))"
  "P s \<Longrightarrow> P (snd (pm_close e s))" "P s \<Longrightarrow> P (snd (perform_close e s))"
  "P s \<Longrightarrow> P (snd (onTimeoutSyncStart e s))"
proof -
  show start: "P s \<Longrightarrow> P (snd (startListenBroadCast e s))" for s
    by (simp add: startListenBroadCast_def split: prod.split)
  show "P s \<Longrightarrow> P (snd (stopListenBroadCast s))" by (simp add: stopListenBroadCast_def)
  show u: "P s \<Longrightarrow> P (snd (u_stopFindingServer s))" for s by (simp add: u_stopFindingServer_def)
  show stop: "P s \<Longrightarrow> P (snd (stopFindingServer e s))" for s
    by (auto simp: stopFindingServer_def intro!: keep u start)
  show clr: "P s \<Longrightarrow> P (snd (clearScreen e b s))" for s b
    by (auto simp: clearScreen_def intro!: keep sendDataToUsers_unit perform)
  show cs: "P s \<Longrightarrow> P (snd (closeSession e s))" for s
    by (auto simp: closeSession_def intro!: keep clearAllUsers clearAllSessions stop)
  show cl: "P s \<Longrightarrow> P (snd (pm_close e s))" for s
    by (auto simp: pm_close_def intro!: keep clr clearAllItems cs)
  show "P s \<Longrightarrow> P (snd (perform_close e s))" by (simp add: perform_close_def cl)
  show "P s \<Longrightarrow> P (snd (onTimeoutSyncStart e s))" by (simp add: onTimeoutSyncStart_def cl)
qed

lemma connect_session: "P s \<Longrightarrow> P (snd (connect_session e i addr port s))"
  by (auto simp: connect_session_def intro!: keep on_peer ends)

lemma connectToSuperPeer: "P s \<Longrightarrow> P (snd (connectToSuperPeer e p s))"
  by (auto simp: connectToSuperPeer_def new_session_def set_superPeerSession_def Let_def
      intro!: keep release connect_session open_superPeer)

lemma connections:
  "P s \<Longrightarrow> P (snd (u_connectToPeer e addr port s))" "P s \<Longrightarrow> P (snd (u_requestJoinServer e addr port rid s))"
  by (auto simp: u_connectToPeer_def u_requestJoinServer_def new_session_def set_relayServerSession_def Let_def
      intro!: keep connect_session open_listed open_relay release)

lemma reconnect: "P s \<Longrightarrow> P (snd (reconnect e s))"
  by (auto simp: reconnect_def intro!: keep connections split: ConnectionMode.split)

lemma connect_methods:
  "P s \<Longrightarrow> P (snd (connectToPeer e addr port s))" "P s \<Longrightarrow> P (snd (requestJoinServer e addr port rid s))"
  "P s \<Longrightarrow> P (snd (startServer e port s))" "P s \<Longrightarrow> P (snd (stopServer s))"
proof -
  show "P s \<Longrightarrow> P (snd (connectToPeer e addr port s))" "P s \<Longrightarrow> P (snd (requestJoinServer e addr port rid s))"
    by (auto simp: connectToPeer_def requestJoinServer_def intro!: keep close_methods connections)
  show "P s \<Longrightarrow> P (snd (startServer e port s))"
    by (auto simp: startServer_def Let_def intro!: upd_user split: option.split)
  show "P s \<Longrightarrow> P (snd (stopServer s))" by (simp add: stopServer_def)
qed

lemma startFindingServer: "P s \<Longrightarrow> startFindingServer e s = Some (r, s') \<Longrightarrow> P s'"
proof -
  assume P: "P s" and r: "startFindingServer e s = Some (r, s')"
  let ?m = "thenS stopListenBroadCast (thenS u_stopFindingServer (thenS (clearAllUsers e) (clearAllSessions e)))"
  have "P (snd (?m s))" using P by (auto intro!: keep close_methods clearAllUsers clearAllSessions)
  with r show "P s'"
    by (auto simp: startFindingServer_def Let_def split: prod.splits sum.splits)
qed

lemma my_methods:
  "P s \<Longrightarrow> P (snd (changeNickName e nick s))" "P s \<Longrightarrow> P (snd (setPaintChannel e ch s))"
  "P s \<Longrightarrow> P (snd (sendChatMessage e msg s))" "P s \<Longrightarrow> P (snd (sendBroadCastTextMessage e ch msg s))"
  by (auto simp: changeNickName_def setPaintChannel_def sendChatMessage_def sendBroadCastTextMessage_def Let_def
      intro!: keep sendDataToUsers_unit perform upd_user)

lemma handle_event: "P s \<Longrightarrow> P (snd (handle_event e ev s))"
  by (auto simp: handle_event_def call_of_def intro!: sendDataToUsers_unit fireObserver split: event.split)

lemma on_cmd: "keeps cm_inv m \<Longrightarrow> P s \<Longrightarrow> P (snd (on_cmd e m s))"
proof -
  assume m: "keeps cm_inv m" and P: "P s"
  obtain r c where c: "m ((pm_cmd s)\<lparr>cm_events := []\<rparr>) = (r, c)" by fastforce
  have "cm_inv (c\<lparr>cm_events := []\<rparr>)" if "cm_inv (pm_cmd s)"
    using keepsD [OF m, of "(pm_cmd s)\<lparr>cm_events := []\<rparr>"] that c by simp
  with P have "P (s\<lparr>pm_cmd := c\<lparr>cm_events := []\<rparr>\<rparr>)" by (rule cmd)
  then show ?thesis unfolding on_cmd_def c by (auto intro!: keep handle_event)
qed

lemma commands:
  "P s \<Longrightarrow> P (snd (pm_redoCommand e s))" "P s \<Longrightarrow> P (snd (pm_undoCommand e s))"
  "P s \<Longrightarrow> P (snd (run_command e c s))" "P s \<Longrightarrow> P (snd (pm_setAllowPainterToDraw e u b s))"
  "P s \<Longrightarrow> P (snd (pm_addPaintItem e it s))"
  by (auto simp: pm_redoCommand_def pm_undoCommand_def run_command_def pm_setAllowPainterToDraw_def pm_addPaintItem_def
      intro!: keep on_cmd safe_keeps safe_commands safe_setAllow keeps_addPaintItem)

lemma drawing:
  "P s \<Longrightarrow> P (snd (sendBackgroundImage e img s))" "P s \<Longrightarrow> P (snd (setBackgroundColor e c s))"
  "P s \<Longrightarrow> P (snd (clearBackground s))" "P s \<Longrightarrow> P (snd (setBackgroundGridLine sz s))"
  "P s \<Longrightarrow> P (snd (notifyChangeCanvasScrollPos h v s))" "P s \<Longrightarrow> P (snd (notifyResizingCanvas w1 h1 s))"
  "P s \<Longrightarrow> P (snd (notifyResizingMainWindow w1 h1 s))" "P s \<Longrightarrow> P (snd (notifyResizingWindowSplitter sizes s))"
  "P s \<Longrightarrow> P (snd (notifyScreenRecordingStatus b s))" "P s \<Longrightarrow> P (snd (notifyChangeShowScreenStream b b1 s))"
  "P s \<Longrightarrow> P (snd (sendScreenStreamData e d s))"
  by (auto simp: sendBackgroundImage_def setBackgroundColor_def clearBackground_def setBackgroundGridLine_def
      notifyChangeCanvasScrollPos_def notifyResizingCanvas_def notifyResizingMainWindow_def
      notifyResizingWindowSplitter_def notifyScreenRecordingStatus_def notifyChangeShowScreenStream_def
      sendScreenStreamData_def fireObserver_SetBackgroundImage_def fireObserver_SetBackgroundColor_def
      fireObserver_ClearBackground_def fireObserver_SetBackgroundGridLine_def
      intro!: keep sendDataToUsers sendDataToUsers_unit upd_user split: option.split)

lemma sendResponseShowScreenStream: "P s \<Longrightarrow> sendResponseShowScreenStream e u b s = Some (r, s') \<Longrightarrow> P s'"
proof -
  assume P: "P s" and r: "sendResponseShowScreenStream e u b s = Some (r, s')"
  have *: "P (snd (thenS (updS (upd_userp my (setScreenStreamListenPort (of_int port))))
             (thenS (\<lambda>s. bindS (sendDataToUsers_to (make_ResShowStream (myId s) b (of_int port)) (sessionId (user p s)))
                 (\<lambda>i. returnS ()) s) (returnS port)) s1))" if "P s1" for s1 port p
    using that by (auto intro!: keep sendDataToUsers_to upd_user)
  show "P s'"
  proof (cases "pm_findUser u s")
    case None
    with r P show ?thesis by (simp add: sendResponseShowScreenStream_def)
  next
    case (Some p)
    with r obtain port s1 where
      s1: "(if b then map_option (\<lambda>(port, u). (port, s\<lparr>pm_udpForStream := Some u\<rparr>))
               (listen_loop e START_UDP_LISTEN_PORT_FOR_STREAM new_udp_session)
            else Some (0, s)) = Some (port, s1)"
      and s': "thenS (updS (upd_userp my (setScreenStreamListenPort (of_int port))))
             (thenS (\<lambda>s. bindS (sendDataToUsers_to (make_ResShowStream (myId s) b (of_int port)) (sessionId (user p s)))
                 (\<lambda>i. returnS ()) s) (returnS port)) s1 = (r, s')"
      by (auto simp: sendResponseShowScreenStream_def split: if_splits)
    have "P s1" using s1 P by (auto split: if_splits)
    from * [OF this, of port p] s' show ?thesis by simp
  qed
qed

lemma sync_methods: "P s \<Longrightarrow> P (snd (sendAllSyncData e i s))" "P s \<Longrightarrow> P (snd (requestSyncData e s))"
  by (auto simp: sendAllSyncData_def requestSyncData_def intro!: keep sendDataToUsers_to on_peer close_methods
      split: option.split)

lemma onConnected: "P s \<Longrightarrow> P (snd (onConnected e i s))"
  by (auto simp: onConnected_def sendMyUserInfo_def intro!: keep sync_methods on_peer perform)

lemma net_events: "P s \<Longrightarrow> P (snd (net_events e i s))"
  using take_fired [of s i]
  by (auto simp: net_events_def handle_net_event_def handle_end_def
      intro!: keep onConnected onDisconnected onConnectFailed split: prod.split net_event.split)

lemma onAccepted: "P s \<Longrightarrow> P (snd (onAccepted e s))"
proof -
  assume P: "P s"
  let ?q = "\<lparr>pa_peer = ((new_peer_session (pm_nextSession s))\<lparr>ps_evtTarget := True\<rparr>)\<lparr>ps_open := True\<rparr>,
    pa_slicer = en_newSlicer e\<rparr>"
  have 1: "P (s\<lparr>pm_nextSession := pm_nextSession s + 1, pm_sessions := (pm_sessions s)(pm_nextSession s \<mapsto> ?q)\<rparr>)"
    using P by (rule open_session)
  have 2: "P (s\<lparr>pm_nextSession := pm_nextSession s + 1, pm_sessions := (pm_sessions s)(pm_nextSession s \<mapsto> ?q),
      pm_sessionList := pm_sessionList s @ [pm_nextSession s]\<rparr>)"
    using P by (rule open_listed)
  show ?thesis
    using 1 2 by (auto simp: onAccepted_def new_session_def on_peer_def Let_def
        intro!: keep release on_peer [unfolded on_peer_def] net_events)
qed

lemma onSendingPacket: "P s \<Longrightarrow> P (snd (onSendingPacket e i p s))"
  by (auto simp: onSendingPacket_def Let_def intro!: perform split: option.split)

lemma run_deferred: "P s \<Longrightarrow> P (snd (run_deferred e d s))"
  by (auto simp: run_deferred_def intro!: fireObserver close_methods delayedRemoveSession reconnect split: deferred.split)

lemma main_steps: "P s \<Longrightarrow> P (snd (main_step e s))" "P s \<Longrightarrow> P (snd (task_step e s))"
  "P s \<Longrightarrow> P (snd (cmd_step e s))" "P s \<Longrightarrow> P (snd (timer_step e s))"
  by (auto simp: main_step_def task_step_def cmd_step_def timer_step_def intro!: run_deferred fireObserver
      split: list.split)

end

section \<open>Received packets\<close>

lemma keep_always: "P (snd (m s)) \<Longrightarrow> P (snd (always a m s))"
  by (auto simp: always_def thenS_def bindS_def split: prod.splits sum.splits)

lemma keep_always_if: "P (snd (always a m s)) \<Longrightarrow> P (snd (always a n s)) \<Longrightarrow> P (snd (always a (if c then m else n) s))"
  by simp

lemma keep_thenO:
  assumes "thenO x k = Some (r, s')" and "\<And>r s. x = Some (r, s) \<Longrightarrow> P s"
    and "\<And>a s r s'. P s \<Longrightarrow> k a s = Some (r, s') \<Longrightarrow> P s'"
  shows "P s'"
  using assms by (auto simp: thenO_def split: option.splits prod.splits sum.splits)

context manager_invariant
begin

lemma sid_of: "P s \<Longrightarrow> (\<And>i. P (snd (k i s))) \<Longrightarrow> P (snd (sid_of x k s))"
  by (simp add: sid_of_def split: option.split)

lemma new_user_added: "P s \<Longrightarrow> P (snd (addUser e (length (pm_users s)) (s\<lparr>pm_users := pm_users s @ [u]\<rparr>)))"
  by (rule addUser) (simp_all add: new_user)

lemma addUsers: "P s \<Longrightarrow> P (snd (addUsers e us s))"
proof (induction us arbitrary: s)
  case (Cons u us)
  then show ?case by (auto simp: new_userp_def intro!: keep new_user_added)
qed simp

lemma addHistoryUsers: "P s \<Longrightarrow> P (addHistoryUsers us s)"
proof (induction us arbitrary: s)
  case (Cons u us)
  then show ?case by (auto simp: new_userp_def remember new_user split: option.split)
qed simp

lemma relay_send: "P s \<Longrightarrow> P (snd (relay_send msg s))"
  by (auto simp: relay_send_def intro: on_peer split: option.split)

lemma dispatch_users:
  "P s \<Longrightarrow> P (snd (dispatch_VERSION_INFO e body s))" "P s \<Longrightarrow> P (snd (dispatch_CHANGE_NICKNAME e body s))"
  "P s \<Longrightarrow> P (snd (dispatch_JOIN_TO_SERVER e x body s))" "P s \<Longrightarrow> P (snd (dispatch_JOIN_TO_SUPERPEER e x body s))"
  "P s \<Longrightarrow> P (snd (dispatch_RES_JOIN e body s))" "P s \<Longrightarrow> P (snd (dispatch_CHANGE_SUPERPEER e body s))"
  "P s \<Longrightarrow> P (snd (dispatch_LEFT e body s))" "P s \<Longrightarrow> P (snd (dispatch_HISTORY_USER_LIST e body s))"
proof -
  assume P: "P s"
  show "P (snd (dispatch_VERSION_INFO e body s))"
    using P by (auto simp: dispatch_VERSION_INFO_def Let_def intro!: keep clearAllSessions close_methods perform
        split: option.split prod.split bool.split)
  show "P (snd (dispatch_CHANGE_NICKNAME e body s))"
    using P by (auto simp: dispatch_CHANGE_NICKNAME_def Let_def intro!: keep perform upd_user
        split: option.split prod.split)
  show "P (snd (dispatch_JOIN_TO_SERVER e x body s))"
    using P by (auto simp: dispatch_JOIN_TO_SERVER_def new_userp_def intro!: keep sid_of new_user_added split: option.split)
  show "P (snd (dispatch_JOIN_TO_SUPERPEER e x body s))"
    using P by (auto simp: dispatch_JOIN_TO_SUPERPEER_def new_userp_def
        intro!: keep sid_of new_user_added upd_user new_user split: option.split)
  show "P (snd (dispatch_RES_JOIN e body s))"
    using P by (auto simp: dispatch_RES_JOIN_def Let_def intro!: keep addUsers connectToSuperPeer sync_methods
        split: option.split prod.split)
  show "P (snd (dispatch_CHANGE_SUPERPEER e body s))"
    using P by (auto simp: dispatch_CHANGE_SUPERPEER_def intro!: keep connectToSuperPeer split: option.split prod.split)
  show "P (snd (dispatch_LEFT e body s))"
    using P by (auto simp: dispatch_LEFT_def intro!: removeUser split: prod.split)
  show "P (snd (dispatch_HISTORY_USER_LIST e body s))"
    using P by (simp add: dispatch_HISTORY_USER_LIST_def addHistoryUsers)
qed

lemma dispatch_sync:
  "P s \<Longrightarrow> P (snd (dispatch_TCPSYN s))" "P s \<Longrightarrow> P (snd (dispatch_SYNC_START e body s))"
  "P s \<Longrightarrow> P (snd (dispatch_SYNC_COMPLETE e s))" "P s \<Longrightarrow> P (snd (dispatch_SYNC_REQUEST e body s))"
  "P s \<Longrightarrow> P (snd (dispatch_CHAT_MESSAGE e body s))"
  by (auto simp: dispatch_TCPSYN_def dispatch_SYNC_START_def dispatch_SYNC_COMPLETE_def dispatch_SYNC_REQUEST_def
      dispatch_CHAT_MESSAGE_def Let_def
      intro!: keep relay_send perform sendDataToUsers_to split: prod.split option.split)

lemma dispatch_drawing:
  "P s \<Longrightarrow> P (snd (dispatch_CLEAR_SCREEN e s))" "P s \<Longrightarrow> P (snd (dispatch_CLEAR_BG e s))"
  "P s \<Longrightarrow> P (snd (dispatch_SET_BG_IMAGE e body s))" "P s \<Longrightarrow> P (snd (dispatch_SET_BG_GRID_LINE e body s))"
  "P s \<Longrightarrow> P (snd (dispatch_SET_BG_COLOR e body s))" "P s \<Longrightarrow> P (snd (dispatch_TASK_EXECUTE e body s))"
  by (auto simp: dispatch_CLEAR_SCREEN_def dispatch_CLEAR_BG_def dispatch_SET_BG_IMAGE_def dispatch_SET_BG_COLOR_def
      dispatch_SET_BG_GRID_LINE_def dispatch_TASK_EXECUTE_def
      intro!: keep perform on_cmd safe_keeps safe_executeTask split: prod.split option.split)

lemma dispatch_windows:
  "P s \<Longrightarrow> P (snd (dispatch_RESIZE_MAIN_WND e body s))" "P s \<Longrightarrow> P (snd (dispatch_RESIZE_WND_SPLITTER e body s))"
  "P s \<Longrightarrow> P (snd (dispatch_RESIZE_CANVAS e body s))" "P s \<Longrightarrow> P (snd (dispatch_CHANGE_CANVAS_SCROLL_POS e body s))"
  by (auto simp: dispatch_RESIZE_MAIN_WND_def dispatch_RESIZE_WND_SPLITTER_def dispatch_RESIZE_CANVAS_def
      dispatch_CHANGE_CANVAS_SCROLL_POS_def intro!: perform split: prod.split)

lemma dispatch_streams:
  "P s \<Longrightarrow> P (snd (dispatch_CHANGE_RECORD_STATUS e d s))" "P s \<Longrightarrow> P (snd (dispatch_CHANGE_SHOW_STREAM e d s))"
  "P s \<Longrightarrow> P (snd (dispatch_RES_SHOW_STREAM e d s))"
  by (auto simp: dispatch_CHANGE_RECORD_STATUS_def dispatch_CHANGE_SHOW_STREAM_def dispatch_RES_SHOW_STREAM_def
      removeUdpStreamSession_def Let_def intro!: keep perform upd_user split: prod.split option.split)

lemma dispatch_CREATE_ITEM: "P s \<Longrightarrow> dispatch_CREATE_ITEM e body s = Some (r, s') \<Longrightarrow> P s'"
proof -
  assume P: "P s" and r: "dispatch_CREATE_ITEM e body s = Some (r, s')"
  have k: "keeps cm_inv (\<lambda>c. (Inr (), addHistoryItem it c))" for it
    by (simp add: keeps_def cm_inv_pure)
  show "P s'"
    using r P by (auto simp: dispatch_CREATE_ITEM_def dest!: arg_cong [where f = snd]
        split: sum.splits option.splits prod.splits intro!: on_cmd [OF k] intro: store)
qed

lemma dispatchPaintPacket: "P s \<Longrightarrow> dispatchPaintPacket e x d s = Some (r, s') \<Longrightarrow> P s'"
proof -
  assume P: "P s" and r: "dispatchPaintPacket e x d s = Some (r, s')"
  show "P s'"
  proof (cases "pd_code d = code_word CODE_PAINT_CREATE_ITEM")
    case True
    with r P show ?thesis
      by (auto simp: dispatchPaintPacket_def Let_def intro: dispatch_CREATE_ITEM)
  next
    case False
    note d = dispatch_users [OF P] dispatch_sync [OF P] dispatch_drawing [OF P] dispatch_windows [OF P]
      dispatch_streams [OF P]
    have s': "s' = snd (if pd_code d = code_word CODE_SYSTEM_VERSION_INFO then dispatch_VERSION_INFO e (pd_body d) s
        else always True (handler_of e x d) s)"
      using r False by (simp add: dispatchPaintPacket_def)
    have "P (snd (always True (handler_of e x d) s))"
      unfolding handler_of_def Let_def
      by (rule keep_always_if [of P], rule keep_always [of P], rule d)+ (simp add: always_def thenS_def bindS_Inr P)
    with s' d(1) show ?thesis by simp
  qed
qed

lemma relay_others: "P s \<Longrightarrow> P (snd (relay_others i d s))"
  by (auto simp: relay_others_def intro!: keep sendDataToSessions)

lemma onReceivedPacket: "P s \<Longrightarrow> onReceivedPacket e i d s = Some (r, s') \<Longrightarrow> P s'"
  unfolding onReceivedPacket_def
  by (erule keep_thenO [of _ _ _ _ P])
    (auto intro: dispatchPaintPacket intro!: keep perform relay_others dest!: arg_cong [where f = snd])

lemma packet_loop: "P s \<Longrightarrow> packet_loop e i ds s = Some (r, s') \<Longrightarrow> P s'"
proof (induction ds arbitrary: s r s')
  case (Cons d ds)
  have "thenO (onReceivedPacket e i d s) (\<lambda>u. packet_loop e i ds) = Some (r, s') \<Longrightarrow> P s'"
    by (erule keep_thenO [of _ _ _ _ P]) (use Cons onReceivedPacket in blast)+
  with Cons.prems show ?case by (auto split: if_splits)
qed (auto split: if_splits)

lemma session_received: "P s \<Longrightarrow> session_received e i d s = Some (r, s') \<Longrightarrow> P s'"
proof -
  assume P: "P s" and r: "session_received e i d s = Some (r, s')"
  show "P s'"
  proof (cases "pm_sessions s i")
    case None
    with r P show ?thesis by (simp add: session_received_def)
  next
    case (Some p)
    have "P (s\<lparr>pm_sessions := (pm_sessions s)(i \<mapsto> p\<lparr>pa_slicer := snd (receive d (pa_slicer p))\<rparr>)\<rparr>)"
      using P Some by (rule slicer)
    with r Some show ?thesis
      by (auto simp: session_received_def Let_def split: prod.splits sum.splits intro: packet_loop)
  qed
qed

lemma paint_session_event: "P s \<Longrightarrow> paint_session_event e i ev s = Some (r, s') \<Longrightarrow> P s'"
  by (cases ev) (auto simp: paint_session_event_def handle_net_event_def handle_end_def
      intro: session_received dest!: arg_cong [where f = snd]
      intro!: onSendingPacket onConnected onDisconnected onConnectFailed)

lemma events_loop: "P s \<Longrightarrow> events_loop e i evs s = Some (r, s') \<Longrightarrow> P s'"
proof (induction evs arbitrary: s r s')
  case (Cons ev evs)
  have "thenO (paint_session_event e i ev s) (\<lambda>u. events_loop e i evs) = Some (r, s') \<Longrightarrow> P s'"
    by (erule keep_thenO [of _ _ _ _ P]) (use Cons paint_session_event in blast)+
  with Cons.prems show ?case by simp
qed simp

lemma session_handler: "P s \<Longrightarrow> session_handler e i m s = Some (r, s') \<Longrightarrow> P s'"
  unfolding session_handler_def
  by (erule keep_thenO [of _ _ _ _ P])
    (auto split: prod.splits dest: on_peer [of s i m] intro: events_loop dest: take_fired_eq)

lemma dispatch_loop: "P s \<Longrightarrow> dispatch_loop e ds s = Some (r, s') \<Longrightarrow> P s'"
proof (induction ds arbitrary: s r s')
  case (Cons d ds)
  have "thenO (dispatchPaintPacket e None d s) (\<lambda>go. if go then dispatch_loop e ds else (\<lambda>s. Some (Inr (), s)))
      = Some (r, s') \<Longrightarrow> P s'"
  proof (erule keep_thenO [of _ _ _ _ P])
    show "P s1" if "dispatchPaintPacket e None d s = Some (r1, s1)" for r1 s1
      using Cons.prems(1) that by (rule dispatchPaintPacket)
    show "P s2" if "P s1" "(if go then dispatch_loop e ds else (\<lambda>s. Some (Inr (), s))) s1 = Some (r1, s2)" for go s1 r1 s2
      using Cons.IH [of s1 r1 s2] that by (cases go) auto
  qed
  with Cons.prems show ?case by simp
qed simp

lemma deserializeData: "P s \<Longrightarrow> deserializeData e d s = Some (r, s') \<Longrightarrow> P s'"
proof -
  assume P: "P s" and r: "deserializeData e d s = Some (r, s')"
  have *: "thenO (dispatch_loop e ps s) (\<lambda>u s. Some (thenS (sendDataToUsers_unit d) (returnS True) s)) = Some (r, s')
      \<Longrightarrow> P s'" for ps
    by (erule keep_thenO [of _ _ _ _ P])
      (use P in \<open>auto intro: dispatch_loop intro!: keep sendDataToUsers_unit dest!: arg_cong [where f = snd]\<close>)
  show "P s'"
    using r P unfolding deserializeData_def Let_def
    by (auto split: prod.splits sum.splits list.splits if_splits option.splits dest: *)
qed

lemma datagrams: "P s \<Longrightarrow> P (snd (onUdpReceived e d s))" "P s \<Longrightarrow> P (snd (onBroadCastReceived e d s))"
proof -
  have t: "P s \<Longrightarrow> P (snd (text_message e body s))" for body s
    by (auto simp: text_message_def intro!: perform split: prod.split)
  have h: "P s \<Longrightarrow> P (snd (datagram_received e k d s))" if "\<And>x s. P s \<Longrightarrow> P (snd (k x s))" for k s
    by (auto simp: datagram_received_def intro!: keep that split: prod.split sum.split)
  have u: "P s \<Longrightarrow> P (snd (dispatchUdpPacket e x s))" for x s
    by (auto simp: dispatchUdpPacket_def Let_def intro!: perform split: prod.split)
  have b: "P s \<Longrightarrow> P (snd (dispatchBroadCastPacket e x s))" for x s
    by (auto simp: dispatchBroadCastPacket_def answer_probe_def Let_def intro!: t split: prod.split)
  show "P s \<Longrightarrow> P (snd (onUdpReceived e d s))" unfolding onUdpReceived_def by (rule h [OF u])
  show "P s \<Longrightarrow> P (snd (onBroadCastReceived e d s))" unfolding onBroadCastReceived_def by (rule h [OF b])
qed

end

section \<open>The tables of users\<close>

text \<open>
  Every entry of the table of users who are online is filed under the id of its user, in the order of
  the ids; the history of users holds every id once.
\<close>

definition users_ok :: "paint_manager \<Rightarrow> bool" where
  "users_ok s \<longleftrightarrow> 0 < length (pm_users s) \<and> m_ok (pm_joinerMap s)
     \<and> (\<forall>(u, p) \<in> set (pm_joinerMap s). p < length (pm_users s) \<and> id_of p s = u)
     \<and> set (pm_joinerHistory s) \<subseteq> {..<length (pm_users s)}
     \<and> distinct (map (\<lambda>p. id_of p s) (pm_joinerHistory s))"

lemma users_ok_cong:
  assumes "length (pm_users s') = length (pm_users s)" and "pm_joinerMap s' = pm_joinerMap s"
    and "pm_joinerHistory s' = pm_joinerHistory s" and "\<And>p. p < length (pm_users s) \<Longrightarrow> id_of p s' = id_of p s"
  shows "users_ok s' = users_ok s"
proof -
  have "map (\<lambda>p. id_of p s') (pm_joinerHistory s) = map (\<lambda>p. id_of p s) (pm_joinerHistory s)"
    if "set (pm_joinerHistory s) \<subseteq> {..<length (pm_users s)}"
    using that assms(4) by (auto intro!: map_cong)
  then have "distinct (map (\<lambda>p. id_of p s') (pm_joinerHistory s)) = distinct (map (\<lambda>p. id_of p s) (pm_joinerHistory s))"
    if "set (pm_joinerHistory s) \<subseteq> {..<length (pm_users s)}"
    using that by presburger
  then show ?thesis
    unfolding users_ok_def assms(1-3) using assms(4)
    by (intro conj_cong refl ball_cong) auto
qed

lemma users_ok_other [simp]:
  "users_ok (s\<lparr>pm_sessions := x1\<rparr>) = users_ok s" "users_ok (s\<lparr>pm_nextSession := x2\<rparr>) = users_ok s"
  "users_ok (s\<lparr>pm_sessionList := x3\<rparr>) = users_ok s" "users_ok (s\<lparr>pm_superPeerSession := x4\<rparr>) = users_ok s"
  "users_ok (s\<lparr>pm_relayServerSession := x4\<rparr>) = users_ok s" "users_ok (s\<lparr>pm_cmd := c\<rparr>) = users_ok s"
  "users_ok (s\<lparr>pm_files := fs\<rparr>) = users_ok s"
  by (rule users_ok_cong; simp add: id_of_def user_def)+

lemma id_of_upd: "keeps_id f \<Longrightarrow> id_of q (upd_userp p f s) = id_of q s"
  by (cases "p < length (pm_users s)") (auto simp: id_of_def user_def upd_userp_def keeps_id_def nth_list_update list_update_beyond)

lemma upd_userp_simps [simp]:
  "length (pm_users (upd_userp p f s)) = length (pm_users s)" "pm_joinerMap (upd_userp p f s) = pm_joinerMap s"
  "pm_joinerHistory (upd_userp p f s) = pm_joinerHistory s"
  by (simp_all add: upd_userp_def)

lemma users_ok_upd: "keeps_id f \<Longrightarrow> users_ok (upd_userp p f s) = users_ok s"
  by (rule users_ok_cong) (simp_all add: id_of_upd)

lemma id_of_set_data:
  "u_userId d = id_of p s \<Longrightarrow> id_of q (upd_userp p (setUserData d) s) = id_of q s"
  by (cases "p < length (pm_users s)")
    (auto simp: id_of_def user_def upd_userp_def setUserData_def nth_list_update list_update_beyond)

lemma users_ok_set_data:
  "u_userId d = id_of p s \<Longrightarrow> users_ok (upd_userp p (setUserData d) s) = users_ok s"
  by (rule users_ok_cong) (simp_all add: id_of_set_data)

lemma findHistoryUser_Some:
  "findHistoryUser u s = Some p \<Longrightarrow> p \<in> set (pm_joinerHistory s) \<and> id_of p s = u"
  by (auto simp: findHistoryUser_def find_Some_iff)

lemma findHistoryUser_None:
  "findHistoryUser u s = None \<longleftrightarrow> u \<notin> (\<lambda>p. id_of p s) ` set (pm_joinerHistory s)"
  by (auto simp: findHistoryUser_def find_None_iff)

lemma users_ok_tables:
  "users_ok s \<Longrightarrow> p < length (pm_users s) \<Longrightarrow> findHistoryUser (id_of p s) s = None \<Longrightarrow>
     users_ok (s\<lparr>pm_joinerHistory := pm_joinerHistory s @ [p]\<rparr>)"
  "users_ok s \<Longrightarrow> p < length (pm_users s) \<Longrightarrow>
     users_ok (s\<lparr>pm_joinerMap := m_put (id_of p s) p (pm_joinerMap s)\<rparr>)"
proof -
  assume ok: "users_ok s" and p: "p < length (pm_users s)"
  show "users_ok (s\<lparr>pm_joinerHistory := pm_joinerHistory s @ [p]\<rparr>)" if "findHistoryUser (id_of p s) s = None"
    using ok p that unfolding findHistoryUser_None by (auto simp: users_ok_def id_of_def user_def)
  show "users_ok (s\<lparr>pm_joinerMap := m_put (id_of p s) p (pm_joinerMap s)\<rparr>)"
    using ok p std.entries_put [of "pm_joinerMap s" "id_of p s" p]
    by (auto simp: users_ok_def id_of_def user_def m_ok_put)
qed

lemma users_ok_remember:
  assumes "users_ok s" and "p < length (pm_users s)"
  shows "users_ok (addHistoryUser p s)" and "length (pm_users (addHistoryUser p s)) = length (pm_users s)"
    and "id_of q (addHistoryUser p s) = id_of q s"
proof -
  let ?s1 = "s\<lparr>pm_joinerHistory := pm_joinerHistory s @ [p]\<rparr>"
  have 1: "users_ok ?s1" if "findHistoryUser (id_of p s) s = None"
    using assms that by (rule users_ok_tables(1))
  have 2: "users_ok (if b then upd_userp p setMyself ?s1 else ?s1) = users_ok ?s1" for b
    by (simp add: users_ok_upd)
  show "users_ok (addHistoryUser p s)"
    using assms(1) 1 2 by (auto simp: addHistoryUser_def Let_def split: option.split)
  have 3: "id_of q (s'\<lparr>pm_cmd := c\<rparr>) = id_of q s'" "id_of q ?s1 = id_of q s" for s' c
    by (simp_all add: id_of_def user_def)
  show "length (pm_users (addHistoryUser p s)) = length (pm_users s)"
    by (auto simp: addHistoryUser_def Let_def split: option.split)
  show "id_of q (addHistoryUser p s) = id_of q s"
    by (auto simp: addHistoryUser_def Let_def 3 id_of_upd split: option.split)
qed

lemma users_ok_enter:
  assumes ok: "users_ok s" and p: "p < length (pm_users s)"
  shows "users_ok (snd (addUser_table p s))"
proof -
  define x where "x = (case findHistoryUser (id_of p s) s of
      Some h \<Rightarrow> (h, upd_userp h (setUserData (user_data (user p s))) s) | None \<Rightarrow> (p, addHistoryUser p s))"
  obtain p1 s1 where x: "x = (p1, s1)" by fastforce
  have s1: "users_ok s1 \<and> p1 < length (pm_users s1)"
  proof (cases "findHistoryUser (id_of p s) s")
    case None
    with x users_ok_remember [OF ok p] p show ?thesis by (auto simp: x_def)
  next
    case (Some h)
    with findHistoryUser_Some [OF Some] ok have h: "h < length (pm_users s)" "id_of h s = id_of p s"
      by (auto simp: users_ok_def)
    have "users_ok (upd_userp h (setUserData (user_data (user p s))) s) = users_ok s"
      by (rule users_ok_set_data) (simp add: h(2), simp add: id_of_def)
    with x Some h ok show ?thesis by (auto simp: x_def)
  qed
  have "users_ok (upd_userp q (setUserData (user_data (user p1 s1))) s1)"
    if "m_find (id_of p1 s1) (pm_joinerMap s1) = Some q" for q
  proof -
    have "(id_of p1 s1, q) \<in> set (pm_joinerMap s1)"
      using that s1 std.find_entries [of "pm_joinerMap s1" "id_of p1 s1" q] by (simp add: users_ok_def)
    then have "id_of q s1 = id_of p1 s1" using s1 by (auto simp: users_ok_def)
    then show ?thesis using s1 users_ok_set_data [of "user_data (user p1 s1)" q s1] by (simp add: id_of_def)
  qed
  with s1 show ?thesis
    unfolding addUser_table_def x_def [symmetric] x
    by (auto simp: users_ok_tables(2) split: option.split)
qed


lemma users_ok_no_users: "users_ok s \<Longrightarrow> users_ok (s\<lparr>pm_joinerMap := []\<rparr>)"
  "users_ok s \<Longrightarrow> users_ok (s\<lparr>pm_joinerMap := m_erase u (pm_joinerMap s)\<rparr>)"
  "users_ok s \<Longrightarrow> users_ok (s\<lparr>pm_joinerHistory := filter Q (pm_joinerHistory s)\<rparr>)"
  "users_ok s \<Longrightarrow> users_ok (s\<lparr>pm_users := pm_users s @ [x]\<rparr>)"
proof -
  assume ok: "users_ok s"
  show "users_ok (s\<lparr>pm_joinerMap := []\<rparr>)"
    using ok by (simp add: users_ok_def id_of_def user_def m_ok_def)
  show "users_ok (s\<lparr>pm_joinerMap := m_erase u (pm_joinerMap s)\<rparr>)"
    using ok std.ok_erase [of "pm_joinerMap s" u] by (auto simp: users_ok_def id_of_def user_def m_erase_def)
  show "users_ok (s\<lparr>pm_joinerHistory := filter Q (pm_joinerHistory s)\<rparr>)"
    using ok by (auto simp: users_ok_def id_of_def user_def distinct_map_filter)
  let ?s = "s\<lparr>pm_users := pm_users s @ [x]\<rparr>"
  have id: "id_of p ?s = id_of p s" if "p < length (pm_users s)" for p
    using that by (simp add: id_of_def user_def nth_append)
  moreover have "map (\<lambda>p. id_of p ?s) (pm_joinerHistory s) = map (\<lambda>p. id_of p s) (pm_joinerHistory s)"
    using ok id by (auto simp: users_ok_def)
  then have "distinct (map (\<lambda>p. id_of p ?s) (pm_joinerHistory s)) =
      distinct (map (\<lambda>p. id_of p s) (pm_joinerHistory s))" by (rule arg_cong)
  ultimately show "users_ok ?s"
    using ok by (auto simp: users_ok_def case_prod_beta less_Suc_eq simp del: distinct_map)
qed

lemma users_ok_nonempty: "users_ok s \<Longrightarrow> pm_users s \<noteq> []"
  by (auto simp: users_ok_def)

interpretation users: manager_invariant users_ok
proof unfold_locales
  show "users_ok s' = users_ok s" if "core s' = core s" for s s'
    using that by (intro users_ok_cong) (auto simp: core_def id_of_def user_def)
  show "users_ok s \<Longrightarrow> keeps_id f \<Longrightarrow> users_ok (upd_userp p f s)" for s f p by (simp add: users_ok_upd)
qed (simp_all add: users_ok_enter users_ok_remember(1) users_ok_no_users users_ok_nonempty)

section \<open>The tables of sessions, the history and the files\<close>

text \<open>The tables name existing sessions only, and the number of the next session is not in use.\<close>

definition sessions_ok :: "paint_manager \<Rightarrow> bool" where
  "sessions_ok s \<longleftrightarrow> (\<forall>i. pm_sessions s i \<noteq> None \<longrightarrow> i < pm_nextSession s)
     \<and> distinct (pm_sessionList s) \<and> (\<forall>i. referenced i s \<longrightarrow> pm_sessions s i \<noteq> None)"

text \<open>The files \<open>fs\<close> are still there as they were.\<close>

definition tables_ok :: "files \<Rightarrow> paint_manager \<Rightarrow> bool" where
  "tables_ok fs s \<longleftrightarrow> pm_users s \<noteq> [] \<and> sessions_ok s \<and> cm_inv (pm_cmd s) \<and> fs \<subseteq>\<^sub>m pm_files s"

lemma tables_ok_cong:
  assumes "(pm_users s' = []) = (pm_users s = [])" and "pm_sessions s' = pm_sessions s"
    and "pm_nextSession s' = pm_nextSession s" and "refs s' = refs s"
    and "cm_inv (pm_cmd s) \<Longrightarrow> cm_inv (pm_cmd s')" and "pm_files s' = pm_files s"
  shows "tables_ok fs s \<Longrightarrow> tables_ok fs s'"
  using assms by (simp add: tables_ok_def sessions_ok_def refs_def referenced_def)

lemma tables_ok_upd: "tables_ok fs (upd_userp p f s) = tables_ok fs s"
  by (simp add: tables_ok_def sessions_ok_def referenced_def upd_userp_def)

lemma tables_ok_fields:
  "tables_ok fs s \<Longrightarrow> tables_ok fs (s\<lparr>pm_joinerMap := x\<rparr>)" "tables_ok fs s \<Longrightarrow> tables_ok fs (s\<lparr>pm_joinerHistory := y\<rparr>)"
  "tables_ok fs s \<Longrightarrow> (cm_inv (pm_cmd s) \<Longrightarrow> cm_inv c) \<Longrightarrow> tables_ok fs (s\<lparr>pm_cmd := c\<rparr>)"
  by (erule tables_ok_cong [rotated -1]; simp add: refs_def)+

lemma tables_ok_remember: "tables_ok fs s \<Longrightarrow> tables_ok fs (addHistoryUser p s)"
  by (auto simp: addHistoryUser_def Let_def tables_ok_upd cm_inv_pure intro!: tables_ok_fields split: option.split)

lemma tables_ok_enter: "tables_ok fs s \<Longrightarrow> tables_ok fs (snd (addUser_table p s))"
  by (auto simp: addUser_table_def tables_ok_upd tables_ok_remember split: option.split prod.split
      intro!: tables_ok_fields)

lemma parse_CreateItem_files:
  assumes "parse_CreateItem q fs body = Inr (Some (x, fs'))"
  shows "fs' = fs \<or> (\<exists>data it ok it'. deserialize_item q fs data it = Some (ok, it', fs'))"
proof (cases "readInt16 body 0 True")
  case (Inl err)
  with assms show ?thesis by (simp add: parse_CreateItem_def)
next
  case (Inr r)
  obtain ty n where r: "r = (ty, n)" by (cases r)
  with Inr assms obtain it where "createItem q ty = Inr it"
    "(case deserialize_item q fs (drop n body) it of None \<Rightarrow> None
      | Some (True, it', fs') \<Rightarrow> Some (Some it', fs') | Some (False, it', fs') \<Rightarrow> Some (None, fs')) = Some (x, fs')"
    by (auto simp: parse_CreateItem_def bindE_eq_Inr)
  then show ?thesis by (auto split: option.splits bool.splits)
qed

lemma parse_CreateItem_keeps_files:
  assumes "parse_CreateItem q fs body = Inr (Some (x, fs'))"
  shows "fs \<subseteq>\<^sub>m fs'"
  unfolding map_le_def
proof (intro ballI)
  fix f assume "f \<in> dom fs"
  then obtain d where "fs f = Some d" by auto
  then show "fs f = fs' f"
    using parse_CreateItem_files [OF assms] receive_item_keeps_files [where fs = fs and p = f] by auto
qed

interpretation tables: manager_invariant "tables_ok fs"
proof unfold_locales
  show "tables_ok fs s' = tables_ok fs s" if "core s' = core s" for s s'
    using that by (auto simp: core_def refs_def elim!: tables_ok_cong [rotated -1])
  show "tables_ok fs (s\<lparr>pm_files := fs'\<rparr>)"
    if "tables_ok fs s" "parse_CreateItem (qt :: qt) (pm_files s) body = Inr (Some (x, fs'))" for s qt body x fs'
    using that parse_CreateItem_keeps_files [OF that(2)]
    by (auto simp: tables_ok_def sessions_ok_def referenced_def intro: map_le_trans)
qed (auto simp: tables_ok_upd tables_ok_remember tables_ok_enter cm_inv_pure,
    auto simp: tables_ok_def sessions_ok_def referenced_def cm_inv_pure, blast)

end
