(* ===== verification/ManagerRun.thy ===== *)
theory ManagerRun
  imports ManagerInvariant
begin

text \<open>
  The client as a machine: the events the user interface, the sockets and the timers bring, what the
  manager does on each, and the states that can be reached.
\<close>

section \<open>The start\<close>

text \<open>
  The constructor.  \<^verbatim>\<open>broadCastSessionForRecvMessage_\<close> only receives and is left out.  \<open>fs\<close> are the files
  on the disk.
\<close>

definition new_paint_manager :: "env \<Rightarrow> files \<Rightarrow> paint_manager" where
  "new_paint_manager e fs = snd (startListenBroadCast e
     \<lparr>pm_mainThread = True, pm_queue = [], pm_timers = [], pm_taskQueue = [], pm_cmdQueue = [],
      pm_syncTimers = 0, pm_trace = [], pm_enabled = True, pm_syncStarted = False, pm_cmd = new_cmd_mngr,
      pm_backgroundImage = None, pm_windowSize = (0, 0), pm_canvasSize = (0, 0), pm_scrollPos = (- 1, - 1),
      pm_splitterSizes = [], pm_backgroundColor = WHITE, pm_gridLineSize = 0,
      pm_users = [setLocalIPAddress (en_myIp e) (CPaintUser_myself (sessionId (en_newUser e)) True)],
      pm_joinerMap = [], pm_joinerHistory = [], pm_findingServerMode = False, pm_listenTcpPort = - 1,
      pm_listenUdpPort = - 1, pm_retryCount = 0, pm_lastConnectMode = INIT_MODE, pm_lastConnectAddress = [],
      pm_lastConnectPort = - 1, pm_superPeerId = [], pm_sessions = Map.empty, pm_nextSession = 0,
      pm_sessionList = [], pm_superPeerSession = None, pm_relayServerSession = None, pm_server = False,
      pm_udpForConnection = None, pm_bcListener = None, pm_bcFinder = None,
      pm_bcSendMessage = Some (snd (bc_openUdp (en_udpOpen e) (new_broadcast_session\<lparr>bc_evtTarget := True\<rparr>))),
      pm_udpSessionMap = [], pm_udpForStream = None, pm_PACKETID = 0, pm_sendInfo = [],
      pm_lastPacketId = - 1, pm_files = fs\<rparr>)"

section \<open>Events\<close>

text \<open>
  The first group is what the window asks for, on the main thread; the second what the threads of the
  io service call; the third what the main thread runs on its own.
\<close>

datatype ui_request =
    Ui_connectToPeer bytes int
  | Ui_requestJoinServer bytes int bytes
  | Ui_close
  | Ui_closeSession
  | Ui_clearScreen bool
  | Ui_startServer int
  | Ui_stopServer
  | Ui_stopFindingServer
  | Ui_changeNickName bytes
  | Ui_setPaintChannel bytes
  | Ui_sendChatMessage bytes
  | Ui_sendBroadCastTextMessage bytes bytes
  | Ui_redoCommand
  | Ui_undoCommand
  | Ui_addPaintItem CPaintItem
  | Ui_updatePaintItem CPaintItem
  | Ui_movePaintItem CPaintItem
  | Ui_removePaintItem CPaintItem
  | Ui_sendBackgroundImage "CPaintItem option"
  | Ui_setBackgroundColor rgba
  | Ui_clearBackground
  | Ui_setBackgroundGridLine "32 word"
  | Ui_changeCanvasScrollPos "32 word" "32 word"
  | Ui_resizingCanvas "32 word" "32 word"
  | Ui_resizingMainWindow "32 word" "32 word"
  | Ui_resizingWindowSplitter "32 word list"
  | Ui_screenRecordingStatus bool
  | Ui_changeShowScreenStream bool bool
  | Ui_sendScreenStreamData bytes
  | Ui_playbackTo int
  | Ui_setAllowPainterToDraw bytes bool

datatype pm_event =
    Ui ui_request
  | Ui_startFindingServer
  | Ui_responseShowScreenStream bytes bool
  | Ui_deserializeData bytes
  | Net_accepted
  | Net_connect int nat bool nat
  | Net_read int bool bytes
  | Net_write int bool
  | Net_deadline int
  | Net_udp bytes
  | Net_broadcast bytes
  | Net_sentMessage int
  | Main_caller
  | Main_tasks
  | Main_commands
  | Main_timer
  | Main_syncTimeout

definition unit_of :: "('s, 'a) meth \<Rightarrow> ('s, unit) meth" where
  "unit_of m = bindS m (\<lambda>a. returnS ())"

definition unit_opt :: "('a result \<times> 's) option \<Rightarrow> (unit result \<times> 's) option" where
  "unit_opt = map_option (\<lambda>(r, s). (case r of Inl err \<Rightarrow> Inl err | Inr a \<Rightarrow> Inr (), s))"

definition on_thread :: "bool \<Rightarrow> paint_manager \<Rightarrow> paint_manager" where
  "on_thread b s = s\<lparr>pm_mainThread := b\<rparr>"

text \<open>What the window asks for.\<close>

definition ui_method :: "env \<Rightarrow> ui_request \<Rightarrow> unit pm" where
  "ui_method e x = (case x of
       Ui_connectToPeer addr port \<Rightarrow> unit_of (connectToPeer e addr port)
     | Ui_requestJoinServer addr port rid \<Rightarrow> unit_of (requestJoinServer e addr port rid)
     | Ui_close \<Rightarrow> pm_close e
     | Ui_closeSession \<Rightarrow> closeSession e
     | Ui_clearScreen b \<Rightarrow> clearScreen e b
     | Ui_startServer port \<Rightarrow> unit_of (startServer e port)
     | Ui_stopServer \<Rightarrow> stopServer
     | Ui_stopFindingServer \<Rightarrow> stopFindingServer e
     | Ui_changeNickName nick \<Rightarrow> changeNickName e nick
     | Ui_setPaintChannel ch \<Rightarrow> setPaintChannel e ch
     | Ui_sendChatMessage msg \<Rightarrow> sendChatMessage e msg
     | Ui_sendBroadCastTextMessage ch msg \<Rightarrow> sendBroadCastTextMessage e ch msg
     | Ui_redoCommand \<Rightarrow> pm_redoCommand e
     | Ui_undoCommand \<Rightarrow> pm_undoCommand e
     | Ui_addPaintItem it \<Rightarrow> unit_of (pm_addPaintItem e it)
     | Ui_updatePaintItem it \<Rightarrow> updatePaintItem e it
     | Ui_movePaintItem it \<Rightarrow> movePaintItem e it
     | Ui_removePaintItem it \<Rightarrow> removePaintItem e it
     | Ui_sendBackgroundImage img \<Rightarrow> unit_of (sendBackgroundImage e img)
     | Ui_setBackgroundColor c \<Rightarrow> setBackgroundColor e c
     | Ui_clearBackground \<Rightarrow> clearBackground
     | Ui_setBackgroundGridLine sz \<Rightarrow> setBackgroundGridLine sz
     | Ui_changeCanvasScrollPos h v \<Rightarrow> unit_of (notifyChangeCanvasScrollPos h v)
     | Ui_resizingCanvas w h \<Rightarrow> unit_of (notifyResizingCanvas w h)
     | Ui_resizingMainWindow w h \<Rightarrow> unit_of (notifyResizingMainWindow w h)
     | Ui_resizingWindowSplitter sizes \<Rightarrow> unit_of (notifyResizingWindowSplitter sizes)
     | Ui_screenRecordingStatus b \<Rightarrow> unit_of (notifyScreenRecordingStatus b)
     | Ui_changeShowScreenStream sender b \<Rightarrow> unit_of (notifyChangeShowScreenStream sender b)
     | Ui_sendScreenStreamData d \<Rightarrow> sendScreenStreamData e d
     | Ui_playbackTo p \<Rightarrow> plabackTo e p
     | Ui_setAllowPainterToDraw u b \<Rightarrow> pm_setAllowPainterToDraw e u b)"

text \<open>\<open>None\<close> when an event does not return.\<close>

definition run_event :: "env \<Rightarrow> pm_event \<Rightarrow> paint_manager \<Rightarrow> (unit result \<times> paint_manager) option" where
  "run_event e ev s = (case ev of
       Ui x \<Rightarrow> Some (ui_method e x (on_thread True s))
     | Ui_startFindingServer \<Rightarrow> unit_opt (startFindingServer e (on_thread True s))
     | Ui_responseShowScreenStream u b \<Rightarrow> unit_opt (sendResponseShowScreenStream e u b (on_thread True s))
     | Ui_deserializeData d \<Rightarrow> unit_opt (deserializeData e d (on_thread True s))
     | Net_accepted \<Rightarrow> Some (onAccepted e (on_thread False s))
     | Net_connect i n failed k \<Rightarrow>
         session_handler e i (updS (ps_handle_connect (en_now e) n failed k)) (on_thread False s)
     | Net_deadline i \<Rightarrow>
         session_handler e i (updS (ps_handle_check_deadline (en_now e))) (on_thread False s)
     | Net_read i failed d \<Rightarrow> session_handler e i (updS (ps_handle_read failed d)) (on_thread False s)
     | Net_write i failed \<Rightarrow> session_handler e i (ps_handle_write failed) (on_thread False s)
     | Net_udp d \<Rightarrow> Some (onUdpReceived e d (on_thread False s))
     | Net_broadcast d \<Rightarrow> Some (onBroadCastReceived e d (on_thread False s))
     | Net_sentMessage n \<Rightarrow> Some (onSentMessage e n (on_thread False s))
     | Main_caller \<Rightarrow> Some (main_step e s)
     | Main_tasks \<Rightarrow> Some (task_step e s)
     | Main_commands \<Rightarrow> Some (cmd_step e s)
     | Main_timer \<Rightarrow> Some (timer_step e s)
     | Main_syncTimeout \<Rightarrow> Some (onTimeoutSyncStart e (on_thread True s)))"

text \<open>The slider of the window only gives positions of the history, and -1.\<close>

definition event_ok :: "pm_event \<Rightarrow> paint_manager \<Rightarrow> bool" where
  "event_ok ev s = (case ev of
       Ui (Ui_playbackTo p) \<Rightarrow> - 1 \<le> p \<and> p < int (historyTaskCount (pm_cmd s))
     | _ \<Rightarrow> True)"

inductive pm_reachable :: "env \<Rightarrow> files \<Rightarrow> bytes \<Rightarrow> paint_manager \<Rightarrow> bool" for e fs uid where
  start: "pm_reachable e fs uid (snd (initialize e uid (new_paint_manager e fs)))"
| step: "pm_reachable e fs uid s \<Longrightarrow> event_ok ev s \<Longrightarrow> run_event e ev s = Some (r, s') \<Longrightarrow>
    pm_reachable e fs uid s'"

section \<open>Every event keeps the tables\<close>

context manager_invariant
begin

lemma on_thread [simp]: "P (on_thread b s) = P s"
  by (simp add: on_thread_def)

lemma unit_of: "P (snd (m s)) \<Longrightarrow> P (snd (unit_of m s))"
  by (auto simp: unit_of_def intro!: keep)

lemma plabackTo: "P s \<Longrightarrow> - 1 \<le> p \<Longrightarrow> p < int (historyTaskCount (pm_cmd s)) \<Longrightarrow> P (snd (plabackTo e p s))"
proof -
  assume P: "P s" and p: "- 1 \<le> p" "p < int (historyTaskCount (pm_cmd s))"
  obtain r c where c: "playbackTo p ((pm_cmd s)\<lparr>cm_events := []\<rparr>) = (r, c)" by fastforce
  have "cm_inv (c\<lparr>cm_events := []\<rparr>)" if "cm_inv (pm_cmd s)"
    using run_op_safe [of "(pm_cmd s)\<lparr>cm_events := []\<rparr>" "OpPlaybackTo p"] that p c by (simp add: historyTaskCount_def)
  with P have "P (s\<lparr>pm_cmd := c\<lparr>cm_events := []\<rparr>\<rparr>)" by (rule cmd)
  then show ?thesis unfolding plabackTo_def on_cmd_def c by (auto intro!: keep handle_event)
qed

lemma ui_method: "P s \<Longrightarrow> event_ok (Ui x) s \<Longrightarrow> P (snd (ui_method e x (on_thread True s)))"
  by (cases x) (auto simp: ui_method_def event_ok_def updatePaintItem_def movePaintItem_def removePaintItem_def
      intro!: unit_of connect_methods close_methods my_methods commands drawing plabackTo,
      simp_all add: on_thread_def)

lemma unit_opt_Some: "unit_opt x = Some (r, s') \<Longrightarrow> \<exists>r. x = Some (r, s')"
  by (auto simp: unit_opt_def)

lemma run_event: "P s \<Longrightarrow> event_ok ev s \<Longrightarrow> run_event e ev s = Some (r, s') \<Longrightarrow> P s'"
proof -
  assume P: "P s" and ok: "event_ok ev s" and r: "run_event e ev s = Some (r, s')"
  have t: "P (on_thread b s)" for b using P by simp
  have snt: "P (snd (onSentMessage e n (on_thread False s)))" for n
    using t by (auto simp: onSentMessage_def intro!: perform)
  have k: "P (snd x) \<Longrightarrow> x = (r, s') \<Longrightarrow> P s'" for x by simp
  note ks = onAccepted [OF t, THEN k] datagrams [OF t, THEN k] main_steps [OF P, THEN k]
    close_methods(9) [OF t, THEN k] snt [THEN k] session_handler [OF t] deserializeData [OF t]
    startFindingServer [OF t] sendResponseShowScreenStream [OF t]
  show "P s'"
  proof (cases ev)
    case (Ui x)
    with ok ui_method [OF P] have "P (snd (ui_method e x (on_thread True s)))" by simp
    with r Ui show ?thesis by (auto simp: run_event_def dest: k)
  qed (use r in \<open>auto simp: run_event_def simp del: on_thread dest!: unit_opt_Some dest: ks\<close>)
qed

end

section \<open>What holds whenever the client runs\<close>

lemma start_ok:
  "users_ok (snd (initialize e uid (new_paint_manager e fs)))"
  "tables_ok fs (snd (initialize e uid (new_paint_manager e fs)))"
proof -
  let ?s = "upd_userp my (setUserData (new_user_info\<lparr>u_userId := uid\<rparr>)) (new_paint_manager e fs)"
  have u: "users_ok ?s"
    by (simp add: users_ok_def new_paint_manager_def startListenBroadCast_def upd_userp_def m_ok_def split: prod.split)
  have t: "tables_ok fs ?s"
    by (simp add: tables_ok_def sessions_ok_def referenced_def new_paint_manager_def startListenBroadCast_def
        upd_userp_def cm_inv_new split: prod.split)
  have my: "my < length (pm_users ?s)"
    by (simp add: my_def new_paint_manager_def startListenBroadCast_def upd_userp_def split: prod.split)
  have i: "snd (initialize e uid (new_paint_manager e fs)) = snd (addUser e my ?s)"
    by (simp add: initialize_def thenS_def bindS_def split: prod.split sum.split)
  show "users_ok (snd (initialize e uid (new_paint_manager e fs)))"
    unfolding i using u my by (rule users.addUser)
  show "tables_ok fs (snd (initialize e uid (new_paint_manager e fs)))"
    unfolding i using t my by (rule tables.addUser)
qed

lemma reachable_ok: "pm_reachable e fs uid s \<Longrightarrow> users_ok s \<and> tables_ok fs s"
proof (induction rule: pm_reachable.induct)
  case (step s ev r s')
  then show ?case using users.run_event tables.run_event by blast
qed (simp add: start_ok)

text \<open>A machine on which everything works, for the examples.\<close>

definition sample_env :: env where
  "sample_env = \<lparr>en_myIp = [49], en_resolve = (\<lambda>a p. Some 1), en_now = 0, en_tcpBind = (\<lambda>p. True),
     en_udpOpen = True, en_udpBind = (\<lambda>p. True),
     en_itemOrder = (\<lambda>S. filter (\<lambda>p. p \<in> S) [([7], 1), ([7], 2), ([8], 1)]), en_qcolor = (\<lambda>c. c),
     en_newUser = CPaintUser_default 0 0, en_newSlicer = sl_new 0 0 0 0, en_newTask = sample_task,
     en_newDouble = 0, en_newPaintData = new_paint_data, en_qt = sample_qt\<rparr>"

definition sample_start :: "files \<Rightarrow> paint_manager" where
  "sample_start fs = snd (initialize sample_env [65] (new_paint_manager sample_env fs))"

lemma sample_reachable:
  "pm_reachable sample_env fs [65] (snd (onAccepted sample_env (on_thread False (sample_start fs))))"
proof -
  have "pm_reachable sample_env fs [65] (sample_start fs)"
    unfolding sample_start_def by (rule pm_reachable.start)
  then show ?thesis
    by (rule pm_reachable.step [where ev = Net_accepted and r = "fst (onAccepted sample_env (on_thread False (sample_start fs)))"])
      (simp_all add: event_ok_def run_event_def)
qed

definition network_start :: paint_manager where
  "network_start = (new_paint_manager sample_env Map.empty)\<lparr>pm_mainThread := False\<rparr>"

lemma network_start_simps [simp]:
  "pm_mainThread network_start = False" "pm_queue network_start = []" "item_at (pm_cmd network_start) p = None"
  "pm_files network_start = Map.empty" "pm_sessionList network_start = []" "pm_sendInfo network_start = []"
  "pm_superPeerSession network_start = None" "pm_joinerMap network_start = []" "pm_PACKETID network_start = 0"
  by (simp_all add: network_start_def new_paint_manager_def startListenBroadCast_def split: prod.split)
    (simp add: new_cmd_mngr_def item_defs)

text \<open>C5: the table of the users who are online is sound whatever the network sends and the user
  does, in whatever order and on whichever thread: its keys are in strict order, every key is the id
  of the user object behind it, lookup by id finds exactly that object; the history of users holds no
  id twice, and lookup by id finds every object in it.\<close>

theorem users_table_sound:
  assumes "pm_reachable e fs uid s"
  shows "sorted_wrt (<) (map fst (pm_joinerMap s))
    \<and> (\<forall>u p. pm_findUser u s = Some p \<longleftrightarrow> (u, p) \<in> set (pm_joinerMap s))
    \<and> (\<forall>u p. pm_findUser u s = Some p \<longrightarrow> p < length (pm_users s) \<and> id_of p s = u)
    \<and> distinct (map (\<lambda>p. id_of p s) (pm_joinerHistory s))
    \<and> (\<forall>p \<in> set (pm_joinerHistory s). findHistoryUser (id_of p s) s = Some p)"
proof -
  have ok: "users_ok s" using reachable_ok [OF assms] by simp
  then have f: "pm_findUser u s = Some p \<longleftrightarrow> (u, p) \<in> set (pm_joinerMap s)" for u p
    unfolding pm_findUser_def by (intro std.find_entries) (simp add: users_ok_def)
  have h: "findHistoryUser (id_of p s) s = Some p" if p: "p \<in> set (pm_joinerHistory s)" for p
  proof (cases "findHistoryUser (id_of p s) s")
    case (Some q)
    with findHistoryUser_Some [OF Some] p ok show ?thesis
      unfolding users_ok_def distinct_map by (metis inj_onD)
  qed (use p findHistoryUser_None in blast)
  show ?thesis using ok f h by (auto simp: users_ok_def m_ok_def)
qed

theorem users_table_sound_witness:
  "sorted_wrt (<) (map fst (pm_joinerMap (snd (onAccepted sample_env (on_thread False (sample_start Map.empty))))))"
  using users_table_sound [OF sample_reachable] by blast

text \<open>C6: the tables through which the client reaches its sessions (the list of sessions, the session
  of the super peer and that of the relay server) name no session that has been deleted, no session is
  listed twice, and a new session gets a number that is not in use; the history of the drawing stays
  sound (its position is in the history, or -1, or -2 when it is empty, and the set of all items and the
  lists of the users hold the same items).  The counts of the bytes that are being sent also name
  sessions; nothing removes those of a deleted one, and they are only compared, never followed.\<close>

theorem sessions_table_sound:
  assumes "pm_reachable e fs uid s"
  shows "(\<forall>i. referenced i s \<longrightarrow> pm_sessions s i \<noteq> None) \<and> distinct (pm_sessionList s)
    \<and> pm_sessions s (pm_nextSession s) = None
    \<and> items_ok (pm_cmd s) \<and> - 2 \<le> cm_currentPlayPos (pm_cmd s)
    \<and> cm_currentPlayPos (pm_cmd s) < int (historyTaskCount (pm_cmd s))
    \<and> (cm_currentPlayPos (pm_cmd s) = - 2 \<longrightarrow> cm_historyTaskList (pm_cmd s) = [])"
  using reachable_ok [OF assms]
  by (auto simp: tables_ok_def sessions_ok_def cm_inv_def historyTaskCount_def)

theorem sessions_table_sound_witness:
  "distinct (pm_sessionList (snd (onAccepted sample_env (on_thread False (sample_start Map.empty)))))"
  using sessions_table_sound [OF sample_reachable] by blast

text \<open>C21: a file that is on the disk when the client starts is never changed: whatever packets,
  datagrams and drawings it receives, the file has the same content afterwards.\<close>

theorem received_data_keeps_files:
  assumes "pm_reachable e fs uid s" and "fs f = Some d"
  shows "pm_files s f = Some d"
  using reachable_ok [OF assms(1)] assms(2) by (auto simp: tables_ok_def map_le_def dom_def)


theorem received_data_keeps_files_witness:
  "pm_files (snd (onAccepted sample_env (on_thread False (sample_start [[66] \<mapsto> [1, 2]])))) [66] = Some [1, 2]"
  by (rule received_data_keeps_files [OF sample_reachable]) simp

end
