(* ===== verification/ManagerSending.thy ===== *)
theory ManagerSending
  imports ManagerRun
begin

text \<open>
  Where the packets of the client's manager go: which sessions get what is sent, how far sending has
  come, what is relayed, and what a session with another version does.
\<close>

section \<open>Who gets a packet\<close>

text \<open>All bytes a session has been given to send, on the wire or still waiting.\<close>

definition given :: "int \<Rightarrow> paint_manager \<Rightarrow> bytes" where
  "given i s = (case pm_sessions s i of
       None \<Rightarrow> []
     | Some p \<Rightarrow> concat (ps_wire (pa_peer p)) @ waiting (pa_peer p))"

definition writable :: "int \<Rightarrow> paint_manager \<Rightarrow> bool" where
  "writable i s \<longleftrightarrow> (\<exists>p. pm_sessions s i = Some p \<and> write_ok (pa_peer p))"

text \<open>One side only: the super peer, or else the sessions of this client, or else the server.\<close>

definition recipients :: "int \<Rightarrow> paint_manager \<Rightarrow> int list" where
  "recipients t s = filter (\<lambda>i. isconnected s i \<and> (t \<ge> 0 \<longrightarrow> i = t))
     (if connected_opt s (pm_superPeerSession s) then [the (pm_superPeerSession s)]
      else if pm_sessionList s \<noteq> [] then pm_sessionList s
      else if connected_opt s (pm_relayServerSession s) then [the (pm_relayServerSession s)]
      else [])"

lemma on_peer_send:
  assumes "writable i s"
  obtains s' where "on_peer i (ps_sendPacket (new_net_packet k msg)) s = (Inr (), s')"
    and "given i s' = given i s @ msg" and "\<And>j. j \<noteq> i \<Longrightarrow> given j s' = given j s"
    and "\<And>j. writable j s' = writable j s" and "pm_sessionList s' = pm_sessionList s"
proof -
  obtain p where p: "pm_sessions s i = Some p" "write_ok (pa_peer p)"
    using assms by (auto simp: writable_def)
  from ps_sendPacket_ok [OF p(2), of k msg] obtain q where
    q: "ps_sendPacket (new_net_packet k msg) (pa_peer p) = (Inr (), q)" "write_ok q"
      "concat (ps_wire q) @ waiting q = concat (ps_wire (pa_peer p)) @ waiting (pa_peer p) @ msg" by blast
  show thesis
    by (rule that [of "s\<lparr>pm_sessions := (pm_sessions s)(i \<mapsto> p\<lparr>pa_peer := q\<rparr>)\<rparr>"])
      (use p q in \<open>auto simp: on_peer_def given_def writable_def\<close>)
qed

lemma send_all_ok:
  assumes "distinct ids" and "\<forall>i\<in>set ids. writable i s"
  shows "\<exists>s'. send_all ids k msg s = (Inr (), s')
    \<and> (\<forall>i. given i s' = (if i \<in> set ids then given i s @ msg else given i s))"
proof -
  have "\<exists>us s'. mapS (\<lambda>i. on_peer i (ps_sendPacket (new_net_packet k msg))) ids s = (Inr us, s')
    \<and> (\<forall>i. given i s' = (if i \<in> set ids then given i s @ msg else given i s))"
    using assms
  proof (induction ids arbitrary: s)
    case (Cons i ids)
    then have "writable i s" by simp
    then obtain s1 where s1: "on_peer i (ps_sendPacket (new_net_packet k msg)) s = (Inr (), s1)"
      "given i s1 = given i s @ msg" "\<And>j. j \<noteq> i \<Longrightarrow> given j s1 = given j s" "\<And>j. writable j s1 = writable j s"
      using on_peer_send [where k = k and msg = msg] by metis
    from Cons.IH [of s1] Cons.prems s1(4) obtain us s2 where
      "mapS (\<lambda>i. on_peer i (ps_sendPacket (new_net_packet k msg))) ids s1 = (Inr us, s2)"
      "\<forall>j. given j s2 = (if j \<in> set ids then given j s1 @ msg else given j s1)" by auto
    moreover have "given j s1 = (if j = i then given i s @ msg else given j s)" for j using s1 by simp
    ultimately show ?case using s1(1) Cons.prems(1) by (auto simp: bindS_def)
  qed simp
  then show ?thesis by (auto simp: send_all_def bindS_def)
qed

lemma given_updates [simp]:
  "given i (s\<lparr>pm_PACKETID := a\<rparr>) = given i s" "given i (s\<lparr>pm_sendInfo := b\<rparr>) = given i s"
  "given i (s\<lparr>pm_lastPacketId := a\<rparr>) = given i s"
  "writable i (s\<lparr>pm_PACKETID := a\<rparr>) = writable i s" "writable i (s\<lparr>pm_sendInfo := b\<rparr>) = writable i s"
  "writable i (s\<lparr>pm_lastPacketId := a\<rparr>) = writable i s"
  by (simp_all add: given_def writable_def)

lemma sendDataToSessions_ok:
  assumes "distinct ids"
    and "ids' = filter (\<lambda>i. isconnected s i \<and> (t \<ge> 0 \<longrightarrow> i = t)) ids" and "\<forall>i\<in>set ids'. writable i s"
  shows "\<exists>s'. sendDataToSessions ids msg t s = (Inr (if ids' = [] then - 1 else pm_PACKETID s + 1), s')
    \<and> (\<forall>i. given i s' = (if i \<in> set ids' then given i s @ msg else given i s))"
proof -
  have f: "filter (\<lambda>i. isconnected s i \<and> \<not> (t \<ge> 0 \<and> i \<noteq> t)) ids = ids'"
    unfolding assms(2) by (rule filter_cong) auto
  show ?thesis
  proof (cases "ids' = []")
    case True
    then show ?thesis unfolding sendDataToSessions_def Let_def f by simp
  next
    case False
    define s1 where "s1 = s\<lparr>pm_PACKETID := pm_PACKETID s + 1, pm_sendInfo :=
        (if m_find (pm_PACKETID s + 1) (pm_sendInfo s) = None
         then m_put (pm_PACKETID s + 1) (map (\<lambda>i. \<lparr>si_session = i, si_wroteBytes = 0,
           si_totalBytes = int (length msg)\<rparr>) ids') (pm_sendInfo s) else pm_sendInfo s),
        pm_lastPacketId := pm_PACKETID s + 1\<rparr>"
    have s1: "given i s1 = given i s" "writable i s1 = writable i s" for i by (simp_all add: s1_def)
    have "distinct ids'" using assms(1,2) by simp
    with s1 send_all_ok [of ids' s1 "pm_PACKETID s + 1" msg] assms(3) obtain s' where
      s': "send_all ids' (pm_PACKETID s + 1) msg s1 = (Inr (), s')"
        "\<forall>i. given i s' = (if i \<in> set ids' then given i s @ msg else given i s)" by auto
    have "sendDataToSessions ids msg t s = bindS (send_all ids' (pm_PACKETID s + 1) msg)
        (\<lambda>u. returnS (pm_PACKETID s + 1)) s1"
      using False unfolding sendDataToSessions_def Let_def f by (simp add: s1_def)
    with s' False show ?thesis by (simp add: bindS_def)
  qed
qed

text \<open>C20: what the user draws goes to one side only and to everyone there: to the super peer when one
  is connected, otherwise to every connected session of this client's own (to the one it is meant
  for when it names one), otherwise to the server; every other session is left alone.  The result is
  a new packet number, or -1 when nobody gets it.\<close>

theorem packets_go_to_one_side:
  assumes "distinct (pm_sessionList s)" and "\<forall>i\<in>set (recipients t s). writable i s"
  shows "\<exists>s'. sendDataToUsers_to msg t s
      = (Inr (if recipients t s = [] then - 1 else pm_PACKETID s + 1), s')
    \<and> (\<forall>i. given i s' = (if i \<in> set (recipients t s) then given i s @ msg else given i s))"
proof -
  let ?ids = "if connected_opt s (pm_superPeerSession s) then [the (pm_superPeerSession s)]
      else if pm_sessionList s \<noteq> [] then pm_sessionList s
      else if connected_opt s (pm_relayServerSession s) then [the (pm_relayServerSession s)]
      else []"
  have d: "distinct ?ids" using assms(1) by simp
  have "sendDataToUsers_to msg t s = (if ?ids = [] then (Inr (- 1), s) else sendDataToSessions ?ids msg t s)"
    by (simp add: sendDataToUsers_to_def)
  with sendDataToSessions_ok [OF d, of "recipients t s" s t msg] assms(2) show ?thesis
    by (cases "?ids = []") (auto simp: recipients_def)
qed


text \<open>Two connected sessions and one that is not.\<close>

definition three_sessions :: paint_manager where
  "three_sessions = network_start\<lparr>pm_sessionList := [1, 2, 3],
     pm_sessions := [1 \<mapsto> \<lparr>pa_peer = sample_session, pa_slicer = sl_new 0 0 0 0\<rparr>,
       2 \<mapsto> \<lparr>pa_peer = sample_session, pa_slicer = sl_new 0 0 0 0\<rparr>,
       3 \<mapsto> \<lparr>pa_peer = new_peer_session 3, pa_slicer = sl_new 0 0 0 0\<rparr>]\<rparr>"

lemma three_sessions_facts:
  "pm_sessionList three_sessions = [1, 2, 3]" "isconnected three_sessions 1" "isconnected three_sessions 2"
  "\<not> isconnected three_sessions 3" "writable 1 three_sessions" "writable 2 three_sessions"
  "given 1 three_sessions = []" "given 2 three_sessions = []" "given 3 three_sessions = []"
  "pm_PACKETID three_sessions = 0"
  by (simp_all add: three_sessions_def isconnected_def ps_isConnected_def sample_session_def new_peer_session_def
      writable_def write_ok_def given_def)

lemma three_sessions_recipients: "recipients (- 1) three_sessions = [1, 2]"
proof -
  have "\<not> connected_opt three_sessions (pm_superPeerSession three_sessions)"
    by (simp add: three_sessions_def connected_opt_def)
  then show ?thesis by (simp add: recipients_def three_sessions_facts)
qed

theorem packets_go_to_one_side_witness:
  "\<exists>s'. sendDataToUsers_to [7, 8] (- 1) three_sessions = (Inr 1, s')
    \<and> given 1 s' = [7, 8] \<and> given 2 s' = [7, 8] \<and> given 3 s' = []"
  using packets_go_to_one_side [of three_sessions "- 1" "[7, 8]"]
  by (auto simp: three_sessions_recipients three_sessions_facts)

section \<open>How far sending has come\<close>

text \<open>No session has been written more than the packet has, and something is missing somewhere.\<close>

definition send_info_ok :: "send_byte_info list \<Rightarrow> bool" where
  "send_info_ok ds \<longleftrightarrow> distinct (map si_session ds)
     \<and> (\<forall>d\<in>set ds. 0 \<le> si_wroteBytes d \<and> si_wroteBytes d \<le> si_totalBytes d)"

definition sent_all :: "send_byte_info list \<Rightarrow> bool" where
  "sent_all ds \<longleftrightarrow> (\<forall>d\<in>set ds. si_wroteBytes d = si_totalBytes d)"

lemma set_wrote_eq:
  "distinct (map si_session ds) \<Longrightarrow>
   set_wrote i n ds = map (\<lambda>d. if si_session d = i then d\<lparr>si_wroteBytes := n\<rparr> else d) ds"
proof (induction ds)
  case (Cons d ds)
  show ?case
  proof (cases "si_session d = i")
    case True
    with Cons.prems have "si_session x \<noteq> i" if "x \<in> set ds" for x using that by (metis distinct.simps(2) imageI list.map(2) set_map)
    then have "map (\<lambda>d. if si_session d = i then d\<lparr>si_wroteBytes := n\<rparr> else d) ds = ds"
      by (intro map_idI) simp
    with True show ?thesis by simp
  qed (use Cons in simp)
qed simp

lemma sums_le:
  "\<forall>d\<in>set ds. 0 \<le> si_wroteBytes d \<and> si_wroteBytes d \<le> si_totalBytes d \<Longrightarrow>
   sum_list (map si_wroteBytes ds) \<le> sum_list (map si_totalBytes ds)
   \<and> (sum_list (map si_totalBytes ds) \<le> sum_list (map si_wroteBytes ds) \<longleftrightarrow> sent_all ds)"
  by (induction ds) (auto simp: sent_all_def)

text \<open>The progress of a packet.  When a session reports that it has written a part of a packet,
  its number of bytes becomes what has left its buffer, the numbers of the other sessions stay, the
  sum the user is shown never exceeds the total, and the entry of the packet is dropped exactly when
  every session has written all of it; no other packet's entry changes.\<close>

lemma progress_is_exact:
  assumes "m_find k (pm_sendInfo s) = Some ds" and "send_info_ok ds" and "np_packetId p = k" and "0 \<le> k"
    and "pb_wf (np_buffer p)"
    and "\<forall>d\<in>set ds. si_session d = i \<longrightarrow> si_totalBytes d = int (pb_totalSize (np_buffer p))"
  shows "\<exists>ds' w t. ds' = map (\<lambda>d. if si_session d = i then d\<lparr>si_wroteBytes :=
          int (pb_totalSize (np_buffer p)) - int (length (pb_pending (np_buffer p)))\<rparr> else d) ds
    \<and> send_info_ok ds' \<and> w = sum_list (map si_wroteBytes ds') \<and> t = sum_list (map si_totalBytes ds')
    \<and> 0 \<le> w \<and> w \<le> t
    \<and> onSendingPacket e i p s = perform e (Ob_SendingPacket k w t) (s\<lparr>pm_sendInfo :=
        (if sent_all ds' then m_erase k (m_put k ds' (pm_sendInfo s)) else m_put k ds' (pm_sendInfo s))\<rparr>)
    \<and> (\<forall>j. j \<noteq> k \<longrightarrow> m_find j (if sent_all ds' then m_erase k (m_put k ds' (pm_sendInfo s))
         else m_put k ds' (pm_sendInfo s)) = m_find j (pm_sendInfo s))"
proof -
  let ?n = "int (pb_totalSize (np_buffer p)) - int (length (pb_pending (np_buffer p)))"
  define ds' where "ds' = map (\<lambda>d. if si_session d = i then d\<lparr>si_wroteBytes := ?n\<rparr> else d) ds"
  have rem: "int (pb_remainingSize (np_buffer p)) = int (length (pb_pending (np_buffer p)))"
    using assms(5) by (simp add: pb.remaining_eq)
  have n: "0 \<le> ?n" "?n \<le> int (pb_totalSize (np_buffer p))"
    using assms(5) by (auto simp: pb_wf_def pb_pending_def pb_totalSize_def)
  have eq: "set_wrote i ?n ds = ds'"
    using assms(2) unfolding ds'_def send_info_ok_def by (intro set_wrote_eq) simp
  have ok: "send_info_ok ds'"
    using assms(2,6) n unfolding ds'_def send_info_ok_def by (auto simp: o_def if_distrib cong: map_cong if_cong)
  have le: "sum_list (map si_wroteBytes ds') \<le> sum_list (map si_totalBytes ds')"
    "sum_list (map si_totalBytes ds') \<le> sum_list (map si_wroteBytes ds') \<longleftrightarrow> sent_all ds'"
    using sums_le [of ds'] ok by (simp_all add: send_info_ok_def)
  have ge: "0 \<le> sum_list (map si_wroteBytes ds')"
    using ok by (intro sum_list_nonneg) (auto simp: send_info_ok_def)
  have "onSendingPacket e i p s = perform e (Ob_SendingPacket k (sum_list (map si_wroteBytes ds'))
      (sum_list (map si_totalBytes ds'))) (s\<lparr>pm_sendInfo :=
        (if sent_all ds' then m_erase k (m_put k ds' (pm_sendInfo s)) else m_put k ds' (pm_sendInfo s))\<rparr>)"
    using assms(1,3,4) by (simp add: onSendingPacket_def Let_def rem eq le(2))
  then show ?thesis
    using ok le(1) ge by (auto simp: ds'_def [symmetric] std.find_put std.find_erase)
qed

definition sample_infos :: "send_byte_info list" where
  "sample_infos = [\<lparr>si_session = 1, si_wroteBytes = 0, si_totalBytes = 2\<rparr>,
     \<lparr>si_session = 2, si_wroteBytes = 1, si_totalBytes = 2\<rparr>]"

section \<open>Relaying\<close>

lemma code_num_less_32: "code_num c < 32"
  using index_of_nth [OF pcodes_all [of c]] by (simp add: code_num_def pcodes_def)

lemma code_word_inj [simp]: "(code_word c = code_word d) = (c = d)"
proof
  assume "code_word c = code_word d"
  then have "unat (code_word c) = unat (code_word d)" by simp
  then show "c = d" using code_num_less_32 [of c] code_num_less_32 [of d]
    by (simp add: unat_of_nat code_num_inj)
qed simp

lemma handler_rules:
  "pd_code d = code_word CODE_SCREENSHARE_CHANGE_RECORD_STATUS \<Longrightarrow> handler_of e x d = dispatch_CHANGE_RECORD_STATUS e d"
  "pd_code d = code_word CODE_SCREENSHARE_CHANGE_SHOW_STREAM \<Longrightarrow> handler_of e x d = dispatch_CHANGE_SHOW_STREAM e d"
  "pd_code d = code_word CODE_SCREENSHARE_RES_SHOW_STREAM \<Longrightarrow> handler_of e x d = dispatch_RES_SHOW_STREAM e d"
  by (simp_all add: handler_of_def)

text \<open>A client that stands between others passes every packet on to each of its other connected
  sessions, once, and not back to where it came from; but it makes the packet anew with the code and
  the body only: the sender and the receiver are lost, and a status of the sender's screen means
  nothing to who gets it.\<close>

lemma relay_loses_the_sender:
  assumes "distinct (pm_sessionList s)" and "length (pm_sessionList s) > 1" and "pkt_ok d"
    and "\<forall>j\<in>set (pm_sessionList s). isconnected s j \<longrightarrow> writable j s"
  shows "(\<exists>s'. relay_others i d s = (Inr (), s')
      \<and> (\<forall>j. given j s' = (if j \<in> set (pm_sessionList s) \<and> j \<noteq> i \<and> isconnected s j
            then given j s @ pkt_bytes (d\<lparr>pd_fromId := [], pd_toId := []\<rparr>) else given j s)))
    \<and> (pd_code d \<in> {code_word CODE_SCREENSHARE_CHANGE_RECORD_STATUS, code_word CODE_SCREENSHARE_CHANGE_SHOW_STREAM,
          code_word CODE_SCREENSHARE_RES_SHOW_STREAM} \<longrightarrow>
       pm_findUser [] s2 = None \<longrightarrow>
       dispatchPaintPacket e x (d\<lparr>pd_fromId := [], pd_toId := []\<rparr>) s2 = Some (Inr True, s2))"
proof
  let ?d = "d\<lparr>pd_fromId := [], pd_toId := []\<rparr>"
  let ?ids = "filter (\<lambda>j. isconnected s j \<and> (- 1 \<ge> (0 :: int) \<longrightarrow> j = - 1)) (remove1 i (pm_sessionList s))"
  have "or_empty (makePacket (pd_code d) (pd_body d) None None) = pkt_bytes ?d"
    using makePacket_bytes [of None None "pd_code d" "pd_body d"] by (simp add: or_empty_def fits8_def pkt_bytes_def)
  moreover have "distinct (remove1 i (pm_sessionList s))" using assms(1) by simp
  moreover have "\<forall>j\<in>set ?ids. writable j s" using assms(1,4) by auto
  ultimately show "\<exists>s'. relay_others i d s = (Inr (), s')
      \<and> (\<forall>j. given j s' = (if j \<in> set (pm_sessionList s) \<and> j \<noteq> i \<and> isconnected s j
            then given j s @ pkt_bytes ?d else given j s))"
    using sendDataToSessions_ok [of "remove1 i (pm_sessionList s)" ?ids s "- 1" "pkt_bytes ?d"] assms(1,2)
    by (auto simp: relay_others_def bindS_def)
  show "pd_code d \<in> {code_word CODE_SCREENSHARE_CHANGE_RECORD_STATUS, code_word CODE_SCREENSHARE_CHANGE_SHOW_STREAM,
          code_word CODE_SCREENSHARE_RES_SHOW_STREAM} \<longrightarrow> pm_findUser [] s2 = None \<longrightarrow>
       dispatchPaintPacket e x ?d s2 = Some (Inr True, s2)"
    by (auto simp: dispatchPaintPacket_def handler_rules always_def thenS_def bindS_def Let_def
        dispatch_CHANGE_RECORD_STATUS_def dispatch_CHANGE_SHOW_STREAM_def dispatch_RES_SHOW_STREAM_def
        split: prod.splits)
qed


end
