(* ===== verification/ManagerFaults.thy ===== *)
theory ManagerFaults
  imports ManagerSending
begin

text \<open>
  Where connections end and where the two threads meet: the search for a port, reconnecting, a peer
  of another version, and a screen that is cleared while items arrive.
\<close>

section \<open>Listening\<close>

text \<open>A socket stays open when it cannot be bound, and an open socket is not opened again.\<close>

lemma listen_open_never: "us_open u \<Longrightarrow> listen_loop e port u = None"
proof (rule ccontr)
  assume "us_open u" and "listen_loop e port u \<noteq> None"
  then obtain x where "listen_loop e port u = Some x" by auto
  then have "us_open u \<longrightarrow> False"
  proof (induction rule: listen_loop.raw_induct [rotated 1, consumes 1])
    case (1 f e port u x)
    then show ?case by (auto simp: us_listen_def us_opening_def split: prod.splits if_splits)
  qed
  with \<open>us_open u\<close> show False by simp
qed

lemma listen_closed_never: "\<not> en_udpOpen e \<Longrightarrow> listen_loop e port u = None"
proof (rule ccontr)
  assume "\<not> en_udpOpen e" and "listen_loop e port u \<noteq> None"
  then obtain x where "listen_loop e port u = Some x" by auto
  then have "\<not> en_udpOpen e \<longrightarrow> False"
  proof (induction rule: listen_loop.raw_induct [rotated 1, consumes 1])
    case (1 f e port u x)
    then show ?case by (auto simp: us_listen_def us_opening_def split: prod.splits if_splits)
  qed
  with \<open>\<not> en_udpOpen e\<close> show False by simp
qed

text \<open>C38: the search for a free UDP port tries one port only.  It returns exactly when the socket can
  be opened and the first port is free, with that port; when the first port is taken the loop never
  ends, however many other ports are free.\<close>

theorem listen_tries_one_port:
  "listen_loop e port u =
     (if \<not> us_open u \<and> en_udpOpen e \<and> en_udpBind e port
      then Some (port, u\<lparr>us_open := True, us_receiving := True\<rparr>) else None)"
proof (cases "us_open u \<or> \<not> en_udpOpen e")
  case True
  then show ?thesis using listen_open_never listen_closed_never by auto
next
  case False
  then show ?thesis
    by (subst listen_loop.simps) (auto simp: us_listen_def us_opening_def listen_open_never)
qed

section \<open>Reconnecting\<close>

text \<open>A lost connection to the server is tried again at most three times: however often the
  connection ends or fails before one succeeds, the number of reconnections that are scheduled is
  what is left of three, and for other sessions none is.\<close>

lemma reconnects_three_times:
  "int (length (pm_timers (((\<lambda>s. snd (tryReconnectToRelayServer x s)) ^^ n) s)))
   = int (length (pm_timers s)) +
     (case x of
        Some i \<Rightarrow> if isRelayServerSession i s then max 0 (min (int n) (3 - pm_retryCount s)) else 0
      | None \<Rightarrow> max 0 (min (int n) (3 - pm_retryCount s)))"
proof -
  let ?f = "\<lambda>s. snd (tryReconnectToRelayServer x s)"
  let ?on = "\<lambda>s. case x of None \<Rightarrow> True | Some i \<Rightarrow> isRelayServerSession i s"
  have step: "?on (?f s) = ?on s" "?on s \<Longrightarrow> pm_retryCount (?f s) = pm_retryCount s + 1"
    "\<not> ?on s \<Longrightarrow> ?f s = s"
    "?on s \<Longrightarrow> length (pm_timers (?f s)) = length (pm_timers s) + (if pm_retryCount s < 3 then 1 else 0)" for s
    by (auto simp: tryReconnectToRelayServer_def Let_def isRelayServerSession_def DEFAULT_RECONNECT_TRY_COUNT_def
        split: option.splits)
  have "?on s \<Longrightarrow> int (length (pm_timers ((?f ^^ n) s)))
      = int (length (pm_timers s)) + max 0 (min (int n) (3 - pm_retryCount s))" for s
  proof (induction n arbitrary: s)
    case (Suc n)
    have "(?f ^^ Suc n) s = (?f ^^ n) (?f s)" by (simp only: funpow_Suc_right o_apply)
    with Suc.IH [of "?f s"] Suc.prems step(1,2,4) [of s] show ?case by (auto split: if_splits)
  qed simp
  moreover have "\<not> ?on s \<Longrightarrow> (?f ^^ n) s = s"
    by (induction n) (simp_all add: step(3))
  ultimately show ?thesis by (auto split: option.splits)
qed

section \<open>A screen that is cleared while items arrive\<close>

lemma item_at_events [simp]: "item_at (c\<lparr>cm_events := es\<rparr>) p = item_at c p"
  by (simp add: item_defs)

lemma on_cmd_addHistoryItem:
  assumes "\<not> pm_mainThread s"
  obtains s' where "on_cmd e (\<lambda>c. (Inr (), addHistoryItem it c)) s = (Inr (), s')"
    and "pm_cmd s' = (addHistoryItem it ((pm_cmd s)\<lparr>cm_events := []\<rparr>))\<lparr>cm_events := []\<rparr>"
    and "pm_queue s' = pm_queue s"
proof -
  let ?c = "addHistoryItem it ((pm_cmd s)\<lparr>cm_events := []\<rparr>)"
  have "cm_events ?c = [] \<or> cm_events ?c = [ShowErrorMessage (ptr_of it)]"
    by (auto simp: addHistoryItem_def Let_def fire_def split: prod.split bool.split)
  then show thesis
    using assms that
    by (auto simp: on_cmd_def bindS_def handle_event_def call_of_def of_history_def)
qed

text \<open>C35: an item that arrives right after the screen has been cleared is lost.  The network thread
  leaves clearing to the main thread but adds the item to the history itself; when the main thread
  comes to clear, the newer item goes with the rest, though its sender still has it.\<close>

theorem late_clear_erases_newer_item:
  assumes "\<not> pm_mainThread s" and "pm_queue s = []"
    and "pd_code d1 = code_word CODE_PAINT_CLEAR_SCREEN" and "pd_code d2 = code_word CODE_PAINT_CREATE_ITEM"
    and "parse_CreateItem (en_qt e) (pm_files s) (pd_body d2) = Inr (Some (Some it, fs))"
    and "item_at (pm_cmd s) (ptr_of it) = None"
  shows "\<exists>s1 s2. dispatchPaintPacket e x d1 s = Some (Inr True, s1)
    \<and> dispatchPaintPacket e x d2 s1 = Some (Inr True, s2)
    \<and> item_at (pm_cmd s2) (ptr_of it) = Some it
    \<and> (\<forall>p. item_at (pm_cmd (snd (main_step e s2))) p = None)"
proof -
  let ?s1 = "s\<lparr>pm_queue := [D_fire Ob_ClearScreen]\<rparr>"
  have 1: "dispatchPaintPacket e x d1 s = Some (Inr True, ?s1)"
    using assms(1-3) by (simp add: dispatchPaintPacket_def handler_of_def always_def thenS_def bindS_def
        dispatch_CLEAR_SCREEN_def perform_def)
  have n: "\<not> pm_mainThread (?s1\<lparr>pm_files := fs\<rparr>)" using assms(1) by simp
  from on_cmd_addHistoryItem [OF n, of e it] obtain s2 where
    s2: "on_cmd e (\<lambda>c. (Inr (), addHistoryItem it c)) (?s1\<lparr>pm_files := fs\<rparr>) = (Inr (), s2)"
      "pm_cmd s2 = (addHistoryItem it ((pm_cmd s)\<lparr>cm_events := []\<rparr>))\<lparr>cm_events := []\<rparr>"
      "pm_queue s2 = [D_fire Ob_ClearScreen]" by auto
  have 2: "dispatchPaintPacket e x d2 ?s1 = Some (Inr True, s2)"
    using assms(4,5) s2(1) by (simp add: dispatchPaintPacket_def dispatch_CREATE_ITEM_def)
  have 3: "item_at (pm_cmd s2) (ptr_of it) = Some it"
    using assms(6) by (simp add: s2(2) item_at_addHistoryItem)
  have 4: "item_at (pm_cmd (snd (main_step e s2))) p = None" for p
    by (simp add: main_step_def s2(3) run_deferred_def fireObserver_def fireObserver_ClearScreen_def
        clearAllItems_def clearAllHistoryUsers_def thenS_def bindS_def assertS_def notify_def
        cm_clear_def clearHistoryItem_def clearHistoryTask_def clearHistoryCommand_def)
      (simp add: item_defs)
  from 1 2 3 4 show ?thesis by blast
qed


definition sample_body :: bytes where
  "sample_body = enc_int16 (item_type_num (item_type sample_line)) @ enc_basic (it_data sample_line)
     @ enc_line [(1, 2), (3, 4)] \<lparr>c_red = 10, c_green = 20, c_blue = 30, c_alpha = 255\<rparr> 7"

lemma sample_body_parsed: "\<exists>it. parse_CreateItem sample_qt fs sample_body = Inr (Some (Some it, fs))"
proof -
  have "serialize_item sample_qt Map.empty sample_line = Inr (enc_basic (it_data sample_line)
     @ enc_line [(1, 2), (3, 4)] \<lparr>c_red = 10, c_green = 20, c_blue = 30, c_alpha = 255\<rparr> 7)"
    using line_roundtrip(1) [OF sample_line_ok refl refl] by (simp add: serialize_item_def sample_line_content)
  moreover have "ok_item sample_qt sample_line" "item_type sample_line \<noteq> PT_BG_IMAGE"
    by (simp_all add: ok_item_def sample_line_ok sample_line_content item_type_def)
  moreover have "qt_carries sample_qt sample_line"
    by (simp add: qt_carries_def sample_line_content) (simp add: sample_qt_def)
  ultimately show ?thesis using parse_created_item by (fastforce simp: sample_body_def)
qed

theorem late_clear_erases_newer_item_witness:
  "\<exists>it s2. item_at (pm_cmd s2) (ptr_of it) = Some it \<and> item_at (pm_cmd (snd (main_step sample_env s2))) (ptr_of it) = None"
proof -
  obtain it where it: "parse_CreateItem sample_qt Map.empty sample_body = Inr (Some (Some it, Map.empty))"
    using sample_body_parsed by blast
  let ?d1 = "packet CODE_PAINT_CLEAR_SCREEN None None []" and ?d2 = "packet CODE_PAINT_CREATE_ITEM None None sample_body"
  have "\<exists>s1 s2. dispatchPaintPacket sample_env None ?d1 network_start = Some (Inr True, s1)
    \<and> dispatchPaintPacket sample_env None ?d2 s1 = Some (Inr True, s2)
    \<and> item_at (pm_cmd s2) (ptr_of it) = Some it
    \<and> (\<forall>p. item_at (pm_cmd (snd (main_step sample_env s2))) p = None)"
    by (rule late_clear_erases_newer_item [where fs = Map.empty])
      (simp_all add: packet_def it, simp add: sample_env_def it)
  then show ?thesis by blast
qed

section \<open>A peer of another version\<close>

text \<open>A client on the network thread with no session in its tables: closing one cannot fail.\<close>

definition lonely :: "paint_manager \<Rightarrow> bool" where
  "lonely s \<longleftrightarrow> \<not> pm_mainThread s \<and> pm_sessionList s = [] \<and> pm_superPeerSession s = None
     \<and> pm_relayServerSession s = None"

lemma lonely_end:
  assumes "lonely s"
  shows "\<exists>s'. handle_end e i ev s = (Inr (), s') \<and> lonely s'"
proof -
  have conn: "\<not> isConnected s'" "isAlwaysP2PMode s'" "\<not> isRelayServerSession i s'" if "lonely s'" for s'
    using that by (simp_all add: lonely_def isConnected_def connected_opt_def isAlwaysP2PMode_def isRelayServerSession_def)
  have per: "perform e c s' = (Inr (), s'\<lparr>pm_queue := pm_queue s' @ [D_fire c]\<rparr>)" if "lonely s'" for s' c
    using that by (simp add: perform_def lonely_def)
  have snd: "sendDataToUsers_unit msg s' = (Inr (), s')" if "lonely s'" for msg s'
    using that by (simp add: sendDataToUsers_unit_def sendDataToUsers_def sendDataToUsers_to_def connected_opt_def
        lonely_def bindS_def)
  have upd: "lonely (s'\<lparr>pm_queue := q\<rparr>) = lonely s'" "lonely (s'\<lparr>pm_joinerMap := m\<rparr>) = lonely s'"
    "lonely (s'\<lparr>pm_udpSessionMap := u\<rparr>) = lonely s'" for s' q m u
    by (simp_all add: lonely_def)
  have "\<exists>s'. onDisconnected e i s = (Inr (), s') \<and> lonely s'"
    using assms
    by (auto simp: onDisconnected_def thenS_def bindS_def whenS_def tryReconnectToRelayServer_def conn per snd upd
        removeUser_def removeUdpStreamSession_def removeSession_def performAlwaysDeffered_def
        notifyRemoveUserInfo_def Let_def split: option.split)
  moreover have "\<exists>s'. onConnectFailed e i s = (Inr (), s') \<and> lonely s'"
    using assms
    by (auto simp: onConnectFailed_def thenS_def bindS_def whenS_def tryReconnectToRelayServer_def conn upd
        removeSession_def performAlwaysDeffered_def)
  ultimately show ?thesis
    using assms by (auto simp: handle_end_def split: net_event.split)
qed

lemma lonely_close:
  assumes "lonely s" and "pm_sessions s i \<noteq> None"
  shows "\<exists>s'. close_session e i s = (Inr (), s') \<and> lonely s'"
proof -
  obtain p where p: "pm_sessions s i = Some p" using assms(2) by auto
  let ?s1 = "s\<lparr>pm_sessions := (pm_sessions s)(i \<mapsto> p\<lparr>pa_peer := ps_close (pa_peer p)\<rparr>)\<rparr>"
  obtain evs s2 where s2: "take_fired i ?s1 = (evs, s2)" by fastforce
  then have l2: "lonely s2" using assms(1) by (auto simp: take_fired_def lonely_def)
  have "\<exists>us s'. mapS (handle_end e i) evs s2 = (Inr us, s') \<and> lonely s'" if "lonely s2" for evs s2
    using that
  proof (induction evs arbitrary: s2)
    case (Cons ev evs)
    from lonely_end [OF Cons.prems, of e i ev] obtain s3 where s3: "handle_end e i ev s2 = (Inr (), s3)" "lonely s3"
      by blast
    from Cons.IH [OF s3(2)] s3(1) show ?case by (auto simp: bindS_def)
  qed simp
  from this [OF l2, of evs] show ?thesis
    using p s2 by (auto simp: close_session_def thenS_def bindS_def on_peer_def ends_def)
qed

text \<open>A server that speaks another version makes the client use memory it has freed.  Handling the
  version clears the sessions, which deletes the very session whose packets are being handled; the
  loop over these packets goes on with it.\<close>

lemma version_mismatch_frees_session_in_use:
  assumes "\<not> pm_mainThread s" and "pm_relayServerSession s = Some i" and "pm_superPeerSession s = None"
    and "pm_sessionList s = []" and "isconnected s i"
    and "pd_code d = code_word CODE_SYSTEM_VERSION_INFO"
    and "parse_VersionInfo (pd_body d) ([], []) = (True, v, pv)"
    and "compareVersion PROTOCOL_VERSION_TEXT pv = Some c" and "c \<noteq> 0"
  shows "\<exists>s'. packet_loop e i (d # ds) s = Some (Inl BufferOverread, s') \<and> pm_sessions s' i = None"
proof -
  let ?s1 = "s\<lparr>pm_relayServerSession := None\<rparr>"
  have ex: "pm_sessions s i \<noteq> None" using assms(5) by (auto simp: isconnected_def split: option.splits)
  have l1: "lonely ?s1" using assms(1,3,4) by (simp add: lonely_def)
  with ex lonely_close [of ?s1 i e] obtain s2 where s2: "close_session e i ?s1 = (Inr (), s2)" "lonely s2" by auto
  let ?s3 = "s2\<lparr>pm_sessions := (pm_sessions s2)(i := None)\<rparr>"
  have "release e (Some i) ?s1 = (Inr (), ?s3)"
    using s2 ex l1 by (auto simp: release_def referenced_def lonely_def thenS_def bindS_def)
  moreover have "set_superPeerSession e None s = (Inr (), s)"
    using assms(3) by (simp add: set_superPeerSession_def release_def)
  ultimately have clear: "clearAllSessions e s = (Inr (), ?s3)"
    using assms(2) s2(2) by (simp add: clearAllSessions_def thenS_def bindS_def set_relayServerSession_def lonely_def)
  let ?calls = "[D_close, D_fire (Ob_VersionError (VERSION_ERROR @ pv @ VERSION_DIFFERS @ PROTOCOL_VERSION_TEXT))]"
  have "dispatchPaintPacket e (Some i) d s = Some (Inr False, ?s3\<lparr>pm_queue := pm_queue s2 @ ?calls\<rparr>)"
    using assms(6-9) clear s2(2)
    by (simp add: dispatchPaintPacket_def dispatch_VERSION_INFO_def thenS_def bindS_def perform_close_def perform_def
        lonely_def)
  then have "onReceivedPacket e i d s =
      Some (Inr (), ?s3\<lparr>pm_queue := pm_queue s2 @ ?calls @ [D_fire Ob_ReceivedPacket]\<rparr>)"
    using s2(2) by (simp add: onReceivedPacket_def thenO_def thenS_def bindS_def perform_def relay_others_def lonely_def)
  then show ?thesis
    using ex assms(5) by (cases ds) (auto simp: thenO_def)
qed


end
