(* ===== verification/ManagerDrawing.thy ===== *)
theory ManagerDrawing
  imports ManagerFaults
begin

text \<open>
  Saving a drawing and loading it again: \<^verbatim>\<open>serializeData\<close> makes the packets, \<^verbatim>\<open>deserializeData\<close> takes
  them apart and dispatches them.  The first part says what one packet of each kind does on the main
  thread, the second that the packets arrive, the third puts them together.
\<close>

section \<open>What the screen shows\<close>

text \<open>The observers' screen after all they have been told, and the data of the items.\<close>

fun draw_call :: "observer_call \<Rightarrow> screen \<Rightarrow> screen" where
  "draw_call (Ob_AddPaintItem p) sc = draw (AddPaintItem p) sc"
| "draw_call (Ob_RemovePaintItem p) sc = draw (RemovePaintItem p) sc"
| "draw_call (Ob_MovePaintItem p x y) sc = draw (MovePaintItem p x y) sc"
| "draw_call Canvas_clearScreen sc = blank"
| "draw_call c sc = sc"

definition pm_screen :: "paint_manager \<Rightarrow> screen" where
  "pm_screen s = fold draw_call (pm_trace s) blank"

definition pm_view :: "paint_manager \<Rightarrow> view" where
  "pm_view s = (pm_screen s, item_data (pm_cmd s))"

definition calls_of :: "event list \<Rightarrow> observer_call list" where
  "calls_of = List.map_filter call_of"

definition no_send :: "event \<Rightarrow> bool" where
  "no_send ev \<longleftrightarrow> (case ev of SendDataToUsers w \<Rightarrow> False | _ \<Rightarrow> True)"

lemma handle_event_main:
  "pm_mainThread s \<Longrightarrow> no_send ev \<Longrightarrow>
   handle_event e ev s = (Inr (), s\<lparr>pm_trace := pm_trace s @ calls_of [ev]\<rparr>)"
  by (cases ev) (simp_all add: handle_event_def call_of_def calls_of_def map_filter_simps no_send_def fireObserver_def
      notify_def)

lemma handle_events_main:
  "pm_mainThread s \<Longrightarrow> list_all no_send evs \<Longrightarrow>
   mapS (handle_event e) evs s = (Inr (map (\<lambda>ev. ()) evs), s\<lparr>pm_trace := pm_trace s @ calls_of evs\<rparr>)"
  by (induction evs arbitrary: s)
    (simp_all add: bindS_def handle_event_main calls_of_def map_filter_simps split: option.split)

lemma on_cmd_main:
  assumes "pm_mainThread s" and "m ((pm_cmd s)\<lparr>cm_events := []\<rparr>) = (r, c)" and "list_all no_send (cm_events c)"
  shows "on_cmd e m s
    = (r, s\<lparr>pm_cmd := c\<lparr>cm_events := []\<rparr>, pm_trace := pm_trace s @ calls_of (cm_events c)\<rparr>)"
  using assms by (simp add: on_cmd_def bindS_def handle_events_main)

lemma fold_draw_calls: "fold draw_call (calls_of evs) sc = fold draw evs sc"
proof (induction evs arbitrary: sc)
  case (Cons ev evs)
  then show ?case by (cases ev) (simp_all add: calls_of_def call_of_def map_filter_simps)
qed (simp add: calls_of_def map_filter_simps)

section \<open>A task that is loaded\<close>

lemma execute_body_event:
  "\<exists>evs. cm_events (execute_body t s) = cm_events s @ evs \<and> list_all no_send evs
     \<and> (fold draw evs sc, item_data (execute_body t s)) = CommandManager.perform t (sc, item_data s)"
proof (cases "item_at s (task_ptr t)")
  case None
  then show ?thesis
    by (intro exI [of _ "[]"]) (simp add: execute_body_def task_ptr_def CommandManager.perform_def Let_def item_data_def item_at_def)
next
  case (Some it)
  then have f: "findItem (task_owner t) (task_itemId t) s = Some it" "item_data s (task_ptr t) \<noteq> None"
    by (simp_all add: item_at_def task_ptr_def item_data_def)
  have d: "item_data (setItemData p d s) = (item_data s)(p := map_option (\<lambda>_. d) (item_data s p))"
    "cm_events (setItemData p d s) = cm_events s" for p d
    by (rule ext, simp add: item_data_def item_at_setItemData setData_def option.map_comp o_def)
      (simp add: setItemData_def)
  have g: "item_data (fire ev c) = item_data c" "cm_events (fire ev c) = cm_events c @ [ev]" for ev c
    by (simp_all add: item_data_def fun_eq_iff) (simp add: fire_def)
  show ?thesis
    using f(2) by (cases "tk_body t")
      (auto simp: execute_body_def f(1) CommandManager.perform_def Let_def d g no_send_def task_ptr_def)
qed

lemma executeTask_loaded:
  assumes "\<not> isPlaybackMode s" and "task_owner t \<in> cm_allowPainters s" and "cm_events s = []"
  obtains s' where "executeTask t False s = (Inr True, s')" and "list_all no_send (cm_events s')"
    and "\<not> isPlaybackMode s'" and "cm_allowPainters s' = cm_allowPainters s"
    and "cm_historyTaskList s' = cm_historyTaskList s @ [setSendData False t]"
    and "(fold draw (cm_events s') sc, item_data s') = CommandManager.perform t (sc, item_data s)"
    and "\<And>p. map_option it_content (item_at s' p) = map_option it_content (item_at s p)"
proof -
  let ?n = "length (cm_historyTaskList s)" and ?t = "setSendData False t"
  let ?s1 = "push_task t False s"
  have ev: "cm_events ?s1 = [AddTask (?n + 1) False]"
    using assms(1,3) by (simp add: push_task_def Let_def fire_def)
  have pos: "cm_currentPlayPos ?s1 = int ?n" using assms(1) by (simp add: push_task_simps)
  have data: "item_data ?s1 = item_data s" "item_at ?s1 = item_at s"
    by (simp_all add: push_task_def Let_def item_data_def item_defs fire_def fun_eq_iff)
  obtain evs where evs: "cm_events (execute_body ?t ?s1) = cm_events ?s1 @ evs" "list_all no_send evs"
    "(fold draw evs sc, item_data (execute_body ?t ?s1)) = CommandManager.perform ?t (sc, item_data ?s1)"
    using execute_body_event by blast
  have k: "kept (execute_body ?t ?s1) = kept ?s1" by simp
  have "executeTask t False s = (Inr True, execute_body ?t ?s1)"
    using assms(1,2) task_execute_silent [of ?n ?s1]
    by (simp add: executeTask_def push_task_simps isAllowPainterToDraw_def)
  moreover have "cm_currentPlayPos (execute_body ?t ?s1) = int ?n" using kept_plain(4) [OF k] pos by simp
  then have "\<not> isPlaybackMode (execute_body ?t ?s1)"
    by (simp add: isPlaybackMode_def push_task_simps)
  moreover have "list_all no_send (cm_events (execute_body ?t ?s1))"
    using evs(1,2) ev by (simp add: no_send_def)
  moreover have "(fold draw (cm_events (execute_body ?t ?s1)) sc, item_data (execute_body ?t ?s1))
      = CommandManager.perform t (sc, item_data s)"
    using evs(1,3) ev data by simp
  moreover have "map_option it_content (item_at (execute_body ?t ?s1) p) = map_option it_content (item_at s p)" for p
    unfolding data(2) [symmetric]
    by (auto simp: execute_body_def Let_def item_at_setItemData setData_def option.map_comp o_def
        split: option.split task_body.split)
  ultimately show thesis
    using that kept_plain(3) [OF k] by (simp add: push_task_simps)
qed

section \<open>Packets that are taken one after the other\<close>

fun runs :: "env \<Rightarrow> CPacketData list \<Rightarrow> paint_manager \<Rightarrow> paint_manager \<Rightarrow> bool" where
  "runs e [] s s' \<longleftrightarrow> s' = s"
| "runs e (p # ps) s s' \<longleftrightarrow> (\<exists>s1. dispatchPaintPacket e None p s = Some (Inr True, s1) \<and> runs e ps s1 s')"

lemma runs_append: "runs e (ps @ qs) s s' \<longleftrightarrow> (\<exists>s1. runs e ps s s1 \<and> runs e qs s1 s')"
  by (induction ps arbitrary: s) auto

lemma runs_dispatch_loop: "runs e ps s s' \<Longrightarrow> dispatch_loop e ps s = Some (Inr (), s')"
  by (induction ps arbitrary: s) (auto simp: thenO_def)

definition task_packet :: "CSharedPaintTask \<Rightarrow> CPacketData" where
  "task_packet t = packet CODE_TASK_EXECUTE None None
     (enc_int16 (task_type t) @ enc_task_data (tk_data t) @ enc_body (tk_body t))"

definition playing :: "paint_manager \<Rightarrow> bool" where
  "playing s \<longleftrightarrow> pm_mainThread s \<and> \<not> isPlaybackMode (pm_cmd s)"

definition contents :: "paint_manager \<Rightarrow> item_ptr \<Rightarrow> content option" where
  "contents s p = map_option it_content (item_at (pm_cmd s) p)"

lemma cm_events_simps [simp]:
  "item_data (c\<lparr>cm_events := es\<rparr>) = item_data c" "isPlaybackMode (c\<lparr>cm_events := es\<rparr>) = isPlaybackMode c"
  by (simp_all add: item_data_def fun_eq_iff isPlaybackMode_def)

lemma executeTask_flag: "executeTask (t\<lparr>tk_sendData := b\<rparr>) = executeTask t"
  by (rule ext)+ (simp add: executeTask_def push_task_def setSendData_def task_owner_def)

lemma task_loaded:
  assumes "playing s" and "ok_task t" and "task_owner t \<in> cm_allowPainters (pm_cmd s)"
  obtains c tr where
    "dispatchPaintPacket e None (task_packet t) s = Some (Inr True, s\<lparr>pm_cmd := c, pm_trace := tr\<rparr>)"
    and "playing (s\<lparr>pm_cmd := c, pm_trace := tr\<rparr>)" and "cm_allowPainters c = cm_allowPainters (pm_cmd s)"
    and "cm_historyTaskList c = cm_historyTaskList (pm_cmd s) @ [setSendData False t]"
    and "pm_view (s\<lparr>pm_cmd := c, pm_trace := tr\<rparr>) = CommandManager.perform t (pm_view s)"
    and "contents (s\<lparr>pm_cmd := c, pm_trace := tr\<rparr>) = contents s"
proof -
  let ?c0 = "(pm_cmd s)\<lparr>cm_events := []\<rparr>"
  have "\<not> isPlaybackMode ?c0" "task_owner t \<in> cm_allowPainters ?c0" "cm_events ?c0 = []"
    using assms by (simp_all add: playing_def)
  then obtain c where c: "executeTask t False ?c0 = (Inr True, c)" "list_all no_send (cm_events c)"
    "\<not> isPlaybackMode c" "cm_allowPainters c = cm_allowPainters ?c0"
    "cm_historyTaskList c = cm_historyTaskList ?c0 @ [setSendData False t]"
    "(fold draw (cm_events c) (pm_screen s), item_data c) = CommandManager.perform t (pm_screen s, item_data ?c0)"
    "\<And>p. map_option it_content (item_at c p) = map_option it_content (item_at ?c0 p)"
    by (rule executeTask_loaded [where sc = "pm_screen s"]) blast
  let ?tr = "pm_trace s @ calls_of (cm_events c)"
  have parse: "parse_ExecuteTask (en_newPaintData e) (en_newDouble e) (tk_data (en_newTask e)) (tk_sendData (en_newTask e))
      (pd_body (task_packet t)) = Inr (Some (t\<lparr>tk_sendData := tk_sendData (en_newTask e)\<rparr>))"
    by (simp add: task_packet_def packet_def parse_task_body [OF assms(2)])
  have "on_cmd e (executeTask (t\<lparr>tk_sendData := tk_sendData (en_newTask e)\<rparr>) False) s
      = (Inr True, s\<lparr>pm_cmd := c\<lparr>cm_events := []\<rparr>, pm_trace := ?tr\<rparr>)"
    unfolding executeTask_flag using assms(1) c(1,2) by (intro on_cmd_main) (simp_all add: playing_def)
  then have "dispatchPaintPacket e None (task_packet t) s
      = Some (Inr True, s\<lparr>pm_cmd := c\<lparr>cm_events := []\<rparr>, pm_trace := ?tr\<rparr>)"
    using parse by (simp add: dispatchPaintPacket_def handler_of_def task_packet_def packet_def always_def thenS_def
        bindS_def dispatch_TASK_EXECUTE_def raise_or_def)
  moreover have "pm_screen (s\<lparr>pm_cmd := c\<lparr>cm_events := []\<rparr>, pm_trace := ?tr\<rparr>) = fold draw (cm_events c) (pm_screen s)"
    by (simp add: pm_screen_def fold_draw_calls)
  ultimately show thesis
    using assms(1) c that by (auto simp: playing_def pm_view_def contents_def fun_eq_iff)
qed

lemma tasks_loaded:
  "playing s \<Longrightarrow> \<forall>t\<in>set ts. ok_task t \<and> task_owner t \<in> cm_allowPainters (pm_cmd s) \<Longrightarrow>
   \<exists>c tr. runs e (map task_packet ts) s (s\<lparr>pm_cmd := c, pm_trace := tr\<rparr>)
     \<and> cm_historyTaskList c = cm_historyTaskList (pm_cmd s) @ map (setSendData False) ts
     \<and> pm_view (s\<lparr>pm_cmd := c, pm_trace := tr\<rparr>) = fold CommandManager.perform ts (pm_view s)
     \<and> contents (s\<lparr>pm_cmd := c, pm_trace := tr\<rparr>) = contents s"
proof (induction ts arbitrary: s)
  case Nil
  show ?case by (intro exI [of _ "pm_cmd s"] exI [of _ "pm_trace s"]) simp
next
  case (Cons t ts)
  from Cons.prems have t: "ok_task t" "task_owner t \<in> cm_allowPainters (pm_cmd s)" by simp_all
  from task_loaded [OF Cons.prems(1) t, of e] obtain c tr where c:
    "dispatchPaintPacket e None (task_packet t) s = Some (Inr True, s\<lparr>pm_cmd := c, pm_trace := tr\<rparr>)"
    "playing (s\<lparr>pm_cmd := c, pm_trace := tr\<rparr>)" "cm_allowPainters c = cm_allowPainters (pm_cmd s)"
    "cm_historyTaskList c = cm_historyTaskList (pm_cmd s) @ [setSendData False t]"
    "pm_view (s\<lparr>pm_cmd := c, pm_trace := tr\<rparr>) = CommandManager.perform t (pm_view s)"
    "contents (s\<lparr>pm_cmd := c, pm_trace := tr\<rparr>) = contents s" .
  from Cons.IH [OF c(2)] Cons.prems(2) c(3) obtain c' tr' where
    "runs e (map task_packet ts) (s\<lparr>pm_cmd := c, pm_trace := tr\<rparr>) (s\<lparr>pm_cmd := c', pm_trace := tr'\<rparr>)"
    "cm_historyTaskList c' = cm_historyTaskList c @ map (setSendData False) ts"
    "pm_view (s\<lparr>pm_cmd := c', pm_trace := tr'\<rparr>)
       = fold CommandManager.perform ts (pm_view (s\<lparr>pm_cmd := c, pm_trace := tr\<rparr>))"
    "contents (s\<lparr>pm_cmd := c', pm_trace := tr'\<rparr>) = contents (s\<lparr>pm_cmd := c, pm_trace := tr\<rparr>)"
    by auto
  with c show ?case by (intro exI [of _ c'] exI [of _ tr']) auto
qed

section \<open>Items that are loaded\<close>

text \<open>An item the packet can carry.\<close>

definition carried :: "env \<Rightarrow> files \<Rightarrow> CPaintItem \<Rightarrow> bool" where
  "carried e fs it \<longleftrightarrow> ok_item (en_qt e) it \<and> qt_carries (en_qt e) it \<and> item_type it \<noteq> PT_BG_IMAGE
     \<and> (\<exists>b. serialize_item (en_qt e) fs it = Inr b \<and> length b + 2 \<le> unat MAX_PACKET_BODY_SIZE)"

definition item_packet :: "env \<Rightarrow> files \<Rightarrow> CPaintItem \<Rightarrow> CPacketData" where
  "item_packet e fs it = packet CODE_PAINT_CREATE_ITEM None None
     (enc_int16 (item_type_num (item_type it)) @ or_empty (serialize_item (en_qt e) fs it))"

text \<open>The items of \<open>its\<close> are there, and the others as before; nothing else of the history has changed.\<close>

definition shown :: "cmd_mngr \<Rightarrow> item_ptr \<Rightarrow> (SPaintData \<times> content) option" where
  "shown c p = map_option (\<lambda>it. (it_data it, it_content it)) (item_at c p)"

definition holds :: "CPaintItem list \<Rightarrow> cmd_mngr \<Rightarrow> cmd_mngr \<Rightarrow> bool" where
  "holds its c c' \<longleftrightarrow> cm_historyTaskList c' = cm_historyTaskList c \<and> cm_allowPainters c' = cm_allowPainters c
     \<and> cm_currentPlayPos c' = cm_currentPlayPos c
     \<and> shown c' = shown c ++ map_of (map (\<lambda>it. (ptr_of it, it_data it, it_content it)) its)"

lemma item_loaded:
  assumes "playing s" and "carried e fs it" and "item_at (pm_cmd s) (ptr_of it) = None"
  obtains c where "dispatchPaintPacket e None (item_packet e fs it) s = Some (Inr True, s\<lparr>pm_cmd := c\<rparr>)"
    and "holds [it] (pm_cmd s) c" and "playing (s\<lparr>pm_cmd := c\<rparr>)"
    and "\<And>p. item_at c p = None \<longleftrightarrow> item_at (pm_cmd s) p = None \<and> p \<noteq> ptr_of it"
proof -
  obtain b where b: "serialize_item (en_qt e) fs it = Inr b" using assms(2) by (auto simp: carried_def)
  from parse_created_item [OF _ _ b, of "pm_files s"] assms(2) obtain it0 where
    parse: "parse_CreateItem (en_qt e) (pm_files s) (pd_body (item_packet e fs it))
      = Inr (Some (Some (it0\<lparr>it_data := it_data it, it_content := it_content it\<rparr>), pm_files s))"
    by (auto simp: carried_def item_packet_def packet_def b or_empty_def)
  let ?it = "it0\<lparr>it_data := it_data it, it_content := it_content it\<rparr>"
  have ptr: "ptr_of ?it = ptr_of it" by (simp add: ptr_of_def)
  let ?c0 = "(pm_cmd s)\<lparr>cm_events := []\<rparr>"
  have new: "item_at ?c0 (ptr_of ?it) = None" using assms(3) ptr by simp
  then have c: "cm_events (addHistoryItem ?it ?c0) = []"
    "cm_historyTaskList (addHistoryItem ?it ?c0) = cm_historyTaskList (pm_cmd s)"
    "cm_allowPainters (addHistoryItem ?it ?c0) = cm_allowPainters (pm_cmd s)"
    "cm_currentPlayPos (addHistoryItem ?it ?c0) = cm_currentPlayPos (pm_cmd s)"
    by (auto simp: addHistoryItem_def Let_def list_addItem_def new_item_list_def ptr_of_def item_defs fire_def
        split: option.splits)
  have "on_cmd e (\<lambda>c. (Inr (), addHistoryItem ?it c)) s
      = (Inr (), s\<lparr>pm_cmd := (addHistoryItem ?it ?c0)\<lparr>cm_events := []\<rparr>, pm_trace := pm_trace s @ calls_of []\<rparr>)"
    using assms(1) on_cmd_main [of s "\<lambda>c. (Inr (), addHistoryItem ?it c)", OF _ refl] c(1)
    by (simp add: playing_def)
  then have "dispatchPaintPacket e None (item_packet e fs it) s
      = Some (Inr True, s\<lparr>pm_cmd := (addHistoryItem ?it ?c0)\<lparr>cm_events := []\<rparr>\<rparr>)"
    using parse by (simp add: dispatchPaintPacket_def item_packet_def packet_def dispatch_CREATE_ITEM_def
        calls_of_def map_filter_simps)
  then show thesis
    by (rule that) (use c new ptr assms(1) in
      \<open>auto simp: holds_def shown_def fun_eq_iff playing_def isPlaybackMode_def item_at_addHistoryItem\<close>)
qed

lemma holds_Cons:
  assumes "holds [it] a b" and "holds its b c" and "ptr_of it \<notin> ptr_of ` set its"
  shows "holds (it # its) a c"
proof -
  have "ptr_of it \<notin> dom (map_of (map (\<lambda>it. (ptr_of it, it_data it, it_content it)) its))"
    using assms(3) by (simp add: dom_map_of_conv_image_fst image_image)
  then show ?thesis using assms(1,2) by (simp add: holds_def map_add_upd_left)
qed

lemma items_loaded:
  "playing s \<Longrightarrow> \<forall>it\<in>set its. carried e fs it \<and> item_at (pm_cmd s) (ptr_of it) = None \<Longrightarrow>
   distinct (map ptr_of its) \<Longrightarrow>
   \<exists>c. runs e (map (item_packet e fs) its) s (s\<lparr>pm_cmd := c\<rparr>) \<and> holds its (pm_cmd s) c
     \<and> playing (s\<lparr>pm_cmd := c\<rparr>)"
proof (induction its arbitrary: s)
  case Nil
  then show ?case by (intro exI [of _ "pm_cmd s"]) (simp add: holds_def)
next
  case (Cons it its)
  from Cons.prems item_loaded [of s e fs it] obtain c where c:
    "dispatchPaintPacket e None (item_packet e fs it) s = Some (Inr True, s\<lparr>pm_cmd := c\<rparr>)"
    "holds [it] (pm_cmd s) c" "playing (s\<lparr>pm_cmd := c\<rparr>)"
    "\<And>p. item_at c p = None \<longleftrightarrow> item_at (pm_cmd s) p = None \<and> p \<noteq> ptr_of it" by auto
  have "\<forall>x\<in>set its. carried e fs x \<and> item_at c (ptr_of x) = None"
  proof (intro ballI conjI)
    fix x assume x: "x \<in> set its"
    then show "carried e fs x" using Cons.prems(2) by simp
    have "ptr_of x \<noteq> ptr_of it" using Cons.prems(3) x by (metis distinct.simps(2) imageI list.map(2) set_map)
    then show "item_at c (ptr_of x) = None" using Cons.prems(2) x by (simp add: c(4))
  qed
  with Cons.IH [OF c(3)] Cons.prems(3) obtain c' where
    "runs e (map (item_packet e fs) its) (s\<lparr>pm_cmd := c\<rparr>) (s\<lparr>pm_cmd := c'\<rparr>)" "holds its c c'"
    "playing (s\<lparr>pm_cmd := c'\<rparr>)" by auto
  moreover have "holds (it # its) (pm_cmd s) c'"
    using holds_Cons [OF c(2) \<open>holds its c c'\<close>] Cons.prems(3) by simp
  ultimately show ?case using c(1) by auto
qed

end
