(* ===== verification/ManagerLoading.thy ===== *)
theory ManagerLoading
  imports ManagerDrawing
begin

text \<open>
  The round trip of a drawing.  First what every packet of a saved drawing does to the manager that
  loads it (its window, its painters; the items and the tasks are in \<open>ManagerDrawing\<close>), then that the
  packets \<^verbatim>\<open>serializeData\<close> makes are the ones \<^verbatim>\<open>deserializeData\<close> takes apart.
\<close>

section \<open>The packets of the window\<close>

text \<open>What the packets of the window say; those of the grid, the colour and the image may be missing.\<close>

definition size_packets :: "paint_manager \<Rightarrow> CPacketData list" where
  "size_packets s =
     [packet CODE_WINDOW_RESIZE_MAIN_WND None None
        (enc_int16 (ucast (fst (pm_windowSize s))) @ enc_int16 (ucast (snd (pm_windowSize s)))),
      packet CODE_WINDOW_RESIZE_CANVAS None None
        (enc_int16 (ucast (fst (pm_canvasSize s))) @ enc_int16 (ucast (snd (pm_canvasSize s)))),
      packet CODE_WINDOW_RESIZE_WND_SPLITTER None None
        (enc_int16 (of_nat (length (pm_splitterSizes s))) @ concat (map enc_int16 (map ucast (pm_splitterSizes s)))),
      packet CODE_WINDOW_CHANGE_CANVAS_SCROLL_POS None None
        (enc_int16 (fst (pm_scrollPos s)) @ enc_int16 (snd (pm_scrollPos s)))]"

definition window_packets :: "env \<Rightarrow> paint_manager \<Rightarrow> CPacketData list" where
  "window_packets e s = size_packets s
     @ (if 0 <s pm_gridLineSize s
        then [packet CODE_PAINT_SET_BG_GRID_LINE None None (enc_int16 (ucast (pm_gridLineSize s)))] else [])
     @ (if pm_backgroundColor s \<noteq> WHITE
        then (case pm_backgroundColor s of (r, g, b, a) \<Rightarrow>
          [packet CODE_PAINT_SET_BG_COLOR None None
             (enc_int16 (ucast r) @ enc_int16 (ucast g) @ enc_int16 (ucast b) @ enc_int16 (ucast a))]) else [])
     @ (case pm_backgroundImage s of None \<Rightarrow> []
        | Some it \<Rightarrow> [packet CODE_PAINT_SET_BG_IMAGE None None
             (or_empty (serialize_item (en_qt e) (pm_files s) it))])"

definition window_fits :: "env \<Rightarrow> paint_manager \<Rightarrow> bool" where
  "window_fits e s \<longleftrightarrow>
     fits_short (fst (pm_windowSize s)) \<and> fits_short (snd (pm_windowSize s))
     \<and> fits_short (fst (pm_canvasSize s)) \<and> fits_short (snd (pm_canvasSize s))
     \<and> list_all fits_short (pm_splitterSizes s) \<and> length (pm_splitterSizes s) \<le> 0xffff
     \<and> fits_short (pm_gridLineSize s)
     \<and> (case pm_backgroundColor s of (r, g, b, a) \<Rightarrow> fits_short r \<and> fits_short g \<and> fits_short b \<and> fits_short a)
     \<and> (case pm_backgroundImage s of None \<Rightarrow> True
        | Some it \<Rightarrow> ok_basic (it_data it)
            \<and> (\<exists>d. it_content it = BgImageContent d \<and> length d + 1000 \<le> unat MAX_PACKET_BODY_SIZE))"

definition bg_item :: "CPaintItem \<Rightarrow> CPaintItem" where
  "bg_item it = (new_item (BgImageContent []))\<lparr>it_data := it_data it, it_content := it_content it\<rparr>"

text \<open>The manager \<open>l\<close> with the window of \<open>s\<close>: sizes that are not positive are not taken.\<close>

definition with_window :: "env \<Rightarrow> paint_manager \<Rightarrow> observer_call list \<Rightarrow> paint_manager \<Rightarrow> paint_manager" where
  "with_window e s tr l = l\<lparr>
     pm_windowSize := (if fst (pm_windowSize s) \<le>s 0 \<or> snd (pm_windowSize s) \<le>s 0
       then pm_windowSize l else pm_windowSize s),
     pm_canvasSize := (if fst (pm_canvasSize s) \<le>s 0 \<or> snd (pm_canvasSize s) \<le>s 0
       then pm_canvasSize l else pm_canvasSize s),
     pm_splitterSizes := (if pm_splitterSizes s = [] then pm_splitterSizes l else pm_splitterSizes s),
     pm_scrollPos := (if fst (pm_scrollPos s) <s 0 \<or> snd (pm_scrollPos s) <s 0
       then pm_scrollPos l else pm_scrollPos s),
     pm_gridLineSize := (if 0 <s pm_gridLineSize s then pm_gridLineSize s else pm_gridLineSize l),
     pm_backgroundColor := (if pm_backgroundColor s = WHITE then pm_backgroundColor l
       else en_qcolor e (pm_backgroundColor s)),
     pm_backgroundImage := (case pm_backgroundImage s of None \<Rightarrow> pm_backgroundImage l
       | Some it \<Rightarrow> Some (bg_item it)),
     pm_trace := pm_trace l @ tr\<rparr>"

definition quiet :: "observer_call list \<Rightarrow> bool" where
  "quiet tr \<longleftrightarrow> (\<forall>sc. fold draw_call tr sc = sc)"

lemma perform_main: "pm_mainThread s \<Longrightarrow> PaintManager.perform e c s = fireObserver e c s"
  by (simp add: PaintManager.perform_def)

lemmas told = dispatchPaintPacket_def handler_of_def packet_def always_def thenS_def bindS_def perform_main
  fireObserver_def notify_def

lemma window_dispatch:
  assumes "pm_mainThread l"
  shows "fits_short w \<Longrightarrow> fits_short h \<Longrightarrow>
      dispatchPaintPacket e None (packet CODE_WINDOW_RESIZE_MAIN_WND None None
        (enc_int16 (ucast w) @ enc_int16 (ucast h))) l
      = Some (Inr True, l\<lparr>pm_windowSize := (if w \<le>s 0 \<or> h \<le>s 0 then pm_windowSize l else (w, h)),
          pm_trace := pm_trace l @ (if w \<le>s 0 \<or> h \<le>s 0 then [] else [Ob_ResizeMainWindow w h])\<rparr>)"
    and "fits_short w \<Longrightarrow> fits_short h \<Longrightarrow>
      dispatchPaintPacket e None (packet CODE_WINDOW_RESIZE_CANVAS None None
        (enc_int16 (ucast w) @ enc_int16 (ucast h))) l
      = Some (Inr True, l\<lparr>pm_canvasSize := (if w \<le>s 0 \<or> h \<le>s 0 then pm_canvasSize l else (w, h)),
          pm_trace := pm_trace l @ (if w \<le>s 0 \<or> h \<le>s 0 then [] else [Ob_ResizeCanvas w h])\<rparr>)"
    and "dispatchPaintPacket e None (packet CODE_WINDOW_CHANGE_CANVAS_SCROLL_POS None None
        (enc_int16 x @ enc_int16 y)) l
      = Some (Inr True, l\<lparr>pm_scrollPos := (if x <s 0 \<or> y <s 0 then pm_scrollPos l else (x, y)),
          pm_trace := pm_trace l @ (if x <s 0 \<or> y <s 0 then [] else [Ob_ChangeCanvasScrollPos x y])\<rparr>)"
    and "list_all fits_short vs \<Longrightarrow> length vs \<le> 0xffff \<Longrightarrow>
      dispatchPaintPacket e None (packet CODE_WINDOW_RESIZE_WND_SPLITTER None None
        (enc_int16 (of_nat (length vs)) @ concat (map enc_int16 (map ucast vs)))) l
      = Some (Inr True, l\<lparr>pm_splitterSizes := (if vs = [] then pm_splitterSizes l else vs),
          pm_trace := pm_trace l @ (if vs = [] then [] else [Ob_ResizeWindowSplitter vs])\<rparr>)"
  using assms mainwnd.parse_body [of "(w, h, None)" "(0, 0)"] canvas.parse_body [of "(w, h, None)" "(0, 0)"]
    scroll.parse_body [of "(x, y, None)" "(0, 0)"] splitter.parse_body [of "(vs, None)" "[]"]
  by (simp_all add: told opt_id_def fits8_def dispatch_RESIZE_MAIN_WND_def dispatch_RESIZE_CANVAS_def
      dispatch_CHANGE_CANVAS_SCROLL_POS_def dispatch_RESIZE_WND_SPLITTER_def fireObserver_ResizeMainWindow_def
      fireObserver_ResizeCanvas_def fireObserver_ChangeCanvasScrollPos_def fireObserver_ResizeWindowSplitter_def)

lemma grid_loaded:
  "pm_mainThread l \<Longrightarrow> fits_short n \<Longrightarrow>
      runs e (if 0 <s n then [packet CODE_PAINT_SET_BG_GRID_LINE None None (enc_int16 (ucast n))] else []) l
       (l\<lparr>pm_gridLineSize := (if 0 <s n then n else pm_gridLineSize l),
          pm_trace := pm_trace l @ (if 0 <s n then [Ob_SetBackgroundGridLine n] else [])\<rparr>)"
  using grid.parse_body [of "(n, None)" 0]
  by (simp add: told opt_id_def fits8_def dispatch_SET_BG_GRID_LINE_def fireObserver_SetBackgroundGridLine_def)

lemma colour_loaded:
  "pm_mainThread l \<Longrightarrow> fits_short r \<Longrightarrow> fits_short g \<Longrightarrow> fits_short b \<Longrightarrow> fits_short a \<Longrightarrow>
      runs e (if (r, g, b, a) \<noteq> WHITE
        then [packet CODE_PAINT_SET_BG_COLOR None None
          (enc_int16 (ucast r) @ enc_int16 (ucast g) @ enc_int16 (ucast b) @ enc_int16 (ucast a))] else []) l
       (l\<lparr>pm_backgroundColor :=
            (if (r, g, b, a) = WHITE then pm_backgroundColor l else en_qcolor e (r, g, b, a)),
          pm_trace := pm_trace l @ (if (r, g, b, a) = WHITE then [] else [Ob_SetBackgroundColor (r, g, b, a)])\<rparr>)"
  using bgcolor.parse_body [of "((r, g, b, a), None)" "(0, 0, 0, 0)"]
  by (simp add: told opt_id_def fits8_def dispatch_SET_BG_COLOR_def fireObserver_SetBackgroundColor_def)

lemma image_loaded:
  "pm_mainThread l \<Longrightarrow> case bg of None \<Rightarrow> True
        | Some it \<Rightarrow> ok_basic (it_data it) \<and> (\<exists>d. it_content it = BgImageContent d \<and> fits32 d) \<Longrightarrow>
      runs e (case bg of None \<Rightarrow> []
        | Some it \<Rightarrow> [packet CODE_PAINT_SET_BG_IMAGE None None (or_empty (serialize_item q fs it))]) l
       (l\<lparr>pm_backgroundImage := (case bg of None \<Rightarrow> pm_backgroundImage l | Some it \<Rightarrow> Some (bg_item it)),
          pm_trace := pm_trace l @ (case bg of None \<Rightarrow> []
            | Some it \<Rightarrow> [Ob_SetBackgroundImage (Some (bg_item it))])\<rparr>)"
  using image_roundtrip(1) image_roundtrip(2) [of _ _ BgImageContent "new_item (BgImageContent [])"]
  by (auto simp: told dispatch_SET_BG_IMAGE_def fireObserver_SetBackgroundImage_def
        parse_SetBackgroundImage_def serialize_item_def or_empty_def bg_item_def split: option.split)

lemma quiet_calls [simp]:
  "quiet []" "quiet (Ob_ResizeMainWindow w h # tr) = quiet tr" "quiet (Ob_ResizeCanvas w h # tr) = quiet tr"
  "quiet (Ob_ResizeWindowSplitter vs # tr) = quiet tr" "quiet (Ob_ChangeCanvasScrollPos x y # tr) = quiet tr"
  "quiet (Ob_SetBackgroundGridLine n # tr) = quiet tr" "quiet (Ob_SetBackgroundColor c # tr) = quiet tr"
  "quiet (Ob_SetBackgroundImage i # tr) = quiet tr"
  by (simp_all add: quiet_def)

lemma runs_trans: "runs e ps s s1 \<Longrightarrow> runs e qs s1 s' \<Longrightarrow> runs e (ps @ qs) s s'"
  by (auto simp: runs_append)

lemma window_loaded:
  assumes "window_fits e s" and "pm_mainThread l"
  obtains tr where "runs e (window_packets e s) l (with_window e s tr l)" and "quiet tr"
proof -
  obtain w h where w: "pm_windowSize s = (w, h)" by (cases "pm_windowSize s")
  obtain cw ch where c: "pm_canvasSize s = (cw, ch)" by (cases "pm_canvasSize s")
  obtain x y where xy: "pm_scrollPos s = (x, y)" by (cases "pm_scrollPos s")
  obtain r g b a where col: "pm_backgroundColor s = (r, g, b, a)" by (cases "pm_backgroundColor s")
  let ?a = "(if w \<le>s 0 \<or> h \<le>s 0 then [] else [Ob_ResizeMainWindow w h])
    @ (if cw \<le>s 0 \<or> ch \<le>s 0 then [] else [Ob_ResizeCanvas cw ch])
    @ (if pm_splitterSizes s = [] then [] else [Ob_ResizeWindowSplitter (pm_splitterSizes s)])
    @ (if x <s 0 \<or> y <s 0 then [] else [Ob_ChangeCanvasScrollPos x y])"
  let ?b = "(if 0 <s pm_gridLineSize s then [Ob_SetBackgroundGridLine (pm_gridLineSize s)] else [])
    @ (if pm_backgroundColor s = WHITE then [] else [Ob_SetBackgroundColor (r, g, b, a)])
    @ (case pm_backgroundImage s of None \<Rightarrow> [] | Some it \<Rightarrow> [Ob_SetBackgroundImage (Some (bg_item it))])"
  note fits = assms(1) [unfolded window_fits_def w c xy col, simplified]
  let ?l = "l\<lparr>
      pm_windowSize := (if w \<le>s 0 \<or> h \<le>s 0 then pm_windowSize l else (w, h)),
      pm_canvasSize := (if cw \<le>s 0 \<or> ch \<le>s 0 then pm_canvasSize l else (cw, ch)),
      pm_splitterSizes := (if pm_splitterSizes s = [] then pm_splitterSizes l else pm_splitterSizes s),
      pm_scrollPos := (if x <s 0 \<or> y <s 0 then pm_scrollPos l else (x, y)), pm_trace := pm_trace l @ ?a\<rparr>"
  have l: "pm_mainThread ?l" using assms(2) by simp
  have 1: "runs e (size_packets s) l ?l"
    using assms(2) fits by (simp add: size_packets_def w c xy window_dispatch del: map_map split del: if_split cong: if_cong)
  have n: "fits_short (pm_gridLineSize s)" and rgba: "fits_short r" "fits_short g" "fits_short b" "fits_short a"
    using fits by blast+
  have bg: "case pm_backgroundImage s of None \<Rightarrow> True
      | Some it \<Rightarrow> ok_basic (it_data it) \<and> (\<exists>d. it_content it = BgImageContent d \<and> fits32 d)"
    using fits by (auto simp: fits32_def MAX_PACKET_BODY_SIZE_def split: option.splits)
  note all = runs_trans [OF 1 runs_trans [OF grid_loaded [OF l n, of e]
        runs_trans [OF colour_loaded [OF _ rgba] image_loaded [OF _ bg, of _ e "en_qt e" "pm_files s"]]]]
  have "runs e (window_packets e s) l (with_window e s (?a @ ?b) l)"
    using all l unfolding window_packets_def with_window_def w c xy col prod.case
    by (simp split del: if_split cong: if_cong option.case_cong)
  moreover have "quiet (?a @ ?b)" by (auto split: option.split)
  ultimately show thesis by (rule that)
qed

section \<open>The people of the drawing\<close>

definition hist_ids :: "paint_manager \<Rightarrow> bytes set" where
  "hist_ids s = (\<lambda>p. id_of p s) ` set (pm_joinerHistory s)"

definition painters_known :: "paint_manager \<Rightarrow> bool" where
  "painters_known s \<longleftrightarrow> (\<forall>p \<in> set (pm_joinerHistory s). p < length (pm_users s))
     \<and> hist_ids s \<subseteq> cm_allowPainters (pm_cmd s)"

text \<open>The manager \<open>l\<close> with other users, and other painters who may draw.\<close>

definition with_users :: "CPaintUser list \<Rightarrow> user_ptr list \<Rightarrow> bytes set \<Rightarrow> paint_manager \<Rightarrow> paint_manager" where
  "with_users us h a l = l\<lparr>pm_users := us, pm_joinerHistory := h, pm_cmd := (pm_cmd l)\<lparr>cm_allowPainters := a\<rparr>\<rparr>"

lemma painter_unknown: "findHistoryUser u s = None \<longleftrightarrow> u \<notin> hist_ids s"
  by (auto simp: findHistoryUser_def hist_ids_def find_None_iff)

lemma history_user_added:
  assumes "painters_known s"
  shows "\<exists>us h. addHistoryUsers [u] s
        = with_users us h (insert (u_userId (user_data u)) (cm_allowPainters (pm_cmd s))) s
      \<and> painters_known (addHistoryUsers [u] s)
      \<and> hist_ids (addHistoryUsers [u] s) = insert (u_userId (user_data u)) (hist_ids s)"
proof -
  let ?i = "u_userId (user_data u)" and ?p = "length (pm_users s)" and ?s = "s\<lparr>pm_users := pm_users s @ [u]\<rparr>"
  have new: "id_of ?p ?s = ?i" by (simp add: id_of_def user_def)
  have old: "\<forall>q \<in> set (pm_joinerHistory s). q < ?p" using assms by (simp add: painters_known_def)
  have ids: "hist_ids ?s = hist_ids s"
    unfolding hist_ids_def using old by (auto simp: id_of_def user_def nth_append intro!: image_cong)
  show ?thesis
  proof (cases "?i \<in> hist_ids s")
    case True
    then have "findHistoryUser (id_of ?p ?s) ?s \<noteq> None" using ids new painter_unknown by metis
    then have r: "addHistoryUsers [u] s = ?s" by (auto simp: new_userp_def)
    have "?i \<in> cm_allowPainters (pm_cmd s)" using True assms by (auto simp: painters_known_def)
    then have "?s = with_users (pm_users s @ [u]) (pm_joinerHistory s) (insert ?i (cm_allowPainters (pm_cmd s))) s"
      by (simp add: with_users_def insert_absorb)
    moreover have "painters_known ?s" using assms ids by (auto simp: painters_known_def)
    ultimately show ?thesis using r ids True by (auto simp: insert_absorb)
  next
    case False
    then have f: "findHistoryUser (id_of ?p ?s) ?s = None" using ids new painter_unknown by metis
    obtain v where v: "user_data v = user_data u" and
      r: "addHistoryUsers [u] s = with_users (pm_users s @ [v]) (pm_joinerHistory s @ [?p])
        (insert ?i (cm_allowPainters (pm_cmd s))) s"
    proof
      let ?v = "if id_of ?p (?s\<lparr>pm_joinerHistory := pm_joinerHistory s @ [?p]\<rparr>)
          = myId (?s\<lparr>pm_joinerHistory := pm_joinerHistory s @ [?p]\<rparr>) then setMyself u else u"
      show "user_data ?v = user_data u" by (simp add: setMyself_def)
      show "addHistoryUsers [u] s = with_users (pm_users s @ [?v]) (pm_joinerHistory s @ [?p])
        (insert ?i (cm_allowPainters (pm_cmd s))) s"
        using f by (simp add: new_userp_def addHistoryUser_def with_users_def addPainter_def upd_userp_def Let_def
            id_of_def user_def setMyself_def)
    qed
    have "hist_ids (addHistoryUsers [u] s) = insert ?i (hist_ids s)"
      unfolding r hist_ids_def using old v
      by (auto simp: with_users_def id_of_def user_def nth_append intro!: image_eqI)
    then show ?thesis using r assms old
      by (auto simp: painters_known_def with_users_def)
  qed
qed

lemma history_users_added:
  "painters_known s \<Longrightarrow> \<exists>vs h. addHistoryUsers us s
      = with_users vs h (cm_allowPainters (pm_cmd s) \<union> (\<lambda>u. u_userId (user_data u)) ` set us) s
    \<and> hist_ids (addHistoryUsers us s) = hist_ids s \<union> (\<lambda>u. u_userId (user_data u)) ` set us"
proof (induction us arbitrary: s)
  case Nil
  show ?case by (intro exI [of _ "pm_users s"] exI [of _ "pm_joinerHistory s"]) (simp add: with_users_def)
next
  case (Cons u us)
  let ?s1 = "addHistoryUsers [u] s"
  from history_user_added [OF Cons.prems, of u] obtain vs h where
    1: "?s1 = with_users vs h (insert (u_userId (user_data u)) (cm_allowPainters (pm_cmd s))) s"
    and k: "painters_known ?s1" and i: "hist_ids ?s1 = insert (u_userId (user_data u)) (hist_ids s)" by blast
  from Cons.IH [OF k] obtain vs' h' where
    2: "addHistoryUsers us ?s1
      = with_users vs' h' (cm_allowPainters (pm_cmd ?s1) \<union> (\<lambda>u. u_userId (user_data u)) ` set us) ?s1"
    "hist_ids (addHistoryUsers us ?s1) = hist_ids ?s1 \<union> (\<lambda>u. u_userId (user_data u)) ` set us" by blast
  have "addHistoryUsers (u # us) s = addHistoryUsers us ?s1" by (simp split: prod.split)
  then show ?case using 2 i unfolding 1
    by (intro exI [of _ vs'] exI [of _ h']) (simp add: with_users_def)
qed

definition history_packet :: "paint_manager \<Rightarrow> CPacketData" where
  "history_packet s = (let us = map (\<lambda>p. user p s) (pm_joinerHistory s) in
     packet CODE_SYSTEM_HISTORY_USER_LIST None None (enc_int16 (of_nat (length us)) @ concat (map enc_user us)))"

definition people_fit :: "paint_manager \<Rightarrow> bool" where
  "people_fit s \<longleftrightarrow> (let us = map (\<lambda>p. user p s) (pm_joinerHistory s) in
     list_all ok_user us \<and> length us \<le> 0xffff
     \<and> length (concat (map enc_user us)) + 2 \<le> unat MAX_PACKET_BODY_SIZE)"

lemma people_loaded:
  assumes "people_fit s" and "painters_known l"
  obtains vs h where "dispatchPaintPacket e None (history_packet s) l
      = Some (Inr True, with_users vs h (cm_allowPainters (pm_cmd l) \<union> hist_ids s) l)"
    and "hist_ids (with_users vs h (cm_allowPainters (pm_cmd l) \<union> hist_ids s) l) = hist_ids l \<union> hist_ids s"
proof -
  let ?us = "map (\<lambda>p. user p s) (pm_joinerHistory s)"
  let ?new = "map (\<lambda>u. put_user u (en_newUser e)) ?us"
  have ids: "(\<lambda>u. u_userId (user_data u)) ` set ?new = hist_ids s"
    by (auto simp: hist_ids_def id_of_def put_user_def image_image)
  have ok: "list_all ok_user ?us" "length ?us \<le> 0xffff" using assms(1) by (simp_all add: people_fit_def Let_def)
  have "dispatchPaintPacket e None (history_packet s) l = Some (Inr True, addHistoryUsers ?new l)"
    using parse_history_eq [OF ok, of "en_newUser e"]
    by (simp add: history_packet_def told dispatch_HISTORY_USER_LIST_def Let_def)
  with history_users_added [OF assms(2), of ?new] that show thesis unfolding ids by metis
qed

section \<open>A saved drawing\<close>

definition drawing_packets :: "env \<Rightarrow> paint_manager \<Rightarrow> CPacketData list" where
  "drawing_packets e s = window_packets e s @ [history_packet s]
     @ map (item_packet e (pm_files s)) (history_items e s) @ map task_packet (cm_historyTaskList (pm_cmd s))"

definition version_packet :: CPacketData where
  "version_packet = packet CODE_SYSTEM_VERSION_INFO None None
     (enc_string8 VERSION_TEXT @ enc_string8 PROTOCOL_VERSION_TEXT)"

text \<open>
  A drawing whose parts fit their fields.  The pointers to the items are enumerated in some order; no
  item is sent as a file.
\<close>

definition saveable :: "env \<Rightarrow> paint_manager \<Rightarrow> bool" where
  "saveable e s \<longleftrightarrow> window_fits e s \<and> people_fit s
     \<and> (let S = cm_historyItemSet (pm_cmd s) in
          set (en_itemOrder e S) = S \<and> distinct (en_itemOrder e S) \<and> items_ok (pm_cmd s)
          \<and> (\<forall>p it. item_at (pm_cmd s) p = Some it \<longrightarrow> ptr_of it = p \<and> carried e (pm_files s) it))
     \<and> (\<forall>t \<in> set (cm_historyTaskList (pm_cmd s)). ok_task t \<and> task_owner t \<in> hist_ids s)"

text \<open>A manager that is offline, with an empty canvas, on the main thread.\<close>

definition offline :: "paint_manager \<Rightarrow> bool" where
  "offline l \<longleftrightarrow> pm_superPeerSession l = None \<and> pm_sessionList l = [] \<and> pm_relayServerSession l = None"

definition fresh :: "paint_manager \<Rightarrow> bool" where
  "fresh l \<longleftrightarrow> playing l \<and> offline l \<and> painters_known l \<and> (\<forall>p. item_at (pm_cmd l) p = None)"

lemma concat_results_packets: "concat_results (map (\<lambda>p. Inr (pkt_bytes p)) ps) = Inr (stream ps)"
  by (induction ps) (simp_all add: stream_def)

lemma item_packet_made:
  assumes "carried e fs it"
  shows "make_CreateItem (en_qt e) fs it None = Inr (pkt_bytes (item_packet e fs it))"
    and "pkt_ok (item_packet e fs it)"
proof -
  obtain b where b: "serialize_item (en_qt e) fs it = Inr b" "length b + 2 \<le> unat MAX_PACKET_BODY_SIZE"
    using assms by (auto simp: carried_def)
  then show "make_CreateItem (en_qt e) fs it None = Inr (pkt_bytes (item_packet e fs it))"
    by (simp add: make_CreateItem_def codec_simps or_empty_def item_packet_def packet_def makePacket_bytes fits8_def opt_id_def)
  show "pkt_ok (item_packet e fs it)"
    using b code_word_less [of CODE_PAINT_CREATE_ITEM]
    by (simp add: item_packet_def packet_def pkt_ok_def or_empty_def fits8_def opt_id_def)
qed

lemma task_packet_made:
  assumes "ok_task t"
  shows "make_ExecuteTask t None = Inr (pkt_bytes (task_packet t))" and "pkt_ok (task_packet t)"
proof -
  show "make_ExecuteTask t None = Inr (pkt_bytes (task_packet t))"
    using assms by (simp add: make_ExecuteTask_def serialize_task_eq codec_simps or_empty_def task_packet_def packet_def
        makePacket_bytes fits8_def opt_id_def)
  show "pkt_ok (task_packet t)"
    using assms code_word_less [of CODE_TASK_EXECUTE]
    by (cases "tk_body t")
      (simp_all add: task_packet_def packet_def pkt_ok_def ok_task_def ok_task_data_def ok_basic_def enc_task_data_def
        enc_body_def enc_basic_def fits8_def opt_id_def MAX_PACKET_BODY_SIZE_def Let_def)
qed

lemma image_made:
  assumes "window_fits e s" and it: "pm_backgroundImage s = Some it"
  shows "make_SetBackgroundImage (en_qt e) (pm_files s) it None = Inr (pkt_bytes (packet CODE_PAINT_SET_BG_IMAGE None None
        (or_empty (serialize_item (en_qt e) (pm_files s) it))))"
    and "pkt_ok (packet CODE_PAINT_SET_BG_IMAGE None None (or_empty (serialize_item (en_qt e) (pm_files s) it)))"
proof -
  have id: "fits8 (opt_id None)" by (simp add: fits8_def opt_id_def)
  from assms obtain d where d: "it_content it = BgImageContent d" "ok_basic (it_data it)"
    "length d + 1000 \<le> unat MAX_PACKET_BODY_SIZE" by (auto simp: window_fits_def)
  then have "fits32 d" by (simp add: fits32_def MAX_PACKET_BODY_SIZE_def)
  then have ser: "serialize_item (en_qt e) (pm_files s) it = Inr (enc_basic (it_data it) @ enc_string32 d)"
    using d image_roundtrip(1) [of it d] by (simp add: serialize_item_def)
  have "length (enc_basic (it_data it)) \<le> 900"
    using d(2) by (simp add: ok_basic_def enc_basic_def fits8_def)
  then show "pkt_ok (packet CODE_PAINT_SET_BG_IMAGE None None (or_empty (serialize_item (en_qt e) (pm_files s) it)))"
    using d(3) code_word_less [of CODE_PAINT_SET_BG_IMAGE] id
    by (simp add: ser or_empty_def pkt_ok_def packet_def MAX_PACKET_BODY_SIZE_def)
  show "make_SetBackgroundImage (en_qt e) (pm_files s) it None = Inr (pkt_bytes (packet CODE_PAINT_SET_BG_IMAGE None None
      (or_empty (serialize_item (en_qt e) (pm_files s) it))))"
    using id by (simp add: make_SetBackgroundImage_def ser or_empty_def packet_def makePacket_bytes opt_id_def)
qed

text \<open>The packets of the window, as the code makes them.\<close>

lemma window_made:
  assumes "window_fits e s"
  shows "[Inr (make_ResizeMainWindow (fst (pm_windowSize s)) (snd (pm_windowSize s)) None),
       Inr (make_ResizeCanvas (fst (pm_canvasSize s)) (snd (pm_canvasSize s)) None),
       Inr (make_ResizeWindowSplitter (pm_splitterSizes s) None),
       Inr (make_ChangeCanvasScrollPos (fst (pm_scrollPos s)) (snd (pm_scrollPos s)) None)]
      @ (if 0 <s pm_gridLineSize s then [Inr (make_SetBackgroundGridLine (pm_gridLineSize s) None)] else [])
      @ (if pm_backgroundColor s \<noteq> WHITE then [Inr (make_SetBackgroundColor (pm_backgroundColor s) None)] else [])
      @ (case pm_backgroundImage s of None \<Rightarrow> []
         | Some it \<Rightarrow> [make_SetBackgroundImage (en_qt e) (pm_files s) it None])
    = map (\<lambda>p. Inr (pkt_bytes p) :: bytes result) (window_packets e s)" (is "?made = _")
    and "list_all pkt_ok (window_packets e s)"
proof -
  obtain w h where w: "pm_windowSize s = (w, h)" by (cases "pm_windowSize s")
  obtain cw ch where c: "pm_canvasSize s = (cw, ch)" by (cases "pm_canvasSize s")
  obtain x y where xy: "pm_scrollPos s = (x, y)" by (cases "pm_scrollPos s")
  obtain r g b a where col: "pm_backgroundColor s = (r, g, b, a)" by (cases "pm_backgroundColor s")
  note fits = assms [unfolded window_fits_def w c xy col, simplified]
  have id: "fits8 (opt_id None)" by (simp add: fits8_def opt_id_def)
  have 1: "make_ResizeMainWindow w h None = pkt_bytes (packet CODE_WINDOW_RESIZE_MAIN_WND None None
      (enc_int16 (ucast w) @ enc_int16 (ucast h)))"
    "pkt_ok (packet CODE_WINDOW_RESIZE_MAIN_WND None None (enc_int16 (ucast w) @ enc_int16 (ucast h)))"
    using mainwnd.mk_eq [of "(w, h, None)"] mainwnd.packet_ok [of "(w, h, None)"] fits id by simp_all
  have 2: "make_ResizeCanvas cw ch None = pkt_bytes (packet CODE_WINDOW_RESIZE_CANVAS None None
      (enc_int16 (ucast cw) @ enc_int16 (ucast ch)))"
    "pkt_ok (packet CODE_WINDOW_RESIZE_CANVAS None None (enc_int16 (ucast cw) @ enc_int16 (ucast ch)))"
    using canvas.mk_eq [of "(cw, ch, None)"] canvas.packet_ok [of "(cw, ch, None)"] fits id by simp_all
  note 3 = splitter.mk_eq [of "(pm_splitterSizes s, None)", simplified] splitter.packet_ok [of "(pm_splitterSizes s, None)", simplified]
  note 4 = scroll.mk_eq [of "(x, y, None)", simplified] scroll.packet_ok [of "(x, y, None)", simplified]
  note 5 = grid.mk_eq [of "(pm_gridLineSize s, None)", simplified] grid.packet_ok [of "(pm_gridLineSize s, None)", simplified]
  note 6 = bgcolor.mk_eq [of "((r, g, b, a), None)", simplified] bgcolor.packet_ok [of "((r, g, b, a), None)", simplified]
  note 7 = image_made [OF assms]
  show "?made = map (\<lambda>p. Inr (pkt_bytes p)) (window_packets e s)"
    using 1(1) 2(1) 3(1) 4(1) 5(1) 6(1) 7(1) fits id
    by (simp add: window_packets_def size_packets_def w c xy col opt_id_def split: option.split)
  show "list_all pkt_ok (window_packets e s)"
    using 1(2) 2(2) 3(2) 4(2) 5(2) 6(2) 7(2) fits id
    by (simp add: window_packets_def size_packets_def w c xy col split: option.split)
qed

lemma version_made:
  "make_VersionInfo VERSION_TEXT PROTOCOL_VERSION_TEXT = pkt_bytes version_packet" "pkt_ok version_packet"
  "parse_VersionInfo (pd_body version_packet) x = (True, VERSION_TEXT, PROTOCOL_VERSION_TEXT)"
proof -
  have v: "fits8 VERSION_TEXT" "fits8 PROTOCOL_VERSION_TEXT" by (simp_all add: fits8_def VERSION_TEXT_def PROTOCOL_VERSION_TEXT_def)
  show "make_VersionInfo VERSION_TEXT PROTOCOL_VERSION_TEXT = pkt_bytes version_packet"
    using vers.mk_eq [of "(VERSION_TEXT, PROTOCOL_VERSION_TEXT)"] v by (simp add: version_packet_def)
  show "pkt_ok version_packet"
    using vers.packet_ok [of "(VERSION_TEXT, PROTOCOL_VERSION_TEXT)"] v by (simp add: version_packet_def)
  show "parse_VersionInfo (pd_body version_packet) x = (True, VERSION_TEXT, PROTOCOL_VERSION_TEXT)"
    using vers.parse_body [of "(VERSION_TEXT, PROTOCOL_VERSION_TEXT)"] v by (simp add: version_packet_def packet_def)
qed

lemma same_version: "compareVersion PROTOCOL_VERSION_TEXT PROTOCOL_VERSION_TEXT = Some 0"
proof -
  have "PROTOCOL_VERSION_TEXT = version_text (0, 0, 1) []"
    by (simp add: PROTOCOL_VERSION_TEXT_def version_text_def decimal.simps)
  then have "parseVersionString PROTOCOL_VERSION_TEXT = Some (Some (0, 0, 1))"
    using parse_version_text [of "[]" 0 0 1] by (simp add: fits_int_def INT_MAX_def)
  then show ?thesis by (simp add: compareVersion_def)
qed

lemma people_made:
  assumes "people_fit s"
  shows "serializeHistoryJoinerList s = pkt_bytes (history_packet s)" and "pkt_ok (history_packet s)"
  using assms history.mk_eq [of "map (\<lambda>p. user p s) (pm_joinerHistory s)"]
    history.packet_ok [of "map (\<lambda>p. user p s) (pm_joinerHistory s)"]
  by (simp_all add: people_fit_def serializeHistoryJoinerList_def history_packet_def Let_def)

lemma saveable_items:
  assumes "saveable e s"
  shows "\<forall>it \<in> set (history_items e s). carried e (pm_files s) it"
    and "distinct (map ptr_of (history_items e s))"
    and "map_of (map (\<lambda>it. (ptr_of it, it_data it, it_content it)) (history_items e s)) = shown (pm_cmd s)"
proof -
  let ?S = "cm_historyItemSet (pm_cmd s)"
  from assms have o: "set (en_itemOrder e ?S) = ?S" "distinct (en_itemOrder e ?S)"
    and i: "items_ok (pm_cmd s)"
    by (simp_all add: saveable_def Let_def)
  have c: "ptr_of it = p \<and> carried e (pm_files s) it" if "item_at (pm_cmd s) p = Some it" for p it
    using assms that by (cases p) (simp add: saveable_def Let_def)
  have some: "\<exists>it. item_at (pm_cmd s) p = Some it" if "p \<in> ?S" for p
    using i that by (cases p) (auto simp: items_ok_def)
  show "\<forall>it \<in> set (history_items e s). carried e (pm_files s) it"
    using c by (auto simp: history_items_def map_filter_def)
  have ptrs: "\<forall>p \<in> set ps. \<exists>it. item_at (pm_cmd s) p = Some it \<Longrightarrow>
      map ptr_of (List.map_filter (\<lambda>p. item_at (pm_cmd s) p) ps) = ps" for ps
    by (induction ps) (auto simp: map_filter_simps c)
  show "distinct (map ptr_of (history_items e s))"
    using ptrs [of "en_itemOrder e ?S"] o some by (simp add: history_items_def)
  have found: "map_of (map (\<lambda>it. (ptr_of it, it_data it, it_content it))
        (List.map_filter (\<lambda>p. item_at (pm_cmd s) p) ps)) q = (if q \<in> set ps then shown (pm_cmd s) q else None)" for ps q
    by (induction ps) (auto simp: map_filter_simps shown_def dest: c split: option.split)
  show "map_of (map (\<lambda>it. (ptr_of it, it_data it, it_content it)) (history_items e s)) = shown (pm_cmd s)"
    using o i by (auto simp: fun_eq_iff history_items_def found shown_def items_ok_def)
qed

lemma drawing_made:
  assumes "saveable e s"
  shows "serializeData e None s = Inr (stream (version_packet # drawing_packets e s))"
    and "list_all pkt_ok (version_packet # drawing_packets e s)"
proof -
  let ?its = "history_items e s" and ?ts = "cm_historyTaskList (pm_cmd s)"
  from assms have w: "window_fits e s" and p: "people_fit s" and t: "\<forall>t \<in> set ?ts. ok_task t"
    by (simp_all add: saveable_def Let_def)
  have its: "map (\<lambda>it. make_CreateItem (en_qt e) (pm_files s) it None) ?its
      = map (\<lambda>p. Inr (pkt_bytes p)) (map (item_packet e (pm_files s)) ?its)"
    using saveable_items(1) [OF assms] by (simp add: item_packet_made(1))
  have ts: "map (\<lambda>t. make_ExecuteTask t None) ?ts = map (\<lambda>p. Inr (pkt_bytes p)) (map task_packet ?ts)"
    using t by (simp add: task_packet_made(1))
  have "serializeData e None s
      = concat_results (map (\<lambda>p. Inr (pkt_bytes p)) (version_packet # drawing_packets e s))"
    unfolding serializeData_def its ts drawing_packets_def version_made(1) people_made(1) [OF p]
      window_made(1) [OF w, symmetric] list.map map_append by simp
  then show "serializeData e None s = Inr (stream (version_packet # drawing_packets e s))"
    by (simp only: concat_results_packets)
  show "list_all pkt_ok (version_packet # drawing_packets e s)"
    using saveable_items(1) [OF assms] t window_made(2) [OF w]
    by (auto simp: drawing_packets_def version_made(2) people_made(2) [OF p] list_all_iff
        item_packet_made(2) task_packet_made(2))
qed

definition no_ids :: "CPacketData \<Rightarrow> bool" where
  "no_ids p \<longleftrightarrow> pd_fromId p = [] \<and> pd_toId p = []"

lemma no_ids_packet [simp]: "no_ids (packet c None None b)"
  by (simp add: no_ids_def packet_def opt_id_def)

lemma no_ids_window: "list_all no_ids (window_packets e s)"
  by (cases "pm_backgroundColor s"; cases "pm_backgroundImage s")
    (simp_all add: window_packets_def size_packets_def)

lemma no_ids_drawing: "list_all no_ids (version_packet # drawing_packets e s)"
proof -
  have "list_all no_ids (map (item_packet e fs) its)" "list_all no_ids (map task_packet ts)" for fs its ts
    by (simp_all add: list_all_iff item_packet_def task_packet_def)
  then show ?thesis
    by (simp add: drawing_packets_def version_packet_def history_packet_def no_ids_window Let_def)
qed

lemma delivered_no_ids:
  "list_all no_ids ps \<Longrightarrow> delivered_all [] [] ps = ps"
  by (induction ps) (simp_all add: delivered_def carry_def no_ids_def)

text \<open>The settings of the window.\<close>

definition window_of where
  "window_of s = (pm_windowSize s, pm_canvasSize s, pm_splitterSizes s, pm_scrollPos s, pm_gridLineSize s,
     pm_backgroundColor s, pm_backgroundImage s)"

text \<open>The manager \<open>l\<close> has become \<open>l'\<close> by loading what \<open>s\<close> saved.\<close>

definition loaded :: "env \<Rightarrow> paint_manager \<Rightarrow> paint_manager \<Rightarrow> paint_manager \<Rightarrow> bool" where
  "loaded e s l l' \<longleftrightarrow> window_of l' = window_of (with_window e s [] l)
     \<and> hist_ids l' = hist_ids l \<union> hist_ids s
     \<and> cm_historyTaskList (pm_cmd l')
         = cm_historyTaskList (pm_cmd l) @ map (setSendData False) (cm_historyTaskList (pm_cmd s))
     \<and> contents l' = contents s
     \<and> pm_view l' = fold CommandManager.perform (cm_historyTaskList (pm_cmd s)) (pm_screen l, item_data (pm_cmd s))"

lemma shown_parts:
  "shown c = shown d \<Longrightarrow> map_option it_content (item_at c p) = map_option it_content (item_at d p)"
  "shown c = shown d \<Longrightarrow> item_data c = item_data d"
  unfolding shown_def fun_eq_iff item_data_def
  by (metis (no_types, lifting) option.map_comp comp_def option.map_cong snd_conv fst_conv)+

lemma drawing_runs:
  assumes "saveable e s" and "fresh l"
  obtains l' where "runs e (drawing_packets e s) l l'" and "offline l'" and "loaded e s l l'"
proof -
  from assms(1) have w: "window_fits e s" and p: "people_fit s"
    and t: "\<forall>t \<in> set (cm_historyTaskList (pm_cmd s)). ok_task t \<and> task_owner t \<in> hist_ids s"
    by (simp_all add: saveable_def Let_def)
  from assms(2) have l: "playing l" "offline l" "painters_known l" "\<And>q. item_at (pm_cmd l) q = None"
    unfolding fresh_def by blast+
  obtain tr where 1: "runs e (window_packets e s) l (with_window e s tr l)" "quiet tr"
    using window_loaded [OF w] l(1) by (auto simp: playing_def)
  let ?l1 = "with_window e s tr l"
  have k: "painters_known ?l1" using l(3) by (simp add: painters_known_def with_window_def hist_ids_def id_of_def user_def)
  let ?A = "cm_allowPainters (pm_cmd ?l1) \<union> hist_ids s"
  obtain vs h where 2: "dispatchPaintPacket e None (history_packet s) ?l1 = Some (Inr True, with_users vs h ?A ?l1)"
    "hist_ids (with_users vs h ?A ?l1) = hist_ids ?l1 \<union> hist_ids s"
    by (rule people_loaded [OF p k])
  let ?l2 = "with_users vs h ?A ?l1"
  have p2: "playing ?l2" using l(1) by (simp add: playing_def with_users_def with_window_def isPlaybackMode_def)
  have none: "item_at (pm_cmd ?l2) q = None" for q
    using l(4) [of q] by (simp add: with_users_def with_window_def item_defs)
  obtain c where 3: "runs e (map (item_packet e (pm_files s)) (history_items e s)) ?l2 (?l2\<lparr>pm_cmd := c\<rparr>)"
    "holds (history_items e s) (pm_cmd ?l2) c" "playing (?l2\<lparr>pm_cmd := c\<rparr>)"
    using items_loaded [OF p2, of "history_items e s" e "pm_files s"] saveable_items(1,2) [OF assms(1)] none by blast
  let ?l3 = "?l2\<lparr>pm_cmd := c\<rparr>"
  have "shown (pm_cmd ?l2) = Map.empty" using none by (auto simp: shown_def fun_eq_iff)
  then have sh: "shown c = shown (pm_cmd s)"
    using 3(2) saveable_items(3) [OF assms(1)] by (simp add: holds_def)
  have "cm_allowPainters (pm_cmd ?l3) = ?A" using 3(2) by (simp add: holds_def with_users_def)
  with t obtain c' tr' where 4:
    "runs e (map task_packet (cm_historyTaskList (pm_cmd s))) ?l3 (?l3\<lparr>pm_cmd := c', pm_trace := tr'\<rparr>)"
    "cm_historyTaskList c' = cm_historyTaskList (pm_cmd ?l3) @ map (setSendData False) (cm_historyTaskList (pm_cmd s))"
    "pm_view (?l3\<lparr>pm_cmd := c', pm_trace := tr'\<rparr>)
      = fold CommandManager.perform (cm_historyTaskList (pm_cmd s)) (pm_view ?l3)"
    "contents (?l3\<lparr>pm_cmd := c', pm_trace := tr'\<rparr>) = contents ?l3"
    using tasks_loaded [OF 3(3), of "cm_historyTaskList (pm_cmd s)" e] by auto
  let ?l4 = "?l3\<lparr>pm_cmd := c', pm_trace := tr'\<rparr>"
  show thesis
  proof (rule that [of ?l4])
    show "runs e (drawing_packets e s) l ?l4"
      unfolding drawing_packets_def using 1(1) 2(1) 3(1) 4(1) by (auto simp: runs_append)
    show "offline ?l4" using l(2) by (simp add: offline_def with_users_def with_window_def)
    have "pm_view ?l3 = (pm_screen l, item_data (pm_cmd s))"
      using 1(2) shown_parts(2) [OF sh]
      by (simp add: pm_view_def pm_screen_def with_users_def with_window_def quiet_def)
    moreover have "contents ?l3 = contents s"
      using shown_parts(1) [OF sh] by (simp add: contents_def fun_eq_iff)
    moreover have "cm_historyTaskList (pm_cmd ?l3) = cm_historyTaskList (pm_cmd l)"
      using 3(2) by (simp add: holds_def with_users_def with_window_def)
    moreover have "hist_ids ?l4 = hist_ids l \<union> hist_ids s"
      using 2(2) by (simp add: hist_ids_def id_of_def user_def with_users_def with_window_def)
    moreover have "window_of ?l4 = window_of (with_window e s [] l)"
      by (simp add: window_of_def with_users_def with_window_def)
    ultimately show "loaded e s l ?l4"
      using 4(2-4) by (simp add: loaded_def)
  qed
qed

lemma drawing_loads:
  assumes "en_newSlicer e = sl_new a b c d" and "saveable e s" and "fresh l"
  shows "\<exists>bytes l'. serializeData e None s = Inr bytes
    \<and> deserializeData e bytes l = Some (Inr True, l') \<and> loaded e s l l'"
proof -
  let ?ps = "version_packet # drawing_packets e s"
  obtain l' where l': "runs e (drawing_packets e s) l l'" "offline l'" "loaded e s l l'"
    by (rule drawing_runs [OF assms(2,3)])
  have "\<exists>sl. receive (stream ?ps) (en_newSlicer e) = (Inr ?ps, sl)"
    using receive_all_stream [OF drawing_made(2) [OF assms(2)], of "[stream ?ps]" a b c d]
      delivered_no_ids [OF no_ids_drawing [of e s]]
    by (auto simp: assms(1) bindS_def split: prod.splits sum.splits)
  moreover have "sendDataToUsers_unit bs l' = (Inr (), l')" for bs
    using l'(2) by (simp add: sendDataToUsers_unit_def sendDataToUsers_def sendDataToUsers_to_def offline_def
        connected_opt_def bindS_def)
  moreover have "pd_code version_packet = code_word CODE_SYSTEM_VERSION_INFO"
    by (simp add: version_packet_def packet_def)
  ultimately have "deserializeData e (stream ?ps) l = Some (Inr True, l')"
    using runs_dispatch_loop [OF l'(1)]
    by (auto simp: deserializeData_def version_made(3) same_version thenO_def thenS_def bindS_def)
  then show ?thesis using drawing_made(1) [OF assms(2)] l'(3) by blast
qed

section \<open>Property\<close>


definition sample_drawing :: paint_manager where
  "sample_drawing = (new_paint_manager sample_env Map.empty)
     \<lparr>pm_users := [CPaintUser_myself 0 True\<lparr>user_data := new_user_info\<lparr>u_userId := [7]\<rparr>\<rparr>], pm_joinerHistory := [0], pm_cmd := sample_mngr,
      pm_windowSize := (640, 480), pm_splitterSizes := [300, 340], pm_gridLineSize := 20,
      pm_backgroundColor := (10, 20, 30, 255)\<rparr>"

lemma sample_drawing_simps [simp]:
  "pm_windowSize sample_drawing = (640, 480)" "pm_canvasSize sample_drawing = (0, 0)"
  "pm_splitterSizes sample_drawing = [300, 340]" "pm_scrollPos sample_drawing = (- 1, - 1)"
  "pm_gridLineSize sample_drawing = 20" "pm_backgroundColor sample_drawing = (10, 20, 30, 255)"
  "pm_backgroundImage sample_drawing = None" "pm_cmd sample_drawing = sample_mngr"
  "pm_files sample_drawing = Map.empty" "pm_joinerHistory sample_drawing = [0]"
  "user 0 sample_drawing = CPaintUser_myself 0 True\<lparr>user_data := new_user_info\<lparr>u_userId := [7]\<rparr>\<rparr>"
  by (simp_all add: sample_drawing_def new_paint_manager_def startListenBroadCast_def user_def split: prod.split)

lemma sample_carried: "carried sample_env Map.empty (sample_item [7] 1)"
proof -
  have ok: "ok_item sample_qt (sample_item [7] 1)" and "qt_carries sample_qt (sample_item [7] 1)"
    by (simp_all add: ok_item_def ok_basic_def sample_item_def setItemId_def setOwner_def new_item_def
        new_paint_data_def fits8_def fits32_def qt_carries_def sample_qt_def)
  moreover have c: "it_content (sample_item [7] 1) = ImageContent [1]"
    by (simp add: sample_item_def setItemId_def setOwner_def new_item_def)
  have b: "ok_basic (it_data (sample_item [7] 1))" using ok by (simp add: ok_item_def)
  have "serialize_item sample_qt Map.empty (sample_item [7] 1)
      = Inr (enc_basic (it_data (sample_item [7] 1)) @ enc_string32 [1])"
    using image_roundtrip(1) [OF b, of "[1]"] by (simp add: serialize_item_def c fits32_def)
  moreover have "length (enc_basic (it_data (sample_item [7] 1))) \<le> 900"
    using b by (simp add: ok_basic_def enc_basic_def fits8_def)
  ultimately show ?thesis
    by (auto simp: carried_def sample_env_def item_type_def c MAX_PACKET_BODY_SIZE_def)
qed

lemma sample_saveable: "saveable sample_env sample_drawing"
proof -
  have S: "cm_historyItemSet sample_mngr = {([7], 1)}"
    by (simp add: sample_mngr_def addHistoryItem_def Let_def addPainter_def new_cmd_mngr_def list_addItem_def
        new_item_list_def)
  then have i: "items_ok sample_mngr" by (simp add: items_ok_def sample_mngr_item)
  have t: "cm_historyTaskList sample_mngr = sample_tasks" by (simp add: sample_mngr_def)
  have "window_fits sample_env sample_drawing"
    by (simp add: window_fits_def fits_short_def)
  moreover have "people_fit sample_drawing"
    by (simp add: people_fit_def ok_user_def CPaintUser_myself_def new_user_info_def fits8_def enc_user_def Let_def MAX_PACKET_BODY_SIZE_def)
  moreover have "set (en_itemOrder sample_env {([7], 1)}) = {([7], 1)}" "distinct (en_itemOrder sample_env {([7], 1)})"
    by (auto simp: sample_env_def)
  moreover have "hist_ids sample_drawing = {[7]}" by (simp add: hist_ids_def id_of_def)
  moreover have "\<forall>t \<in> set sample_tasks. ok_task t \<and> task_owner t = [7]"
    by (simp add: sample_tasks_def new_task_def ok_task_def ok_task_data_def fits8_def task_owner_def)
  ultimately show ?thesis
    by (auto simp: saveable_def Let_def S i t sample_mngr_item sample_carried)
qed

lemma sample_fresh: "fresh (new_paint_manager sample_env Map.empty)"
  by (simp add: fresh_def playing_def offline_def painters_known_def hist_ids_def new_paint_manager_def
      startListenBroadCast_def isPlaybackMode_def new_cmd_mngr_def item_defs split: prod.split)


end
