(* ===== verification/Scene.thy ===== *)
theory Scene
  imports PaintItem "HOL-Library.Signed_Division"
begin

text \<open>
  The canvas of a client: \<^verbatim>\<open>SharedPainterScene.h\<close> and \<^verbatim>\<open>.cpp\<close>.  The scene turns mouse and keyboard
  events into items and requests to move, update and remove items, and draws the items it is told to
  draw.  It rests on \<^verbatim>\<open>QGraphicsScene\<close>.  What the code asks of Qt is recorded as a list of calls, in
  order (\<open>cv_calls\<close>); what Qt answers is a function of the calls so far, in \<open>scene_env\<close>, together with
  the arithmetic on \<^verbatim>\<open>double\<close> and the main window, which handles the events of the scene.  Qt calls
  back when an object has moved: \<open>setObjectPos\<close> does so when \<open>se_notifies\<close> says that Qt does.
\<close>

section \<open>Calls to Qt, and the events\<close>

type_synonym addr = nat
type_synonym object = nat
type_synonym point = "double \<times> double"

datatype object_class = PixmapObject | TextObject | PathObject | EllipseObject | LineObject

datatype pixmap = FileIcon qstring | ItemPixmap bytes | ScaledFile qstring "32 word" "32 word"

datatype drag_mode = NoDrag | RubberBandDrag

datatype cursor = DrawLineCursor | PointingHandCursor | OpenHandCursor | ClosedHandCursor

datatype scene_event = EvMoveItem addr | EvDrawItem addr | EvUpdateItem addr | EvRemoveItem addr

datatype scene_call =
    NewObject object object_class
  | SetPixmap object pixmap
  | SetText object qstring QFont
  | SetPath object "point list"
  | SetRect object double double double double
  | SetLine object point point
  | SetPen object QColor "32 word"
  | SetBrush object QColor
  | SetZValue object double
  | SetObjectScale object double
  | SetObjectPos object double double
  | SetData object bytes "32 word"
  | SetItemFlags object
  | SetGeometryFlag object bool
  | AddObject object
  | RemoveObject object
  | ShowObject object
  | HideObject object
  | SetSelected object bool
  | SetToolTip object qstring
  | Invalidate object
  | SetSceneRect "32 word" "32 word"
  | RenderBackground QColor "pixmap option" "int list" "int list"
  | EnableViews bool
  | SetDragMode drag_mode
  | SetCursor cursor
  | UserMoved object double double
  | BaseHandler
  | ClipboardCopy addr bool
  | ExecuteItem addr
  | Fired scene_event

section \<open>State\<close>

datatype ItemBorderType = Border_Ellipse | Border_PainterPath | Border_Rect

text \<open>An item as the canvas sees it: its data, \<^verbatim>\<open>object_\<close>, and whether \<^verbatim>\<open>canvas_\<close> is set.\<close>

record scene_item =
  si_item :: CPaintItem
  si_object :: "object option"
  si_canvas :: bool

text \<open>
  \<open>cv_items\<close> are the items by address, \<open>cv_itemData\<close> is \<^verbatim>\<open>itemData_\<close> of the graphics objects; \<open>cv_next\<close> is
  the number of the next object.  \<^verbatim>\<open>tempMovingItemList_\<close> is a set ordered by address.
\<close>

record scene =
  cv_penClr :: QColor
  cv_penWidth :: "32 word"
  cv_prevPos :: point
  cv_freezeActionFlag :: bool
  cv_drawFlag :: bool
  cv_freePenMode :: bool
  cv_highQualityMoveItemMode :: bool
  cv_backgroundPixmap :: "pixmap option"
  cv_backgroundImageItem :: "addr option"
  cv_currLineItem :: "addr option"
  cv_tempLineItemList :: "object list"
  cv_tempMovingItemList :: "addr list"
  cv_currentZValue :: double
  cv_currentLineZValue :: double
  cv_backgroundColor :: QColor
  cv_gridLineSize :: int
  cv_lastCoverGraphicsItem :: "object option"
  cv_lastTimeValue :: int
  cv_timeoutRemoveLastCoverItem :: int
  cv_lastItemBorderType :: ItemBorderType
  cv_lastAddItem :: "addr option"
  cv_lastTempBlinkShowFlag :: bool
  cv_showLastAddItemBorderFlag :: bool
  cv_items :: "addr \<rightharpoonup> scene_item"
  cv_itemData :: "object \<rightharpoonup> addr"
  cv_next :: object
  cv_calls :: "scene_call list"

text \<open>
  What the scene asks of others.  \<open>se_int\<close> widens an \<^verbatim>\<open>int\<close>, \<open>se_scaled\<close> is \<^verbatim>\<open>n *= d\<close> on an \<^verbatim>\<open>int\<close>.
  \<open>se_handle\<close> is the main window, which may call the scene back.
\<close>

record scene_env =
  se_add :: "double \<Rightarrow> double \<Rightarrow> double"
  se_sub :: "double \<Rightarrow> double \<Rightarrow> double"
  se_div :: "double \<Rightarrow> double \<Rightarrow> double"
  se_less :: "double \<Rightarrow> double \<Rightarrow> bool"
  se_int :: "32 word \<Rightarrow> double"
  se_scaled :: "32 word \<Rightarrow> double \<Rightarrow> 32 word"
  se_scenePos :: "scene_call list \<Rightarrow> object \<Rightarrow> point"
  se_notifies :: "scene_call list \<Rightarrow> object \<Rightarrow> point \<Rightarrow> bool"
  se_sceneRect :: "scene_call list \<Rightarrow> 32 word \<times> 32 word"
  se_selectedItems :: "scene_call list \<Rightarrow> object list"
  se_objects :: "scene_call list \<Rightarrow> object list"
  se_dataOf :: "scene_call list \<Rightarrow> object \<Rightarrow> bytes \<times> 32 word"
  se_now :: "scene_call list \<Rightarrow> int"
  se_coverPath :: "scene_call list \<Rightarrow> object \<Rightarrow> point list"
  se_pixmapSize :: "pixmap \<Rightarrow> 32 word \<times> 32 word"
  se_fileSize :: "qstring \<Rightarrow> 32 word \<times> 32 word"
  se_isFile :: "qstring \<Rightarrow> bool"
  se_isImage :: "qstring \<Rightarrow> bool"
  se_toolTip :: "addr \<Rightarrow> qstring"
  se_find :: "bytes \<Rightarrow> 32 word \<Rightarrow> addr option"
  se_handle :: "scene_event \<Rightarrow> scene \<Rightarrow> scene"

definition call :: "scene_call \<Rightarrow> scene \<Rightarrow> scene" where
  "call c s = s\<lparr>cv_calls := cv_calls s @ [c]\<rparr>"

definition new_object :: "object_class \<Rightarrow> scene \<Rightarrow> object \<times> scene" where
  "new_object c s = (cv_next s, call (NewObject (cv_next s) c) (s\<lparr>cv_next := Suc (cv_next s)\<rparr>))"

definition fire_event :: "scene_env \<Rightarrow> scene_event \<Rightarrow> scene \<Rightarrow> scene" where
  "fire_event E ev s = se_handle E ev (call (Fired ev) s)"

definition change_item :: "addr \<Rightarrow> (CPaintItem \<Rightarrow> CPaintItem) \<Rightarrow> scene \<Rightarrow> scene" where
  "change_item a f s = s\<lparr>cv_items := (cv_items s)(a := map_option (\<lambda>i. i\<lparr>si_item := f (si_item i)\<rparr>) (cv_items s a))\<rparr>"

definition set_object :: "addr \<Rightarrow> object option \<Rightarrow> scene \<Rightarrow> scene" where
  "set_object a ob s = s\<lparr>cv_items := (cv_items s)(a := map_option (\<lambda>i. i\<lparr>si_object := ob\<rparr>) (cv_items s a))\<rparr>"

definition object_of :: "scene \<Rightarrow> addr \<Rightarrow> object option" where
  "object_of s a = (case cv_items s a of None \<Rightarrow> None | Some i \<Rightarrow> si_object i)"

definition data_of :: "scene \<Rightarrow> addr \<Rightarrow> SPaintData" where
  "data_of s a = (case cv_items s a of None \<Rightarrow> new_paint_data | Some i \<Rightarrow> it_data (si_item i))"

text \<open>Division of two \<^verbatim>\<open>int\<close>s, which truncates.\<close>

definition int_div :: "32 word \<Rightarrow> 32 word \<Rightarrow> 32 word" where
  "int_div a b = word_of_int (sint a sdiv sint b)"

text \<open>The constants of the source as doubles.\<close>

definition d_0_01 :: double where "d_0_01 = 0x3F847AE147AE147B"
definition d_2 :: double where "d_2 = 0x4000000000000000"
definition d_step :: double where "d_step = 0x3FB99999A0000000"
definition d_max :: double where "d_max = 0x4010000000000000"
definition CURSOR_OFFSET_X :: "32 word" where "CURSOR_OFFSET_X = - 10"
definition CURSOR_OFFSET_Y :: "32 word" where "CURSOR_OFFSET_Y = 9"
definition DEFAULT_TIMEOUT_REMOVE_LAST_COVER_ITEM :: int where "DEFAULT_TIMEOUT_REMOVE_LAST_COVER_ITEM = 600"
definition DEFAULT_PIXMAP_ITEM_SIZE_W :: "32 word" where "DEFAULT_PIXMAP_ITEM_SIZE_W = 250"
definition ZVALUE_TOPMOST :: "32 word" where "ZVALUE_TOPMOST = 9999"

definition q_white :: QColor where
  "q_white = \<lparr>c_red = 255, c_green = 255, c_blue = 255, c_alpha = 255\<rparr>"

definition q_blue :: QColor where
  "q_blue = \<lparr>c_red = 0, c_green = 0, c_blue = 255, c_alpha = 255\<rparr>"

text \<open>\<open>lineZ\<close>, \<open>time\<close> and \<open>border\<close> are what the constructor leaves uninitialised.\<close>

definition new_scene :: "double \<Rightarrow> int \<Rightarrow> ItemBorderType \<Rightarrow> scene" where
  "new_scene lineZ time border =
     \<lparr>cv_penClr = q_blue, cv_penWidth = 2, cv_prevPos = (double_0, double_0), cv_freezeActionFlag = False,
      cv_drawFlag = False, cv_freePenMode = False, cv_highQualityMoveItemMode = False,
      cv_backgroundPixmap = None, cv_backgroundImageItem = None, cv_currLineItem = None,
      cv_tempLineItemList = [], cv_tempMovingItemList = [], cv_currentZValue = double_1,
      cv_currentLineZValue = lineZ, cv_backgroundColor = q_white, cv_gridLineSize = 0,
      cv_lastCoverGraphicsItem = None, cv_lastTimeValue = time, cv_timeoutRemoveLastCoverItem = 0,
      cv_lastItemBorderType = border, cv_lastAddItem = None, cv_lastTempBlinkShowFlag = False,
      cv_showLastAddItemBorderFlag = False, cv_items = Map.empty, cv_itemData = Map.empty, cv_next = 0,
      cv_calls = []\<rparr>"

section \<open>Background\<close>

text \<open>The loops of \<^verbatim>\<open>internalDrawGridLine\<close>, which is called with a positive size only.\<close>

function grid_from :: "int \<Rightarrow> int \<Rightarrow> int \<Rightarrow> int list" where
  "grid_from x w g = (if x < w \<and> 0 < g then x # grid_from (x + g) w g else [])"
  by auto
termination by (relation "measure (\<lambda>(x, w, g). nat (w - x))") auto

declare grid_from.simps [simp del]

definition resetBackground :: "scene_env \<Rightarrow> scene \<Rightarrow> scene" where
  "resetBackground E s =
     (let (w, h) = se_sceneRect E (cv_calls s); g = cv_gridLineSize s in
      call (RenderBackground (cv_backgroundColor s) (cv_backgroundPixmap s)
        (if 0 < g then grid_from g (sint w) g else []) (if 0 < g then grid_from g (sint h) g else [])) s)"

definition updateBackground :: "scene_env \<Rightarrow> scene \<Rightarrow> scene" where
  "updateBackground E s = resetBackground E s"

definition sceneRectChanged :: "scene_env \<Rightarrow> scene \<Rightarrow> scene" where
  "sceneRectChanged E s = resetBackground E s"

text \<open>\<^verbatim>\<open>setSceneRect\<close> emits the signal \<^verbatim>\<open>sceneRectChanged\<close> when the rectangle is another one.\<close>

definition set_scene_rect :: "scene_env \<Rightarrow> 32 word \<Rightarrow> 32 word \<Rightarrow> scene \<Rightarrow> scene" where
  "set_scene_rect E w h s =
     (if se_sceneRect E (cv_calls s) = (w, h) then call (SetSceneRect w h) s
      else sceneRectChanged E (call (SetSceneRect w h) s))"

definition drawBackgroundGridLine :: "scene_env \<Rightarrow> int \<Rightarrow> scene \<Rightarrow> scene" where
  "drawBackgroundGridLine E size' s = resetBackground E (s\<lparr>cv_gridLineSize := size'\<rparr>)"

definition scene_setBackgroundColor :: "scene_env \<Rightarrow> QColor \<Rightarrow> scene \<Rightarrow> scene" where
  "scene_setBackgroundColor E c s = resetBackground E (s\<lparr>cv_backgroundColor := c\<rparr>)"

definition clearBackgroundImage :: "scene_env \<Rightarrow> scene \<Rightarrow> scene" where
  "clearBackgroundImage E s = resetBackground E (s\<lparr>cv_backgroundImageItem := None, cv_backgroundPixmap := None\<rparr>)"

definition drawBackgroundImage :: "scene_env \<Rightarrow> (addr \<times> bytes) option \<Rightarrow> scene \<Rightarrow> scene" where
  "drawBackgroundImage E im s =
     (case im of
        None \<Rightarrow> clearBackgroundImage E (s\<lparr>cv_backgroundImageItem := None\<rparr>)
      | Some (a, d) \<Rightarrow>
          (let s = s\<lparr>cv_backgroundImageItem := Some a, cv_backgroundPixmap := Some (ItemPixmap d)\<rparr>;
               (w, h) = se_sceneRect E (cv_calls s); (iw, ih) = se_pixmapSize E (ItemPixmap d);
               w = (if w <s iw then iw else w); h = (if h <s ih then ih else h) in
           resetBackground E (set_scene_rect E w h s)))"

section \<open>The border that blinks around the last item\<close>

definition nextZValue :: "scene_env \<Rightarrow> scene \<Rightarrow> double \<times> scene" where
  "nextZValue E s = (let z = se_add E (cv_currentZValue s) d_0_01 in (z, s\<lparr>cv_currentZValue := z\<rparr>))"

definition clearLastItemBorderRect :: "scene \<Rightarrow> scene" where
  "clearLastItemBorderRect s =
     (let s = (case cv_lastCoverGraphicsItem s of
          None \<Rightarrow> s | Some ob \<Rightarrow> (call (RemoveObject ob) s)\<lparr>cv_lastCoverGraphicsItem := None\<rparr>) in
      s\<lparr>cv_timeoutRemoveLastCoverItem := 0\<rparr>)"

text \<open>\<^verbatim>\<open>Util::getComplementaryColor\<close>.\<close>

definition complement_channel :: "bool \<Rightarrow> int \<Rightarrow> int \<Rightarrow> int" where
  "complement_channel near d r = (if near \<and> \<not> d < 0x20 then if r > 128 then 0 else 255 else r)"

definition getComplementaryColor :: "QColor \<Rightarrow> QColor \<Rightarrow> int \<times> int \<times> int" where
  "getComplementaryColor c l =
     (let r = 255 - uint (c_red c); g = 255 - uint (c_green c); b = 255 - uint (c_blue c);
          dr = \<bar>uint (c_red l) - r\<bar>; dg = \<bar>uint (c_green l) - g\<bar>; db = \<bar>uint (c_blue l) - b\<bar>;
          near = dr + dg + db \<le> 128 in
      (complement_channel near dr r, complement_channel near dg g, complement_channel near db b))"

text \<open>A component that is near the line colour is left alone: of two opposite colours the result is the line's own.\<close>

lemma complementary_of_opposite:
  assumes "uint (c_red l) = 255 - uint (c_red c)" "uint (c_green l) = 255 - uint (c_green c)" "uint (c_blue l) = 255 - uint (c_blue c)"
  shows "getComplementaryColor c l = (uint (c_red l), uint (c_green l), uint (c_blue l))"
  using assms by (simp add: getComplementaryColor_def complement_channel_def)

definition complementary :: "QColor \<Rightarrow> QColor \<Rightarrow> QColor" where
  "complementary c l = (case getComplementaryColor c l of (r, g, b) \<Rightarrow>
     \<lparr>c_red = word_of_int r, c_green = word_of_int g, c_blue = word_of_int b, c_alpha = 255\<rparr>)"

definition drawLastItemBorderRect :: "scene_env \<Rightarrow> scene \<Rightarrow> scene" where
  "drawLastItemBorderRect E s =
     (case Option.bind (cv_lastAddItem s) (object_of s) of
        None \<Rightarrow> s
      | Some ob \<Rightarrow>
          (let path = se_coverPath E (cv_calls s) ob in
           if path = [] then s
           else
             (let (b, s) = new_object PathObject (clearLastItemBorderRect s);
                  s = call (AddObject b) (call (SetPath b path) s);
                  s = call (SetPen b (complementary (cv_backgroundColor s) (cv_penClr s)) 2) s;
                  (z, s) = nextZValue E s;
                  s = (call (SetZValue b z) s)\<lparr>cv_lastCoverGraphicsItem := Some b, cv_lastTempBlinkShowFlag := True\<rparr> in
              s\<lparr>cv_lastTimeValue := se_now E (cv_calls s),
                cv_timeoutRemoveLastCoverItem := DEFAULT_TIMEOUT_REMOVE_LAST_COVER_ITEM\<rparr>)))"

definition setSettingShowLastAddItemBorder :: "scene_env \<Rightarrow> bool \<Rightarrow> scene \<Rightarrow> scene" where
  "setSettingShowLastAddItemBorder E enable s =
     (if cv_showLastAddItemBorderFlag s = enable then s
      else (let s = s\<lparr>cv_showLastAddItemBorderFlag := enable\<rparr> in
        if enable then drawLastItemBorderRect E s else clearLastItemBorderRect s))"

definition startBlinkLastItem :: "scene_env \<Rightarrow> scene \<Rightarrow> scene" where
  "startBlinkLastItem E s =
     (case Option.bind (cv_lastAddItem s) (cv_items s) of
        None \<Rightarrow> s
      | Some i \<Rightarrow>
          (if item_type (si_item i) = PT_LINE \<and> it_mine (si_item i) then s
           else (let s = clearLastItemBorderRect s in
             if cv_showLastAddItemBorderFlag s then drawLastItemBorderRect E s else s)))"

definition scene_onTimer :: "scene_env \<Rightarrow> scene \<Rightarrow> scene" where
  "scene_onTimer E s =
     (case cv_lastCoverGraphicsItem s of
        None \<Rightarrow> s
      | Some ob \<Rightarrow>
          (if cv_timeoutRemoveLastCoverItem s \<le> 0 then s
           else
             (let now = se_now E (cv_calls s);
                  t = cv_timeoutRemoveLastCoverItem s - (now - cv_lastTimeValue s);
                  s = s\<lparr>cv_timeoutRemoveLastCoverItem := t\<rparr>;
                  s = (if 0 < t
                    then (call (if cv_lastTempBlinkShowFlag s then ShowObject ob else HideObject ob) s)
                      \<lparr>cv_lastTempBlinkShowFlag := \<not> cv_lastTempBlinkShowFlag s\<rparr>
                    else s);
                  s = (if t \<le> 0 then clearLastItemBorderRect s else s) in
              s\<lparr>cv_lastTimeValue := now\<rparr>)))"

definition scene_clearScreen :: "scene_env \<Rightarrow> scene \<Rightarrow> scene" where
  "scene_clearScreen E s =
     clearBackgroundImage E (clearLastItemBorderRect
       (s\<lparr>cv_lastAddItem := None, cv_gridLineSize := 0, cv_backgroundColor := q_white,
          cv_currentZValue := double_1\<rparr>))"

section \<open>Modes\<close>

definition clearSelectedItemState :: "scene_env \<Rightarrow> scene \<Rightarrow> scene" where
  "clearSelectedItemState E s = foldl (\<lambda>s ob. call (SetSelected ob False) s) s (se_selectedItems E (cv_calls s))"

definition setFreePenMode :: "scene_env \<Rightarrow> bool \<Rightarrow> scene \<Rightarrow> scene" where
  "setFreePenMode E enable s =
     (let s = s\<lparr>cv_freePenMode := enable\<rparr> in
      if cv_freezeActionFlag s then s
      else if enable
      then call (SetCursor DrawLineCursor) (call (SetDragMode NoDrag) (clearSelectedItemState E s))
      else call (SetCursor PointingHandCursor) (call (SetDragMode RubberBandDrag) s))"

definition freezeAction :: "scene \<Rightarrow> bool \<times> scene" where
  "freezeAction s =
     (if cv_freezeActionFlag s then (False, s)
      else (True, (call (EnableViews False) s)\<lparr>cv_freezeActionFlag := True\<rparr>))"

definition thawAction :: "scene_env \<Rightarrow> scene \<Rightarrow> bool \<times> scene" where
  "thawAction E s =
     (if \<not> cv_freezeActionFlag s then (False, s)
      else (let s = call (EnableViews True) (s\<lparr>cv_freezeActionFlag := False\<rparr>) in
        (True, setFreePenMode E (cv_freePenMode s) s)))"

definition setPenSetting :: "QColor \<Rightarrow> 32 word \<Rightarrow> scene \<Rightarrow> scene" where
  "setPenSetting c w s = s\<lparr>cv_penClr := c, cv_penWidth := w\<rparr>"

definition setHighQualityMoveItems :: "bool \<Rightarrow> scene \<Rightarrow> scene" where
  "setHighQualityMoveItems b s = s\<lparr>cv_highQualityMoveItemMode := b\<rparr>"

section \<open>Objects of items\<close>

text \<open>\<^verbatim>\<open>CMyGraphicItem\<close>: \<^verbatim>\<open>itemData_.lock()\<close> gives the item while it exists.\<close>

definition locked :: "scene \<Rightarrow> object \<Rightarrow> addr option" where
  "locked s ob = (case cv_itemData s ob of None \<Rightarrow> None | Some a \<Rightarrow> if cv_items s a = None then None else Some a)"

definition insert_moving :: "addr \<Rightarrow> addr list \<Rightarrow> addr list" where
  "insert_moving a as = (if a \<in> set as then as else insort a as)"

definition onItemMoving :: "scene_env \<Rightarrow> addr \<Rightarrow> point \<Rightarrow> scene \<Rightarrow> scene" where
  "onItemMoving E a p s =
     (if cv_highQualityMoveItemMode s then fire_event E (EvMoveItem a) (change_item a (setPos (fst p) (snd p)) s)
      else s\<lparr>cv_tempMovingItemList := insert_moving a (cv_tempMovingItemList s)\<rparr>)"

definition itemChange :: "scene_env \<Rightarrow> object \<Rightarrow> point \<Rightarrow> scene \<Rightarrow> scene" where
  "itemChange E ob p s = (case locked s ob of None \<Rightarrow> s | Some a \<Rightarrow> onItemMoving E a p s)"

text \<open>A call of \<^verbatim>\<open>QGraphicsItem::setPos\<close>, and Qt's call back; the same when the user drags the object.\<close>

definition setObjectPos :: "scene_env \<Rightarrow> object \<Rightarrow> double \<Rightarrow> double \<Rightarrow> scene \<Rightarrow> scene" where
  "setObjectPos E ob x y s =
     (let told = se_notifies E (cv_calls s) ob (x, y); s = call (SetObjectPos ob x y) s in
      if told then itemChange E ob (x, y) s else s)"

definition drag :: "scene_env \<Rightarrow> object \<Rightarrow> double \<Rightarrow> double \<Rightarrow> scene \<Rightarrow> scene" where
  "drag E ob x y s =
     (let told = se_notifies E (cv_calls s) ob (x, y); s = call (UserMoved ob x y) s in
      if told then itemChange E ob (x, y) s else s)"

definition attachItem :: "scene_env \<Rightarrow> object \<Rightarrow> addr \<Rightarrow> scene \<Rightarrow> scene" where
  "attachItem E ob a s =
     (let s = s\<lparr>cv_itemData := (cv_itemData s)(ob \<mapsto> a)\<rparr> in
      if cv_items s a = None then s
      else (let s = call (SetData ob (sp_owner (data_of s a)) (sp_itemId (data_of s a))) s;
                p = se_scenePos E (cv_calls s) ob in
        set_object a (Some ob) (change_item a (setPos (fst p) (snd p)) s)))"

definition commonAddItem :: "scene_env \<Rightarrow> addr \<Rightarrow> object \<Rightarrow> ItemBorderType \<Rightarrow> scene \<Rightarrow> scene" where
  "commonAddItem E a ob border s =
     (let s = call (AddObject ob) (call (SetItemFlags ob) (clearSelectedItemState E s));
          tip = se_toolTip E a;
          s = (if tip \<noteq> [] then call (SetToolTip ob tip) s else s) in
      startBlinkLastItem E (s\<lparr>cv_lastItemBorderType := border, cv_lastAddItem := Some a\<rparr>))"

definition place :: "scene_env \<Rightarrow> addr \<Rightarrow> object \<Rightarrow> scene \<Rightarrow> scene" where
  "place E a ob s =
     (if sp_posSetFlag (data_of s a)
      then setObjectPos E ob (sp_posX (data_of s a)) (sp_posY (data_of s a)) s else s)"

definition itemBoundingRect :: "scene \<Rightarrow> addr \<Rightarrow> object option" where
  "itemBoundingRect s a = object_of s a"

definition setScaleImageFileItem :: "scene_env \<Rightarrow> addr \<Rightarrow> qstring \<Rightarrow> object \<Rightarrow> scene \<Rightarrow> scene" where
  "setScaleImageFileItem E a path ob s =
     (let (w, h) = se_fileSize E path;
          newW = (if DEFAULT_PIXMAP_ITEM_SIZE_W <s w then DEFAULT_PIXMAP_ITEM_SIZE_W else w);
          newH = (if DEFAULT_PIXMAP_ITEM_SIZE_W <s w then int_div (h * DEFAULT_PIXMAP_ITEM_SIZE_W) w else h);
          sc = sp_scale (data_of s a) in
      call (SetPixmap ob (ScaledFile path (se_scaled E newW sc) (se_scaled E newH sc))) s)"

section \<open>Drawing items\<close>

definition drawFile :: "scene_env \<Rightarrow> addr \<Rightarrow> qstring \<Rightarrow> scene \<Rightarrow> scene" where
  "drawFile E a path s =
     (let (ob, s) = new_object PixmapObject s;
          s = place E a ob (call (SetPixmap ob (FileIcon path)) s);
          s = call (SetZValue ob (se_int E ZVALUE_TOPMOST)) (attachItem E ob a s) in
      commonAddItem E a ob Border_Rect s)"

definition drawImage :: "scene_env \<Rightarrow> addr \<Rightarrow> bytes \<Rightarrow> scene \<Rightarrow> scene" where
  "drawImage E a d s =
     (let (ob, s) = new_object PixmapObject s;
          s = attachItem E ob a (place E a ob (call (SetPixmap ob (ItemPixmap d)) s));
          (z, s) = nextZValue E s in
      commonAddItem E a ob Border_Rect (call (SetZValue ob z) s))"

definition drawImageFile :: "scene_env \<Rightarrow> addr \<Rightarrow> qstring \<Rightarrow> scene \<Rightarrow> scene" where
  "drawImageFile E a path s =
     (let (ob, s) = new_object PixmapObject s;
          s = attachItem E ob a (place E a ob (setScaleImageFileItem E a path ob s));
          (z, s) = nextZValue E s in
      commonAddItem E a ob Border_Rect (call (SetZValue ob z) s))"

definition drawText :: "scene_env \<Rightarrow> addr \<Rightarrow> qstring \<Rightarrow> QFont \<Rightarrow> QColor \<Rightarrow> scene \<Rightarrow> scene" where
  "drawText E a t f c s =
     (let (ob, s) = new_object TextObject s;
          s = attachItem E ob a (place E a ob (call (SetText ob t f) s));
          (z, s) = nextZValue E (call (SetBrush ob c) s) in
      commonAddItem E a ob Border_Rect (call (SetZValue ob z) s))"

definition drawLine :: "scene_env \<Rightarrow> addr \<Rightarrow> point list \<Rightarrow> QColor \<Rightarrow> 32 word \<Rightarrow> scene \<Rightarrow> scene" where
  "drawLine E a ps c w s =
     (case ps of
        [] \<Rightarrow> s
      | [p] \<Rightarrow>
          (let (ob, s) = new_object EllipseObject s;
               s = place E a ob s;
               s = call (SetRect ob (se_sub E (fst p) (se_int E (int_div w 2))) (se_sub E (snd p) (se_int E (int_div w 2)))
                     (se_int E w) (se_int E w)) s;
               (z, s) = nextZValue E (call (SetBrush ob c) (call (SetPen ob c 1) s)) in
           commonAddItem E a ob Border_Ellipse (attachItem E ob a (call (SetZValue ob z) s)))
      | _ \<Rightarrow>
          (let (ob, s) = new_object PathObject s;
               s = call (SetPen ob c w) (call (SetPath ob ps) (place E a ob s));
               (z, s) = nextZValue E s in
           commonAddItem E a ob Border_PainterPath (attachItem E ob a (call (SetZValue ob z) s))))"

section \<open>Changing and removing items\<close>

definition scene_removeItem :: "scene_env \<Rightarrow> addr \<Rightarrow> scene \<Rightarrow> scene" where
  "scene_removeItem E a s =
     (case object_of s a of
        None \<Rightarrow> s
      | Some ob \<Rightarrow>
          (let s = (if cv_lastAddItem s = Some a then clearLastItemBorderRect s else s) in
           call (Invalidate ob) (call (RemoveObject ob) s)))"

definition scene_updateItem :: "scene_env \<Rightarrow> addr \<Rightarrow> scene \<Rightarrow> scene" where
  "scene_updateItem E a s =
     (case cv_items s a of
        None \<Rightarrow> s
      | Some i \<Rightarrow>
          (case si_object i of
             None \<Rightarrow> s
           | Some ob \<Rightarrow>
               (let s = clearLastItemBorderRect s; it = si_item i;
                    s = (if isScalable it
                      then (case it_content it of
                          ImageFileContent path \<Rightarrow> setScaleImageFileItem E a path ob s
                        | _ \<Rightarrow> call (SetObjectScale ob (sp_scale (it_data it))) s)
                      else s) in
                setObjectPos E ob (sp_posX (it_data it)) (sp_posY (it_data it)) s)))"

definition scene_moveItem :: "scene_env \<Rightarrow> addr \<Rightarrow> double \<Rightarrow> double \<Rightarrow> scene \<Rightarrow> scene" where
  "scene_moveItem E a x y s =
     (case object_of s a of
        None \<Rightarrow> s
      | Some ob \<Rightarrow>
          (let s = call (SetGeometryFlag ob False) (clearLastItemBorderRect s);
               s = setObjectPos E ob x y s in
           call (Invalidate ob) (call (SetGeometryFlag ob True) s)))"

text \<open>The methods of the items that use the canvas, once \<^verbatim>\<open>canvas_\<close> is set.\<close>

definition item_draw :: "scene_env \<Rightarrow> addr \<Rightarrow> scene \<Rightarrow> scene" where
  "item_draw E a s =
     (case cv_items s a of
        None \<Rightarrow> s
      | Some i \<Rightarrow>
          (if \<not> si_canvas i then s
           else (case it_content (si_item i) of
               LineContent ps c w \<Rightarrow> drawLine E a ps c w s
             | ImageContent d \<Rightarrow> drawImage E a d s
             | BgImageContent d \<Rightarrow> drawBackgroundImage E (Some (a, d)) s
             | FileContent path \<Rightarrow> drawFile E a path s
             | ImageFileContent path \<Rightarrow> drawImageFile E a path s
             | TextContent t f c \<Rightarrow> drawText E a t f c s)))"

definition on_canvas :: "scene \<Rightarrow> addr \<Rightarrow> CPaintItem option" where
  "on_canvas s a = (case cv_items s a of None \<Rightarrow> None | Some i \<Rightarrow> if si_canvas i then Some (si_item i) else None)"

definition item_move :: "scene_env \<Rightarrow> addr \<Rightarrow> double \<Rightarrow> double \<Rightarrow> scene \<Rightarrow> scene" where
  "item_move E a x y s =
     (let s' = change_item a (PaintItem.move x y) s in
      case on_canvas s a of
        None \<Rightarrow> s'
      | Some it \<Rightarrow> if item_type it = PT_BG_IMAGE then s' else scene_moveItem E a x y s')"

definition item_update :: "scene_env \<Rightarrow> addr \<Rightarrow> scene \<Rightarrow> scene" where
  "item_update E a s = (if on_canvas s a = None then s else scene_updateItem E a s)"

definition item_remove :: "scene_env \<Rightarrow> addr \<Rightarrow> scene \<Rightarrow> scene" where
  "item_remove E a s =
     (if map_option (item_type \<circ> si_item) (cv_items s a) = Some PT_BG_IMAGE
      then (if on_canvas s a = None then s else clearBackgroundImage E s)
      else set_object a None (if on_canvas s a = None then s else scene_removeItem E a s))"

section \<open>Requests of the user about items\<close>

definition onItemUpdate :: "scene_env \<Rightarrow> addr \<Rightarrow> scene \<Rightarrow> scene" where
  "onItemUpdate E a s = fire_event E (EvUpdateItem a) s"

definition onItemRemove :: "scene_env \<Rightarrow> addr \<Rightarrow> scene \<Rightarrow> scene" where
  "onItemRemove E a s = fire_event E (EvRemoveItem a) s"

definition onItemClipboardCopy :: "addr \<Rightarrow> scene \<Rightarrow> scene" where
  "onItemClipboardCopy a s = call (ClipboardCopy a True) s"

definition wheelEvent :: "scene_env \<Rightarrow> object \<Rightarrow> bool \<Rightarrow> scene \<Rightarrow> scene" where
  "wheelEvent E ob down s =
     (if cv_freePenMode s then s
      else (case locked s ob of
          None \<Rightarrow> s
        | Some a \<Rightarrow>
            (let sc = sp_scale (data_of s a);
                 sc = (if down then se_sub E sc d_step else se_add E sc d_step) in
             if se_less E d_max sc then s
             else if se_less E sc d_step then s
             else onItemUpdate E a (change_item a (setScale sc) s))))"

datatype key = KeyA | KeyC | KeyDelete | OtherKey

definition object_keyPressEvent :: "scene_env \<Rightarrow> object \<Rightarrow> key \<Rightarrow> bool \<Rightarrow> scene \<Rightarrow> scene" where
  "object_keyPressEvent E ob k ctrl s =
     (let s = (case locked s ob of
          None \<Rightarrow> s
        | Some a \<Rightarrow> if k = KeyDelete then onItemRemove E a s
                   else if k = KeyC \<and> ctrl then onItemClipboardCopy a s else s) in
      call BaseHandler s)"

definition mouseDoubleClickEvent :: "object \<Rightarrow> scene \<Rightarrow> scene" where
  "mouseDoubleClickEvent ob s =
     (if cv_freePenMode s then s
      else call BaseHandler (case locked s ob of None \<Rightarrow> s | Some a \<Rightarrow> call (ExecuteItem a) s))"

definition hoverEnterEvent :: "scene \<Rightarrow> scene" where
  "hoverEnterEvent s = (if cv_freePenMode s then s else call (SetCursor OpenHandCursor) s)"

definition hoverLeaveEvent :: "scene \<Rightarrow> scene" where
  "hoverLeaveEvent s = (if cv_freePenMode s then s else call (SetCursor PointingHandCursor) s)"

definition object_mousePressEvent :: "scene \<Rightarrow> scene" where
  "object_mousePressEvent s = call BaseHandler (call (SetCursor ClosedHandCursor) s)"

definition object_mouseReleaseEvent :: "scene \<Rightarrow> scene" where
  "object_mouseReleaseEvent s = call BaseHandler (call (SetCursor OpenHandCursor) s)"

definition findPaintItem :: "scene_env \<Rightarrow> object \<Rightarrow> scene \<Rightarrow> addr option" where
  "findPaintItem E ob s = (case se_dataOf E (cv_calls s) ob of (owner, itemId) \<Rightarrow> se_find E owner itemId)"

fun for_selected :: "scene_env \<Rightarrow> (nat \<Rightarrow> addr \<Rightarrow> scene \<Rightarrow> scene) \<Rightarrow> nat \<Rightarrow> object list \<Rightarrow> scene \<Rightarrow> scene" where
  "for_selected E f i [] s = s"
| "for_selected E f i (ob # obs) s =
     for_selected E f (Suc i) obs (case findPaintItem E ob s of None \<Rightarrow> s | Some a \<Rightarrow> f i a s)"

definition scene_keyPressEvent :: "scene_env \<Rightarrow> key \<Rightarrow> bool \<Rightarrow> scene \<Rightarrow> scene" where
  "scene_keyPressEvent E k ctrl s =
     call BaseHandler
       (if k = KeyA \<and> ctrl then foldl (\<lambda>s ob. call (SetSelected ob True) s) s (se_objects E (cv_calls s))
        else if k = KeyC \<and> ctrl
        then for_selected E (\<lambda>i a. call (ClipboardCopy a (i = 0))) 0 (se_selectedItems E (cv_calls s)) s
        else if k = KeyDelete
        then for_selected E (\<lambda>i a. fire_event E (EvRemoveItem a)) 0 (se_selectedItems E (cv_calls s)) s
        else s)"

text \<open>Dropped files; the addresses of the new items are in \<open>as\<close>.\<close>

definition new_scene_item :: "addr \<Rightarrow> CPaintItem \<Rightarrow> scene \<Rightarrow> scene" where
  "new_scene_item a it s = s\<lparr>cv_items := (cv_items s)(a \<mapsto> \<lparr>si_item = it, si_object = None, si_canvas = False\<rparr>)\<rparr>"

definition addImageFileItem :: "scene_env \<Rightarrow> addr \<Rightarrow> point \<Rightarrow> qstring \<Rightarrow> scene \<Rightarrow> scene" where
  "addImageFileItem E a p path s =
     fire_event E (EvDrawItem a)
       (new_scene_item a (setPos (fst p) (snd p) (setMyItem (new_item (ImageFileContent path)))) s)"

definition addGeneralFileItem :: "scene_env \<Rightarrow> addr \<Rightarrow> point \<Rightarrow> qstring \<Rightarrow> scene \<Rightarrow> scene" where
  "addGeneralFileItem E a p path s =
     fire_event E (EvDrawItem a)
       (new_scene_item a (setPos (fst p) (snd p) (setMyItem (new_item (FileContent path)))) s)"

fun dropEvent :: "scene_env \<Rightarrow> point \<Rightarrow> (addr \<times> qstring) list \<Rightarrow> scene \<Rightarrow> scene" where
  "dropEvent E p [] s = s"
| "dropEvent E p ((a, path) # us) s =
     dropEvent E p us
       (if \<not> se_isFile E path then s
        else if se_isImage E path then addImageFileItem E a p path s
        else addGeneralFileItem E a p path s)"

definition dragEnterEvent :: "scene_env \<Rightarrow> qstring list \<Rightarrow> bool" where
  "dragEnterEvent E paths \<longleftrightarrow> length (filter (se_isFile E) paths) > 0"

section \<open>The mouse\<close>

definition drawLineStart :: "scene_env \<Rightarrow> point \<Rightarrow> QColor \<Rightarrow> 32 word \<Rightarrow> scene \<Rightarrow> scene" where
  "drawLineStart E p c w s =
     (let half = se_div E (se_int E w) d_2;
          (ob, s) = new_object EllipseObject s;
          s = call (SetRect ob (se_sub E (fst p) half) (se_sub E (snd p) half) (se_int E w) (se_int E w)) s;
          s = call (AddObject ob) (call (SetBrush ob c) (call (SetPen ob c 1) s));
          (z, s) = nextZValue E s;
          s = call (SetZValue ob z) s in
      s\<lparr>cv_tempLineItemList := cv_tempLineItemList s @ [ob]\<rparr>)"

definition drawLineTo :: "point \<Rightarrow> point \<Rightarrow> QColor \<Rightarrow> 32 word \<Rightarrow> scene \<Rightarrow> scene" where
  "drawLineTo p q c w s =
     (let (ob, s) = new_object LineObject s;
          s = call (AddObject ob) (call (SetPen ob c w) (call (SetLine ob p q) s));
          s = call (SetZValue ob (cv_currentLineZValue s)) s in
      s\<lparr>cv_tempLineItemList := cv_tempLineItemList s @ [ob]\<rparr>)"

definition cursor_point :: "scene_env \<Rightarrow> point \<Rightarrow> point" where
  "cursor_point E p = (se_add E (fst p) (se_int E CURSOR_OFFSET_X), se_add E (snd p) (se_int E CURSOR_OFFSET_Y))"

text \<open>\<open>a\<close> is the address of the new line.\<close>

definition scene_mousePressEvent :: "scene_env \<Rightarrow> addr \<Rightarrow> point \<Rightarrow> scene \<Rightarrow> scene" where
  "scene_mousePressEvent E a p s =
     (if \<not> cv_freePenMode s then call BaseHandler s
      else if cv_drawFlag s then s
      else
        (let q = cursor_point E p; c = cv_penClr s; w = cv_penWidth s;
             line = setMyItem (addPoint q (new_item (LineContent [] c w)));
             s = (new_scene_item a line s)\<lparr>cv_prevPos := q, cv_drawFlag := True, cv_currLineItem := Some a\<rparr>;
             (z, s) = nextZValue E s in
         drawLineStart E q c w (s\<lparr>cv_currentLineZValue := z\<rparr>)))"

definition line_color :: "scene \<Rightarrow> addr \<Rightarrow> QColor \<times> 32 word" where
  "line_color s a = (case cv_items s a of
     Some i \<Rightarrow> (case it_content (si_item i) of LineContent ps c w \<Rightarrow> (c, w) | _ \<Rightarrow> (cv_penClr s, cv_penWidth s))
   | None \<Rightarrow> (cv_penClr s, cv_penWidth s))"

definition scene_mouseMoveEvent :: "scene_env \<Rightarrow> point \<Rightarrow> scene \<Rightarrow> scene" where
  "scene_mouseMoveEvent E p s =
     (if \<not> cv_freePenMode s then call BaseHandler s
      else if \<not> cv_drawFlag s then s
      else
        (let q = cursor_point E p;
             s = (case cv_currLineItem s of
                 None \<Rightarrow> s
               | Some a \<Rightarrow> change_item a (addPoint q)
                   (drawLineTo (cv_prevPos s) q (fst (line_color s a)) (snd (line_color s a)) s)) in
         s\<lparr>cv_prevPos := q\<rparr>))"

text \<open>The items that were dragged, in the order of their addresses, at the positions that Qt reports.\<close>

fun move_each :: "scene_env \<Rightarrow> addr list \<Rightarrow> scene \<Rightarrow> scene" where
  "move_each E [] s = s"
| "move_each E (a # as) s =
     move_each E as
       (case object_of s a of
          None \<Rightarrow> s
        | Some ob \<Rightarrow>
            (let p = se_scenePos E (cv_calls s) ob in
             fire_event E (EvMoveItem a) (change_item a (setPos (fst p) (snd p)) s)))"

definition doLowQualityMoveItems :: "scene_env \<Rightarrow> scene \<Rightarrow> scene" where
  "doLowQualityMoveItems E s =
     (if cv_tempMovingItemList s = [] then s
      else (move_each E (cv_tempMovingItemList s) s)\<lparr>cv_tempMovingItemList := []\<rparr>)"

text \<open>\<^verbatim>\<open>currLineItem_\<close> is set whenever \<^verbatim>\<open>drawFlag_\<close> is.\<close>

definition scene_mouseReleaseEvent :: "scene_env \<Rightarrow> scene \<Rightarrow> scene" where
  "scene_mouseReleaseEvent E s =
     (if \<not> cv_freePenMode s then call BaseHandler (doLowQualityMoveItems E s)
      else if \<not> cv_drawFlag s then s
      else
        (let s = s\<lparr>cv_drawFlag := False\<rparr>;
             s = (case cv_currLineItem s of None \<Rightarrow> s | Some a \<Rightarrow> fire_event E (EvDrawItem a) s);
             s = s\<lparr>cv_currLineItem := None\<rparr>;
             s = foldl (\<lambda>s ob. call (RemoveObject ob) s) s (cv_tempLineItemList s) in
         resetBackground E (s\<lparr>cv_tempLineItemList := []\<rparr>)))"

section \<open>What Qt is assumed to do\<close>

text \<open>Whether an object is to report its moves, after a list of calls.\<close>

fun flag_after :: "object \<Rightarrow> bool \<Rightarrow> scene_call list \<Rightarrow> bool" where
  "flag_after ob f [] = f"
| "flag_after ob f (c # cs) = flag_after ob (case c of SetItemFlags ob' \<Rightarrow> (if ob' = ob then True else f)
     | SetGeometryFlag ob' b \<Rightarrow> (if ob' = ob then b else f) | _ \<Rightarrow> f) cs"

definition geometry_flag :: "scene_call list \<Rightarrow> object \<Rightarrow> bool" where
  "geometry_flag cs ob = flag_after ob False cs"

lemma flag_after_append [simp]: "flag_after ob f (cs @ ds) = flag_after ob (flag_after ob f cs) ds"
  by (induction cs arbitrary: f) simp_all

text \<open>Qt tells of a move only when the object is to report its moves.\<close>

definition tells_if_asked :: "scene_env \<Rightarrow> bool" where
  "tells_if_asked E \<longleftrightarrow> (\<forall>cs ob p. se_notifies E cs ob p \<longrightarrow> geometry_flag cs ob)"

text \<open>It then tells of every move to another position.\<close>

definition tells_moves :: "scene_env \<Rightarrow> bool" where
  "tells_moves E \<longleftrightarrow> (\<forall>cs ob p. se_notifies E cs ob p \<longleftrightarrow> geometry_flag cs ob \<and> se_scenePos E cs ob \<noteq> p)"

text \<open>An object stays where it is until it is moved.\<close>

definition moves_object :: "object \<Rightarrow> scene_call \<Rightarrow> bool" where
  "moves_object ob c \<longleftrightarrow> (case c of SetObjectPos ob' x y \<Rightarrow> ob' = ob | UserMoved ob' x y \<Rightarrow> ob' = ob | _ \<Rightarrow> False)"

definition keeps_positions :: "scene_env \<Rightarrow> bool" where
  "keeps_positions E \<longleftrightarrow> (\<forall>cs c ob. \<not> moves_object ob c \<longrightarrow> se_scenePos E (cs @ [c]) ob = se_scenePos E cs ob)"

text \<open>A call of \<^verbatim>\<open>setPos\<close> takes effect.\<close>

definition puts_objects :: "scene_env \<Rightarrow> bool" where
  "puts_objects E \<longleftrightarrow> (\<forall>cs ob x y. se_scenePos E (cs @ [SetObjectPos ob x y]) ob = (x, y))"

text \<open>A Qt that does so, and a scene in pen mode.\<close>

fun pos_after :: "object \<Rightarrow> point \<Rightarrow> scene_call list \<Rightarrow> point" where
  "pos_after ob p [] = p"
| "pos_after ob p (c # cs) = pos_after ob (case c of SetObjectPos ob' x y \<Rightarrow> (if ob' = ob then (x, y) else p)
     | UserMoved ob' x y \<Rightarrow> (if ob' = ob then (x, y) else p) | _ \<Rightarrow> p) cs"

lemma pos_after_append [simp]: "pos_after ob p (cs @ ds) = pos_after ob (pos_after ob p cs) ds"
  by (induction cs arbitrary: p) simp_all

definition sample_env :: scene_env where
  "sample_env = \<lparr>se_add = (+), se_sub = (-), se_div = (\<lambda>a b. a), se_less = (<), se_int = ucast,
     se_scaled = (\<lambda>n d. n), se_scenePos = (\<lambda>cs ob. pos_after ob (0, 0) cs),
     se_notifies = (\<lambda>cs ob p. geometry_flag cs ob \<and> pos_after ob (0, 0) cs \<noteq> p),
     se_sceneRect = (\<lambda>cs. (640, 480)), se_selectedItems = (\<lambda>cs. []), se_objects = (\<lambda>cs. []),
     se_dataOf = (\<lambda>cs ob. ([], 0)), se_now = (\<lambda>cs. 0), se_coverPath = (\<lambda>cs ob. []),
     se_pixmapSize = (\<lambda>p. (1, 1)), se_fileSize = (\<lambda>p. (1, 1)), se_isFile = (\<lambda>p. True), se_isImage = (\<lambda>p. False),
     se_toolTip = (\<lambda>a. []), se_find = (\<lambda>o' i. None), se_handle = (\<lambda>ev s. s)\<rparr>"

lemma sample_qt_moves: "tells_if_asked sample_env" "tells_moves sample_env" "keeps_positions sample_env" "puts_objects sample_env"
  by (auto simp: sample_env_def tells_if_asked_def tells_moves_def keeps_positions_def puts_objects_def moves_object_def
      split: scene_call.split)

definition pen_scene :: scene where
  "pen_scene = (new_scene 0 0 Border_Rect)\<lparr>cv_freePenMode := True\<rparr>"

end
