(* ===== verification/SceneStroke.thy ===== *)
theory SceneStroke
  imports Scene
begin

text \<open>
  What the canvas tells the main window: one new item for a free-hand stroke, one move for every item
  that was dragged, nothing for what the network moves.
\<close>

section \<open>The calls of an operation\<close>

definition fired :: "scene_call list \<Rightarrow> scene_event list" where
  "fired cs = List.map_filter (\<lambda>c. case c of Fired ev \<Rightarrow> Some ev | _ \<Rightarrow> None) cs"

lemma fired_simps [simp]:
  "fired [] = []" "fired (cs @ ds) = fired cs @ fired ds" "fired (Fired ev # cs) = ev # fired cs"
  "(\<And>ev. c \<noteq> Fired ev) \<Longrightarrow> fired (c # cs) = fired cs"
  by (auto simp: fired_def List.map_filter_def split: scene_call.splits)

text \<open>The stroke that is being drawn.\<close>

definition same_stroke :: "scene \<Rightarrow> scene \<Rightarrow> bool" where
  "same_stroke s s' \<longleftrightarrow> cv_drawFlag s' = cv_drawFlag s \<and> cv_freePenMode s' = cv_freePenMode s
     \<and> cv_currLineItem s' = cv_currLineItem s \<and> cv_tempLineItemList s' = cv_tempLineItemList s"

definition stroke :: "scene_env \<Rightarrow> addr \<Rightarrow> point \<Rightarrow> point list \<Rightarrow> scene \<Rightarrow> scene" where
  "stroke E a p qs s = foldl (\<lambda>s q. scene_mouseMoveEvent E q s) (scene_mousePressEvent E a p s) qs"

text \<open>What holds while the points \<open>ps\<close> are drawn, from the calls \<open>cs0\<close> on.\<close>

definition stroking :: "scene_call list \<Rightarrow> addr \<Rightarrow> point list \<Rightarrow> QColor \<Rightarrow> 32 word \<Rightarrow> scene \<Rightarrow> bool" where
  "stroking cs0 a ps c w s \<longleftrightarrow> cv_freePenMode s \<and> cv_drawFlag s \<and> cv_currLineItem s = Some a
     \<and> map_option (\<lambda>i. (it_content (si_item i), it_mine (si_item i))) (cv_items s a) = Some (LineContent ps c w, True)
     \<and> (\<exists>cs. cv_calls s = cs0 @ cs \<and> fired cs = []
          \<and> (\<forall>ob cl. NewObject ob cl \<in> set cs \<longrightarrow> ob \<in> set (cv_tempLineItemList s)))"

lemmas mouse_defs = drawLineStart_def drawLineTo_def new_object_def nextZValue_def new_scene_item_def
  call_def change_item_def Let_def

lemma press_stroking:
  assumes "cv_freePenMode s" "\<not> cv_drawFlag s" "cv_tempLineItemList s = []"
  shows "stroking (cv_calls s) a [cursor_point E p] (cv_penClr s) (cv_penWidth s) (scene_mousePressEvent E a p s)"
  using assms by (auto simp: stroking_def scene_mousePressEvent_def mouse_defs setMyItem_def new_item_def)

lemma move_stroking:
  assumes "stroking cs0 a ps c w s"
  shows "stroking cs0 a (ps @ [cursor_point E q]) c w (scene_mouseMoveEvent E q s)"
proof -
  obtain i where i: "cv_items s a = Some i" "it_content (si_item i) = LineContent ps c w" "it_mine (si_item i)"
    using assms by (auto simp: stroking_def)
  obtain cs where "cv_calls s = cs0 @ cs" "fired cs = []"
    "\<forall>ob cl. NewObject ob cl \<in> set cs \<longrightarrow> ob \<in> set (cv_tempLineItemList s)"
    using assms by (auto simp: stroking_def)
  then show ?thesis using assms i
    by (auto simp: stroking_def scene_mouseMoveEvent_def mouse_defs line_color_def)
qed

lemma stroke_stroking:
  assumes "cv_freePenMode s" "\<not> cv_drawFlag s" "cv_tempLineItemList s = []"
  shows "stroking (cv_calls s) a (map (cursor_point E) (p # qs)) (cv_penClr s) (cv_penWidth s) (stroke E a p qs s)"
proof (induction qs rule: rev_induct)
  case Nil
  then show ?case using press_stroking [OF assms] by (simp add: stroke_def)
next
  case (snoc q qs)
  from move_stroking [OF this, of E q] show ?case by (simp add: stroke_def)
qed

lemma remove_all_calls:
  "foldl (\<lambda>s ob. call (RemoveObject ob) s) s obs = s\<lparr>cv_calls := cv_calls s @ map RemoveObject obs\<rparr>"
  by (induction obs arbitrary: s) (simp_all add: call_def)

lemma fired_removes [simp]: "fired (map RemoveObject obs) = []"
  by (induction obs) simp_all

lemma resetBackground_calls: "\<exists>c. resetBackground E s = s\<lparr>cv_calls := cv_calls s @ [c]\<rparr> \<and> fired [c] = []"
  by (auto simp: resetBackground_def call_def Let_def split: prod.splits)

text \<open>C22: A free-hand stroke, from the press of the mouse over its moves to the release, makes one item: the
  main window is told once, and at that time the item is a line of the user with exactly the points of the
  press and of the moves, in order, and the colour and width that the pen had at the press.  What was
  drawn on the way is removed, and no stroke is left open, whatever the main window does with the item.\<close>

theorem stroke_makes_one_item:
  assumes "cv_freePenMode s" "\<not> cv_drawFlag s" "cv_tempLineItemList s = []"
    and window: "\<And>ev u. same_stroke u (se_handle E ev u)"
  shows "let u = (stroke E a p qs s)\<lparr>cv_drawFlag := False\<rparr>; v = fire_event E (EvDrawItem a) u;
             s' = scene_mouseReleaseEvent E (stroke E a p qs s) in
    (\<exists>cs cs'. cv_calls u = cv_calls s @ cs \<and> fired cs = [] \<and> cv_calls s' = cv_calls v @ cs' \<and> fired cs' = []
       \<and> (\<forall>ob cl. NewObject ob cl \<in> set cs \<longrightarrow> RemoveObject ob \<in> set cs'))
    \<and> (\<exists>i. cv_items u a = Some i \<and> it_mine (si_item i)
         \<and> it_content (si_item i) = LineContent (map (cursor_point E) (p # qs)) (cv_penClr s) (cv_penWidth s))
    \<and> \<not> cv_drawFlag s' \<and> cv_currLineItem s' = None \<and> cv_tempLineItemList s' = []"
proof -
  let ?t = "stroke E a p qs s"
  let ?u = "?t\<lparr>cv_drawFlag := False\<rparr>"
  let ?v = "fire_event E (EvDrawItem a) ?u"
  have st: "stroking (cv_calls s) a (map (cursor_point E) (p # qs)) (cv_penClr s) (cv_penWidth s) ?t"
    by (rule stroke_stroking) fact+
  have v: "cv_tempLineItemList ?v = cv_tempLineItemList ?t" "\<not> cv_drawFlag ?v"
    using window [of "call (Fired (EvDrawItem a)) ?u" "EvDrawItem a"] by (simp_all add: fire_event_def call_def same_stroke_def)
  let ?w = "foldl (\<lambda>s ob. call (RemoveObject ob) s) (?v\<lparr>cv_currLineItem := None\<rparr>) (cv_tempLineItemList ?t)"
  have "scene_mouseReleaseEvent E ?t = resetBackground E (?w\<lparr>cv_tempLineItemList := []\<rparr>)"
    using st v by (auto simp: scene_mouseReleaseEvent_def stroking_def Let_def)
  moreover obtain c where "fired [c] = []" "resetBackground E (?w\<lparr>cv_tempLineItemList := []\<rparr>)
      = ?w\<lparr>cv_tempLineItemList := [], cv_calls := cv_calls ?w @ [c]\<rparr>"
    using resetBackground_calls [of E "?w\<lparr>cv_tempLineItemList := []\<rparr>"] by auto
  ultimately have c: "fired [c] = []"
    "cv_calls (scene_mouseReleaseEvent E ?t) = cv_calls ?v @ map RemoveObject (cv_tempLineItemList ?t) @ [c]"
    "cv_drawFlag (scene_mouseReleaseEvent E ?t) = cv_drawFlag ?v" "cv_currLineItem (scene_mouseReleaseEvent E ?t) = None"
    "cv_tempLineItemList (scene_mouseReleaseEvent E ?t) = []"
    by (simp_all add: remove_all_calls)
  obtain cs where cs: "cv_calls ?t = cv_calls s @ cs" "fired cs = []"
    "\<forall>ob cl. NewObject ob cl \<in> set cs \<longrightarrow> ob \<in> set (cv_tempLineItemList ?t)"
    using st by (auto simp: stroking_def)
  have "\<exists>cs cs'. cv_calls ?u = cv_calls s @ cs \<and> fired cs = []
      \<and> cv_calls (scene_mouseReleaseEvent E ?t) = cv_calls ?v @ cs' \<and> fired cs' = []
      \<and> (\<forall>ob cl. NewObject ob cl \<in> set cs \<longrightarrow> RemoveObject ob \<in> set cs')"
    using cs c by (intro exI [of _ cs] exI [of _ "map RemoveObject (cv_tempLineItemList ?t) @ [c]"]) auto
  moreover have "\<exists>i. cv_items ?u a = Some i \<and> it_mine (si_item i)
      \<and> it_content (si_item i) = LineContent (map (cursor_point E) (p # qs)) (cv_penClr s) (cv_penWidth s)"
    using st by (auto simp: stroking_def)
  ultimately show ?thesis using c(3-5) v(2) by (simp add: Let_def)
qed

lemma stroke_makes_one_item_witness:
  "\<not> cv_drawFlag (scene_mouseReleaseEvent sample_env (stroke sample_env 3 (1, 1) [(2, 2), (3, 2)] pen_scene))"
  using stroke_makes_one_item [of pen_scene sample_env 3 "(1, 1)" "[(2, 2), (3, 2)]"]
  by (simp add: pen_scene_def new_scene_def sample_env_def same_stroke_def Let_def)

end
