(* ===== verification/SceneKeeps.thy ===== *)
theory SceneKeeps
  imports SceneStroke
begin

text \<open>
  What the operations of the scene that draw, change and remove items keep.  The locale
  \<open>scene_keeps\<close> asks for a predicate that the basic steps keep, and gives that every such operation
  keeps it; it is interpreted on the stroke that is being drawn and on the tables of the scene.
\<close>

section \<open>The interface\<close>

text \<open>The fields that say which items and objects there are; the others are how they look.\<close>

definition same_core :: "scene \<Rightarrow> scene \<Rightarrow> bool" where
  "same_core s s' \<longleftrightarrow> cv_drawFlag s' = cv_drawFlag s \<and> cv_freePenMode s' = cv_freePenMode s
     \<and> cv_currLineItem s' = cv_currLineItem s \<and> cv_tempLineItemList s' = cv_tempLineItemList s
     \<and> cv_tempMovingItemList s' = cv_tempMovingItemList s \<and> cv_items s' = cv_items s
     \<and> cv_itemData s' = cv_itemData s \<and> cv_next s' = cv_next s \<and> cv_calls s' = cv_calls s"

text \<open>\<open>K (Some ob)\<close> holds while \<open>ob\<close> is a new object that belongs to no item yet.\<close>

locale scene_keeps =
  fixes K :: "object option \<Rightarrow> scene \<Rightarrow> bool" and E :: scene_env
  assumes k_call: "K x s \<Longrightarrow> (\<And>ev. c \<noteq> Fired ev) \<Longrightarrow> K x (call c s)"
    and k_fire: "K None s \<Longrightarrow> K None (fire_event E ev s)"
    and k_change: "K x s \<Longrightarrow> K x (change_item a f s)"
    and k_new: "K None s \<Longrightarrow> K (Some (fst (new_object cl s))) (snd (new_object cl s))"
    and k_drop: "K (Some ob) s \<Longrightarrow> K None s"
    and k_pos: "K (Some ob) s \<Longrightarrow> K (Some ob) (setObjectPos E ob px py s)"
    and k_data: "K (Some ob) s \<Longrightarrow> K None (attachItem E ob a s)"
    and k_unset: "K None s \<Longrightarrow> K None (set_object a None s)"
    and k_moving: "K None s \<Longrightarrow> K None (s\<lparr>cv_tempMovingItemList := insert_moving a (cv_tempMovingItemList s)\<rparr>)"
    and k_core: "K x s \<Longrightarrow> same_core s s' \<Longrightarrow> K x s'"
    and k_item: "K None s \<Longrightarrow> K None (new_scene_item a it s)"
begin

lemma k_fields [intro]:
  assumes "K x s"
  shows "K x (s\<lparr>cv_backgroundPixmap := v1\<rparr>)" "K x (s\<lparr>cv_backgroundImageItem := v2\<rparr>)"
    "K x (s\<lparr>cv_currentZValue := v3\<rparr>)" "K x (s\<lparr>cv_backgroundColor := v4\<rparr>)" "K x (s\<lparr>cv_gridLineSize := v5\<rparr>)"
    "K x (s\<lparr>cv_lastCoverGraphicsItem := v6\<rparr>)" "K x (s\<lparr>cv_lastTimeValue := v7\<rparr>)"
    "K x (s\<lparr>cv_timeoutRemoveLastCoverItem := v8\<rparr>)" "K x (s\<lparr>cv_lastItemBorderType := v9\<rparr>)"
    "K x (s\<lparr>cv_lastAddItem := v10\<rparr>)" "K x (s\<lparr>cv_lastTempBlinkShowFlag := v11\<rparr>)"
    "K x (s\<lparr>cv_showLastAddItemBorderFlag := v12\<rparr>)"
  by (rule k_core [OF assms], simp add: same_core_def)+

lemma k_calls [intro]:
  "K x s \<Longrightarrow> K x (foldl (\<lambda>s ob. call (SetSelected ob b) s) s obs)"
  "K x s \<Longrightarrow> K x (resetBackground E s)"
  by (induction obs arbitrary: s) (auto simp: resetBackground_def Let_def intro: k_call split: prod.splits)

lemma k_select [intro]: "K x s \<Longrightarrow> K x (clearSelectedItemState E s)"
  unfolding clearSelectedItemState_def by (rule k_calls)

lemma k_background:
  assumes "K x s"
  shows "K x (updateBackground E s)" "K x (sceneRectChanged E s)" "K x (drawBackgroundGridLine E g s)"
    "K x (scene_setBackgroundColor E c s)" "K x (clearBackgroundImage E s)"
  using assms by (auto simp: updateBackground_def sceneRectChanged_def drawBackgroundGridLine_def
      scene_setBackgroundColor_def clearBackgroundImage_def)

lemma k_rect: "K x s \<Longrightarrow> K x (set_scene_rect E w h s)"
  by (auto simp: set_scene_rect_def intro!: k_call k_background)

lemma k_image: "K x s \<Longrightarrow> K x (drawBackgroundImage E im s)"
  by (auto simp: drawBackgroundImage_def Let_def split: option.split prod.splits intro!: k_background k_rect)

lemma k_clear: "K x s \<Longrightarrow> K x (clearLastItemBorderRect s)"
  by (auto simp: clearLastItemBorderRect_def Let_def split: option.split intro!: k_call)

lemma k_z: "K x s \<Longrightarrow> K x (snd (nextZValue E s))"
  by (auto simp: nextZValue_def Let_def)

lemma k_border: "K None s \<Longrightarrow> K None (drawLastItemBorderRect E s)"
  unfolding drawLastItemBorderRect_def Let_def split_def
  by (auto split: option.split intro!: k_fields k_call k_z intro: k_drop [OF k_new [OF k_clear]])

lemma k_blink: "K None s \<Longrightarrow> K None (startBlinkLastItem E s)"
  by (auto simp: startBlinkLastItem_def Let_def split: option.split intro!: k_clear k_border)

lemma k_setting: "K None s \<Longrightarrow> K None (setSettingShowLastAddItemBorder E b s)"
  by (auto simp: setSettingShowLastAddItemBorder_def Let_def intro!: k_clear k_border)

lemma k_timer: "K None s \<Longrightarrow> K None (scene_onTimer E s)"
  by (auto simp: scene_onTimer_def Let_def split: option.split intro!: k_clear k_call)

lemma k_clearScreen: "K None s \<Longrightarrow> K None (scene_clearScreen E s)"
  by (auto simp: scene_clearScreen_def intro!: k_background k_clear)

lemma k_onItemMoving: "K None s \<Longrightarrow> K None (onItemMoving E a p s)"
  by (auto simp: onItemMoving_def intro!: k_fire k_change k_moving)

lemma k_itemChange: "K None s \<Longrightarrow> K None (itemChange E ob p s)"
  by (auto simp: itemChange_def split: option.split intro!: k_onItemMoving)

lemma k_setObjectPos: "K None s \<Longrightarrow> K None (setObjectPos E ob px py s)"
  by (auto simp: setObjectPos_def Let_def intro!: k_itemChange k_call)

lemma k_drag: "K None s \<Longrightarrow> K None (drag E ob px py s)"
  by (auto simp: drag_def Let_def intro!: k_itemChange k_call)

lemma k_common: "K None s \<Longrightarrow> K None (commonAddItem E a ob b s)"
  by (auto simp: commonAddItem_def Let_def intro!: k_blink k_call)

lemma k_place: "K (Some ob) s \<Longrightarrow> K (Some ob) (place E a ob s)"
  by (auto simp: place_def intro: k_pos)

lemma k_scaled: "K x s \<Longrightarrow> K x (setScaleImageFileItem E a path ob s)"
  by (auto simp: setScaleImageFileItem_def Let_def split: prod.split intro!: k_call)

lemmas k_rules = k_common k_data k_place k_scaled k_call

lemma k_draws:
  assumes "K None s"
  shows "K None (drawFile E a path s)" "K None (drawImage E a d s)" "K None (drawImageFile E a path s)"
    "K None (drawText E a t f c s)"
  unfolding drawFile_def drawImage_def drawImageFile_def drawText_def Let_def split_def
  using assms by (auto intro!: k_rules k_z k_new)

lemma k_line: "K None s \<Longrightarrow> K None (drawLine E a ps c w s)"
  unfolding drawLine_def Let_def split_def
  by (auto split: list.split intro!: k_rules k_z k_new)

lemma k_removeItem: "K None s \<Longrightarrow> K None (scene_removeItem E a s)"
  by (auto simp: scene_removeItem_def Let_def split: option.split intro!: k_clear k_call)

lemma k_updateItem: "K None s \<Longrightarrow> K None (scene_updateItem E a s)"
  by (auto simp: scene_updateItem_def Let_def split: option.split content.split
      intro!: k_setObjectPos k_clear k_call k_scaled)

lemma k_moveItem: "K None s \<Longrightarrow> K None (scene_moveItem E a px py s)"
  by (auto simp: scene_moveItem_def Let_def split: option.split intro!: k_setObjectPos k_clear k_call)

lemma k_items:
  assumes "K None s"
  shows "K None (item_draw E a s)" "K None (item_move E a px py s)" "K None (item_update E a s)"
    "K None (item_remove E a s)"
  using assms by (auto simp: item_draw_def item_move_def item_update_def item_remove_def Let_def
      split: option.split content.split
      intro!: k_draws k_line k_image k_moveItem k_updateItem k_removeItem k_change k_unset k_background)

lemma k_requests:
  assumes "K None s"
  shows "K None (wheelEvent E ob down s)" "K None (object_keyPressEvent E ob k ctrl s)"
    "K None (mouseDoubleClickEvent ob s)" "K None (onItemUpdate E a s)" "K None (onItemRemove E a s)"
    "K None (onItemClipboardCopy a s)"
  using assms by (auto simp: wheelEvent_def object_keyPressEvent_def mouseDoubleClickEvent_def onItemUpdate_def
      onItemRemove_def onItemClipboardCopy_def Let_def split: option.split intro!: k_call k_fire k_change)

lemma k_selected:
  assumes "\<And>i a s. K None s \<Longrightarrow> K None (f i a s)"
  shows "K None s \<Longrightarrow> K None (for_selected E f i obs s)"
  using assms by (induction obs arbitrary: i s) (auto split: option.split)

lemma k_keys: "K None s \<Longrightarrow> K None (scene_keyPressEvent E k ctrl s)"
  unfolding scene_keyPressEvent_def
  by (auto intro!: k_call k_selected k_fire)

lemma k_drop_files: "K None s \<Longrightarrow> K None (dropEvent E p us s)"
proof (induction us arbitrary: s)
  case (Cons u us)
  obtain a path where u: "u = (a, path)" by (cases u)
  have "K None (addImageFileItem E a p path s)" "K None (addGeneralFileItem E a p path s)"
    unfolding addImageFileItem_def addGeneralFileItem_def using Cons.prems by (simp_all add: k_fire k_item)
  then show ?case unfolding u dropEvent.simps using Cons.prems by (intro Cons.IH) simp
qed simp

lemma k_move_each: "K None s \<Longrightarrow> K None (move_each E as s)"
  by (induction as arbitrary: s) (auto simp: Let_def split: option.split intro!: k_fire k_change)

end

section \<open>The stroke that is being drawn\<close>

lemma same_stroke_trans: "same_stroke s t \<Longrightarrow> same_stroke t u \<Longrightarrow> same_stroke s u"
  by (simp add: same_stroke_def)

lemmas step_defs = call_def change_item_def new_object_def set_object_def new_scene_item_def same_core_def

lemma stroke_kept:
  assumes window: "\<And>ev u. same_stroke u (se_handle E ev u)"
  shows "scene_keeps (\<lambda>x. same_stroke s0) E"
proof -
  have fires: "same_stroke s0 (fire_event E ev s)" if "same_stroke s0 s" for ev s
    unfolding fire_event_def by (rule same_stroke_trans [OF _ window]) (use that in \<open>simp add: same_stroke_def call_def\<close>)
  have moves: "same_stroke s0 (onItemMoving E a p s)" if "same_stroke s0 s" for a p s
    using that fires by (auto simp: onItemMoving_def same_stroke_def change_item_def)
  show ?thesis
  proof
    fix ob px py s assume "same_stroke s0 s"
    then have "same_stroke s0 (call (SetObjectPos ob px py) s)" by (simp add: same_stroke_def call_def)
    with moves show "same_stroke s0 (setObjectPos E ob px py s)"
      by (auto simp: setObjectPos_def itemChange_def Let_def split: option.split)
  qed (auto simp: same_stroke_def step_defs attachItem_def Let_def fires [unfolded same_stroke_def])
qed

section \<open>The tables of the scene\<close>

text \<open>
  The object of an item carries that item, every object there is has been made, what is drawn on the
  way belongs to no item, and the set of items that are being moved is a set.
\<close>

definition scene_ok :: "scene \<Rightarrow> bool" where
  "scene_ok s \<longleftrightarrow> (\<forall>ob. cv_itemData s ob \<noteq> None \<longrightarrow> ob < cv_next s)
     \<and> (\<forall>a ob. object_of s a = Some ob \<longrightarrow> cv_itemData s ob = Some a)
     \<and> (\<forall>ob \<in> set (cv_tempLineItemList s). ob < cv_next s \<and> cv_itemData s ob = None)
     \<and> sorted (cv_tempMovingItemList s) \<and> distinct (cv_tempMovingItemList s)
     \<and> (cv_drawFlag s \<longrightarrow> cv_currLineItem s \<noteq> None)"

definition scene_ok_with :: "object option \<Rightarrow> scene \<Rightarrow> bool" where
  "scene_ok_with x s \<longleftrightarrow> scene_ok s \<and> (\<forall>ob. x = Some ob \<longrightarrow>
     ob < cv_next s \<and> cv_itemData s ob = None \<and> ob \<notin> set (cv_tempLineItemList s))"

lemma object_of_simps [simp]:
  "object_of (call c s) a = object_of s a"
  "object_of (change_item b f s) a = object_of s a"
  by (auto simp: object_of_def call_def change_item_def split: option.split)

lemma insert_moving_set:
  "sorted as \<Longrightarrow> sorted (insert_moving a as)" "distinct as \<Longrightarrow> distinct (insert_moving a as)"
  "set (insert_moving a as) = insert a (set as)"
  by (auto simp: insert_moving_def sorted_insort distinct_insort set_insort_key)

lemma tables_kept:
  assumes window: "\<And>ev u. scene_ok u \<Longrightarrow> scene_ok (se_handle E ev u)"
  shows "scene_keeps scene_ok_with E"
proof
  fix ob px py s assume s: "scene_ok_with (Some ob) s"
  then have "locked s ob = None" by (simp add: scene_ok_with_def locked_def)
  then show "scene_ok_with (Some ob) (setObjectPos E ob px py s)"
    using s by (auto simp: setObjectPos_def itemChange_def scene_ok_with_def scene_ok_def call_def locked_def
        object_of_def Let_def)
next
  fix ev s assume "scene_ok_with None s"
  then have "scene_ok (call (Fired ev) s)" by (simp add: scene_ok_with_def scene_ok_def call_def object_of_def)
  then show "scene_ok_with None (fire_event E ev s)" using window by (simp add: scene_ok_with_def fire_event_def)
next
  fix ob a s assume "scene_ok_with (Some ob) s"
  then show "scene_ok_with None (attachItem E ob a s)"
    by (auto simp: scene_ok_with_def scene_ok_def attachItem_def set_object_def change_item_def call_def object_of_def Let_def
        split: option.splits if_splits)
next
  fix x s s' assume "scene_ok_with x s" "same_core s s'"
  then show "scene_ok_with x s'" by (auto simp: scene_ok_with_def scene_ok_def same_core_def object_of_def)
next
  fix s cl assume "scene_ok_with None s"
  then show "scene_ok_with (Some (fst (new_object cl s))) (snd (new_object cl s))"
    by (force simp: scene_ok_with_def scene_ok_def new_object_def call_def object_of_def)
next
  fix s a assume "scene_ok_with None s"
  then show "scene_ok_with None (set_object a None s)"
    by (auto simp: scene_ok_with_def scene_ok_def set_object_def object_of_def split: option.splits if_splits)
next
  fix s a it assume "scene_ok_with None s"
  then show "scene_ok_with None (new_scene_item a it s)"
    by (auto simp: scene_ok_with_def scene_ok_def new_scene_item_def object_of_def split: option.splits if_splits)
next
  fix s a assume "scene_ok_with None s"
  then show "scene_ok_with None (s\<lparr>cv_tempMovingItemList := insert_moving a (cv_tempMovingItemList s)\<rparr>)"
    by (auto simp: scene_ok_with_def scene_ok_def insert_moving_set object_of_def)
next
  fix x c s assume "scene_ok_with x s"
  then show "scene_ok_with x (call c s)"
    by (simp add: scene_ok_with_def scene_ok_def) (simp add: call_def)
next
  fix x a f s assume "scene_ok_with x s"
  then show "scene_ok_with x (change_item a f s)"
    by (simp add: scene_ok_with_def scene_ok_def) (simp add: change_item_def)
qed (simp add: scene_ok_with_def)

end
