(* ===== verification/SceneWindow.thy ===== *)
theory SceneWindow
  imports SceneKeeps
begin

text \<open>
  The scene under the main window: the states it can reach, what it reports and what it keeps to
  itself.
\<close>

section \<open>The main window\<close>

text \<open>
  While drawing is enabled the main window has the paint manager carry out what the scene asks, and the
  manager calls it back: a new item gets the canvas and is drawn, a moved item is moved to its new
  position, an updated item is updated, a removed item is removed.  Each of these calls the scene
  again; \<open>k\<close> is how deep that may go.
\<close>

definition set_canvas :: "addr \<Rightarrow> scene \<Rightarrow> scene" where
  "set_canvas a s = s\<lparr>cv_items := (cv_items s)(a := map_option (\<lambda>i. i\<lparr>si_canvas := True\<rparr>) (cv_items s a))\<rparr>"

fun react :: "nat \<Rightarrow> scene_env \<Rightarrow> scene_event \<Rightarrow> scene \<Rightarrow> scene" where
  "react 0 E ev s = s"
| "react (Suc k) E ev s =
     (let E' = E\<lparr>se_handle := react k E\<rparr> in
      case ev of
        EvDrawItem a \<Rightarrow> item_draw E' a (set_canvas a s)
      | EvMoveItem a \<Rightarrow> item_move E' a (sp_posX (data_of s a)) (sp_posY (data_of s a)) s
      | EvUpdateItem a \<Rightarrow> item_update E' a s
      | EvRemoveItem a \<Rightarrow> item_remove E' a s)"

definition window :: "nat \<Rightarrow> scene_env \<Rightarrow> scene_env" where
  "window k E = E\<lparr>se_handle := react k E\<rparr>"

lemma window_fields [simp]:
  "se_handle (window k E) = react k E" "se_notifies (window k E) = se_notifies E"
  "se_scenePos (window k E) = se_scenePos E" "se_selectedItems (window k E) = se_selectedItems E" "E\<lparr>se_handle := react k E\<rparr> = window k E"
  by (simp_all add: window_def)

lemma set_canvas_stroke: "same_stroke s (set_canvas a s)"
  by (simp add: same_stroke_def set_canvas_def)

lemma set_canvas_ok: "scene_ok s \<Longrightarrow> scene_ok (set_canvas a s)"
  by (auto simp: scene_ok_def set_canvas_def object_of_def split: option.splits if_splits)

lemma react_stroke: "same_stroke u (react k E ev u)"
proof (induction k arbitrary: ev u)
  case 0
  then show ?case by (simp add: same_stroke_def)
next
  case (Suc k)
  have "scene_keeps (\<lambda>x. same_stroke u) (window k E)" by (rule stroke_kept) (simp add: Suc.IH)
  note items = scene_keeps.k_items [OF this]
  have "same_stroke u u" by (simp add: same_stroke_def)
  then show ?case using items set_canvas_stroke by (simp add: Let_def split: scene_event.split)
qed

lemma react_ok: "scene_ok u \<Longrightarrow> scene_ok (react k E ev u)"
proof (induction k arbitrary: ev u)
  case (Suc k)
  have "scene_keeps scene_ok_with (window k E)" by (rule tables_kept) (simp add: Suc.IH)
  note items = scene_keeps.k_items [OF this]
  from Suc.prems show ?case using items set_canvas_ok
    by (simp add: Let_def scene_ok_with_def split: scene_event.split)
qed simp

interpretation stroke_of: scene_keeps "\<lambda>x. same_stroke s0" "window k E" for s0 k E
  by (rule stroke_kept) (simp add: react_stroke)

interpretation tables: scene_keeps scene_ok_with "window k E" for k E
  by (rule tables_kept) (simp add: react_ok)

lemma ok_with: "scene_ok_with None s \<longleftrightarrow> scene_ok s"
  by (simp add: scene_ok_with_def)

section \<open>The states of the scene\<close>

text \<open>An event from Qt or a call of the main window.\<close>

inductive scene_step :: "scene_env \<Rightarrow> scene \<Rightarrow> scene \<Rightarrow> bool" for E where
  press: "scene_step E s (scene_mousePressEvent E a p s)"
| move: "scene_step E s (scene_mouseMoveEvent E p s)"
| release: "scene_step E s (scene_mouseReleaseEvent E s)"
| dragged: "scene_step E s (drag E ob x y s)"
| wheel: "scene_step E s (wheelEvent E ob down s)"
| object_key: "scene_step E s (object_keyPressEvent E ob k ctrl s)"
| double_click: "scene_step E s (mouseDoubleClickEvent ob s)"
| key: "scene_step E s (scene_keyPressEvent E k ctrl s)"
| dropped: "scene_step E s (dropEvent E p us s)"
| timer: "scene_step E s (scene_onTimer E s)"
| draw: "scene_step E s (item_draw E a (set_canvas a s))"
| move_item: "scene_step E s (item_move E a x y s)"
| update_item: "scene_step E s (item_update E a s)"
| remove_item: "scene_step E s (item_remove E a s)"
| new_item: "scene_step E s (new_scene_item a it s)"
| image: "scene_step E s (drawBackgroundImage E im s)"
| background: "s' \<in> {drawBackgroundGridLine E g s, scene_setBackgroundColor E c s, clearBackgroundImage E s,
     scene_clearScreen E s} \<Longrightarrow> scene_step E s s'"
| border: "s' \<in> {drawLastItemBorderRect E s, setSettingShowLastAddItemBorder E b s} \<Longrightarrow> scene_step E s s'"
| pen_mode: "scene_step E s (setFreePenMode E b s)"
| freeze: "s' \<in> {snd (freezeAction s), snd (thawAction E s)} \<Longrightarrow> scene_step E s s'"
| setting: "s' \<in> {setPenSetting c w s, setHighQualityMoveItems b s} \<Longrightarrow> scene_step E s s'"

lemma ok_simp_fields:
  "scene_ok (s\<lparr>cv_freePenMode := b\<rparr>) = scene_ok s" "scene_ok (s\<lparr>cv_freezeActionFlag := b\<rparr>) = scene_ok s"
  "scene_ok (s\<lparr>cv_penClr := c\<rparr>) = scene_ok s" "scene_ok (s\<lparr>cv_penWidth := w\<rparr>) = scene_ok s"
  "scene_ok (s\<lparr>cv_highQualityMoveItemMode := b\<rparr>) = scene_ok s" "scene_ok (s\<lparr>cv_prevPos := p\<rparr>) = scene_ok s"
  "scene_ok (s\<lparr>cv_currentLineZValue := z\<rparr>) = scene_ok s" "scene_ok (call d s) = scene_ok s"
  by (simp_all add: scene_ok_def object_of_def call_def)

lemma ok_selected: "scene_ok s \<Longrightarrow> scene_ok (clearSelectedItemState E s)"
  unfolding clearSelectedItemState_def using tables.k_calls(1) [of None s] by (simp only: ok_with)

lemma ok_pen_mode: "scene_ok s \<Longrightarrow> scene_ok (setFreePenMode E b s)"
  by (simp add: setFreePenMode_def Let_def ok_simp_fields ok_selected)

lemma ok_new_object: "scene_ok s \<Longrightarrow> scene_ok (snd (new_object c s))"
  using tables.k_drop [OF tables.k_new] by (simp add: ok_with)

lemma ok_temp:
  assumes "scene_ok_with (Some ob) s"
  shows "scene_ok (s\<lparr>cv_tempLineItemList := cv_tempLineItemList s @ [ob]\<rparr>)"
  using assms by (auto simp: scene_ok_with_def scene_ok_def object_of_def)

lemma ok_line_start: "scene_ok s \<Longrightarrow> scene_ok (drawLineStart (window k E) p c w s)"
  unfolding drawLineStart_def Let_def split_def
  by (intro ok_temp tables.k_call tables.k_z tables.k_new) (simp_all add: ok_with)

lemma ok_line_to: "scene_ok s \<Longrightarrow> scene_ok (drawLineTo p q c w s)"
  unfolding drawLineTo_def Let_def split_def
  by (intro ok_temp tables.k_call tables.k_new) (simp_all add: ok_with)

lemma ok_change: "scene_ok s \<Longrightarrow> scene_ok (change_item a f s)"
  using tables.k_change [of None s] by (simp add: ok_with)

lemma ok_press: "scene_ok s \<Longrightarrow> scene_ok (scene_mousePressEvent (window k E) a p s)"
proof -
  assume s: "scene_ok s"
  have item: "scene_ok (new_scene_item a it s)" for it using tables.k_item [of s] s by (simp add: ok_with)
  have "scene_ok ((new_scene_item a it s)\<lparr>cv_prevPos := q, cv_drawFlag := True, cv_currLineItem := Some a\<rparr>)" for it q
    using item [of it] by (simp add: scene_ok_def object_of_def)
  then have "scene_ok (snd (nextZValue (window k E)
      ((new_scene_item a it s)\<lparr>cv_prevPos := q, cv_drawFlag := True, cv_currLineItem := Some a\<rparr>)))" for it q
    using tables.k_z [of None] by (simp add: ok_with)
  then show ?thesis using s
    by (simp add: scene_mousePressEvent_def Let_def split_def ok_line_start ok_simp_fields)
qed

lemma ok_move: "scene_ok s \<Longrightarrow> scene_ok (scene_mouseMoveEvent (window k E) p s)"
  by (simp add: scene_mouseMoveEvent_def Let_def ok_simp_fields ok_change ok_line_to split: option.split)

lemma ok_removes: "scene_ok s \<Longrightarrow> scene_ok (foldl (\<lambda>s ob. call (RemoveObject ob) s) s obs)"
  by (induction obs arbitrary: s) (simp_all add: ok_simp_fields)

lemma ok_release:
  assumes s: "scene_ok s"
  shows "scene_ok (scene_mouseReleaseEvent (window k E) s)"
proof -
  let ?E = "window k E"
  have low: "scene_ok (doLowQualityMoveItems ?E s)"
    using s tables.k_move_each [of s k E] by (auto simp: ok_with doLowQualityMoveItems_def scene_ok_def object_of_def)
  define u where "u = s\<lparr>cv_drawFlag := False\<rparr>"
  have u: "scene_ok u" using s by (simp add: u_def scene_ok_def object_of_def)
  have fires: "scene_ok (fire_event ?E ev u) \<and> \<not> cv_drawFlag (fire_event ?E ev u)" for ev
    using tables.k_fire [of u k E ev] u stroke_of.k_fire [of u u k E ev]
    by (simp add: ok_with same_stroke_def) (simp add: u_def)
  define v where "v = (case cv_currLineItem s of None \<Rightarrow> u | Some a \<Rightarrow> fire_event ?E (EvDrawItem a) u)"
  have v: "scene_ok v \<and> \<not> cv_drawFlag v" using fires u by (auto simp: v_def u_def split: option.split)
  then have "scene_ok (v\<lparr>cv_currLineItem := None\<rparr>)" by (simp add: scene_ok_def object_of_def)
  then have w: "scene_ok (foldl (\<lambda>s ob. call (RemoveObject ob) s) (v\<lparr>cv_currLineItem := None\<rparr>) obs)" for obs
    by (rule ok_removes)
  have "scene_ok (x\<lparr>cv_tempLineItemList := []\<rparr>)" if "scene_ok x" for x
    using that by (simp add: scene_ok_def object_of_def)
  then have "scene_ok (resetBackground ?E ((foldl (\<lambda>s ob. call (RemoveObject ob) s) (v\<lparr>cv_currLineItem := None\<rparr>) obs)
      \<lparr>cv_tempLineItemList := []\<rparr>))" for obs
    using tables.k_calls(2) [of None] w by (simp add: ok_with)
  moreover have "cv_currLineItem u = cv_currLineItem s" by (simp add: u_def)
  ultimately show ?thesis using s low
    by (simp add: scene_mouseReleaseEvent_def Let_def ok_simp_fields v_def flip: u_def)
qed

lemmas ok_ops = tables.k_drag tables.k_requests tables.k_keys tables.k_drop_files tables.k_timer tables.k_items
  tables.k_item tables.k_image [of None] tables.k_background [of None] tables.k_clearScreen tables.k_border tables.k_setting

lemma ok_step: "scene_step (window k E) s s' \<Longrightarrow> scene_ok s \<Longrightarrow> scene_ok s'"
proof (induction rule: scene_step.induct)
  case (freeze s' s)
  then show ?case by (auto simp: freezeAction_def thawAction_def Let_def ok_simp_fields intro!: ok_pen_mode)
next
  case (setting s' c w s b)
  then show ?case by (auto simp: setPenSetting_def setHighQualityMoveItems_def scene_ok_def object_of_def)
qed (auto intro: ok_press ok_move ok_release ok_pen_mode set_canvas_ok ok_ops [unfolded ok_with])

text \<open>C23: Whatever the user does and the main window draws, moves, updates and removes, in any order, the
  scene's tables stay sound: the graphics object of an item carries that very item, so no two items share
  an object; every object was made; the lines drawn on the way of a stroke belong to no item; the set of
  dragged items is ordered without doubles; and while a stroke is drawn it has its line item.\<close>

theorem scene_tables_sound:
  assumes "(scene_step (window k E))\<^sup>*\<^sup>* (new_scene z t b) s"
  shows "(\<forall>a ob. object_of s a = Some ob \<longrightarrow> cv_itemData s ob = Some a \<and> ob < cv_next s)
    \<and> inj_on (object_of s) {a. object_of s a \<noteq> None}
    \<and> (\<forall>ob \<in> set (cv_tempLineItemList s). cv_itemData s ob = None)
    \<and> sorted (cv_tempMovingItemList s) \<and> distinct (cv_tempMovingItemList s)
    \<and> (cv_drawFlag s \<longrightarrow> cv_currLineItem s \<noteq> None)"
proof -
  have "scene_ok (new_scene z t b)" by (simp add: scene_ok_def new_scene_def object_of_def)
  with assms have ok: "scene_ok s" by (induction rule: rtranclp_induct) (auto intro: ok_step)
  then have own: "cv_itemData s ob = Some a" if "object_of s a = Some ob" for a ob
    using that by (simp add: scene_ok_def)
  have "inj_on (object_of s) {a. object_of s a \<noteq> None}"
  proof (rule inj_onI)
    fix a b assume "a \<in> {a. object_of s a \<noteq> None}" and e: "object_of s a = object_of s b"
    then obtain ob where a: "object_of s a = Some ob" by auto
    then have b: "object_of s b = Some ob" by (simp only: e)
    from own [OF a] own [OF b] show "a = b" by (simp only: option.inject)
  qed
  moreover have "ob < cv_next s" if "object_of s a = Some ob" for a ob
    using own [OF that] ok by (simp add: scene_ok_def)
  ultimately show ?thesis using ok own unfolding scene_ok_def by simp
qed

lemma scene_tables_sound_witness:
  "cv_currLineItem (scene_mousePressEvent (window 1 sample_env) 3 (1, 1)
     (setFreePenMode (window 1 sample_env) True (new_scene 0 0 Border_Rect))) \<noteq> None"
proof -
  let ?E = "window 1 sample_env"
  let ?u = "setFreePenMode ?E True (new_scene 0 0 Border_Rect)"
  have "(scene_step ?E)\<^sup>*\<^sup>* (new_scene 0 0 Border_Rect) (scene_mousePressEvent ?E 3 (1, 1) ?u)"
    by (rule rtranclp.rtrancl_into_rtrancl [OF r_into_rtranclp]) (rule scene_step.intros)+
  from scene_tables_sound [OF this]
  have "cv_drawFlag (scene_mousePressEvent ?E 3 (1, 1) ?u) \<longrightarrow> cv_currLineItem (scene_mousePressEvent ?E 3 (1, 1) ?u) \<noteq> None"
    by blast
  moreover have "cv_freePenMode ?u" "\<not> cv_drawFlag ?u"
    by (simp_all add: setFreePenMode_def clearSelectedItemState_def sample_env_def new_scene_def call_def Let_def)
  then have "cv_drawFlag (scene_mousePressEvent ?E 3 (1, 1) ?u)"
    by (simp add: scene_mousePressEvent_def mouse_defs)
  ultimately show ?thesis by blast
qed

end
