(* ===== verification/SceneMoves.thy ===== *)
theory SceneMoves
  imports SceneWindow
begin

text \<open>
  Moves: which of them the scene reports to the main window, what it draws, and a stroke that is left
  open.
\<close>

section \<open>Moves from the network\<close>

lemma clear_border_calls:
  "\<exists>cs. clearLastItemBorderRect s = s\<lparr>cv_calls := cv_calls s @ cs, cv_lastCoverGraphicsItem := None,
        cv_timeoutRemoveLastCoverItem := 0\<rparr> \<and> (cs = [] \<or> (\<exists>ob. cs = [RemoveObject ob]))"
proof (cases "cv_lastCoverGraphicsItem s")
  case None
  then show ?thesis by (intro exI [of _ "[]"]) (cases s, simp add: clearLastItemBorderRect_def)
next
  case (Some ob)
  then show ?thesis by (intro exI [of _ "[RemoveObject ob]"]) (simp add: clearLastItemBorderRect_def call_def)
qed

lemma scene_moveItem_silent:
  assumes told: "tells_if_asked E" and ob: "object_of s a = Some ob"
  shows "\<exists>cs. scene_moveItem E a x y s = s\<lparr>cv_calls := cv_calls s @ cs @ [SetGeometryFlag ob False,
        SetObjectPos ob x y, SetGeometryFlag ob True, Invalidate ob], cv_lastCoverGraphicsItem := None,
        cv_timeoutRemoveLastCoverItem := 0\<rparr>
      \<and> (cs = [] \<or> (\<exists>ob. cs = [RemoveObject ob]))"
proof -
  obtain cs where c: "clearLastItemBorderRect s = s\<lparr>cv_calls := cv_calls s @ cs, cv_lastCoverGraphicsItem := None,
        cv_timeoutRemoveLastCoverItem := 0\<rparr>" and cs: "cs = [] \<or> (\<exists>ob. cs = [RemoveObject ob])"
    using clear_border_calls [of s] by auto
  have "\<not> geometry_flag (cv_calls s @ cs @ [SetGeometryFlag ob False]) ob" by (simp add: geometry_flag_def)
  then have "\<not> se_notifies E (cv_calls s @ cs @ [SetGeometryFlag ob False]) ob (x, y)"
    using told by (auto simp: tells_if_asked_def)
  then show ?thesis using ob cs
    by (intro exI [of _ cs] conjI) (simp_all add: scene_moveItem_def c setObjectPos_def call_def Let_def)
qed

text \<open>A move that comes from the network is not reported back: the item is put at its new position and its
  object is moved there, but the main window is told of nothing, nothing is remembered for the next
  release of the mouse, and afterwards the object reports the user's moves again.  Qt is assumed to tell
  of a move only when \<open>ItemSendsGeometryChanges\<close> is set.\<close>

lemma remote_move_is_silent:
  assumes told: "tells_if_asked E"
    and item: "cv_items s a = Some i" "si_canvas i" "si_object i = Some ob" "item_type (si_item i) \<noteq> PT_BG_IMAGE"
    and s': "s' = item_move E a x y s"
  shows "fired (cv_calls s') = fired (cv_calls s) \<and> cv_tempMovingItemList s' = cv_tempMovingItemList s
    \<and> sp_posX (data_of s' a) = x \<and> sp_posY (data_of s' a) = y
    \<and> (\<exists>cs. cv_calls s' = cv_calls s @ cs \<and> SetObjectPos ob x y \<in> set cs) \<and> geometry_flag (cv_calls s') ob"
proof -
  let ?t = "change_item a (PaintItem.move x y) s"
  have s'': "s' = scene_moveItem E a x y ?t"
    using item by (simp add: s' item_move_def on_canvas_def Let_def)
  have "object_of ?t a = Some ob" using item by (subst object_of_simps) (simp add: object_of_def)
  from scene_moveItem_silent [OF told this, of x y] obtain cs where
    m: "scene_moveItem E a x y ?t = ?t\<lparr>cv_calls := cv_calls ?t @ cs @ [SetGeometryFlag ob False,
        SetObjectPos ob x y, SetGeometryFlag ob True, Invalidate ob], cv_lastCoverGraphicsItem := None,
        cv_timeoutRemoveLastCoverItem := 0\<rparr>"
    and "cs = [] \<or> (\<exists>ob. cs = [RemoveObject ob])" by blast
  then have cs: "fired cs = []" by auto
  have pos: "sp_posX (it_data (PaintItem.move x y (si_item i))) = x" "sp_posY (it_data (PaintItem.move x y (si_item i))) = y"
    using item(4) by (auto simp: PaintItem.move_def setPos_def item_type_def split: content.splits)
  have "\<exists>cs. cv_calls s' = cv_calls s @ cs \<and> SetObjectPos ob x y \<in> set cs"
    unfolding s'' m by (intro exI [of _ "cs @ [SetGeometryFlag ob False, SetObjectPos ob x y, SetGeometryFlag ob True,
        Invalidate ob]"]) (simp add: change_item_def)
  then show ?thesis using item cs pos unfolding s'' m
    by (simp add: change_item_def data_of_def geometry_flag_def)
qed

text \<open>An update that comes from the network is reported back when it also moves the item: \<open>updateItem\<close> does
  not freeze the reports as \<open>moveItem\<close> does.  Qt tells the scene of the move, and the scene tells the main
  window at once that the user moved the item, or, when moves are collected, takes the item for one that
  the user has dragged and reports it at the next release of the mouse.\<close>

lemma remote_update_is_echoed:
  assumes qt: "tells_moves E" "keeps_positions E"
    and item: "cv_items s a = Some i" "si_canvas i" "si_object i = Some ob" "\<not> isScalable (si_item i)"
    and own: "cv_itemData s ob = Some a" and flag: "geometry_flag (cv_calls s) ob"
    and moved: "se_scenePos E (cv_calls s) ob \<noteq> (sp_posX (it_data (si_item i)), sp_posY (it_data (si_item i)))"
    and s': "s' = item_update E a s"
  shows "if cv_highQualityMoveItemMode s
    then \<exists>u. s' = fire_event E (EvMoveItem a) u \<and> fired (cv_calls u) = fired (cv_calls s)
    else a \<in> set (cv_tempMovingItemList s') \<and> fired (cv_calls s') = fired (cv_calls s)"
proof -
  let ?p = "(sp_posX (it_data (si_item i)), sp_posY (it_data (si_item i)))"
  obtain cs where c: "clearLastItemBorderRect s = s\<lparr>cv_calls := cv_calls s @ cs, cv_lastCoverGraphicsItem := None,
        cv_timeoutRemoveLastCoverItem := 0\<rparr>" and cs: "cs = [] \<or> (\<exists>ob. cs = [RemoveObject ob])"
    using clear_border_calls [of s] by auto
  have "se_scenePos E (cv_calls s @ cs) ob = se_scenePos E (cv_calls s) ob"
    using cs qt(2) by (auto simp: keeps_positions_def moves_object_def)
  moreover have "geometry_flag (cv_calls s @ cs) ob" using cs flag by (auto simp: geometry_flag_def)
  ultimately have told: "se_notifies E (cv_calls s @ cs) ob ?p"
    using qt(1) moved by (simp add: tells_moves_def)
  have f: "fired cs = []" using cs by auto
  define u where "u = call (SetObjectPos ob (fst ?p) (snd ?p)) (clearLastItemBorderRect s)"
  have u: "s' = onItemMoving E a ?p u"
    using item own told
    by (simp add: s' item_update_def on_canvas_def scene_updateItem_def setObjectPos_def itemChange_def locked_def
        u_def Let_def c call_def)
  have mode: "cv_highQualityMoveItemMode u = cv_highQualityMoveItemMode s" "fired (cv_calls u) = fired (cv_calls s)"
    using f by (simp_all add: u_def c call_def)
  show ?thesis using mode
    by (auto simp: u onItemMoving_def change_item_def insert_moving_def set_insort_key intro!: exI)
qed

section \<open>Moves that are collected\<close>

definition pos_of :: "scene \<Rightarrow> addr \<Rightarrow> point" where
  "pos_of s a = (sp_posX (data_of s a), sp_posY (data_of s a))"

lemma scenePos_stays:
  assumes "keeps_positions E" "puts_objects E"
    and "\<forall>c \<in> set cs. \<forall>ob. moves_object ob c \<longrightarrow> (\<exists>x y. c = SetObjectPos ob x y \<and> se_scenePos E ds ob = (x, y))"
  shows "se_scenePos E (ds @ cs) ob = se_scenePos E ds ob"
  using assms(3)
proof (induction cs rule: rev_induct)
  case (snoc c cs)
  then show ?case
  proof (cases "moves_object ob c")
    case True
    with snoc.prems obtain x y where "c = SetObjectPos ob x y" "se_scenePos E ds ob = (x, y)" by force
    then show ?thesis using assms(2) by (simp add: puts_objects_def flip: append_assoc)
  next
    case False
    with snoc assms(1) show ?thesis by (simp add: keeps_positions_def flip: append_assoc)
  qed
qed simp

lemma pos_of_change:
  assumes "\<And>it. (sp_posX (it_data (f it)), sp_posY (it_data (f it))) \<in> {(sp_posX (it_data it), sp_posY (it_data it)), pos_of s a}"
  shows "pos_of (change_item a f s) b = pos_of s b"
proof (cases "cv_items s a")
  case None
  then show ?thesis by (simp add: pos_of_def data_of_def change_item_def)
next
  case (Some i)
  then show ?thesis using assms [of "si_item i"] by (auto simp: pos_of_def data_of_def change_item_def)
qed

text \<open>What the main window does about a reported move.\<close>

lemma react_move_effect:
  assumes told: "tells_if_asked E" and s': "s' = react k E (EvMoveItem a) s"
  shows "fired (cv_calls s') = fired (cv_calls s) \<and> object_of s' = object_of s
    \<and> cv_tempMovingItemList s' = cv_tempMovingItemList s \<and> pos_of s' = pos_of s
    \<and> (\<exists>cs. cv_calls s' = cv_calls s @ cs \<and> (\<forall>c \<in> set cs. \<forall>ob. moves_object ob c \<longrightarrow>
         object_of s a = Some ob \<and> c = SetObjectPos ob (fst (pos_of s a)) (snd (pos_of s a))))"
proof (cases k)
  case 0
  then show ?thesis by (simp add: s')
next
  case (Suc j)
  let ?x = "fst (pos_of s a)" and ?y = "snd (pos_of s a)"
  let ?t = "change_item a (PaintItem.move ?x ?y) s"
  have told': "tells_if_asked (window j E)" using told by (simp add: tells_if_asked_def)
  have t: "cv_calls ?t = cv_calls s" "object_of ?t = object_of s" "cv_tempMovingItemList ?t = cv_tempMovingItemList s"
    "pos_of ?t = pos_of s"
  proof -
    show "pos_of ?t = pos_of s"
      by (rule ext, rule pos_of_change) (auto simp: PaintItem.move_def setPos_def split: content.split)
  qed (auto simp: change_item_def object_of_def split: option.split)
  have "s' = item_move (window j E) a ?x ?y s" by (simp add: s' Suc Let_def pos_of_def)
  then consider "s' = ?t" | "s' = scene_moveItem (window j E) a ?x ?y ?t"
    by (auto simp: item_move_def Let_def split: option.splits if_splits)
  then show ?thesis
  proof cases
    case 1
    then show ?thesis using t by simp
  next
    case 2
    show ?thesis
    proof (cases "object_of s a")
      case None
      then show ?thesis using 2 t by (simp add: scene_moveItem_def)
    next
      case (Some ob)
      with t have "object_of ?t a = Some ob" by simp
      from scene_moveItem_silent [OF told' this, of ?x ?y] obtain cs where
        m: "s' = ?t\<lparr>cv_calls := cv_calls ?t @ cs @ [SetGeometryFlag ob False,
          SetObjectPos ob ?x ?y, SetGeometryFlag ob True, Invalidate ob], cv_lastCoverGraphicsItem := None,
          cv_timeoutRemoveLastCoverItem := 0\<rparr>"
        and cs: "cs = [] \<or> (\<exists>ob. cs = [RemoveObject ob])" unfolding 2 by blast
      have u: "fired cs = []" "\<forall>c \<in> set cs. \<forall>ob. \<not> moves_object ob c" using cs by (auto simp: moves_object_def)
      have "object_of s' = object_of ?t" "pos_of s' = pos_of ?t"
        by (simp_all add: m object_of_def pos_of_def data_of_def fun_eq_iff)
      moreover have "\<exists>ds. cv_calls s' = cv_calls s @ ds \<and> (\<forall>c \<in> set ds. \<forall>ob. moves_object ob c \<longrightarrow>
         object_of s a = Some ob \<and> c = SetObjectPos ob ?x ?y)"
        using u Some t by (intro exI [of _ "cs @ [SetGeometryFlag ob False, SetObjectPos ob ?x ?y,
            SetGeometryFlag ob True, Invalidate ob]"]) (auto simp: m moves_object_def)
      ultimately show ?thesis using t u by (simp add: m)
    qed
  qed
qed

lemma move_each_effect:
  assumes qt: "tells_if_asked E" "keeps_positions E" "puts_objects E"
  shows "fired (cv_calls (move_each (window k E) as s)) = fired (cv_calls s) @ map EvMoveItem [a \<leftarrow> as. object_of s a \<noteq> None]
    \<and> (\<forall>a. pos_of (move_each (window k E) as s) a
         = (case object_of s a of Some ob \<Rightarrow> if a \<in> set as then se_scenePos E (cv_calls s) ob else pos_of s a
            | None \<Rightarrow> pos_of s a))"
proof (induction as arbitrary: s)
  case Nil
  then show ?case by (simp split: option.split)
next
  case (Cons a as)
  show ?case
  proof (cases "object_of s a")
    case None
    then show ?thesis using Cons.IH [of s] by (auto split: option.split)
  next
    case (Some ob)
    let ?p = "se_scenePos E (cv_calls s) ob"
    define u where "u = call (Fired (EvMoveItem a)) (change_item a (setPos (fst ?p) (snd ?p)) s)"
    define t where "t = react k E (EvMoveItem a) u"
    have u: "object_of u = object_of s" "fired (cv_calls u) = fired (cv_calls s) @ [EvMoveItem a]"
      "cv_calls u = cv_calls s @ [Fired (EvMoveItem a)]"
      by (auto simp: u_def fun_eq_iff) (auto simp: call_def change_item_def)
    obtain i where i: "cv_items s a = Some i" using Some by (auto simp: object_of_def split: option.splits)
    have pu: "pos_of u = (pos_of s)(a := ?p)"
      using i by (auto simp: fun_eq_iff u_def pos_of_def data_of_def call_def change_item_def setPos_def)
    from react_move_effect [OF qt(1) t_def] obtain cs where t: "fired (cv_calls t) = fired (cv_calls u)"
      "object_of t = object_of u" "pos_of t = pos_of u" "cv_calls t = cv_calls u @ cs"
      "\<forall>c \<in> set cs. \<forall>ob'. moves_object ob' c \<longrightarrow>
         object_of u a = Some ob' \<and> c = SetObjectPos ob' (fst (pos_of u a)) (snd (pos_of u a))" by blast
    have "\<not> moves_object ob' (Fired ev)" for ob' ev by (simp add: moves_object_def)
    moreover have "\<exists>x y. c = SetObjectPos ob' x y \<and> se_scenePos E (cv_calls s) ob' = (x, y)"
      if "c \<in> set cs" "moves_object ob' c" for c ob'
      using t(5) that pu u(1) Some by (intro exI [of _ "fst ?p"] exI [of _ "snd ?p"]) auto
    ultimately have "se_scenePos E (cv_calls s @ [Fired (EvMoveItem a)] @ cs) ob' = se_scenePos E (cv_calls s) ob'" for ob'
      by (intro scenePos_stays [OF qt(2,3)]) auto
    then have stays: "se_scenePos E (cv_calls t) ob' = se_scenePos E (cv_calls s) ob'" for ob'
      by (simp add: t(4) u(3))
    have "move_each (window k E) (a # as) s = move_each (window k E) as t"
      using Some by (simp add: fire_event_def t_def u_def Let_def)
    then show ?thesis using Cons.IH [of t] t(1-3) u(1,2) pu Some by (auto simp: stays split: option.split)
  qed
qed

text \<open>C31: In the mode that collects moves, the release of the mouse reports every dragged item that is still
  drawn exactly once, in the order of the set, and leaves the item at the position that Qt gives for its
  object.  The answers of the main window, which moves the objects to where they are already, report
  nothing more and do not collect anything again.\<close>

theorem release_reports_moves:
  assumes qt: "tells_if_asked E" "keeps_positions E" "puts_objects E"
    and mode: "\<not> cv_freePenMode s"
    and s': "s' = scene_mouseReleaseEvent (window k E) s"
  shows "fired (cv_calls s') = fired (cv_calls s) @ map EvMoveItem [a \<leftarrow> cv_tempMovingItemList s. object_of s a \<noteq> None]
    \<and> cv_tempMovingItemList s' = []
    \<and> (\<forall>a ob. a \<in> set (cv_tempMovingItemList s) \<and> object_of s a = Some ob \<longrightarrow>
         pos_of s' a = se_scenePos E (cv_calls s) ob)
    \<and> (\<forall>a. a \<notin> set (cv_tempMovingItemList s) \<longrightarrow> pos_of s' a = pos_of s a)"
proof -
  have p: "pos_of (t\<lparr>cv_tempMovingItemList := m\<rparr>) = pos_of t" "pos_of (call c t) = pos_of t" for c t m
    by (simp_all add: fun_eq_iff pos_of_def data_of_def call_def)
  show ?thesis
  proof (cases "cv_tempMovingItemList s = []")
    case True
    then show ?thesis using mode by (simp add: s' scene_mouseReleaseEvent_def doLowQualityMoveItems_def p) (simp add: call_def)
  next
    case False
    have e: "s' = call BaseHandler ((move_each (window k E) (cv_tempMovingItemList s) s)\<lparr>cv_tempMovingItemList := []\<rparr>)"
      using mode False by (simp add: s' scene_mouseReleaseEvent_def doLowQualityMoveItems_def)
    have "pos_of s' = pos_of (move_each (window k E) (cv_tempMovingItemList s) s)" by (simp add: e p)
    then show ?thesis using move_each_effect [OF qt, of k "cv_tempMovingItemList s" s]
      by (auto simp: split: option.split) (simp_all add: e call_def)
  qed
qed

section \<open>A stroke that is left open\<close>

lemma clearSelected_calls:
  "\<exists>cs. clearSelectedItemState E s = s\<lparr>cv_calls := cv_calls s @ cs\<rparr> \<and> fired cs = []"
proof -
  have "foldl (\<lambda>s ob. call (SetSelected ob False) s) s obs
      = s\<lparr>cv_calls := cv_calls s @ map (\<lambda>ob. SetSelected ob False) obs\<rparr>" for obs
    by (induction obs arbitrary: s) (simp_all add: call_def)
  moreover have "fired (map (\<lambda>ob. SetSelected ob False) obs) = []" for obs by (induction obs) simp_all
  ultimately show ?thesis unfolding clearSelectedItemState_def by blast
qed

lemma setFreePenMode_calls:
  "\<exists>cs. setFreePenMode E b s = s\<lparr>cv_freePenMode := b, cv_calls := cv_calls s @ cs\<rparr> \<and> fired cs = []"
proof -
  obtain ds where ds: "clearSelectedItemState E (s\<lparr>cv_freePenMode := b\<rparr>) = s\<lparr>cv_freePenMode := b, cv_calls := cv_calls s @ ds\<rparr>"
    "fired ds = []" using clearSelected_calls [of E "s\<lparr>cv_freePenMode := b\<rparr>"] by auto
  have "cv_freezeActionFlag s \<Longrightarrow> ?thesis"
    by (intro exI [of _ "[]"]) (simp add: setFreePenMode_def)
  moreover have "\<not> cv_freezeActionFlag s \<Longrightarrow> b \<Longrightarrow> ?thesis"
    by (intro exI [of _ "ds @ [SetDragMode NoDrag, SetCursor DrawLineCursor]"])
      (use ds in \<open>simp add: setFreePenMode_def call_def Let_def\<close>)
  moreover have "\<not> cv_freezeActionFlag s \<Longrightarrow> \<not> b \<Longrightarrow> ?thesis"
    by (intro exI [of _ "[SetDragMode RubberBandDrag, SetCursor PointingHandCursor]"])
      (simp add: setFreePenMode_def call_def Let_def)
  ultimately show ?thesis by blast
qed

text \<open>When the pen mode is switched off while a stroke is drawn, the release of the mouse does not end the
  stroke: no item is made.  Switched on again, the scene still draws: the next move of the mouse extends the
  old line although no button is pressed, and a press starts no new line.\<close>

lemma pen_mode_leaves_stroke_open:
  assumes "cv_freePenMode s" "\<not> cv_drawFlag s" "cv_tempLineItemList s = []" "cv_tempMovingItemList s = []"
    and t: "t = setFreePenMode E True (scene_mouseReleaseEvent E (setFreePenMode E False (scene_mousePressEvent E a p s)))"
  shows "fired (cv_calls t) = fired (cv_calls s) \<and> cv_drawFlag t \<and> scene_mousePressEvent E b r t = t
    \<and> map_option (\<lambda>i. it_content (si_item i)) (cv_items (scene_mouseMoveEvent E q t) a)
        = Some (LineContent [cursor_point E p, cursor_point E q] (cv_penClr s) (cv_penWidth s))"
proof -
  let ?c = "cv_penClr s" and ?w = "cv_penWidth s"
  define u where "u = scene_mousePressEvent E a p s"
  have u: "stroking (cv_calls s) a [cursor_point E p] ?c ?w u"
    unfolding u_def by (rule press_stroking) fact+
  have mv: "cv_tempMovingItemList u = []"
    using assms by (simp add: u_def scene_mousePressEvent_def mouse_defs)
  obtain cs where cs: "setFreePenMode E False u = u\<lparr>cv_freePenMode := False, cv_calls := cv_calls u @ cs\<rparr>" "fired cs = []"
    using setFreePenMode_calls by blast
  let ?v = "scene_mouseReleaseEvent E (setFreePenMode E False u)"
  have v: "?v = u\<lparr>cv_freePenMode := False, cv_calls := cv_calls u @ cs @ [BaseHandler]\<rparr>"
    using mv by (simp add: cs scene_mouseReleaseEvent_def doLowQualityMoveItems_def call_def)
  obtain ds where ds: "setFreePenMode E True ?v = ?v\<lparr>cv_freePenMode := True, cv_calls := cv_calls ?v @ ds\<rparr>" "fired ds = []"
    using setFreePenMode_calls by blast
  have t': "t = u\<lparr>cv_freePenMode := True, cv_calls := cv_calls u @ cs @ [BaseHandler] @ ds\<rparr>"
    unfolding t u_def [symmetric] using ds(1) unfolding v by simp
  obtain i where i: "cv_items u a = Some i" "it_content (si_item i) = LineContent [cursor_point E p] ?c ?w"
    using u by (auto simp: stroking_def)
  obtain es where es: "cv_calls u = cv_calls s @ es" "fired es = []" using u by (auto simp: stroking_def)
  have d: "cv_drawFlag u" "cv_currLineItem u = Some a" using u by (auto simp: stroking_def)
  then have "scene_mousePressEvent E b r t = t" by (simp add: t' scene_mousePressEvent_def)
  moreover have "fired (cv_calls t) = fired (cv_calls s)" using es cs ds by (simp add: t')
  moreover have "map_option (\<lambda>i. it_content (si_item i)) (cv_items (scene_mouseMoveEvent E q t) a)
      = Some (LineContent [cursor_point E p, cursor_point E q] ?c ?w)"
    using d i by (simp add: t' scene_mouseMoveEvent_def mouse_defs)
  ultimately show ?thesis using d by (simp add: t')
qed

section \<open>At a concrete Qt\<close>

text \<open>A file item that is drawn as object 0, at the origin for Qt and elsewhere in its data.\<close>

definition moved_file :: CPaintItem where
  "moved_file = setPos 1 2 (new_item (FileContent [65]))"

definition sample_scene :: scene where
  "sample_scene = (new_scene 0 0 Border_Rect)\<lparr>cv_items := [7 \<mapsto> \<lparr>si_item = moved_file, si_object = Some 0, si_canvas = True\<rparr>],
     cv_itemData := [0 \<mapsto> 7], cv_next := 1, cv_tempMovingItemList := [7], cv_calls := [NewObject 0 PixmapObject, SetItemFlags 0]\<rparr>"

lemmas sample_defs = sample_scene_def new_scene_def moved_file_def setPos_def new_item_def item_type_def isScalable_def
  geometry_flag_def

lemma release_reports_moves_witness:
  "fired (cv_calls (scene_mouseReleaseEvent (window 2 sample_env) sample_scene)) = [EvMoveItem 7]"
proof -
  have "\<not> cv_freePenMode sample_scene" by (simp add: sample_defs)
  from release_reports_moves [OF sample_qt_moves(1,3,4) this refl, of 2]
  show ?thesis by (simp add: sample_defs object_of_def)
qed

end
