(* ===== verification/PlaybackSlider.thy ===== *)
theory PlaybackSlider
  imports SceneMoves CommandManager
begin

text \<open>
  The slider in the tool bar of the main window, with which the history is played back:
  \<^verbatim>\<open>SharedPainter.cpp\<close> and \<^verbatim>\<open>.h\<close>.  Moving the slider plays the history to another position, and while the
  position is not the last one the user cannot draw.  The slider itself belongs to Qt: \<open>pe_bound\<close> is the
  value it takes when it is set, and it emits \<^verbatim>\<open>valueChanged\<close> when the value is another one.
\<close>

section \<open>State\<close>

text \<open>
  The members of the window that the playback uses, the history of the paint manager, its flag
  \<^verbatim>\<open>enabled_\<close>, the canvas, and how many override cursors the application has.  \<open>pl_queue\<close> are the calls
  of \<^verbatim>\<open>fireObserver_AddTask\<close> that a network thread has deferred to the main thread.
\<close>

record player =
  pl_cmd :: cmd_mngr
  pl_queue :: "(nat \<times> bool) list"
  pl_value :: int
  pl_maximum :: int
  pl_playbackSliderFreezingFlag :: bool
  pl_enabledPainter :: bool
  pl_enabled :: bool
  pl_cursors :: nat
  pl_canvas :: scene
  pl_playbackStatus :: "int \<times> int"
  pl_modifiedFlag :: bool

record player_env =
  pe_bound :: "int \<Rightarrow> int \<Rightarrow> int"
  pe_scene :: scene_env

definition new_player :: "scene \<Rightarrow> player" where
  "new_player cv = \<lparr>pl_cmd = new_cmd_mngr, pl_queue = [], pl_value = 0, pl_maximum = 0,
     pl_playbackSliderFreezingFlag = False, pl_enabledPainter = True, pl_enabled = True, pl_cursors = 0,
     pl_canvas = cv, pl_playbackStatus = (0, 0), pl_modifiedFlag = False\<rparr>"

section \<open>Operations\<close>

definition setEnabledPainter :: "player_env \<Rightarrow> bool \<Rightarrow> player \<Rightarrow> player" where
  "setEnabledPainter E enabled s =
     (if pl_enabledPainter s = enabled then s
      else
        (let s = s\<lparr>pl_enabledPainter := enabled\<rparr>;
             s = (if enabled
               then s\<lparr>pl_canvas := snd (thawAction (pe_scene E) (pl_canvas s)), pl_cursors := pl_cursors s - 1\<rparr>
               else (case freezeAction (pl_canvas s) of (frozen, cv) \<Rightarrow>
                 s\<lparr>pl_canvas := cv, pl_cursors := (if frozen then pl_cursors s + 1 else pl_cursors s)\<rparr>)) in
         s\<lparr>pl_enabled := enabled\<rparr>))"

definition onPlaybackSliderValueChanged :: "player_env \<Rightarrow> int \<Rightarrow> (player, unit) meth" where
  "onPlaybackSliderValueChanged E v s =
     (if pl_playbackSliderFreezingFlag s then (Inr (), s)
      else (case playbackTo (v - 1) (pl_cmd s) of
          (Inl err, c) \<Rightarrow> (Inl err, s\<lparr>pl_cmd := c\<rparr>)
        | (Inr u, c) \<Rightarrow> (Inr (), setEnabledPainter E (\<not> isPlaybackMode c)
            (s\<lparr>pl_cmd := c, pl_playbackStatus := (v, pl_maximum s)\<rparr>))))"

text \<open>\<^verbatim>\<open>QSlider::setValue\<close> and \<^verbatim>\<open>setRange( 0, m )\<close>.\<close>

definition slider_take :: "player_env \<Rightarrow> int \<Rightarrow> (player, unit) meth" where
  "slider_take E v s =
     (if v = pl_value s then (Inr (), s) else onPlaybackSliderValueChanged E v (s\<lparr>pl_value := v\<rparr>))"

definition slider_setValue :: "player_env \<Rightarrow> int \<Rightarrow> (player, unit) meth" where
  "slider_setValue E v s = slider_take E (pe_bound E (pl_maximum s) v) s"

definition slider_setRange :: "player_env \<Rightarrow> int \<Rightarrow> (player, unit) meth" where
  "slider_setRange E m s = slider_take E (pe_bound E m (pl_value s)) (s\<lparr>pl_maximum := m\<rparr>)"

definition onAddTask :: "player_env \<Rightarrow> nat \<Rightarrow> bool \<Rightarrow> (player, unit) meth" where
  "onAddTask E totalTaskCount playBackWorking s =
     bindS (slider_setRange E (int totalTaskCount)) (\<lambda>u s.
     bindS (\<lambda>s. if playBackWorking then (Inr (), s) else slider_setValue E (pl_maximum s) s) (\<lambda>u s.
       (let s = s\<lparr>pl_playbackSliderFreezingFlag := False\<rparr> in
        (Inr (), s\<lparr>pl_playbackStatus := (pl_value s, pl_maximum s)\<rparr>)))
       (s\<lparr>pl_playbackSliderFreezingFlag := True\<rparr>)) (s\<lparr>pl_modifiedFlag := True\<rparr>)"

text \<open>\<^verbatim>\<open>onISharedPaintEvent_ClearScreen\<close>, after the file has been saved.\<close>

definition onClearScreen :: "player_env \<Rightarrow> (player, unit) meth" where
  "onClearScreen E s =
     bindS (slider_setRange E 0) (\<lambda>u s.
       (let s = s\<lparr>pl_playbackStatus := (0, 0), pl_playbackSliderFreezingFlag := False\<rparr>;
            s = setEnabledPainter E True s;
            s = s\<lparr>pl_canvas := snd (thawAction (pe_scene E) (pl_canvas s))\<rparr> in
        (Inr (), s\<lparr>pl_modifiedFlag := False\<rparr>)))
       (s\<lparr>pl_playbackSliderFreezingFlag := True\<rparr>)"

text \<open>The keys Left and Right in \<^verbatim>\<open>eventFilter\<close>.\<close>

definition slider_key :: "player_env \<Rightarrow> bool \<Rightarrow> (player, unit) meth" where
  "slider_key E left s =
     (let newValue = pl_value s + (if left then - 1 else 1) in
      if 0 \<le> newValue \<and> newValue < pl_maximum s then slider_setValue E newValue s else (Inr (), s))"

section \<open>Tasks\<close>

definition added :: "event list \<Rightarrow> (nat \<times> bool) list" where
  "added evs = List.map_filter (\<lambda>ev. case ev of AddTask n pb \<Rightarrow> Some (n, pb) | _ \<Rightarrow> None) evs"

text \<open>
  A task is executed; on the main thread the window is told at once, while the task is still being
  executed (nothing that \<open>onAddTask\<close> does depends on the rest of it), on a network thread later.
\<close>

definition runs_task :: "CSharedPaintTask \<Rightarrow> bool \<Rightarrow> player \<Rightarrow> (nat \<times> bool) list \<times> player" where
  "runs_task t send s =
     (case executeTask t send ((pl_cmd s)\<lparr>cm_events := []\<rparr>) of
        (r, c) \<Rightarrow> (added (cm_events c), s\<lparr>pl_cmd := c\<rparr>))"

definition task_here :: "player_env \<Rightarrow> CSharedPaintTask \<Rightarrow> bool \<Rightarrow> (player, unit) meth" where
  "task_here E t send s =
     (case runs_task t send s of (as, s) \<Rightarrow> loopS (\<lambda>(n, pb). onAddTask E n pb) as s)"

definition task_on_network :: "CSharedPaintTask \<Rightarrow> bool \<Rightarrow> player \<Rightarrow> player" where
  "task_on_network t send s = (case runs_task t send s of (as, s) \<Rightarrow> s\<lparr>pl_queue := pl_queue s @ as\<rparr>)"

definition deliver :: "player_env \<Rightarrow> (player, unit) meth" where
  "deliver E s =
     (case pl_queue s of [] \<Rightarrow> (Inr (), s) | (n, pb) # q \<Rightarrow> onAddTask E n pb (s\<lparr>pl_queue := q\<rparr>))"

definition clear_here :: "player_env \<Rightarrow> (player, unit) meth" where
  "clear_here E s = onClearScreen E (s\<lparr>pl_cmd := cm_clear (pl_cmd s)\<rparr>)"

section \<open>The slider shows the position\<close>

definition bounds_values :: "player_env \<Rightarrow> bool" where
  "bounds_values E \<longleftrightarrow> (\<forall>m v. 0 \<le> m \<longrightarrow> pe_bound E m v = max 0 (min v m))"

text \<open>Whether the user may draw, in the window, in the manager, on the canvas and by the cursor.\<close>

definition flags_agree :: "player \<Rightarrow> bool" where
  "flags_agree s \<longleftrightarrow> pl_enabled s = pl_enabledPainter s \<and> cv_freezeActionFlag (pl_canvas s) = (\<not> pl_enabledPainter s)
     \<and> pl_cursors s = (if pl_enabledPainter s then 0 else 1)"

definition player_ok :: "player \<Rightarrow> bool" where
  "player_ok s \<longleftrightarrow> (let n = int (historyTaskCount (pl_cmd s)) in
     all_sendable (pl_cmd s) \<and> \<not> pl_playbackSliderFreezingFlag s \<and> pl_maximum s = n
     \<and> 0 \<le> pl_value s \<and> pl_value s \<le> n \<and> cm_currentPlayPos (pl_cmd s) = (if n = 0 then - 2 else pl_value s - 1)
     \<and> (pl_enabledPainter s \<longleftrightarrow> pl_value s = n) \<and> flags_agree s)"

lemma thaw_flag [simp]: "cv_freezeActionFlag (snd (thawAction E cv)) = False"
proof (cases "cv_freezeActionFlag cv")
  case True
  obtain cs where "setFreePenMode E (cv_freePenMode cv) (call (EnableViews True) (cv\<lparr>cv_freezeActionFlag := False\<rparr>))
      = (call (EnableViews True) (cv\<lparr>cv_freezeActionFlag := False\<rparr>))\<lparr>cv_freePenMode := cv_freePenMode cv,
          cv_calls := cv_calls (call (EnableViews True) (cv\<lparr>cv_freezeActionFlag := False\<rparr>)) @ cs\<rparr>"
    using setFreePenMode_calls by blast
  with True show ?thesis by (simp add: thawAction_def call_def Let_def)
qed (simp add: thawAction_def)

lemma freeze_flag: "cv_freezeActionFlag (snd (freezeAction cv)) \<and> fst (freezeAction cv) = (\<not> cv_freezeActionFlag cv)"
  by (simp add: freezeAction_def)

lemma setEnabledPainter_flags:
  assumes "flags_agree s"
  shows "flags_agree (setEnabledPainter E b s)" "pl_enabledPainter (setEnabledPainter E b s) = b"
    "pl_cmd (setEnabledPainter E b s) = pl_cmd s" "pl_value (setEnabledPainter E b s) = pl_value s"
    "pl_maximum (setEnabledPainter E b s) = pl_maximum s" "pl_queue (setEnabledPainter E b s) = pl_queue s"
    "pl_playbackSliderFreezingFlag (setEnabledPainter E b s) = pl_playbackSliderFreezingFlag s"
  using assms freeze_flag [of "pl_canvas s"]
  by (auto simp: setEnabledPainter_def flags_agree_def Let_def split: prod.split)

lemma playbackTo_moves:
  assumes "all_sendable s" and "- 1 \<le> cm_currentPlayPos s" "cm_currentPlayPos s < int (historyTaskCount s)"
    and "- 1 \<le> p" "p < int (historyTaskCount s)"
  shows "\<exists>s'. playbackTo p s = (Inr (), s') \<and> cm_currentPlayPos s' = p \<and> all_sendable s'
    \<and> historyTaskCount s' = historyTaskCount s"
proof -
  let ?q = "cm_currentPlayPos s"
  note n = assms(2-5)[unfolded historyTaskCount_def]
  have "\<exists>s'. (if ?q < p then playforwardTo ?q p else playbackwardTo ?q p) s = (Inr (), s') \<and> kept s' = kept s \<and> all_sendable s'"
    using loop_interval(1) [OF acts_execute n(1,4) assms(1)] loop_interval(2) [OF acts_rollback n(3,2) assms(1)] n assms(1)
    by (auto simp: playforwardTo_def playbackwardTo_def)
  then obtain s' where s': "(if ?q < p then playforwardTo ?q p else playbackwardTo ?q p) s = (Inr (), s')"
    "kept s' = kept s" "all_sendable s'" by blast
  have "playbackTo p s = (Inr (), s'\<lparr>cm_currentPlayPos := p\<rparr>)"
    unfolding playbackTo_def bindS_def s'(1) by simp
  then show ?thesis using s' kept_plain(2) [OF s'(2)] by (simp add: all_sendable_def historyTaskCount_def)
qed

lemma slide_ok:
  assumes s: "player_ok s" and v: "0 \<le> v" "v \<le> pl_maximum s"
  shows "\<exists>s'. slider_take E v s = (Inr (), s') \<and> player_ok s' \<and> pl_value s' = v \<and> pl_maximum s' = pl_maximum s"
proof (cases "v = pl_value s")
  case True
  then show ?thesis using s by (simp add: slider_take_def)
next
  case False
  let ?n = "historyTaskCount (pl_cmd s)"
  have n: "?n \<noteq> 0" using s v False by (auto simp: player_ok_def Let_def)
  then have q: "cm_currentPlayPos (pl_cmd s) = pl_value s - 1" using s by (simp add: player_ok_def Let_def)
  have "all_sendable (pl_cmd s)" "- 1 \<le> cm_currentPlayPos (pl_cmd s)" "cm_currentPlayPos (pl_cmd s) < int ?n"
    "- 1 \<le> v - 1" "v - 1 < int ?n" using s v q by (simp_all add: player_ok_def Let_def)
  from playbackTo_moves [OF this] obtain c where c: "playbackTo (v - 1) (pl_cmd s) = (Inr (), c)"
    "cm_currentPlayPos c = v - 1" "all_sendable c" "historyTaskCount c = ?n" by blast
  have pb: "isPlaybackMode c \<longleftrightarrow> v \<noteq> int ?n"
    using c(2,4) v by (auto simp: isPlaybackMode_def historyTaskCount_def DEFAULT_INIT_PLAYBACK_POS_def)
  let ?t = "s\<lparr>pl_value := v, pl_cmd := c, pl_playbackStatus := (v, pl_maximum s)\<rparr>"
  have "slider_take E v s = (Inr (), setEnabledPainter E (\<not> isPlaybackMode c) ?t)"
    using False c s by (simp add: slider_take_def onPlaybackSliderValueChanged_def player_ok_def Let_def)
  moreover have "flags_agree ?t" using s by (simp add: player_ok_def flags_agree_def Let_def)
  note setEnabledPainter_flags [OF this, of E "\<not> isPlaybackMode c"]
  ultimately show ?thesis using s c n v pb by (simp add: player_ok_def Let_def)
qed

text \<open>What executing a task does to the history, whatever the task is.\<close>

lemma added_simps [simp]:
  "added [] = []" "added (xs @ ys) = added xs @ added ys" "added (AddTask n pb # xs) = (n, pb) # added xs"
  "(\<And>n pb. ev \<noteq> AddTask n pb) \<Longrightarrow> added (ev # xs) = added xs"
  by (auto simp: added_def List.map_filter_def split: event.splits)

lemma added_bodies: "added (cm_events (execute_body t s)) = added (cm_events s)"
  by (auto simp: execute_body_def Let_def CommandManager.fire_def setItemData_def split: option.splits task_body.splits)

lemma executeTask_adds:
  assumes a: "all_sendable s" and t: "sendable (setSendData b t)"
  shows "\<exists>s'. executeTask t b s = (Inr True, s') \<and> all_sendable s' \<and> historyTaskCount s' = Suc (historyTaskCount s)
    \<and> cm_currentPlayPos s' = (if isPlaybackMode s then cm_currentPlayPos s else int (historyTaskCount s))
    \<and> added (cm_events s') = added (cm_events s) @ [(Suc (historyTaskCount s), isPlaybackMode s)]"
proof -
  let ?n = "historyTaskCount s" and ?u = "push_task t b s"
  have u: "all_sendable ?u" "length (cm_historyTaskList ?u) = Suc ?n" "cm_historyTaskList ?u ! ?n = setSendData b t"
    "added (cm_events ?u) = added (cm_events s) @ [(Suc ?n, isPlaybackMode s)]"
    using a t by (auto simp: all_sendable_def push_task_simps historyTaskCount_def)
      (simp add: push_task_def Let_def CommandManager.fire_def)
  show ?thesis
  proof (cases "isPlaybackMode s \<or> \<not> isAllowPainterToDraw (task_owner t) ?u")
    case True
    then show ?thesis using u by (auto simp: executeTask_def Let_def push_task_simps historyTaskCount_def)
  next
    case False
    have n: "?n < length (cm_historyTaskList ?u)" using u by simp
    obtain s1 where s1: "sendPacket (int ?n) (setSendData b t) ?u = (Inr (), s1)" "kept s1 = kept ?u" "all_sendable s1"
      by (rule sendPacket_step [OF n u(3,1)])
    have ev: "added (cm_events s1) = added (cm_events ?u)"
      using s1(1) by (auto simp: sendPacket_def CommandManager.fire_def split: if_splits sum.splits)
    have "executeTask t b s = (Inr True, execute_body (setSendData b t) s1)"
      using False u s1(1) by (simp add: executeTask_def Let_def task_execute_def bindS_def task_at_def historyTaskCount_def)
    moreover have "all_sendable (execute_body (setSendData b t) s1)" using s1(3) by (simp add: all_sendable_def)
    moreover note kept_plain(2,4) [OF s1(2)] kept_plain(2,4) [of "execute_body (setSendData b t) s1" s1]
    ultimately show ?thesis using ev u False
      by (simp add: added_bodies historyTaskCount_def push_task_simps)
  qed
qed

lemma onAddTask_effect:
  assumes b: "bounds_values E" and s: "0 \<le> pl_value s" "pl_value s \<le> int n" "\<not> pl_playbackSliderFreezingFlag s"
  shows "onAddTask E n pb s = (Inr (), s\<lparr>pl_modifiedFlag := True, pl_maximum := int n,
      pl_value := (if pb then pl_value s else int n), pl_playbackStatus := (if pb then pl_value s else int n, int n),
      pl_playbackSliderFreezingFlag := False\<rparr>)"
proof -
  let ?s1 = "s\<lparr>pl_modifiedFlag := True, pl_maximum := int n\<rparr>"
  have "slider_setRange E (int n) (s\<lparr>pl_modifiedFlag := True\<rparr>) = (Inr (), ?s1)"
    using b s by (simp add: slider_setRange_def slider_take_def bounds_values_def)
  moreover have "slider_setValue E (int n) (?s1\<lparr>pl_playbackSliderFreezingFlag := True\<rparr>)
      = (Inr (), ?s1\<lparr>pl_playbackSliderFreezingFlag := True, pl_value := int n\<rparr>)"
    using b by (cases s) (simp add: slider_setValue_def slider_take_def bounds_values_def onPlaybackSliderValueChanged_def)
  ultimately show ?thesis by (cases pb) (simp_all add: onAddTask_def bindS_def Let_def)
qed

lemma task_here_ok:
  assumes b: "bounds_values E" and s: "player_ok s" and t: "sendable (setSendData send t)"
  shows "\<exists>s'. task_here E t send s = (Inr (), s') \<and> player_ok s'"
proof -
  let ?n = "historyTaskCount (pl_cmd s)" and ?c0 = "(pl_cmd s)\<lparr>cm_events := []\<rparr>"
  have c0: "all_sendable ?c0" "historyTaskCount ?c0 = ?n" "isPlaybackMode ?c0 = isPlaybackMode (pl_cmd s)"
    using s by (simp_all add: player_ok_def all_sendable_def historyTaskCount_def isPlaybackMode_def Let_def)
  from executeTask_adds [OF c0(1) t] obtain c where c: "executeTask t send ?c0 = (Inr True, c)" "all_sendable c"
    "historyTaskCount c = Suc ?n" "cm_currentPlayPos c = (if isPlaybackMode (pl_cmd s) then cm_currentPlayPos (pl_cmd s) else int ?n)"
    "added (cm_events c) = [(Suc ?n, isPlaybackMode (pl_cmd s))]" using c0(2,3) by auto
  let ?t = "s\<lparr>pl_cmd := c\<rparr>" and ?pb = "isPlaybackMode (pl_cmd s)"
  have pb: "?pb \<longleftrightarrow> pl_value s \<noteq> int ?n"
    using s by (auto simp: player_ok_def isPlaybackMode_def historyTaskCount_def DEFAULT_INIT_PLAYBACK_POS_def Let_def)
  have "0 \<le> pl_value ?t" "pl_value ?t \<le> int (Suc ?n)" "\<not> pl_playbackSliderFreezingFlag ?t"
    using s by (auto simp: player_ok_def Let_def)
  note told = onAddTask_effect [OF b this, of ?pb]
  then have "fst (onAddTask E (Suc ?n) ?pb ?t) = Inr ()" by simp
  then have "task_here E t send s = (Inr (), snd (onAddTask E (Suc ?n) ?pb ?t))"
    by (cases "onAddTask E (Suc ?n) ?pb ?t") (simp add: task_here_def runs_task_def c loopS_def bindS_def)
  moreover have "player_ok (snd (onAddTask E (Suc ?n) ?pb ?t))"
    unfolding told using s c pb by (auto simp: player_ok_def flags_agree_def Let_def)
  ultimately show ?thesis by blast
qed

lemma clear_here_ok:
  assumes b: "bounds_values E" and s: "player_ok s"
  shows "\<exists>s'. clear_here E s = (Inr (), s') \<and> player_ok s'"
proof -
  let ?c = "cm_clear (pl_cmd s)"
  let ?t = "s\<lparr>pl_cmd := ?c, pl_maximum := 0, pl_value := 0, pl_playbackStatus := (0, 0), pl_playbackSliderFreezingFlag := False\<rparr>"
  let ?u = "setEnabledPainter E True ?t"
  have c: "all_sendable ?c" "historyTaskCount ?c = 0" "cm_currentPlayPos ?c = - 2"
    by (simp_all add: cm_clear_def clearHistoryCommand_def clearHistoryTask_def clearHistoryItem_def all_sendable_def
        historyTaskCount_def DEFAULT_INIT_PLAYBACK_POS_def)
  have "slider_setRange E 0 (s\<lparr>pl_cmd := ?c, pl_playbackSliderFreezingFlag := True\<rparr>)
      = (Inr (), s\<lparr>pl_cmd := ?c, pl_playbackSliderFreezingFlag := True, pl_maximum := 0, pl_value := 0\<rparr>)"
    using b by (cases s) (simp add: slider_setRange_def slider_take_def bounds_values_def onPlaybackSliderValueChanged_def)
  then have "clear_here E s = (Inr (), ?u\<lparr>pl_canvas := snd (thawAction (pe_scene E) (pl_canvas ?u)), pl_modifiedFlag := False\<rparr>)"
    by (simp add: clear_here_def onClearScreen_def bindS_def Let_def)
  moreover have "flags_agree ?t" using s by (simp add: player_ok_def flags_agree_def Let_def)
  note setEnabledPainter_flags [OF this, of E True]
  ultimately show ?thesis using c by (simp add: player_ok_def flags_agree_def Let_def)
qed

section \<open>The states of the player\<close>

text \<open>
  The user moves the slider or presses a key, a task is executed while the window is told at once, or
  the drawing is cleared.  The tasks can be sent, as those of items with a short owner can.
\<close>

inductive player_step :: "player_env \<Rightarrow> player \<Rightarrow> player \<Rightarrow> bool" for E where
  slide: "slider_setValue E v s = (r, s') \<Longrightarrow> player_step E s s'"
| pressed: "slider_key E left s = (r, s') \<Longrightarrow> player_step E s s'"
| task: "sendable (setSendData send t) \<Longrightarrow> task_here E t send s = (r, s') \<Longrightarrow> player_step E s s'"
| clear: "clear_here E s = (r, s') \<Longrightarrow> player_step E s s'"

lemma setValue_ok:
  assumes "bounds_values E" "player_ok s"
  shows "\<exists>s'. slider_setValue E v s = (Inr (), s') \<and> player_ok s' \<and> pl_value s' = pe_bound E (pl_maximum s) v
    \<and> pl_maximum s' = pl_maximum s"
proof -
  have "0 \<le> pl_maximum s" using assms(2) by (simp add: player_ok_def Let_def)
  then have "0 \<le> pe_bound E (pl_maximum s) v" "pe_bound E (pl_maximum s) v \<le> pl_maximum s"
    using assms(1) by (simp_all add: bounds_values_def)
  from slide_ok [OF assms(2) this, of E] show ?thesis by (simp add: slider_setValue_def)
qed

lemma key_ok:
  assumes b: "bounds_values E" and s: "player_ok s"
  shows "\<exists>s'. slider_key E left s = (Inr (), s') \<and> player_ok s' \<and> pl_maximum s' = pl_maximum s
    \<and> (pl_value s < pl_maximum s \<longrightarrow> pl_value s' < pl_maximum s)"
proof (cases "0 \<le> pl_value s + (if left then - 1 else 1) \<and> pl_value s + (if left then - 1 else 1) < pl_maximum s")
  case True
  with setValue_ok [OF b s, of "pl_value s + (if left then - 1 else 1)"] b show ?thesis
    by (auto simp: slider_key_def bounds_values_def)
next
  case False
  then show ?thesis using s by (auto simp: slider_key_def Let_def)
qed

lemma step_ok:
  assumes "bounds_values E" "player_step E s s'" "player_ok s"
  shows "player_ok s'"
  using assms(2,1,3)
proof (induction rule: player_step.induct)
  case (slide v s r s')
  with setValue_ok [of E s v] show ?case by auto
next
  case (pressed left s r s')
  with key_ok [of E s left] show ?case by auto
next
  case (task send t s r s')
  with task_here_ok [of E s send t] show ?case by auto
next
  case (clear s r s')
  with clear_here_ok [of E s] show ?case by auto
qed

lemma new_player_ok: "\<not> cv_freezeActionFlag cv \<Longrightarrow> player_ok (new_player cv)"
  unfolding player_ok_def new_player_def flags_agree_def Let_def
  by (simp add: new_cmd_mngr_def historyTaskCount_def all_sendable_def DEFAULT_INIT_PLAYBACK_POS_def)

lemma reachable_player:
  assumes "bounds_values E" "\<not> cv_freezeActionFlag cv" "(player_step E)\<^sup>*\<^sup>* (new_player cv) s"
  shows "player_ok s"
  using assms(3) by (induction rule: rtranclp_induct) (use new_player_ok [OF assms(2)] step_ok [OF assms(1)] in blast)+

lemma player_ok_playback: "player_ok s \<Longrightarrow> isPlaybackMode (pl_cmd s) \<longleftrightarrow> pl_value s \<noteq> pl_maximum s"
  by (auto simp: player_ok_def isPlaybackMode_def historyTaskCount_def DEFAULT_INIT_PLAYBACK_POS_def Let_def)


fun keys :: "player_env \<Rightarrow> bool list \<Rightarrow> (player, unit) meth" where
  "keys E [] s = (Inr (), s)"
| "keys E (l # ls) s = bindS (slider_key E l) (\<lambda>u. keys E ls) s"

text \<open>The keys Left and Right play the history back but never to its end: once the slider is not at its
  end, no sequence of keys brings it there, and the user stays unable to draw; moving the slider to its
  maximum does.\<close>

lemma keys_never_reach_the_end:
  assumes b: "bounds_values E" and cv: "\<not> cv_freezeActionFlag cv"
    and run: "(player_step E)\<^sup>*\<^sup>* (new_player cv) s" and behind: "pl_value s < pl_maximum s"
  shows "(\<exists>s'. keys E ls s = (Inr (), s') \<and> pl_value s' < pl_maximum s' \<and> \<not> pl_enabledPainter s'
      \<and> isPlaybackMode (pl_cmd s'))
    \<and> (\<exists>s'. slider_setValue E (pl_maximum s) s = (Inr (), s') \<and> pl_enabledPainter s' \<and> \<not> isPlaybackMode (pl_cmd s'))"
proof -
  have s: "player_ok s" by (rule reachable_player [OF b cv run])
  have "\<exists>s'. keys E ls s = (Inr (), s') \<and> player_ok s' \<and> pl_value s' < pl_maximum s'"
    using s behind
  proof (induction ls arbitrary: s)
    case (Cons l ls)
    from key_ok [OF b Cons.prems(1), of l] Cons.prems(2) obtain u where
      "slider_key E l s = (Inr (), u)" "player_ok u" "pl_value u < pl_maximum u" by auto
    with Cons.IH [of u] show ?case by (simp add: bindS_def)
  qed simp
  then obtain s' where s': "keys E ls s = (Inr (), s')" "player_ok s'" "pl_value s' < pl_maximum s'" by blast
  have 0: "0 \<le> pl_maximum s" using s by (simp add: player_ok_def Let_def)
  from setValue_ok [OF b s, of "pl_maximum s"] b 0 obtain t where t: "slider_setValue E (pl_maximum s) s = (Inr (), t)"
    "player_ok t" "pl_value t = pl_maximum t" by (auto simp: bounds_values_def)
  show ?thesis using s' t player_ok_playback [OF s'(2)] player_ok_playback [OF t(2)]
    by (auto simp: player_ok_def Let_def)
qed

lemma task_later_effect:
  assumes s: "player_ok s" and t: "sendable (setSendData send t)"
  shows "\<exists>c. task_on_network t send s = s\<lparr>pl_cmd := c,
        pl_queue := pl_queue s @ [(Suc (historyTaskCount (pl_cmd s)), isPlaybackMode (pl_cmd s))]\<rparr>
    \<and> all_sendable c \<and> historyTaskCount c = Suc (historyTaskCount (pl_cmd s))
    \<and> (\<not> isPlaybackMode (pl_cmd s) \<longrightarrow> cm_currentPlayPos c = int (historyTaskCount (pl_cmd s)))"
proof -
  let ?c0 = "(pl_cmd s)\<lparr>cm_events := []\<rparr>"
  have c0: "all_sendable ?c0" "historyTaskCount ?c0 = historyTaskCount (pl_cmd s)" "isPlaybackMode ?c0 = isPlaybackMode (pl_cmd s)"
    using s by (simp_all add: player_ok_def all_sendable_def historyTaskCount_def isPlaybackMode_def Let_def)
  from executeTask_adds [OF c0(1) t] c0(2,3) show ?thesis
    by (auto simp: task_on_network_def runs_task_def)
qed

text \<open>A task that arrives from the network while the user drags the slider back leaves the window in a wrong
  state: the note to the window, which is deferred, holds the playback flag of the moment the task came.
  When it is delivered, the slider jumps to its end and the status bar says so, while the history is
  still played at the position the user chose and the user cannot draw; and moving the slider to its end
  changes nothing, since it is there already.\<close>

lemma late_task_moves_slider_only:
  assumes b: "bounds_values E" and cv: "\<not> cv_freezeActionFlag cv"
    and run: "(player_step E)\<^sup>*\<^sup>* (new_player cv) s" and q: "pl_queue s = []" and at_end: "pl_value s = pl_maximum s"
    and t: "sendable (setSendData send t)" and v: "0 \<le> v" "v < pl_maximum s"
  shows "\<exists>s1 s2. slider_setValue E v (task_on_network t send s) = (Inr (), s1) \<and> deliver E s1 = (Inr (), s2)
    \<and> pl_value s2 = pl_maximum s2 \<and> pl_playbackStatus s2 = (pl_maximum s2, pl_maximum s2)
    \<and> isPlaybackMode (pl_cmd s2) \<and> cm_currentPlayPos (pl_cmd s2) = v - 1
    \<and> \<not> pl_enabled s2 \<and> cv_freezeActionFlag (pl_canvas s2)
    \<and> slider_setValue E (pl_maximum s2) s2 = (Inr (), s2)"
proof -
  have s: "player_ok s" by (rule reachable_player [OF b cv run])
  let ?n = "historyTaskCount (pl_cmd s)"
  have n: "pl_maximum s = int ?n" "\<not> isPlaybackMode (pl_cmd s)"
    using s at_end player_ok_playback [OF s] by (simp_all add: player_ok_def Let_def)
  obtain c where c: "task_on_network t send s = s\<lparr>pl_cmd := c, pl_queue := [(Suc ?n, False)]\<rparr>"
    "all_sendable c" "historyTaskCount c = Suc ?n" "cm_currentPlayPos c = int ?n"
    using task_later_effect [OF s t] n(2) q by auto
  have "- 1 \<le> cm_currentPlayPos c" "cm_currentPlayPos c < int (historyTaskCount c)" "- 1 \<le> v - 1"
    "v - 1 < int (historyTaskCount c)" using c v n by simp_all
  from playbackTo_moves [OF c(2) this] obtain d where d: "playbackTo (v - 1) c = (Inr (), d)" "cm_currentPlayPos d = v - 1"
    "all_sendable d" "historyTaskCount d = Suc ?n" using c by auto
  have pb: "isPlaybackMode d"
    using d(2,4) v n by (simp add: isPlaybackMode_def historyTaskCount_def DEFAULT_INIT_PLAYBACK_POS_def)
  let ?t = "s\<lparr>pl_queue := [(Suc ?n, False)], pl_value := v, pl_cmd := d, pl_playbackStatus := (v, int ?n)\<rparr>"
  let ?s1 = "setEnabledPainter E False ?t"
  have "slider_setValue E v (task_on_network t send s) = (Inr (), ?s1)"
    using c v n at_end d pb b s by (simp add: slider_setValue_def slider_take_def bounds_values_def player_ok_def
        onPlaybackSliderValueChanged_def Let_def)
  moreover have "flags_agree ?t" using s by (simp add: player_ok_def flags_agree_def Let_def)
  note e = setEnabledPainter_flags [OF this, of E False]
  have "\<exists>s2. deliver E ?s1 = (Inr (), s2) \<and> pl_value s2 = int (Suc ?n) \<and> pl_maximum s2 = int (Suc ?n)
    \<and> pl_playbackStatus s2 = (int (Suc ?n), int (Suc ?n)) \<and> pl_cmd s2 = d \<and> flags_agree s2 \<and> \<not> pl_enabledPainter s2"
  proof -
    let ?r = "?s1\<lparr>pl_queue := []\<rparr>"
    have "0 \<le> pl_value ?r" "pl_value ?r \<le> int (Suc ?n)" "\<not> pl_playbackSliderFreezingFlag ?r"
      using e v n s by (simp_all add: player_ok_def Let_def)
    note told = onAddTask_effect [OF b this, of False]
    have "deliver E ?s1 = onAddTask E (Suc ?n) False ?r" using e by (simp add: deliver_def)
    then show ?thesis unfolding told using e by (simp add: flags_agree_def)
  qed
  then obtain s2 where s2: "deliver E ?s1 = (Inr (), s2)" "pl_value s2 = int (Suc ?n)" "pl_maximum s2 = int (Suc ?n)"
    "pl_playbackStatus s2 = (int (Suc ?n), int (Suc ?n))" "pl_cmd s2 = d" "flags_agree s2" "\<not> pl_enabledPainter s2" by blast
  have "slider_setValue E (pl_maximum s2) s2 = (Inr (), s2)"
    using b s2(2,3) by (simp add: slider_setValue_def slider_take_def bounds_values_def)
  ultimately show ?thesis using s2 d pb by (auto simp: flags_agree_def)
qed

section \<open>Witnesses\<close>

definition sample_player_env :: player_env where
  "sample_player_env = \<lparr>pe_bound = (\<lambda>m v. max 0 (min v m)), pe_scene = sample_env\<rparr>"

definition sample_player :: player where
  "sample_player = new_player (new_scene 0 0 Border_Rect)"

definition after_task :: player where
  "after_task = snd (task_here sample_player_env (new_task False [7] 1 AddItem) False sample_player)"

lemma sample_bounds: "bounds_values sample_player_env"
  by (simp add: bounds_values_def sample_player_env_def)

lemma sample_thawed: "\<not> cv_freezeActionFlag (new_scene 0 0 Border_Rect)"
  by (simp add: new_scene_def)

lemma sample_sendable: "sendable (setSendData False (new_task False [7] 1 AddItem))"
  by (simp add: sendable_def setSendData_def new_task_def)

lemma after_task_step: "player_step sample_player_env sample_player after_task"
  by (rule player_step.task [OF sample_sendable, of _ _ "fst (task_here sample_player_env (new_task False [7] 1 AddItem) False sample_player)"])
    (simp add: after_task_def)

lemma after_task_values: "pl_value after_task = 1" "pl_maximum after_task = 1" "pl_queue after_task = []"
  by code_simp+

definition played_back :: player where
  "played_back = snd (slider_setValue sample_player_env 0 after_task)"

lemma played_back_run: "(player_step sample_player_env)\<^sup>*\<^sup>* sample_player played_back"
proof -
  have "player_step sample_player_env after_task played_back"
    by (rule player_step.slide [where v = 0 and r = "fst (slider_setValue sample_player_env 0 after_task)"]) (simp add: played_back_def)
  with after_task_step show ?thesis by (meson converse_rtranclp_into_rtranclp rtranclp.rtrancl_refl)
qed

lemma played_back_values: "pl_value played_back = 0" "pl_maximum played_back = 1"
  by code_simp+


end
