(* ===== verification/Settings.thy ===== *)
theory Settings
  imports PaintItem
begin

text \<open>
  The settings of the client: \<^verbatim>\<open>SettingManager.h\<close> and \<^verbatim>\<open>.cpp\<close>, and the dialog in which the user changes
  five of them, \<^verbatim>\<open>PreferencesDialog.cpp\<close>.  They are kept in an ini file by \<^verbatim>\<open>QSettings\<close>: a map from a
  group and a key to a value.  The file keeps text, so a value may be read back as another kind of
  \<^verbatim>\<open>QVariant\<close>; \<open>se_kept\<close> says which.
\<close>

section \<open>Strings and values of Qt\<close>

datatype qvariant = QInvalid | QText qstring | QFlag bool

type_synonym ini = "string \<times> string \<rightharpoonup> qvariant"

text \<open>
  Qt's conversions: UTF-8 (\<open>se_qt\<close>), \<^verbatim>\<open>QString( const char * )\<close> and \<^verbatim>\<open>toStdString\<close>, \<^verbatim>\<open>QVariant::toString\<close> and
  \<^verbatim>\<open>toBool\<close> of a text or a flag; and whether another instance of the program is running
  (\<^verbatim>\<open>_multi_instance_mode\<close>).
\<close>

record settings_env =
  se_qt :: qt
  se_fromAscii :: "bytes \<Rightarrow> qstring"
  se_toStd :: "qstring \<Rightarrow> bytes"
  se_flagText :: "bool \<Rightarrow> qstring"
  se_textFlag :: "qstring \<Rightarrow> bool"
  se_kept :: "qvariant \<Rightarrow> qvariant"
  se_multi :: bool

definition c_str :: "bytes \<Rightarrow> bytes" where
  "c_str s = takeWhile (\<lambda>c. c \<noteq> 0) s"

definition toStringFromUtf8 :: "settings_env \<Rightarrow> bytes \<Rightarrow> qstring" where
  "toStringFromUtf8 E s = q_fromUtf8 (se_qt E) (c_str s)"

definition toUtf8StdString :: "settings_env \<Rightarrow> qstring \<Rightarrow> bytes" where
  "toUtf8StdString E s = q_toUtf8 (se_qt E) s"

definition fromAscii :: "settings_env \<Rightarrow> bytes \<Rightarrow> qstring" where
  "fromAscii E s = se_fromAscii E (c_str s)"

fun toString :: "settings_env \<Rightarrow> qvariant \<Rightarrow> qstring" where
  "toString E QInvalid = []"
| "toString E (QText s) = s"
| "toString E (QFlag b) = se_flagText E b"

fun toBool :: "settings_env \<Rightarrow> qvariant \<Rightarrow> bool" where
  "toBool E QInvalid = False"
| "toBool E (QText s) = se_textFlag E s"
| "toBool E (QFlag b) = b"

definition set_value :: "settings_env \<Rightarrow> string \<Rightarrow> string \<Rightarrow> qvariant \<Rightarrow> ini \<Rightarrow> ini" where
  "set_value E g k v f = f((g, k) \<mapsto> se_kept E v)"

definition ini_value :: "ini \<Rightarrow> string \<Rightarrow> string \<Rightarrow> qvariant \<Rightarrow> qvariant" where
  "ini_value f g k d = (case f (g, k) of None \<Rightarrow> d | Some v \<Rightarrow> v)"

text \<open>What \<^verbatim>\<open>QSettings\<close> documents: a text comes back as that text, a flag as that flag.\<close>

definition keeps_values :: "settings_env \<Rightarrow> bool" where
  "keeps_values E \<longleftrightarrow> (\<forall>s. toString E (se_kept E (QText s)) = s) \<and> (\<forall>b. toBool E (se_kept E (QFlag b)) = b)"

section \<open>The settings\<close>

record settings =
  st_myId :: bytes
  st_paintChannel :: bytes
  st_peerAddress :: bytes
  st_relayServerAddress :: bytes
  st_nickName :: bytes
  st_lastAutoSavePath :: bytes
  st_syncWindowSize :: bool
  st_serverConnectOnStart :: bool
  st_blinkLastItem :: bool
  st_autoSaveData :: bool
  st_highQualityMoveItemMode :: bool

text \<open>The constructor: the flags are not initialised before \<^verbatim>\<open>load\<close> sets them.\<close>

definition settings_blank :: settings where
  "settings_blank = \<lparr>st_myId = [], st_paintChannel = [], st_peerAddress = [], st_relayServerAddress = [], st_nickName = [],
     st_lastAutoSavePath = [], st_syncWindowSize = False, st_serverConnectOnStart = False, st_blinkLastItem = False,
     st_autoSaveData = False, st_highQualityMoveItemMode = False\<rparr>"

definition load_settings :: "settings_env \<Rightarrow> ini \<Rightarrow> settings \<Rightarrow> settings" where
  "load_settings E f s =
     (let text = (\<lambda>g k. toString E (ini_value f g k QInvalid));
          check = (\<lambda>k d. toBool E (ini_value f ''general'' k (QFlag d)));
          s = (if se_multi E then s else s\<lparr>st_myId := toUtf8StdString E (text ''private'' ''myId'')\<rparr>);
          s = s\<lparr>st_lastAutoSavePath := toUtf8StdString E (text ''private'' ''lastAutoSavePath'')\<rparr>;
          s = s\<lparr>st_nickName := toUtf8StdString E (text ''personal'' ''nickName'')\<rparr>;
          s = s\<lparr>st_syncWindowSize := check ''syncWindowSize'' True,
                st_serverConnectOnStart := check ''serverConnectOnStart'' True,
                st_blinkLastItem := check ''blinkLastItem'' True,
                st_autoSaveData := check ''autoSaveData'' True,
                st_highQualityMoveItemMode := check ''highQualityMoveItem'' False\<rparr> in
      s\<lparr>st_peerAddress := se_toStd E (text ''network'' ''peerAddress''),
        st_relayServerAddress := se_toStd E (text ''network'' ''relayServerAddress''),
        st_paintChannel := se_toStd E (text ''network'' ''paintChannel'')\<rparr>)"

definition save_settings :: "settings_env \<Rightarrow> settings \<Rightarrow> ini \<Rightarrow> ini" where
  "save_settings E s f =
     (let f = (if se_multi E then f
               else set_value E ''private'' ''myId'' (QText (toStringFromUtf8 E (st_myId s))) f);
          f = set_value E ''private'' ''lastAutoSavePath'' (QText (toStringFromUtf8 E (st_lastAutoSavePath s))) f;
          f = set_value E ''personal'' ''nickName'' (QText (toStringFromUtf8 E (st_nickName s))) f;
          f = set_value E ''general'' ''syncWindowSize'' (QFlag (st_syncWindowSize s)) f;
          f = set_value E ''general'' ''serverConnectOnStart'' (QFlag (st_serverConnectOnStart s)) f;
          f = set_value E ''general'' ''blinkLastItem'' (QFlag (st_blinkLastItem s)) f;
          f = set_value E ''general'' ''autoSaveData'' (QFlag (st_autoSaveData s)) f;
          f = set_value E ''general'' ''highQualityMoveItem'' (QFlag (st_highQualityMoveItemMode s)) f;
          f = set_value E ''network'' ''peerAddress'' (QText (fromAscii E (st_peerAddress s))) f;
          f = set_value E ''network'' ''relayServerAddress'' (QText (fromAscii E (st_relayServerAddress s))) f in
      set_value E ''network'' ''paintChannel'' (QText (fromAscii E (st_paintChannel s))) f)"

definition new_settings :: "settings_env \<Rightarrow> ini \<Rightarrow> settings" where
  "new_settings E f = load_settings E f settings_blank"

section \<open>The preferences dialog\<close>

record preferences =
  pf_syncWinSize :: bool
  pf_serverConnOnStart :: bool
  pf_blinkLastItem :: bool
  pf_autoSaveData :: bool
  pf_highQualityMoveItem :: bool

definition loadGeneral :: "settings \<Rightarrow> preferences" where
  "loadGeneral s = \<lparr>pf_syncWinSize = st_syncWindowSize s, pf_serverConnOnStart = st_serverConnectOnStart s,
     pf_blinkLastItem = st_blinkLastItem s, pf_autoSaveData = st_autoSaveData s,
     pf_highQualityMoveItem = st_highQualityMoveItemMode s\<rparr>"

definition preferences_onOK :: "preferences \<Rightarrow> settings \<Rightarrow> settings" where
  "preferences_onOK p s = s\<lparr>st_syncWindowSize := pf_syncWinSize p, st_serverConnectOnStart := pf_serverConnOnStart p,
     st_blinkLastItem := pf_blinkLastItem p, st_autoSaveData := pf_autoSaveData p,
     st_highQualityMoveItemMode := pf_highQualityMoveItem p\<rparr>"

lemma preferences_unchanged [simp]: "preferences_onOK (loadGeneral s) s = s"
  by (cases s) (simp add: preferences_onOK_def loadGeneral_def)

lemma preferences_load [simp]: "loadGeneral (preferences_onOK p s) = p"
  by (cases p) (simp add: preferences_onOK_def loadGeneral_def)

section \<open>What is saved is loaded\<close>

text \<open>The strings that survive the conversions: no NUL, and in the encoding that is used for them.\<close>

definition in_utf8 :: "settings_env \<Rightarrow> bytes \<Rightarrow> bool" where
  "in_utf8 E s \<longleftrightarrow> toUtf8StdString E (toStringFromUtf8 E s) = s"

definition in_ascii :: "settings_env \<Rightarrow> bytes \<Rightarrow> bool" where
  "in_ascii E s \<longleftrightarrow> se_toStd E (fromAscii E s) = s"

definition storable :: "settings_env \<Rightarrow> settings \<Rightarrow> bool" where
  "storable E s \<longleftrightarrow> in_utf8 E (st_myId s) \<and> in_utf8 E (st_lastAutoSavePath s) \<and> in_utf8 E (st_nickName s)
     \<and> in_ascii E (st_peerAddress s) \<and> in_ascii E (st_relayServerAddress s) \<and> in_ascii E (st_paintChannel s)"

lemma ini_get_set [simp]:
  "ini_value (set_value E g k v f) g' k' d = (if g' = g \<and> k' = k then se_kept E v else ini_value f g' k' d)"
  by (simp add: set_value_def ini_value_def)

lemma load_saved:
  assumes "keeps_values E"
  shows "load_settings E (save_settings E s f) t =
    \<lparr>st_myId = (if se_multi E then st_myId t else toUtf8StdString E (toStringFromUtf8 E (st_myId s))),
     st_paintChannel = se_toStd E (fromAscii E (st_paintChannel s)),
     st_peerAddress = se_toStd E (fromAscii E (st_peerAddress s)),
     st_relayServerAddress = se_toStd E (fromAscii E (st_relayServerAddress s)),
     st_nickName = toUtf8StdString E (toStringFromUtf8 E (st_nickName s)),
     st_lastAutoSavePath = toUtf8StdString E (toStringFromUtf8 E (st_lastAutoSavePath s)),
     st_syncWindowSize = st_syncWindowSize s, st_serverConnectOnStart = st_serverConnectOnStart s,
     st_blinkLastItem = st_blinkLastItem s, st_autoSaveData = st_autoSaveData s,
     st_highQualityMoveItemMode = st_highQualityMoveItemMode s\<rparr>"
  using assms by (cases t) (simp add: keeps_values_def load_settings_def save_settings_def Let_def)

lemma saved_id: "se_multi E \<Longrightarrow> ini_value (save_settings E s f) ''private'' ''myId'' d = ini_value f ''private'' ''myId'' d"
  by (simp add: save_settings_def Let_def)

text \<open>C34: Settings survive a restart: when every string can be converted to Qt's and back, loading what was saved
  gives the settings that were saved, whatever the file and the loader held before; only the user id of
  an instance that runs beside another one is its own, and then the id in the file is left alone.\<close>

theorem settings_roundtrip:
  assumes "keeps_values E" and "storable E s"
  shows "load_settings E (save_settings E s f) t = (if se_multi E then s\<lparr>st_myId := st_myId t\<rparr> else s)
    \<and> (se_multi E \<longrightarrow> ini_value (save_settings E s f) ''private'' ''myId'' d = ini_value f ''private'' ''myId'' d)"
  using assms by (cases s) (simp add: load_saved saved_id storable_def in_utf8_def in_ascii_def)

definition sample_settings_env :: settings_env where
  "sample_settings_env = \<lparr>se_qt = sample_qt, se_fromAscii = map ucast, se_toStd = map ucast,
     se_flagText = (\<lambda>b. if b then [116] else []), se_textFlag = (\<lambda>s. s \<noteq> []),
     se_kept = (\<lambda>v. case v of QFlag b \<Rightarrow> QText (if b then [116] else []) | _ \<Rightarrow> v), se_multi = False\<rparr>"

definition sample_settings :: settings where
  "sample_settings = settings_blank\<lparr>st_myId := [65, 66], st_nickName := [75], st_paintChannel := [49], st_autoSaveData := True\<rparr>"

lemma sample_keeps_values: "keeps_values sample_settings_env"
  by (auto simp: keeps_values_def sample_settings_env_def)

lemma settings_roundtrip_witness:
  "load_settings sample_settings_env (save_settings sample_settings_env sample_settings Map.empty) settings_blank = sample_settings"
  using settings_roundtrip [OF sample_keeps_values, of sample_settings Map.empty settings_blank]
  by (simp add: storable_def in_utf8_def in_ascii_def sample_settings_env_def sample_settings_def settings_blank_def
      toUtf8StdString_def toStringFromUtf8_def fromAscii_def c_str_def sample_qt_def)

end
