(* ===== verification/MainWindow.thy ===== *)
theory MainWindow
  imports ManagerLoading ManagerRun UpgradeManager Settings
begin

text \<open>
  The main window, \<^verbatim>\<open>SharedPainter.h\<close> and \<^verbatim>\<open>.cpp\<close>: what it asks the user, the files it writes and reads,
  how it starts and closes.  It acts on the paint manager and the settings.  What it is told by the
  manager is in the manager's trace; only the clearing of the screen is done here where it happens,
  since the window then saves the drawing before the manager drops it.

  A dialog is modal: its answer is the next of \<open>mw_answers\<close>, and the result is \<open>None\<close> while there is
  none.  Nothing else happens while a dialog is open.
\<close>

section \<open>State\<close>

text \<open>
  An input dialog is cancelled (and the flag says whether the program has been told to exit by then) or
  a text is entered; a question is answered with OK or not.
\<close>

datatype answer = Cancelled bool | Entered qstring | Pressed bool

datatype box = Box_CannotOpen | Box_FailedToSave | Box_CannotImport | Box_NeedNickName | Box_NeedChannel
  | Box_InvalidChannel | Box_Question | Box_WrongAddress | Box_CouldNotConnect | Box_Systray

record main_window =
  mw_pm :: paint_manager
  mw_st :: settings
  mw_ini :: ini
  mw_enabledPainter :: bool
  mw_modifiedFlag :: bool
  mw_exitFlag :: bool
  mw_gridLineChecked :: bool
  mw_trayVisible :: bool
  mw_visible :: bool
  mw_title :: qstring
  mw_boxes :: "box list"
  mw_answers :: "answer list"

text \<open>
  The manager's environment and the settings'; the directory of the program, the separator of paths and
  the time; \<^verbatim>\<open>QString::toInt\<close>, the id \<^verbatim>\<open>Util::generateMyId\<close> makes, and the translation of the program's texts.
\<close>

record window_env =
  we_env :: env
  we_se :: settings_env
  we_appPath :: qstring
  we_separator :: qstring
  we_now :: qstring
  we_toInt :: "qstring \<Rightarrow> int"
  we_newId :: bytes
  we_tr :: "string \<Rightarrow> qstring"

type_synonym 'a mw = "(main_window, 'a) meth"

definition on_pm :: "'a pm \<Rightarrow> 'a mw" where
  "on_pm m s = (case m (mw_pm s) of (r, p) \<Rightarrow> (r, s\<lparr>mw_pm := p\<rparr>))"

definition show_box :: "box \<Rightarrow> main_window \<Rightarrow> main_window" where
  "show_box b s = s\<lparr>mw_boxes := mw_boxes s @ [b]\<rparr>"

definition qlit :: "window_env \<Rightarrow> string \<Rightarrow> qstring" where
  "qlit E l = se_fromAscii (we_se E) (map (\<lambda>c. of_nat (of_char c)) l)"

definition upd_settings :: "(settings \<Rightarrow> settings) \<Rightarrow> main_window \<Rightarrow> main_window" where
  "upd_settings f s = s\<lparr>mw_st := f (mw_st s)\<rparr>"

section \<open>Files\<close>

definition write_disk :: "qstring \<Rightarrow> bytes \<Rightarrow> main_window \<Rightarrow> main_window" where
  "write_disk path d s = s\<lparr>mw_pm := (mw_pm s)\<lparr>pm_files := (pm_files (mw_pm s))(path \<mapsto> d)\<rparr>\<rparr>"

definition exportToFile :: "window_env \<Rightarrow> bytes \<Rightarrow> qstring \<Rightarrow> main_window \<Rightarrow> main_window" where
  "exportToFile E data path s =
     (let q = en_qt (we_env E); ret = q_written q data in
      if \<not> q_canWrite q path then show_box Box_CannotOpen s
      else if ret \<noteq> int (length data) then show_box Box_FailedToSave (write_disk path (take (nat ret) data) s)
      else write_disk path data s)"

definition autoSaveFile :: "window_env \<Rightarrow> qstring \<Rightarrow> qstring" where
  "autoSaveFile E name =
     we_appPath E @ we_separator E @ qlit E ''autosave'' @ we_separator E @ qlit E ''auto_saved_'' @ name"

definition autoExportToFile :: "window_env \<Rightarrow> unit mw" where
  "autoExportToFile E s =
     (if \<not> mw_exitFlag s \<and> (\<not> st_autoSaveData (mw_st s) \<or> \<not> mw_modifiedFlag s) then (Inr (), s)
      else let autoPath = autoSaveFile E (if mw_exitFlag s then qlit E ''last.sp'' else we_now E @ qlit E ''.sp'') in
        (case serializeData (we_env E) None (mw_pm s) of
           Inl err \<Rightarrow> (Inl err, s)
         | Inr allData \<Rightarrow> (Inr (), upd_settings
             (\<lambda>st. st\<lparr>st_lastAutoSavePath := toUtf8StdString (we_se E) autoPath\<rparr>) (exportToFile E allData autoPath s))))"

text \<open>
  \<^verbatim>\<open>onISharedPaintEvent_ClearScreen\<close>.  What it does to the slider and the canvas is in \<open>PlaybackSlider\<close>.
\<close>

definition clear_event :: "window_env \<Rightarrow> unit mw" where
  "clear_event E =
     thenS (autoExportToFile E)
       (updS (\<lambda>s.
          let s = s\<lparr>mw_gridLineChecked := False\<rparr>;
              s = (if mw_enabledPainter s then s
                   else s\<lparr>mw_enabledPainter := True, mw_pm := (mw_pm s)\<lparr>pm_enabled := True\<rparr>\<rparr>) in
          s\<lparr>mw_modifiedFlag := False\<rparr>))"

text \<open>\<^verbatim>\<open>clearScreen\<close>, \<^verbatim>\<open>close\<close> and \<^verbatim>\<open>requestJoinServer\<close> of the manager, on the main thread, with the window told.\<close>

definition mw_clearScreen :: "window_env \<Rightarrow> bool \<Rightarrow> unit mw" where
  "mw_clearScreen E sendData =
     thenS (on_pm (whenS sendData (sendDataToUsers_unit make_ClearScreen)))
    (thenS (on_pm (updS (notify Ob_ClearScreen)))
    (thenS (clear_event E)
       (on_pm clearAllItems)))"

definition mw_close :: "window_env \<Rightarrow> unit mw" where
  "mw_close E =
     thenS (on_pm (assertS pm_mainThread))
    (thenS (mw_clearScreen E False)
    (thenS (on_pm clearAllItems)
       (on_pm (closeSession (we_env E)))))"

definition mw_requestJoinServer :: "window_env \<Rightarrow> bytes \<Rightarrow> int \<Rightarrow> bytes \<Rightarrow> bool mw" where
  "mw_requestJoinServer E addr port roomid =
     thenS (on_pm (updS (\<lambda>s. s\<lparr>pm_retryCount := 0\<rparr>)))
    (thenS (mw_close E)
       (on_pm (u_requestJoinServer (we_env E) addr port roomid)))"

definition mw_connectToPeer :: "window_env \<Rightarrow> bytes \<Rightarrow> int \<Rightarrow> bool mw" where
  "mw_connectToPeer E addr port =
     thenS (on_pm (updS (\<lambda>s. s\<lparr>pm_retryCount := 0\<rparr>)))
    (thenS (mw_close E)
       (on_pm (u_connectToPeer (we_env E) addr port)))"

definition importFromFile :: "window_env \<Rightarrow> qstring \<Rightarrow> main_window \<Rightarrow> (unit result \<times> main_window) option" where
  "importFromFile E path s =
     (if path = [] then Some (Inr (), s)
      else case pm_files (mw_pm s) path of
        None \<Rightarrow> Some (Inr (), show_box Box_CannotOpen s)
      | Some byteArray \<Rightarrow>
          (case mw_clearScreen E True s of
             (Inl err, s) \<Rightarrow> Some (Inl err, s)
           | (Inr u, s) \<Rightarrow>
               (case deserializeData (we_env E) byteArray (mw_pm s) of
                  None \<Rightarrow> None
                | Some (Inl err, p) \<Rightarrow> Some (Inl err, s\<lparr>mw_pm := p\<rparr>)
                | Some (Inr ok, p) \<Rightarrow>
                    (let s = s\<lparr>mw_pm := p\<rparr>; s = (if ok then s else show_box Box_CannotImport s) in
                     Some (Inr (), s\<lparr>mw_modifiedFlag := False\<rparr>)))))"

definition actionExportFile :: "window_env \<Rightarrow> qstring \<Rightarrow> unit mw" where
  "actionExportFile E path s =
     (case serializeData (we_env E) None (mw_pm s) of
        Inl err \<Rightarrow> (Inl err, s)
      | Inr allData \<Rightarrow> (Inr (), if path = [] then s else exportToFile E allData path s))"

section \<open>The title, the nick name and the channel\<close>

definition updateWindowTitle :: "window_env \<Rightarrow> main_window \<Rightarrow> main_window" where
  "updateWindowTitle E s = s\<lparr>mw_title :=
     qlit E ''Shared Painter'' @ qlit E '' Ver '' @ se_fromAscii (we_se E) VERSION_TEXT @ qlit E '' ('' @
     se_fromAscii (we_se E) PROTOCOL_VERSION_TEXT @ qlit E '')'' @ qlit E '', '' @
     toStringFromUtf8 (we_se E) (st_nickName (mw_st s)) @ qlit E '' - Channel : '' @
     (if st_paintChannel (mw_st s) \<noteq> [] then toStringFromUtf8 (we_se E) (st_paintChannel (mw_st s))
      else we_tr E ''<Empty>'')\<rparr>"

definition thenW :: "('a result \<times> main_window) option \<Rightarrow> ('a \<Rightarrow> main_window \<Rightarrow> ('b result \<times> main_window) option)
    \<Rightarrow> ('b result \<times> main_window) option" where
  "thenW x k = (case x of
       None \<Rightarrow> None
     | Some (Inl err, s) \<Rightarrow> Some (Inl err, s)
     | Some (Inr a, s) \<Rightarrow> k a s)"

text \<open>
  The loops that ask again.  \<open>force\<close> is the parameter of the methods: the user has chosen to change the
  name.  The dialog for the channel is built in the same way; what is done with its answer follows.
\<close>

definition nick_entered :: "window_env \<Rightarrow> qstring \<Rightarrow> bool mw" where
  "nick_entered E nick =
     thenS (updS (upd_settings (\<lambda>st. st\<lparr>st_nickName := toUtf8StdString (we_se E) nick\<rparr>)))
    (thenS (\<lambda>s. on_pm (changeNickName (we_env E) (st_nickName (mw_st s))) s)
    (thenS (updS (updateWindowTitle E))
       (returnS True)))"

fun getNickNameString :: "window_env \<Rightarrow> bool \<Rightarrow> answer list \<Rightarrow> main_window \<Rightarrow> (bool result \<times> main_window) option" where
  "getNickNameString E force as s =
     (if \<not> force \<and> st_nickName (mw_st s) \<noteq> [] then Some (Inr True, s\<lparr>mw_answers := as\<rparr>)
      else let s = (if force then s else show_box Box_NeedNickName s) in
        case as of
          Cancelled exiting # as \<Rightarrow>
            if mw_exitFlag s \<or> exiting then Some (Inr False, s\<lparr>mw_answers := as\<rparr>)
            else if st_nickName (mw_st s) = [] then getNickNameString E force as s
            else Some (Inr True, s\<lparr>mw_answers := as\<rparr>)
        | Entered nick # as \<Rightarrow>
            if nick = [] then getNickNameString E force as (show_box Box_InvalidChannel s)
            else Some (nick_entered E nick (s\<lparr>mw_answers := as\<rparr>))
        | _ \<Rightarrow> None)"

definition channel_changed :: "window_env \<Rightarrow> qstring \<Rightarrow> bool \<Rightarrow> bool mw" where
  "channel_changed E channel reconnectFlag =
     thenS (updS (upd_settings (\<lambda>st. st\<lparr>st_paintChannel := se_toStd (we_se E) channel\<rparr>)))
    (thenS (\<lambda>s. on_pm (setPaintChannel (we_env E) (st_paintChannel (mw_st s))) s)
    (thenS (whenS reconnectFlag (on_pm (reconnect (we_env E))))
    (thenS (updS (updateWindowTitle E))
       (returnS True))))"

definition channel_entered :: "window_env \<Rightarrow> qstring \<Rightarrow> answer list \<Rightarrow> main_window \<Rightarrow> (bool result \<times> main_window) option" where
  "channel_entered E channel as s =
     (let prevChannel = st_paintChannel (mw_st s) in
      if prevChannel \<noteq> [] \<and> prevChannel \<noteq> se_toStd (we_se E) channel
         \<and> (isConnected (mw_pm s) \<or> isConnecting (mw_pm s))
      then (let reconnectFlag = isRelayServerMode (mw_pm s); s = show_box Box_Question s in
        case as of
          Pressed ok # as \<Rightarrow>
            if \<not> ok then Some (Inr False, s\<lparr>mw_answers := as\<rparr>)
            else Some (thenS (on_pm (closeSession (we_env E))) (channel_changed E channel reconnectFlag) (s\<lparr>mw_answers := as\<rparr>))
        | _ \<Rightarrow> None)
      else Some (channel_changed E channel False (s\<lparr>mw_answers := as\<rparr>)))"

fun getPaintChannelString :: "window_env \<Rightarrow> bool \<Rightarrow> answer list \<Rightarrow> main_window \<Rightarrow> (bool result \<times> main_window) option" where
  "getPaintChannelString E force as s =
     (if \<not> force \<and> st_paintChannel (mw_st s) \<noteq> [] then Some (Inr True, s\<lparr>mw_answers := as\<rparr>)
      else let s = (if force then s else show_box Box_NeedChannel s) in
        case as of
          Cancelled exiting # as \<Rightarrow>
            if mw_exitFlag s \<or> exiting then Some (Inr False, s\<lparr>mw_answers := as\<rparr>)
            else if st_paintChannel (mw_st s) = [] then getPaintChannelString E force as s
            else Some (Inr True, s\<lparr>mw_answers := as\<rparr>)
        | Entered channel # as \<Rightarrow>
            if channel = [] then getPaintChannelString E force as (show_box Box_InvalidChannel s)
            else channel_entered E channel as s
        | _ \<Rightarrow> None)"

declare getNickNameString.simps [simp del] getPaintChannelString.simps [simp del]


definition ask_nick :: "window_env \<Rightarrow> bool \<Rightarrow> main_window \<Rightarrow> (bool result \<times> main_window) option" where
  "ask_nick E force s = getNickNameString E force (mw_answers s) s"

definition ask_channel :: "window_env \<Rightarrow> bool \<Rightarrow> main_window \<Rightarrow> (bool result \<times> main_window) option" where
  "ask_channel E force s = getPaintChannelString E force (mw_answers s) s"

section \<open>Connecting\<close>

text \<open>\<^verbatim>\<open>QString::split\<close>.\<close>

fun qsplit :: "16 word \<Rightarrow> qstring \<Rightarrow> qstring list" where
  "qsplit c [] = [[]]"
| "qsplit c (x # xs) =
     (if x = c then [] # qsplit c xs else case qsplit c xs of [] \<Rightarrow> [[x]] | y # ys \<Rightarrow> (x # y) # ys)"

definition address_parts :: "window_env \<Rightarrow> qstring \<Rightarrow> (bytes \<times> int) option" where
  "address_parts E addr =
     (let list = qsplit 58 addr in
      if length list \<noteq> 2 then None else Some (se_toStd (we_se E) (list ! 0), we_toInt E (list ! 1)))"

definition server_entered :: "window_env \<Rightarrow> qstring \<Rightarrow> unit mw" where
  "server_entered E addr s =
     (if addr = [] then (Inr (), show_box Box_WrongAddress s)
      else case address_parts E addr of
        None \<Rightarrow> (Inr (), show_box Box_WrongAddress s)
      | Some (ip, port) \<Rightarrow>
          thenS (updS (upd_settings (\<lambda>st. st\<lparr>st_relayServerAddress := se_toStd (we_se E) addr\<rparr>)))
            (\<lambda>s. thenS (mw_requestJoinServer E ip port (st_paintChannel (mw_st s))) (returnS ()) s) s)"

definition actionConnectServer :: "window_env \<Rightarrow> main_window \<Rightarrow> (unit result \<times> main_window) option" where
  "actionConnectServer E s =
     thenW (ask_nick E False s) (\<lambda>ok s. if \<not> ok then Some (Inr (), s) else
     thenW (ask_channel E False s) (\<lambda>ok s. if \<not> ok then Some (Inr (), s) else
       (case mw_answers s of
          Cancelled exiting # as \<Rightarrow> Some (Inr (), s\<lparr>mw_answers := as\<rparr>)
        | Entered addr # as \<Rightarrow> Some (server_entered E addr (s\<lparr>mw_answers := as\<rparr>))
        | _ \<Rightarrow> None)))"

definition peer_entered :: "window_env \<Rightarrow> qstring \<Rightarrow> unit mw" where
  "peer_entered E addr s =
     (if addr = [] then (Inr (), show_box Box_WrongAddress s)
      else case address_parts E addr of
        None \<Rightarrow> (Inr (), show_box Box_WrongAddress s)
      | Some (ip, port) \<Rightarrow>
          bindS (mw_connectToPeer E ip port) (\<lambda>ok.
            updS (\<lambda>s. if ok then s else show_box Box_CouldNotConnect s))
            (upd_settings (\<lambda>st. st\<lparr>st_peerAddress := se_toStd (we_se E) addr\<rparr>) s))"

definition actionConnect :: "window_env \<Rightarrow> main_window \<Rightarrow> (unit result \<times> main_window) option" where
  "actionConnect E s =
     (case mw_answers s of
        Cancelled exiting # as \<Rightarrow> Some (Inr (), s\<lparr>mw_answers := as\<rparr>)
      | Entered addr # as \<Rightarrow> Some (peer_entered E addr (s\<lparr>mw_answers := as\<rparr>))
      | _ \<Rightarrow> None)"

definition window_sendChatMessage :: "window_env \<Rightarrow> qstring \<Rightarrow> main_window \<Rightarrow> (unit result \<times> main_window) option" where
  "window_sendChatMessage E plainText s =
     thenW (ask_nick E False s) (\<lambda>ok s. if \<not> ok then Some (Inr (), s) else
       Some (on_pm (sendChatMessage (we_env E) (toUtf8StdString (we_se E) plainText)) s))"

section \<open>Starting and closing\<close>

definition applySetting :: "window_env \<Rightarrow> unit mw" where
  "applySetting E =
     thenS (\<lambda>s. on_pm (changeNickName (we_env E) (st_nickName (mw_st s))) s)
       (\<lambda>s. on_pm (setPaintChannel (we_env E) (st_paintChannel (mw_st s))) s)"

definition actionPreferences :: "window_env \<Rightarrow> preferences option \<Rightarrow> unit mw" where
  "actionPreferences E accepted = (case accepted of
       None \<Rightarrow> returnS ()
     | Some p \<Rightarrow> thenS (updS (upd_settings (preferences_onOK p))) (applySetting E))"

text \<open>The constructor, with the settings of the ini file and the files of the disk.\<close>

definition blank_window :: "window_env \<Rightarrow> ini \<Rightarrow> files \<Rightarrow> main_window" where
  "blank_window E f fs =
     \<lparr>mw_pm = new_paint_manager (we_env E) fs, mw_st = new_settings (we_se E) f, mw_ini = f, mw_enabledPainter = True,
      mw_modifiedFlag = False, mw_exitFlag = False, mw_gridLineChecked = False, mw_trayVisible = True,
      mw_visible = True, mw_title = [], mw_boxes = [], mw_answers = []\<rparr>"

definition construct_window :: "window_env \<Rightarrow> unit mw" where
  "construct_window E =
     thenS (updS (\<lambda>s. if st_myId (mw_st s) = [] then upd_settings (\<lambda>st. st\<lparr>st_myId := we_newId E\<rparr>) s else s))
    (thenS (\<lambda>s. on_pm (initialize (we_env E) (st_myId (mw_st s))) s)
    (thenS (applySetting E)
    (thenS (updS (updateWindowTitle E))
    (thenS (on_pm (startServer (we_env E) 0))
       (returnS ())))))"

definition onAppSafeStarted :: "window_env \<Rightarrow> main_window \<Rightarrow> (unit result \<times> main_window) option" where
  "onAppSafeStarted E s =
     thenW (ask_nick E False s) (\<lambda>ok s.
       (case (if st_serverConnectOnStart (mw_st s)
              then address_parts E (fromAscii (we_se E) (st_relayServerAddress (mw_st s))) else None) of
          Some (ip, port) \<Rightarrow> Some (thenS (mw_requestJoinServer E ip port (st_paintChannel (mw_st s))) (returnS ()) s)
        | None \<Rightarrow> importFromFile E (toStringFromUtf8 (we_se E) (st_lastAutoSavePath (mw_st s))) s))"

definition closeEvent :: "window_env \<Rightarrow> unit mw" where
  "closeEvent E s =
     (if mw_trayVisible s then (Inr (), (show_box Box_Systray s)\<lparr>mw_visible := False\<rparr>)
      else thenS (mw_clearScreen E False)
        (updS (\<lambda>s. s\<lparr>mw_ini := save_settings (we_se E) (mw_st s) (mw_ini s)\<rparr>)) (s\<lparr>mw_exitFlag := True\<rparr>))"

definition actionExit :: "window_env \<Rightarrow> unit mw" where
  "actionExit E s = closeEvent E (s\<lparr>mw_trayVisible := False\<rparr>)"

end
