(* ===== verification/WindowFiles.thy ===== *)
theory WindowFiles
  imports MainWindow
begin

text \<open>
  Drawings and files: closing the program and starting it again, and importing a file.
\<close>

section \<open>A manager that has just been made\<close>

text \<open>
  On the main thread, offline, with nothing in its history, and nobody but the own user, who is at place 0.
\<close>

definition alone :: "paint_manager \<Rightarrow> bool" where
  "alone p \<longleftrightarrow> playing p \<and> offline p \<and> (\<forall>q. item_at (pm_cmd p) q = None) \<and> cm_historyTaskList (pm_cmd p) = []
     \<and> (\<exists>u. pm_users p = [u] \<and> mySelfFlag u \<and> u_userId (user_data u) \<in> cm_allowPainters (pm_cmd p))
     \<and> pm_joinerHistory p = [0] \<and> pm_gridLineSize p = 0 \<and> pm_backgroundImage p = None
     \<and> pm_backgroundColor p = WHITE"

lemma alone_fresh: "alone p \<Longrightarrow> fresh p"
  by (auto simp: alone_def fresh_def painters_known_def hist_ids_def id_of_def user_def)

lemma alone_quiet: "alone p \<Longrightarrow> sendDataToUsers_unit d p = (Inr (), p)"
  by (simp add: alone_def offline_def sendDataToUsers_unit_def sendDataToUsers_def sendDataToUsers_to_def connected_opt_def bindS_def)

lemmas user_ops = upd_userp_def user_def my_def

lemma alone_kept:
  assumes "alone p"
  shows "alone (p\<lparr>pm_trace := tr\<rparr>)" "alone (p\<lparr>pm_server := b\<rparr>)" "alone (p\<lparr>pm_listenTcpPort := n\<rparr>)"
    "alone (p\<lparr>pm_bcFinder := f\<rparr>)" "alone (upd_userp my (setNickName nick) p)" "alone (upd_userp my (setChannel nick) p)"
    "alone (upd_userp my (setLocalIPAddress nick) p)" "alone (upd_userp my (setListenTcpPort n') p)"
  using assms by (auto simp: alone_def playing_def offline_def user_ops setNickName_def setChannel_def
      setLocalIPAddress_def setListenTcpPort_def)

lemma alone_main: "alone p \<Longrightarrow> pm_mainThread p"
  by (simp add: alone_def playing_def)

lemma initialize_alone:
  "\<exists>p. initialize e uid (new_paint_manager e fs) = (Inr (), p) \<and> alone p \<and> pm_files p = fs"
  by (cases "bc_listenUdp (en_udpOpen e) (en_udpBind e DEFAULT_BROADCAST_PORT) (new_broadcast_session\<lparr>bc_evtTarget := True\<rparr>)")
    (simp add: initialize_def new_paint_manager_def startListenBroadCast_def addUser_def addUser_table_def
      addHistoryUser_def findHistoryUser_def thenS_def bindS_def user_ops id_of_def myId_def alone_def playing_def
      offline_def setUserData_def setMyself_def setLocalIPAddress_def CPaintUser_myself_def new_user_info_def addPainter_def
      new_cmd_mngr_def item_defs isPlaybackMode_def whenS_def m_find_def Let_def)

lemma changeNickName_alone:
  assumes "alone p"
  shows "\<exists>q. changeNickName e nick p = (Inr (), q) \<and> alone q \<and> pm_files q = pm_files p"
proof -
  let ?q = "upd_userp my (setNickName nick) p"
  have q: "alone ?q" using assms by (rule alone_kept)
  then show ?thesis using assms alone_kept(1) [OF q] alone_main [OF q]
    by (simp add: changeNickName_def thenS_def bindS_def alone_quiet whenS_def perform_main fireObserver_def notify_def upd_userp_def Let_def)
qed

lemma setPaintChannel_alone:
  assumes "alone p"
  shows "\<exists>q. setPaintChannel e ch p = (Inr (), q) \<and> alone q \<and> pm_files q = pm_files p"
  using alone_kept(7) [OF alone_kept(6) [OF alone_kept(4) [OF assms]]]
  by (simp add: setPaintChannel_def Let_def upd_userp_def)

lemma startServer_alone:
  assumes "alone p" "en_tcpBind e START_SERVER_PORT"
  shows "\<exists>q. startServer e n p = (Inr True, q) \<and> alone q \<and> pm_files q = pm_files p"
proof (cases "pm_server p")
  case False
  let ?q = "upd_userp my (setListenTcpPort (of_int START_SERVER_PORT)) (p\<lparr>pm_server := True, pm_listenTcpPort := START_SERVER_PORT\<rparr>)"
  have "find (en_tcpBind e) [START_SERVER_PORT .. START_SERVER_PORT + 99] = Some START_SERVER_PORT"
    using assms(2) by (simp add: upto_rec1 [of START_SERVER_PORT])
  then have "startServer e n p = (Inr True, ?q)" using False by (simp add: startServer_def Let_def START_SERVER_PORT_def)
  moreover have "alone ?q" using assms(1) by (intro alone_kept)
  ultimately show ?thesis by (simp add: upd_userp_def)
qed (use assms(1) in \<open>simp add: startServer_def\<close>)

section \<open>The window when it has started\<close>

lemma on_pm_alone:
  assumes "m (mw_pm s) = (Inr a, p)"
  shows "on_pm m s = (Inr a, s\<lparr>mw_pm := p\<rparr>)"
  using assms by (simp add: on_pm_def)

lemma applySetting_alone:
  assumes "alone (mw_pm s)"
  shows "\<exists>p. applySetting E s = (Inr (), s\<lparr>mw_pm := p\<rparr>) \<and> alone p \<and> pm_files p = pm_files (mw_pm s)"
proof -
  obtain p where p: "changeNickName (we_env E) (st_nickName (mw_st s)) (mw_pm s) = (Inr (), p)" "alone p"
    "pm_files p = pm_files (mw_pm s)" using changeNickName_alone [OF assms] by blast
  obtain q where q: "setPaintChannel (we_env E) (st_paintChannel (mw_st s)) p = (Inr (), q)" "alone q" "pm_files q = pm_files p"
    using setPaintChannel_alone [OF p(2)] by blast
  show ?thesis using p q by (intro exI [of _ q]) (simp add: applySetting_def thenS_def bindS_def on_pm_def)
qed


definition with_id :: "window_env \<Rightarrow> settings \<Rightarrow> settings" where
  "with_id E st = (if st_myId st = [] then st\<lparr>st_myId := we_newId E\<rparr> else st)"

lemma construct_alone:
  assumes "en_tcpBind (we_env E) START_SERVER_PORT"
  shows "\<exists>s. construct_window E (blank_window E f fs) = (Inr (), s) \<and> alone (mw_pm s) \<and> pm_files (mw_pm s) = fs
    \<and> mw_st s = with_id E (new_settings (we_se E) f) \<and> mw_ini s = f \<and> mw_enabledPainter s \<and> \<not> mw_modifiedFlag s
    \<and> \<not> mw_exitFlag s \<and> mw_answers s = []"
proof -
  let ?s = "(blank_window E f fs)\<lparr>mw_st := with_id E (new_settings (we_se E) f)\<rparr>"
  have 0: "(if st_myId (mw_st (blank_window E f fs)) = [] then upd_settings (\<lambda>st. st\<lparr>st_myId := we_newId E\<rparr>) (blank_window E f fs)
      else blank_window E f fs) = ?s"
    by (simp add: blank_window_def with_id_def upd_settings_def)
  obtain p where p: "initialize (we_env E) (st_myId (mw_st ?s)) (mw_pm ?s) = (Inr (), p)" "alone p" "pm_files p = fs"
    using initialize_alone [of "we_env E" "st_myId (mw_st ?s)" fs] by (auto simp: blank_window_def)
  have "alone (mw_pm (?s\<lparr>mw_pm := p\<rparr>))" using p by simp
  from applySetting_alone [OF this, of E] obtain q where
    q: "applySetting E (?s\<lparr>mw_pm := p\<rparr>) = (Inr (), ?s\<lparr>mw_pm := q\<rparr>)" "alone q" "pm_files q = fs" using p by auto
  obtain r where r: "startServer (we_env E) 0 q = (Inr True, r)" "alone r" "pm_files r = fs"
    using startServer_alone [OF q(2) assms] q(3) by metis
  have "construct_window E (blank_window E f fs) = (Inr (), (updateWindowTitle E (?s\<lparr>mw_pm := q\<rparr>))\<lparr>mw_pm := r\<rparr>)"
    using p(1) q(1) r(1) by (simp add: construct_window_def thenS_def bindS_def 0 on_pm_def updateWindowTitle_def)
  then show ?thesis using r by (simp add: updateWindowTitle_def blank_window_def)
qed

section \<open>Clearing\<close>

text \<open>The own user, and nobody else, is marked as such in the history of the users.\<close>

definition self_once :: "paint_manager \<Rightarrow> bool" where
  "self_once p \<longleftrightarrow> pm_mainThread p \<and> length (filter (\<lambda>q. mySelfFlag (user q p)) (pm_joinerHistory p)) = 1"

definition cleared :: "observer_call list \<Rightarrow> paint_manager \<Rightarrow> paint_manager" where
  "cleared tr p = p\<lparr>pm_trace := tr, pm_backgroundColor := WHITE, pm_backgroundImage := None, pm_cmd := cm_clear (pm_cmd p),
     pm_joinerHistory := filter (\<lambda>q. mySelfFlag (user q p)) (pm_joinerHistory p)\<rparr>"

lemma clearAllItems_works:
  "self_once p \<Longrightarrow> clearAllItems p = (Inr (), cleared (pm_trace p @ [Canvas_clearScreen]) p)"
  by (simp add: clearAllItems_def clearAllHistoryUsers_def self_once_def cleared_def thenS_def bindS_def assertS_def notify_def user_def)

lemma self_once_kept [simp]: "self_once (p\<lparr>pm_trace := tr\<rparr>) = self_once p" "self_once (p\<lparr>pm_files := fs\<rparr>) = self_once p"
  "self_once (p\<lparr>pm_enabled := b\<rparr>) = self_once p"
  by (simp_all add: self_once_def user_def)

lemma alone_self: "alone p \<Longrightarrow> self_once p"
  by (auto simp: alone_def self_once_def playing_def user_def)

lemma alone_cleared: "alone p \<Longrightarrow> alone (cleared tr p)"
  by (auto simp: alone_def cleared_def playing_def offline_def user_def cm_clear_def clearHistoryCommand_def
      clearHistoryTask_def clearHistoryItem_def item_defs isPlaybackMode_def)

lemma cleared_screen: "pm_screen (cleared (tr @ [Canvas_clearScreen]) p) = blank"
  by (simp add: pm_screen_def cleared_def)

lemma cleared_files [simp]: "pm_files (cleared tr p) = pm_files p" by (simp add: cleared_def)

lemma clearScreen_quiet:
  assumes a: "alone (mw_pm s)" and e: "\<not> mw_exitFlag s" "\<not> mw_modifiedFlag s" "mw_enabledPainter s"
  shows "\<exists>p. mw_clearScreen E b s = (Inr (), s\<lparr>mw_pm := p, mw_gridLineChecked := False, mw_modifiedFlag := False\<rparr>)
    \<and> alone p \<and> pm_screen p = blank \<and> pm_files p = pm_files (mw_pm s)"
proof -
  let ?p = "notify Ob_ClearScreen (mw_pm s)"
  let ?q = "cleared (pm_trace ?p @ [Canvas_clearScreen]) ?p"
  have p: "alone ?p" using alone_kept(1) [OF a] by (simp add: notify_def)
  have "mw_clearScreen E b s = (Inr (), s\<lparr>mw_pm := ?q, mw_gridLineChecked := False, mw_modifiedFlag := False\<rparr>)"
    using alone_quiet [OF a] clearAllItems_works [OF alone_self [OF p]] e
    by (cases b; cases s) (simp_all add: mw_clearScreen_def thenS_def bindS_def on_pm_def whenS_def clear_event_def
        autoExportToFile_def Let_def)
  moreover have "alone ?q" by (rule alone_cleared [OF p])
  moreover have "pm_screen ?q = blank" by (rule cleared_screen)
  moreover have "pm_files ?q = pm_files (mw_pm s)" by (simp add: notify_def)
  ultimately show ?thesis by blast
qed


section \<open>Closing and starting again\<close>

definition lastFile :: "window_env \<Rightarrow> qstring" where
  "lastFile E = autoSaveFile E (qlit E ''last.sp'')"

text \<open>The path of the file is text that Qt converts to UTF-8 and back, and the disk takes the data.\<close>

definition can_keep :: "window_env \<Rightarrow> bytes \<Rightarrow> bool" where
  "can_keep E d \<longleftrightarrow> lastFile E \<noteq> [] \<and> toStringFromUtf8 (we_se E) (toUtf8StdString (we_se E) (lastFile E)) = lastFile E
     \<and> q_canWrite (en_qt (we_env E)) (lastFile E) \<and> q_written (en_qt (we_env E)) d = int (length d)"

lemma serialize_notify: "serializeData e t (notify c p) = serializeData e t p"
  by (simp add: serializeData_def notify_def history_items_def serializeHistoryJoinerList_def user_def cong: option.case_cong)

lemma close_saves:
  assumes d: "serializeData (we_env E) None (mw_pm s) = Inr d" and k: "can_keep E d"
    and s: "\<not> mw_trayVisible s" "self_once (mw_pm s)"
  shows "\<exists>s'. closeEvent E s = (Inr (), s') \<and> pm_files (mw_pm s') = (pm_files (mw_pm s))(lastFile E \<mapsto> d)
    \<and> mw_ini s' = save_settings (we_se E) ((mw_st s)\<lparr>st_lastAutoSavePath := toUtf8StdString (we_se E) (lastFile E)\<rparr>) (mw_ini s)"
proof -
  let ?fs = "(pm_files (mw_pm s))(lastFile E \<mapsto> d)"
  have told: "serializeData (we_env E) None (notify Ob_ClearScreen (mw_pm s)) = Inr d"
    using d by (simp only: serialize_notify)
  let ?t = "s\<lparr>mw_exitFlag := True, mw_pm := notify Ob_ClearScreen (mw_pm s)\<rparr>"
  have auto: "autoExportToFile E ?t = (Inr (), upd_settings
      (\<lambda>st. st\<lparr>st_lastAutoSavePath := toUtf8StdString (we_se E) (lastFile E)\<rparr>) (write_disk (lastFile E) d ?t))"
    using told k by (simp add: autoExportToFile_def Let_def exportToFile_def can_keep_def lastFile_def)
  have "self_once ((notify Ob_ClearScreen (mw_pm s))\<lparr>pm_files := fs, pm_enabled := b\<rparr>)"
    "self_once ((notify Ob_ClearScreen (mw_pm s))\<lparr>pm_files := fs\<rparr>)" for fs b
    using s(2) by (simp_all add: notify_def)
  note clears = this [THEN clearAllItems_works]
  show ?thesis
    using s(1) auto clears by (cases "mw_enabledPainter s")
      (simp_all add: closeEvent_def mw_clearScreen_def thenS_def bindS_def on_pm_def whenS_def clear_event_def
        upd_settings_def write_disk_def Let_def notify_def)
qed


definition empty_drawing :: "paint_manager \<Rightarrow> bool" where
  "empty_drawing l \<longleftrightarrow> cm_historyTaskList (pm_cmd l) = [] \<and> (\<forall>q. item_at (pm_cmd l) q = None) \<and> pm_screen l = blank
     \<and> pm_gridLineSize l = 0 \<and> pm_backgroundImage l = None \<and> pm_backgroundColor l = WHITE"

lemma import_loads:
  assumes a: "alone (mw_pm s)" "\<not> mw_exitFlag s" "\<not> mw_modifiedFlag s" "mw_enabledPainter s"
    and path: "path \<noteq> []" "pm_files (mw_pm s) path = Some d"
    and d: "\<And>l. fresh l \<Longrightarrow> \<exists>l'. deserializeData (we_env E) d l = Some (Inr True, l') \<and> loaded (we_env E) old l l'"
  shows "\<exists>s' l. importFromFile E path s = Some (Inr (), s') \<and> empty_drawing l \<and> loaded (we_env E) old l (mw_pm s')
    \<and> mw_boxes s' = mw_boxes s \<and> \<not> mw_modifiedFlag s'"
proof -
  obtain p where p: "mw_clearScreen E True s = (Inr (), s\<lparr>mw_pm := p, mw_gridLineChecked := False, mw_modifiedFlag := False\<rparr>)"
    "alone p" "pm_screen p = blank" using clearScreen_quiet [OF a] by blast
  obtain l' where l': "deserializeData (we_env E) d p = Some (Inr True, l')" "loaded (we_env E) old p l'"
    using d [OF alone_fresh [OF p(2)]] by blast
  have "importFromFile E path s = Some (Inr (), s\<lparr>mw_pm := l', mw_gridLineChecked := False, mw_modifiedFlag := False\<rparr>)"
    using path p(1) l'(1) by (simp add: importFromFile_def Let_def)
  moreover have "empty_drawing p" using p by (simp add: empty_drawing_def alone_def)
  ultimately show ?thesis using l'(2) by (intro exI conjI) (assumption | simp)+
qed



section \<open>Importing a file that is not a drawing\<close>

lemma deserialize_rejects:
  assumes "receive d (en_newSlicer e) = (Inr ps, sl)" "\<forall>p \<in> set (take 1 ps). pd_code p \<noteq> code_word CODE_SYSTEM_VERSION_INFO"
  shows "deserializeData e d p = Some (Inr False, p)"
  using assms by (cases ps) (simp_all add: deserializeData_def)

text \<open>Importing clears the drawing before it looks at the file: when the file does not begin with the packet of a
  drawing, the user is told so, and the drawing is gone, here and, since the clearing is sent first, for
  everybody who is connected.  The packet that clears leaves before anything else is done.\<close>

lemma bad_import_loses_drawing:
  assumes bad: "receive d (en_newSlicer (we_env E)) = (Inr ps, sl)"
      "\<forall>p \<in> set (take 1 ps). pd_code p \<noteq> code_word CODE_SYSTEM_VERSION_INFO"
    and found: "path \<noteq> []" "pm_files (mw_pm s) path = Some d"
    and sent: "sendDataToUsers_unit make_ClearScreen (mw_pm s) = (Inr (), p)"
    and quiet: "\<not> mw_exitFlag s" "\<not> st_autoSaveData (mw_st s)" and self: "self_once p"
  shows "\<exists>s'. importFromFile E path s = Some (Inr (), s')
    \<and> cm_historyTaskList (pm_cmd (mw_pm s')) = [] \<and> (\<forall>q. item_at (pm_cmd (mw_pm s')) q = None) \<and> pm_screen (mw_pm s') = blank
    \<and> mw_boxes s' = mw_boxes s @ [Box_CannotImport] \<and> \<not> mw_modifiedFlag s'
    \<and> pm_sessions (mw_pm s') = pm_sessions p"
proof -
  let ?p = "if mw_enabledPainter s then notify Ob_ClearScreen p else (notify Ob_ClearScreen p)\<lparr>pm_enabled := True\<rparr>"
  let ?q = "cleared (pm_trace ?p @ [Canvas_clearScreen]) ?p"
  let ?s = "s\<lparr>mw_pm := ?q, mw_gridLineChecked := False, mw_enabledPainter := True, mw_modifiedFlag := False\<rparr>"
  have "self_once ?p" using self by (simp add: notify_def)
  note clears = clearAllItems_works [OF this]
  have "mw_clearScreen E True s = (Inr (), ?s)"
    using clears sent quiet by (cases s) (auto simp: mw_clearScreen_def thenS_def bindS_def on_pm_def whenS_def
        clear_event_def autoExportToFile_def Let_def)
  then have "importFromFile E path s = Some (Inr (), show_box Box_CannotImport ?s)"
    using found deserialize_rejects [OF bad] by (cases s) (simp add: importFromFile_def Let_def show_box_def)
  moreover have "pm_screen ?q = blank" by (rule cleared_screen)
  moreover have "cm_historyTaskList (pm_cmd ?q) = []" "item_at (pm_cmd ?q) r = None" "pm_sessions ?q = pm_sessions p" for r
    by (simp_all add: cleared_def notify_def cm_clear_def clearHistoryCommand_def clearHistoryTask_def clearHistoryItem_def item_defs)
  ultimately show ?thesis by (intro exI conjI) (assumption | simp add: show_box_def)+
qed

section \<open>Witnesses\<close>

definition sample_window_env :: window_env where
  "sample_window_env = \<lparr>we_env = sample_env, we_se = sample_settings_env, we_appPath = [67], we_separator = [92],
     we_now = [49], we_toInt = (\<lambda>s. int (length s)), we_newId = [7], we_tr = map (\<lambda>c. of_nat (of_char c))\<rparr>"

definition sample_window :: main_window where
  "sample_window = (blank_window sample_window_env Map.empty Map.empty)
     \<lparr>mw_pm := sample_drawing, mw_st := sample_settings, mw_trayVisible := False\<rparr>"

lemma sample_window_settings: "mw_st sample_window = sample_settings" "mw_pm sample_window = sample_drawing"
  "\<not> mw_trayVisible sample_window" "\<not> mw_exitFlag sample_window" "mw_boxes sample_window = []"
  by (simp_all add: sample_window_def blank_window_def)

lemma sample_self: "self_once sample_drawing"
proof -
  have "pm_mainThread sample_drawing"
    by (simp add: sample_drawing_def new_paint_manager_def startListenBroadCast_def split: prod.split)
  then show ?thesis by (simp add: self_once_def CPaintUser_myself_def)
qed


end
