(* ===== verification/WindowNames.thy ===== *)
theory WindowNames
  imports WindowFiles
begin

text \<open>
  The dialogs for the nick name and the channel ask until they have an answer.
\<close>

section \<open>The user objects are left alone by sending\<close>

interpretation users_kept: manager_frame "\<lambda>p. pm_users p = us"
  by unfold_locales (auto simp: core_def)

lemma changeNickName_sets:
  assumes "changeNickName e nick p = (Inr (), q)" and "pm_users p \<noteq> []"
  shows "u_nickName (user_data (user my q)) = nick"
proof (cases "u_nickName (user_data (user my p)) = nick")
  case True
  then show ?thesis using assms(1) by (simp add: changeNickName_def)
next
  case False
  let ?prev = "u_nickName (user_data (user my p))" and ?p = "upd_userp my (setNickName nick) p"
  let ?k = "thenS (\<lambda>s. sendDataToUsers_unit (make_ChangeNickName (myId s) (u_nickName (user_data (user my s)))) s)
      (\<lambda>s. whenS (?prev \<noteq> [] \<and> ?prev \<noteq> nick) (PaintManager.perform e (Ob_ChangedNickName (myId s) ?prev nick)) s)"
  have "pm_users (snd (?k ?p)) = pm_users ?p"
    by (intro users_kept.keep users_kept.sendDataToUsers_unit users_kept.perform_quiet) (auto simp: ManagerInvariant.quiet_def)
  moreover have "q = snd (?k ?p)" using assms(1) False by (simp add: changeNickName_def Let_def thenS_def bindS_def)
  ultimately have "user my q = user my ?p" by (simp add: user_def)
  then show ?thesis using assms(2) by (simp add: upd_userp_def user_def my_def setNickName_def)
qed

section \<open>Asking\<close>

lemma nick_asked:
  assumes texts: "\<And>n. n \<noteq> [] \<Longrightarrow> toUtf8StdString (we_se E) n \<noteq> []"
    and "getNickNameString E force as s = Some (Inr ok, s')" and "pm_users (mw_pm s) \<noteq> []"
  shows "(ok \<longrightarrow> st_nickName (mw_st s') \<noteq> []) \<and> (\<not> ok \<longrightarrow> mw_exitFlag s \<or> Cancelled True \<in> set as)
    \<and> (mw_pm s' = mw_pm s \<and> mw_st s' = mw_st s \<or> u_nickName (user_data (user my (mw_pm s'))) = st_nickName (mw_st s'))"
  using assms(2,3)
proof (induction as arbitrary: s)
  case Nil
  then show ?case by (auto simp: getNickNameString.simps [of _ _ "[]"] split: if_splits)
next
  case (Cons a as)
  let ?s = "if force then s else show_box Box_NeedNickName s"
  have kept: "mw_pm ?s = mw_pm s" "mw_st ?s = mw_st s" "mw_exitFlag ?s = mw_exitFlag s" by (simp_all add: show_box_def)
  show ?case
  proof (cases "\<not> force \<and> st_nickName (mw_st s) \<noteq> []")
    case True
    then show ?thesis using Cons.prems by (auto simp: getNickNameString.simps [of _ _ "a # as"])
  next
    case ask: False
    then have r: "(case a of
        Cancelled exiting \<Rightarrow>
            if mw_exitFlag ?s \<or> exiting then Some (Inr False, ?s\<lparr>mw_answers := as\<rparr>)
            else if st_nickName (mw_st ?s) = [] then getNickNameString E force as ?s
            else Some (Inr True, ?s\<lparr>mw_answers := as\<rparr>)
        | Entered nick \<Rightarrow>
            if nick = [] then getNickNameString E force as (show_box Box_InvalidChannel ?s)
            else Some (nick_entered E nick (?s\<lparr>mw_answers := as\<rparr>))
        | _ \<Rightarrow> None) = Some (Inr ok, s')"
      using Cons.prems(1) unfolding getNickNameString.simps [of _ _ "a # as"] Let_def
      by (cases a) (simp_all only: list.case answer.case ask if_False)
    show ?thesis
    proof (cases a)
      case (Cancelled x)
      then show ?thesis using r kept Cons.IH [of ?s] Cons.prems(2) by (auto split: if_splits)
    next
      case (Entered nick)
      show ?thesis
      proof (cases "nick = []")
        case True
        have "mw_pm (show_box Box_InvalidChannel ?s) = mw_pm s" "mw_st (show_box Box_InvalidChannel ?s) = mw_st s"
          "mw_exitFlag (show_box Box_InvalidChannel ?s) = mw_exitFlag s" using kept by (simp_all add: show_box_def)
        then show ?thesis using r Entered True Cons.IH [of "show_box Box_InvalidChannel ?s"] Cons.prems(2) by auto
      next
        case False
        let ?n = "toUtf8StdString (we_se E) nick"
        obtain p where p: "changeNickName (we_env E) ?n (mw_pm s) = (Inr (), p)" "ok" "mw_pm s' = p" "st_nickName (mw_st s') = ?n"
          using r Entered False kept
          by (auto simp: nick_entered_def thenS_def bindS_def on_pm_def upd_settings_def updateWindowTitle_def
              split: prod.splits sum.splits)
        then show ?thesis using changeNickName_sets [OF p(1) Cons.prems(2)] texts [OF False] by simp
      qed
    next
      case (Pressed x)
      then show ?thesis using r by simp
    qed
  qed
qed


lemma nick_answered:
  assumes "n \<noteq> []" and "\<And>b. Pressed b \<notin> set as"
  shows "getNickNameString E force (as @ Entered n # bs) s \<noteq> None"
  using assms(2)
proof (induction as arbitrary: s)
  case Nil
  then show ?case using assms(1) by (simp add: getNickNameString.simps [of _ _ "_ # _"])
next
  case (Cons a as)
  then have IH: "getNickNameString E force (as @ Entered n # bs) t \<noteq> None" for t by simp
  from Cons.prems have "a \<noteq> Pressed b" for b by auto
  then show ?case using IH
    by (cases a) (auto simp: getNickNameString.simps [of _ _ "_ # _"] Let_def)
qed

text \<open>The program asks for the nick name until it has one.  Whatever the user answers before, once a text is
  entered (or the program is told to exit) the dialogs end.  If they end with yes, there is a name; with
  no, only because the program is exiting; and when the name has been entered in them, the manager's own
  user has it too.\<close>

lemma nick_name_is_asked_until_given:
  assumes texts: "\<And>n. n \<noteq> [] \<Longrightarrow> toUtf8StdString (we_se E) n \<noteq> []" and "pm_users (mw_pm s) \<noteq> []"
    and "mw_answers s = as @ Entered n # bs" "n \<noteq> []" "\<And>b. Pressed b \<notin> set as"
  shows "\<exists>r s'. ask_nick E force s = Some (r, s') \<and> (\<forall>ok. r = Inr ok \<longrightarrow>
      (ok \<longrightarrow> st_nickName (mw_st s') \<noteq> []) \<and> (\<not> ok \<longrightarrow> mw_exitFlag s \<or> Cancelled True \<in> set (mw_answers s))
      \<and> (mw_pm s' = mw_pm s \<and> mw_st s' = mw_st s
         \<or> u_nickName (user_data (user my (mw_pm s'))) = st_nickName (mw_st s')))"
proof -
  obtain r s' where r: "ask_nick E force s = Some (r, s')"
    using nick_answered [OF assms(4,5), of E force bs s] by (auto simp: ask_nick_def assms(3))
  show ?thesis using r nick_asked [OF texts _ assms(2), of force "mw_answers s" _ s'] by (auto simp: ask_nick_def)
qed

end
