(* ===== verification/WindowGrid.thy ===== *)
theory WindowGrid
  imports WindowFiles SceneStroke
begin

text \<open>
  The grid: the button of the main window, the canvas and the paint manager each keep it.  The window is
  told by the manager where the code does it, so clearing the screen is here in full: the file that is
  saved, the button, the playback, the canvas, and then what the manager drops.
\<close>

section \<open>Operations\<close>

text \<open>
  The main window with its canvas, the slider of the playback (its value and its maximum) and the flag
  that keeps it from answering, the status, and the override cursors of the application.
\<close>

record grid_window =
  gw_mw :: main_window
  gw_canvas :: scene
  gw_slider :: "int \<times> int"
  gw_playbackSliderFreezingFlag :: bool
  gw_playbackStatus :: "int \<times> int"
  gw_cursors :: nat

definition DEFAULT_GRID_LINE_SIZE_W :: "32 word" where "DEFAULT_GRID_LINE_SIZE_W = 32"

definition on_mw :: "'a mw \<Rightarrow> (grid_window, 'a) meth" where
  "on_mw m s = (case m (gw_mw s) of (r, w) \<Rightarrow> (r, s\<lparr>gw_mw := w\<rparr>))"

abbreviation on_gpm :: "'a pm \<Rightarrow> (grid_window, 'a) meth" where
  "on_gpm m \<equiv> on_mw (on_pm m)"

abbreviation gw_pm :: "grid_window \<Rightarrow> paint_manager" where
  "gw_pm s \<equiv> mw_pm (gw_mw s)"

abbreviation gw_checked :: "grid_window \<Rightarrow> bool" where
  "gw_checked s \<equiv> mw_gridLineChecked (gw_mw s)"

definition setModified :: "bool \<Rightarrow> grid_window \<Rightarrow> grid_window" where
  "setModified m s = s\<lparr>gw_mw := (gw_mw s)\<lparr>mw_modifiedFlag := m\<rparr>\<rparr>"

definition setCheckGridLineAction :: "bool \<Rightarrow> grid_window \<Rightarrow> grid_window" where
  "setCheckGridLineAction c s = s\<lparr>gw_mw := (gw_mw s)\<lparr>mw_gridLineChecked := c\<rparr>\<rparr>"

definition onSetBackgroundGridLine :: "scene_env \<Rightarrow> 32 word \<Rightarrow> grid_window \<Rightarrow> grid_window" where
  "onSetBackgroundGridLine V sz s =
     (let s = setCheckGridLineAction (0 <s sz) (setModified True s) in
      s\<lparr>gw_canvas := drawBackgroundGridLine V (sint sz) (gw_canvas s)\<rparr>)"

definition onClearBackground :: "scene_env \<Rightarrow> grid_window \<Rightarrow> grid_window" where
  "onClearBackground V s =
     (let s = setCheckGridLineAction False (setModified True s) in
      s\<lparr>gw_canvas := clearBackgroundImage V (drawBackgroundGridLine V 0 (gw_canvas s))\<rparr>)"

text \<open>\<^verbatim>\<open>setBackgroundGridLine\<close> and \<^verbatim>\<open>clearBackground\<close> of the manager, with the window told.\<close>

definition grid_set :: "scene_env \<Rightarrow> 32 word \<Rightarrow> (grid_window, unit) meth" where
  "grid_set V sz = thenS (on_gpm (setBackgroundGridLine sz)) (updS (onSetBackgroundGridLine V sz))"

definition actionGridLine :: "scene_env \<Rightarrow> (grid_window, unit) meth" where
  "actionGridLine V s =
     (let s = setCheckGridLineAction (cv_gridLineSize (gw_canvas s) \<le> 0) s in
      if cv_gridLineSize (gw_canvas s) > 0 then grid_set V 0 s else grid_set V DEFAULT_GRID_LINE_SIZE_W s)"

definition actionClearBG :: "scene_env \<Rightarrow> (grid_window, unit) meth" where
  "actionClearBG V = thenS (on_gpm clearBackground) (updS (onClearBackground V))"

text \<open>
  The slider does not answer while it is set back, since the flag is set; \<^verbatim>\<open>setRange( 0, 0 )\<close> leaves it no
  other value than 0.
\<close>

definition clearPlayback :: "grid_window \<Rightarrow> grid_window" where
  "clearPlayback s =
     (let s = s\<lparr>gw_playbackSliderFreezingFlag := True\<rparr>;
          s = s\<lparr>gw_slider := (0, 0)\<rparr>;
          s = s\<lparr>gw_playbackStatus := (0, 0)\<rparr> in
      s\<lparr>gw_playbackSliderFreezingFlag := False\<rparr>)"

definition thaw :: "scene_env \<Rightarrow> grid_window \<Rightarrow> grid_window" where
  "thaw V s = s\<lparr>gw_canvas := snd (thawAction V (gw_canvas s))\<rparr>"

definition enablePainter :: "scene_env \<Rightarrow> grid_window \<Rightarrow> grid_window" where
  "enablePainter V s =
     (if mw_enabledPainter (gw_mw s) then s
      else (let s = s\<lparr>gw_mw := (gw_mw s)\<lparr>mw_enabledPainter := True\<rparr>\<rparr>;
                s = (thaw V s)\<lparr>gw_cursors := gw_cursors s - 1\<rparr> in
            s\<lparr>gw_mw := (gw_mw s)\<lparr>mw_pm := (gw_pm s)\<lparr>pm_enabled := True\<rparr>\<rparr>\<rparr>))"

text \<open>\<^verbatim>\<open>onISharedPaintEvent_ClearScreen\<close>, and \<^verbatim>\<open>clearScreen\<close> of the manager on the main thread.\<close>

definition onClearScreen_window :: "scene_env \<Rightarrow> window_env \<Rightarrow> (grid_window, unit) meth" where
  "onClearScreen_window V E =
     thenS (on_mw (autoExportToFile E))
       (updS (\<lambda>s. setModified False (thaw V (enablePainter V (clearPlayback (setCheckGridLineAction False s))))))"

definition grid_clearScreen :: "scene_env \<Rightarrow> window_env \<Rightarrow> bool \<Rightarrow> (grid_window, unit) meth" where
  "grid_clearScreen V E sendData =
     thenS (on_gpm (whenS sendData (sendDataToUsers_unit make_ClearScreen)))
    (thenS (on_gpm (updS (notify Ob_ClearScreen)))
    (thenS (onClearScreen_window V E)
    (thenS (on_gpm (assertS pm_mainThread))
    (thenS (updS (\<lambda>s. s\<lparr>gw_canvas := scene_clearScreen V (gw_canvas s)\<rparr>))
       (on_gpm clearAllItems)))))"

section \<open>What the canvas shows\<close>

lemma grid_call [simp]: "cv_gridLineSize (call c s) = cv_gridLineSize s"
  by (simp add: call_def)

lemma grid_reset [simp]: "cv_gridLineSize (resetBackground V s) = cv_gridLineSize s"
  by (simp add: resetBackground_def Let_def split: prod.split)

lemma grid_border [simp]: "cv_gridLineSize (clearLastItemBorderRect s) = cv_gridLineSize s"
  by (simp add: clearLastItemBorderRect_def split: option.split)

lemma grid_sizes [simp]:
  "cv_gridLineSize (drawBackgroundGridLine V n s) = n"
  "cv_gridLineSize (clearBackgroundImage V s) = cv_gridLineSize s"
  "cv_gridLineSize (scene_clearScreen V s) = 0"
  by (simp_all add: drawBackgroundGridLine_def clearBackgroundImage_def scene_clearScreen_def)


section \<open>What is saved after the screen has been cleared\<close>

lemma people_fit_filter: "people_fit p \<Longrightarrow> people_fit (cleared tr p)"
proof -
  assume p: "people_fit p"
  let ?P = "\<lambda>q. mySelfFlag (user q p)" and ?h = "pm_joinerHistory p" and ?u = "\<lambda>q. user q p"
  have le: "length (concat (map enc_user (map ?u (filter ?P h)))) \<le> length (concat (map enc_user (map ?u h)))" for h
    by (induction h) auto
  have n: "length (map ?u (filter ?P ?h)) \<le> length (map ?u ?h)" by simp
  have "list_all ok_user (map ?u (filter ?P ?h))" using p by (auto simp: people_fit_def Let_def list_all_iff)
  moreover have "length (map ?u ?h) \<le> 0xffff" "length (concat (map enc_user (map ?u ?h))) + 2 \<le> unat MAX_PACKET_BODY_SIZE"
    using p by (simp_all only: people_fit_def Let_def)
  then have "length (map ?u (filter ?P ?h)) \<le> 0xffff"
    "length (concat (map enc_user (map ?u (filter ?P ?h)))) + 2 \<le> unat MAX_PACKET_BODY_SIZE"
    using n le [of ?h] by linarith+
  moreover have "people_fit (cleared tr p) \<longleftrightarrow> (let us = map ?u (filter ?P ?h) in
     list_all ok_user us \<and> length us \<le> 0xffff \<and> length (concat (map enc_user us)) + 2 \<le> unat MAX_PACKET_BODY_SIZE)"
    by (simp only: people_fit_def cleared_def) (simp add: user_def)
  ultimately show "people_fit (cleared tr p)" unfolding Let_def by blast
qed

text \<open>What clearing the screen and sending leave alone.\<close>

definition room :: "paint_manager \<Rightarrow> bool \<times> user_ptr list \<times> CPaintUser list \<times> (32 word \<times> 32 word) \<times> (32 word \<times> 32 word)
    \<times> (32 word) list \<times> 32 word" where
  "room p = (pm_mainThread p, pm_joinerHistory p, pm_users p, pm_windowSize p, pm_canvasSize p, pm_splitterSizes p,
     pm_gridLineSize p)"

lemma room_updates [simp]:
  "room (p\<lparr>pm_PACKETID := a\<rparr>) = room p" "room (p\<lparr>pm_sendInfo := b\<rparr>) = room p" "room (p\<lparr>pm_lastPacketId := a\<rparr>) = room p"
  "room (p\<lparr>pm_sessions := d\<rparr>) = room p" "room (p\<lparr>pm_trace := t\<rparr>) = room p" "room (p\<lparr>pm_enabled := m\<rparr>) = room p"
  "room (p\<lparr>pm_files := fs\<rparr>) = room p" "room (p\<lparr>pm_backgroundImage := g\<rparr>) = room p"
  by (simp_all add: room_def)

lemma saveable_cleared:
  assumes "saveable e p" "en_itemOrder e {} = []" "room q = room p"
  shows "saveable e (cleared tr q)"
proof -
  have "window_fits e (cleared tr q)"
    using assms(1,3) by (simp add: saveable_def window_fits_def cleared_def room_def WHITE_def fits_short_def)
  moreover have "people_fit q" using assms(1,3) by (simp add: saveable_def people_fit_def user_def room_def)
  then have "people_fit (cleared tr q)" by (rule people_fit_filter)
  ultimately show ?thesis using assms(2)
    by (simp add: saveable_def Let_def cleared_def cm_clear_def clearHistoryCommand_def clearHistoryTask_def
        clearHistoryItem_def item_defs items_ok_def)
qed

section \<open>Sending\<close>

text \<open>Everybody a packet goes to can be written to; nobody, when the window is not connected.\<close>

definition can_send :: "paint_manager \<Rightarrow> bool" where
  "can_send p \<longleftrightarrow> distinct (pm_sessionList p) \<and> (\<forall>i \<in> set (recipients (- 1) p). writable i p)"

lemma sessions_only:
  "recipients t (p\<lparr>pm_backgroundImage := g\<rparr>) = recipients t p" "writable i (p\<lparr>pm_backgroundImage := g\<rparr>) = writable i p"
proof -
  have c: "isconnected (p\<lparr>pm_backgroundImage := g\<rparr>) = isconnected p" by (rule ext) (simp add: isconnected_def)
  have "connected_opt (p\<lparr>pm_backgroundImage := g\<rparr>) = connected_opt p"
    by (rule ext) (auto simp: connected_opt_def c split: option.split)
  then show "recipients t (p\<lparr>pm_backgroundImage := g\<rparr>) = recipients t p" by (simp add: recipients_def c)
qed (simp add: writable_def)

text \<open>What is saved is not changed by sending.\<close>

definition drawn :: "paint_manager \<Rightarrow> cmd_mngr \<times> files \<times> rgba \<times> CPaintItem option" where
  "drawn p = (pm_cmd p, pm_files p, pm_backgroundColor p, pm_backgroundImage p)"

lemma saveable_drawn: "room q = room p \<Longrightarrow> drawn q = drawn p \<Longrightarrow> saveable e p \<Longrightarrow> saveable e q"
  by (simp add: saveable_def window_fits_def people_fit_def hist_ids_def id_of_def user_def room_def drawn_def)

lemma self_once_room: "room q = room p \<Longrightarrow> self_once p \<Longrightarrow> self_once q"
  by (simp add: self_once_def user_def room_def)

lemma send_keeps:
  assumes "\<And>p a. f (p\<lparr>pm_PACKETID := a\<rparr>) = f p" "\<And>p b. f (p\<lparr>pm_sendInfo := b\<rparr>) = f p"
    "\<And>p a. f (p\<lparr>pm_lastPacketId := a\<rparr>) = f p" "\<And>p d. f (p\<lparr>pm_sessions := d\<rparr>) = f p"
  shows "f (snd (sendDataToUsers_unit msg p)) = f p"
proof -
  have peer: "f q = c \<Longrightarrow> f (snd (on_peer i m q)) = c" for q c i m
    using assms(4) by (auto simp: on_peer_def split: option.split prod.split)
  have all: "f q = c \<Longrightarrow> f (snd (send_all ids k msg q)) = c" for q c ids k
    unfolding send_all_def
    by (intro keep_bindS [of "\<lambda>p. f p = c"] keep_mapS [of "\<lambda>p. f p = c"] peer) (simp_all add: returnS_def)
  have to: "f q = c \<Longrightarrow> f (snd (sendDataToSessions ids msg t q)) = c" for q c ids t
    unfolding sendDataToSessions_def Let_def
    by (simp split: if_split, intro impI conjI keep_bindS [of "\<lambda>p. f p = c"] all) (simp_all add: assms returnS_def)
  show ?thesis unfolding sendDataToUsers_unit_def
    by (intro keep_bindS [of "\<lambda>q. f q = f p"])
      (auto simp: sendDataToUsers_def sendDataToUsers_to_def returnS_def intro: to)
qed

lemma sent:
  assumes "can_send p"
  shows "\<exists>q. sendDataToUsers_unit d p = (Inr (), q) \<and> room q = room p \<and> drawn q = drawn p"
proof -
  obtain n q where "sendDataToUsers d p = (Inr n, q)"
  proof -
    let ?ids = "if connected_opt p (pm_superPeerSession p) then [the (pm_superPeerSession p)]
      else if pm_sessionList p \<noteq> [] then pm_sessionList p
      else if connected_opt p (pm_relayServerSession p) then [the (pm_relayServerSession p)] else []"
    have u: "sendDataToUsers d p = (if ?ids = [] then (Inr (- 1), p) else sendDataToSessions ?ids d (- 1) p)"
      by (simp add: sendDataToUsers_def sendDataToUsers_to_def)
    have "distinct ?ids" "recipients (- 1) p = filter (\<lambda>i. isconnected p i \<and> ((- 1 :: int) \<ge> 0 \<longrightarrow> i = - 1)) ?ids"
      using assms by (simp_all add: can_send_def recipients_def)
    from sendDataToSessions_ok [OF this, of d] assms that u show thesis
      by (cases "?ids = []") (auto simp: can_send_def)
  qed
  then have "sendDataToUsers_unit d p = (Inr (), q)" by (simp add: sendDataToUsers_unit_def bindS_def returnS_def)
  with send_keeps [of room d p] send_keeps [of drawn d p] show ?thesis
    by (intro exI [of _ q]) (simp add: drawn_def)
qed

section \<open>Clearing\<close>

lemma autoExport_room:
  assumes "serializeData (we_env E) None (mw_pm s) = Inr d"
  shows "\<exists>t. autoExportToFile E s = (Inr (), t) \<and> room (mw_pm t) = room (mw_pm s)"
  using assms by (auto simp: autoExportToFile_def Let_def exportToFile_def upd_settings_def show_box_def write_disk_def
      split: if_split)

text \<open>
  Whatever becomes of the file, the screen is cleared: the manager holds what \<open>cleared\<close> leaves of a
  manager with the same people and the same sizes.
\<close>

lemma grid_clearScreen_works:
  assumes "en_newSlicer (we_env E) = sl_new a b c d" and s: "saveable (we_env E) (gw_pm s)" "self_once (gw_pm s)" "can_send (gw_pm s)"
  shows "\<exists>s' q tr. grid_clearScreen V E sendData s = (Inr (), s') \<and> gw_pm s' = cleared tr q \<and> room q = room (gw_pm s)
    \<and> \<not> gw_checked s' \<and> cv_gridLineSize (gw_canvas s') = 0"
proof -
  obtain p where p: "whenS sendData (sendDataToUsers_unit make_ClearScreen) (gw_pm s) = (Inr (), p)"
    "room p = room (gw_pm s)" "drawn p = drawn (gw_pm s)"
    using sent [OF s(3), of make_ClearScreen] by (cases sendData) (auto simp: whenS_def returnS_def)
  let ?m = "(gw_mw s)\<lparr>mw_pm := notify Ob_ClearScreen p\<rparr>"
  have "saveable (we_env E) p" using saveable_drawn [OF p(2,3) s(1)] .
  then obtain bs where "serializeData (we_env E) None (mw_pm ?m) = Inr bs"
    using drawing_loads [OF assms(1) _ sample_fresh] drawing_made(1) by (auto simp: serialize_notify)
  from autoExport_room [OF this] obtain m where m: "autoExportToFile E ?m = (Inr (), m)" "room (mw_pm m) = room (gw_pm s)"
    using p(2) by (auto simp: notify_def)
  let ?w = "setModified False (thaw V (enablePainter V (clearPlayback (setCheckGridLineAction False (s\<lparr>gw_mw := m\<rparr>)))))"
  have w: "room (gw_pm ?w) = room (gw_pm s)" "\<not> gw_checked ?w"
    using m(2) by (simp_all add: setModified_def thaw_def enablePainter_def clearPlayback_def setCheckGridLineAction_def Let_def)
  have self: "self_once (gw_pm ?w)" using self_once_room [OF w(1) s(2)] .
  note clears = clearAllItems_works [OF this]
  have "grid_clearScreen V E sendData s = (Inr (), ?w\<lparr>gw_canvas := scene_clearScreen V (gw_canvas ?w),
      gw_mw := (gw_mw ?w)\<lparr>mw_pm := cleared (pm_trace (gw_pm ?w) @ [Canvas_clearScreen]) (gw_pm ?w)\<rparr>\<rparr>)"
  proof -
    have 1: "on_gpm (whenS sendData (sendDataToUsers_unit make_ClearScreen)) s = (Inr (), s\<lparr>gw_mw := (gw_mw s)\<lparr>mw_pm := p\<rparr>\<rparr>)"
      using p(1) by (simp add: on_mw_def on_pm_def)
    have 2: "on_gpm (updS (notify Ob_ClearScreen)) (s\<lparr>gw_mw := (gw_mw s)\<lparr>mw_pm := p\<rparr>\<rparr>) = (Inr (), s\<lparr>gw_mw := ?m\<rparr>)"
      by (simp add: on_mw_def on_pm_def)
    have 3: "onClearScreen_window V E (s\<lparr>gw_mw := ?m\<rparr>) = (Inr (), ?w)"
      using m(1) by (simp add: onClearScreen_window_def thenS_def bindS_def on_mw_def)
    have 4: "on_gpm (assertS pm_mainThread) ?w = (Inr (), ?w)"
      using self by (simp add: on_mw_def on_pm_def assertS_def self_once_def)
    show ?thesis using clears
      by (simp only: grid_clearScreen_def thenS_def bindS_def 1 2 3 4 prod.case sum.case) (simp add: on_mw_def on_pm_def)
  qed
  then show ?thesis using w by (intro exI conjI) (assumption | simp)+
qed

text \<open>C36: A grid that has been cleared comes back.  Let everybody who is connected be one that can be written to,
  let the drawing be one that can be saved (the values fit their fields, and there are no items made of
  dropped files), let the own user be once in the history of the users, and let an empty set of items
  be listed as the empty list.  Then clearing the screen, which saves the drawing if that is wanted, takes
  the mark from the button, the grid from the canvas and the tasks from the history, and clearing the
  background takes the mark and the grid away as well.  But the manager keeps the size of the grid: what
  is saved of the empty drawing has the grid in it, and whoever loads it offline into a manager without
  items has the grid again.\<close>

theorem cleared_grid_comes_back:
  assumes "en_newSlicer (we_env E) = sl_new a b c d" "en_itemOrder (we_env E) {} = []"
    and s: "saveable (we_env E) (gw_pm s)" "self_once (gw_pm s)" "can_send (gw_pm s)" "0 <s pm_gridLineSize (gw_pm s)"
    and l: "fresh l"
  shows "(\<exists>s' bytes l'. grid_clearScreen V E sendData s = (Inr (), s')
      \<and> \<not> gw_checked s' \<and> cv_gridLineSize (gw_canvas s') = 0 \<and> cm_historyTaskList (pm_cmd (gw_pm s')) = []
      \<and> serializeData (we_env E) None (gw_pm s') = Inr bytes \<and> deserializeData (we_env E) bytes l = Some (Inr True, l')
      \<and> pm_gridLineSize l' = pm_gridLineSize (gw_pm s))
    \<and> (\<exists>t. actionClearBG V s = (Inr (), t) \<and> \<not> gw_checked t \<and> cv_gridLineSize (gw_canvas t) = 0
      \<and> pm_gridLineSize (gw_pm t) = pm_gridLineSize (gw_pm s))"
proof
  from grid_clearScreen_works [OF assms(1) s(1-3)] obtain s' q tr where
    s': "grid_clearScreen V E sendData s = (Inr (), s')" "gw_pm s' = cleared tr q" "room q = room (gw_pm s)"
      "\<not> gw_checked s'" "cv_gridLineSize (gw_canvas s') = 0" by blast
  from saveable_cleared [OF s(1) assms(2) s'(3)] s'(2) have "saveable (we_env E) (gw_pm s')" by simp
  from drawing_loads [OF assms(1) this l] obtain bytes l' where
    l': "serializeData (we_env E) None (gw_pm s') = Inr bytes" "deserializeData (we_env E) bytes l = Some (Inr True, l')"
      "loaded (we_env E) (gw_pm s') l l'" by blast
  have n: "pm_gridLineSize (gw_pm s') = pm_gridLineSize (gw_pm s)" "cm_historyTaskList (pm_cmd (gw_pm s')) = []"
    using s'(2,3) by (simp_all add: room_def cleared_def cm_clear_def clearHistoryCommand_def clearHistoryTask_def clearHistoryItem_def)
  then have "pm_gridLineSize l' = pm_gridLineSize (gw_pm s)"
    using l'(3) s(4) by (simp add: loaded_def window_of_def with_window_def)
  then show "\<exists>s' bytes l'. grid_clearScreen V E sendData s = (Inr (), s')
      \<and> \<not> gw_checked s' \<and> cv_gridLineSize (gw_canvas s') = 0 \<and> cm_historyTaskList (pm_cmd (gw_pm s')) = []
      \<and> serializeData (we_env E) None (gw_pm s') = Inr bytes \<and> deserializeData (we_env E) bytes l = Some (Inr True, l')
      \<and> pm_gridLineSize l' = pm_gridLineSize (gw_pm s)"
    using s' l' n by blast
next
  have "can_send ((gw_pm s)\<lparr>pm_backgroundImage := None\<rparr>)"
    using s(3) by (simp add: can_send_def sessions_only)
  from sent [OF this, of make_ClearBackground] obtain q where
    q: "sendDataToUsers_unit make_ClearBackground ((gw_pm s)\<lparr>pm_backgroundImage := None\<rparr>) = (Inr (), q)"
      "room q = room (gw_pm s)" by auto
  then show "\<exists>t. actionClearBG V s = (Inr (), t) \<and> \<not> gw_checked t \<and> cv_gridLineSize (gw_canvas t) = 0
      \<and> pm_gridLineSize (gw_pm t) = pm_gridLineSize (gw_pm s)"
    by (simp add: actionClearBG_def thenS_def bindS_def on_mw_def on_pm_def clearBackground_def fireObserver_ClearBackground_def
        notify_def onClearBackground_def setCheckGridLineAction_def setModified_def Let_def room_def)
qed

definition sample_grid :: grid_window where
  "sample_grid = \<lparr>gw_mw = sample_window, gw_canvas = new_scene 0 0 Border_Rect, gw_slider = (0, 0),
     gw_playbackSliderFreezingFlag = False, gw_playbackStatus = (0, 0), gw_cursors = 0\<rparr>"

lemma cleared_grid_comes_back_witness:
  "\<exists>s' bytes l'. grid_clearScreen Scene.sample_env sample_window_env True sample_grid = (Inr (), s')
    \<and> serializeData ManagerRun.sample_env None (gw_pm s') = Inr bytes
    \<and> deserializeData ManagerRun.sample_env bytes (new_paint_manager ManagerRun.sample_env Map.empty) = Some (Inr True, l')
    \<and> pm_gridLineSize l' = 20"
proof -
  have e: "we_env sample_window_env = ManagerRun.sample_env" by (simp add: sample_window_env_def)
  have "en_newSlicer ManagerRun.sample_env = sl_new 0 0 0 0" "en_itemOrder ManagerRun.sample_env {} = []"
    by (simp_all add: ManagerRun.sample_env_def)
  moreover have "can_send sample_drawing"
    by (simp add: can_send_def recipients_def connected_opt_def sample_drawing_def new_paint_manager_def
        startListenBroadCast_def split: prod.split)
  moreover have "0 <s (20 :: 32 word)" by (simp add: word_sless_alt)
  ultimately show ?thesis
    using cleared_grid_comes_back [of sample_window_env 0 0 0 0 sample_grid, OF _ _ _ _ _ _ sample_fresh, of Scene.sample_env True]
    by (simp add: e sample_grid_def sample_window_settings sample_saveable sample_self) blast
qed

end
