(* ===== verification/ScreenRecoder.thy ===== *)
theory ScreenRecoder
  imports PaintItem
begin

text \<open>
  Recording and streaming of the screen: \<^verbatim>\<open>ScreenRecoder.h\<close> and \<^verbatim>\<open>.cpp\<close>, in the build that uses the
  library VLC (the header defines \<^verbatim>\<open>__USE_VLC__\<close>).  What VLC is asked for is the list \<open>rc_calls\<close>; whether it
  makes a player, which may be different each time, is in the environment.  When it makes none, the code
  hands \<^verbatim>\<open>NULL\<close> to the next functions of VLC, which do not allow it; the model goes on as if they did nothing.  A stream that is sent comes back on a local UDP port, which a
  thread of its own listens to.
\<close>

section \<open>State\<close>

datatype media = Media_Record qstring | Media_Stream | Media_Play bytes int

datatype vlc_call = Vlc_Play media nat | Vlc_NoPlayer media | Vlc_Stop

text \<open>
  \<open>rc_player\<close> says whether \<^verbatim>\<open>vlcPlayer_\<close> is set, \<open>rc_thread\<close> whether \<^verbatim>\<open>threadUdpStream_\<close> is, \<open>rc_running\<close> whether
  the thread still runs, and \<open>rc_exits\<close> how many calls of \<^verbatim>\<open>onThreadExit\<close> wait for the main thread.
  \<open>rc_stopped\<close> are the files of \<^verbatim>\<open>onIScreenRecorderEvent_RecordStop\<close>, in order.
\<close>

record recorder =
  rc_player :: bool
  rc_thread :: bool
  rc_running :: bool
  rc_exits :: nat
  rc_streaming :: bool
  rc_recording :: bool
  rc_outputPath :: qstring
  rc_windowId :: nat
  rc_calls :: "vlc_call list"
  rc_stopped :: "qstring list"

text \<open>Whether VLC makes a player, after the calls so far; the directory of the program, the separator, the time and the program's texts.\<close>

record recorder_env =
  rv_player :: "vlc_call list \<Rightarrow> bool"
  rv_appPath :: qstring
  rv_separator :: qstring
  rv_now :: qstring
  rv_text :: "string \<Rightarrow> qstring"

definition new_recorder :: recorder where
  "new_recorder = \<lparr>rc_player = False, rc_thread = False, rc_running = False, rc_exits = 0, rc_streaming = False,
     rc_recording = False, rc_outputPath = [], rc_windowId = 0, rc_calls = [], rc_stopped = []\<rparr>"

section \<open>Operations\<close>

definition setWindowId :: "nat \<Rightarrow> recorder \<Rightarrow> recorder" where
  "setWindowId i s = s\<lparr>rc_windowId := i\<rparr>"

definition isRecording :: "recorder \<Rightarrow> bool" where
  "isRecording s \<longleftrightarrow> rc_player s \<and> rc_recording s"

definition isPlaying :: "recorder \<Rightarrow> bool" where
  "isPlaying s \<longleftrightarrow> rc_player s \<and> \<not> rc_thread s \<and> rc_streaming s"

definition isStreaming :: "recorder \<Rightarrow> bool" where
  "isStreaming s \<longleftrightarrow> rc_player s \<and> rc_thread s \<and> rc_streaming s"

text \<open>
  The thread ends when nothing is left to wait for: its socket has been closed, or could not be bound.
  It then leaves a call for the main thread.
\<close>

definition udp_thread_ends :: "recorder \<Rightarrow> recorder" where
  "udp_thread_ends s = (if rc_running s then s\<lparr>rc_running := False, rc_exits := rc_exits s + 1\<rparr> else s)"

definition waitForFinished :: "recorder \<Rightarrow> recorder" where
  "waitForFinished s = (if rc_thread s then (udp_thread_ends s)\<lparr>rc_thread := False\<rparr> else s)"

definition onThreadExit :: "recorder \<Rightarrow> recorder" where
  "onThreadExit s = waitForFinished s"

definition rec_deferred :: "recorder \<Rightarrow> recorder" where
  "rec_deferred s = (if rc_exits s = 0 then s else onThreadExit (s\<lparr>rc_exits := rc_exits s - 1\<rparr>))"

definition stop_player :: "recorder \<Rightarrow> recorder" where
  "stop_player s = (if rc_player s then s\<lparr>rc_calls := rc_calls s @ [Vlc_Stop], rc_player := False\<rparr> else s)"

definition start_player :: "recorder_env \<Rightarrow> media \<Rightarrow> recorder \<Rightarrow> recorder" where
  "start_player V m s =
     (if rv_player V (rc_calls s)
      then s\<lparr>rc_player := True, rc_calls := rc_calls s @ [Vlc_Play m (rc_windowId s)]\<rparr>
      else s\<lparr>rc_player := False, rc_calls := rc_calls s @ [Vlc_NoPlayer m]\<rparr>)"

definition stopRecord :: "recorder \<Rightarrow> recorder" where
  "stopRecord s =
     (if rc_recording s
      then (let s = stop_player s; s = s\<lparr>rc_recording := False\<rparr>; s = waitForFinished s in
        s\<lparr>rc_stopped := rc_stopped s @ [rc_outputPath s]\<rparr>)
      else s)"

definition stopStream :: "recorder \<Rightarrow> recorder" where
  "stopStream s = (let s = stop_player s; s = s\<lparr>rc_streaming := False\<rparr> in waitForFinished s)"

text \<open>The slashes are replaced in the Windows build (\<^verbatim>\<open>Q_WS_WIN\<close>).\<close>

definition getRecordFilePath :: "recorder_env \<Rightarrow> qstring" where
  "getRecordFilePath V = map (\<lambda>c. if c = 47 then 92 else c)
     (rv_appPath V @ rv_separator V @ rv_text V ''record'' @ rv_separator V @ rv_now V @ rv_text V ''.avi'')"

definition startRecord :: "recorder_env \<Rightarrow> recorder \<Rightarrow> recorder" where
  "startRecord V s =
     (let s = stopRecord (stopStream s);
          s = s\<lparr>rc_outputPath := getRecordFilePath V\<rparr>;
          s = start_player V (Media_Record (rc_outputPath s)) s in
      s\<lparr>rc_recording := True\<rparr>)"

definition startStreamSend :: "recorder_env \<Rightarrow> recorder \<Rightarrow> recorder" where
  "startStreamSend V s =
     (let s = stopStream (stopRecord s);
          s = start_player V Media_Stream s;
          s = s\<lparr>rc_thread := True, rc_running := True\<rparr> in
      s\<lparr>rc_streaming := True\<rparr>)"

definition playStream :: "recorder_env \<Rightarrow> bytes \<Rightarrow> int \<Rightarrow> recorder \<Rightarrow> recorder" where
  "playStream V ip port s =
     (let s = stopStream (stopRecord s);
          s = start_player V (Media_Play ip port) s in
      s\<lparr>rc_streaming := True\<rparr>)"

definition destroy_recorder :: "recorder \<Rightarrow> recorder" where
  "destroy_recorder s = waitForFinished (stopStream (stopRecord s))"

section \<open>Reachable states\<close>

inductive recorder_step :: "recorder_env \<Rightarrow> recorder \<Rightarrow> recorder \<Rightarrow> bool" for V where
  recording: "recorder_step V s (startRecord V s)"
| unrecord: "recorder_step V s (stopRecord s)"
| send: "recorder_step V s (startStreamSend V s)"
| play: "recorder_step V s (playStream V ip port s)"
| unstream: "recorder_step V s (stopStream s)"
| ended: "recorder_step V s (udp_thread_ends s)"
| later: "recorder_step V s (rec_deferred s)"
| aim: "recorder_step V s (setWindowId i s)"
| destroy: "recorder_step V s (destroy_recorder s)"

lemmas rec_defs = destroy_recorder_def startRecord_def stopRecord_def startStreamSend_def playStream_def stopStream_def udp_thread_ends_def
  rec_deferred_def onThreadExit_def waitForFinished_def stop_player_def start_player_def setWindowId_def Let_def

text \<open>How many players VLC runs after what it has been asked for: a player that is not stopped runs on.\<close>

fun players :: "vlc_call list \<Rightarrow> int" where
  "players [] = 0"
| "players (Vlc_Play m i # cs) = players cs + 1"
| "players (Vlc_NoPlayer m # cs) = players cs"
| "players (Vlc_Stop # cs) = players cs - 1"

lemma players_append [simp]: "players (cs @ ds) = players cs + players ds"
  by (induction cs rule: players.induct) simp_all

definition recorder_ok :: "recorder \<Rightarrow> bool" where
  "recorder_ok s \<longleftrightarrow> \<not> (rc_recording s \<and> rc_streaming s) \<and> (rc_running s \<longrightarrow> rc_thread s)
     \<and> (rc_player s \<longrightarrow> rc_recording s \<or> rc_streaming s) \<and> (rc_thread s \<longrightarrow> rc_streaming s)"

lemma recorder_step_ok:
  assumes "recorder_step V s s'" "recorder_ok s" "players (rc_calls s) = (if rc_player s then 1 else 0)"
  shows "recorder_ok s' \<and> players (rc_calls s') = (if rc_player s' then 1 else 0)"
  using assms by (cases rule: recorder_step.cases) (auto simp: recorder_ok_def rec_defs)

lemma recorder_reachable:
  assumes "(recorder_step V)\<^sup>*\<^sup>* new_recorder s"
  shows "recorder_ok s \<and> players (rc_calls s) = (if rc_player s then 1 else 0)"
  using assms
proof (induction rule: rtranclp_induct)
  case base
  then show ?case by (simp add: recorder_ok_def new_recorder_def)
next
  case (step s t)
  with recorder_step_ok [OF step(2)] show ?case by blast
qed

text \<open>Starting any of the three: VLC has been asked for it last; it made a player, and the recorder does just
  that, or it made none, and the recorder does nothing.\<close>

definition starts :: "(recorder \<Rightarrow> bool) \<Rightarrow> media \<Rightarrow> recorder \<Rightarrow> bool" where
  "starts doing m s \<longleftrightarrow>
     (if last (rc_calls s) = Vlc_Play m (rc_windowId s) then rc_player s \<and> doing s
      else last (rc_calls s) = Vlc_NoPlayer m \<and> \<not> rc_player s)"


definition sample_recorder_env :: recorder_env where
  "sample_recorder_env = \<lparr>rv_player = (\<lambda>cs. True), rv_appPath = [67], rv_separator = [47], rv_now = [49],
     rv_text = map (\<lambda>c. of_nat (of_char c))\<rparr>"


end
