(* ===== verification/WindowStream.thy ===== *)
theory WindowStream
  imports WindowNames ScreenRecoder
begin

text \<open>
  The part of the main window that records and streams the screen: the two menu actions and what the
  manager reports.  Every user carries flags that say whether he records, sends a stream or receives
  one; they are set by \<^verbatim>\<open>notifyScreenRecordingStatus\<close> and \<^verbatim>\<open>notifyChangeShowScreenStream\<close>.
\<close>

section \<open>Operations\<close>

record stream_window =
  sw_pm :: paint_manager
  sw_rec :: recorder
  sw_streamingUserId :: bytes
  sw_indicator :: bool
  sw_boxes :: nat

record stream_env =
  sv_env :: env
  sv_rec :: recorder_env
  sv_winId :: nat

definition on_spm :: "'a pm \<Rightarrow> (stream_window, 'a) meth" where
  "on_spm m s = (case m (sw_pm s) of (r, p) \<Rightarrow> (r, s\<lparr>sw_pm := p\<rparr>))"

definition upd_rec :: "(recorder \<Rightarrow> recorder) \<Rightarrow> stream_window \<Rightarrow> stream_window" where
  "upd_rec f s = s\<lparr>sw_rec := f (sw_rec s)\<rparr>"

definition warn :: "stream_window \<Rightarrow> stream_window" where
  "warn s = s\<lparr>sw_boxes := sw_boxes s + 1\<rparr>"

definition tell_stream :: "bool \<Rightarrow> bool \<Rightarrow> (stream_window, unit) meth" where
  "tell_stream sender status = thenS (on_spm (notifyChangeShowScreenStream sender status)) (returnS ())"

definition user_flag :: "(SPaintUserInfoData \<Rightarrow> bool) \<Rightarrow> paint_manager \<Rightarrow> user_ptr \<Rightarrow> bool" where
  "user_flag f p u = f (user_data (user u p))"

definition actionScreenStreaming :: "stream_env \<Rightarrow> (stream_window, unit) meth" where
  "actionScreenStreaming E s =
     (let s = upd_rec (setWindowId (sv_winId E)) s in
      if isStreaming (sw_rec s) then tell_stream True False (upd_rec stopStream s)
      else if isPlaying (sw_rec s) then tell_stream False False (upd_rec stopStream s)
      else if list_ex (\<lambda>u. user_flag u_screenStreaming (sw_pm s) u \<and> \<not> mySelfFlag (user u (sw_pm s))) (userList (sw_pm s))
      then (Inr (), warn s)
      else tell_stream True True (upd_rec (startStreamSend (sv_rec E)) s))"

definition updateRecordingStatus :: "stream_window \<Rightarrow> stream_window" where
  "updateRecordingStatus s = s\<lparr>sw_indicator :=
     0 < length (filter (user_flag u_screenRecording (sw_pm s)) (userList (sw_pm s)))\<rparr>"

definition actionScreenRecord :: "stream_env \<Rightarrow> (stream_window, unit) meth" where
  "actionScreenRecord E s =
     (let s = upd_rec (setWindowId (sv_winId E)) s; recording = isRecording (sw_rec s) in
      thenS (on_spm (notifyScreenRecordingStatus (\<not> recording))) (updS updateRecordingStatus)
        (upd_rec (if recording then stopRecord else startRecord (sv_rec E)) s))"

definition stream_disconnected :: "stream_window \<Rightarrow> stream_window" where
  "stream_disconnected s = (upd_rec stopStream s)\<lparr>sw_streamingUserId := []\<rparr>"

definition stream_user_left :: "user_ptr \<Rightarrow> stream_window \<Rightarrow> stream_window" where
  "stream_user_left u s = (if id_of u (sw_pm s) = sw_streamingUserId s then upd_rec stopStream s else s)"

definition onChangeShowScreenStream ::
  "stream_env \<Rightarrow> user_ptr \<Rightarrow> bool \<Rightarrow> bool \<Rightarrow> stream_window \<Rightarrow> (unit result \<times> stream_window) option" where
  "onChangeShowScreenStream E u sender status s =
     (if status then
        (if sender then
           (let uid = id_of u (sw_pm s); s = s\<lparr>sw_streamingUserId := uid\<rparr> in
            map_option (\<lambda>(r, p).
                (let s = s\<lparr>sw_pm := p\<rparr> in
                 case r of
                   Inl err \<Rightarrow> (Inl err, s)
                 | Inr listenPort \<Rightarrow>
                     (Inr (), if listenPort > 0
                       then upd_rec (\<lambda>r. playStream (sv_rec E) (en_myIp (sv_env E)) listenPort (setWindowId (sv_winId E) r)) s
                       else s)))
              (sendResponseShowScreenStream (sv_env E) uid True (sw_pm s)))
         else Some (Inr (), s))
      else if sender then Some (Inr (), upd_rec stopStream (s\<lparr>sw_streamingUserId := []\<rparr>))
      else if isStreaming (sw_rec s) then
        (let cnt = length (filter (user_flag u_screenStreamingReceiver (sw_pm s)) (userList (sw_pm s))) in
         if cnt = 0
         then Some (thenS (tell_stream True False) (updS warn) (upd_rec stopStream s))
         else Some (Inr (), s))
      else Some (Inr (), s))"

text \<open>What the thread of the recorder reads from the local port is passed on.\<close>

definition onReadyStreamData :: "stream_env \<Rightarrow> bytes \<Rightarrow> (stream_window, unit) meth" where
  "onReadyStreamData E d = on_spm (sendScreenStreamData (sv_env E) d)"

section \<open>The flags of the own user\<close>

lemma stream_flag_set:
  assumes "notifyChangeShowScreenStream sender b p = (Inr i, q)" and "pm_users p \<noteq> []"
  shows "pm_users q = (pm_users p)[my := (if sender then setScreenStreaming b else setScreenStreamingReceiver b) (user my p)]"
proof -
  let ?p = "upd_userp my (if sender then setScreenStreaming b else setScreenStreamingReceiver b) p"
  have "q = snd (sendDataToUsers (make_ChangeShowStream (myId ?p) sender b) ?p)"
    using assms(1) by (simp add: notifyChangeShowScreenStream_def thenS_def bindS_def)
  moreover have "pm_users (snd (sendDataToUsers bs ?p)) = pm_users ?p" for bs
    by (rule users_kept.sendDataToUsers) simp
  ultimately show ?thesis by (simp add: upd_userp_def)
qed


lemma tell_stream_flag:
  assumes "tell_stream sender b s = (Inr (), s')" and "pm_users (sw_pm s) \<noteq> []"
  shows "pm_users (sw_pm s') = (pm_users (sw_pm s))[my := (if sender then setScreenStreaming b else setScreenStreamingReceiver b) (user my (sw_pm s))]"
    and "sw_rec s' = sw_rec s" "sw_streamingUserId s' = sw_streamingUserId s"
    and "sw_pm s' = snd (notifyChangeShowScreenStream sender b (sw_pm s))"
proof -
  obtain i q where q: "notifyChangeShowScreenStream sender b (sw_pm s) = (Inr i, q)" "s' = s\<lparr>sw_pm := q\<rparr>"
    using assms(1) by (auto simp: tell_stream_def thenS_def bindS_def on_spm_def split: prod.splits sum.splits)
  show "pm_users (sw_pm s') = (pm_users (sw_pm s))[my := (if sender then setScreenStreaming b else setScreenStreamingReceiver b) (user my (sw_pm s))]"
    using stream_flag_set [OF q(1) assms(2)] q(2) by simp
  show "sw_rec s' = sw_rec s" "sw_streamingUserId s' = sw_streamingUserId s"
    "sw_pm s' = snd (notifyChangeShowScreenStream sender b (sw_pm s))"
    using q by simp_all
qed

lemma upd_rec_simps [simp]:
  "sw_pm (upd_rec f s) = sw_pm s" "sw_rec (upd_rec f s) = f (sw_rec s)" "sw_streamingUserId (upd_rec f s) = sw_streamingUserId s"
  by (simp_all add: upd_rec_def)

lemma recorder_aim [simp]:
  "isStreaming (setWindowId i r) = isStreaming r" "isPlaying (setWindowId i r) = isPlaying r"
  "isRecording (setWindowId i r) = isRecording r"
  by (simp_all add: setWindowId_def isStreaming_def isPlaying_def isRecording_def)

lemma stopped_stream [simp]:
  "isStreaming (stopStream r) = False" "isPlaying (stopStream r) = False" "isRecording (stopStream r) = False"
  by (simp_all add: isStreaming_def isPlaying_def isRecording_def rec_defs)

section \<open>The first receiver that stops\<close>

text \<open>Nobody is marked as a receiver.\<close>

definition no_receivers :: "paint_manager \<Rightarrow> bool" where
  "no_receivers p \<longleftrightarrow> (\<forall>u \<in> set (pm_users p). \<not> u_screenStreamingReceiver (user_data u))"

definition unmarked :: "paint_manager \<Rightarrow> bool" where
  "unmarked p \<longleftrightarrow> no_receivers p \<and> pm_users p \<noteq> []"

interpretation unmarked: manager_frame unmarked
  by unfold_locales (auto simp: core_def unmarked_def no_receivers_def)

lemma unmarked_upd [simp]:
  assumes "unmarked p" "\<And>v. \<not> u_screenStreamingReceiver (user_data v) \<Longrightarrow> \<not> u_screenStreamingReceiver (user_data (f v))"
  shows "unmarked (upd_userp u f p)"
proof (cases "u < length (pm_users p)")
  case True
  then have "\<not> u_screenStreamingReceiver (user_data (f (user u p)))"
    using assms by (simp add: unmarked_def no_receivers_def user_def)
  then show ?thesis
    using assms(1) set_update_subset_insert [of "pm_users p" u "f (user u p)"]
    by (auto simp: unmarked_def no_receivers_def upd_userp_def)
qed (use assms(1) in \<open>simp add: upd_userp_def unmarked_def no_receivers_def list_update_beyond\<close>)

lemma unmarked_setters [simp]:
  assumes "unmarked p"
  shows "unmarked (upd_userp u (setScreenStreaming b) p)" "unmarked (upd_userp u (setScreenRecording b) p)"
    "unmarked (upd_userp u (setScreenStreamListenPort n) p)" "unmarked (upd_userp u (setScreenStreamingReceiver False) p)"
  using assms by (auto simp: setScreenStreaming_def setScreenRecording_def setScreenStreamListenPort_def
      setScreenStreamingReceiver_def)

lemma on_spm_keeps: "unmarked (snd (m (sw_pm s))) \<Longrightarrow> unmarked (sw_pm (snd (on_spm m s)))"
  by (auto simp: on_spm_def split: prod.split)

text \<open>What happens in a window that streams or plays: the two buttons, what the manager reports, the thread of
  the recorder, and a packet of another window about its stream, which never marks a receiver.\<close>

inductive stream_step :: "stream_env \<Rightarrow> stream_window \<Rightarrow> stream_window \<Rightarrow> bool" for E where
  press: "actionScreenStreaming E s = (r, s') \<Longrightarrow> stream_step E s s'"
| recording: "actionScreenRecord E s = (r, s') \<Longrightarrow> stream_step E s s'"
| report: "onChangeShowScreenStream E u sender status s = Some (r, s') \<Longrightarrow> stream_step E s s'"
| lost: "stream_step E s (stream_disconnected s)"
| left: "stream_step E s (stream_user_left u s)"
| data: "onReadyStreamData E d s = (r, s') \<Longrightarrow> stream_step E s s'"
| ends: "stream_step E s (upd_rec udp_thread_ends s)"
| later: "stream_step E s (upd_rec rec_deferred s)"
| packet: "parse_ChangeShowStream (pd_body d) (False, False) = (ok, sender, status) \<Longrightarrow> sender \<or> \<not> status \<Longrightarrow>
    stream_step E s (s\<lparr>sw_pm := snd (dispatch_CHANGE_SHOW_STREAM (sv_env E) d (sw_pm s))\<rparr>)"

lemma told_unmarked: "unmarked (sw_pm s) \<Longrightarrow> sender \<or> \<not> b \<Longrightarrow> unmarked (sw_pm (snd (tell_stream sender b s)))"
proof -
  assume s: "unmarked (sw_pm s)" and b: "sender \<or> \<not> b"
  have "unmarked (snd (notifyChangeShowScreenStream sender b (sw_pm s)))"
    unfolding notifyChangeShowScreenStream_def using s b
    by (intro unmarked.keep unmarked.sendDataToUsers) (auto simp: updS_def)
  then show ?thesis
    by (auto simp: tell_stream_def thenS_def bindS_def on_spm_def returnS_def split: prod.split sum.split)
qed

lemma response_unmarked:
  "unmarked p \<Longrightarrow> sendResponseShowScreenStream e u b p = Some (r, q) \<Longrightarrow> unmarked q"
proof -
  assume p: "unmarked p" and q: "sendResponseShowScreenStream e u b p = Some (r, q)"
  have "unmarked (snd (thenS (updS (upd_userp my (setScreenStreamListenPort n)))
      (thenS (\<lambda>s. bindS (sendDataToUsers_to (d s) (i s)) (\<lambda>i. returnS ()) s) (returnS port)) t))"
    if "unmarked t" for n d i t and port :: int
    using that by (intro unmarked.keep) (auto simp: updS_def returnS_def intro!: unmarked.keep unmarked.sendDataToUsers_to)
  note k = this
  show ?thesis
  proof (cases "pm_findUser u p")
    case None
    then show ?thesis using p q by (simp add: sendResponseShowScreenStream_def)
  next
    case (Some x)
    define K where "K port = thenS (updS (upd_userp my (setScreenStreamListenPort (of_int port))))
        (thenS (\<lambda>s. bindS (sendDataToUsers_to (make_ResShowStream (myId s) b (of_int port)) (sessionId (user x s)))
           (\<lambda>i. returnS ()) s) (returnS port))" for port :: int
    have "sendResponseShowScreenStream e u b p = map_option (\<lambda>(port, s1). K port s1)
        (if b then map_option (\<lambda>(port, us). (port, p\<lparr>pm_udpForStream := Some us\<rparr>))
             (listen_loop e START_UDP_LISTEN_PORT_FOR_STREAM new_udp_session) else Some (0, p))"
      using Some by (simp add: sendResponseShowScreenStream_def K_def)
    with q have "map_option (\<lambda>(port, s1). K port s1)
        (if b then map_option (\<lambda>(port, us). (port, p\<lparr>pm_udpForStream := Some us\<rparr>))
             (listen_loop e START_UDP_LISTEN_PORT_FOR_STREAM new_udp_session) else Some (0, p)) = Some (r, q)" by simp
    then have "(\<exists>port us. K port (p\<lparr>pm_udpForStream := Some us\<rparr>) = (r, q)) \<or> K 0 p = (r, q)"
      by (auto split: if_splits)
    moreover have "unmarked q" if "K port p1 = (r, q)" "unmarked p1" for port p1
      using k [OF that(2), of "of_int port" "\<lambda>s. make_ResShowStream (myId s) b (of_int port)"
          "\<lambda>s. sessionId (user x s)" port, folded K_def] that(1) by simp
    ultimately show ?thesis using p by auto
  qed
qed

lemma step_keeps_unmarked: "stream_step E s s' \<Longrightarrow> unmarked (sw_pm s) \<Longrightarrow> unmarked (sw_pm s')"
proof (induction rule: stream_step.induct)
  case (press s r s')
  have t: "unmarked (sw_pm (snd (tell_stream sender b (upd_rec f (upd_rec (setWindowId (sv_winId E)) s)))))"
    if "sender \<or> \<not> b" for sender b f
    using told_unmarked [OF _ that] press.prems by simp
  have "snd (actionScreenStreaming E s) = s'" using press.hyps by simp
  moreover have "unmarked (sw_pm (snd (actionScreenStreaming E s)))"
    unfolding actionScreenStreaming_def Let_def using t press.prems by (simp add: warn_def)
  ultimately show ?case by simp
next
  case (recording s r s')
  have m: "unmarked (snd (notifyScreenRecordingStatus b p))" if "unmarked p" for b p
    unfolding notifyScreenRecordingStatus_def using that
    by (intro unmarked.keep unmarked.sendDataToUsers) (auto simp: updS_def)
  have "snd (actionScreenRecord E s) = s'" using recording.hyps by simp
  moreover have "unmarked (sw_pm (snd (actionScreenRecord E s)))"
    using m recording.prems by (auto simp: actionScreenRecord_def Let_def thenS_def bindS_def on_spm_def updS_def
        updateRecordingStatus_def split: prod.split sum.split) (metis snd_conv)+
  ultimately show ?case by simp
next
  case (report u sender status s r s')
  have t: "unmarked (sw_pm (snd (thenS (tell_stream True False) (updS warn) (upd_rec stopStream s))))"
    using told_unmarked [of "upd_rec stopStream s" True False] report.prems
    by (auto simp: thenS_def bindS_def updS_def warn_def split: prod.split sum.split)
  show ?case
  proof (cases "status \<and> sender")
    case True
    let ?s = "s\<lparr>sw_streamingUserId := id_of u (sw_pm s)\<rparr>"
    obtain r0 p where p: "sendResponseShowScreenStream (sv_env E) (id_of u (sw_pm s)) True (sw_pm s) = Some (r0, p)"
      using report.hyps True by (auto simp: onChangeShowScreenStream_def Let_def)
    have "sw_pm s' = p"
      using report.hyps True p by (cases r0) (auto simp: onChangeShowScreenStream_def Let_def split: if_splits)
    then show ?thesis using response_unmarked [OF report.prems p] by simp
  next
    case False
    then show ?thesis using report t
      by (auto simp: onChangeShowScreenStream_def Let_def split: if_splits)
  qed
next
  case (data d s r s')
  have "unmarked (snd (sendScreenStreamData (sv_env E) d (sw_pm s)))"
    using data.prems by (simp add: sendScreenStreamData_def updS_def)
  with data.hyps show ?case by (auto simp: onReadyStreamData_def on_spm_def split: prod.splits)
next
  case (packet d ok sender status s)
  have "unmarked (snd (dispatch_CHANGE_SHOW_STREAM (sv_env E) d (sw_pm s)))"
    using packet by (auto simp: dispatch_CHANGE_SHOW_STREAM_def Let_def ManagerInvariant.quiet_def removeUdpStreamSession_def
        split: option.split intro!: unmarked.keep unmarked.perform_quiet)
  then show ?case by simp
qed (simp_all add: stream_disconnected_def stream_user_left_def)

lemma run_keeps_unmarked: "(stream_step E)\<^sup>*\<^sup>* s s' \<Longrightarrow> unmarked (sw_pm s) \<Longrightarrow> unmarked (sw_pm s')"
  by (induction rule: rtranclp_induct) (auto dest: step_keeps_unmarked)

section \<open>A window that is offline\<close>

lemma offline_told:
  assumes "offline (sw_pm s)"
  shows "tell_stream sender b s =
      (Inr (), s\<lparr>sw_pm := upd_userp my (if sender then setScreenStreaming b else setScreenStreamingReceiver b) (sw_pm s)\<rparr>)"
    and "on_spm (notifyScreenRecordingStatus b) s = (Inr (- 1), s\<lparr>sw_pm := upd_userp my (setScreenRecording b) (sw_pm s)\<rparr>)"
proof -
  have "sendDataToUsers d (upd_userp my f (sw_pm s)) = (Inr (- 1), upd_userp my f (sw_pm s))" for d f
    using assms by (simp add: offline_def sendDataToUsers_def sendDataToUsers_to_def connected_opt_def upd_userp_def)
  then show "tell_stream sender b s =
      (Inr (), s\<lparr>sw_pm := upd_userp my (if sender then setScreenStreaming b else setScreenStreamingReceiver b) (sw_pm s)\<rparr>)"
    "on_spm (notifyScreenRecordingStatus b) s = (Inr (- 1), s\<lparr>sw_pm := upd_userp my (setScreenRecording b) (sw_pm s)\<rparr>)"
    by (simp_all add: tell_stream_def on_spm_def notifyChangeShowScreenStream_def notifyScreenRecordingStatus_def thenS_def bindS_def)
qed

definition sample_stream_env :: stream_env where
  "sample_stream_env = \<lparr>sv_env = ManagerRun.sample_env, sv_rec = sample_recorder_env, sv_winId = 5\<rparr>"

definition sample_stream :: stream_window where
  "sample_stream = \<lparr>sw_pm = sample_drawing, sw_rec = new_recorder, sw_streamingUserId = [], sw_indicator = False, sw_boxes = 0\<rparr>"

lemma sample_stream_facts:
  "offline (sw_pm sample_stream)" "no_receivers (sw_pm sample_stream)" "pm_users (sw_pm sample_stream) \<noteq> []"
  "set (userList (sw_pm sample_stream)) = {}"
  by (simp_all add: sample_stream_def offline_def no_receivers_def sample_drawing_def new_paint_manager_def
      startListenBroadCast_def userList_def CPaintUser_myself_def new_user_info_def split: prod.split)

text \<open>C37: The first receiver that stops ends the stream for everybody.  In a window where nobody is marked as a
  receiver, nobody ever is: neither by the buttons, nor when the window begins to play a stream, stops or
  loses it, nor by a packet about a stream, other than one that says its sender has begun to receive; and
  such a packet is never sent, since a window sends it where it marks its own user, which no step of it
  does.  So when one of several receivers stops, the sender counts none, stops sending, and tells
  everybody that the stream is over, although the others still play it.  (The users that are listed must
  be known, and telling the others must not fail.)\<close>

theorem first_receiver_ends_stream:
  assumes start: "no_receivers (sw_pm s0)" "pm_users (sw_pm s0) \<noteq> []" and run: "(stream_step E)\<^sup>*\<^sup>* s0 s"
    and known: "\<And>u. u \<in> set (userList (sw_pm s)) \<Longrightarrow> u < length (pm_users (sw_pm s))"
    and streaming: "isStreaming (sw_rec s)"
    and told: "tell_stream True False (upd_rec stopStream s) = (Inr (), t)"
  shows "no_receivers (sw_pm s) \<and> onChangeShowScreenStream E u False False s = Some (Inr (), warn t)
      \<and> \<not> isStreaming (sw_rec t) \<and> sw_pm t = snd (notifyChangeShowScreenStream True False (sw_pm s))
      \<and> \<not> user_flag u_screenStreaming (sw_pm t) my"
proof (intro conjI)
  have u: "unmarked (sw_pm s)" using run_keeps_unmarked [OF run] start by (simp add: unmarked_def)
  then have users: "pm_users (sw_pm s) \<noteq> []" by (simp add: unmarked_def)
  show nr: "no_receivers (sw_pm s)" using u by (simp add: unmarked_def)
  have "\<not> user_flag u_screenStreamingReceiver (sw_pm s) v" if "v \<in> set (userList (sw_pm s))" for v
    using nr known [OF that] by (simp add: no_receivers_def user_flag_def user_def)
  then have "filter (user_flag u_screenStreamingReceiver (sw_pm s)) (userList (sw_pm s)) = []"
    by (simp add: filter_empty_conv)
  then show "onChangeShowScreenStream E u False False s = Some (Inr (), warn t)"
    using streaming told by (simp add: onChangeShowScreenStream_def thenS_def bindS_def)
  note t = tell_stream_flag [OF told]
  show "\<not> isStreaming (sw_rec t)" "sw_pm t = snd (notifyChangeShowScreenStream True False (sw_pm s))"
    using t(2,4) users by simp_all
  show "\<not> user_flag u_screenStreaming (sw_pm t) my"
    using t(1) users by (simp add: user_flag_def user_def my_def setScreenStreaming_def)
qed

lemma first_receiver_ends_stream_witness:
  "\<exists>s1 t. (stream_step sample_stream_env)\<^sup>*\<^sup>* sample_stream s1 \<and> isStreaming (sw_rec s1)
     \<and> onChangeShowScreenStream sample_stream_env 0 False False s1 = Some (Inr (), warn t) \<and> \<not> isStreaming (sw_rec t)"
proof -
  let ?E = sample_stream_env
  let ?s = "upd_rec (startStreamSend (sv_rec ?E)) (upd_rec (setWindowId (sv_winId ?E)) sample_stream)"
  define s1 where "s1 = ?s\<lparr>sw_pm := upd_userp my (setScreenStreaming True) (sw_pm ?s)\<rparr>"
  have idle: "\<not> isStreaming (sw_rec sample_stream)" "\<not> isPlaying (sw_rec sample_stream)"
    by (simp_all add: sample_stream_def new_recorder_def isStreaming_def isPlaying_def)
  have empty: "userList (sw_pm sample_stream) = []" using sample_stream_facts(4) by simp
  have "tell_stream True True ?s = (Inr (), s1)"
    using offline_told(1) [of ?s True True] sample_stream_facts(1) by (simp add: s1_def)
  then have "actionScreenStreaming ?E sample_stream = (Inr (), s1)"
    using idle empty by (simp add: actionScreenStreaming_def)
  then have run: "(stream_step ?E)\<^sup>*\<^sup>* sample_stream s1" by (intro r_into_rtranclp stream_step.press)
  have on: "isStreaming (sw_rec s1)"
    by (simp add: s1_def isStreaming_def rec_defs sample_stream_env_def sample_recorder_env_def)
  have l: "userList (sw_pm s1) = []"
    using sample_stream_facts(4) by (simp add: s1_def userList_def upd_userp_def)
  have "offline (sw_pm (upd_rec stopStream s1))" using sample_stream_facts(1) by (simp add: s1_def offline_def upd_userp_def)
  note off = offline_told(1) [OF this, of True False]
  from first_receiver_ends_stream [OF sample_stream_facts(2,3) run _ on off, of 0] l
  have "onChangeShowScreenStream ?E 0 False False s1 = Some (Inr (), warn (snd (tell_stream True False (upd_rec stopStream s1))))"
    "\<not> isStreaming (sw_rec (snd (tell_stream True False (upd_rec stopStream s1))))" by (simp_all add: off)
  with run on show ?thesis by blast
qed

section \<open>A sender whose port is taken\<close>

text \<open>When the local port cannot be bound, the thread of the sender ends at once, and the sender is taken for a
  receiver: the deferred call clears the thread while the player goes on.  The next press of the button
  then stops the player but tells the others that a receiver has stopped; the own user stays marked as
  streaming, and so, for everybody else, nobody else may stream.\<close>

lemma taken_port_confuses_sender:
  assumes idle: "\<not> rc_player (sw_rec s)" "\<not> rc_thread (sw_rec s)" "rc_exits (sw_rec s) = 0" "\<not> rc_recording (sw_rec s)" "\<And>cs. rv_player (sv_rec E) cs"
    and free: "\<And>u. u \<in> set (userList (sw_pm s)) \<Longrightarrow> \<not> user_flag u_screenStreaming (sw_pm s) u \<or> mySelfFlag (user u (sw_pm s))"
    and users: "pm_users (sw_pm s) \<noteq> []"
    and press: "actionScreenStreaming E s = (Inr (), s1)"
    and fails: "s2 = upd_rec (\<lambda>r. rec_deferred (udp_thread_ends r)) s1"
    and again: "actionScreenStreaming E s2 = (Inr (), s3)"
  shows "isStreaming (sw_rec s1) \<and> user_flag u_screenStreaming (sw_pm s1) my
    \<and> \<not> isStreaming (sw_rec s2) \<and> isPlaying (sw_rec s2)
    \<and> \<not> isPlaying (sw_rec s3) \<and> sw_pm s3 = snd (notifyChangeShowScreenStream False False (sw_pm s2))
    \<and> user_flag u_screenStreaming (sw_pm s3) my"
proof -
  let ?s = "upd_rec (setWindowId (sv_winId E)) s"
  have "\<not> isStreaming (sw_rec s)" "\<not> isPlaying (sw_rec s)" using idle by (simp_all add: isStreaming_def isPlaying_def)
  moreover have "\<not> list_ex (\<lambda>u. user_flag u_screenStreaming (sw_pm s) u \<and> \<not> mySelfFlag (user u (sw_pm s))) (userList (sw_pm s))"
    using free by (auto simp: list_ex_iff)
  ultimately have told: "tell_stream True True (upd_rec (startStreamSend (sv_rec E)) ?s) = (Inr (), s1)"
    using press by (simp add: actionScreenStreaming_def)
  note t = tell_stream_flag [OF told]
  have r: "rc_player (sw_rec s1)" "rc_thread (sw_rec s1)" "rc_streaming (sw_rec s1)" "rc_running (sw_rec s1)" "rc_exits (sw_rec s1) = 0"
    using t(2) users idle by (simp_all add: rec_defs)
  have users1: "pm_users (sw_pm s1) \<noteq> []" "user my (sw_pm s1) = setScreenStreaming True (user my (sw_pm s))"
    using t(1) users by (simp_all add: user_def my_def)
  have 2: "\<not> isStreaming (sw_rec s2)" "isPlaying (sw_rec s2)" "sw_pm s2 = sw_pm s1"
    using r by (simp_all add: fails isStreaming_def isPlaying_def rec_defs)
  then have told2: "tell_stream False False (upd_rec stopStream (upd_rec (setWindowId (sv_winId E)) s2)) = (Inr (), s3)"
    using again by (simp add: actionScreenStreaming_def)
  note t2 = tell_stream_flag [OF told2]
  have "user my (sw_pm s3) = setScreenStreamingReceiver False (user my (sw_pm s1))"
    using t2(1) users1(1) 2(3) by (simp add: user_def my_def)
  then have "user_flag u_screenStreaming (sw_pm s3) my" "user_flag u_screenStreaming (sw_pm s1) my"
    using users1(2) by (simp_all add: user_flag_def setScreenStreamingReceiver_def setScreenStreaming_def)
  moreover have "isStreaming (sw_rec s1)" using r by (simp add: isStreaming_def)
  ultimately show ?thesis using 2 t2(2,4) users1(1) by simp
qed

section \<open>A recording that somebody else ends\<close>

text \<open>A recording ends when a connection is lost or when somebody else stops his stream.  Both stop the player of
  the recorder, whatever it was doing: the window no longer counts as recording, but nobody is told, the
  own user stays marked as one who records, and the end of the recording is not reported.  The button that
  should stop the recording then begins another one, and only now the first file is reported.\<close>

lemma remote_stop_ends_recording:
  assumes "isRecording (sw_rec s)" "\<And>cs. rv_player (sv_rec E) cs" and s': "s' = stream_disconnected s \<or> onChangeShowScreenStream E u True False s = Some (Inr (), s')"
  shows "\<not> isRecording (sw_rec s') \<and> sw_pm s' = sw_pm s \<and> sw_indicator s' = sw_indicator s
    \<and> rc_stopped (sw_rec s') = rc_stopped (sw_rec s)
    \<and> (\<forall>r t. actionScreenRecord E s' = (Inr r, t) \<longrightarrow> isRecording (sw_rec t)
          \<and> rc_stopped (sw_rec t) = rc_stopped (sw_rec s) @ [rc_outputPath (sw_rec s)])"
proof -
  have eq: "s' = (upd_rec stopStream s)\<lparr>sw_streamingUserId := []\<rparr>"
    using s' by (auto simp: stream_disconnected_def onChangeShowScreenStream_def upd_rec_def)
  have rec: "rc_recording (sw_rec s)" "rc_player (sw_rec s)" using assms(1) by (simp_all add: isRecording_def)
  have "isRecording (sw_rec t) \<and> rc_stopped (sw_rec t) = rc_stopped (sw_rec s) @ [rc_outputPath (sw_rec s)]"
    if act: "actionScreenRecord E s' = (Inr r, t)" for r t
  proof -
    let ?r = "startRecord (sv_rec E) (setWindowId (sv_winId E) (stopStream (sw_rec s)))"
    have "sw_rec t = ?r"
      using act unfolding eq actionScreenRecord_def Let_def
      by (auto simp: thenS_def bindS_def on_spm_def updateRecordingStatus_def split: prod.splits sum.splits)
    then show ?thesis using rec assms(2) by (simp add: isRecording_def rec_defs)
  qed
  moreover have "\<not> isRecording (sw_rec s')" "sw_pm s' = sw_pm s" "sw_indicator s' = sw_indicator s"
    "rc_stopped (sw_rec s') = rc_stopped (sw_rec s)"
    by (simp add: eq, simp_all add: eq upd_rec_def rec_defs)
  ultimately show ?thesis by blast
qed

end
