(* ===== verification/WindowLayout.thy ===== *)
theory WindowLayout
  imports WindowNames
begin

text \<open>
  The geometry of the main window, \<^verbatim>\<open>SharedPainter.h\<close> and \<^verbatim>\<open>.cpp\<close>: the sizes of the window, its splitter and
  the canvas and the position of the scroll bars, which the users of a drawing share.  What the user
  changes is told to the manager, what the manager reports is applied; three flags keep the window from
  telling what it has just been told.
\<close>

section \<open>State\<close>

text \<open>
  What the manager is told; the manager is asked in \<open>tell\<close>, and \<open>lw_told\<close> notes it.  \<open>lw_window\<close> is the size of
  the window and \<open>lw_laidOut\<close> the one its contents were last laid out for: Qt lays out a window that is not
  visible, and gives it its resize event (\<open>lw_pendingResize\<close>), when it is about to be shown.
\<close>

datatype layout_tell = Tell_Scroll int int | Tell_Canvas int int | Tell_Window int int | Tell_Splitter "int list"

record layout_window =
  lw_pm :: paint_manager
  lw_syncWindowSize :: bool
  lw_modifiedFlag :: bool
  lw_firstShow :: bool
  lw_changeScrollPosFreezingFlag :: bool
  lw_resizeFreezingFlag :: bool
  lw_resizeSplitterFreezingFlag :: bool
  lw_visible :: bool
  lw_pendingResize :: bool
  lw_window :: "int \<times> int"
  lw_laidOut :: "int \<times> int"
  lw_splitter :: "int list"
  lw_scene :: "int \<times> int"
  lw_scroll :: "int \<times> int"
  lw_told :: "layout_tell list"

text \<open>
  Qt's layout: the size of the view in a window of a given size with given splitter sizes; the sizes a
  splitter takes when it is given some; and the position nearest to a wanted one that the scroll bars
  allow, for a view and a scene of given sizes.
\<close>

record layout_env =
  ly_view :: "int \<times> int \<Rightarrow> int list \<Rightarrow> int \<times> int"
  ly_sizes :: "int \<times> int \<Rightarrow> int list \<Rightarrow> int list"
  ly_fit :: "int \<times> int \<Rightarrow> int \<times> int \<Rightarrow> int \<times> int \<Rightarrow> int \<times> int"

type_synonym 'a lw = "(layout_window, 'a) meth"

definition DEFAULT_INITIAL_CHATWINDOW_SIZE :: int where
  "DEFAULT_INITIAL_CHATWINDOW_SIZE = 240"

definition view_size :: "layout_env \<Rightarrow> layout_window \<Rightarrow> int \<times> int" where
  "view_size E s = ly_view E (lw_laidOut s) (lw_splitter s)"

definition ask_manager :: "layout_tell \<Rightarrow> int pm" where
  "ask_manager t = (case t of
     Tell_Scroll h v \<Rightarrow> notifyChangeCanvasScrollPos (of_int h) (of_int v)
   | Tell_Canvas w h \<Rightarrow> notifyResizingCanvas (of_int w) (of_int h)
   | Tell_Window w h \<Rightarrow> notifyResizingMainWindow (of_int w) (of_int h)
   | Tell_Splitter sizes \<Rightarrow> notifyResizingWindowSplitter (map of_int sizes))"

definition tell :: "layout_tell \<Rightarrow> unit lw" where
  "tell t s = (case ask_manager t (lw_pm s) of (r, p) \<Rightarrow>
     (case r of Inl err \<Rightarrow> Inl err | Inr i \<Rightarrow> Inr (), s\<lparr>lw_pm := p, lw_told := lw_told s @ [t]\<rparr>))"

section \<open>Scroll bars\<close>

definition onPaintViewVScrollBarChanged :: "int \<Rightarrow> unit lw" where
  "onPaintViewVScrollBarChanged value s =
     (if lw_syncWindowSize s \<and> \<not> lw_changeScrollPosFreezingFlag s then tell (Tell_Scroll (fst (lw_scroll s)) value) s
      else (Inr (), s))"

definition onPaintViewHScrollBarChanged :: "int \<Rightarrow> unit lw" where
  "onPaintViewHScrollBarChanged value s =
     (if lw_syncWindowSize s \<and> \<not> lw_changeScrollPosFreezingFlag s then tell (Tell_Scroll value (snd (lw_scroll s))) s
      else (Inr (), s))"

text \<open>A bar that is given a value, or whose range changes, reports a value that differs from the one it had.\<close>

definition setValue_H :: "layout_env \<Rightarrow> int \<Rightarrow> unit lw" where
  "setValue_H E h s =
     (let h' = fst (ly_fit E (view_size E s) (lw_scene s) (h, snd (lw_scroll s))) in
      if h' = fst (lw_scroll s) then (Inr (), s)
      else onPaintViewHScrollBarChanged h' (s\<lparr>lw_scroll := (h', snd (lw_scroll s))\<rparr>))"

definition setValue_V :: "layout_env \<Rightarrow> int \<Rightarrow> unit lw" where
  "setValue_V E v s =
     (let v' = snd (ly_fit E (view_size E s) (lw_scene s) (fst (lw_scroll s), v)) in
      if v' = snd (lw_scroll s) then (Inr (), s)
      else onPaintViewVScrollBarChanged v' (s\<lparr>lw_scroll := (fst (lw_scroll s), v')\<rparr>))"

definition fit_bars :: "layout_env \<Rightarrow> unit lw" where
  "fit_bars E s = thenS (setValue_H E (fst (lw_scroll s))) (\<lambda>s. setValue_V E (snd (lw_scroll s)) s) s"

definition setSceneRect :: "layout_env \<Rightarrow> int \<Rightarrow> int \<Rightarrow> unit lw" where
  "setSceneRect E w h s = (if (w, h) = lw_scene s then (Inr (), s) else fit_bars E (s\<lparr>lw_scene := (w, h)\<rparr>))"

section \<open>What the user changes\<close>

definition resizeEvent :: "layout_env \<Rightarrow> unit lw" where
  "resizeEvent E s =
     (let (w, h) = view_size E s; (sw, sh) = lw_scene s;
          sw = (if w > sw then w else sw); sh = (if h > sh then h else sh) in
      thenS (thenS (setSceneRect E sw sh) (tell (Tell_Canvas sw sh)))
        (\<lambda>s. if lw_syncWindowSize s \<and> \<not> lw_resizeFreezingFlag s
          then tell (Tell_Window (fst (lw_window s)) (snd (lw_window s))) s else (Inr (), s)) s)"

text \<open>
  \<^verbatim>\<open>resize\<close>.  Qt lays a visible window out before the window itself sees its new size; one that is hidden
  only takes the size.
\<close>

definition resize_window :: "layout_env \<Rightarrow> int \<Rightarrow> int \<Rightarrow> unit lw" where
  "resize_window E w h s =
     (if (w, h) = lw_window s then (Inr (), s)
      else if lw_visible s then thenS (fit_bars E) (resizeEvent E) (s\<lparr>lw_window := (w, h), lw_laidOut := (w, h)\<rparr>)
      else (Inr (), s\<lparr>lw_window := (w, h), lw_pendingResize := True\<rparr>))"

definition splitterMoved :: "layout_env \<Rightarrow> unit lw" where
  "splitterMoved E s =
     thenS (\<lambda>s. if lw_syncWindowSize s \<and> \<not> lw_resizeSplitterFreezingFlag s then tell (Tell_Splitter (lw_splitter s)) s else (Inr (), s))
       (\<lambda>s. let prevFlag = lw_resizeFreezingFlag s in
          thenS (resizeEvent E) (updS (\<lambda>s. s\<lparr>lw_resizeFreezingFlag := prevFlag\<rparr>)) (s\<lparr>lw_resizeFreezingFlag := True\<rparr>)) s"

definition move_splitter :: "layout_env \<Rightarrow> int list \<Rightarrow> unit lw" where
  "move_splitter E xs s = thenS (fit_bars E) (splitterMoved E) (s\<lparr>lw_splitter := xs\<rparr>)"

definition showEvent :: "layout_env \<Rightarrow> unit lw" where
  "showEvent E s =
     (let (w, h) = view_size E s in
      thenS (setSceneRect E w h)
        (\<lambda>s. if lw_firstShow s
          then (let s = s\<lparr>lw_splitter := ly_sizes E (lw_window s) [DEFAULT_INITIAL_CHATWINDOW_SIZE, fst (lw_window s) - DEFAULT_INITIAL_CHATWINDOW_SIZE]\<rparr> in
            thenS (fit_bars E)
              (\<lambda>s. let s = s\<lparr>lw_firstShow := False\<rparr>; (w, h) = view_size E s in
                thenS (setSceneRect E w h) (tell (Tell_Canvas w h)) s) s)
          else (Inr (), s)) s)"

text \<open>The window goes to the tray in \<^verbatim>\<open>closeEvent\<close>, and comes back; what has been put off is made up for first.\<close>

definition hide_main :: "layout_window \<Rightarrow> layout_window" where
  "hide_main s = s\<lparr>lw_visible := False\<rparr>"

definition show_main :: "layout_env \<Rightarrow> unit lw" where
  "show_main E s =
     (if lw_visible s then (Inr (), s)
      else thenS (fit_bars E)
        (thenS (\<lambda>s. if lw_pendingResize s then resizeEvent E (s\<lparr>lw_pendingResize := False\<rparr>) else (Inr (), s)) (showEvent E))
        (s\<lparr>lw_visible := True, lw_laidOut := lw_window s\<rparr>))"

section \<open>What the manager reports\<close>

definition onResizeMainWindow :: "layout_env \<Rightarrow> int \<Rightarrow> int \<Rightarrow> unit lw" where
  "onResizeMainWindow E w h s =
     (let s = s\<lparr>lw_modifiedFlag := True\<rparr> in
      if \<not> lw_syncWindowSize s then (Inr (), s)
      else thenS (resize_window E w h) (updS (\<lambda>s. s\<lparr>lw_resizeFreezingFlag := False\<rparr>)) (s\<lparr>lw_resizeFreezingFlag := True\<rparr>))"

definition onResizeCanvas :: "layout_env \<Rightarrow> int \<Rightarrow> int \<Rightarrow> unit lw" where
  "onResizeCanvas E w h s = setSceneRect E w h (s\<lparr>lw_modifiedFlag := True\<rparr>)"

definition onChangeCanvasScrollPos :: "layout_env \<Rightarrow> int \<Rightarrow> int \<Rightarrow> unit lw" where
  "onChangeCanvasScrollPos E h v s =
     (let s = s\<lparr>lw_modifiedFlag := True\<rparr> in
      if \<not> lw_syncWindowSize s then (Inr (), s)
      else thenS (thenS (setValue_H E h) (setValue_V E v)) (updS (\<lambda>s. s\<lparr>lw_changeScrollPosFreezingFlag := False\<rparr>))
        (s\<lparr>lw_changeScrollPosFreezingFlag := True\<rparr>))"

definition onResizeWindowSplitter :: "layout_env \<Rightarrow> int list \<Rightarrow> unit lw" where
  "onResizeWindowSplitter E xs s =
     (let s = s\<lparr>lw_modifiedFlag := True\<rparr> in
      if \<not> lw_syncWindowSize s then (Inr (), s)
      else thenS (fit_bars E) (updS (\<lambda>s. s\<lparr>lw_resizeSplitterFreezingFlag := False\<rparr>))
        (s\<lparr>lw_resizeSplitterFreezingFlag := True, lw_splitter := ly_sizes E (lw_window s) xs\<rparr>))"

section \<open>What each operation tells\<close>

text \<open>All that the scroll bars and the canvas leave alone, and what an operation may tell.\<close>

definition fixed_part :: "layout_window \<Rightarrow> bool \<times> bool \<times> bool \<times> bool \<times> bool \<times> bool \<times> bool \<times> (int \<times> int) \<times> (int \<times> int) \<times> int list" where
  "fixed_part s = (lw_syncWindowSize s, lw_firstShow s, lw_changeScrollPosFreezingFlag s, lw_resizeFreezingFlag s,
     lw_resizeSplitterFreezingFlag s, lw_visible s, lw_pendingResize s, lw_window s, lw_laidOut s, lw_splitter s)"

definition asked :: "layout_tell list \<Rightarrow> paint_manager \<Rightarrow> paint_manager" where
  "asked ts p = fold (\<lambda>t p. snd (ask_manager t p)) ts p"

definition tells :: "layout_tell list \<Rightarrow> layout_window \<Rightarrow> layout_window \<Rightarrow> bool" where
  "tells ts s s' \<longleftrightarrow> lw_told s' = lw_told s @ ts \<and> lw_pm s' = asked ts (lw_pm s)"

definition tells_only :: "(layout_tell \<Rightarrow> bool) \<Rightarrow> layout_window \<Rightarrow> layout_window \<Rightarrow> bool" where
  "tells_only P s s' \<longleftrightarrow> (\<exists>ts. tells ts s s' \<and> list_all P ts)"

lemma asked_simps [simp]: "asked [] p = p" "asked [t] p = snd (ask_manager t p)" "asked (ts @ us) p = asked us (asked ts p)"
  by (simp_all add: asked_def)

lemma tells_trans: "tells ts s s' \<Longrightarrow> tells us s' s'' \<Longrightarrow> tells (ts @ us) s s''"
  by (simp add: tells_def)

definition is_scroll :: "layout_tell \<Rightarrow> bool" where
  "is_scroll t = (case t of Tell_Scroll h v \<Rightarrow> True | _ \<Rightarrow> False)"

lemma tells_only_refl [simp]: "lw_told s' = lw_told s \<Longrightarrow> lw_pm s' = lw_pm s \<Longrightarrow> tells_only P s s'"
  unfolding tells_only_def tells_def by (intro exI [of _ "[]"]) simp

lemma tells_only_trans: "tells_only P s s' \<Longrightarrow> tells_only P s' s'' \<Longrightarrow> tells_only P s s''"
  unfolding tells_only_def by (metis list_all_append tells_trans)

lemma tells_only_weaken: "tells_only P s s' \<Longrightarrow> (\<And>t. P t \<Longrightarrow> Q t) \<Longrightarrow> tells_only Q s s'"
  by (auto simp: tells_only_def list_all_iff)

lemma thenS_cases:
  assumes "thenS m k s = (Inr a, s')"
  obtains b t where "m s = (Inr b, t)" "k t = (Inr a, s')"
  using assms by (auto simp: thenS_def bindS_def split: prod.splits sum.splits)

lemma tell_facts:
  assumes "tell t s = (r, s')"
  shows "fixed_part s' = fixed_part s" "lw_scene s' = lw_scene s" "lw_scroll s' = lw_scroll s" "lw_told s' = lw_told s @ [t]"
    "lw_pm s' = snd (ask_manager t (lw_pm s))" "tells [t] s s'"
  using assms by (auto simp: tell_def tells_def fixed_part_def split: prod.splits)

text \<open>Sending leaves the sizes alone that the manager keeps.\<close>

definition sizes :: "paint_manager \<Rightarrow> (32 word \<times> 32 word) \<times> (32 word \<times> 32 word)" where
  "sizes p = (pm_canvasSize p, pm_windowSize p)"

lemma sizes_updates [simp]:
  "sizes (p\<lparr>pm_PACKETID := a\<rparr>) = sizes p" "sizes (p\<lparr>pm_sendInfo := b\<rparr>) = sizes p" "sizes (p\<lparr>pm_lastPacketId := a\<rparr>) = sizes p"
  "sizes (p\<lparr>pm_sessions := d\<rparr>) = sizes p" "sizes (p\<lparr>pm_scrollPos := x\<rparr>) = sizes p"
  by (simp_all add: sizes_def)

lemma sizes_on_peer: "sizes p = c \<Longrightarrow> sizes (snd (on_peer i m p)) = c"
  by (auto simp: on_peer_def split: option.split prod.split)

lemma sizes_send_all: "sizes p = c \<Longrightarrow> sizes (snd (send_all ids k msg p)) = c"
  unfolding send_all_def
  by (intro keep_bindS [of "\<lambda>p. sizes p = c"] keep_mapS [of "\<lambda>p. sizes p = c"] sizes_on_peer) (simp_all add: returnS_def)

lemma sizes_sendDataToSessions: "sizes p = c \<Longrightarrow> sizes (snd (sendDataToSessions ids msg t p)) = c"
  unfolding sendDataToSessions_def Let_def
  by (simp split: if_split, intro impI conjI keep_bindS [of "\<lambda>p. sizes p = c"] sizes_send_all) (simp_all add: returnS_def)

lemma sizes_sendDataToUsers [simp]: "sizes (snd (sendDataToUsers msg p)) = sizes p"
  by (auto simp: sendDataToUsers_def sendDataToUsers_to_def intro!: sizes_sendDataToSessions)

lemma bar_facts:
  assumes "onPaintViewVScrollBarChanged value s = (r, s') \<or> onPaintViewHScrollBarChanged value s = (r, s')"
  shows "fixed_part s' = fixed_part s" "lw_scene s' = lw_scene s" "lw_scroll s' = lw_scroll s" "tells_only is_scroll s s'"
    "sizes (lw_pm s') = sizes (lw_pm s)"
proof -
  consider "s' = s" | h v where "tell (Tell_Scroll h v) s = (r, s')"
    using assms by (auto simp: onPaintViewVScrollBarChanged_def onPaintViewHScrollBarChanged_def split: if_splits)
  then have all: "fixed_part s' = fixed_part s \<and> lw_scene s' = lw_scene s \<and> lw_scroll s' = lw_scroll s \<and> tells_only is_scroll s s'
      \<and> sizes (lw_pm s') = sizes (lw_pm s)"
  proof cases
    case 1
    then show ?thesis by simp
  next
    case 2
    have "sizes (p\<lparr>pm_scrollPos := x\<rparr>) = sizes p" for x p by (simp add: sizes_def)
    then show ?thesis
      using tell_facts(1-5) [OF 2] tell_facts(6) [OF 2] unfolding tells_only_def
      by (intro conjI exI [of _ "[Tell_Scroll h v]"]) (simp_all add: is_scroll_def ask_manager_def
        notifyChangeCanvasScrollPos_def thenS_def bindS_def updS_def)
  qed
  then show "fixed_part s' = fixed_part s" "lw_scene s' = lw_scene s" "lw_scroll s' = lw_scroll s" "tells_only is_scroll s s'"
    "sizes (lw_pm s') = sizes (lw_pm s)" by blast+
qed

text \<open>What the bars leave alone, as one relation.\<close>

definition bars_only :: "layout_window \<Rightarrow> layout_window \<Rightarrow> bool" where
  "bars_only s s' \<longleftrightarrow> fixed_part s' = fixed_part s \<and> lw_scene s' = lw_scene s \<and> tells_only is_scroll s s'
     \<and> sizes (lw_pm s') = sizes (lw_pm s)
     \<and> (lw_changeScrollPosFreezingFlag s \<longrightarrow> lw_told s' = lw_told s \<and> lw_pm s' = lw_pm s)"

lemma bars_only_refl [simp]: "bars_only s s"
  by (simp add: bars_only_def)

lemma bars_only_trans: "bars_only s s' \<Longrightarrow> bars_only s' s'' \<Longrightarrow> bars_only s s''"
  by (auto simp: bars_only_def fixed_part_def intro: tells_only_trans)

lemma setValue_H_bars:
  assumes "setValue_H E x s = (r, s')"
  shows "bars_only s s'"
proof -
  define y where "y = fst (ly_fit E (view_size E s) (lw_scene s) (x, snd (lw_scroll s)))"
  define t where "t = s\<lparr>lw_scroll := (y, snd (lw_scroll s))\<rparr>"
  have eq: "setValue_H E x s = (if y = fst (lw_scroll s) then (Inr (), s) else onPaintViewHScrollBarChanged y t)"
    by (simp only: setValue_H_def Let_def y_def t_def)
  show ?thesis
  proof (cases "y = fst (lw_scroll s)")
    case True
    then have "s' = s" using assms eq by simp
    then show ?thesis by simp
  next
    case False
    then have m: "onPaintViewHScrollBarChanged y t = (r, s')" using assms eq by simp
    then have "lw_changeScrollPosFreezingFlag t \<longrightarrow> s' = t" by (simp add: onPaintViewHScrollBarChanged_def split: if_splits)
    moreover have "fixed_part t = fixed_part s" "lw_scene t = lw_scene s" "lw_told t = lw_told s" "lw_pm t = lw_pm s"
      "lw_changeScrollPosFreezingFlag t = lw_changeScrollPosFreezingFlag s" by (simp_all add: t_def fixed_part_def)
    moreover note bar_facts [OF disjI2 [OF m]]
    ultimately show ?thesis by (simp add: bars_only_def tells_only_def tells_def)
  qed
qed

lemma setValue_V_bars:
  assumes "setValue_V E x s = (r, s')"
  shows "bars_only s s'"
proof -
  define y where "y = snd (ly_fit E (view_size E s) (lw_scene s) (fst (lw_scroll s), x))"
  define t where "t = s\<lparr>lw_scroll := (fst (lw_scroll s), y)\<rparr>"
  have eq: "setValue_V E x s = (if y = snd (lw_scroll s) then (Inr (), s) else onPaintViewVScrollBarChanged y t)"
    by (simp only: setValue_V_def Let_def y_def t_def)
  show ?thesis
  proof (cases "y = snd (lw_scroll s)")
    case True
    then have "s' = s" using assms eq by simp
    then show ?thesis by simp
  next
    case False
    then have m: "onPaintViewVScrollBarChanged y t = (r, s')" using assms eq by simp
    then have "lw_changeScrollPosFreezingFlag t \<longrightarrow> s' = t" by (simp add: onPaintViewVScrollBarChanged_def split: if_splits)
    moreover have "fixed_part t = fixed_part s" "lw_scene t = lw_scene s" "lw_told t = lw_told s" "lw_pm t = lw_pm s"
      "lw_changeScrollPosFreezingFlag t = lw_changeScrollPosFreezingFlag s" by (simp_all add: t_def fixed_part_def)
    moreover note bar_facts [OF disjI1 [OF m]]
    ultimately show ?thesis by (simp add: bars_only_def tells_only_def tells_def)
  qed
qed

lemma fit_bars_only:
  assumes "fit_bars E s = (Inr a, s')"
  shows "bars_only s s'"
  using assms unfolding fit_bars_def
  by (elim thenS_cases) (rule bars_only_trans [OF setValue_H_bars setValue_V_bars])

lemma setSceneRect_facts:
  assumes "setSceneRect E w h s = (Inr a, s')"
  shows "fixed_part s' = fixed_part s" "lw_scene s' = (w, h)" "tells_only is_scroll s s'" "sizes (lw_pm s') = sizes (lw_pm s)"
proof -
  have "fixed_part s' = fixed_part s \<and> lw_scene s' = (w, h) \<and> tells_only is_scroll s s' \<and> sizes (lw_pm s') = sizes (lw_pm s)"
  proof (cases "lw_scene s = (w, h)")
    case True
    then have "s' = s" using assms by (simp add: setSceneRect_def)
    then show ?thesis using True by simp
  next
    case False
    then have "fit_bars E (s\<lparr>lw_scene := (w, h)\<rparr>) = (Inr a, s')" using assms by (simp add: setSceneRect_def split: if_split_asm)
    from fit_bars_only [OF this] show ?thesis by (simp add: bars_only_def fixed_part_def tells_only_def tells_def)
  qed
  then show "fixed_part s' = fixed_part s" "lw_scene s' = (w, h)" "tells_only is_scroll s s'" "sizes (lw_pm s') = sizes (lw_pm s)"
    by blast+
qed

text \<open>What a resize tells: where the bars went, the size of the canvas, and, unless it is frozen, that of the window.\<close>

definition tells_window :: "layout_window \<Rightarrow> layout_tell list" where
  "tells_window s =
     (if lw_syncWindowSize s \<and> \<not> lw_resizeFreezingFlag s then [Tell_Window (fst (lw_window s)) (snd (lw_window s))] else [])"

lemma resizeEvent_facts:
  assumes "resizeEvent E s = (Inr a, s')"
  shows "\<exists>ts. list_all is_scroll ts \<and> tells (ts @ Tell_Canvas (fst (lw_scene s')) (snd (lw_scene s')) # tells_window s) s s'"
    and "fixed_part s' = fixed_part s"
    and "lw_scene s' = (max (fst (view_size E s)) (fst (lw_scene s)), max (snd (view_size E s)) (snd (lw_scene s)))"
    and "pm_canvasSize (lw_pm s') = (of_int (fst (lw_scene s')), of_int (snd (lw_scene s')))"
proof -
  let ?w = "max (fst (view_size E s)) (fst (lw_scene s))" and ?h = "max (snd (view_size E s)) (snd (lw_scene s))"
  let ?on = "lw_syncWindowSize s \<and> \<not> lw_resizeFreezingFlag s"
  have mx: "(if a > b then a else b) = max a b" for a b :: int by (simp add: max_def)
  obtain t u b c where t: "setSceneRect E ?w ?h s = (Inr b, t)" and u: "tell (Tell_Canvas ?w ?h) t = (Inr c, u)"
    and end': "(if lw_syncWindowSize u \<and> \<not> lw_resizeFreezingFlag u
        then tell (Tell_Window (fst (lw_window u)) (snd (lw_window u))) u else (Inr (), u)) = (Inr a, s')"
    using assms unfolding resizeEvent_def Let_def case_prod_beta mx by (elim thenS_cases) blast
  note T = setSceneRect_facts [OF t] and U = tell_facts [OF u]
  have fu: "fixed_part u = fixed_part s" using T(1) U(1) by simp
  then have same: "lw_syncWindowSize u = lw_syncWindowSize s" "lw_resizeFreezingFlag u = lw_resizeFreezingFlag s" "lw_window u = lw_window s"
    by (simp_all add: fixed_part_def)
  have cu: "pm_canvasSize (lw_pm u) = (of_int ?w, of_int ?h)"
  proof -
    have "lw_pm u = snd (sendDataToUsers (make_ResizeCanvas (of_int ?w) (of_int ?h) None) ((lw_pm t)\<lparr>pm_canvasSize := (of_int ?w, of_int ?h)\<rparr>))"
      using U(5) by (simp add: ask_manager_def notifyResizingCanvas_def thenS_def bindS_def updS_def)
    moreover have "sizes (snd (sendDataToUsers (make_ResizeCanvas (of_int ?w) (of_int ?h) None) ((lw_pm t)\<lparr>pm_canvasSize := (of_int ?w, of_int ?h)\<rparr>)))
        = sizes ((lw_pm t)\<lparr>pm_canvasSize := (of_int ?w, of_int ?h)\<rparr>)" by simp
    ultimately show ?thesis by (simp add: sizes_def)
  qed
  have rest: "fixed_part s' = fixed_part u \<and> lw_scene s' = lw_scene u \<and> pm_canvasSize (lw_pm s') = pm_canvasSize (lw_pm u)
      \<and> tells (tells_window s) u s'"
  proof (cases ?on)
    case True
    then have v: "tell (Tell_Window (fst (lw_window s)) (snd (lw_window s))) u = (Inr a, s')" using end' same by simp
    have "lw_pm s' = snd (sendDataToUsers (make_ResizeMainWindow (of_int (fst (lw_window s))) (of_int (snd (lw_window s))) None)
        ((lw_pm u)\<lparr>pm_windowSize := (of_int (fst (lw_window s)), of_int (snd (lw_window s)))\<rparr>))" (is "_ = ?p")
      using tell_facts(5) [OF v] by (simp add: ask_manager_def notifyResizingMainWindow_def thenS_def bindS_def updS_def)
    moreover have "sizes ?p = (pm_canvasSize (lw_pm u), (of_int (fst (lw_window s)), of_int (snd (lw_window s))))"
      by (simp only: sizes_sendDataToUsers) (simp add: sizes_def)
    ultimately have "pm_canvasSize (lw_pm s') = pm_canvasSize (lw_pm u)" by (simp add: sizes_def)
    then show ?thesis using tell_facts [OF v] True by (simp add: tells_window_def)
  next
    case False
    then show ?thesis using end' same by (auto simp: tells_window_def tells_def)
  qed
  show "fixed_part s' = fixed_part s" "lw_scene s' = (?w, ?h)" using rest fu T(2) U(2) by simp_all
  then show "pm_canvasSize (lw_pm s') = (of_int (fst (lw_scene s')), of_int (snd (lw_scene s')))" using rest cu by simp
  from T(3) obtain ts where ts: "tells ts s t" "list_all is_scroll ts" by (auto simp: tells_only_def)
  from tells_trans [OF tells_trans [OF ts(1) U(6)], of "tells_window s" s'] rest
  have "tells (ts @ Tell_Canvas ?w ?h # tells_window s) s s'" by simp
  with ts(2) \<open>lw_scene s' = (?w, ?h)\<close>
  show "\<exists>ts. list_all is_scroll ts \<and> tells (ts @ Tell_Canvas (fst (lw_scene s')) (snd (lw_scene s')) # tells_window s) s s'"
    by auto
qed

lemma showEvent_tells:
  assumes "showEvent E s = (Inr a, s')"
  shows "\<exists>vs. lw_told s' = lw_told s @ vs"
proof -
  have scene: "\<exists>vs. lw_told t = lw_told s @ vs" if "setSceneRect E w h s = (Inr b, t)" for w h b s t
    using setSceneRect_facts(3) [OF that] by (auto simp: tells_only_def tells_def)
  have bars: "\<exists>vs. lw_told t = lw_told s @ vs" if "fit_bars E s = (Inr b, t)" for b s t
    using fit_bars_only [OF that] by (auto simp: bars_only_def tells_only_def tells_def)
  obtain b t where t: "setSceneRect E (fst (view_size E s)) (snd (view_size E s)) s = (Inr b, t)"
    and k: "(if lw_firstShow t then thenS (fit_bars E)
              (\<lambda>s. let s = s\<lparr>lw_firstShow := False\<rparr>; (w, h) = view_size E s in
                thenS (setSceneRect E w h) (tell (Tell_Canvas w h)) s)
              (t\<lparr>lw_splitter := ly_sizes E (lw_window t) [DEFAULT_INITIAL_CHATWINDOW_SIZE, fst (lw_window t) - DEFAULT_INITIAL_CHATWINDOW_SIZE]\<rparr>)
          else (Inr (), t)) = (Inr a, s')"
    using assms unfolding showEvent_def Let_def case_prod_beta by (elim thenS_cases) blast
  note first = scene [OF t]
  show ?thesis
  proof (cases "lw_firstShow t")
    case False
    then show ?thesis using k first by simp
  next
    case True
    then obtain c u d v where u: "fit_bars E (t\<lparr>lw_splitter := ly_sizes E (lw_window t) [DEFAULT_INITIAL_CHATWINDOW_SIZE, fst (lw_window t) - DEFAULT_INITIAL_CHATWINDOW_SIZE]\<rparr>) = (Inr c, u)"
      and v: "setSceneRect E (fst (view_size E (u\<lparr>lw_firstShow := False\<rparr>))) (snd (view_size E (u\<lparr>lw_firstShow := False\<rparr>))) (u\<lparr>lw_firstShow := False\<rparr>) = (Inr d, v)"
      and w: "tell (Tell_Canvas (fst (view_size E (u\<lparr>lw_firstShow := False\<rparr>))) (snd (view_size E (u\<lparr>lw_firstShow := False\<rparr>)))) v = (Inr a, s')"
      using k unfolding Let_def case_prod_beta by (auto elim!: thenS_cases)
    from first bars [OF u] scene [OF v] tell_facts(4) [OF w] show ?thesis by auto
  qed
qed

section \<open>The canvas covers the view\<close>

text \<open>The manager keeps a size of the canvas, or of the window, and sends it to the others.\<close>

definition canvas_sent :: "32 word \<Rightarrow> 32 word \<Rightarrow> paint_manager \<Rightarrow> paint_manager" where
  "canvas_sent w h p = snd (sendDataToUsers (make_ResizeCanvas w h None) (p\<lparr>pm_canvasSize := (w, h)\<rparr>))"

definition window_sent :: "32 word \<Rightarrow> 32 word \<Rightarrow> paint_manager \<Rightarrow> paint_manager" where
  "window_sent w h p = snd (sendDataToUsers (make_ResizeMainWindow w h None) (p\<lparr>pm_windowSize := (w, h)\<rparr>))"

lemma asked_sizes:
  "snd (ask_manager (Tell_Canvas w h) p) = canvas_sent (of_int w) (of_int h) p"
  "snd (ask_manager (Tell_Window w h) p) = window_sent (of_int w) (of_int h) p"
  by (simp_all add: ask_manager_def notifyResizingCanvas_def notifyResizingMainWindow_def canvas_sent_def window_sent_def
      thenS_def bindS_def updS_def)

text \<open>C28: After a resize the canvas covers the view: it is as large as the view in each direction and as large as it
  was before, and no larger than one of them.  The manager is first asked for the positions of scroll bars
  that had to move, at most; then it keeps just the new size of the canvas and sends the packet with it to
  the others, always; and the packet with the size of the window only when it is shared and does not come
  from the manager.  Another resize event leaves the canvas as it is (and sends its size again).\<close>

theorem resized_canvas_covers_view:
  assumes "resizeEvent E s = (Inr (), s')"
  shows "lw_scene s' = (max (fst (view_size E s)) (fst (lw_scene s)), max (snd (view_size E s)) (snd (lw_scene s)))
    \<and> fst (view_size E s') \<le> fst (lw_scene s') \<and> snd (view_size E s') \<le> snd (lw_scene s')
    \<and> pm_canvasSize (lw_pm s') = (of_int (fst (lw_scene s')), of_int (snd (lw_scene s')))
    \<and> (\<exists>ts. list_all is_scroll ts
        \<and> (let p = canvas_sent (of_int (fst (lw_scene s'))) (of_int (snd (lw_scene s'))) (asked ts (lw_pm s)) in
            lw_pm s' = (if lw_syncWindowSize s \<and> \<not> lw_resizeFreezingFlag s
              then window_sent (of_int (fst (lw_window s))) (of_int (snd (lw_window s))) p else p)))
    \<and> (\<forall>s''. resizeEvent E s' = (Inr (), s'') \<longrightarrow> lw_scene s'' = lw_scene s')"
proof -
  note f = resizeEvent_facts [OF assms]
  have v: "view_size E s' = view_size E s" using f(2) by (simp add: view_size_def fixed_part_def)
  have "lw_scene s'' = lw_scene s'" if "resizeEvent E s' = (Inr (), s'')" for s''
    using resizeEvent_facts(3) [OF that] f(3) v by (simp add: prod_eq_iff)
  moreover from f(1) obtain ts where "list_all is_scroll ts"
    and ts: "tells (ts @ Tell_Canvas (fst (lw_scene s')) (snd (lw_scene s')) # tells_window s) s s'" by blast
  moreover have "lw_pm s' = asked (tells_window s)
      (snd (ask_manager (Tell_Canvas (fst (lw_scene s')) (snd (lw_scene s'))) (asked ts (lw_pm s))))"
    using ts by (simp add: tells_def asked_def)
  ultimately show ?thesis using f(3,4) v
    by (intro conjI exI [of _ ts]) (simp_all add: tells_window_def asked_sizes Let_def)
qed

section \<open>What is reported is not told again\<close>

lemma resize_window_facts:
  assumes "resize_window E w h s = (Inr (), s')" and "lw_resizeFreezingFlag s" and "lw_visible s"
  shows "\<exists>ts us. list_all is_scroll ts \<and> tells (ts @ us) s s' \<and> us \<in> {[], [Tell_Canvas (fst (lw_scene s')) (snd (lw_scene s'))]}"
proof (cases "(w, h) = lw_window s")
  case True
  then have "s' = s" using assms(1) by (simp add: resize_window_def)
  then show ?thesis by (intro exI [of _ "[]"]) (simp add: tells_def)
next
  case False
  let ?s = "s\<lparr>lw_window := (w, h), lw_laidOut := (w, h)\<rparr>"
  obtain t where t: "fit_bars E ?s = (Inr (), t)" "resizeEvent E t = (Inr (), s')"
    using assms(1,3) False unfolding resize_window_def by (auto elim: thenS_cases)
  have b: "bars_only ?s t" by (rule fit_bars_only [OF t(1)])
  then have "tells_window t = []" using assms(2) by (simp add: bars_only_def fixed_part_def tells_window_def)
  with resizeEvent_facts(1) [OF t(2)] obtain us where us: "list_all is_scroll us"
    "tells (us @ [Tell_Canvas (fst (lw_scene s')) (snd (lw_scene s'))]) t s'" by auto
  from b obtain ts where "tells ts ?s t" and ts: "list_all is_scroll ts" by (auto simp: bars_only_def tells_only_def)
  then have "tells ts s t" by (simp add: tells_def)
  from tells_trans [OF this us(2)] ts us(1)
  have "list_all is_scroll (ts @ us) \<and> tells ((ts @ us) @ [Tell_Canvas (fst (lw_scene s')) (snd (lw_scene s'))]) s s'" by simp
  then show ?thesis by blast
qed

text \<open>C27: What is reported is not told again, while the window is visible.  A scroll position that the manager reports is
  applied without telling the manager anything; a size of the window is answered at most by the size of
  the canvas, never by that of the window, and sizes of the splitter are not answered by sizes of the
  splitter; besides these only scroll positions are told, where the scroll bars had to move.  A hidden
  window takes a size of the window without telling anything (until it is shown again).  A window that
  does not share its geometry applies none of the three and tells nothing.\<close>

theorem reported_layout_not_echoed:
  "(onChangeCanvasScrollPos E h v s = (Inr (), s1) \<longrightarrow> lw_told s1 = lw_told s \<and> lw_pm s1 = lw_pm s)
    \<and> (onResizeMainWindow E w k s = (Inr (), s2) \<longrightarrow> lw_visible s \<longrightarrow>
      (\<exists>ts us. list_all is_scroll ts \<and> tells (ts @ us) s s2 \<and> us \<in> {[], [Tell_Canvas (fst (lw_scene s2)) (snd (lw_scene s2))]}))
    \<and> (onResizeMainWindow E w k s = (Inr (), s2) \<longrightarrow> \<not> lw_visible s \<longrightarrow> tells [] s s2)
    \<and> (onResizeWindowSplitter E xs s = (Inr (), s3) \<longrightarrow> tells_only is_scroll s s3)
    \<and> (\<not> lw_syncWindowSize s \<longrightarrow> onChangeCanvasScrollPos E h v s = (Inr (), s\<lparr>lw_modifiedFlag := True\<rparr>)
      \<and> onResizeMainWindow E w k s = (Inr (), s\<lparr>lw_modifiedFlag := True\<rparr>)
      \<and> onResizeWindowSplitter E xs s = (Inr (), s\<lparr>lw_modifiedFlag := True\<rparr>))"
proof (intro conjI impI)
  have scrolled: "lw_told s1 = lw_told s \<and> lw_pm s1 = lw_pm s" if "onChangeCanvasScrollPos E h v s = (Inr (), s1)"
  proof (cases "lw_syncWindowSize s")
    case True
    let ?s = "s\<lparr>lw_modifiedFlag := True, lw_changeScrollPosFreezingFlag := True\<rparr>"
    have "thenS (thenS (setValue_H E h) (setValue_V E v)) (updS (\<lambda>s. s\<lparr>lw_changeScrollPosFreezingFlag := False\<rparr>)) ?s = (Inr (), s1)"
      using that True by (simp add: onChangeCanvasScrollPos_def Let_def)
    then obtain t u a b where t: "setValue_H E h ?s = (Inr a, t)" and tu: "setValue_V E v t = (Inr b, u)" and u: "s1 = u\<lparr>lw_changeScrollPosFreezingFlag := False\<rparr>"
      by (elim thenS_cases) (auto simp: updS_def)
    have "bars_only ?s u" by (rule bars_only_trans [OF setValue_H_bars [OF t] setValue_V_bars [OF tu]])
    then show ?thesis using u by (simp add: bars_only_def)
  qed (use that in \<open>auto simp: onChangeCanvasScrollPos_def Let_def\<close>)
  then show "onChangeCanvasScrollPos E h v s = (Inr (), s1) \<Longrightarrow> lw_told s1 = lw_told s"
    "onChangeCanvasScrollPos E h v s = (Inr (), s1) \<Longrightarrow> lw_pm s1 = lw_pm s" by blast+
  have resized: "\<exists>t. resize_window E w k (s\<lparr>lw_modifiedFlag := True, lw_resizeFreezingFlag := True\<rparr>) = (Inr (), t)
      \<and> s2 = t\<lparr>lw_resizeFreezingFlag := False\<rparr>"
    if "onResizeMainWindow E w k s = (Inr (), s2)" "lw_syncWindowSize s"
  proof -
    have "thenS (resize_window E w k) (updS (\<lambda>s. s\<lparr>lw_resizeFreezingFlag := False\<rparr>))
        (s\<lparr>lw_modifiedFlag := True, lw_resizeFreezingFlag := True\<rparr>) = (Inr (), s2)"
      using that by (simp add: onResizeMainWindow_def Let_def)
    then show ?thesis by (elim thenS_cases) (simp add: updS_def)
  qed
  show "\<exists>ts us. list_all is_scroll ts \<and> tells (ts @ us) s s2 \<and> us \<in> {[], [Tell_Canvas (fst (lw_scene s2)) (snd (lw_scene s2))]}"
    if "onResizeMainWindow E w k s = (Inr (), s2)" "lw_visible s"
  proof (cases "lw_syncWindowSize s")
    case True
    from resized [OF that(1) True] obtain t where
      "resize_window E w k (s\<lparr>lw_modifiedFlag := True, lw_resizeFreezingFlag := True\<rparr>) = (Inr (), t)"
      "s2 = t\<lparr>lw_resizeFreezingFlag := False\<rparr>" by blast
    with resize_window_facts [of E w k "s\<lparr>lw_modifiedFlag := True, lw_resizeFreezingFlag := True\<rparr>" t] that(2)
    show ?thesis by (simp add: tells_def)
  next
    case False
    with that show ?thesis
      by (intro exI [of _ "[]"]) (auto simp: onResizeMainWindow_def Let_def tells_def)
  qed
  show "tells [] s s2" if "onResizeMainWindow E w k s = (Inr (), s2)" "\<not> lw_visible s"
    using resized [OF that(1)] that by (cases "lw_syncWindowSize s")
      (auto simp: resize_window_def tells_def onResizeMainWindow_def Let_def split: if_splits)
  show "tells_only is_scroll s s3" if "onResizeWindowSplitter E xs s = (Inr (), s3)"
  proof (cases "lw_syncWindowSize s")
    case True
    let ?s = "s\<lparr>lw_modifiedFlag := True, lw_resizeSplitterFreezingFlag := True, lw_splitter := ly_sizes E (lw_window s) xs\<rparr>"
    have "thenS (fit_bars E) (updS (\<lambda>s. s\<lparr>lw_resizeSplitterFreezingFlag := False\<rparr>)) ?s = (Inr (), s3)"
      using that True by (simp add: onResizeWindowSplitter_def Let_def)
    then obtain t where "fit_bars E ?s = (Inr (), t)" "s3 = t\<lparr>lw_resizeSplitterFreezingFlag := False\<rparr>"
      by (elim thenS_cases) (simp add: updS_def)
    with fit_bars_only [of E ?s] show ?thesis by (simp add: bars_only_def tells_only_def tells_def)
  qed (use that in \<open>auto simp: onResizeWindowSplitter_def Let_def\<close>)
qed (simp_all add: onChangeCanvasScrollPos_def onResizeMainWindow_def onResizeWindowSplitter_def Let_def)

section \<open>A window in the tray\<close>

text \<open>A hidden window sends a size that was reported back to everybody.  It takes the size while its flag is set, but the
  resize event comes only when it is shown again, and then the flag is reset.\<close>

lemma hidden_window_echoes:
  assumes "onResizeMainWindow E w k s = (Inr (), s1)" and "show_main E s1 = (Inr (), s2)"
    and hidden: "\<not> lw_visible s" and new: "(w, k) \<noteq> lw_window s" and sync: "lw_syncWindowSize s"
  shows "lw_window s1 = (w, k) \<and> tells [] s s1 \<and> Tell_Window w k \<in> set (drop (length (lw_told s1)) (lw_told s2))"
proof -
  have s1: "s\<lparr>lw_modifiedFlag := True, lw_window := (w, k), lw_pendingResize := True, lw_resizeFreezingFlag := False\<rparr> = s1"
    using assms(1) hidden new sync by (simp add: onResizeMainWindow_def resize_window_def thenS_def bindS_def updS_def Let_def)
  let ?t = "s1\<lparr>lw_visible := True, lw_laidOut := lw_window s1\<rparr>"
  have h: "\<not> lw_visible s1" using hidden by (simp add: s1 [symmetric])
  obtain a b u v where u: "fit_bars E ?t = (Inr a, u)"
    and v: "(if lw_pendingResize u then resizeEvent E (u\<lparr>lw_pendingResize := False\<rparr>) else (Inr (), u)) = (Inr b, v)"
    and w: "showEvent E v = (Inr (), s2)"
    using assms(2) h unfolding show_main_def by (auto elim!: thenS_cases split: if_split_asm)
  have fu: "bars_only ?t u" by (rule fit_bars_only [OF u])
  then have p: "lw_pendingResize u" "lw_syncWindowSize u" "\<not> lw_resizeFreezingFlag u" "lw_window u = (w, k)"
    using sync by (simp_all add: s1 [symmetric] bars_only_def fixed_part_def)
  then have r: "resizeEvent E (u\<lparr>lw_pendingResize := False\<rparr>) = (Inr b, v)" using v by simp
  from resizeEvent_facts(1) [OF r] p obtain ts where
    ts: "tells (ts @ [Tell_Canvas (fst (lw_scene v)) (snd (lw_scene v)), Tell_Window w k]) (u\<lparr>lw_pendingResize := False\<rparr>) v"
    by (auto simp: tells_window_def)
  obtain us where us: "lw_told u = lw_told s1 @ us" using fu by (auto simp: bars_only_def tells_only_def tells_def)
  have "\<exists>vs. lw_told s2 = lw_told v @ vs" using showEvent_tells [OF w] .
  with ts us have "\<exists>vs. lw_told s2 = lw_told s1 @ us @ ts @ [Tell_Canvas (fst (lw_scene v)) (snd (lw_scene v)), Tell_Window w k] @ vs"
    by (auto simp: tells_def)
  then show ?thesis by (auto simp: tells_def s1 [symmetric])
qed

text \<open>A window that comes back from the tray cuts the canvas to its view.  Only the first time it is shown does it
  tell anybody: the manager, and so everybody else, keeps the old size, and what lies outside the view is
  outside the canvas here.  The next resize, or move of the splitter, then sends the small size to all.\<close>

lemma shown_again_cuts_canvas:
  assumes "showEvent E s = (Inr (), s')" and "\<not> lw_firstShow s"
  shows "lw_scene s' = view_size E s \<and> sizes (lw_pm s') = sizes (lw_pm s) \<and> tells_only is_scroll s s'
    \<and> (\<forall>s''. resizeEvent E s' = (Inr (), s'') \<longrightarrow> lw_scene s'' = view_size E s
        \<and> pm_canvasSize (lw_pm s'') = (of_int (fst (view_size E s)), of_int (snd (view_size E s))))"
proof -
  obtain a t where t: "setSceneRect E (fst (view_size E s)) (snd (view_size E s)) s = (Inr a, t)"
    and k: "(if lw_firstShow t then thenS (fit_bars E)
              (\<lambda>s. let s = s\<lparr>lw_firstShow := False\<rparr>; (w, h) = view_size E s in
                thenS (setSceneRect E w h) (tell (Tell_Canvas w h)) s)
              (t\<lparr>lw_splitter := ly_sizes E (lw_window t) [DEFAULT_INITIAL_CHATWINDOW_SIZE, fst (lw_window t) - DEFAULT_INITIAL_CHATWINDOW_SIZE]\<rparr>)
          else (Inr (), t)) = (Inr (), s')"
    using assms(1) unfolding showEvent_def Let_def case_prod_beta by (elim thenS_cases) blast
  note f = setSceneRect_facts [OF t]
  have "\<not> lw_firstShow t" using f(1) assms(2) by (simp add: fixed_part_def)
  then have "s' = t" using k by simp
  moreover have "view_size E t = view_size E s" using f(1) by (simp add: view_size_def fixed_part_def)
  moreover have "lw_scene s'' = view_size E s
      \<and> pm_canvasSize (lw_pm s'') = (of_int (fst (view_size E s)), of_int (snd (view_size E s)))"
    if "resizeEvent E t = (Inr (), s'')" for s''
    using resizeEvent_facts(3,4) [OF that] \<open>view_size E t = view_size E s\<close> f(2) by simp
  ultimately show ?thesis using f by simp
qed

section \<open>A sample window\<close>

definition sample_layout_env :: layout_env where
  "sample_layout_env = \<lparr>ly_view = (\<lambda>(w, h) xs. (w - 240, h - 40)), ly_sizes = (\<lambda>s xs. xs),
     ly_fit = (\<lambda>(vw, vh) (sw, sh) (x, y). (max 0 (min x (sw - vw)), max 0 (min y (sh - vh))))\<rparr>"

definition sample_layout :: layout_window where
  "sample_layout = \<lparr>lw_pm = sample_drawing, lw_syncWindowSize = True, lw_modifiedFlag = False, lw_firstShow = False,
     lw_changeScrollPosFreezingFlag = False, lw_resizeFreezingFlag = False, lw_resizeSplitterFreezingFlag = False,
     lw_visible = True, lw_pendingResize = False, lw_window = (640, 480), lw_laidOut = (640, 480), lw_splitter = [240, 400], lw_scene = (1000, 300), lw_scroll = (100, 0), lw_told = []\<rparr>"

lemma tell_offline:
  assumes "offline (lw_pm s)"
  obtains p where "tell t s = (Inr (), s\<lparr>lw_pm := p, lw_told := lw_told s @ [t]\<rparr>)" "offline p"
proof -
  have "\<exists>p. ask_manager t (lw_pm s) = (Inr (- 1), p) \<and> offline p"
    using assms by (auto simp: ask_manager_def notifyChangeCanvasScrollPos_def notifyResizingCanvas_def notifyResizingMainWindow_def
        notifyResizingWindowSplitter_def sendDataToUsers_def sendDataToUsers_to_def connected_opt_def offline_def thenS_def bindS_def updS_def
        split: layout_tell.split)
  with that show ?thesis by (auto simp: tell_def)
qed

lemma sample_layout_offline: "offline (lw_pm sample_layout)"
  by (simp add: sample_layout_def offline_def sample_drawing_def new_paint_manager_def startListenBroadCast_def split: prod.split)

lemmas sample_layout_defs = sample_layout_def sample_layout_env_def view_size_def

lemma resized_canvas_covers_view_witness:
  "\<exists>s'. resizeEvent sample_layout_env sample_layout = (Inr (), s') \<and> lw_scene s' = (1000, 440)"
proof -
  let ?s = "sample_layout\<lparr>lw_scene := (1000, 440)\<rparr>"
  have r: "setSceneRect sample_layout_env 1000 440 sample_layout = (Inr (), ?s)"
    by (simp add: setSceneRect_def fit_bars_def setValue_H_def setValue_V_def thenS_def bindS_def sample_layout_defs)
  have "offline (lw_pm ?s)" using sample_layout_offline by simp
  then obtain p where p: "tell (Tell_Canvas 1000 440) ?s = (Inr (), ?s\<lparr>lw_pm := p, lw_told := lw_told ?s @ [Tell_Canvas 1000 440]\<rparr>)" "offline p"
    by (rule tell_offline)
  let ?t = "?s\<lparr>lw_pm := p, lw_told := lw_told ?s @ [Tell_Canvas 1000 440]\<rparr>"
  have "offline (lw_pm ?t)" using p(2) by simp
  then obtain q where q: "tell (Tell_Window 640 480) ?t = (Inr (), ?t\<lparr>lw_pm := q, lw_told := lw_told ?t @ [Tell_Window 640 480]\<rparr>)"
    by (rule tell_offline)
  have flags: "lw_syncWindowSize ?t" "\<not> lw_resizeFreezingFlag ?t" "lw_window ?t = (640, 480)"
    "view_size sample_layout_env sample_layout = (400, 440)" "lw_scene sample_layout = (1000, 300)"
    by (simp_all add: sample_layout_defs)
  have "\<exists>s'. resizeEvent sample_layout_env sample_layout = (Inr (), s')"
    using flags q by (simp add: resizeEvent_def thenS_def bindS_def r p(1))
  then obtain s' where "resizeEvent sample_layout_env sample_layout = (Inr (), s')" by blast
  then show ?thesis using resized_canvas_covers_view [of sample_layout_env sample_layout s'] flags by auto
qed

lemma reported_layout_not_echoed_witness:
  "\<exists>s'. onChangeCanvasScrollPos sample_layout_env 50 0 sample_layout = (Inr (), s') \<and> lw_scroll s' = (50, 0) \<and> lw_pm s' = sample_drawing"
proof -
  have "\<exists>s'. onChangeCanvasScrollPos sample_layout_env 50 0 sample_layout = (Inr (), s') \<and> lw_scroll s' = (50, 0)"
    by (simp add: onChangeCanvasScrollPos_def setValue_H_def setValue_V_def onPaintViewHScrollBarChanged_def
        onPaintViewVScrollBarChanged_def thenS_def bindS_def updS_def Let_def sample_layout_defs)
  then obtain s' where "onChangeCanvasScrollPos sample_layout_env 50 0 sample_layout = (Inr (), s')" "lw_scroll s' = (50, 0)" by blast
  moreover from this(1) have "lw_pm s' = lw_pm sample_layout"
    using reported_layout_not_echoed [of sample_layout_env 50 0 sample_layout s'] by blast
  ultimately show ?thesis by (simp add: sample_layout_def)
qed

end
