(* ===== verification/ChatView.thy ===== *)
theory ChatView
  imports WindowNames
begin

text \<open>
  The chat of the main window, \<^verbatim>\<open>SharedPainter.h\<close> and \<^verbatim>\<open>.cpp\<close>.  The view of the chat is a \<^verbatim>\<open>QTextEdit\<close>; what the code
  asks of it is kept in \<open>ch_calls\<close>: the size of the letters, and the HTML text of every block, as the code puts
  it together.  Consecutive messages of one user share the block with his name.
\<close>

section \<open>State\<close>

datatype chat_call = SetFontPointSize nat | Append qstring

record chat_view =
  ch_calls :: "chat_call list"
  ch_lastChatUserId :: qstring
  ch_lastTime :: qstring
  ch_active :: bool
  ch_tray :: "(qstring \<times> qstring) list"

definition new_chat :: chat_view where
  "new_chat = \<lparr>ch_calls = [], ch_lastChatUserId = [], ch_lastTime = [], ch_active = True, ch_tray = []\<rparr>"

section \<open>Operations\<close>

text \<open>A literal, which has ASCII characters only.\<close>

definition html :: "string \<Rightarrow> qstring" where
  "html l = map (\<lambda>c. of_nat (of_char c)) l"

definition chat_append :: "qstring \<Rightarrow> chat_view \<Rightarrow> chat_view" where
  "chat_append t s = s\<lparr>ch_calls := ch_calls s @ [Append t]\<rparr>"

definition chat_space :: "nat \<Rightarrow> chat_view \<Rightarrow> chat_view" where
  "chat_space n s = chat_append [] (s\<lparr>ch_calls := ch_calls s @ [SetFontPointSize n]\<rparr>)"

definition div_html :: "string \<Rightarrow> qstring \<Rightarrow> qstring" where
  "div_html c t = html ''<html><div class='' @ html c @ html ''>'' @ t @ html ''</div></html>''"

definition message_html :: "string \<Rightarrow> qstring \<Rightarrow> qstring" where
  "message_html c t = html ''<html><span class=chatMark> > </span><span class='' @ html c @ html ''>'' @ t @ html ''</span></html>''"

definition updateLastChatTime :: "window_env \<Rightarrow> chat_view \<Rightarrow> chat_view" where
  "updateLastChatTime E s = s\<lparr>ch_lastTime := we_now E\<rparr>"

definition addSystemMessage :: "qstring \<Rightarrow> chat_view \<Rightarrow> chat_view" where
  "addSystemMessage msg s = (chat_append (div_html ''messageSystem'' msg) (chat_space 3 s))\<lparr>ch_lastChatUserId := []\<rparr>"

definition add_message :: "string \<Rightarrow> string \<Rightarrow> qstring \<Rightarrow> qstring \<Rightarrow> qstring \<Rightarrow> chat_view \<Rightarrow> chat_view" where
  "add_message name_class msg_class userId nickName chatMsg s =
     (let s = (if ch_lastChatUserId s \<noteq> userId then chat_append (div_html name_class nickName) (chat_space 3 s)
               else chat_space 1 s) in
      (chat_append (message_html msg_class chatMsg) s)\<lparr>ch_lastChatUserId := userId\<rparr>)"

definition addMyChatMessage :: "qstring \<Rightarrow> qstring \<Rightarrow> qstring \<Rightarrow> chat_view \<Rightarrow> chat_view" where
  "addMyChatMessage = add_message ''nicknameMine'' ''messageMine''"

definition addYourChatMessage :: "window_env \<Rightarrow> qstring \<Rightarrow> qstring \<Rightarrow> qstring \<Rightarrow> chat_view \<Rightarrow> chat_view" where
  "addYourChatMessage E userId nickName chatMsg s =
     updateLastChatTime E (add_message ''nicknameOther'' ''messageOther'' userId nickName chatMsg s)"

definition broadcast_name :: "window_env \<Rightarrow> qstring \<Rightarrow> qstring \<Rightarrow> qstring" where
  "broadcast_name E channel nickName = nickName @ we_tr E '' in \"'' @ channel @ we_tr E ''\" channel''"

definition addBroadcastChatMessage :: "window_env \<Rightarrow> qstring \<Rightarrow> qstring \<Rightarrow> qstring \<Rightarrow> qstring \<Rightarrow> chat_view \<Rightarrow> chat_view" where
  "addBroadcastChatMessage E channel userId nickName chatMsg s =
     updateLastChatTime E
       ((chat_append (div_html ''messageBroadcast'' chatMsg) (chat_append (div_html ''nicknameBroadcast'' (broadcast_name E channel nickName))
          (chat_space 3 s)))\<lparr>ch_lastChatUserId := []\<rparr>)"

definition showTrayMessage :: "qstring \<Rightarrow> qstring \<Rightarrow> chat_view \<Rightarrow> chat_view" where
  "showTrayMessage str title s = s\<lparr>ch_tray := ch_tray s @ [(title, str)]\<rparr>"

abbreviation chat_text :: "window_env \<Rightarrow> bytes \<Rightarrow> qstring" where
  "chat_text E \<equiv> toStringFromUtf8 (we_se E)"

definition tray_if_hidden :: "bool \<Rightarrow> qstring \<Rightarrow> qstring \<Rightarrow> chat_view \<Rightarrow> chat_view" where
  "tray_if_hidden mine msg nick s = (if \<not> ch_active s \<and> \<not> mine then showTrayMessage msg nick s else s)"

definition onReceivedChatMessage :: "window_env \<Rightarrow> paint_manager \<Rightarrow> bytes \<Rightarrow> bytes \<Rightarrow> bytes \<Rightarrow> chat_view \<Rightarrow> chat_view" where
  "onReceivedChatMessage E p userId nickName chatMsg s =
     (let qId = chat_text E userId; qNick = chat_text E nickName; qMsg = chat_text E chatMsg; mine = (userId = myId p) in
      tray_if_hidden mine qMsg qNick
        (if mine then addMyChatMessage qId qNick qMsg s else addYourChatMessage E qId qNick qMsg s))"

definition onReceivedBroadcastTextMessage ::
  "window_env \<Rightarrow> paint_manager \<Rightarrow> bytes \<Rightarrow> bytes \<Rightarrow> bytes \<Rightarrow> bytes \<Rightarrow> chat_view \<Rightarrow> chat_view" where
  "onReceivedBroadcastTextMessage E p channel fromId nickName msg s =
     tray_if_hidden (fromId = myId p) (chat_text E msg) (chat_text E nickName)
       (addBroadcastChatMessage E (chat_text E channel) (chat_text E fromId) (chat_text E nickName) (chat_text E msg) s)"

definition onEnterPaintUser :: "window_env \<Rightarrow> paint_manager \<Rightarrow> user_ptr \<Rightarrow> chat_view \<Rightarrow> chat_view" where
  "onEnterPaintUser E p u = addSystemMessage (chat_text E (u_nickName (user_data (user u p))) @ we_tr E '' joined.'')"

definition onLeavePaintUser :: "window_env \<Rightarrow> paint_manager \<Rightarrow> user_ptr \<Rightarrow> chat_view \<Rightarrow> chat_view" where
  "onLeavePaintUser E p u = addSystemMessage (chat_text E (u_nickName (user_data (user u p))) @ we_tr E '' left.'')"

definition onChangedNickName :: "window_env \<Rightarrow> bytes \<Rightarrow> bytes \<Rightarrow> chat_view \<Rightarrow> chat_view" where
  "onChangedNickName E prev nick = addSystemMessage (chat_text E prev @ we_tr E '' has changed a nickname to '' @ chat_text E nick)"

text \<open>What the manager \<open>p\<close> reports, as far as it concerns the chat.\<close>

definition chat_event :: "window_env \<Rightarrow> paint_manager \<times> observer_call \<Rightarrow> chat_view \<Rightarrow> chat_view" where
  "chat_event E e s = (case e of (p, c) \<Rightarrow> (case c of
       Ob_ReceivedChatMessage u nick msg \<Rightarrow> onReceivedChatMessage E p u nick msg s
     | Ob_ReceivedBroadcastTextMessage ch from nick msg \<Rightarrow> onReceivedBroadcastTextMessage E p ch from nick msg s
     | Ob_EnterPaintUser u \<Rightarrow> onEnterPaintUser E p u s
     | Ob_LeavePaintUser u \<Rightarrow> onLeavePaintUser E p u s
     | Ob_ChangedNickName u prev nick \<Rightarrow> onChangedNickName E prev nick s
     | _ \<Rightarrow> s))"

lemmas chat_defs = chat_append_def chat_space_def updateLastChatTime_def addSystemMessage_def add_message_def addMyChatMessage_def
  addYourChatMessage_def addBroadcastChatMessage_def showTrayMessage_def tray_if_hidden_def onReceivedChatMessage_def
  onReceivedBroadcastTextMessage_def onEnterPaintUser_def onLeavePaintUser_def onChangedNickName_def Let_def

section \<open>Reading the chat\<close>

text \<open>
  What HTML shows: the text that follows a tag with a class, up to the next tag.  60 and 62 are the
  characters that enclose a tag.
\<close>

definition class_of :: "qstring \<Rightarrow> qstring" where
  "class_of tag =
     (if take 10 tag = html ''div class='' then drop 10 tag
      else if take 11 tag = html ''span class='' then drop 11 tag else [])"

function shown_text :: "qstring \<Rightarrow> (qstring \<times> qstring) list" where
  "shown_text [] = []"
| "shown_text (x # r) =
     (if x \<noteq> 60 then shown_text r
      else let tag = takeWhile (\<lambda>c. c \<noteq> 62) r; rest = drop 1 (dropWhile (\<lambda>c. c \<noteq> 62) r) in
        if class_of tag = [] then shown_text rest
        else (class_of tag, takeWhile (\<lambda>c. c \<noteq> 60) rest) # shown_text (dropWhile (\<lambda>c. c \<noteq> 60) rest))"
  by pat_completeness auto
termination
proof (relation "measure length")
  fix x :: "16 word" and r tag rest :: qstring
  assume "rest = drop 1 (dropWhile (\<lambda>c. c \<noteq> 62) r)"
  moreover have "length (dropWhile (\<lambda>c. c \<noteq> 62) r) \<le> length r" by (rule length_dropWhile_le)
  moreover have "length (dropWhile (\<lambda>c. c \<noteq> 60) rest) \<le> length rest" by (rule length_dropWhile_le)
  ultimately show "(rest, x # r) \<in> measure length" "(dropWhile (\<lambda>c. c \<noteq> 60) rest, x # r) \<in> measure length"
    by auto
qed auto

text \<open>A reader goes from the top to the bottom and takes a message to be of the name he has seen last.\<close>

type_synonym writer = "qstring \<times> qstring"

type_synonym reading = "writer option \<times> (writer option \<times> qstring) list"

definition read_text :: "qstring \<times> qstring \<Rightarrow> reading \<Rightarrow> reading" where
  "read_text x r = (case x of (c, t) \<Rightarrow>
     if c = html ''messageSystem'' then (None, snd r)
     else if c = html ''messageBroadcast'' then (None, snd r @ [(fst r, t)])
     else if c \<in> {html ''messageMine'', html ''messageOther''} then (fst r, snd r @ [(fst r, t)])
     else if c \<in> {html ''nicknameMine'', html ''nicknameOther'', html ''nicknameBroadcast''} then (Some (c, t), snd r)
     else r)"

fun read_call :: "reading \<Rightarrow> chat_call \<Rightarrow> reading" where
  "read_call r (SetFontPointSize n) = r"
| "read_call r (Append t) = fold read_text (shown_text t) r"

definition read_chat :: "chat_call list \<Rightarrow> reading" where
  "read_chat cs = foldl read_call (None, []) cs"

lemma read_chat_append [simp]: "read_chat (cs @ ds) = foldl read_call (read_chat cs) ds"
  by (simp add: read_chat_def)

text \<open>Text without markup: no tag and no entity.\<close>

definition plain_text :: "qstring \<Rightarrow> bool" where
  "plain_text t \<longleftrightarrow> 60 \<notin> set t \<and> 38 \<notin> set t"

lemma shown_tag:
  assumes "62 \<notin> set tag"
  shows "shown_text (60 # tag @ 62 # rest) =
    (if class_of tag = [] then shown_text rest
     else (class_of tag, takeWhile (\<lambda>c. c \<noteq> 60) rest) # shown_text (dropWhile (\<lambda>c. c \<noteq> 60) rest))"
proof -
  have "takeWhile (\<lambda>c. c \<noteq> 62) (tag @ 62 # rest) = tag" "dropWhile (\<lambda>c. c \<noteq> 62) (tag @ 62 # rest) = 62 # rest"
    using assms by (induction tag) auto
  then show ?thesis by simp
qed

declare shown_text.simps(2) [simp del]

lemma before_tag:
  assumes "60 \<notin> set (t :: qstring)"
  shows "takeWhile (\<lambda>c. c \<noteq> 60) (t @ 60 # r) = t" "dropWhile (\<lambda>c. c \<noteq> 60) (t @ 60 # r) = 60 # r"
  using assms by (induction t) auto

text \<open>Who said what.\<close>

definition writer_of :: "window_env \<Rightarrow> paint_manager \<Rightarrow> bytes \<Rightarrow> bytes \<Rightarrow> writer" where
  "writer_of E p u nick = (html (if u = myId p then ''nicknameMine'' else ''nicknameOther''), chat_text E nick)"

definition said :: "window_env \<Rightarrow> paint_manager \<times> observer_call \<Rightarrow> (writer option \<times> qstring) list" where
  "said E e = (case e of (p, c) \<Rightarrow> (case c of
       Ob_ReceivedChatMessage u nick msg \<Rightarrow> [(Some (writer_of E p u nick), chat_text E msg)]
     | Ob_ReceivedBroadcastTextMessage ch from nick msg \<Rightarrow>
         [(Some (html ''nicknameBroadcast'', broadcast_name E (chat_text E ch) (chat_text E nick)), chat_text E msg)]
     | _ \<Rightarrow> []))"

text \<open>
  Names are announced: between two messages of a user his name, and whether he is the own user, is the
  same, unless the manager reports that a name has changed, or that a user has come or gone.
\<close>

fun announced :: "window_env \<Rightarrow> (bytes \<Rightarrow> writer option) \<Rightarrow> (paint_manager \<times> observer_call) list \<Rightarrow> bool" where
  "announced E n [] = True"
| "announced E n ((p, c) # es) = (case c of
       Ob_ReceivedChatMessage u nick msg \<Rightarrow>
         (case n u of None \<Rightarrow> True | Some w \<Rightarrow> w = writer_of E p u nick) \<and> announced E (n(u \<mapsto> writer_of E p u nick)) es
     | Ob_ChangedNickName u prev nick \<Rightarrow> announced E (n(u := None)) es
     | Ob_EnterPaintUser u \<Rightarrow> announced E (\<lambda>_. None) es
     | Ob_LeavePaintUser u \<Rightarrow> announced E (\<lambda>_. None) es
     | _ \<Rightarrow> announced E n es)"

text \<open>The ids of the writers are not empty, and the conversion keeps them apart.\<close>

definition writers :: "(paint_manager \<times> observer_call) list \<Rightarrow> bytes list" where
  "writers es = concat (map (\<lambda>(p, c). case c of Ob_ReceivedChatMessage u nick msg \<Rightarrow> [u] | _ \<Rightarrow> []) es)"

definition ids_apart :: "window_env \<Rightarrow> bytes list \<Rightarrow> bool" where
  "ids_apart E us \<longleftrightarrow> list_all (\<lambda>u. chat_text E u \<noteq> [] \<and> list_all (\<lambda>v. chat_text E u = chat_text E v \<longrightarrow> u = v) us) us"

text \<open>The names, messages and notices that are put into the HTML have no markup.\<close>

definition chat_texts :: "window_env \<Rightarrow> paint_manager \<times> observer_call \<Rightarrow> qstring list" where
  "chat_texts E e = (case e of (p, c) \<Rightarrow> (case c of
       Ob_ReceivedChatMessage u nick msg \<Rightarrow> [chat_text E nick, chat_text E msg]
     | Ob_ReceivedBroadcastTextMessage ch from nick msg \<Rightarrow>
         [broadcast_name E (chat_text E ch) (chat_text E nick), chat_text E msg]
     | Ob_EnterPaintUser u \<Rightarrow> [chat_text E (u_nickName (user_data (user u p))) @ we_tr E '' joined.'']
     | Ob_LeavePaintUser u \<Rightarrow> [chat_text E (u_nickName (user_data (user u p))) @ we_tr E '' left.'']
     | Ob_ChangedNickName u prev nick \<Rightarrow> [chat_text E prev @ we_tr E '' has changed a nickname to '' @ chat_text E nick]
     | _ \<Rightarrow> []))"

definition no_markup :: "window_env \<Rightarrow> (paint_manager \<times> observer_call) list \<Rightarrow> bool" where
  "no_markup E es \<longleftrightarrow> list_all (\<lambda>e. list_all plain_text (chat_texts E e)) es"

section \<open>The chat is attributed\<close>

text \<open>The last user of the chat is one whose name is known, and it is the name that has been seen last.\<close>

definition chat_ok :: "window_env \<Rightarrow> bytes set \<Rightarrow> (bytes \<Rightarrow> writer option) \<Rightarrow> chat_view \<Rightarrow> bool" where
  "chat_ok E U n s \<longleftrightarrow> (ch_lastChatUserId s \<noteq> [] \<longrightarrow>
     (\<exists>u w. u \<in> U \<and> ch_lastChatUserId s = chat_text E u \<and> n u = Some w \<and> fst (read_chat (ch_calls s)) = Some w))"

lemma ids_apartD:
  assumes "ids_apart E us" "u \<in> set us"
  shows "chat_text E u \<noteq> []" and "v \<in> set us \<Longrightarrow> chat_text E u = chat_text E v \<Longrightarrow> u = v"
  using assms by (auto simp: ids_apart_def list_all_iff)

lemma tray_if_hidden_calls [simp]:
  "ch_calls (tray_if_hidden m t k s) = ch_calls s" "ch_lastChatUserId (tray_if_hidden m t k s) = ch_lastChatUserId s"
  by (simp_all add: tray_if_hidden_def showTrayMessage_def)

lemma html_simps: "html (l @ m) = html l @ html m" "html [] = []"
  by (simp_all add: html_def)

lemma shown_div:
  assumes "plain_text t" "62 \<notin> set (html c)" "html c \<noteq> []"
  shows "shown_text (div_html c t) = [(html c, t)]"
proof -
  let ?tail = "60 # html ''/div'' @ 62 # 60 # html ''/html'' @ 62 # []"
  have e: "div_html c t = 60 # html ''html'' @ 62 # 60 # (html ''div class='' @ html c) @ 62 # t @ ?tail"
    by (simp add: div_html_def) (simp add: html_def)
  have k: "class_of (html ''html'') = []" "class_of (html ''/div'') = []" "class_of (html ''/html'') = []"
    "class_of (html ''div class='' @ html c) = html c"
    by (simp_all add: class_of_def html_def)
  have n: "62 \<notin> set (html ''html'')" "62 \<notin> set (html ''/div'')" "62 \<notin> set (html ''/html'')"
    "62 \<notin> set (html ''div class='' @ html c)"
    using assms(2) by (simp_all add: html_def)
  have t: "60 \<notin> set t" using assms(1) by (simp add: plain_text_def)
  show ?thesis unfolding e
    by (simp add: shown_tag [OF n(1)] shown_tag [OF n(2)] shown_tag [OF n(3)] shown_tag [OF n(4)] k assms(3)
        before_tag [OF t] del: append_assoc)
qed

lemma shown_message:
  assumes "plain_text t" "62 \<notin> set (html c)" "html c \<noteq> []"
  shows "shown_text (message_html c t) = [(html ''chatMark'', html '' > ''), (html c, t)]"
proof -
  let ?tail = "60 # html ''/span'' @ 62 # 60 # html ''/html'' @ 62 # []"
  have e: "message_html c t = 60 # html ''html'' @ 62 # 60 # html ''span class=chatMark'' @ 62 # html '' > ''
      @ 60 # html ''/span'' @ 62 # 60 # (html ''span class='' @ html c) @ 62 # t @ ?tail"
    by (simp add: message_html_def) (simp add: html_def)
  have k: "class_of (html ''html'') = []" "class_of (html ''/span'') = []" "class_of (html ''/html'') = []"
    "class_of (html ''span class=chatMark'') = html ''chatMark''" "html ''chatMark'' \<noteq> []"
    "class_of (html ''span class='' @ html c) = html c"
    by (simp_all add: class_of_def html_def)
  have n: "62 \<notin> set (html ''html'')" "62 \<notin> set (html ''/span'')" "62 \<notin> set (html ''/html'')"
    "62 \<notin> set (html ''span class=chatMark'')" "62 \<notin> set (html ''span class='' @ html c)"
    using assms(2) by (simp_all add: html_def)
  have t: "60 \<notin> set t" "60 \<notin> set (html '' > '')" using assms(1) by (simp_all add: plain_text_def html_def)
  show ?thesis unfolding e
    by (simp add: shown_tag [OF n(1)] shown_tag [OF n(2)] shown_tag [OF n(3)] shown_tag [OF n(4)] shown_tag [OF n(5)]
        k assms(3) before_tag [OF t(1)] before_tag [OF t(2)] del: append_assoc)
qed

text \<open>What each of the blocks is to the reader.\<close>

lemma read_space: "read_call r (Append []) = r"
  by simp

lemma read_system: "plain_text t \<Longrightarrow> read_call r (Append (div_html ''messageSystem'' t)) = (None, snd r)"
  by (simp add: shown_div html_def read_text_def)

lemma read_broadcast:
  "plain_text t \<Longrightarrow> read_call r (Append (div_html ''messageBroadcast'' t)) = (None, snd r @ [(fst r, t)])"
  by (simp add: shown_div html_def read_text_def)

lemma read_name:
  "plain_text t \<Longrightarrow> c \<in> {''nicknameMine'', ''nicknameOther'', ''nicknameBroadcast''} \<Longrightarrow>
    read_call r (Append (div_html c t)) = (Some (html c, t), snd r)"
  by (auto simp: shown_div html_def read_text_def)

lemma read_message:
  "plain_text t \<Longrightarrow> c \<in> {''messageMine'', ''messageOther''} \<Longrightarrow>
    read_call r (Append (message_html c t)) = (fst r, snd r @ [(fst r, t)])"
  by (auto simp: shown_message html_def read_text_def)

lemmas read_blocks = read_space read_system read_broadcast read_name read_message

lemma system_read:
  assumes "plain_text m"
  shows "ch_lastChatUserId (addSystemMessage m s) = []"
    and "snd (read_chat (ch_calls (addSystemMessage m s))) = snd (read_chat (ch_calls s))"
  using assms by (simp_all add: addSystemMessage_def chat_append_def chat_space_def read_blocks del: read_call.simps(2))

lemma broadcast_read:
  assumes "plain_text (broadcast_name E ch nick)" "plain_text m"
  shows "ch_lastChatUserId (addBroadcastChatMessage E ch u nick m s) = []"
    and "snd (read_chat (ch_calls (addBroadcastChatMessage E ch u nick m s)))
     = snd (read_chat (ch_calls s)) @ [(Some (html ''nicknameBroadcast'', broadcast_name E ch nick), m)]"
  using assms by (simp_all add: addBroadcastChatMessage_def updateLastChatTime_def chat_append_def chat_space_def
      read_blocks del: read_call.simps(2))

lemma message_read:
  assumes "w = (html c, nick)" "c \<in> {''nicknameMine'', ''nicknameOther'', ''nicknameBroadcast''}"
    and "d \<in> {''messageMine'', ''messageOther''}" "plain_text nick" "plain_text m"
    and "ch_lastChatUserId s = u \<Longrightarrow> fst (read_chat (ch_calls s)) = Some w"
  shows "ch_lastChatUserId (add_message c d u nick m s) = u"
    and "read_chat (ch_calls (add_message c d u nick m s)) = (Some w, snd (read_chat (ch_calls s)) @ [(Some w, m)])"
  using assms(1,4-6) read_name [OF assms(4,2)] read_message [OF assms(5,3)]
  by (auto simp: add_message_def chat_append_def chat_space_def read_space simp del: read_call.simps(2))

lemma received_read:
  assumes "ids_apart E us" "u \<in> set us" "chat_ok E (set us) n s" "case n u of None \<Rightarrow> True | Some w \<Rightarrow> w = writer_of E p u nick"
    and plain: "plain_text (chat_text E nick)" "plain_text (chat_text E msg)"
    and s'_def: "s' = onReceivedChatMessage E p u nick msg s"
  shows "chat_ok E (set us) (n(u \<mapsto> writer_of E p u nick)) s'"
    and "snd (read_chat (ch_calls s')) = snd (read_chat (ch_calls s)) @ [(Some (writer_of E p u nick), chat_text E msg)]"
proof -
  let ?c = "if u = myId p then ''nicknameMine'' else ''nicknameOther''" and ?d = "if u = myId p then ''messageMine'' else ''messageOther''"
  let ?m = "add_message ?c ?d (chat_text E u) (chat_text E nick) (chat_text E msg) s" and ?w = "writer_of E p u nick"
  have blocks: "ch_calls s' = ch_calls ?m" "ch_lastChatUserId s' = ch_lastChatUserId ?m"
    by (simp_all add: s'_def onReceivedChatMessage_def addMyChatMessage_def addYourChatMessage_def updateLastChatTime_def Let_def)
  have same: "fst (read_chat (ch_calls s)) = Some ?w" if "ch_lastChatUserId s = chat_text E u"
  proof -
    note last = that
    obtain v w where v: "v \<in> set us" "chat_text E u = chat_text E v" "n v = Some w" "fst (read_chat (ch_calls s)) = Some w"
      using assms(3) ids_apartD(1) [OF assms(1,2)] last unfolding chat_ok_def by metis
    with ids_apartD(2) [OF assms(1,2)] have "u = v" by blast
    with v assms(4) show ?thesis by simp
  qed
  note r = message_read [of ?w ?c "chat_text E nick" ?d "chat_text E msg" s "chat_text E u", OF _ _ _ plain same]
  have 1: "ch_lastChatUserId ?m = chat_text E u"
    and 2: "read_chat (ch_calls ?m) = (Some ?w, snd (read_chat (ch_calls s)) @ [(Some ?w, chat_text E msg)])"
    by (rule r; simp add: writer_of_def)+
  show "chat_ok E (set us) (n(u \<mapsto> ?w)) s'" using assms(2) 1 2 by (auto simp: chat_ok_def blocks)
  show "snd (read_chat (ch_calls s')) = snd (read_chat (ch_calls s)) @ [(Some ?w, chat_text E msg)]"
    by (simp add: blocks 2)
qed

lemma chat_run:
  assumes "ids_apart E us" "set (writers es) \<subseteq> set us" "chat_ok E (set us) n s" "announced E n es" "no_markup E es"
  shows "snd (read_chat (ch_calls (fold (chat_event E) es s))) = snd (read_chat (ch_calls s)) @ concat (map (said E) es)"
  using assms(2-5)
proof (induction es arbitrary: s n)
  case (Cons e es)
  obtain p c where e: "e = (p, c)" by (cases e)
  have rest: "set (writers es) \<subseteq> set us" using Cons.prems(1) by (simp add: writers_def)
  have plain: "no_markup E es" "\<And>t. t \<in> set (chat_texts E e) \<Longrightarrow> plain_text t"
    using Cons.prems(4) by (auto simp: no_markup_def list_all_iff)
  have go: "snd (read_chat (ch_calls (fold (chat_event E) (e # es) s))) = snd (read_chat (ch_calls s)) @ concat (map (said E) (e # es))"
    if "chat_ok E (set us) n' (chat_event E e s)" "announced E n' es"
      "snd (read_chat (ch_calls (chat_event E e s))) = snd (read_chat (ch_calls s)) @ said E e" for n'
    using Cons.IH [OF rest that(1,2) plain(1)] that(3) by simp
  have quiet: "chat_ok E (set us) n' t" if "ch_lastChatUserId t = []" for n' t
    using that by (simp add: chat_ok_def)
  show ?case
  proof (cases c)
    case (Ob_ReceivedChatMessage u nick msg)
    have "u \<in> set us" using Cons.prems(1) by (simp add: writers_def e Ob_ReceivedChatMessage)
    moreover have "case n u of None \<Rightarrow> True | Some w \<Rightarrow> w = writer_of E p u nick"
      and next_names: "announced E (n(u \<mapsto> writer_of E p u nick)) es"
      using Cons.prems(3) by (simp_all add: e Ob_ReceivedChatMessage)
    ultimately show ?thesis
      using received_read [OF assms(1) _ Cons.prems(2) _ _ _ refl, of u p nick msg] plain(2)
      by (intro go [OF _ next_names]) (simp_all add: chat_event_def said_def chat_texts_def e Ob_ReceivedChatMessage)
  next
    case (Ob_ReceivedBroadcastTextMessage ch from' nick msg)
    have 1: "ch_lastChatUserId (chat_event E e s) = []"
      and 2: "snd (read_chat (ch_calls (chat_event E e s))) = snd (read_chat (ch_calls s)) @ said E e"
      using plain(2) by (simp_all add: chat_event_def said_def chat_texts_def e Ob_ReceivedBroadcastTextMessage
          onReceivedBroadcastTextMessage_def broadcast_read)
    from Cons.prems(3) have "announced E n es" by (simp add: e Ob_ReceivedBroadcastTextMessage)
    with quiet [OF 1] 2 show ?thesis by (intro go)
  next
    case (Ob_EnterPaintUser u)
    then have 1: "ch_lastChatUserId (chat_event E e s) = []"
      and 2: "snd (read_chat (ch_calls (chat_event E e s))) = snd (read_chat (ch_calls s)) @ said E e"
      using plain(2) by (simp_all add: chat_event_def said_def chat_texts_def e onEnterPaintUser_def system_read)
    from Cons.prems(3) have "announced E (\<lambda>_. None) es" by (simp add: e Ob_EnterPaintUser)
    with quiet [OF 1] 2 show ?thesis by (intro go)
  next
    case (Ob_LeavePaintUser u)
    then have 1: "ch_lastChatUserId (chat_event E e s) = []"
      and 2: "snd (read_chat (ch_calls (chat_event E e s))) = snd (read_chat (ch_calls s)) @ said E e"
      using plain(2) by (simp_all add: chat_event_def said_def chat_texts_def e onLeavePaintUser_def system_read)
    from Cons.prems(3) have "announced E (\<lambda>_. None) es" by (simp add: e Ob_LeavePaintUser)
    with quiet [OF 1] 2 show ?thesis by (intro go)
  next
    case (Ob_ChangedNickName u prev nick)
    then have 1: "ch_lastChatUserId (chat_event E e s) = []"
      and 2: "snd (read_chat (ch_calls (chat_event E e s))) = snd (read_chat (ch_calls s)) @ said E e"
      using plain(2) by (simp_all add: chat_event_def said_def chat_texts_def e onChangedNickName_def system_read)
    from Cons.prems(3) have "announced E (n(u := None)) es" by (simp add: e Ob_ChangedNickName)
    with quiet [OF 1] 2 show ?thesis by (intro go)
  qed (use Cons.prems(2,3) in \<open>intro go [of n]; simp add: e chat_event_def said_def\<close>)+
qed simp

text \<open>C25: The chat shows who said what, as long as what is said has no markup.  Whatever the manager reports, in
  whatever order, whoever reads the HTML of the chat from the top, taking each message to be of the name he
  has seen last, reads just the messages that came, in their order, each with the name its writer had when
  he wrote it, and told apart from his own, although messages of one user in a row share one name.  This
  needs that the names, messages and notices that go into the HTML have no tag and no entity, that names do
  not change without a report, and that the ids of the writers, converted from UTF-8, are not empty and
  still differ.\<close>

theorem chat_is_attributed:
  assumes "no_markup E es" and "ids_apart E (writers es)" and "announced E (\<lambda>_. None) es"
  shows "snd (read_chat (ch_calls (fold (chat_event E) es new_chat))) = concat (map (said E) es)"
  using chat_run [OF assms(2) subset_refl _ assms(3,1), of new_chat]
  by (simp add: chat_ok_def new_chat_def read_chat_def)

definition sample_chat :: "(paint_manager \<times> observer_call) list" where
  "sample_chat = map (Pair sample_drawing) [Ob_ReceivedChatMessage [7] [65] [104], Ob_ReceivedChatMessage [7] [65] [105],
     Ob_ReceivedChatMessage [8] [66] [106], Ob_ChangedNickName [8] [66] [67], Ob_ReceivedChatMessage [8] [67] [107]]"

lemma chat_is_attributed_witness:
  "map (map_option snd \<circ> fst) (snd (read_chat (ch_calls (fold (chat_event sample_window_env) sample_chat new_chat))))
     = map (\<lambda>c. Some (chat_text sample_window_env [c])) [65, 65, 66, 67]"
proof -
  have "ids_apart sample_window_env (writers sample_chat)"
    by (simp add: sample_chat_def writers_def ids_apart_def toStringFromUtf8_def sample_window_env_def sample_settings_env_def sample_qt_def c_str_def)
  moreover have "announced sample_window_env (\<lambda>_. None) sample_chat"
    by (simp add: sample_chat_def writer_of_def)
  moreover have "no_markup sample_window_env sample_chat"
    by (simp add: no_markup_def sample_chat_def chat_texts_def plain_text_def toStringFromUtf8_def sample_window_env_def
        sample_settings_env_def sample_qt_def c_str_def of_char_def)
  ultimately have "snd (read_chat (ch_calls (fold (chat_event sample_window_env) sample_chat new_chat)))
      = concat (map (said sample_window_env) sample_chat)" by (intro chat_is_attributed)
  then show ?thesis by (simp only:) (simp add: sample_chat_def said_def writer_of_def)
qed

text \<open>With markup a message can speak for somebody else: it closes its own tag and opens a name and a message of
  another.  The reader takes the second part for a message of that name.\<close>

lemma markup_imitates_name:
  "snd (read_chat (ch_calls (addYourChatMessage E u (html ''A'')
     (html ''x</span><div class=nicknameOther>B</div><span class=messageOther>y'') new_chat)))
   = [(Some (html ''nicknameOther'', html ''A''), html ''x''), (Some (html ''nicknameOther'', html ''B''), html ''y'')]"
  if "u \<noteq> []"
  using that
  by (simp add: addYourChatMessage_def add_message_def updateLastChatTime_def new_chat_def chat_append_def chat_space_def
      div_html_def message_html_def html_def read_chat_def shown_text.simps class_of_def read_text_def)

end
