(* ===== verification/UpgraderMain.thy ===== *)
theory UpgraderMain
  imports PaintItem
begin

text \<open>
  The program that installs an upgrade, \<^verbatim>\<open>src/Upgrader/main.cpp\<close>, in the Windows build: it waits until the
  main program has ended, unpacks the patch, puts the new program in the place of the old one and starts
  it.  The zip library is a parameter; whether the system lets a file be removed or renamed is a list of
  answers.
\<close>

section \<open>State\<close>

text \<open>
  The files by their full paths; what the system answers to each removal and renaming (it allows them
  when the list is over); what has been started; and the result of each look at the running program.
\<close>

record upgrader =
  uf_files :: files
  uf_allows :: "bool list"
  uf_launched :: "qstring list"
  uf_running :: "bool list"

text \<open>
  The current directory with its separator.  Of an archive: whether it can be opened, the number of its
  items if it can be read, each item's name, if it can be read, and what unpacking it leaves in the file:
  the contents of the item, or a part of them or nothing when it fails after the file has been created, or
  \<open>None\<close> when the file is left alone.  \<open>uz_target\<close> is the file the library writes for a name.
\<close>

record upgrader_env =
  uz_dir :: qstring
  uz_open :: "bytes \<Rightarrow> bool"
  uz_count :: "bytes \<Rightarrow> nat option"
  uz_name :: "bytes \<Rightarrow> nat \<Rightarrow> qstring option"
  uz_leaves :: "bytes \<Rightarrow> nat \<Rightarrow> bytes option"
  uz_target :: "qstring \<Rightarrow> qstring"

definition ascii :: "string \<Rightarrow> qstring" where
  "ascii l = map (\<lambda>c. of_nat (of_char c)) l"

definition PROGRAM_FILE_NAME :: qstring where
  "PROGRAM_FILE_NAME = ascii ''SharedPainter.exe''"

definition DEFAULT_UPGRADE_FILE_NAME :: qstring where
  "DEFAULT_UPGRADE_FILE_NAME = ascii ''patch.zip''"

section \<open>Files\<close>

definition allowed :: "upgrader \<Rightarrow> bool \<times> upgrader" where
  "allowed s = (case uf_allows s of [] \<Rightarrow> (True, s) | b # bs \<Rightarrow> (b, s\<lparr>uf_allows := bs\<rparr>))"

definition QFile_remove :: "qstring \<Rightarrow> upgrader \<Rightarrow> bool \<times> upgrader" where
  "QFile_remove f s =
     (case uf_files s f of
        None \<Rightarrow> (False, s)
      | Some d \<Rightarrow> (case allowed s of (ok, s) \<Rightarrow> if ok then (True, s\<lparr>uf_files := (uf_files s)(f := None)\<rparr>) else (False, s)))"

text \<open>\<^verbatim>\<open>QFile::rename\<close> does not replace a file.\<close>

definition QFile_rename :: "qstring \<Rightarrow> qstring \<Rightarrow> upgrader \<Rightarrow> bool \<times> upgrader" where
  "QFile_rename src dst s =
     (case uf_files s src of
        None \<Rightarrow> (False, s)
      | Some d \<Rightarrow>
          (if uf_files s dst \<noteq> None then (False, s)
           else (case allowed s of (ok, s) \<Rightarrow>
             if ok then (True, s\<lparr>uf_files := (uf_files s)(src := None, dst \<mapsto> d)\<rparr>) else (False, s))))"

section \<open>The steps\<close>

text \<open>The loop of the items; \<^verbatim>\<open>ze\<close> keeps its name when an item cannot be read.  (Before the first that can be
  read it is not initialised; here it is empty.)  What \<^verbatim>\<open>UnzipItem\<close> answers is not looked at.\<close>

fun unzip_items :: "upgrader_env \<Rightarrow> bytes \<Rightarrow> qstring \<Rightarrow> nat list \<Rightarrow> upgrader \<Rightarrow> upgrader" where
  "unzip_items E z ze [] s = s"
| "unzip_items E z ze (i # is) s =
     (let ze = (case uz_name E z i of None \<Rightarrow> ze | Some n \<Rightarrow> n) in
      unzip_items E z ze is
        (case uz_leaves E z i of None \<Rightarrow> s | Some d \<Rightarrow> s\<lparr>uf_files := (uf_files s)(uz_target E ze \<mapsto> d)\<rparr>))"

definition unzipPatchFile :: "upgrader_env \<Rightarrow> upgrader \<Rightarrow> bool \<times> upgrader" where
  "unzipPatchFile E s =
     (let f = uz_dir E @ DEFAULT_UPGRADE_FILE_NAME in
      case uf_files s f of
        None \<Rightarrow> (False, s)
      | Some z \<Rightarrow>
          (if \<not> uz_open E z then (False, s)
           else (let s = (case uz_count E z of None \<Rightarrow> s | Some n \<Rightarrow> unzip_items E z [] [0..<n] s) in
             (False, snd (QFile_remove f s)))))"

fun rename_loop :: "nat \<Rightarrow> qstring \<Rightarrow> qstring \<Rightarrow> upgrader \<Rightarrow> bool \<times> upgrader" where
  "rename_loop 0 src dst s = (False, s)"
| "rename_loop (Suc n) src dst s =
     (case QFile_rename src dst (snd (QFile_remove dst s)) of
        (True, s) \<Rightarrow> (True, s)
      | (False, s) \<Rightarrow> rename_loop n src dst s)"

definition renamePatchFile :: "upgrader_env \<Rightarrow> qstring \<Rightarrow> upgrader \<Rightarrow> bool \<times> upgrader" where
  "renamePatchFile E dst s =
     (let dst = uz_dir E @ dst; src = dst @ ascii ''_'' in
      if uf_files s src = None then (True, s) else rename_loop 5 src dst s)"

definition launchProgram :: "qstring \<Rightarrow> upgrader \<Rightarrow> upgrader" where
  "launchProgram path s = s\<lparr>uf_launched := uf_launched s @ [path]\<rparr>"

text \<open>Waiting for the program; \<open>None\<close> when it is still running at the last look.\<close>

fun wait_loop :: "bool list \<Rightarrow> bool list option" where
  "wait_loop [] = None"
| "wait_loop (running # looks) = (if running then wait_loop looks else Some looks)"

definition upgrader_main :: "upgrader_env \<Rightarrow> upgrader \<Rightarrow> (int \<times> upgrader) option" where
  "upgrader_main E s =
     map_option (\<lambda>looks.
         (case unzipPatchFile E (s\<lparr>uf_running := looks\<rparr>) of
            (True, s) \<Rightarrow> (- 1, s)
          | (False, s) \<Rightarrow> (0, launchProgram PROGRAM_FILE_NAME (snd (renamePatchFile E PROGRAM_FILE_NAME s)))))
       (wait_loop (uf_running s))"

section \<open>Lemmas\<close>

lemma wait_loop_ends: "wait_loop bs = None \<longleftrightarrow> list_all (\<lambda>b. b) bs"
  by (induction bs) simp_all

lemma allowed_keeps [simp]: "uf_files (snd (allowed s)) = uf_files s" "uf_launched (snd (allowed s)) = uf_launched s"
  by (simp_all add: allowed_def split: list.split)

lemma QFile_remove_cases:
  assumes "QFile_remove f s = (b, s')"
  shows "uf_launched s' = uf_launched s"
    and "b \<and> uf_files s' = (uf_files s)(f := None) \<and> uf_files s f \<noteq> None \<or> \<not> b \<and> uf_files s' = uf_files s"
proof -
  have "uf_launched s' = uf_launched s \<and>
    (b \<and> uf_files s' = (uf_files s)(f := None) \<and> uf_files s f \<noteq> None \<or> \<not> b \<and> uf_files s' = uf_files s)"
    using assms by (cases "allowed s") (use allowed_keeps [of s] in \<open>auto simp: QFile_remove_def split: option.splits if_splits\<close>)
  then show "uf_launched s' = uf_launched s"
    "b \<and> uf_files s' = (uf_files s)(f := None) \<and> uf_files s f \<noteq> None \<or> \<not> b \<and> uf_files s' = uf_files s" by blast+
qed

lemma QFile_rename_cases:
  assumes "QFile_rename src dst s = (b, s')"
  shows "uf_launched s' = uf_launched s"
    and "b \<and> uf_files s' = (uf_files s)(src := None, dst := uf_files s src) \<and> uf_files s src \<noteq> None \<or> \<not> b \<and> uf_files s' = uf_files s"
proof -
  have "uf_launched s' = uf_launched s \<and>
    (b \<and> uf_files s' = (uf_files s)(src := None, dst := uf_files s src) \<and> uf_files s src \<noteq> None \<or> \<not> b \<and> uf_files s' = uf_files s)"
    using assms by (cases "allowed s") (use allowed_keeps [of s] in \<open>auto simp: QFile_rename_def split: option.splits if_splits\<close>)
  then show "uf_launched s' = uf_launched s"
    "b \<and> uf_files s' = (uf_files s)(src := None, dst := uf_files s src) \<and> uf_files s src \<noteq> None \<or> \<not> b \<and> uf_files s' = uf_files s" by blast+
qed

text \<open>Where the files are after the loop: moved, or all but the old program as before.\<close>

lemma rename_loop_files:
  assumes "rename_loop n src dst s = (b, s')" and "src \<noteq> dst" "uf_files s src = Some d"
  shows "uf_launched s' = uf_launched s
    \<and> (if b then uf_files s' = (uf_files s)(src := None, dst := Some d)
       else uf_files s' = uf_files s \<or> uf_files s' = (uf_files s)(dst := None))"
  using assms
proof (induction n arbitrary: s)
  case (Suc n)
  obtain c t where t: "QFile_remove dst s = (c, t)" by (cases "QFile_remove dst s")
  note rem = QFile_remove_cases [OF t]
  obtain e u where u: "QFile_rename src dst t = (e, u)" by (cases "QFile_rename src dst t")
  note ren = QFile_rename_cases [OF u]
  have tsrc: "uf_files t src = Some d" using rem(2) Suc.prems(2,3) by auto
  show ?case
  proof (cases e)
    case True
    then have "b" "s' = u" using Suc.prems(1) t u by simp_all
    then show ?thesis using rem ren True tsrc Suc.prems(2) by (auto simp: fun_upd_twist)
  next
    case False
    then have r: "rename_loop n src dst u = (b, s')" using Suc.prems(1) t u by simp
    have "uf_files u = uf_files t" using ren(2) False by simp
    then have "uf_files u = uf_files s \<or> uf_files u = (uf_files s)(dst := None)" using rem(2) by auto
    moreover have "uf_launched u = uf_launched s" using rem(1) ren(1) by simp
    moreover note Suc.IH [OF r Suc.prems(2)]
    ultimately show ?thesis using tsrc \<open>uf_files u = uf_files t\<close> by (auto split: if_splits)
  qed
qed simp

lemma unzip_items_launched [simp]: "uf_launched (unzip_items E z ze is s) = uf_launched s"
  by (induction E z ze "is" s rule: unzip_items.induct) (simp_all add: Let_def split: option.split)

lemma unzipPatchFile_false:
  "fst (unzipPatchFile E s) = False" "uf_launched (snd (unzipPatchFile E s)) = uf_launched s"
proof -
  have "uf_launched (snd (QFile_remove f t)) = uf_launched t" for f t
    using QFile_remove_cases(1) [of f t] by (cases "QFile_remove f t") simp
  then show "fst (unzipPatchFile E s) = False" "uf_launched (snd (unzipPatchFile E s)) = uf_launched s"
    by (simp_all add: unzipPatchFile_def Let_def split: option.split)
qed

section \<open>The new program is kept\<close>

abbreviation program_path :: "upgrader_env \<Rightarrow> qstring" where
  "program_path E \<equiv> uz_dir E @ PROGRAM_FILE_NAME"

abbreviation patched_path :: "upgrader_env \<Rightarrow> qstring" where
  "patched_path E \<equiv> program_path E @ ascii ''_''"

text \<open>What unpacking leaves.\<close>

definition unpacked :: "upgrader_env \<Rightarrow> upgrader \<Rightarrow> upgrader" where
  "unpacked E s = snd (unzipPatchFile E (s\<lparr>uf_running := the (wait_loop (uf_running s))\<rparr>))"

lemma main_runs:
  assumes "wait_loop (uf_running s) \<noteq> None"
  shows "upgrader_main E s = Some (0, launchProgram PROGRAM_FILE_NAME (snd (renamePatchFile E PROGRAM_FILE_NAME (unpacked E s))))"
proof -
  obtain looks where looks: "wait_loop (uf_running s) = Some looks" using assms by blast
  obtain t where "unzipPatchFile E (s\<lparr>uf_running := looks\<rparr>) = (False, t)"
    using unzipPatchFile_false(1) [of E "s\<lparr>uf_running := looks\<rparr>"] by (metis prod.collapse)
  then show ?thesis using looks by (simp add: upgrader_main_def unpacked_def)
qed

lemma allowed_renaming:
  assumes "list_all (\<lambda>b. b) (uf_allows s)" "uf_files s src = Some d" "src \<noteq> dst"
  shows "fst (rename_loop (Suc n) src dst s)"
  using assms by (cases "uf_allows s"; cases "tl (uf_allows s)")
    (auto simp: QFile_remove_def QFile_rename_def allowed_def split: option.split list.split)

text \<open>What the patch brings, from its items: every item that reaches the disk, under the last name that could be
  read; of two with the same name the later counts.\<close>

fun last_name :: "upgrader_env \<Rightarrow> bytes \<Rightarrow> nat \<Rightarrow> qstring" where
  "last_name E z 0 = []"
| "last_name E z (Suc i) = (case uz_name E z i of None \<Rightarrow> last_name E z i | Some n \<Rightarrow> n)"

definition patch_items :: "upgrader_env \<Rightarrow> upgrader \<Rightarrow> (qstring \<times> bytes) list" where
  "patch_items E s =
     (case uf_files s (uz_dir E @ DEFAULT_UPGRADE_FILE_NAME) of
        None \<Rightarrow> []
      | Some z \<Rightarrow>
          if uz_open E z
          then List.map_filter (\<lambda>i. map_option (Pair (uz_target E (last_name E z (Suc i)))) (uz_leaves E z i))
                 [0..<(case uz_count E z of None \<Rightarrow> 0 | Some n \<Rightarrow> n)]
          else [])"

definition brought :: "upgrader_env \<Rightarrow> upgrader \<Rightarrow> files" where
  "brought E s = map_of (rev (patch_items E s))"

lemma unzip_items_files:
  "unzip_items E z (last_name E z a) [a..<b] s
   = s\<lparr>uf_files := uf_files s ++ map_of (rev (List.map_filter
       (\<lambda>i. map_option (Pair (uz_target E (last_name E z (Suc i)))) (uz_leaves E z i)) [a..<b]))\<rparr>"
proof (induction "b - a" arbitrary: a s)
  case 0
  then show ?case by (simp add: map_filter_simps)
next
  case (Suc n)
  then have ab: "[a..<b] = a # [Suc a..<b]" by (simp add: upt_conv_Cons)
  have l: "(case uz_name E z a of None \<Rightarrow> last_name E z a | Some n \<Rightarrow> n) = last_name E z (Suc a)" by simp
  have n: "n = b - Suc a" using Suc.hyps(2) by simp
  show ?case unfolding ab unzip_items.simps l Let_def Suc.hyps(1) [OF n]
    by (cases "uz_leaves E z a") (simp_all add: map_filter_simps map_add_upd_left map_upd_triv fun_eq_iff map_add_def
        split: option.split)
qed

lemma unpacked_files:
  fixes E s
  defines "Z \<equiv> uz_dir E @ DEFAULT_UPGRADE_FILE_NAME"
  shows "f \<noteq> Z \<Longrightarrow> uf_files (unpacked E s) f = (uf_files s ++ brought E s) f"
    and "uf_files (unpacked E s) Z \<in> {None, (uf_files s ++ brought E s) Z}"
    and "list_all (\<lambda>b. b) (uf_allows s) \<Longrightarrow> list_all (\<lambda>b. b) (uf_allows (unpacked E s))"
proof -
  let ?s = "s\<lparr>uf_running := the (wait_loop (uf_running s))\<rparr>"
  let ?t = "?s\<lparr>uf_files := uf_files s ++ brought E s\<rparr>"
  have "unpacked E s = ?s \<and> brought E s = Map.empty \<or> unpacked E s = snd (QFile_remove Z ?t)"
  proof (cases "uf_files s Z")
    case None
    then show ?thesis by (simp add: unpacked_def unzipPatchFile_def brought_def patch_items_def Z_def)
  next
    case (Some z)
    have items: "unzip_items E z [] [0..<n] ?s = ?s\<lparr>uf_files := uf_files ?s ++ map_of (rev (List.map_filter
       (\<lambda>i. map_option (Pair (uz_target E (last_name E z (Suc i)))) (uz_leaves E z i)) [0..<n]))\<rparr>" for n
      using unzip_items_files [of E z 0 n ?s] by simp
    have "unpacked E s = snd (QFile_remove Z ?t)" if "uz_open E z"
      using Some that items
      by (cases "uz_count E z") (simp_all add: unpacked_def unzipPatchFile_def brought_def patch_items_def Z_def Let_def
          map_filter_simps)
    moreover have "unpacked E s = ?s \<and> brought E s = Map.empty" if "\<not> uz_open E z"
      using Some that by (simp add: unpacked_def unzipPatchFile_def brought_def patch_items_def Z_def Let_def)
    ultimately show ?thesis by blast
  qed
  moreover have "f \<noteq> Z \<Longrightarrow> uf_files (snd (QFile_remove Z ?t)) f = uf_files ?t f"
    "uf_files (snd (QFile_remove Z ?t)) Z \<in> {None, uf_files ?t Z}"
    using QFile_remove_cases(2) [of Z ?t] by (cases "QFile_remove Z ?t"; auto)+
  moreover have "list_all (\<lambda>b. b) (uf_allows (snd (QFile_remove Z ?t)))" if "list_all (\<lambda>b. b) (uf_allows s)"
    using that by (auto simp: QFile_remove_def allowed_def split: option.split list.split)
  ultimately show "f \<noteq> Z \<Longrightarrow> uf_files (unpacked E s) f = (uf_files s ++ brought E s) f"
    "uf_files (unpacked E s) Z \<in> {None, (uf_files s ++ brought E s) Z}"
    "list_all (\<lambda>b. b) (uf_allows s) \<Longrightarrow> list_all (\<lambda>b. b) (uf_allows (unpacked E s))"
    by auto
qed

abbreviation patch_path :: "upgrader_env \<Rightarrow> qstring" where
  "patch_path E \<equiv> uz_dir E @ DEFAULT_UPGRADE_FILE_NAME"

lemma paths_apart:
  "patched_path E \<noteq> program_path E" "patch_path E \<noteq> program_path E" "patch_path E \<noteq> patched_path E"
  by (simp_all add: ascii_def DEFAULT_UPGRADE_FILE_NAME_def PROGRAM_FILE_NAME_def)

lemma renamed_files:
  assumes "u = snd (renamePatchFile E PROGRAM_FILE_NAME t)"
  shows "uf_launched u = uf_launched t \<and> (case uf_files t (patched_path E) of
       None \<Rightarrow> uf_files u = uf_files t
     | Some d \<Rightarrow> uf_files u = (uf_files t)(patched_path E := None, program_path E \<mapsto> d)
         \<or> \<not> list_all (\<lambda>b. b) (uf_allows t) \<and> uf_files u (patched_path E) = Some d
           \<and> (uf_files u = uf_files t \<or> uf_files u = (uf_files t)(program_path E := None)))"
proof (cases "uf_files t (patched_path E)")
  case None
  then show ?thesis using assms by (simp add: renamePatchFile_def)
next
  case (Some d)
  note ne = paths_apart(1) [of E]
  have eq: "renamePatchFile E PROGRAM_FILE_NAME t = rename_loop 5 (patched_path E) (program_path E) t"
    using Some by (simp add: renamePatchFile_def Let_def)
  obtain b v where bv: "rename_loop 5 (patched_path E) (program_path E) t = (b, v)" by fastforce
  have "b" if "list_all (\<lambda>b. b) (uf_allows t)"
    using allowed_renaming [OF that Some ne, of 4] bv by (simp add: eval_nat_numeral)
  then show ?thesis using rename_loop_files [OF bv ne Some] Some eq bv ne assms by (auto split: if_splits)
qed

text \<open>C26: The new program is never lost, and nothing else is touched.  Once the main program has ended, the upgrader
  always comes to its end and starts the program once.  The items of the patch are then on the disk in the
  place of what was there, as far as the zip library could write them, and every other file is as it was,
  but for the patch itself, which may be gone, and the program.  If there is now a file with the name of
  the new program, brought by the patch or left from before, it is either in the place of the old one, or
  still where it was, whatever the system refused, and then at most the old program is gone; if the system
  refuses nothing it is in its place.  If there is none, the program is the old one, unless the patch has
  an item for that very file, which is then the program.\<close>

theorem upgrade_keeps_new_program:
  assumes "wait_loop (uf_running s) \<noteq> None" and F_def: "F = uf_files s ++ brought E s"
  shows "\<exists>s'. upgrader_main E s = Some (0, s') \<and> uf_launched s' = uf_launched s @ [PROGRAM_FILE_NAME]
    \<and> (\<forall>f. f \<notin> {program_path E, patched_path E, patch_path E} \<longrightarrow> uf_files s' f = F f)
    \<and> uf_files s' (patch_path E) \<in> {None, F (patch_path E)}
    \<and> (case F (patched_path E) of
         None \<Rightarrow> uf_files s' (program_path E) = F (program_path E) \<and> uf_files s' (patched_path E) = None
       | Some d \<Rightarrow>
           uf_files s' (program_path E) = Some d \<and> uf_files s' (patched_path E) = None
           \<or> \<not> list_all (\<lambda>b. b) (uf_allows s) \<and> uf_files s' (patched_path E) = Some d
             \<and> uf_files s' (program_path E) \<in> {None, F (program_path E)})"
proof -
  let ?t = "unpacked E s"
  let ?u = "snd (renamePatchFile E PROGRAM_FILE_NAME ?t)"
  let ?s' = "launchProgram PROGRAM_FILE_NAME ?u"
  note p = paths_apart [of E]
  have t: "f \<noteq> patch_path E \<Longrightarrow> uf_files ?t f = F f" "uf_files ?t (patch_path E) \<in> {None, F (patch_path E)}" for f
    using unpacked_files(1) [where E = E and s = s] unpacked_files(2) [where E = E and s = s] by (simp_all add: F_def)
  have at: "uf_files ?t (patched_path E) = F (patched_path E)" "uf_files ?t (program_path E) = F (program_path E)"
    using p t(1) by metis+
  note u = renamed_files [OF refl, of E ?t] unpacked_files(3) [where E = E and s = s]
  have "uf_launched ?t = uf_launched s" by (simp add: unpacked_def unzipPatchFile_false(2))
  then have l: "uf_launched ?s' = uf_launched s @ [PROGRAM_FILE_NAME]" and f: "uf_files ?s' = uf_files ?u"
    using u(1) by (simp_all add: launchProgram_def)
  have c: "case F (patched_path E) of
         None \<Rightarrow> uf_files ?u = uf_files ?t
       | Some d \<Rightarrow> uf_files ?u = (uf_files ?t)(patched_path E := None, program_path E \<mapsto> d)
           \<or> \<not> list_all (\<lambda>b. b) (uf_allows s) \<and> uf_files ?u (patched_path E) = Some d
             \<and> (uf_files ?u = uf_files ?t \<or> uf_files ?u = (uf_files ?t)(program_path E := None))"
    using u at(1) by (auto split: option.splits)
  have "\<forall>f. f \<notin> {program_path E, patched_path E, patch_path E} \<longrightarrow> uf_files ?s' f = F f"
    unfolding f using c t(1) by (auto split: option.splits)
  moreover have "uf_files ?s' (patch_path E) \<in> {None, F (patch_path E)}"
    unfolding f using c t(2) p by (auto split: option.splits)
  moreover have "case F (patched_path E) of
         None \<Rightarrow> uf_files ?s' (program_path E) = F (program_path E) \<and> uf_files ?s' (patched_path E) = None
       | Some d \<Rightarrow>
           uf_files ?s' (program_path E) = Some d \<and> uf_files ?s' (patched_path E) = None
           \<or> \<not> list_all (\<lambda>b. b) (uf_allows s) \<and> uf_files ?s' (patched_path E) = Some d
             \<and> uf_files ?s' (program_path E) \<in> {None, F (program_path E)}"
    unfolding f using c at p by (auto split: option.splits)
  ultimately show ?thesis using main_runs [OF assms(1), of E] l by blast
qed

text \<open>An upgrade that fails is not noticed.  Unpacking returns false when it has failed and when it has not, and what
  the renaming returns is not looked at.  So the upgrader reports success whatever the patch was: a patch
  that cannot be opened stays where it is, and when the old program can be removed but the new one cannot
  be renamed, there is no program left under the name it starts.\<close>

lemma failed_upgrade_goes_unnoticed:
  assumes wait: "wait_loop (uf_running s) \<noteq> None"
    and bad: "uf_files s (uz_dir E @ DEFAULT_UPGRADE_FILE_NAME) = Some z" "\<not> uz_open E z"
    and old: "uf_files s (program_path E) = Some old" and new: "uf_files s (patched_path E) = Some d"
    and answers: "uf_allows s = True # replicate 5 False"
  shows "\<exists>s'. upgrader_main E s = Some (0, s') \<and> uf_launched s' = uf_launched s @ [PROGRAM_FILE_NAME]
    \<and> uf_files s' (program_path E) = None \<and> uf_files s' (patched_path E) = Some d
    \<and> uf_files s' (uz_dir E @ DEFAULT_UPGRADE_FILE_NAME) = Some z
    \<and> (\<forall>s r. upgrader_main E s = Some r \<longrightarrow> fst r = 0)"
proof -
  have ne: "patched_path E \<noteq> program_path E" "uz_dir E @ DEFAULT_UPGRADE_FILE_NAME \<noteq> program_path E"
    by (simp_all add: ascii_def DEFAULT_UPGRADE_FILE_NAME_def PROGRAM_FILE_NAME_def)
  have t: "unpacked E s = s\<lparr>uf_running := the (wait_loop (uf_running s))\<rparr>" (is "_ = ?t")
    using bad by (simp add: unpacked_def unzipPatchFile_def)
  have "renamePatchFile E PROGRAM_FILE_NAME ?t = (False, ?t\<lparr>uf_allows := [], uf_files := (uf_files s)(program_path E := None)\<rparr>)"
    using old new answers ne(1)
    by (cases s) (simp add: renamePatchFile_def Let_def eval_nat_numeral QFile_remove_def QFile_rename_def allowed_def)
  then have "\<exists>s'. upgrader_main E s = Some (0, s') \<and> uf_launched s' = uf_launched s @ [PROGRAM_FILE_NAME]
    \<and> uf_files s' (program_path E) = None \<and> uf_files s' (patched_path E) = Some d
    \<and> uf_files s' (uz_dir E @ DEFAULT_UPGRADE_FILE_NAME) = Some z"
    using main_runs [OF wait, of E] t ne bad(1) new by (simp add: launchProgram_def)
  moreover have "\<forall>s r. upgrader_main E s = Some r \<longrightarrow> fst r = 0"
  proof (intro allI impI)
    fix s r assume r: "upgrader_main E s = Some r"
    then have "wait_loop (uf_running s) \<noteq> None" by (auto simp: upgrader_main_def)
    from main_runs [OF this, of E] r show "fst r = 0" by simp
  qed
  ultimately show ?thesis by blast
qed

section \<open>Witnesses\<close>

definition sample_upgrader_env :: upgrader_env where
  "sample_upgrader_env = \<lparr>uz_dir = [67, 92], uz_open = (\<lambda>z. z \<noteq> []), uz_count = (\<lambda>z. Some 1),
     uz_name = (\<lambda>z i. Some (PROGRAM_FILE_NAME @ ascii ''_'')), uz_leaves = (\<lambda>z i. Some z),
     uz_target = (@) [67, 92]\<rparr>"

definition sample_upgrade :: "bytes \<Rightarrow> bool list \<Rightarrow> upgrader" where
  "sample_upgrade z allows = \<lparr>uf_files = [program_path sample_upgrader_env \<mapsto> [1], patched_path sample_upgrader_env \<mapsto> [2],
       uz_dir sample_upgrader_env @ DEFAULT_UPGRADE_FILE_NAME \<mapsto> z],
     uf_allows = allows, uf_launched = [], uf_running = [True, True, False]\<rparr>"

lemma upgrade_keeps_new_program_witness:
  "\<exists>s'. upgrader_main sample_upgrader_env (sample_upgrade [3] []) = Some (0, s')
     \<and> uf_files s' (program_path sample_upgrader_env) = Some [3] \<and> uf_files s' [66] = None"
proof -
  let ?s = "sample_upgrade [3] []" and ?E = sample_upgrader_env
  have wait: "wait_loop (uf_running ?s) \<noteq> None" by (simp add: sample_upgrade_def)
  have "brought ?E ?s = [patched_path ?E \<mapsto> [3]]"
    by (simp add: brought_def patch_items_def sample_upgrade_def sample_upgrader_env_def map_filter_simps)
  then have "(uf_files ?s ++ brought ?E ?s) (patched_path ?E) = Some [3]" "list_all (\<lambda>b. b) (uf_allows ?s)"
    "(uf_files ?s ++ brought ?E ?s) [66] = None"
    by (simp_all add: sample_upgrade_def sample_upgrader_env_def)
  moreover have "[66] \<notin> {program_path ?E, patched_path ?E, patch_path ?E}" by (simp add: sample_upgrader_env_def)
  ultimately show ?thesis using upgrade_keeps_new_program [OF wait refl, of ?E] by auto
qed

end
