(* ===== verification/NetServer.thy ===== *)
theory NetServer
  imports NetSession
begin

text \<open>
  The acceptor of a client and the thread of its sockets, \<^verbatim>\<open>NetPeerServer.h\<close> and \<^verbatim>\<open>NetServiceRunner.h\<close>.
  Boost.Asio calls a completion handler once for each operation that is waiting; closing the acceptor
  completes the waiting one with an error.
\<close>

section \<open>The thread\<close>

text \<open>\<open>sr_timer\<close> says whether the timer waits, \<open>sr_running\<close> whether the thread is in \<^verbatim>\<open>io_service_.run\<close>.\<close>

record service_runner =
  sr_stopped :: bool
  sr_threadStarted :: bool
  sr_running :: bool
  sr_timer :: bool
  sr_sessionIdPool :: int

definition runner_start_thread :: "service_runner \<Rightarrow> service_runner" where
  "runner_start_thread s =
     (if sr_threadStarted s then s else s\<lparr>sr_stopped := False, sr_threadStarted := True, sr_running := True\<rparr>)"

definition startIdleTimer :: "service_runner \<Rightarrow> service_runner" where
  "startIdleTimer s = runner_start_thread (s\<lparr>sr_timer := True\<rparr>)"

definition new_runner :: "int \<Rightarrow> service_runner" where
  "new_runner i = startIdleTimer
     \<lparr>sr_stopped = True, sr_threadStarted = False, sr_running = False, sr_timer = False, sr_sessionIdPool = i\<rparr>"

definition newSessionId :: "service_runner \<Rightarrow> int \<times> service_runner" where
  "newSessionId s = (sr_sessionIdPool s, s\<lparr>sr_sessionIdPool := sr_sessionIdPool s + 1\<rparr>)"

definition newSession :: "service_runner \<Rightarrow> peer_session \<times> service_runner" where
  "newSession s = (case newSessionId s of (i, s) \<Rightarrow> (new_peer_session i, s))"

text \<open>The thread leaves \<^verbatim>\<open>run\<close> when the service is stopped; joining waits for that.\<close>

definition runner_threadMain_ends :: "service_runner \<Rightarrow> service_runner" where
  "runner_threadMain_ends s = s\<lparr>sr_running := False, sr_threadStarted := False\<rparr>"

definition runner_stop_thread :: "service_runner \<Rightarrow> service_runner" where
  "runner_stop_thread s = (if \<not> sr_threadStarted s then s else (runner_threadMain_ends s)\<lparr>sr_threadStarted := False\<rparr>)"

definition runner_close :: "service_runner \<Rightarrow> service_runner" where
  "runner_close s = runner_stop_thread (s\<lparr>sr_stopped := True, sr_timer := False\<rparr>)"

definition runner_handle_idle_timer :: "service_runner \<Rightarrow> service_runner" where
  "runner_handle_idle_timer s = (let s = s\<lparr>sr_timer := False\<rparr> in if sr_stopped s then s else startIdleTimer s)"

section \<open>The acceptor\<close>

text \<open>\<open>as_waiting\<close> is the session that waits to be accepted, \<open>as_accepted\<close> what the target of the events got.\<close>

record acceptor =
  as_runner :: service_runner
  as_open :: bool
  as_waiting :: "int option"
  as_accepted :: "int list"

definition as_start_accept :: "acceptor \<Rightarrow> acceptor" where
  "as_start_accept s =
     (case newSessionId (as_runner s) of (i, r) \<Rightarrow> s\<lparr>as_runner := r, as_waiting := Some i\<rparr>)"

definition as_close :: "acceptor \<Rightarrow> acceptor" where
  "as_close s = s\<lparr>as_open := False\<rparr>"

definition as_start :: "(int \<Rightarrow> bool) \<Rightarrow> int \<Rightarrow> acceptor \<Rightarrow> bool \<times> acceptor" where
  "as_start bind port s =
     (if as_open s \<or> \<not> bind port then (False, as_close s) else (True, as_start_accept (s\<lparr>as_open := True\<rparr>)))"

definition as_handle_accept :: "bool \<Rightarrow> acceptor \<Rightarrow> acceptor" where
  "as_handle_accept error s =
     (case as_waiting s of
        None \<Rightarrow> s
      | Some i \<Rightarrow>
          (let s = s\<lparr>as_waiting := None\<rparr> in
           if \<not> error then as_start_accept (s\<lparr>as_accepted := as_accepted s @ [i]\<rparr>) else s))"

text \<open>What can happen to a server after it has been started, with other sessions made by the same runner.\<close>

inductive server_step :: "acceptor \<Rightarrow> acceptor \<Rightarrow> bool" where
  accepted: "as_open s \<Longrightarrow> server_step s (as_handle_accept False s)"
| failed: "server_step s (as_handle_accept True s)"
| other: "server_step s (s\<lparr>as_runner := snd (newSession (as_runner s))\<rparr>)"
| idle: "sr_timer (as_runner s) \<Longrightarrow> server_step s (s\<lparr>as_runner := runner_handle_idle_timer (as_runner s)\<rparr>)"

section \<open>What holds of them\<close>

lemmas server_defs = as_handle_accept_def as_start_accept_def as_start_def as_close_def newSessionId_def newSession_def
  runner_handle_idle_timer_def startIdleTimer_def runner_start_thread_def Let_def

text \<open>The thread goes on as long as nobody closes the runner: its timer always waits.\<close>

definition runner_alive :: "service_runner \<Rightarrow> bool" where
  "runner_alive r \<longleftrightarrow> \<not> sr_stopped r \<and> sr_threadStarted r \<and> sr_running r \<and> sr_timer r"

lemma new_runner_alive: "runner_alive (new_runner i)"
  by (simp add: runner_alive_def new_runner_def server_defs)

lemma closed_runner_rests:
  "\<not> sr_running (runner_close r) \<or> \<not> sr_threadStarted r" "\<not> sr_timer (runner_close r)" "sr_stopped (runner_close r)"
  "runner_handle_idle_timer (runner_close r) = runner_close r"
  by (simp_all add: runner_close_def runner_stop_thread_def runner_threadMain_ends_def runner_handle_idle_timer_def)

text \<open>The ids of the sessions: each accepted once, in growing order, and below the next id.\<close>

definition server_ok :: "acceptor \<Rightarrow> bool" where
  "server_ok s \<longleftrightarrow> runner_alive (as_runner s) \<and> sorted_wrt (<) (as_accepted s @ (case as_waiting s of None \<Rightarrow> [] | Some i \<Rightarrow> [i]))
     \<and> (\<forall>i \<in> set (as_accepted s @ (case as_waiting s of None \<Rightarrow> [] | Some i \<Rightarrow> [i])). i < sr_sessionIdPool (as_runner s))"

lemma server_step_ok:
  assumes "server_step s t" "server_ok s"
  shows "server_ok t"
  using assms
  by (cases rule: server_step.cases)
    (auto simp: server_ok_def runner_alive_def server_defs sorted_wrt_append split: option.splits)

text \<open>
  Sessions get distinct ids, in the order in which they are accepted.  One accept that fails is the last:
  the acceptor stays open, but no session waits any more, and none is accepted whatever happens.
\<close>

lemma server_run:
  assumes "server_step\<^sup>*\<^sup>* s t" and "server_ok s"
  shows "server_ok t \<and> distinct (as_accepted t) \<and> (as_waiting s = None \<longrightarrow> as_waiting t = None \<and> as_accepted t = as_accepted s)"
  using assms(1)
proof (induction rule: rtranclp_induct)
  case base
  then show ?case using assms(2) by (auto simp: server_ok_def sorted_wrt_append strict_sorted_iff)
next
  case (step t u)
  then have u: "server_ok u" using server_step_ok by blast
  then have "distinct (as_accepted u)" by (auto simp: server_ok_def sorted_wrt_append strict_sorted_iff)
  moreover have "as_waiting t = None \<Longrightarrow> as_waiting u = None \<and> as_accepted u = as_accepted t"
    using step(2) by (cases rule: server_step.cases) (auto simp: as_handle_accept_def)
  ultimately show ?case using u step.IH by metis
qed

lemma failed_accept_is_last:
  assumes "server_ok s" "server_step\<^sup>*\<^sup>* (as_handle_accept True s) t"
  shows "as_open (as_handle_accept True s) = as_open s \<and> as_accepted t = as_accepted s"
proof -
  have "server_ok (as_handle_accept True s)" by (rule server_step_ok [OF server_step.failed assms(1)])
  moreover have "as_waiting (as_handle_accept True s) = None" "as_accepted (as_handle_accept True s) = as_accepted s"
    "as_open (as_handle_accept True s) = as_open s"
    by (simp_all add: as_handle_accept_def Let_def split: option.split)
  ultimately show ?thesis using server_run [OF assms(2)] by simp
qed

end
