(* ===== verification/WindowDialogs.thy ===== *)
theory WindowDialogs
  imports WindowNames
begin

text \<open>
  The two windows that are shown while the program waits, \<^verbatim>\<open>SharedPainter.h\<close>, \<^verbatim>\<open>FindingServerDialog\<close> and
  \<^verbatim>\<open>SyncDataProgressDialog\<close>: one while a server is searched, one while the drawing is received.  Each runs
  an event loop of its own, inside which everything else goes on, another such window included; so the
  loops nest, and the last that was started ends first.
\<close>

section \<open>State\<close>

datatype dialog_kind = Finding_Dialog | Sync_Dialog

datatype window_deferred = Later_show dialog_kind | Later_hideSync

datatype Status = INIT | CONNECTED | CONNECTFAILED | DISCONNECTED

text \<open>
  \<open>dw_window\<close> are the pointers \<^verbatim>\<open>findingServerWindow_\<close> and \<^verbatim>\<open>syncProgressWindow_\<close>, \<open>dw_exec\<close> the windows whose
  loop runs, the innermost first; a window that is rejected leaves its loop when it can.
\<close>

record dialogs =
  dw_pm :: paint_manager
  dw_window :: "dialog_kind \<Rightarrow> nat option"
  dw_exec :: "(dialog_kind \<times> nat) list"
  dw_rejected :: "nat list"
  dw_canceled :: "nat list"
  dw_deleted :: "nat list"
  dw_next :: nat
  dw_remain :: int
  dw_deferred :: "window_deferred list"
  dw_status :: Status

definition FINDING_SERVER_TRY_COUNT :: int where
  "FINDING_SERVER_TRY_COUNT = 20"

section \<open>The windows\<close>

definition reject :: "nat \<Rightarrow> dialogs \<Rightarrow> dialogs" where
  "reject i s = s\<lparr>dw_rejected := i # dw_rejected s\<rparr>"

definition setCanceled :: "nat \<Rightarrow> dialogs \<Rightarrow> dialogs" where
  "setCanceled i s = reject i (s\<lparr>dw_canceled := i # dw_canceled s\<rparr>)"

definition setRemainCount :: "int \<Rightarrow> dialogs \<Rightarrow> dialogs" where
  "setRemainCount n s = s\<lparr>dw_remain := n\<rparr>"

definition hide_window :: "dialog_kind \<Rightarrow> dialogs \<Rightarrow> dialogs" where
  "hide_window k s = (case dw_window s k of None \<Rightarrow> s | Some i \<Rightarrow> reject i s)"

text \<open>Up to the call of \<^verbatim>\<open>exec\<close>.\<close>

definition show_window :: "dialog_kind \<Rightarrow> dialogs \<Rightarrow> dialogs" where
  "show_window k s =
     (let s = hide_window k s; i = dw_next s in
      s\<lparr>dw_window := (dw_window s)(k := Some i), dw_next := i + 1, dw_exec := (k, i) # dw_exec s\<rparr>)"

definition onCancel :: "dialog_kind \<Rightarrow> dialogs \<Rightarrow> dialogs" where
  "onCancel k s = (case dw_window s k of None \<Rightarrow> s | Some i \<Rightarrow> setCanceled i s)"

text \<open>The timer of the window that is shown while the drawing is received.\<close>

definition sync_onTimer :: "dialogs \<Rightarrow> dialogs" where
  "sync_onTimer s = (if \<not> isConnected (dw_pm s) then hide_window Sync_Dialog s else s)"

section \<open>What the manager reports\<close>

definition onServerFinding :: "int \<Rightarrow> dialogs \<Rightarrow> dialogs" where
  "onServerFinding sentCount s =
     (case dw_window s Finding_Dialog of
        None \<Rightarrow> s
      | Some i \<Rightarrow>
          (let remainCount = FINDING_SERVER_TRY_COUNT - sentCount in
           if remainCount < 0 then setCanceled i s else setRemainCount remainCount s))"

definition setStatus :: "Status \<Rightarrow> dialogs \<Rightarrow> dialogs" where
  "setStatus st s = s\<lparr>dw_status := st\<rparr>"

definition call_later :: "window_deferred \<Rightarrow> dialogs \<Rightarrow> dialogs" where
  "call_later d s = s\<lparr>dw_deferred := dw_deferred s @ [d]\<rparr>"

definition onDisconnected_dialogs :: "dialogs \<Rightarrow> dialogs" where
  "onDisconnected_dialogs s =
     (let s = (if pm_findingServerMode (dw_pm s) then call_later (Later_show Finding_Dialog) s else s) in
      hide_window Sync_Dialog (setStatus DISCONNECTED s))"

definition onConnected_dialogs :: "dialogs \<Rightarrow> dialogs" where
  "onConnected_dialogs s = hide_window Finding_Dialog (setStatus CONNECTED s)"

definition window_event :: "observer_call \<Rightarrow> dialogs \<Rightarrow> dialogs" where
  "window_event c s = (case c of
       Ob_Connected i \<Rightarrow> onConnected_dialogs s
     | Ob_ConnectFailed \<Rightarrow> setStatus CONNECTFAILED s
     | Ob_Disconnected \<Rightarrow> onDisconnected_dialogs s
     | Ob_SyncStart \<Rightarrow> call_later (Later_show Sync_Dialog) s
     | Ob_SyncComplete \<Rightarrow> call_later Later_hideSync s
     | Ob_ServerFinding n \<Rightarrow> onServerFinding n s
     | _ \<Rightarrow> s)"

text \<open>A call of the manager, and what it reports during the call.\<close>

definition on_dpm :: "'a pm \<Rightarrow> (dialogs, 'a) meth" where
  "on_dpm m s = (case m (dw_pm s) of (r, p) \<Rightarrow>
     (r, fold window_event (drop (length (pm_trace (dw_pm s))) (pm_trace p)) (s\<lparr>dw_pm := p\<rparr>)))"

section \<open>After the loop of a window\<close>

definition delete_window :: "dialog_kind \<Rightarrow> dialogs \<Rightarrow> dialogs" where
  "delete_window k s = (case dw_window s k of None \<Rightarrow> s
     | Some i \<Rightarrow> s\<lparr>dw_deleted := i # dw_deleted s, dw_window := (dw_window s)(k := None)\<rparr>)"

definition after_exec :: "env \<Rightarrow> dialog_kind \<Rightarrow> (dialogs, unit) meth" where
  "after_exec e k s =
     thenS (if (case dw_window s k of None \<Rightarrow> False | Some i \<Rightarrow> i \<in> set (dw_canceled s))
       then (case k of Finding_Dialog \<Rightarrow> on_dpm (stopFindingServer e) | Sync_Dialog \<Rightarrow> on_dpm (pm_close e))
       else returnS ())
     (updS (delete_window k)) s"

definition exec_returns :: "env \<Rightarrow> (dialogs, unit) meth" where
  "exec_returns e s =
     (case dw_exec s of
        [] \<Rightarrow> (Inr (), s)
      | (k, i) # ex \<Rightarrow> if i \<in> set (dw_rejected s) then after_exec e k (s\<lparr>dw_exec := ex\<rparr>) else (Inr (), s))"

section \<open>Asking for them\<close>

text \<open>The action, once the names are known; \<open>None\<close> when no port is found.\<close>

definition actionFindingServer :: "env \<Rightarrow> dialogs \<Rightarrow> (unit result \<times> dialogs) option" where
  "actionFindingServer e s =
     (if \<not> pm_findingServerMode (dw_pm s)
      then map_option (\<lambda>(r, p).
          (let s' = snd (on_dpm (\<lambda>_. (r, p)) s) in
           case r of Inl err \<Rightarrow> (Inl err, s') | Inr ok \<Rightarrow> (Inr (), if ok then show_window Finding_Dialog s' else s')))
        (startFindingServer e (dw_pm s))
      else Some (on_dpm (stopFindingServer e) s))"

definition onGetServerInfo :: "env \<Rightarrow> bytes \<Rightarrow> int \<Rightarrow> (dialogs, unit) meth" where
  "onGetServerInfo e addr port s =
     (if \<not> isConnected (dw_pm s) \<and> pm_findingServerMode (dw_pm s) \<and> \<not> isConnecting (dw_pm s)
      then bindS (on_dpm (connectToPeer e addr port)) (\<lambda>ok. returnS ()) s else (Inr (), s))"

definition run_later :: "dialogs \<Rightarrow> dialogs" where
  "run_later s =
     (case dw_deferred s of
        [] \<Rightarrow> s
      | d # ds \<Rightarrow> (let s = s\<lparr>dw_deferred := ds\<rparr> in
          case d of Later_show k \<Rightarrow> show_window k s | Later_hideSync \<Rightarrow> hide_window Sync_Dialog s))"

text \<open>The timer of the search: a message is sent, and reported to the window.\<close>

definition finding_tick :: "env \<Rightarrow> dialogs \<Rightarrow> dialogs" where
  "finding_tick e s =
     (case pm_bcFinder (dw_pm s) of
        None \<Rightarrow> s
      | Some b \<Rightarrow>
          (let b' = bc_handle_timer False b in
           fold (\<lambda>ev s. case ev of Bc_SentMessage n \<Rightarrow> snd (on_dpm (fireObserver e (Ob_ServerFinding n)) s) | _ \<Rightarrow> s)
             (drop (length (bc_fired b)) (bc_fired b')) (s\<lparr>dw_pm := (dw_pm s)\<lparr>pm_bcFinder := Some b'\<rparr>\<rparr>)))"

text \<open>Whatever the manager does besides is any change of it, with any reports.\<close>

inductive dialog_step :: "env \<Rightarrow> dialogs \<Rightarrow> dialogs \<Rightarrow> bool" for e where
  search: "actionFindingServer e s = Some (r, s') \<Longrightarrow> dialog_step e s s'"
| found: "dialog_step e s (snd (onGetServerInfo e addr port s))"
| deferred: "dialog_step e s (run_later s)"
| cancel: "dialog_step e s (onCancel k s)"
| timer: "dialog_step e s (sync_onTimer s)"
| tick: "dialog_step e s (finding_tick e s)"
| returned: "exec_returns e s = (Inr (), s') \<Longrightarrow> dialog_step e s s'"
| other: "dialog_step e s (snd (on_dpm (m :: unit pm) s))"

section \<open>No pointer dangles\<close>

definition first_of :: "dialog_kind \<Rightarrow> (dialog_kind \<times> nat) list \<Rightarrow> nat option" where
  "first_of k ex = map_option snd (find (\<lambda>e. fst e = k) ex)"

lemma first_of_simps [simp]:
  "first_of k [] = None" "first_of k ((j, i) # ex) = (if j = k then Some i else first_of k ex)"
  by (simp_all add: first_of_def)

lemma first_of_in: "first_of k ex = Some i \<Longrightarrow> (k, i) \<in> set ex"
  by (induction ex) (auto split: if_splits)

text \<open>
  A pointer is that of the innermost window of its kind; a window that has not been rejected is the one
  its pointer points to; a window whose loop runs has not been deleted.
\<close>

definition dialogs_ok :: "dialogs \<Rightarrow> bool" where
  "dialogs_ok s \<longleftrightarrow> distinct (map snd (dw_exec s))
     \<and> (\<forall>k i. (k, i) \<in> set (dw_exec s) \<longrightarrow> i < dw_next s \<and> i \<notin> set (dw_deleted s)
          \<and> (i \<notin> set (dw_rejected s) \<longrightarrow> dw_window s k = Some i))
     \<and> (\<forall>i \<in> set (dw_deleted s). i < dw_next s)
     \<and> (\<forall>k i. dw_window s k = Some i \<longrightarrow> first_of k (dw_exec s) = Some i)"

text \<open>Most calls only reject windows, or change what has nothing to do with them.\<close>

definition only_rejects :: "dialogs \<Rightarrow> dialogs \<Rightarrow> bool" where
  "only_rejects s t \<longleftrightarrow> dw_window t = dw_window s \<and> dw_exec t = dw_exec s \<and> dw_deleted t = dw_deleted s
     \<and> dw_next t = dw_next s \<and> set (dw_rejected s) \<subseteq> set (dw_rejected t)"

lemma dialogs_okD:
  assumes "dialogs_ok s"
  shows "distinct (map snd (dw_exec s))"
    and "(k, i) \<in> set (dw_exec s) \<Longrightarrow> i < dw_next s"
    and "(k, i) \<in> set (dw_exec s) \<Longrightarrow> i \<notin> set (dw_deleted s)"
    and "(k, i) \<in> set (dw_exec s) \<Longrightarrow> i \<notin> set (dw_rejected s) \<Longrightarrow> dw_window s k = Some i"
    and "i \<in> set (dw_deleted s) \<Longrightarrow> i < dw_next s"
    and "dw_window s k = Some i \<Longrightarrow> first_of k (dw_exec s) = Some i"
  using assms unfolding dialogs_ok_def by blast+

lemma dialogs_okI:
  assumes "distinct (map snd (dw_exec s))"
    and "\<And>k i. (k, i) \<in> set (dw_exec s) \<Longrightarrow> i < dw_next s"
    and "\<And>k i. (k, i) \<in> set (dw_exec s) \<Longrightarrow> i \<notin> set (dw_deleted s)"
    and "\<And>k i. (k, i) \<in> set (dw_exec s) \<Longrightarrow> i \<notin> set (dw_rejected s) \<Longrightarrow> dw_window s k = Some i"
    and "\<And>i. i \<in> set (dw_deleted s) \<Longrightarrow> i < dw_next s"
    and "\<And>k i. dw_window s k = Some i \<Longrightarrow> first_of k (dw_exec s) = Some i"
  shows "dialogs_ok s"
  unfolding dialogs_ok_def using assms by blast

lemma only_rejects_ok:
  assumes "only_rejects s t" "dialogs_ok s"
  shows "dialogs_ok t"
proof -
  have same: "dw_window t = dw_window s" "dw_exec t = dw_exec s" "dw_deleted t = dw_deleted s" "dw_next t = dw_next s"
    "\<And>i. i \<in> set (dw_rejected s) \<Longrightarrow> i \<in> set (dw_rejected t)"
    using assms(1) by (auto simp: only_rejects_def)
  note d = dialogs_okD [OF assms(2)]
  show ?thesis by (rule dialogs_okI; unfold same(1-4)) (use d same(5) in blast)+
qed

lemma only_rejects_refl [simp]: "only_rejects s s"
  by (simp add: only_rejects_def)

lemma only_rejects_trans: "only_rejects s t \<Longrightarrow> only_rejects t u \<Longrightarrow> only_rejects s u"
  by (auto simp: only_rejects_def)

lemmas dialog_defs = reject_def setCanceled_def setRemainCount_def hide_window_def onCancel_def sync_onTimer_def
  onServerFinding_def setStatus_def call_later_def onDisconnected_dialogs_def onConnected_dialogs_def Let_def

lemma rejecting [simp]:
  "only_rejects s (hide_window k s)" "only_rejects s (onCancel k s)" "only_rejects s (sync_onTimer s)"
  "only_rejects s (s\<lparr>dw_pm := p\<rparr>)"
  by (auto simp: only_rejects_def dialog_defs split: option.split)

lemma window_event_rejects: "only_rejects s (window_event c s)"
  by (cases c) (auto simp: only_rejects_def window_event_def dialog_defs split: option.split)

lemma events_reject: "only_rejects s (fold window_event cs s)"
  by (induction cs arbitrary: s) (auto intro: only_rejects_trans window_event_rejects)

lemma on_dpm_rejects: "only_rejects s (snd (on_dpm m s))"
  by (auto simp: on_dpm_def split: prod.split intro: only_rejects_trans [OF rejecting(4) events_reject])

lemma finding_tick_rejects: "only_rejects s (finding_tick e s)"
proof -
  have "only_rejects s (fold (\<lambda>ev s. case ev of Bc_SentMessage n \<Rightarrow> snd (on_dpm (fireObserver e (Ob_ServerFinding n)) s) | _ \<Rightarrow> s) evs s)" for evs s
    by (induction evs arbitrary: s) (auto intro: only_rejects_trans on_dpm_rejects split: broadcast_event.split)
  then show ?thesis
    by (auto simp: finding_tick_def Let_def split: option.split intro: only_rejects_trans [OF rejecting(4)])
qed

lemma show_window_ok:
  assumes "dialogs_ok s"
  shows "dialogs_ok (show_window k s)"
proof -
  let ?s = "hide_window k s"
  have s: "dialogs_ok ?s" by (rule only_rejects_ok [OF rejecting(1) assms])
  note d = dialogs_okD [OF s]
  let ?n = "dw_next ?s" and ?t = "show_window k s"
  have t: "dw_window ?t = (dw_window ?s)(k := Some ?n)" "dw_exec ?t = (k, ?n) # dw_exec ?s" "dw_deleted ?t = dw_deleted ?s"
    "dw_next ?t = ?n + 1" "dw_rejected ?t = dw_rejected ?s"
    by (simp_all add: show_window_def Let_def)
  have old: "i \<in> set (dw_rejected ?s)" if "(k, i) \<in> set (dw_exec ?s)" for i
  proof (rule ccontr)
    assume "i \<notin> set (dw_rejected ?s)"
    then have "dw_window ?s k = Some i" using d(4) that by blast
    moreover have "dw_window ?s k = Some i \<Longrightarrow> i \<in> set (dw_rejected ?s)"
      by (auto simp: hide_window_def reject_def split: option.splits)
    ultimately show False using \<open>i \<notin> set (dw_rejected ?s)\<close> by blast
  qed
  show ?thesis
  proof (rule dialogs_okI; unfold t)
    show "distinct (map snd ((k, ?n) # dw_exec ?s))" using d(1,2) by fastforce
    show "i < ?n + 1" if "(j, i) \<in> set ((k, ?n) # dw_exec ?s)" for j i using that d(2) [of j i] by auto
    show "i \<notin> set (dw_deleted ?s)" if "(j, i) \<in> set ((k, ?n) # dw_exec ?s)" for j i
      using that d(3) [of j i] d(5) [of i] by auto
    show "((dw_window ?s)(k := Some ?n)) j = Some i"
      if "(j, i) \<in> set ((k, ?n) # dw_exec ?s)" "i \<notin> set (dw_rejected ?s)" for j i
      using that d(4) [of j i] old [of i] by auto
    show "i < ?n + 1" if "i \<in> set (dw_deleted ?s)" for i using d(5) [OF that] by simp
    show "first_of j ((k, ?n) # dw_exec ?s) = Some i" if "((dw_window ?s)(k := Some ?n)) j = Some i" for j i
      using that d(6) [of j i] by (auto split: if_splits)
  qed
qed

lemma delete_window_ok:
  assumes "dialogs_ok s" "dw_exec s = (k, i) # ex" "i \<in> set (dw_rejected s)"
    and t: "only_rejects (s\<lparr>dw_exec := ex\<rparr>) t"
  shows "dialogs_ok (delete_window k t)"
proof -
  have same: "dw_window t = dw_window s" "dw_exec t = ex" "dw_deleted t = dw_deleted s" "dw_next t = dw_next s"
    "set (dw_rejected s) \<subseteq> set (dw_rejected t)"
    using t by (simp_all add: only_rejects_def)
  note d = dialogs_okD [OF assms(1), unfolded assms(2)]
  have is_k: "c = i" if "dw_window s k = Some c" for c using d(6) [OF that] by simp
  have fresh: "(j, i) \<notin> set ex" for j using d(1) by (force simp: image_iff)
  show ?thesis
  proof (cases "dw_window s k")
    case None
    then have eq: "delete_window k t = t" by (simp add: delete_window_def same)
    show ?thesis unfolding eq
    proof (rule dialogs_okI; unfold same(1-4))
      show "distinct (map snd ex)" using d(1) by simp
      show "j < dw_next s" if "(l, j) \<in> set ex" for l j using d(2) [of l j] that by simp
      show "j \<notin> set (dw_deleted s)" if "(l, j) \<in> set ex" for l j using d(3) [of l j] that by simp
      show "dw_window s l = Some j" if "(l, j) \<in> set ex" "j \<notin> set (dw_rejected t)" for l j
        using d(4) [of l j] that same(5) by auto
      show "j < dw_next s" if "j \<in> set (dw_deleted s)" for j using d(5) [OF that] .
      show "first_of l ex = Some j" if "dw_window s l = Some j" for l j
        using d(6) [OF that] None that by (auto split: if_splits)
    qed
  next
    case (Some c)
    then have c: "c = i" by (rule is_k)
    have eq: "dw_window (delete_window k t) = (dw_window s)(k := None)" "dw_exec (delete_window k t) = ex"
      "dw_deleted (delete_window k t) = i # dw_deleted s" "dw_next (delete_window k t) = dw_next s"
      "dw_rejected (delete_window k t) = dw_rejected t"
      using Some c by (simp_all add: delete_window_def same)
    show ?thesis
    proof (rule dialogs_okI; unfold eq)
      show "distinct (map snd ex)" using d(1) by simp
      show "j < dw_next s" if "(l, j) \<in> set ex" for l j using d(2) [of l j] that by simp
      show "j \<notin> set (i # dw_deleted s)" if "(l, j) \<in> set ex" for l j using d(3) [of l j] that fresh [of l] by auto
      show "((dw_window s)(k := None)) l = Some j" if "(l, j) \<in> set ex" "j \<notin> set (dw_rejected t)" for l j
      proof -
        have "j \<notin> set (dw_rejected s)" using that(2) same(5) by auto
        then have "dw_window s l = Some j" using d(4) [of l j] that(1) by simp
        then show ?thesis using fresh [of l] that(1) Some c by (cases "l = k") auto
      qed
      show "j < dw_next s" if "j \<in> set (i # dw_deleted s)" for j using d(5) [of j] d(2) [of k i] that by auto
      show "first_of l ex = Some j" if "((dw_window s)(k := None)) l = Some j" for l j
        using d(6) [of l j] that by (auto split: if_splits)
    qed
  qed
qed

lemma dialog_step_ok:
  assumes "dialog_step e s t" "dialogs_ok s"
  shows "dialogs_ok t"
  using assms(1)
proof cases
  case (search r)
  show ?thesis
  proof (cases "pm_findingServerMode (dw_pm s)")
    case True
    then have "on_dpm (stopFindingServer e) s = (r, t)" using search by (simp add: actionFindingServer_def)
    then show ?thesis using only_rejects_ok [OF on_dpm_rejects [of s "stopFindingServer e"] assms(2)] by simp
  next
    case False
    then obtain q p where "startFindingServer e (dw_pm s) = Some (q, p)"
      and t: "(r, t) = (let s' = snd (on_dpm (\<lambda>_. (q, p)) s) in
        case q of Inl err \<Rightarrow> (Inl err, s') | Inr ok \<Rightarrow> (Inr (), if ok then show_window Finding_Dialog s' else s'))"
      using search by (auto simp: actionFindingServer_def)
    have called: "dialogs_ok (snd (on_dpm (\<lambda>_. (q, p)) s))" by (rule only_rejects_ok [OF on_dpm_rejects assms(2)])
    show ?thesis
    proof (cases q)
      case (Inl err)
      then show ?thesis using t called by simp
    next
      case (Inr ok)
      then show ?thesis using t called show_window_ok [OF called] by (cases ok) simp_all
    qed
  qed
next
  case (found addr port)
  have "only_rejects s (snd (onGetServerInfo e addr port s))"
    using on_dpm_rejects [of s "connectToPeer e addr port"]
    by (auto simp: onGetServerInfo_def bindS_def returnS_def split: prod.splits sum.splits)
  then show ?thesis using only_rejects_ok assms(2) found by blast
next
  case deferred
  have "dialogs_ok (s\<lparr>dw_deferred := ds\<rparr>)" for ds
    using assms(2) by (rule only_rejects_ok [rotated]) (simp add: only_rejects_def)
  then show ?thesis using show_window_ok only_rejects_ok [OF rejecting(1)] assms(2) deferred
    by (auto simp: run_later_def Let_def split: list.split window_deferred.split)
next
  case returned
  show ?thesis
  proof (cases "dw_exec s")
    case Nil
    then show ?thesis using returned assms(2) by (simp add: exec_returns_def)
  next
    case (Cons d ex)
    obtain k i where d: "d = (k, i)" by (cases d)
    show ?thesis
    proof (cases "i \<in> set (dw_rejected s)")
      case False
      then show ?thesis using returned assms(2) Cons d by (simp add: exec_returns_def)
    next
      case True
      let ?s = "s\<lparr>dw_exec := ex\<rparr>"
      have "after_exec e k ?s = (Inr (), t)" using returned Cons d True by (simp add: exec_returns_def)
      then obtain u where u: "t = delete_window k u" "only_rejects ?s u"
        using on_dpm_rejects [of ?s "stopFindingServer e"] on_dpm_rejects [of ?s "pm_close e"]
        by (auto simp: after_exec_def thenS_def bindS_def updS_def returnS_def split: prod.splits sum.splits if_splits dialog_kind.splits)
      then show ?thesis using delete_window_ok [OF assms(2) _ True u(2)] Cons d by simp
    qed
  qed
qed (use assms(2) only_rejects_ok rejecting finding_tick_rejects on_dpm_rejects in blast)+

definition new_dialogs :: "paint_manager \<Rightarrow> dialogs" where
  "new_dialogs p = \<lparr>dw_pm = p, dw_window = (\<lambda>_. None), dw_exec = [], dw_rejected = [], dw_canceled = [], dw_deleted = [],
     dw_next = 0, dw_remain = 0, dw_deferred = [], dw_status = INIT\<rparr>"

text \<open>C29: However the loops of the two windows nest, and whatever is reported meanwhile, no pointer dangles: each pointer
  is null or that of a window whose loop runs and that has not been deleted, the innermost of its kind.
  No window is deleted while its loop runs.  At most one window of each kind is open to the user, and it
  is the one the pointer points to, so that cancelling it is noticed.\<close>

theorem no_window_dangles:
  assumes "(dialog_step e)\<^sup>*\<^sup>* (new_dialogs p) s"
  shows "(dw_window s k = Some i \<longrightarrow> first_of k (dw_exec s) = Some i \<and> i \<notin> set (dw_deleted s))
    \<and> ((k, i) \<in> set (dw_exec s) \<longrightarrow> i \<notin> set (dw_deleted s) \<and> (i \<notin> set (dw_rejected s) \<longrightarrow> dw_window s k = Some i))"
proof -
  have ok: "dialogs_ok s"
    using assms
  proof (induction rule: rtranclp_induct)
    case base
    then show ?case by (simp add: dialogs_ok_def new_dialogs_def)
  next
    case (step s t)
    then show ?case using dialog_step_ok by blast
  qed
  then show ?thesis using first_of_in by (metis dialogs_okD(3,4,6))
qed

section \<open>A search that finds nothing gives up\<close>

definition searching :: "nat \<Rightarrow> broadcast_session \<Rightarrow> nat \<Rightarrow> dialogs \<Rightarrow> dialogs \<Rightarrow> bool" where
  "searching i b n s t \<longleftrightarrow> dw_window t = dw_window s \<and> dw_exec t = dw_exec s \<and> dw_deleted t = dw_deleted s
     \<and> pm_findingServerMode (dw_pm t) = pm_findingServerMode (dw_pm s)
     \<and> (n \<le> 20 \<longrightarrow> dw_rejected t = dw_rejected s \<and> dw_canceled t = dw_canceled s \<and> (0 < n \<longrightarrow> dw_remain t = 20 - int n))
     \<and> (20 < n \<longrightarrow> i \<in> set (dw_rejected t) \<and> i \<in> set (dw_canceled t))
     \<and> (\<exists>c. pm_bcFinder (dw_pm t) = Some c \<and> \<not> bc_stop c \<and> bc_evtTarget c \<and> bc_sentCount c = int n
          \<and> length (bc_datagrams c) = length (bc_datagrams b) + (if bc_open b then n else 0) \<and> bc_open c = bc_open b)"

lemma tick_searches:
  assumes "searching i b n s t" "dw_window s Finding_Dialog = Some i" "n \<le> 20"
  shows "searching i b (Suc n) s (finding_tick e t)"
proof -
  obtain c where c: "pm_bcFinder (dw_pm t) = Some c" "\<not> bc_stop c" "bc_evtTarget c" "bc_sentCount c = int n"
    "length (bc_datagrams c) = length (bc_datagrams b) + (if bc_open b then n else 0)" "bc_open c = bc_open b"
    using assms(1) by (auto simp: searching_def)
  let ?d = "bc_handle_timer False c"
  have d: "\<not> bc_stop ?d" "bc_evtTarget ?d" "bc_sentCount ?d = int (Suc n)" "bc_fired ?d = bc_fired c @ [Bc_SentMessage (int (Suc n))]"
    "length (bc_datagrams ?d) = length (bc_datagrams b) + (if bc_open b then Suc n else 0)" "bc_open ?d = bc_open b"
    using c assms(3) by (simp_all add: bc_handle_timer_def bc_start_timer_def bc_sendData_def bc_fire_def Let_def)
  let ?p = "notify (Ob_ServerFinding (int (Suc n))) ((dw_pm t)\<lparr>pm_bcFinder := Some ?d\<rparr>)"
  have tick: "finding_tick e t = onServerFinding (int (Suc n)) (t\<lparr>dw_pm := ?p\<rparr>)"
    using c(1) d(4) by (simp add: finding_tick_def Let_def on_dpm_def fireObserver_def updS_def notify_def window_event_def)
  have w: "dw_window t Finding_Dialog = Some i" using assms(1,2) by (simp add: searching_def)
  show ?thesis
    using assms(1,3) d w unfolding tick searching_def
    by (auto simp: onServerFinding_def FINDING_SERVER_TRY_COUNT_def setCanceled_def reject_def setRemainCount_def notify_def Let_def)
qed

lemma stopFinding_works:
  assumes "pm_findingServerMode p" "pm_bcFinder p = Some c"
  shows "\<exists>l. stopFindingServer e p = (Inr (), p\<lparr>pm_bcFinder := Some (bc_close c),
      pm_udpForConnection := map_option us_close (pm_udpForConnection p), pm_findingServerMode := False, pm_bcListener := l\<rparr>)"
proof -
  obtain ok l where "bc_listenUdp (en_udpOpen e) (en_udpBind e DEFAULT_BROADCAST_PORT) (new_broadcast_session\<lparr>bc_evtTarget := True\<rparr>) = (ok, l)"
    by fastforce
  then show ?thesis
    using assms by (intro exI [of _ "Some l"])
      (simp add: stopFindingServer_def u_stopFindingServer_def startListenBroadCast_def thenS_def bindS_def updS_def returnS_def)
qed

text \<open>C30: A search that finds nothing gives up.  The window shows how many messages are left, from 19 down to 0, and stays
  open; the message after the last cancels it, and when its loop ends the search is stopped for good: no
  further message is sent, and the window is gone.\<close>

theorem search_gives_up:
  assumes shown: "dw_window s Finding_Dialog = Some i" "dw_exec s = (Finding_Dialog, i) # ex" "i \<notin> set (dw_rejected s)"
    and search: "pm_findingServerMode (dw_pm s)" "pm_bcFinder (dw_pm s) = Some b" "\<not> bc_stop b" "bc_evtTarget b" "bc_sentCount b = 0"
  shows "(\<forall>n \<in> {1..20}. dw_remain ((finding_tick e ^^ n) s) = 20 - int n
        \<and> exec_returns e ((finding_tick e ^^ n) s) = (Inr (), (finding_tick e ^^ n) s))
    \<and> (\<exists>t c. exec_returns e ((finding_tick e ^^ 21) s) = (Inr (), t) \<and> \<not> pm_findingServerMode (dw_pm t)
        \<and> dw_window t Finding_Dialog = None \<and> dw_exec t = ex \<and> i \<in> set (dw_deleted t)
        \<and> pm_bcFinder (dw_pm t) = Some c \<and> length (bc_datagrams c) = length (bc_datagrams b) + (if bc_open b then 21 else 0)
        \<and> bc_datagrams (bc_handle_timer False c) = bc_datagrams c)"
proof -
  have run: "n \<le> 21 \<Longrightarrow> searching i b n s ((finding_tick e ^^ n) s)" for n
  proof (induction n)
    case 0
    then show ?case using search by (simp add: searching_def)
  next
    case (Suc n)
    then show ?case using tick_searches [OF _ shown(1)] by simp
  qed
  have early: "dw_remain ((finding_tick e ^^ n) s) = 20 - int n
      \<and> exec_returns e ((finding_tick e ^^ n) s) = (Inr (), (finding_tick e ^^ n) s)" if "n \<in> {1..20}" for n
    using run [of n] that shown(2,3) by (simp add: searching_def exec_returns_def)
  let ?t = "(finding_tick e ^^ 21) s"
  obtain c where t: "dw_window ?t Finding_Dialog = Some i" "dw_exec ?t = (Finding_Dialog, i) # ex" "i \<in> set (dw_rejected ?t)"
    "i \<in> set (dw_canceled ?t)" "pm_findingServerMode (dw_pm ?t)" "pm_bcFinder (dw_pm ?t) = Some c"
    "length (bc_datagrams c) = length (bc_datagrams b) + (if bc_open b then 21 else 0)"
    using run [of 21] shown(1,2) search(1) by (auto simp: searching_def)
  obtain l where stop: "stopFindingServer e (dw_pm ?t) = (Inr (), (dw_pm ?t)\<lparr>pm_bcFinder := Some (bc_close c),
      pm_udpForConnection := map_option us_close (pm_udpForConnection (dw_pm ?t)), pm_findingServerMode := False, pm_bcListener := l\<rparr>)"
    using stopFinding_works [OF t(5,6)] by blast
  let ?u = "?t\<lparr>dw_exec := ex, dw_pm := snd (stopFindingServer e (dw_pm ?t))\<rparr>"
  have "exec_returns e ?t = (Inr (), delete_window Finding_Dialog ?u)"
    using t stop by (simp add: exec_returns_def after_exec_def on_dpm_def thenS_def bindS_def updS_def)
  moreover have "bc_datagrams (bc_handle_timer False (bc_close c)) = bc_datagrams (bc_close c)" "bc_datagrams (bc_close c) = bc_datagrams c"
    by (simp_all add: bc_handle_timer_def bc_close_def Let_def)
  ultimately show ?thesis using early t(1,7) stop
    by (intro conjI ballI exI [of _ "delete_window Finding_Dialog ?u"] exI [of _ "bc_close c"]) (simp_all add: delete_window_def)
qed

text \<open>
  Connecting closes the search first.  When the connection then fails only the status changes: the window
  stays open, and no message will ever cancel it.
\<close>

lemma failed_connect_leaves_window:
  assumes "pm_bcFinder (dw_pm s) = Some (bc_close c)"
  shows "(finding_tick e ^^ n) s = s" and "window_event Ob_ConnectFailed s = s\<lparr>dw_status := CONNECTFAILED\<rparr>"
proof -
  have "bc_handle_timer False (bc_close c) = bc_close c" by (simp add: bc_handle_timer_def bc_close_def Let_def)
  moreover have "(dw_pm s)\<lparr>pm_bcFinder := Some (bc_close c)\<rparr> = dw_pm s" using assms by (cases "dw_pm s") simp
  ultimately have "finding_tick e s = s" using assms by (simp add: finding_tick_def)
  then show "(finding_tick e ^^ n) s = s" by (induction n) simp_all
  show "window_event Ob_ConnectFailed s = s\<lparr>dw_status := CONNECTFAILED\<rparr>" by (simp add: window_event_def setStatus_def)
qed

section \<open>Witnesses\<close>

definition sample_search :: dialogs where
  "sample_search = (new_dialogs (sample_drawing\<lparr>pm_findingServerMode := True,
       pm_bcFinder := Some (new_broadcast_session\<lparr>bc_evtTarget := True, bc_stop := False, bc_open := True\<rparr>)\<rparr>))
     \<lparr>dw_window := [Finding_Dialog \<mapsto> 0], dw_exec := [(Finding_Dialog, 0)], dw_next := 1\<rparr>"

lemma search_gives_up_witness:
  "\<exists>t. exec_returns ManagerRun.sample_env ((finding_tick ManagerRun.sample_env ^^ 21) sample_search) = (Inr (), t)
     \<and> \<not> pm_findingServerMode (dw_pm t) \<and> dw_exec t = []"
proof -
  have "dw_window sample_search Finding_Dialog = Some 0" "dw_exec sample_search = [(Finding_Dialog, 0)]" "0 \<notin> set (dw_rejected sample_search)"
    "pm_findingServerMode (dw_pm sample_search)"
    "pm_bcFinder (dw_pm sample_search) = Some (new_broadcast_session\<lparr>bc_evtTarget := True, bc_stop := False, bc_open := True\<rparr>)"
    by (simp_all add: sample_search_def new_dialogs_def)
  from search_gives_up [OF this, of ManagerRun.sample_env] show ?thesis
    by (simp add: new_broadcast_session_def) blast
qed

lemma no_window_dangles_witness:
  "\<exists>s. (dialog_step ManagerRun.sample_env)\<^sup>*\<^sup>* (new_dialogs sample_drawing) s
     \<and> dw_window s Sync_Dialog = Some 0 \<and> first_of Sync_Dialog (dw_exec s) = Some 0 \<and> 0 \<notin> set (dw_deleted s)"
proof -
  let ?e = "ManagerRun.sample_env" and ?m = "updS (notify Ob_SyncStart)" and ?n = "new_dialogs sample_drawing"
  let ?s = "run_later (snd (on_dpm ?m ?n))"
  have "dialog_step ?e ?n (snd (on_dpm ?m ?n))" by (rule dialog_step.other)
  moreover have "dialog_step ?e (snd (on_dpm ?m ?n)) ?s" by (rule dialog_step.deferred)
  ultimately have run: "(dialog_step ?e)\<^sup>*\<^sup>* ?n ?s" by (rule rtranclp.rtrancl_into_rtrancl [OF r_into_rtranclp])
  moreover have "dw_window ?s Sync_Dialog = Some 0"
    by (simp add: on_dpm_def notify_def window_event_def call_later_def run_later_def show_window_def hide_window_def new_dialogs_def updS_def)
  ultimately show ?thesis using no_window_dangles [OF run, of Sync_Dialog 0] by blast
qed

end
