(* ===== verification/PainterFilter.thy ===== *)
theory PainterFilter
  imports CommandManager
begin

text \<open>
  Painters that are not allowed to draw: \<^verbatim>\<open>setAllowPainterToDraw\<close> takes the tasks of one painter out of
  the picture and puts them back, in the middle of a history that others have drawn too.
\<close>

section \<open>Tasks act at one item\<close>

text \<open>What is seen of an item.\<close>

definition seen :: "view \<Rightarrow> item_ptr \<Rightarrow> bool \<times> (double \<times> double) \<times> SPaintData option" where
  "seen v p = (p \<in> sc_visible (fst v), sc_pos (fst v) p, snd v p)"

lemma view_eqI:
  assumes "\<And>p. seen v p = seen w p"
  shows "v = w"
proof -
  have "sc_visible (fst v) = sc_visible (fst w)" "sc_pos (fst v) = sc_pos (fst w)" "snd v = snd w"
    using assms by (auto simp: seen_def fun_eq_iff)
  then show ?thesis by (cases v; cases w) (auto intro: screen.equality)
qed

locale at_one_item =
  fixes step :: "CSharedPaintTask \<Rightarrow> view \<Rightarrow> view"
  assumes elsewhere: "task_ptr t \<noteq> p \<Longrightarrow> seen (step t v) p = seen v p"
    and here: "seen v (task_ptr t) = seen w (task_ptr t) \<Longrightarrow> seen (step t v) (task_ptr t) = seen (step t w) (task_ptr t)"
begin

lemma seen_cong: "seen v p = seen w p \<Longrightarrow> seen (fold step ts v) p = seen (fold step ts w) p"
proof (induction ts arbitrary: v w)
  case (Cons t ts)
  have "seen (step t v) p = seen (step t w) p"
  proof (cases "task_ptr t = p")
    case True
    show ?thesis using here [of v t w] Cons.prems unfolding True by blast
  next
    case False
    show ?thesis unfolding elsewhere [OF False] by (rule Cons.prems)
  qed
  from Cons.IH [OF this] show ?case unfolding fold_Cons comp_def .
qed simp

lemma seen_filter:
  assumes "\<And>t. t \<in> set ts \<Longrightarrow> task_ptr t = p \<Longrightarrow> P t"
  shows "seen (fold step (filter P ts) v) p = seen (fold step ts v) p"
  using assms
proof (induction ts arbitrary: v)
  case (Cons t ts)
  have IH: "seen (fold step (filter P ts) w) p = seen (fold step ts w) p" for w using Cons by simp
  show ?case
  proof (cases "P t")
    case True
    then show ?thesis using IH by simp
  next
    case False
    then have "task_ptr t \<noteq> p" using Cons.prems [of t] by auto
    then have "seen v p = seen (step t v) p" by (simp add: elsewhere)
    then have "seen (fold step ts v) p = seen (fold step ts (step t v)) p" by (rule seen_cong)
    then show ?thesis using False IH [of v] by simp
  qed
qed simp

lemma seen_skip:
  assumes "\<And>t. t \<in> set ts \<Longrightarrow> task_ptr t \<noteq> p"
  shows "seen (fold step ts v) p = seen v p"
  using seen_filter [of ts p "\<lambda>t. False" v] assms by simp

end

interpretation doing: at_one_item perform
proof
  fix t and p :: item_ptr and v w :: view
  show "task_ptr t \<noteq> p \<Longrightarrow> seen (perform t v) p = seen v p"
    by (auto simp: seen_def perform_def Let_def split: task_body.split)
  show "seen v (task_ptr t) = seen w (task_ptr t) \<Longrightarrow> seen (perform t v) (task_ptr t) = seen (perform t w) (task_ptr t)"
    by (auto simp: seen_def perform_def Let_def split: task_body.split)
qed

interpretation undoing: at_one_item unperform
proof
  fix t and p :: item_ptr and v w :: view
  show "task_ptr t \<noteq> p \<Longrightarrow> seen (unperform t v) p = seen v p"
    by (auto simp: seen_def unperform_def Let_def split: task_body.split)
  show "seen v (task_ptr t) = seen w (task_ptr t) \<Longrightarrow> seen (unperform t v) (task_ptr t) = seen (unperform t w) (task_ptr t)"
    by (auto simp: seen_def unperform_def Let_def split: task_body.split)
qed

section \<open>Taking a painter out and putting him back\<close>

definition tasks_of :: "bytes \<Rightarrow> CSharedPaintTask list \<Rightarrow> CSharedPaintTask list" where
  "tasks_of u ts = filter (\<lambda>t. task_owner t = u) ts"

lemma owner_ptr: "task_owner t = fst (task_ptr t)"
  by (simp add: task_ptr_def)

lemma taken_out:
  assumes "u \<in> A" and "replayable (tasks_of u ts) v"
  shows "fold unperform (rev (tasks_of u ts)) (fold perform (filter (\<lambda>t. task_owner t \<in> A) ts) v)
    = fold perform (filter (\<lambda>t. task_owner t \<in> A - {u}) ts) v"
proof (rule view_eqI)
  fix p
  show "seen (fold unperform (rev (tasks_of u ts)) (fold perform (filter (\<lambda>t. task_owner t \<in> A) ts) v)) p
    = seen (fold perform (filter (\<lambda>t. task_owner t \<in> A - {u}) ts) v) p"
  proof (cases "fst p = u")
    case True
    let ?as = "filter (\<lambda>t. task_owner t \<in> A) ts"
    have "filter (\<lambda>t. task_owner t = u) ?as = tasks_of u ts"
      using assms(1) by (auto simp: tasks_of_def intro: filter_cong)
    then have "seen (fold perform ?as v) p = seen (fold perform (tasks_of u ts) v) p"
      using doing.seen_filter [of ?as p "\<lambda>t. task_owner t = u" v] True by (simp add: owner_ptr)
    then have "seen (fold unperform (rev (tasks_of u ts)) (fold perform ?as v)) p
        = seen (fold unperform (rev (tasks_of u ts)) (fold perform (tasks_of u ts) v)) p"
      by (rule undoing.seen_cong)
    also have "\<dots> = seen v p" using tasks.unexec_all assms(2) by (simp add: replayable_can_all)
    also have "\<dots> = seen (fold perform (filter (\<lambda>t. task_owner t \<in> A - {u}) ts) v) p"
      using True by (intro doing.seen_skip [symmetric]) (auto simp: owner_ptr)
    finally show ?thesis .
  next
    case False
    have "seen (fold unperform (rev (tasks_of u ts)) w) p = seen w p" for w
      using False by (intro undoing.seen_skip) (auto simp: tasks_of_def owner_ptr)
    moreover have "seen (fold perform (filter (\<lambda>t. task_owner t \<noteq> u) (filter (\<lambda>t. task_owner t \<in> A) ts)) v) p
        = seen (fold perform (filter (\<lambda>t. task_owner t \<in> A) ts) v) p"
      using False by (intro doing.seen_filter) (auto simp: owner_ptr)
    moreover have "filter (\<lambda>t. task_owner t \<noteq> u) (filter (\<lambda>t. task_owner t \<in> A) ts) = filter (\<lambda>t. task_owner t \<in> A - {u}) ts"
      by (auto intro: filter_cong)
    ultimately show ?thesis by simp
  qed
qed

lemma put_back:
  assumes "u \<notin> A"
  shows "fold perform (tasks_of u ts) (fold perform (filter (\<lambda>t. task_owner t \<in> A) ts) v)
    = fold perform (filter (\<lambda>t. task_owner t \<in> insert u A) ts) v"
proof (rule view_eqI)
  fix p
  let ?as = "filter (\<lambda>t. task_owner t \<in> A) ts" and ?bs = "filter (\<lambda>t. task_owner t \<in> insert u A) ts"
  show "seen (fold perform (tasks_of u ts) (fold perform ?as v)) p = seen (fold perform ?bs v) p"
  proof (cases "fst p = u")
    case True
    have "seen (fold perform ?as v) p = seen v p"
      using True assms by (intro doing.seen_skip) (auto simp: owner_ptr)
    then have "seen (fold perform (tasks_of u ts) (fold perform ?as v)) p = seen (fold perform (tasks_of u ts) v) p"
      by (rule doing.seen_cong)
    moreover have "filter (\<lambda>t. task_owner t = u) ?bs = tasks_of u ts" by (auto simp: tasks_of_def intro: filter_cong)
    ultimately show ?thesis
      using doing.seen_filter [of ?bs p "\<lambda>t. task_owner t = u" v] True by (simp add: owner_ptr)
  next
    case False
    have "seen (fold perform (tasks_of u ts) w) p = seen w p" for w
      using False by (intro doing.seen_skip) (auto simp: tasks_of_def owner_ptr)
    moreover have "filter (\<lambda>t. task_owner t \<in> A) ?bs = ?as" by (auto intro: filter_cong)
    moreover have "seen (fold perform (filter (\<lambda>t. task_owner t \<in> A) ?bs) v) p = seen (fold perform ?bs v) p"
      using False by (intro doing.seen_filter) (auto simp: owner_ptr)
    ultimately show ?thesis by simp
  qed
qed

section \<open>The loops\<close>

lemma loop_owner:
  assumes m: "acts f m"
  shows "\<forall>n\<in>set ns. n < length (cm_historyTaskList s) \<Longrightarrow> all_sendable s \<Longrightarrow>
    \<exists>s' rs. mapS (if_owner u m) (map int ns) s = (Inr rs, s') \<and> kept s' = kept s \<and> all_sendable s'
      \<and> view_of s' = fold f (tasks_of u (map (\<lambda>n. plain s ! n) ns)) (view_of s)"
proof (induction ns arbitrary: s)
  case Nil
  then show ?case by (simp add: tasks_of_def)
next
  case (Cons n ns)
  have n: "n < length (cm_historyTaskList s)" using Cons.prems(1) by simp
  obtain r s0 where s0: "m (int n) s = (Inr r, s0)" "kept s0 = kept s" "all_sendable s0" "view_of s0 = f (plain s ! n) (view_of s)"
    using m n Cons.prems(2) unfolding acts_def by blast
  let ?own = "task_owner (plain s ! n) = u"
  obtain s1 where s1: "if_owner u m (int n) s = (Inr (), s1)" "kept s1 = kept s" "all_sendable s1"
    "view_of s1 = (if ?own then f (plain s ! n) (view_of s) else view_of s)"
    using s0 n Cons.prems(2) by (cases ?own) (auto simp: if_owner_def bindS_def returnS_def task_at_in plain_nth)
  note k = kept_plain [OF s1(2)]
  have "\<forall>n\<in>set ns. n < length (cm_historyTaskList s1)" using Cons.prems(1) k by simp
  from Cons.IH [OF this s1(3)] obtain s' rs where
    s': "mapS (if_owner u m) (map int ns) s1 = (Inr rs, s')" "kept s' = kept s1" "all_sendable s'"
      "view_of s' = fold f (tasks_of u (map (\<lambda>n. plain s1 ! n) ns)) (view_of s1)" by blast
  then show ?case using s1 k by (auto simp: bindS_def tasks_of_def)
qed

lemma owner_interval:
  assumes "acts f m" "- 1 \<le> q" "q < int (length (cm_historyTaskList s))" "all_sendable s"
  shows "\<exists>s'. loopS (if_owner u m) [0..q] s = (Inr (), s') \<and> kept s' = kept s
      \<and> view_of s' = fold f (tasks_of u (take (nat (q + 1)) (plain s))) (view_of s)"
    and "\<exists>s'. loopS (if_owner u m) (rev [0..q]) s = (Inr (), s') \<and> kept s' = kept s
      \<and> view_of s' = fold f (rev (tasks_of u (take (nat (q + 1)) (plain s)))) (view_of s)"
proof -
  let ?ns = "[0..<nat (q + 1)]"
  have "[0..q] = map int ?ns" using upto_int [of "- 1" q] by simp
  moreover have "map (\<lambda>n. plain s ! n) ?ns = take (nat (q + 1)) (plain s)"
    using nth_interval [of "nat (q + 1)" "plain s" 0] assms(2,3) by (simp add: plain_def)
  moreover have inside: "\<forall>n\<in>set ?ns. n < length (cm_historyTaskList s)" using assms(3) by auto
  moreover note loop_owner [OF assms(1) inside assms(4), of u]
  ultimately show "\<exists>s'. loopS (if_owner u m) [0..q] s = (Inr (), s') \<and> kept s' = kept s
      \<and> view_of s' = fold f (tasks_of u (take (nat (q + 1)) (plain s))) (view_of s)"
    by (metis loopS_eq)
  have inside': "\<forall>n\<in>set (rev ?ns). n < length (cm_historyTaskList s)" using inside by simp
  have "rev [0..q] = map int (rev ?ns)" using \<open>[0..q] = map int ?ns\<close> by (simp add: rev_map)
  moreover have "tasks_of u (map (\<lambda>n. plain s ! n) (rev ?ns)) = rev (tasks_of u (take (nat (q + 1)) (plain s)))"
    using \<open>map (\<lambda>n. plain s ! n) ?ns = _\<close> by (simp add: tasks_of_def rev_filter flip: rev_map)
  moreover note loop_owner [OF assms(1) inside' assms(4), of u]
  ultimately show "\<exists>s'. loopS (if_owner u m) (rev [0..q]) s = (Inr (), s') \<and> kept s' = kept s
      \<and> view_of s' = fold f (rev (tasks_of u (take (nat (q + 1)) (plain s)))) (view_of s)"
    by (metis loopS_eq)
qed

section \<open>Allowing and forbidding\<close>



end
