(* ===== verification/ItemPlacing.thy ===== *)
theory ItemPlacing
  imports ManagerLoading Scene
begin

text \<open>
  Where a new text or a pasted picture is put, the dialog that asks for the text, and the tip that says
  on which side of the view an item lies.
\<close>

section \<open>The position of a new item\<close>

text \<open>
  The mouse, two random numbers and, for text, where the last text went decide.  The static variables
  hold a mouse position, which is a whole number.  \<open>pe_le\<close> is \<^verbatim>\<open>\<le>\<close> on doubles,
  \<open>pe_setPixelSize\<close> and \<open>pe_setBold\<close> are methods of \<^verbatim>\<open>QFont\<close>.
\<close>

record placing_env =
  pe_env :: env
  pe_scene :: scene_env
  pe_le :: "double \<Rightarrow> double \<Rightarrow> bool"
  pe_setPixelSize :: "32 word \<Rightarrow> QFont \<Rightarrow> QFont"
  pe_setBold :: "QFont \<Rightarrow> QFont"
  pe_gulim :: QFont

record placing =
  pl_pm :: paint_manager
  pl_canvas :: scene
  pl_lastM :: "32 word \<times> 32 word"
  pl_lastText :: "double \<times> double"

text \<open>The position of the mouse in the view and what \<^verbatim>\<open>qrand\<close> returns.\<close>

record placing_input =
  pi_mouse :: "32 word \<times> 32 word"
  pi_rand :: "32 word \<times> 32 word"

definition DEFAULT_TEXT_ITEM_POS_REGION_W :: "32 word" where "DEFAULT_TEXT_ITEM_POS_REGION_W = 9999"
definition DEFAULT_TEXT_ITEM_POS_REGION_H :: "32 word" where "DEFAULT_TEXT_ITEM_POS_REGION_H = 300"

text \<open>\<^verbatim>\<open>%\<close> on \<^verbatim>\<open>int\<close>, for a divisor that is not 0.\<close>

definition int_rem :: "32 word \<Rightarrow> 32 word \<Rightarrow> 32 word" where
  "int_rem a b = word_of_int (sint a smod sint b)"

definition region :: "32 word \<times> 32 word \<Rightarrow> 32 word \<times> 32 word" where
  "region size' = (case size' of (sW, sH) \<Rightarrow>
     (if sW <s DEFAULT_TEXT_ITEM_POS_REGION_W then sW else DEFAULT_TEXT_ITEM_POS_REGION_W,
      if sH <s DEFAULT_TEXT_ITEM_POS_REGION_H then sH else DEFAULT_TEXT_ITEM_POS_REGION_H))"

definition random_pos :: "placing_env \<Rightarrow> 32 word \<times> 32 word \<Rightarrow> 32 word \<times> 32 word \<Rightarrow> double \<times> double" where
  "random_pos E size' r = (case region size' of (w, h) \<Rightarrow>
     (se_int (pe_scene E) (int_rem (fst r) w), se_int (pe_scene E) (int_rem (snd r) h)))"

definition mouse_seen :: "32 word \<times> 32 word \<Rightarrow> 32 word \<times> 32 word" where
  "mouse_seen m = (if fst m \<le>s 0 \<or> snd m \<le>s 0 then (- 1, - 1) else m)"

definition outside :: "placing_env \<Rightarrow> 32 word \<times> 32 word \<Rightarrow> 32 word \<Rightarrow> double \<times> double \<Rightarrow> bool" where
  "outside E size' th p \<longleftrightarrow> pe_le E (fst p) double_0 \<or> pe_le E (snd p) double_0
     \<or> pe_le E (se_int (pe_scene E) (snd size' - th)) (snd p) \<or> pe_le E (se_int (pe_scene E) (fst size')) (fst p)"

text \<open>
  The position, and the mouse position that is remembered; \<open>None\<close> is the division by zero.
\<close>

definition calculateNewItemPos :: "placing_env \<Rightarrow> placing_input \<Rightarrow> 32 word \<times> 32 word \<Rightarrow> 32 word \<Rightarrow> 32 word
    \<Rightarrow> double option \<Rightarrow> double option \<Rightarrow> 32 word \<times> 32 word \<Rightarrow> ((double \<times> double) \<times> (32 word \<times> 32 word)) option" where
  "calculateNewItemPos E i size' tw th lastX lastY lastM =
     (if fst (region size') = 0 \<or> snd (region size') = 0 then None
      else
        (let S = pe_scene E; m = mouse_seen (pi_mouse i); r = random_pos E size' (pi_rand i);
             start = (se_sub S (se_int S (fst m)) (se_int S tw), se_sub S (se_int S (snd m)) (se_int S th));
             p = (if lastY = None then start
                  else if m \<noteq> lastM then start
                  else (case (lastX, lastY) of (Some x, Some y) \<Rightarrow> (x, se_add S y (se_int S th)) | _ \<Rightarrow> r))
         in Some (if outside E size' th p then r else p, m)))"

definition calculateNewTextPos :: "placing_env \<Rightarrow> placing_input \<Rightarrow> 32 word \<times> 32 word \<Rightarrow> 32 word
    \<Rightarrow> double option \<Rightarrow> double option \<Rightarrow> 32 word \<times> 32 word \<Rightarrow> ((double \<times> double) \<times> (32 word \<times> 32 word)) option" where
  "calculateNewTextPos E i size' textSize = calculateNewItemPos E i size' textSize textSize"

section \<open>Adding\<close>

definition canvas_size :: "placing_env \<Rightarrow> placing \<Rightarrow> 32 word \<times> 32 word" where
  "canvas_size E s = se_sceneRect (pe_scene E) (cv_calls (pl_canvas s))"

text \<open>
  The manager reports the item, and the window notes where a text was put, whoever has written it;
  drawing it is left to \<^verbatim>\<open>Scene\<close>.
\<close>

definition onAddPaintItem :: "observer_call \<Rightarrow> placing \<Rightarrow> placing" where
  "onAddPaintItem c s = (case c of
       Ob_AddPaintItem p \<Rightarrow>
         (case item_at (pm_cmd (pl_pm s)) p of
            Some it \<Rightarrow> if item_type it = PT_TEXT then s\<lparr>pl_lastText := (sp_posX (it_data it), sp_posY (it_data it))\<rparr> else s
          | None \<Rightarrow> s)
     | _ \<Rightarrow> s)"

definition on_ppm :: "'a pm \<Rightarrow> (placing, 'a) meth" where
  "on_ppm m s = (case m (pl_pm s) of (r, p) \<Rightarrow>
     (r, fold onAddPaintItem (drop (length (pm_trace (pl_pm s))) (pm_trace p)) (s\<lparr>pl_pm := p\<rparr>)))"

definition requestAddItem :: "placing_env \<Rightarrow> CPaintItem \<Rightarrow> (placing, unit) meth" where
  "requestAddItem E it s =
     bindS (on_ppm (pm_addPaintItem (pe_env E) (setOwner (myId (pl_pm s)) it))) (\<lambda>b. returnS ()) s"

definition addTextItem :: "placing_env \<Rightarrow> placing_input \<Rightarrow> qstring \<Rightarrow> QFont \<Rightarrow> QColor \<Rightarrow> placing \<Rightarrow> (unit result \<times> placing) option" where
  "addTextItem E i str font clr s =
     map_option (\<lambda>((x, y), m).
         requestAddItem E (setPos x y (setMyItem (new_item (TextContent str font clr))))
           (s\<lparr>pl_lastText := (x, y), pl_lastM := m\<rparr>))
       (calculateNewTextPos E i (canvas_size E s) (f_pixelSize font) (Some (fst (pl_lastText s))) (Some (snd (pl_lastText s))) (pl_lastM s))"

text \<open>What is on the clipboard: a picture, as \<^verbatim>\<open>setPixmap\<close> writes it, and its size, or a text.\<close>

datatype clipboard = Clip_Image bytes "32 word" "32 word" | Clip_Text qstring | Clip_Other

definition actionClipboardPaste :: "placing_env \<Rightarrow> placing_input \<Rightarrow> clipboard \<Rightarrow> placing \<Rightarrow> (unit result \<times> placing) option" where
  "actionClipboardPaste E i clip s = (case clip of
       Clip_Image px w h \<Rightarrow>
         map_option (\<lambda>((x, y), m).
             requestAddItem E (setPos x y (setMyItem (new_item (ImageContent px)))) (s\<lparr>pl_lastM := m\<rparr>))
           (calculateNewItemPos E i (canvas_size E s) w h None None (pl_lastM s))
     | Clip_Text str \<Rightarrow>
         addTextItem E i str (pe_setPixelSize E 10 (pe_gulim E))
           (complementary (cv_backgroundColor (pl_canvas s)) (q_newColor (en_qt (pe_env E)))) s
     | Clip_Other \<Rightarrow> Some (Inr (), s))"

section \<open>The dialog for a text\<close>

text \<open>An invalid colour is \<open>None\<close>.  The static variables hold the last choices.\<close>

record text_choices =
  tc_LAST_COLOR :: "QColor option"
  tc_LAST_SIZE_VALUE :: "32 word"
  tc_LAST_FONT :: QFont

record text_dialog =
  td_lineEdit :: qstring
  td_fontComboBox :: QFont
  td_sizeSpinBox :: "32 word"
  td_clr :: "QColor option"
  td_text :: qstring
  td_font :: QFont
  td_button :: "QColor option"
  td_warned :: nat

definition initial_choices :: "QFont \<Rightarrow> text_choices" where
  "initial_choices f = \<lparr>tc_LAST_COLOR = Some \<lparr>c_red = 85, c_green = 170, c_blue = 255, c_alpha = 255\<rparr>,
     tc_LAST_SIZE_VALUE = 30, tc_LAST_FONT = f\<rparr>"

definition changeColor :: "QColor option \<Rightarrow> text_dialog \<Rightarrow> text_dialog" where
  "changeColor c d = d\<lparr>td_clr := c, td_button := c\<rparr>"

definition new_text_dialog :: "qt \<Rightarrow> text_choices \<Rightarrow> text_dialog" where
  "new_text_dialog q c = changeColor (tc_LAST_COLOR c)
     \<lparr>td_lineEdit = [], td_fontComboBox = tc_LAST_FONT c, td_sizeSpinBox = tc_LAST_SIZE_VALUE c, td_clr = None,
      td_text = [], td_font = q_newFont q, td_button = None, td_warned = 0\<rparr>"

text \<open>What \<^verbatim>\<open>QColorDialog::getColor\<close> returns is invalid when the user cancels it.\<close>

definition clickedColorButton :: "QColor option \<Rightarrow> text_dialog \<Rightarrow> text_dialog" where
  "clickedColorButton c d =
     (let d = d\<lparr>td_clr := c\<rparr> in if td_clr d = None then d else changeColor (td_clr d) d)"

definition clickedOkButton :: "placing_env \<Rightarrow> text_choices \<Rightarrow> text_dialog \<Rightarrow> bool \<times> text_choices \<times> text_dialog" where
  "clickedOkButton E c d =
     (let d = d\<lparr>td_text := td_lineEdit d\<rparr> in
      if td_text d = [] then (False, c, d\<lparr>td_warned := td_warned d + 1\<rparr>)
      else (let size' = td_sizeSpinBox d; d = d\<lparr>td_font := pe_setBold E (pe_setPixelSize E size' (td_fontComboBox d))\<rparr> in
        (True, \<lparr>tc_LAST_COLOR = td_clr d, tc_LAST_SIZE_VALUE = size', tc_LAST_FONT = td_fontComboBox d\<rparr>, d)))"

text \<open>What the user does in the dialog, until it closes; \<open>None\<close> when it is not accepted.\<close>

datatype text_click = Type_text qstring | Choose_font QFont | Choose_size "32 word" | Click_color "QColor option" | Click_ok | Click_close

fun text_exec :: "placing_env \<Rightarrow> text_click list \<Rightarrow> text_choices \<Rightarrow> text_dialog \<Rightarrow> text_choices \<times> text_dialog option" where
  "text_exec E [] c d = (c, None)"
| "text_exec E (Type_text t # ks) c d = text_exec E ks c (d\<lparr>td_lineEdit := t\<rparr>)"
| "text_exec E (Choose_font f # ks) c d = text_exec E ks c (d\<lparr>td_fontComboBox := f\<rparr>)"
| "text_exec E (Choose_size n # ks) c d = text_exec E ks c (d\<lparr>td_sizeSpinBox := n\<rparr>)"
| "text_exec E (Click_color k # ks) c d = text_exec E ks c (clickedColorButton k d)"
| "text_exec E (Click_ok # ks) c d = (case clickedOkButton E c d of
     (True, c', d') \<Rightarrow> (c', Some d') | (False, c', d') \<Rightarrow> text_exec E ks c' d')"
| "text_exec E (Click_close # ks) c d = (c, None)"

text \<open>An invalid colour reads like the colour \<^verbatim>\<open>QColor()\<close> makes.\<close>

definition color_read :: "qt \<Rightarrow> QColor option \<Rightarrow> QColor" where
  "color_read q c = (case c of Some c \<Rightarrow> c | None \<Rightarrow> q_newColor q)"

definition actionAddText :: "placing_env \<Rightarrow> placing_input \<Rightarrow> text_click list \<Rightarrow> text_choices \<Rightarrow> placing
    \<Rightarrow> text_choices \<times> (unit result \<times> placing) option" where
  "actionAddText E i ks c s =
     (case text_exec E ks c (new_text_dialog (en_qt (pe_env E)) c) of
        (c', None) \<Rightarrow> (c', Some (Inr (), s))
      | (c', Some d) \<Rightarrow> (c', addTextItem E i (td_text d) (td_font d) (color_read (en_qt (pe_env E)) (td_clr d)) s))"

section \<open>Where an item lies\<close>

definition TW :: "32 word" where "TW = 120"
definition TH :: "32 word" where "TH = 50"

text \<open>The sides on which the rectangle of the item lies beyond the view: west, north, east, south.\<close>

definition directions :: "scene_env \<Rightarrow> double \<times> double \<Rightarrow> 32 word \<times> 32 word \<Rightarrow> (double \<times> double) \<times> (double \<times> double)
    \<Rightarrow> bool \<times> bool \<times> bool \<times> bool" where
  "directions S spos view rect = (case (spos, view, rect) of ((sx, sy), (vw, vh), ((x, y), (w, h))) \<Rightarrow>
     (se_less S (se_add S x w) sx, se_less S (se_add S y h) sy,
      se_less S (se_add S sx (se_int S vw)) x, se_less S (se_add S sy (se_int S vh)) y))"

definition checkIfItemVisibleAndRecognize :: "scene_env \<Rightarrow> double \<times> double \<Rightarrow> 32 word \<times> 32 word
    \<Rightarrow> (double \<times> double) \<times> (double \<times> double) \<Rightarrow> (32 word \<times> 32 word) option" where
  "checkIfItemVisibleAndRecognize S spos view rect =
     (let VIEW_W = fst view; VIEW_H = snd view; direction = directions S spos view rect in
      if direction = (False, False, False, False) then None
      else Some (
        if direction = (False, False, True, False) then (VIEW_W - TW, int_div VIEW_H 2)
        else if direction = (True, False, False, False) then (0, int_div VIEW_H 2)
        else if direction = (False, True, False, False) then (int_div VIEW_W 2, 0)
        else if direction = (False, False, False, True) then (int_div VIEW_W 2, VIEW_H - TH)
        else if direction = (False, True, True, False) then (VIEW_W - TW, 0)
        else if direction = (False, False, True, True) then (VIEW_W - TW, VIEW_H - TH)
        else if direction = (True, True, False, False) then (0, 0)
        else if direction = (True, False, False, True) then (0, VIEW_H - TH)
        else (0, 0)))"


section \<open>What goes wrong\<close>

text \<open>On a canvas that is 0 wide or 0 high the random position is divided by zero, whether it is needed or not.\<close>

lemma flat_canvas_stops_program:
  assumes "fst (canvas_size E s) = 0 \<or> snd (canvas_size E s) = 0"
  shows "addTextItem E i str f c s = None" and "actionClipboardPaste E i (Clip_Image px w h) s = None"
proof -
  have "(0 :: 32 word) <s 9999" "(0 :: 32 word) <s 300" by (simp_all add: word_sless_alt)
  then have "fst (region (canvas_size E s)) = 0 \<or> snd (region (canvas_size E s)) = 0"
    using assms by (auto simp: region_def case_prod_beta DEFAULT_TEXT_ITEM_POS_REGION_W_def DEFAULT_TEXT_ITEM_POS_REGION_H_def)
  then have "calculateNewItemPos E i (canvas_size E s) tw th lx ly m = None" for tw th lx ly m
    by (auto simp: calculateNewItemPos_def)
  then show "addTextItem E i str f c s = None" "actionClipboardPaste E i (Clip_Image px w h) s = None"
    by (simp_all add: addTextItem_def calculateNewTextPos_def actionClipboardPaste_def)
qed

text \<open>
  When the user cancels the choice of a colour the dialog keeps the invalid colour: the button still
  shows the old one, but the text, and every later dialog, gets the colour \<^verbatim>\<open>QColor()\<close> makes.
\<close>

lemma cancelled_color_is_taken:
  assumes "t \<noteq> []"
  shows "\<exists>d. text_exec E [Type_text t, Click_color None, Click_ok] c (new_text_dialog q c)
      = (\<lparr>tc_LAST_COLOR = None, tc_LAST_SIZE_VALUE = tc_LAST_SIZE_VALUE c, tc_LAST_FONT = tc_LAST_FONT c\<rparr>, Some d)
    \<and> td_clr d = None \<and> td_button d = tc_LAST_COLOR c"
  using assms by (simp add: clickedColorButton_def clickedOkButton_def new_text_dialog_def changeColor_def Let_def)

text \<open>A picture that is pasted is put at the mouse whatever was put before: the positions of text are not looked at.\<close>

lemma pasted_at_mouse:
  assumes "calculateNewItemPos E i size' w h None None lastM = Some (p, m)"
  shows "p = random_pos E size' (pi_rand i) \<or>
    p = (se_sub (pe_scene E) (se_int (pe_scene E) (fst m)) (se_int (pe_scene E) w),
         se_sub (pe_scene E) (se_int (pe_scene E) (snd m)) (se_int (pe_scene E) h)) \<and> m = mouse_seen (pi_mouse i)"
  using assms by (auto simp: calculateNewItemPos_def Let_def split: if_splits)

text \<open>The tip is shown inside the view, when the view is large enough for it.\<close>

lemma half_inside: "0 \<le> sint w \<Longrightarrow> 0 \<le> sint (int_div w 2) \<and> sint (int_div w 2) \<le> sint w" for w :: "32 word"
proof -
  assume w: "0 \<le> sint w"
  have r: "- (2 ^ 31) \<le> sint w" "sint w < 2 ^ 31" using sint_range_size [of w] by (simp_all add: word_size)
  have q: "sint w sdiv 2 = sint w div 2" using w by (simp add: signed_divide_int_def sgn_if)
  have "sint (word_of_int (sint w div 2) :: 32 word) = sint w div 2"
    using w r by (simp add: sint_sbintrunc' signed_take_bit_int_eq_self)
  then show ?thesis using w by (simp add: int_div_def q)
qed

lemma minus_inside: "0 \<le> sint n \<Longrightarrow> sint n \<le> sint w \<Longrightarrow> 0 \<le> sint (w - n) \<and> sint (w - n) \<le> sint w" for w n :: "32 word"
proof -
  assume n: "0 \<le> sint n" "sint n \<le> sint w"
  have "sint w < 2 ^ 31" using sint_range_size [of w] by (simp add: word_size)
  then have "sint (w - n) = sint w - sint n" using n by (simp add: sint_word_ariths signed_take_bit_int_eq_self)
  then show ?thesis using n by simp
qed

lemma tip_inside_view:
  assumes "120 \<le> sint (fst view)" "50 \<le> sint (snd view)" "checkIfItemVisibleAndRecognize S spos view rect = Some p"
  shows "0 \<le> sint (fst p) \<and> sint (fst p) \<le> sint (fst view)" and "0 \<le> sint (snd p) \<and> sint (snd p) \<le> sint (snd view)"
proof -
  have x: "0 \<le> sint x \<and> sint x \<le> sint (fst view)" if "x \<in> {0, int_div (fst view) 2, fst view - TW}" for x
    using that half_inside [of "fst view"] minus_inside [of TW "fst view"] assms(1) by (auto simp: TW_def)
  have y: "0 \<le> sint y \<and> sint y \<le> sint (snd view)" if "y \<in> {0, int_div (snd view) 2, snd view - TH}" for y
    using that half_inside [of "snd view"] minus_inside [of TH "snd view"] assms(2) by (auto simp: TH_def)
  have "fst p \<in> {0, int_div (fst view) 2, fst view - TW}" "snd p \<in> {0, int_div (snd view) 2, snd view - TH}"
    using assms(3) by (auto simp: checkIfItemVisibleAndRecognize_def Let_def split: if_splits)
  then show "0 \<le> sint (fst p) \<and> sint (fst p) \<le> sint (fst view)" "0 \<le> sint (snd p) \<and> sint (snd p) \<le> sint (snd view)"
    using x y by blast+
qed

section \<open>What adding an item leaves alone\<close>

definition steady :: "paint_manager \<Rightarrow> paint_manager \<Rightarrow> bool" where
  "steady s s' \<longleftrightarrow> pm_cmd s' = pm_cmd s \<and> pm_mainThread s' = pm_mainThread s \<and> pm_enabled s' = pm_enabled s
     \<and> pm_users s' = pm_users s \<and> pm_joinerHistory s' = pm_joinerHistory s
     \<and> pm_backgroundImage s' = pm_backgroundImage s \<and> pm_trace s' = pm_trace s"

lemma steady_updates [simp]:
  "steady s0 (s\<lparr>pm_PACKETID := a\<rparr>) = steady s0 s" "steady s0 (s\<lparr>pm_sendInfo := b\<rparr>) = steady s0 s"
  "steady s0 (s\<lparr>pm_lastPacketId := a\<rparr>) = steady s0 s" "steady s0 (s\<lparr>pm_sessions := c\<rparr>) = steady s0 s"
  by (simp_all add: steady_def)

lemma keeps_mapS: "(\<And>x. keeps P (f x)) \<Longrightarrow> keeps P (mapS f xs)"
proof (induction xs)
  case (Cons x xs)
  then have "keeps P (bindS (f x) (\<lambda>a. bindS (mapS f xs) (\<lambda>as. returnS (a # as))))" by blast
  then show ?case by (simp add: keeps_def)
qed (simp add: keeps_def)

lemma sending_steady:
  "keeps (steady s0) (sendDataToUsers msg)" "keeps (steady s0) (sendDataToUsers_unit msg)"
proof -
  have "keeps (steady s0) (on_peer i m)" for i and m :: "(peer_session, unit) meth"
    by (auto simp: keeps_def on_peer_def split: option.split prod.split)
  then have "keeps (steady s0) (bindS (send_all js k msg) (\<lambda>u. returnS k))" for js k
    unfolding send_all_def by (intro keeps_bindS keeps_returnS keeps_mapS)
  note all = keepsD [OF this]
  have "keeps (steady s0) (sendDataToSessions ids msg t)" for ids t
    by (auto simp: keeps_def sendDataToSessions_def Let_def intro!: all)
  then show "keeps (steady s0) (sendDataToUsers msg)"
    by (auto simp: keeps_def sendDataToUsers_def sendDataToUsers_to_def)
  then show "keeps (steady s0) (sendDataToUsers_unit msg)" unfolding sendDataToUsers_unit_def by blast
qed

text \<open>What the main thread has carried out of a list of events, and has told the observers.\<close>

definition carried_out :: "event list \<Rightarrow> paint_manager \<Rightarrow> paint_manager \<Rightarrow> bool" where
  "carried_out evs s s' \<longleftrightarrow> (\<exists>cs. steady (s\<lparr>pm_trace := pm_trace s @ cs\<rparr>) s' \<and> set cs \<subseteq> set (calls_of evs))"

lemma carried_out_event:
  assumes "pm_mainThread s"
  shows "carried_out [ev] s (snd (handle_event e ev s))"
proof (cases "no_send ev")
  case True
  then show ?thesis
    using handle_event_main [OF assms, of ev e] unfolding carried_out_def
    by (intro exI [of _ "calls_of [ev]"]) (simp add: steady_def)
next
  case False
  then obtain msg where "ev = SendDataToUsers msg" by (auto simp: no_send_def split: event.splits)
  then have "snd (handle_event e ev s) = snd (sendDataToUsers_unit msg s)" by (simp add: handle_event_def)
  then have "steady s (snd (handle_event e ev s))" using keepsD [OF sending_steady(2), of s s msg] by (simp add: steady_def)
  then show ?thesis unfolding carried_out_def by (intro exI [of _ "[]"]) (simp add: steady_def)
qed

lemma carried_out_trans:
  assumes "carried_out evs s s'" "carried_out evs' s' s''"
  shows "carried_out (evs @ evs') s s''"
proof -
  obtain cs cs' where c: "steady (s\<lparr>pm_trace := pm_trace s @ cs\<rparr>) s'" "set cs \<subseteq> set (calls_of evs)"
    "steady (s'\<lparr>pm_trace := pm_trace s' @ cs'\<rparr>) s''" "set cs' \<subseteq> set (calls_of evs')"
    using assms unfolding carried_out_def by blast
  have "calls_of (evs @ evs') = calls_of evs @ calls_of evs'"
    by (induction evs) (simp_all add: calls_of_def map_filter_simps split: option.split)
  with c show ?thesis unfolding carried_out_def by (intro exI [of _ "cs @ cs'"]) (auto simp: steady_def)
qed

lemma carried_out_nothing: "carried_out evs s s"
  unfolding carried_out_def by (intro exI [of _ "[]"]) (simp add: steady_def)

lemma carried_out_events:
  "pm_mainThread s \<Longrightarrow> carried_out evs s (snd (mapS (handle_event e) evs s))"
proof (induction evs arbitrary: s)
  case Nil
  show ?case by (simp add: carried_out_nothing)
next
  case (Cons ev evs)
  obtain r s1 where h: "handle_event e ev s = (r, s1)" by fastforce
  have c: "carried_out [ev] s s1" using carried_out_event [OF Cons.prems, of ev e] h by simp
  show ?case
  proof (cases r)
    case (Inl err)
    then show ?thesis using carried_out_trans [OF c carried_out_nothing [of evs]] h by (simp add: bindS_def)
  next
    case (Inr a)
    have "pm_mainThread s1" using c Cons.prems by (auto simp: carried_out_def steady_def)
    from carried_out_trans [OF c Cons.IH [OF this]] show ?thesis
      using h Inr by (auto simp: bindS_def split: prod.split sum.split)
  qed
qed

lemma on_cmd_carried:
  assumes "pm_mainThread s" and "m ((pm_cmd s)\<lparr>cm_events := []\<rparr>) = (r0, c)" and "on_cmd e m s = (r, s')"
  shows "carried_out (cm_events c) (s\<lparr>pm_cmd := c\<lparr>cm_events := []\<rparr>\<rparr>) s'" and "r = Inr a \<Longrightarrow> r0 = Inr a"
proof -
  have "s' = snd (mapS (handle_event e) (cm_events c) (s\<lparr>pm_cmd := c\<lparr>cm_events := []\<rparr>\<rparr>))"
    using assms(2,3) by (auto simp: on_cmd_def bindS_def split: prod.splits sum.splits)
  then show "carried_out (cm_events c) (s\<lparr>pm_cmd := c\<lparr>cm_events := []\<rparr>\<rparr>) s'"
    using assms(1) by (simp add: carried_out_events)
  show "r = Inr a \<Longrightarrow> r0 = Inr a"
    using assms(2,3) by (auto simp: on_cmd_def bindS_def split: prod.splits sum.splits)
qed

section \<open>What is added\<close>

definition same_items :: "cmd_mngr \<Rightarrow> cmd_mngr \<Rightarrow> bool" where
  "same_items s c \<longleftrightarrow> cm_userItemListMap c = cm_userItemListMap s \<and> cm_historyItemSet c = cm_historyItemSet s"

lemma same_items_facts:
  assumes "same_items s c"
  shows "item_at c p = item_at s p" "historyItemCount c = historyItemCount s" "own_ids_ok me c = own_ids_ok me s"
proof -
  show a: "item_at c p = item_at s p" for p using assms by (simp add: same_items_def item_defs)
  show b: "historyItemCount c = historyItemCount s" using assms by (simp add: same_items_def historyItemCount_def)
  show "own_ids_ok me c = own_ids_ok me s"
    using assms a b by (simp add: own_ids_ok_def items_ok_def same_items_def)
qed

lemma sendPacket_items:
  "same_items u (snd (sendPacket i t u))" "AddPaintItem q \<in> set (cm_events (snd (sendPacket i t u))) \<Longrightarrow> AddPaintItem q \<in> set (cm_events u)"
  by (cases "make_ExecuteTask t None"; simp add: sendPacket_def fire_def same_items_def split: if_splits)+

lemma add_command:
  assumes "executeCommand (AddItemCommand p) s = (r, c)"
  shows "same_items s c" and "AddPaintItem q \<in> set (cm_events c) \<Longrightarrow> AddPaintItem q \<in> set (cm_events s) \<or> q = p"
proof -
  let ?t = "new_task True (fst p) (snd p) AddItem"
  define ok where "ok c \<longleftrightarrow> same_items s c \<and> (AddPaintItem q \<in> set (cm_events c) \<longrightarrow> AddPaintItem q \<in> set (cm_events s) \<or> q = p)" for c
  let ?u = "push_task ?t True s" and ?n = "int (length (cm_historyTaskList s))"
  have pushed: "ok ?u" by (auto simp: ok_def push_task_def Let_def fire_def same_items_def)
  have at: "task_at ?n ?u = (Inr (setSendData True ?t), ?u)" by (simp add: task_at_def push_task_simps nth_append)
  have "execute_body (setSendData True ?t) v = (case item_at v p of None \<Rightarrow> v | Some it \<Rightarrow> fire (AddPaintItem p) v)" for v
    by (cases "item_at v p") (simp_all add: execute_body_def Let_def item_at_def new_task_def setSendData_def task_owner_def task_itemId_def)
  then have body: "ok (execute_body (setSendData True ?t) v)" if "ok v" for v
    using that by (cases "item_at v p") (simp_all add: ok_def fire_def same_items_def)
  obtain r1 v where send: "sendPacket ?n (setSendData True ?t) ?u = (r1, v)" by fastforce
  have "ok v"
    using pushed sendPacket_items(1) [of ?u ?n "setSendData True ?t"] sendPacket_items(2) [of q ?n "setSendData True ?t" ?u] unfolding ok_def send snd_conv same_items_def by metis
  then have "ok (snd (task_execute ?n ?u))"
    using body by (cases r1) (simp_all add: task_execute_def bindS_def at send)
  then have exec: "ok (snd (executeTask ?t True s))" using pushed by (simp add: executeTask_def Let_def)
  obtain r2 w where w: "executeTask ?t True s = (r2, w)" by fastforce
  have "ok w" using exec w by simp
  moreover have "c = w \<or> c = w\<lparr>cm_commandList := AddItemCommand p # cm_commandList w, cm_redoCommandList := []\<rparr>"
    using assms w by (cases r2) (simp_all add: executeCommand_def bindS_def do_task_def split: if_splits)
  ultimately have "ok c" by (elim disjE) (simp_all add: ok_def same_items_def)
  then show "same_items s c" and "AddPaintItem q \<in> set (cm_events c) \<Longrightarrow> AddPaintItem q \<in> set (cm_events s) \<or> q = p"
    by (auto simp: ok_def)
qed

lemma item_added:
  assumes "own_ids_ok me s" "historyItemCount s + 1 < 2 ^ 32" "sp_owner (it_data it) = me" "cm_events s = []"
    and "addPaintItem True create it s = (Inr b, c)"
  shows "item_at c p = (if p = (me, generateItemId s) then Some (setItemId (generateItemId s) it) else item_at s p)"
    and "own_ids_ok me c" and "historyItemCount c = historyItemCount s + 1"
    and "AddPaintItem q \<in> set (cm_events c) \<Longrightarrow> q = (me, generateItemId s)"
proof -
  let ?it = "setItemId (generateItemId s) it"
  have ptr: "ptr_of ?it = (me, generateItemId s)" using assms(3) by (simp add: ptr_of_def setItemId_def)
  obtain msg where m: "create ?it = Inr msg"
    "executeCommand (AddItemCommand (ptr_of ?it)) (addHistoryItem ?it (fire (SendDataToUsers msg) s)) = (Inr b, c)"
    using assms(5) by (auto simp: addPaintItem_def Let_def new_AddItemCommand_def split: sum.splits)
  let ?s = "fire (SendDataToUsers msg) s"
  have f: "same_items s ?s" "cm_events ?s = [SendDataToUsers msg]" using assms(4) by (simp_all add: same_items_def fire_def)
  note f' = same_items_facts [OF f(1)]
  have g: "generateItemId ?s = generateItemId s" by (simp add: generateItemId_def fire_def)
  note gen = generated_id_facts [of me ?s it, unfolded f' g, OF assms(1,2,3)]
  note add = add_command [OF m(2)] and same = same_items_facts [OF add_command(1) [OF m(2)]]
  have free: "item_at s (me, generateItemId s) = None"
  proof -
    have "unat (generateItemId s) = historyItemCount s + 1" using assms(2) by (rule generateItemId_unat)
    then show ?thesis using assms(1) unfolding own_ids_ok_def by fastforce
  qed
  have i: "items_ok ?s" using assms(1) f'(3) [of me] by (simp add: own_ids_ok_def)
  show "item_at c p = (if p = (me, generateItemId s) then Some ?it else item_at s p)"
    using free by (simp add: same item_at_addHistoryItem ptr f')
  show "own_ids_ok me c" unfolding same using gen(3) .
  show "historyItemCount c = historyItemCount s + 1"
    unfolding same using history.count_add [OF i, of ?it] ptr free f' by simp
  show "AddPaintItem q \<in> set (cm_events c) \<Longrightarrow> q = (me, generateItemId s)"
    using add(2) [of q] gen(2) f(2) ptr by simp
qed

section \<open>One text\<close>

definition text_item :: "bytes \<Rightarrow> 32 word \<Rightarrow> double \<times> double \<Rightarrow> qstring \<Rightarrow> QFont \<Rightarrow> QColor \<Rightarrow> CPaintItem" where
  "text_item me i p str f c = setItemId i (setOwner me (setPos (fst p) (snd p) (setMyItem (new_item (TextContent str f c)))))"

lemma text_item_facts:
  "item_type (text_item me i p str f c) = PT_TEXT" "sp_posX (it_data (text_item me i p str f c)) = fst p"
  "sp_posY (it_data (text_item me i p str f c)) = snd p" "it_content (text_item me i p str f c) = TextContent str f c"
  by (simp_all add: text_item_def item_type_def setItemId_def setOwner_def setPos_def setMyItem_def new_item_def)

text \<open>The user can draw, and the ids of the own items are as \<^verbatim>\<open>generateItemId\<close> expects.\<close>

definition can_add :: "nat \<Rightarrow> placing \<Rightarrow> bool" where
  "can_add n s \<longleftrightarrow> pm_mainThread (pl_pm s) \<and> pm_enabled (pl_pm s) \<and> own_ids_ok (myId (pl_pm s)) (pm_cmd (pl_pm s))
     \<and> historyItemCount (pm_cmd (pl_pm s)) + n < 2 ^ 32"

lemma reports_nothing_new:
  assumes "\<forall>q. Ob_AddPaintItem q \<in> set cs \<longrightarrow> (\<exists>it. item_at (pm_cmd (pl_pm s)) q = Some it
      \<and> item_type it = PT_TEXT \<and> (sp_posX (it_data it), sp_posY (it_data it)) = pl_lastText s)"
  shows "fold onAddPaintItem cs s = s"
  using assms
proof (induction cs)
  case (Cons c cs)
  have "onAddPaintItem c s = s"
  proof (cases "\<exists>q. c = Ob_AddPaintItem q")
    case True
    then obtain q where c: "c = Ob_AddPaintItem q" by blast
    then have "Ob_AddPaintItem q \<in> set (c # cs)" by simp
    then obtain it where "item_at (pm_cmd (pl_pm s)) q = Some it" "item_type it = PT_TEXT"
      "(sp_posX (it_data it), sp_posY (it_data it)) = pl_lastText s" using Cons.prems by blast
    then show ?thesis by (simp add: onAddPaintItem_def c)
  qed (auto simp: onAddPaintItem_def split: observer_call.split)
  then show ?case using Cons by simp
qed simp

lemma calls_add: "Ob_AddPaintItem q \<in> set (calls_of evs) \<Longrightarrow> AddPaintItem q \<in> set evs"
  by (induction evs) (auto simp: calls_of_def map_filter_simps call_of_def split: option.splits event.splits)

lemma text_added:
  assumes "can_add (Suc n) s"
    and "calculateNewTextPos E i (canvas_size E s) (f_pixelSize f) (Some (fst (pl_lastText s))) (Some (snd (pl_lastText s))) (pl_lastM s) = Some (pos, m)"
    and "addTextItem E i str f c s = Some (Inr (), s')"
  defines "me \<equiv> myId (pl_pm s)" and "k \<equiv> generateItemId (pm_cmd (pl_pm s))"
  shows "pl_lastText s' = pos \<and> pl_lastM s' = m \<and> pl_canvas s' = pl_canvas s \<and> myId (pl_pm s') = me \<and> can_add n s'
    \<and> historyItemCount (pm_cmd (pl_pm s')) = historyItemCount (pm_cmd (pl_pm s)) + 1
    \<and> (\<forall>p. item_at (pm_cmd (pl_pm s')) p = (if p = (me, k) then Some (text_item me k pos str f c) else item_at (pm_cmd (pl_pm s)) p))"
proof -
  let ?s = "s\<lparr>pl_lastText := pos, pl_lastM := m\<rparr>" and ?p = "pl_pm s"
  let ?it = "setOwner me (setPos (fst pos) (snd pos) (setMyItem (new_item (TextContent str f c))))"
  let ?create = "\<lambda>it. make_CreateItem (en_qt (pe_env E)) (pm_files ?p) it None"
  obtain b where "on_ppm (pm_addPaintItem (pe_env E) ?it) ?s = (Inr b, s')"
    using assms(3) by (auto simp: addTextItem_def assms(2) requestAddItem_def bindS_def me_def split: prod.splits sum.splits)
  then obtain p where p: "pm_addPaintItem (pe_env E) ?it ?p = (Inr b, p)"
    and s': "s' = fold onAddPaintItem (drop (length (pm_trace ?p)) (pm_trace p)) (?s\<lparr>pl_pm := p\<rparr>)"
    by (auto simp: on_ppm_def split: prod.splits)
  have can: "pm_mainThread ?p" "pm_enabled ?p" "own_ids_ok me (pm_cmd ?p)" "historyItemCount (pm_cmd ?p) + Suc n < 2 ^ 32"
    using assms(1) by (simp_all add: can_add_def me_def)
  let ?c = "(pm_cmd ?p)\<lparr>cm_events := []\<rparr>"
  have "same_items (pm_cmd ?p) ?c" by (simp add: same_items_def)
  note same = same_items_facts [OF this]
  have k: "generateItemId ?c = k" by (simp add: k_def generateItemId_def)
  obtain r0 c1 where c1: "addPaintItem True ?create ?it ?c = (r0, c1)" by fastforce
  have on: "on_cmd (pe_env E) (addPaintItem True ?create ?it) ?p = (Inr b, p)" using p can(2) by (simp add: pm_addPaintItem_def)
  note out = on_cmd_carried [OF can(1) c1 on]
  have o: "own_ids_ok me ?c" "historyItemCount ?c + 1 < 2 ^ 32" "sp_owner (it_data ?it) = me" "cm_events ?c = []"
    using can(3,4) by (simp_all add: same setOwner_def)
  note added = item_added [OF o c1 [unfolded out(2) [OF refl]]]
  obtain cs where cs: "pm_cmd p = c1\<lparr>cm_events := []\<rparr>" "pm_mainThread p" "pm_enabled p" "pm_users p = pm_users ?p"
    "pm_trace p = pm_trace ?p @ cs" "set cs \<subseteq> set (calls_of (cm_events c1))"
    using out(1) can(1,2) by (auto simp: carried_out_def steady_def)
  have "same_items c1 (pm_cmd p)" by (simp add: same_items_def cs)
  note same' = same_items_facts [OF this]
  have items: "item_at (pm_cmd p) q = (if q = (me, k) then Some (text_item me k pos str f c) else item_at (pm_cmd ?p) q)" for q
    unfolding same' added(1) by (simp add: k same text_item_def)
  have "fold onAddPaintItem cs (?s\<lparr>pl_pm := p\<rparr>) = ?s\<lparr>pl_pm := p\<rparr>"
  proof (rule reports_nothing_new, intro allI impI)
    fix q assume "Ob_AddPaintItem q \<in> set cs"
    then have "AddPaintItem q \<in> set (cm_events c1)" using cs(6) calls_add by blast
    from added(4) [OF this] have "q = (me, k)" by (simp add: k)
    then show "\<exists>it. item_at (pm_cmd (pl_pm (?s\<lparr>pl_pm := p\<rparr>))) q = Some it \<and> item_type it = PT_TEXT
        \<and> (sp_posX (it_data it), sp_posY (it_data it)) = pl_lastText (?s\<lparr>pl_pm := p\<rparr>)"
      by (simp add: items text_item_facts)
  qed
  then have s'': "s' = ?s\<lparr>pl_pm := p\<rparr>" using s' cs(5) by simp
  have "myId p = me" using cs(4) by (simp add: me_def myId_def id_of_def user_def)
  then show ?thesis using items can(4) added(2,3) by (simp add: s'' can_add_def cs(2,3) same' same)
qed

section \<open>Several texts\<close>

primrec add_texts :: "placing_env \<Rightarrow> 32 word \<times> 32 word \<Rightarrow> QFont \<Rightarrow> QColor \<Rightarrow> ((32 word \<times> 32 word) \<times> qstring) list \<Rightarrow> placing
    \<Rightarrow> (unit result \<times> placing) option" where
  "add_texts E m f c [] s = Some (Inr (), s)"
| "add_texts E m f c (t # ts) s =
     (case addTextItem E \<lparr>pi_mouse = m, pi_rand = fst t\<rparr> (snd t) f c s of
        Some (Inr u, s') \<Rightarrow> add_texts E m f c ts s'
      | r \<Rightarrow> r)"

definition below :: "placing_env \<Rightarrow> 32 word \<Rightarrow> double \<times> double \<Rightarrow> double \<times> double" where
  "below E th p = (fst p, se_add (pe_scene E) (snd p) (se_int (pe_scene E) th))"

lemma next_position:
  assumes "fst (region size') \<noteq> 0" "snd (region size') \<noteq> 0" "mouse_seen (pi_mouse i) = lastM" "\<not> outside E size' th (below E th p)"
  shows "calculateNewTextPos E i size' th (Some (fst p)) (Some (snd p)) lastM = Some (below E th p, lastM)"
  using assms by (simp add: calculateNewTextPos_def calculateNewItemPos_def Let_def below_def)

lemma region_zero: "fst (region size') = 0 \<longleftrightarrow> fst size' = 0" "snd (region size') = 0 \<longleftrightarrow> snd size' = 0"
proof -
  have "(0 :: 32 word) <s 9999" "(0 :: 32 word) <s 300" by (simp_all add: word_sless_alt)
  then show "fst (region size') = 0 \<longleftrightarrow> fst size' = 0" "snd (region size') = 0 \<longleftrightarrow> snd size' = 0"
    by (cases "fst size' = 0"; cases "snd size' = 0"; simp add: region_def case_prod_beta
        DEFAULT_TEXT_ITEM_POS_REGION_W_def DEFAULT_TEXT_ITEM_POS_REGION_H_def)+
qed

lemma texts_added:
  assumes "can_add (length ts) s" "fst (canvas_size E s) \<noteq> 0" "snd (canvas_size E s) \<noteq> 0" "pl_lastM s = mouse_seen m"
    and "\<forall>k<length ts. \<not> outside E (canvas_size E s) (f_pixelSize f) ((below E (f_pixelSize f) ^^ Suc k) (pl_lastText s))"
    and "add_texts E m f c ts s = Some (Inr (), s')"
  shows "pl_lastText s' = (below E (f_pixelSize f) ^^ length ts) (pl_lastText s)
    \<and> (\<forall>k<length ts. item_at (pm_cmd (pl_pm s')) (myId (pl_pm s), generateItemId (pm_cmd (pl_pm s)) + of_nat k)
         = Some (text_item (myId (pl_pm s)) (generateItemId (pm_cmd (pl_pm s)) + of_nat k)
             ((below E (f_pixelSize f) ^^ Suc k) (pl_lastText s)) (snd (ts ! k)) f c))
    \<and> (\<forall>p. (\<forall>k<length ts. p \<noteq> (myId (pl_pm s), generateItemId (pm_cmd (pl_pm s)) + of_nat k))
         \<longrightarrow> item_at (pm_cmd (pl_pm s')) p = item_at (pm_cmd (pl_pm s)) p)"
  using assms
proof (induction ts arbitrary: s)
  case (Cons t ts)
  let ?th = "f_pixelSize f" and ?i = "\<lparr>pi_mouse = m, pi_rand = fst t\<rparr>"
  let ?me = "myId (pl_pm s)" and ?g = "generateItemId (pm_cmd (pl_pm s))" and ?b = "below E ?th (pl_lastText s)"
  from Cons.prems(6) obtain s1 where s1: "addTextItem E ?i (snd t) f c s = Some (Inr (), s1)"
    "add_texts E m f c ts s1 = Some (Inr (), s')"
    by (auto split: option.splits prod.splits sum.splits)
  have "\<not> outside E (canvas_size E s) ?th ?b" using Cons.prems(5) by fastforce
  then have n: "calculateNewTextPos E ?i (canvas_size E s) ?th (Some (fst (pl_lastText s))) (Some (snd (pl_lastText s))) (pl_lastM s)
      = Some (?b, pl_lastM s)"
    using Cons.prems(2,3,4) by (intro next_position) (simp_all add: region_zero)
  have can: "can_add (Suc (length ts)) s" using Cons.prems(1) by simp
  note one = text_added [OF can n s1(1)]
  have o: "pl_lastText s1 = ?b" "pl_lastM s1 = pl_lastM s" "myId (pl_pm s1) = ?me" "can_add (length ts) s1"
    "canvas_size E s1 = canvas_size E s" using one by (simp_all add: canvas_size_def)
  have at: "item_at (pm_cmd (pl_pm s1)) p = (if p = (?me, ?g) then Some (text_item ?me ?g ?b (snd t) f c) else item_at (pm_cmd (pl_pm s)) p)" for p
    using one by blast
  have count: "historyItemCount (pm_cmd (pl_pm s)) + Suc (length ts) < 2 ^ 32" using can by (simp add: can_add_def)
  have g: "generateItemId (pm_cmd (pl_pm s1)) = ?g + 1"
    using one by (simp add: generateItemId_def historyItemCount_def)
  have step: "(below E ?th ^^ k) ?b = (below E ?th ^^ Suc k) (pl_lastText s)" for k
    by (simp add: funpow_swap1)
  have fits: "\<forall>k<length ts. \<not> outside E (canvas_size E s) ?th ((below E ?th ^^ Suc k) ?b)"
    using Cons.prems(5) unfolding step by auto
  note ih = Cons.IH [of s1, unfolded o(1,2,3,5) g step, OF o(4) Cons.prems(2,3,4) fits [unfolded step] s1(2)]
  have IH: "pl_lastText s' = (below E ?th ^^ Suc (length ts)) (pl_lastText s)"
    "\<And>k. k < length ts \<Longrightarrow> item_at (pm_cmd (pl_pm s')) (?me, ?g + 1 + of_nat k)
       = Some (text_item ?me (?g + 1 + of_nat k) ((below E ?th ^^ Suc (Suc k)) (pl_lastText s)) (snd (ts ! k)) f c)"
    "\<And>p. (\<forall>k<length ts. p \<noteq> (?me, ?g + 1 + of_nat k)) \<Longrightarrow> item_at (pm_cmd (pl_pm s')) p = item_at (pm_cmd (pl_pm s1)) p"
    using ih by blast+
  have apart: "?g \<noteq> ?g + 1 + of_nat k" if "k < length ts" for k
  proof
    assume "?g = ?g + 1 + of_nat k"
    then have "(of_nat (Suc k) :: 32 word) = 0" by simp
    then have "2 ^ LENGTH(32) dvd Suc k" by (simp only: word_of_nat_eq_0_iff)
    then show False using that count by (auto dest!: dvd_imp_le)
  qed
  have first: "item_at (pm_cmd (pl_pm s')) (?me, ?g) = Some (text_item ?me ?g ?b (snd t) f c)"
    using IH(3) [of "(?me, ?g)"] apart at by simp
  show ?case
  proof (intro conjI allI impI)
    show "pl_lastText s' = (below E ?th ^^ length (t # ts)) (pl_lastText s)"
      using IH(1) by simp
    show "item_at (pm_cmd (pl_pm s')) (?me, ?g + of_nat k)
        = Some (text_item ?me (?g + of_nat k) ((below E ?th ^^ Suc k) (pl_lastText s)) (snd ((t # ts) ! k)) f c)"
      if "k < length (t # ts)" for k
      using that first IH(2) [of "k - 1"] by (cases k) (simp_all add: algebra_simps)
    show "item_at (pm_cmd (pl_pm s')) p = item_at (pm_cmd (pl_pm s)) p"
      if p: "\<forall>k<length (t # ts). p \<noteq> (?me, ?g + of_nat k)" for p
    proof -
      have "p \<noteq> (?me, ?g)" using p [rule_format, of 0] by simp
      moreover have "p \<noteq> (?me, ?g + 1 + of_nat k)" if "k < length ts" for k
        using p [rule_format, of "Suc k"] that by (simp add: algebra_simps)
      ultimately show ?thesis using IH(3) [of p] at by simp
    qed
  qed
qed simp

text \<open>C32: Lines that are typed one after another, with the mouse at rest, stand below each other: the
  \<open>k\<close>-th is put \<open>k\<close> times the height of the letters below the last text that was shown, as long as
  that is inside the canvas, whatever the random numbers are.  Each line is an item of its own in the
  history, with its text and its position, under the next id, and no other item changes.  The canvas
  must not be flat, and the user must be able to draw.\<close>

theorem typed_lines_form_column:
  assumes "can_add (length ts) s" "fst (canvas_size E s) \<noteq> 0" "snd (canvas_size E s) \<noteq> 0" "pl_lastM s = mouse_seen m"
    and "\<forall>k<length ts. \<not> outside E (canvas_size E s) (f_pixelSize f) ((below E (f_pixelSize f) ^^ Suc k) (pl_lastText s))"
    and "add_texts E m f c ts s = Some (Inr (), s')"
  shows "pl_lastText s' = (below E (f_pixelSize f) ^^ length ts) (pl_lastText s)
    \<and> (\<forall>k<length ts. item_at (pm_cmd (pl_pm s')) (myId (pl_pm s), generateItemId (pm_cmd (pl_pm s)) + of_nat k)
         = Some (text_item (myId (pl_pm s)) (generateItemId (pm_cmd (pl_pm s)) + of_nat k)
             ((below E (f_pixelSize f) ^^ Suc k) (pl_lastText s)) (snd (ts ! k)) f c))
    \<and> (\<forall>p. (\<forall>k<length ts. p \<noteq> (myId (pl_pm s), generateItemId (pm_cmd (pl_pm s)) + of_nat k))
         \<longrightarrow> item_at (pm_cmd (pl_pm s')) p = item_at (pm_cmd (pl_pm s)) p)"
  using assms by (rule texts_added)

section \<open>When adding succeeds\<close>

lemma events_offline:
  "pm_mainThread s \<Longrightarrow> offline s \<Longrightarrow> \<exists>us s'. mapS (handle_event e) evs s = (Inr us, s') \<and> offline s'"
proof (induction evs arbitrary: s)
  case (Cons ev evs)
  have "\<exists>s1. handle_event e ev s = (Inr (), s1) \<and> pm_mainThread s1 \<and> offline s1"
  proof (cases "no_send ev")
    case True
    then show ?thesis using handle_event_main [OF Cons.prems(1), of ev e] Cons.prems by (simp add: offline_def)
  next
    case False
    then obtain msg where "ev = SendDataToUsers msg" by (auto simp: no_send_def split: event.splits)
    then show ?thesis using Cons.prems
      by (simp add: handle_event_def offline_def sendDataToUsers_unit_def sendDataToUsers_def sendDataToUsers_to_def
          connected_opt_def bindS_def)
  qed
  then obtain s1 where s1: "handle_event e ev s = (Inr (), s1)" "pm_mainThread s1" "offline s1" by blast
  from Cons.IH [OF s1(2,3)] show ?case using s1(1) by (auto simp: bindS_def)
qed simp

lemma on_cmd_offline:
  assumes "pm_mainThread s" "offline s" "m ((pm_cmd s)\<lparr>cm_events := []\<rparr>) = (Inr a, c)"
  obtains p where "on_cmd e m s = (Inr a, p)" "offline p"
proof -
  have "pm_mainThread (s\<lparr>pm_cmd := c\<lparr>cm_events := []\<rparr>\<rparr>)" "offline (s\<lparr>pm_cmd := c\<lparr>cm_events := []\<rparr>\<rparr>)"
    using assms(1,2) by (simp_all add: offline_def)
  from events_offline [OF this, of e "cm_events c"] show thesis
    using that assms(3) by (auto simp: on_cmd_def bindS_def)
qed

lemma add_command_succeeds:
  assumes "fits8 (fst p)"
  obtains c where "executeCommand (AddItemCommand p) s = (Inr True, c)"
proof -
  let ?t = "new_task True (fst p) (snd p) AddItem" and ?n = "length (cm_historyTaskList s)"
  have "ok_task (setSendData True ?t)" using assms by (simp add: ok_task_def ok_task_data_def new_task_def setSendData_def)
  then obtain w where w: "make_ExecuteTask (setSendData True ?t) None = Inr w" using ok_task_make by blast
  have tk_send: "tk_sendData (setSendData True t)" for t by (simp add: setSendData_def)
  have "task_execute (int ?n) (push_task ?t True s) = (Inr True, execute_body (setSendData True ?t)
      ((fire (SendDataToUsers w) (push_task ?t True s))\<lparr>cm_historyTaskList := (cm_historyTaskList (push_task ?t True s))[?n := setSendData False (setSendData True ?t)]\<rparr>))"
    using task_execute_sends [of ?n "push_task ?t True s" "setSendData True ?t" w] w
    by (simp add: push_task_simps tk_send)
  then have "fst (executeTask ?t True s) = Inr True" by (simp add: executeTask_def Let_def)
  then obtain c where "executeTask ?t True s = (Inr True, c)" by (metis prod.collapse)
  then have "\<exists>c. executeCommand (AddItemCommand p) s = (Inr True, c)" by (simp add: executeCommand_def bindS_def do_task_def)
  with that show thesis by blast
qed

lemma add_succeeds:
  assumes "pm_mainThread s" "pm_enabled s" "offline s" "fits8 (sp_owner (it_data it))"
    and "carried e (pm_files s) (setItemId (generateItemId (pm_cmd s)) it)"
  obtains p where "pm_addPaintItem e it s = (Inr True, p)" "offline p"
proof -
  let ?c = "(pm_cmd s)\<lparr>cm_events := []\<rparr>" and ?it = "setItemId (generateItemId (pm_cmd s)) it"
  have g: "generateItemId ?c = generateItemId (pm_cmd s)" by (simp add: generateItemId_def)
  have "fits8 (fst (ptr_of ?it))" using assms(4) by (simp add: ptr_of_def setItemId_def)
  from add_command_succeeds [OF this] obtain c where
    "addPaintItem True (\<lambda>it. make_CreateItem (en_qt e) (pm_files s) it None) it ?c = (Inr True, c)"
    unfolding addPaintItem_def by (auto simp: g item_packet_made(1) [OF assms(5)] new_AddItemCommand_def Let_def)
  from on_cmd_offline [where m = "addPaintItem True (\<lambda>it. make_CreateItem (en_qt e) (pm_files s) it None) it", OF assms(1,3) this]
  show thesis using that assms(2) by (auto simp: pm_addPaintItem_def)
qed

lemma pm_of_report: "pl_pm (onAddPaintItem c s) = pl_pm s" "pl_pm (fold onAddPaintItem cs s) = pl_pm s"
proof -
  show one: "pl_pm (onAddPaintItem c s) = pl_pm s" for c s
    by (simp add: onAddPaintItem_def split: observer_call.split option.split)
  show "pl_pm (fold onAddPaintItem cs s) = pl_pm s" by (induction cs arbitrary: s) (simp_all add: one)
qed

lemma text_succeeds:
  assumes "pm_mainThread (pl_pm s)" "pm_enabled (pl_pm s)" "offline (pl_pm s)" "fits8 (myId (pl_pm s))"
    and "\<And>i p. carried (pe_env E) (pm_files (pl_pm s)) (text_item (myId (pl_pm s)) i p str f c)"
    and "fst (canvas_size E s) \<noteq> 0" "snd (canvas_size E s) \<noteq> 0"
  obtains s' where "addTextItem E i str f c s = Some (Inr (), s')" "offline (pl_pm s')"
proof -
  obtain pos m where n: "calculateNewTextPos E i (canvas_size E s) (f_pixelSize f) (Some (fst (pl_lastText s)))
      (Some (snd (pl_lastText s))) (pl_lastM s) = Some (pos, m)"
    using assms(6,7) by (simp add: calculateNewTextPos_def calculateNewItemPos_def Let_def region_zero)
  let ?it = "setOwner (myId (pl_pm s)) (setPos (fst pos) (snd pos) (setMyItem (new_item (TextContent str f c))))"
  have "fits8 (sp_owner (it_data ?it))" using assms(4) by (simp add: setOwner_def)
  from add_succeeds [OF assms(1,2,3) this, of "pe_env E"] obtain p where
    "pm_addPaintItem (pe_env E) ?it (pl_pm s) = (Inr True, p)" "offline p"
    using assms(5) unfolding text_item_def by blast
  then have "\<exists>s'. addTextItem E i str f c s = Some (Inr (), s') \<and> offline (pl_pm s')"
    by (cases pos) (simp add: addTextItem_def n requestAddItem_def bindS_def on_ppm_def pm_of_report)
  with that show thesis by blast
qed

section \<open>A sample window\<close>

definition sample_placing_env :: placing_env where
  "sample_placing_env = \<lparr>pe_env = ManagerRun.sample_env, pe_scene = Scene.sample_env, pe_le = (\<le>),
     pe_setPixelSize = (\<lambda>n f. f\<lparr>f_pixelSize := n\<rparr>), pe_setBold = (\<lambda>f. f\<lparr>f_bold := True\<rparr>),
     pe_gulim = \<lparr>f_family = [71], f_pixelSize = 12, f_bold = False\<rparr>\<rparr>"

definition sample_placing :: placing where
  "sample_placing = \<lparr>pl_pm = sample_drawing, pl_canvas = pen_scene, pl_lastM = (100, 100), pl_lastText = (80, 80)\<rparr>"

definition sample_font :: QFont where
  "sample_font = \<lparr>f_family = [71], f_pixelSize = 20, f_bold = True\<rparr>"

definition sample_color :: QColor where
  "sample_color = \<lparr>c_red = 1, c_green = 2, c_blue = 3, c_alpha = 255\<rparr>"

lemma sample_text_carried: "carried ManagerRun.sample_env fs (text_item [7] i p [72] sample_font sample_color)"
proof -
  let ?it = "text_item [7] i p [72] sample_font sample_color"
  have b: "ok_basic (it_data ?it)"
    by (simp add: text_item_def ok_basic_def setItemId_def setOwner_def setPos_def setMyItem_def new_item_def new_paint_data_def fits8_def)
  have c: "it_content ?it = TextContent [72] sample_font sample_color" by (rule text_item_facts)
  have u: "fits16 (q_toUtf8 sample_qt [72])" "fits16 (q_toUtf8 sample_qt (f_family sample_font))"
    by (simp_all add: fits16_def sample_qt_def sample_font_def)
  have t: "serialize_item sample_qt fs ?it = Inr (enc_basic (it_data ?it) @ enc_text sample_qt [72] sample_font sample_color)"
    using text_roundtrip(1) [OF b u] by (simp add: serialize_item_def c)
  have "length (enc_basic (it_data ?it)) \<le> 900" using b by (simp add: ok_basic_def enc_basic_def fits8_def)
  moreover have "length (enc_text sample_qt [72] sample_font sample_color) \<le> 100"
    by (simp add: enc_text_def enc_color_def sample_qt_def sample_font_def)
  ultimately have "length (enc_basic (it_data ?it) @ enc_text sample_qt [72] sample_font sample_color) + 2 \<le> unat MAX_PACKET_BODY_SIZE"
    by (simp add: MAX_PACKET_BODY_SIZE_def)
  moreover have "ok_item sample_qt ?it" "qt_carries sample_qt ?it"
    unfolding ok_item_def qt_carries_def c using b by (simp_all add: sample_qt_def sample_font_def sample_color_def fits16_def)
  ultimately show ?thesis
    using t by (simp add: carried_def ManagerRun.sample_env_def text_item_facts)
qed

lemma sample_placing_simps [simp]:
  "pl_pm sample_placing = sample_drawing" "pl_lastM sample_placing = (100, 100)" "pl_lastText sample_placing = (80, 80)"
  "pe_env sample_placing_env = ManagerRun.sample_env" "canvas_size sample_placing_env s = (640, 480)"
  "f_pixelSize sample_font = 20" "pm_mainThread sample_drawing" "pm_enabled sample_drawing" "offline sample_drawing"
  "myId sample_drawing = [7]"
  by (simp_all add: sample_placing_def sample_placing_env_def canvas_size_def Scene.sample_env_def sample_font_def
      sample_drawing_def new_paint_manager_def startListenBroadCast_def offline_def myId_def id_of_def user_def
      CPaintUser_myself_def new_user_info_def my_def split: prod.split)

lemma sample_can_add: "can_add 2 sample_placing"
proof -
  have S: "cm_historyItemSet sample_mngr = {([7], 1)}"
    by (simp add: sample_mngr_def addHistoryItem_def Let_def addPainter_def new_cmd_mngr_def list_addItem_def new_item_list_def)
  have "own_ids_ok [7] sample_mngr" by (simp add: own_ids_ok_def items_ok_def S sample_mngr_item historyItemCount_def)
  then show ?thesis by (simp add: can_add_def historyItemCount_def S)
qed

lemma sample_below: "below sample_placing_env 20 (80, 80) = (80, 100)" "below sample_placing_env 20 (80, 100) = (80, 120)"
  by (simp_all add: below_def sample_placing_env_def Scene.sample_env_def)

lemma sample_inside: "\<not> outside sample_placing_env (640, 480) 20 (80, 100)" "\<not> outside sample_placing_env (640, 480) 20 (80, 120)"
  by (simp_all add: outside_def sample_placing_env_def Scene.sample_env_def double_0_def)

lemma sample_fits:
  "\<forall>k<2. \<not> outside sample_placing_env (640, 480) 20 ((below sample_placing_env 20 ^^ Suc k) (80, 80))"
proof (intro allI impI)
  fix k :: nat assume "k < 2"
  then consider "k = 0" | "k = 1" by linarith
  then show "\<not> outside sample_placing_env (640, 480) 20 ((below sample_placing_env 20 ^^ Suc k) (80, 80))"
    by cases (simp_all add: sample_below sample_inside)
qed

lemma typed_lines_form_column_witness:
  "\<exists>s'. add_texts sample_placing_env (100, 100) sample_font sample_color [((5, 5), [72]), ((9, 9), [72])] sample_placing
      = Some (Inr (), s')
    \<and> pl_lastText s' = (below sample_placing_env 20 ^^ 2) (80, 80)
    \<and> (\<exists>it. item_at (pm_cmd (pl_pm s')) ([7], 3) = Some it \<and> it_content it = TextContent [72] sample_font sample_color)"
proof -
  let ?E = sample_placing_env and ?ts = "[((5, 5), [72]), ((9, 9), [72])] :: ((32 word \<times> 32 word) \<times> qstring) list"
  let ?i = "\<lambda>r. \<lparr>pi_mouse = (100, 100), pi_rand = r\<rparr> :: placing_input"
  have m: "mouse_seen (100, 100) = (100, 100)" by (simp add: mouse_seen_def word_sle_eq)
  have id7: "fits8 [7]" by (simp add: fits8_def)
  have "\<exists>s1. addTextItem ?E (?i (5, 5)) [72] sample_font sample_color sample_placing = Some (Inr (), s1) \<and> offline (pl_pm s1)"
    by (rule text_succeeds [of sample_placing ?E "[72]" sample_font sample_color]) (use sample_text_carried id7 in auto)
  then obtain s1 where s1: "addTextItem ?E (?i (5, 5)) [72] sample_font sample_color sample_placing = Some (Inr (), s1)" "offline (pl_pm s1)" by blast
  have can: "can_add (Suc 1) sample_placing" using sample_can_add by (simp add: numeral_2_eq_2)
  have n: "calculateNewTextPos ?E (?i (5, 5)) (canvas_size ?E sample_placing) (f_pixelSize sample_font) (Some (fst (pl_lastText sample_placing)))
      (Some (snd (pl_lastText sample_placing))) (pl_lastM sample_placing) = Some (below ?E 20 (80, 80), (100, 100))"
    using next_position [of "(640, 480)" "?i (5, 5)" "(100, 100)" ?E 20 "(80, 80)"] m by (simp add: region_zero sample_below sample_inside)
  from text_added [OF can n s1(1)] have o: "can_add 1 s1" "myId (pl_pm s1) = [7]" by simp_all
  have "\<exists>s2. addTextItem ?E (?i (9, 9)) [72] sample_font sample_color s1 = Some (Inr (), s2) \<and> offline (pl_pm s2)"
    by (rule text_succeeds [of s1 ?E "[72]" sample_font sample_color]) (use sample_text_carried id7 o s1(2) in \<open>auto simp: can_add_def\<close>)
  then obtain s2 where s2: "addTextItem ?E (?i (9, 9)) [72] sample_font sample_color s1 = Some (Inr (), s2)" by blast
  have all: "add_texts ?E (100, 100) sample_font sample_color ?ts sample_placing = Some (Inr (), s2)" using s1(1) s2 by simp
  have g: "generateItemId (pm_cmd (pl_pm sample_placing)) = 2"
    by (simp add: generateItemId_def sample_mngr_def addHistoryItem_def Let_def addPainter_def new_cmd_mngr_def list_addItem_def new_item_list_def)
  have two: "Suc (Suc 0) = 2" "Suc 1 = 2" by simp_all
  have "can_add (length ?ts) sample_placing" "fst (canvas_size ?E sample_placing) \<noteq> 0" "snd (canvas_size ?E sample_placing) \<noteq> 0"
    "pl_lastM sample_placing = mouse_seen (100, 100)"
    "\<forall>k<length ?ts. \<not> outside ?E (canvas_size ?E sample_placing) (f_pixelSize sample_font)
       ((below ?E (f_pixelSize sample_font) ^^ Suc k) (pl_lastText sample_placing))"
    using sample_can_add sample_fits m by (simp_all add: two)
  note column = typed_lines_form_column [OF this all]
  have last: "pl_lastText s2 = (below ?E 20 ^^ 2) (80, 80)" using column by (simp add: numeral_2_eq_2)
  have "item_at (pm_cmd (pl_pm s2)) ([7], 2 + of_nat 1)
      = Some (text_item [7] (2 + of_nat 1) ((below ?E 20 ^^ Suc 1) (80, 80)) (snd (?ts ! 1)) sample_font sample_color)"
    using column [THEN conjunct2, THEN conjunct1, rule_format, of 1] unfolding g by simp
  then show ?thesis using all last by (auto simp: text_item_facts)
qed

end
