(* ===== verification/WindowTools.thy ===== *)
theory WindowTools
  imports ItemPlacing PainterFilter MainWindow UpgradeManager
begin

text \<open>
  The tools of the main window: the pen and its modes, the colour of the background, the screen shot,
  the question before the screen is cleared, the list of painters, and the window of an upgrade.
\<close>

section \<open>The pen\<close>

text \<open>
  The two buttons of the tool bar and the entry of the menu can be checked; the canvas has the mode.
  A click changes the mark of what is clicked before the action is called.
\<close>

record pen_tools =
  pt_canvas :: scene
  pt_moveMode :: bool
  pt_penMode :: bool
  pt_penModeAction :: bool
  pt_penColorButton :: QColor

definition set_pen :: "QColor \<Rightarrow> 32 word \<Rightarrow> pen_tools \<Rightarrow> pen_tools" where
  "set_pen c w s = s\<lparr>pt_canvas := setPenSetting c w (pt_canvas s)\<rparr>"

text \<open>The width the user has entered, from 0 to 100, unless he cancels.\<close>

definition actionPenWidth :: "32 word option \<Rightarrow> pen_tools \<Rightarrow> pen_tools" where
  "actionPenWidth answer s = (case answer of None \<Rightarrow> s | Some w \<Rightarrow> set_pen (cv_penClr (pt_canvas s)) w s)"

definition actionPenWidth_of :: "32 word \<Rightarrow> pen_tools \<Rightarrow> pen_tools" where
  "actionPenWidth_of w s = set_pen (cv_penClr (pt_canvas s)) w s"

definition actionPenWidth1 :: "pen_tools \<Rightarrow> pen_tools" where "actionPenWidth1 = actionPenWidth_of 1"
definition actionPenWidth3 :: "pen_tools \<Rightarrow> pen_tools" where "actionPenWidth3 = actionPenWidth_of 3"
definition actionPenWidth6 :: "pen_tools \<Rightarrow> pen_tools" where "actionPenWidth6 = actionPenWidth_of 6"
definition actionPenWidth10 :: "pen_tools \<Rightarrow> pen_tools" where "actionPenWidth10 = actionPenWidth_of 10"
definition actionPenWidth20 :: "pen_tools \<Rightarrow> pen_tools" where "actionPenWidth20 = actionPenWidth_of 20"

definition actionPenColor :: "QColor option \<Rightarrow> pen_tools \<Rightarrow> pen_tools" where
  "actionPenColor clr s = (case clr of
       None \<Rightarrow> s
     | Some c \<Rightarrow> (set_pen c (cv_penWidth (pt_canvas s)) s)\<lparr>pt_penColorButton := c\<rparr>)"

definition actionFreePenMode :: "scene_env \<Rightarrow> pen_tools \<Rightarrow> pen_tools" where
  "actionFreePenMode V s = s\<lparr>pt_moveMode := False, pt_penMode := True, pt_penModeAction := True,
     pt_canvas := setFreePenMode V True (pt_canvas s)\<rparr>"

definition actionMoveMode :: "scene_env \<Rightarrow> pen_tools \<Rightarrow> pen_tools" where
  "actionMoveMode V s = s\<lparr>pt_moveMode := True, pt_penMode := False, pt_penModeAction := False,
     pt_canvas := setFreePenMode V False (pt_canvas s)\<rparr>"

definition actionPenMode :: "scene_env \<Rightarrow> pen_tools \<Rightarrow> pen_tools" where
  "actionPenMode V s = (if pt_penModeAction s then actionFreePenMode V s else actionMoveMode V s)"

datatype mode_click = Click_Move | Click_Pen | Click_PenMode

fun click_mode :: "scene_env \<Rightarrow> mode_click \<Rightarrow> pen_tools \<Rightarrow> pen_tools" where
  "click_mode V Click_Move s = actionMoveMode V (s\<lparr>pt_moveMode := \<not> pt_moveMode s\<rparr>)"
| "click_mode V Click_Pen s = actionFreePenMode V (s\<lparr>pt_penMode := \<not> pt_penMode s\<rparr>)"
| "click_mode V Click_PenMode s = actionPenMode V (s\<lparr>pt_penModeAction := \<not> pt_penModeAction s\<rparr>)"

definition modes_agree :: "pen_tools \<Rightarrow> bool" where
  "modes_agree s \<longleftrightarrow> pt_penMode s = cv_freePenMode (pt_canvas s) \<and> pt_penModeAction s = cv_freePenMode (pt_canvas s)
     \<and> pt_moveMode s = (\<not> cv_freePenMode (pt_canvas s))"

lemma clear_selected_mode: "cv_freePenMode (clearSelectedItemState V s) = cv_freePenMode s"
proof -
  have "cv_freePenMode (foldl (\<lambda>s ob. call (SetSelected ob False) s) s obs) = cv_freePenMode s" for obs
    by (induction obs arbitrary: s) (simp_all add: call_def)
  then show ?thesis by (simp add: clearSelectedItemState_def)
qed

lemma mode_set: "cv_freePenMode (setFreePenMode V b s) = b"
  by (simp add: setFreePenMode_def Let_def call_def clear_selected_mode)

text \<open>
  Whatever is clicked, in whatever state the buttons are, they show the mode of the canvas afterwards,
  and the menu entry changes the mode.
\<close>

lemma buttons_show_mode:
  "modes_agree (click_mode V k s)"
  "modes_agree s \<Longrightarrow> cv_freePenMode (pt_canvas (click_mode V Click_PenMode s)) = (\<not> cv_freePenMode (pt_canvas s))"
  by (cases k; simp add: modes_agree_def actionMoveMode_def actionFreePenMode_def actionPenMode_def mode_set)
    (simp add: modes_agree_def actionMoveMode_def actionFreePenMode_def actionPenMode_def mode_set)

section \<open>The screen shot\<close>

text \<open>
  The window is moved far away, and is put back by the event that says it has moved.  \<open>sh_place\<close> is
  where the window system puts a window that is moved, \<open>sh_grab\<close> the screen, as \<^verbatim>\<open>setPixmap\<close> writes it.
\<close>

record shot_env =
  sh_env :: env
  sh_place :: "int \<times> int \<Rightarrow> int \<times> int"
  sh_grab :: bytes

record shot_window =
  sw_pm :: paint_manager
  sw_pos :: "int \<times> int"
  sw_orgPos :: "int \<times> int"
  sw_screenShotMode :: bool

definition HIDE_POS :: "int \<times> int" where "HIDE_POS = (9999, 9999)"

definition screen_image :: "shot_env \<Rightarrow> paint_manager \<Rightarrow> CPaintItem" where
  "screen_image E p = setItemId 0 (setOwner (myId p) (new_item (BgImageContent (sh_grab E))))"

definition on_shot_pm :: "'a pm \<Rightarrow> (shot_window, 'a) meth" where
  "on_shot_pm m s = (case m (sw_pm s) of (r, p) \<Rightarrow> (r, s\<lparr>sw_pm := p\<rparr>))"

text \<open>\<^verbatim>\<open>moveEvent\<close>; moving back makes another event, when the window system really moves the window.\<close>

function moveEvent :: "shot_env \<Rightarrow> int \<times> int \<Rightarrow> (shot_window, unit) meth" where
  "moveEvent E q s =
     (if \<not> sw_screenShotMode s then (Inr (), s)
      else if q \<noteq> HIDE_POS then (Inr (), s)
      else
        bindS (on_shot_pm (sendBackgroundImage (sh_env E) (Some (screen_image E (sw_pm s)))))
          (\<lambda>i s. let q' = sh_place E (sw_orgPos s) in
             bindS (if q' = q then returnS () else moveEvent E q') (\<lambda>u s. (Inr (), s\<lparr>sw_screenShotMode := False\<rparr>))
               (if q' = q then s else s\<lparr>sw_pos := q'\<rparr>)) s)"
  by pat_completeness auto
termination by (relation "measure (\<lambda>(E, q, s). if q = HIDE_POS then 1 else 0)") auto

declare moveEvent.simps [simp del]

definition move_window :: "shot_env \<Rightarrow> int \<times> int \<Rightarrow> (shot_window, unit) meth" where
  "move_window E p s =
     (let q = sh_place E p in if q = sw_pos s then (Inr (), s) else moveEvent E q (s\<lparr>sw_pos := q\<rparr>))"

definition actionScreenShot :: "shot_env \<Rightarrow> (shot_window, unit) meth" where
  "actionScreenShot E s = move_window E HIDE_POS (s\<lparr>sw_screenShotMode := True, sw_orgPos := sw_pos s\<rparr>)"

lemma shot_sent:
  assumes "sendBackgroundImage e (Some it) p = (Inr i, p')"
  shows "pm_backgroundImage p' = Some it"
proof -
  let ?p = "notify (Ob_SetBackgroundImage (Some it)) (p\<lparr>pm_backgroundImage := Some it\<rparr>)"
  obtain msg where m: "sendDataToUsers msg ?p = (Inr i, p')"
    using assms by (auto simp: sendBackgroundImage_def thenS_def bindS_def updS_def fireObserver_SetBackgroundImage_def raise_or_def notify_def
        split: sum.splits)
  have "steady ?p ?p" by (simp add: steady_def)
  from keepsD [OF sending_steady(1) this, of msg] have "steady ?p p'" by (simp only: m snd_conv)
  then show ?thesis by (simp add: steady_def notify_def)
qed

lemma moveEvent_elsewhere: "q \<noteq> HIDE_POS \<Longrightarrow> moveEvent E q s = (Inr (), s)"
  by (simp add: moveEvent.simps)

text \<open>
  Where the window system puts the window where it is asked to, the shot is taken, sent, and the window
  is back at its place.
\<close>

lemma screen_shot_puts_back:
  assumes "sh_place E HIDE_POS = HIDE_POS" "sh_place E (sw_pos s) = sw_pos s" "sw_pos s \<noteq> HIDE_POS"
    and "actionScreenShot E s = (Inr (), s')"
  shows "sw_pos s' = sw_pos s \<and> \<not> sw_screenShotMode s' \<and> pm_backgroundImage (sw_pm s') = Some (screen_image E (sw_pm s))"
proof -
  let ?s = "s\<lparr>sw_screenShotMode := True, sw_orgPos := sw_pos s, sw_pos := HIDE_POS\<rparr>"
  have "moveEvent E HIDE_POS ?s = (Inr (), s')"
    using assms(1,3,4) by (auto simp: actionScreenShot_def move_window_def)
  moreover obtain r p where p: "sendBackgroundImage (sh_env E) (Some (screen_image E (sw_pm s))) (sw_pm s) = (r, p)" by fastforce
  ultimately obtain i where "r = Inr i" "s' = ?s\<lparr>sw_pm := p, sw_pos := sw_pos s, sw_screenShotMode := False\<rparr>"
    using assms(2,3) by (cases r) (auto simp: moveEvent.simps [of E HIDE_POS] bindS_def on_shot_pm_def moveEvent_elsewhere Let_def)
  with shot_sent [of "sh_env E" "screen_image E (sw_pm s)" "sw_pm s" i p] p show ?thesis by simp
qed

text \<open>
  Where the window system keeps windows on the screen there is no shot; the mode stays on, and whatever
  position the window is moved to it is not that of the event that is waited for.
\<close>

lemma shot_never_taken:
  assumes "\<And>p. sh_place E p \<noteq> HIDE_POS"
  shows "\<exists>s'. actionScreenShot E s = (Inr (), s') \<and> sw_screenShotMode s' \<and> sw_pm s' = sw_pm s
    \<and> (\<forall>p. \<exists>s''. move_window E p s' = (Inr (), s'') \<and> sw_screenShotMode s'' \<and> sw_pm s'' = sw_pm s)"
  using assms by (auto simp: actionScreenShot_def move_window_def Let_def moveEvent_elsewhere)

section \<open>The background and the screen\<close>

text \<open>The manager and the colour the button shows.\<close>

definition actionBGColor :: "env \<Rightarrow> QColor option \<Rightarrow> (paint_manager \<times> QColor, unit) meth" where
  "actionBGColor e clr s = (case clr of
       None \<Rightarrow> (Inr (), s)
     | Some c \<Rightarrow>
         (case setBackgroundColor e (ucast (c_red c), ucast (c_green c), ucast (c_blue c), ucast (c_alpha c)) (fst s) of
            (Inl err, p) \<Rightarrow> (Inl err, (p, snd s))
          | (Inr u, p) \<Rightarrow> (Inr (), (p, c))))"

text \<open>Nothing can be rolled back afterwards, so the user is asked.\<close>

definition actionClearScreen :: "window_env \<Rightarrow> bool \<Rightarrow> unit mw" where
  "actionClearScreen E ok = whenS ok (mw_clearScreen E True)"

text \<open>Thin actions: what they ask of the manager.\<close>

definition actionUndo :: "env \<Rightarrow> unit pm" where "actionUndo = pm_undoCommand"
definition actionRedo :: "env \<Rightarrow> unit pm" where "actionRedo = pm_redoCommand"
definition actionCloseConnection :: "env \<Rightarrow> unit pm" where "actionCloseConnection = closeSession"

definition actionBroadcastTextMessage :: "window_env \<Rightarrow> qstring option \<Rightarrow> unit mw" where
  "actionBroadcastTextMessage E answer s = (case answer of
       None \<Rightarrow> (Inr (), s)
     | Some msg \<Rightarrow> on_pm (sendBroadCastTextMessage (we_env E) (st_paintChannel (mw_st s)) (toUtf8StdString (we_se E) msg)) s)"

section \<open>What the canvas reports\<close>

definition onICanvasViewEvent_MoveItem :: "env \<Rightarrow> CPaintItem \<Rightarrow> unit pm" where
  "onICanvasViewEvent_MoveItem e it = movePaintItem e it"

definition onICanvasViewEvent_DrawItem :: "placing_env \<Rightarrow> CPaintItem \<Rightarrow> (placing, unit) meth" where
  "onICanvasViewEvent_DrawItem E it = requestAddItem E it"

definition onICanvasViewEvent_UpdateItem :: "env \<Rightarrow> CPaintItem \<Rightarrow> unit pm" where
  "onICanvasViewEvent_UpdateItem e it = updatePaintItem e it"

definition onICanvasViewEvent_RemoveItem :: "env \<Rightarrow> CPaintItem \<Rightarrow> unit pm" where
  "onICanvasViewEvent_RemoveItem e it = removePaintItem e it"

definition onICanvasViewEvent_GetToolTipText :: "qt \<Rightarrow> CPaintItem \<Rightarrow> paint_manager \<Rightarrow> qstring" where
  "onICanvasViewEvent_GetToolTipText q it p = (case findHistoryUser (sp_owner (it_data it)) p of
       Some u \<Rightarrow> q_fromUtf8 q (u_nickName (user_data (user u p)))
     | None \<Rightarrow> [])"

section \<open>The progress of sending\<close>

record progress_bar =
  pb_currPacketId :: int
  pb_range :: "int \<times> int"
  pb_value :: int

definition onSendingPacket_bar :: "int \<Rightarrow> int \<Rightarrow> int \<Rightarrow> progress_bar \<Rightarrow> progress_bar" where
  "onSendingPacket_bar packetId wroteBytes totalBytes b =
     (let b = (if pb_currPacketId b \<noteq> packetId then b\<lparr>pb_range := (0, totalBytes), pb_currPacketId := packetId\<rparr> else b) in
      b\<lparr>pb_value := wroteBytes\<rparr>)"

section \<open>The windows of users and painters\<close>

definition joiner_names :: "qt \<Rightarrow> paint_manager \<Rightarrow> qstring list" where
  "joiner_names q p = map (\<lambda>(u, i). q_fromUtf8 q (u_nickName (user_data (user i p)))) (pm_joinerMap p)"

text \<open>
  A row has the nick name, the mark and the id as a string.  The window is filled when it is shown; a
  click on the mark changes it before \<^verbatim>\<open>listItemClicked\<close> is called, a click elsewhere does not.
\<close>

record painter_row =
  pr_nick :: qstring
  pr_checked :: bool
  pr_id :: qstring

definition showEvent_painters :: "settings_env \<Rightarrow> paint_manager \<Rightarrow> painter_row list" where
  "showEvent_painters S p = map (\<lambda>u.
     \<lparr>pr_nick = q_fromUtf8 (se_qt S) (u_nickName (user_data (user u p))),
      pr_checked = isAllowPainterToDraw (id_of u p) (pm_cmd p), pr_id = se_fromAscii S (id_of u p)\<rparr>) (pm_joinerHistory p)"

definition listItemClicked :: "settings_env \<Rightarrow> env \<Rightarrow> painter_row \<Rightarrow> unit pm" where
  "listItemClicked S e row = pm_setAllowPainterToDraw e (se_toStd S (pr_id row)) (pr_checked row)"

definition click_row :: "settings_env \<Rightarrow> env \<Rightarrow> nat \<times> bool \<Rightarrow> (painter_row list \<times> paint_manager, unit) meth" where
  "click_row S e click s = (case click of (n, marked) \<Rightarrow>
     if n < length (fst s)
     then (let row = fst s ! n; row = (if marked then row\<lparr>pr_checked := \<not> pr_checked row\<rparr> else row) in
       case listItemClicked S e row (snd s) of (r, p) \<Rightarrow> (r, ((fst s)[n := row], p)))
     else (Inr (), s))"

definition click_rows :: "settings_env \<Rightarrow> env \<Rightarrow> (nat \<times> bool) list \<Rightarrow> (painter_row list \<times> paint_manager, unit) meth" where
  "click_rows S e clicks = bindS (mapS (click_row S e) clicks) (\<lambda>us. returnS ())"

lemma loops_allow: "keeps (\<lambda>s. cm_allowPainters s = A) (loopS (if_owner u task_execute) is)"
  "keeps (\<lambda>s. cm_allowPainters s = A) (loopS (if_owner u task_rollback) is)"
proof -
  let ?P = "\<lambda>s. cm_allowPainters s = A"
  have at: "keeps ?P (task_at i)" for i by (simp add: keeps_def task_at_def)
  have send: "keeps ?P (sendPacket i t)" for i t by (auto simp: keeps_def sendPacket_def fire_def split: sum.split)
  have body: "cm_allowPainters (execute_body t s) = cm_allowPainters s" "cm_allowPainters (rollback_body t s) = cm_allowPainters s" for t s
    by (auto simp: execute_body_def rollback_body_def Let_def fire_def setItemData_def split: option.split task_body.split)
  have ex: "keeps ?P (task_execute i)" for i
    unfolding task_execute_def using at send by (intro keeps_bindS) (auto simp: keeps_def body)
  have ro: "keeps ?P (task_rollback i)" for i
    unfolding task_rollback_def using at by (intro keeps_bindS) (auto simp: keeps_def body)
  have own: "keeps ?P (if_owner u m i)" if m: "\<And>i. keeps ?P (m i)" for i and m :: "int \<Rightarrow> (cmd_mngr, 'b) meth"
  proof -
    have "keeps ?P (if task_owner t \<noteq> u then returnS () else bindS (m i) (\<lambda>r. returnS ()))" for t
      using keeps_bindS [OF m [of i], of "\<lambda>r. returnS ()"] by simp
    with at show ?thesis unfolding if_owner_def by (rule keeps_bindS)
  qed
  show "keeps ?P (loopS (if_owner u task_execute) is)" "keeps ?P (loopS (if_owner u task_rollback) is)"
    unfolding loopS_def by (intro keeps_bindS keeps_mapS keeps_returnS own ex ro)+
qed

lemma allowed_after:
  "cm_allowPainters (snd (setAllowPainterToDraw u b s)) = (if b then insert u (cm_allowPainters s) else cm_allowPainters s - {u})"
  using keepsD [OF loops_allow(1)] keepsD [OF loops_allow(2)]
  by (auto simp: setAllowPainterToDraw_def isAllowPainterToDraw_def)

lemma allow_on_manager:
  assumes "pm_mainThread p" "pm_setAllowPainterToDraw e u b p = (r, p')"
  shows "pm_mainThread p'" "pm_users p' = pm_users p" "pm_joinerHistory p' = pm_joinerHistory p"
    "cm_allowPainters (pm_cmd p') = (if b then insert u (cm_allowPainters (pm_cmd p)) else cm_allowPainters (pm_cmd p) - {u})"
proof -
  obtain r0 c where c: "setAllowPainterToDraw u b ((pm_cmd p)\<lparr>cm_events := []\<rparr>) = (r0, c)" by fastforce
  have "on_cmd e (setAllowPainterToDraw u b) p = (r, p')" using assms(2) by (simp add: pm_setAllowPainterToDraw_def)
  from on_cmd_carried(1) [OF assms(1) c this] have out: "carried_out (cm_events c) (p\<lparr>pm_cmd := c\<lparr>cm_events := []\<rparr>\<rparr>) p'" .
  have "cm_allowPainters c = (if b then insert u (cm_allowPainters (pm_cmd p)) else cm_allowPainters (pm_cmd p) - {u})"
    using allowed_after [of u b "(pm_cmd p)\<lparr>cm_events := []\<rparr>"] by (simp add: c)
  with out assms(1) show "pm_mainThread p'" "pm_users p' = pm_users p" "pm_joinerHistory p' = pm_joinerHistory p"
    "cm_allowPainters (pm_cmd p') = (if b then insert u (cm_allowPainters (pm_cmd p)) else cm_allowPainters (pm_cmd p) - {u})"
    by (auto simp: carried_out_def steady_def)
qed

text \<open>The history of users holds no id twice, and the ids pass through the strings of the list.\<close>

definition rows_fit :: "settings_env \<Rightarrow> paint_manager \<Rightarrow> bool" where
  "rows_fit S p \<longleftrightarrow> pm_mainThread p \<and> distinct (map (\<lambda>u. id_of u p) (pm_joinerHistory p))
     \<and> (\<forall>u\<in>set (pm_joinerHistory p). se_toStd S (se_fromAscii S (id_of u p)) = id_of u p)"

definition may_draw :: "paint_manager \<Rightarrow> bytes set" where
  "may_draw p = cm_allowPainters (pm_cmd p)"

lemma click_row_shows:
  assumes "rows_fit S p" "rows = showEvent_painters S p" "click_row S e (n, marked) (rows, p) = (r, (rows', p'))"
  shows "rows_fit S p'" and "rows' = showEvent_painters S p'" and "pm_joinerHistory p' = pm_joinerHistory p"
    and "pm_users p' = pm_users p"
    and "may_draw p' = (if n < length rows \<and> marked
      then (let u = id_of (pm_joinerHistory p ! n) p in if u \<in> may_draw p then may_draw p - {u} else insert u (may_draw p))
      else may_draw p)"
proof -
  let ?us = "pm_joinerHistory p"
  have "rows_fit S p' \<and> rows' = showEvent_painters S p' \<and> pm_joinerHistory p' = ?us \<and> pm_users p' = pm_users p
    \<and> may_draw p' = (if n < length rows \<and> marked
      then (let u = id_of (?us ! n) p in if u \<in> may_draw p then may_draw p - {u} else insert u (may_draw p)) else may_draw p)"
  proof (cases "n < length rows")
    case False
    then have "rows' = rows" "p' = p" using assms(3) by (simp_all add: click_row_def)
    then show ?thesis using False assms(1,2) by simp
  next
    case True
    then have n: "n < length ?us" by (simp add: assms(2) showEvent_painters_def)
    let ?u = "id_of (?us ! n) p"
    let ?b = "if marked then ?u \<notin> may_draw p else ?u \<in> may_draw p"
    have id_back: "se_toStd S (se_fromAscii S ?u) = ?u" using assms(1) n by (simp add: rows_fit_def)
    have row: "rows ! n = \<lparr>pr_nick = q_fromUtf8 (se_qt S) (u_nickName (user_data (user (?us ! n) p))), pr_checked = ?u \<in> may_draw p,
        pr_id = se_fromAscii S ?u\<rparr>"
      using n by (simp add: assms(2) showEvent_painters_def isAllowPainterToDraw_def may_draw_def)
    have click: "pm_setAllowPainterToDraw e ?u ?b p = (r, p')" and rows': "rows' = rows[n := (rows ! n)\<lparr>pr_checked := ?b\<rparr>]"
      using assms(3) True by (auto simp: click_row_def Let_def listItemClicked_def row id_back split: prod.splits if_splits)
    note after = allow_on_manager [OF _ click]
    have main: "pm_mainThread p" using assms(1) by (simp add: rows_fit_def)
    have same: "id_of u p' = id_of u p" "user u p' = user u p" for u
      using after(2) [OF main] by (simp_all add: id_of_def user_def)
    have draw: "may_draw p' = (if ?b then insert ?u (may_draw p) else may_draw p - {?u})"
      using after(4) [OF main] by (simp add: may_draw_def)
    have "rows' = showEvent_painters S p'"
    proof (rule nth_equalityI)
      show "length rows' = length (showEvent_painters S p')"
        by (simp add: rows' assms(2) showEvent_painters_def after(3) [OF main])
      fix k assume "k < length rows'"
      then have k: "k < length ?us" by (simp add: rows' assms(2) showEvent_painters_def)
      have "id_of (?us ! k) p = ?u \<longleftrightarrow> k = n"
        using assms(1) k n nth_eq_iff_index_eq [of "map (\<lambda>u. id_of u p) ?us" k n] by (auto simp: rows_fit_def)
      then show "rows' ! k = showEvent_painters S p' ! k"
        using k n draw row
        by (cases "k = n") (auto simp: rows' assms(2) showEvent_painters_def after(3) [OF main] same isAllowPainterToDraw_def may_draw_def)
    qed
    moreover have "rows_fit S p'" using assms(1) after(1,3) [OF main] by (simp add: rows_fit_def same)
    ultimately show ?thesis using True draw after(2,3) [OF main] by (auto simp: Let_def)
  qed
  then show "rows_fit S p'" "rows' = showEvent_painters S p'" "pm_joinerHistory p' = pm_joinerHistory p" "pm_users p' = pm_users p"
    "may_draw p' = (if n < length rows \<and> marked
      then (let u = id_of (pm_joinerHistory p ! n) p in if u \<in> may_draw p then may_draw p - {u} else insert u (may_draw p))
      else may_draw p)" by blast+
qed

text \<open>What the clicks on marks make of the set of those who may draw.\<close>

fun toggled :: "bytes list \<Rightarrow> (nat \<times> bool) list \<Rightarrow> bytes set \<Rightarrow> bytes set" where
  "toggled us [] A = A"
| "toggled us ((n, marked) # ks) A = toggled us ks
     (if n < length us \<and> marked then (if us ! n \<in> A then A - {us ! n} else insert (us ! n) A) else A)"

lemma clicks_show:
  "rows_fit S p \<Longrightarrow> mapS (click_row S e) clicks (showEvent_painters S p, p) = (Inr us, (rows', p')) \<Longrightarrow>
   rows' = showEvent_painters S p' \<and> pm_joinerHistory p' = pm_joinerHistory p
     \<and> may_draw p' = toggled (map (\<lambda>u. id_of u p) (pm_joinerHistory p)) clicks (may_draw p)"
proof (induction clicks arbitrary: p us)
  case (Cons click clicks)
  obtain n marked where c: "click = (n, marked)" by fastforce
  obtain r rows1 p1 where step: "click_row S e (n, marked) (showEvent_painters S p, p) = (r, (rows1, p1))" by (metis prod.collapse)
  note one = click_row_shows [OF Cons.prems(1) refl step]
  obtain us' where rest: "mapS (click_row S e) clicks (showEvent_painters S p1, p1) = (Inr us', (rows', p'))"
    using Cons.prems(2) by (auto simp: c bindS_def step one(2) split: sum.splits prod.splits)
  from Cons.IH [OF one(1) rest] one(3,4,5) show ?case
    by (simp add: c id_of_def user_def showEvent_painters_def Let_def)
qed simp

text \<open>C33: The list of painters shows who may draw.  After any clicks in it, on marks or elsewhere, its rows
  are those it would have if it were opened again, and just the painters whose mark was clicked an odd
  number of times have changed: those who could draw cannot, and the other way round.  The painters
  themselves stay.\<close>

theorem painter_list_shows_who_may_draw:
  assumes "rows_fit S p" and "click_rows S e clicks (showEvent_painters S p, p) = (Inr (), (rows', p'))"
  shows "rows' = showEvent_painters S p' \<and> pm_joinerHistory p' = pm_joinerHistory p
    \<and> may_draw p' = toggled (map (\<lambda>u. id_of u p) (pm_joinerHistory p)) clicks (may_draw p)"
proof -
  obtain us where "mapS (click_row S e) clicks (showEvent_painters S p, p) = (Inr us, (rows', p'))"
    using assms(2) by (auto simp: click_rows_def bindS_def split: prod.splits sum.splits)
  with assms(1) show ?thesis by (rule clicks_show)
qed

lemma sample_ban_accepted:
  obtains p where "pm_setAllowPainterToDraw ManagerRun.sample_env [7] False sample_drawing = (Inr (), p)"
proof -
  let ?c = "sample_mngr\<lparr>cm_events := []\<rparr>" and ?t = "sample_mngr\<lparr>cm_events := [], cm_allowPainters := {}\<rparr>"
  have "all_sendable ?t" "cm_currentPlayPos ?t = 1" "length (cm_historyTaskList ?t) = 2"
    using sample_mngr_facts by (simp_all add: all_sendable_def historyTaskCount_def)
  then obtain s' where "loopS (if_owner [7] task_rollback) (rev [0..1]) ?t = (Inr (), s')"
    using owner_interval(2) [OF acts_rollback, of 1 ?t "[7]"] by auto
  then have "setAllowPainterToDraw [7] False ((pm_cmd sample_drawing)\<lparr>cm_events := []\<rparr>) = (Inr (), s')"
    using sample_mngr_facts(1) by (simp add: setAllowPainterToDraw_def isAllowPainterToDraw_def sample_allowed)
  from on_cmd_offline [where m = "setAllowPainterToDraw [7] False", OF sample_placing_simps(7,9) this] that show thesis
    unfolding pm_setAllowPainterToDraw_def by blast
qed

lemma painter_list_shows_who_may_draw_witness:
  "\<exists>rows p. click_rows sample_settings_env ManagerRun.sample_env [(0, True), (5, True)]
      (showEvent_painters sample_settings_env sample_drawing, sample_drawing) = (Inr (), (rows, p))
    \<and> map pr_checked rows = [False] \<and> may_draw p = {}"
proof -
  obtain p where p: "pm_setAllowPainterToDraw ManagerRun.sample_env [7] False sample_drawing = (Inr (), p)" by (rule sample_ban_accepted)
  have row: "showEvent_painters sample_settings_env sample_drawing = [\<lparr>pr_nick = [], pr_checked = True, pr_id = [7]\<rparr>]"
    by (simp add: showEvent_painters_def sample_settings_env_def sample_qt_def isAllowPainterToDraw_def sample_allowed id_of_def
        CPaintUser_myself_def new_user_info_def)
  let ?rows = "[\<lparr>pr_nick = [], pr_checked = False, pr_id = [7]\<rparr>] :: painter_row list"
  have clicks: "click_rows sample_settings_env ManagerRun.sample_env [(0, True), (5, True)]
      (showEvent_painters sample_settings_env sample_drawing, sample_drawing) = (Inr (), (?rows, p))"
    unfolding row by (simp add: click_rows_def bindS_def click_row_def listItemClicked_def p sample_settings_env_def)
  have "rows_fit sample_settings_env sample_drawing"
    by (simp add: rows_fit_def sample_settings_env_def id_of_def CPaintUser_myself_def new_user_info_def)
  from painter_list_shows_who_may_draw [OF this clicks] have "may_draw p = {}"
    by (simp add: may_draw_def sample_allowed id_of_def CPaintUser_myself_def new_user_info_def)
  with clicks show ?thesis by (intro exI [of _ ?rows] exI [of _ p]) simp
qed

text \<open>
  Clearing the screen empties the list, but not the set behind it: a painter who could not draw still
  cannot, and has no row any more.
\<close>

lemma cleared_list_keeps_bans:
  assumes "clearAllItems p = (Inr (), p')"
  shows "may_draw p' = may_draw p" and "set (pm_joinerHistory p') \<subseteq> {u. mySelfFlag (user u p)}"
    and "length (showEvent_painters S p') = 1"
proof -
  have p: "p' = (notify Canvas_clearScreen (p\<lparr>pm_backgroundColor := WHITE, pm_backgroundImage := None\<rparr>))
      \<lparr>pm_cmd := cm_clear (pm_cmd p), pm_joinerHistory := filter (\<lambda>u. mySelfFlag (user u p)) (pm_joinerHistory p)\<rparr>"
    "length (pm_joinerHistory p') = 1"
    using assms by (auto simp: clearAllItems_def clearAllHistoryUsers_def thenS_def bindS_def updS_def assertS_def notify_def user_def
        split: if_splits)
  show "may_draw p' = may_draw p"
    by (simp add: p(1) may_draw_def cm_clear_def clearHistoryCommand_def clearHistoryTask_def clearHistoryItem_def)
  show "set (pm_joinerHistory p') \<subseteq> {u. mySelfFlag (user u p)}" by (auto simp: p(1))
  show "length (showEvent_painters S p') = 1" using p(2) by (simp add: showEvent_painters_def)
qed

section \<open>The window of an upgrade\<close>

text \<open>\<^verbatim>\<open>QString::replace\<close>: from left to right, without looking again at what was put in.\<close>

function qreplace :: "qstring \<Rightarrow> qstring \<Rightarrow> qstring \<Rightarrow> qstring" where
  "qreplace before after s =
     (if s = [] \<or> before = [] then s
      else if take (length before) s = before then after @ qreplace before after (drop (length before) s)
      else hd s # qreplace before after (tl s))"
  by pat_completeness auto
termination by (relation "measure (\<lambda>(b, a, s). length s)") auto

declare qreplace.simps [simp del]

definition html :: "window_env \<Rightarrow> string \<Rightarrow> qstring \<Rightarrow> qstring" where
  "html E cls t = qlit E (''<html><div class='' @ cls @ ''>'') @ t @ qlit E ''</div></html>''"

text \<open>The three blocks of the text, with the height of the gap after each of the first two.\<close>

definition setContents :: "window_env \<Rightarrow> qstring \<Rightarrow> qstring \<Rightarrow> (qstring \<times> nat) list" where
  "setContents E version patchContents =
     [(html E ''version'' (we_tr E ''Version : '' @ version), 10), (html E ''title'' (we_tr E ''[Update]''), 5),
      (html E ''contents'' (qreplace (qlit E [CHR 10]) (qlit E ''<br>'')
         (qreplace (qlit E [CHR 13, CHR 10]) (qlit E ''<br>'') patchContents)), 0)]"

datatype upgrade_answer = Answer_OK | Answer_Cancel | Answer_Closed

text \<open>\<^verbatim>\<open>onOK\<close>, \<^verbatim>\<open>onCancel\<close>, or the window is closed; a box tells how to upgrade later.\<close>

definition upgrade_answered :: "upgrade_answer \<Rightarrow> upgrade_manager \<Rightarrow> upgrade_manager \<times> bool" where
  "upgrade_answered a s = (case a of
       Answer_OK \<Rightarrow> (doUpgradeNow s, False)
     | Answer_Cancel \<Rightarrow> (stopVersionCheck s, True)
     | Answer_Closed \<Rightarrow> (s, False))"

definition onIUpgradeEvent_NewVersion :: "window_env \<Rightarrow> bytes \<Rightarrow> bytes \<Rightarrow> upgrade_answer \<Rightarrow> upgrade_manager
    \<Rightarrow> (qstring \<times> nat) list \<times> upgrade_manager \<times> bool" where
  "onIUpgradeEvent_NewVersion E version patch a s =
     (setContents E (se_fromAscii (we_se E) version) (q_fromUtf8 (en_qt (we_env E)) patch), upgrade_answered a s)"

lemma qreplace_one:
  "qreplace [c] after [] = []"
  "qreplace [c] after (x # xs) = (if x = c then after @ qreplace [c] after xs else x # qreplace [c] after xs)"
  by (simp_all add: qreplace.simps [of "[c]" after "[]"] qreplace.simps [of "[c]" after "x # xs"])

lemma replaced_is_gone: "c \<notin> set after \<Longrightarrow> c \<notin> set (qreplace [c] after s)"
  by (induction s) (simp_all add: qreplace_one)

text \<open>However the window is left, the user is not asked again and nothing is asked of the server.\<close>

lemma no_check_after_answer:
  assumes "um_state s = WaitConfirmFromUser" "um_downloaded s"
  shows "\<exists>s'. onTimer trim written (fst (upgrade_answered a s)) = Some s' \<and> um_state s' = um_state (fst (upgrade_answered a s))
    \<and> um_actions s' = um_actions (fst (upgrade_answered a s)) \<and> um_state s' \<in> {WaitConfirmFromUser, WaitForUnlimited}"
  using assms by (cases a) (simp_all add: upgrade_answered_def onTimer_def doJob_def doUpgradeNow_def stopVersionCheck_def upgrade_defs upgrade_states Let_def)

end
