(* ===== verification/Spec2Isabelle.thy ===== *)
theory Spec2Isabelle
  imports PacketBuffer CommandManager ServerRoom ServerProtocol UtilVersion UpgradeManager DefferedCaller NetSession
    PaintManager PaintActions PaintDispatch
    ManagerInvariant ManagerRun ManagerSending ManagerFaults ManagerLoading
    SceneMoves PlaybackSlider WindowNames WindowGrid
    WindowStream WindowLayout ChatView UpgraderMain NetServer
    WindowDialogs PainterFilter
    ItemPlacing WindowTools
begin

text \<open>
  SharedPainter is a shared drawing board: clients (\<^verbatim>\<open>src/SharedPainter\<close>) connect to each other or to
  a relay server (\<^verbatim>\<open>src/SharedPaintServer\<close>), and everybody who is connected sees the same drawing.
  This library models the logic between the sockets and the screen.

  \<^bold>\<open>How the program is put together.\<close>  A client keeps the drawing as a history of tasks
  (\<^verbatim>\<open>CSharedPaintCommandManager\<close>); the user's commands become tasks, a task is executed here and sent as
  a packet, and a packet that arrives is executed as a task there.  Between the two are the packet
  builders, the framing (\<^verbatim>\<open>CPacketSlicer\<close>), and the sessions over TCP and UDP.  The paint manager
  (\<^verbatim>\<open>CSharedPaintManager\<close>) owns all of it: the users, the sessions, the history, and the calls that the
  network threads defer to the main thread (\<^verbatim>\<open>CDefferedCaller\<close>).  The server keeps rooms of users and
  passes packets on inside a room.

  \<^bold>\<open>The theories\<close>, in the order in which they build on each other.

  \<^item> \<open>Prelude\<close>: bytes, results (\<open>perror + 'a\<close>: a \<^verbatim>\<open>CPacketException\<close>, \<^verbatim>\<open>std::out_of_range\<close>, a failed
    assertion, or \<open>BufferOverread\<close> for undefined behaviour such as reading outside a buffer or using a
    deleted object), and methods (\<open>('s, 'a) meth\<close>: the object's state before to a result and the
    state after).  \<open>StdMap\<close>: \<^verbatim>\<open>std::map\<close> as a list of entries in key order.
  \<^item> \<open>BufferUtil\<close> (\<^verbatim>\<open>CPacketBufferUtil\<close> of \<^verbatim>\<open>PacketBuffer.h\<close>) and \<open>PacketBuffer\<close> (\<^verbatim>\<open>CPacketBuffer\<close>): the
    fields of a packet.  The locales \<open>field_codec\<close>, \<open>string_codec\<close>, \<open>length_prefixed\<close> and \<open>object_codec\<close>
    say what a writer and a reader promise each other; they are interpreted on every field type.
  \<^item> \<open>PacketSlicer\<close> (\<^verbatim>\<open>PacketSlicer.h\<close>, \<^verbatim>\<open>CommonPacketBuilder.h\<close>, \<^verbatim>\<open>PacketCodeDefine.h\<close>): \<^verbatim>\<open>makePacket\<close> and
    the state machine that cuts a stream into packets.
  \<^item> \<open>PaintUser\<close>, \<open>PaintItem\<close>, \<open>PaintTask\<close>: the objects that travel, of client and server.
    \<open>PacketBuilders\<close>: every message class of \<^verbatim>\<open>SystemPacketBuilder.h\<close>, \<^verbatim>\<open>PaintPacketBuilder.h\<close>,
    \<^verbatim>\<open>WindowPacketBuilder.h\<close>, \<^verbatim>\<open>ScreenSharePacketBuilder.h\<close>, \<^verbatim>\<open>BroadCastPacketBuilder.h\<close> and
    \<^verbatim>\<open>UdpPacketBuilder.h\<close>; the locale \<open>message\<close> is interpreted on them.
  \<^item> \<open>CommandManager\<close> (\<^verbatim>\<open>SharedPaintCommandManager\<close>, \<^verbatim>\<open>SharedPaintCommand\<close>, \<^verbatim>\<open>SharedPaintTask.cpp\<close>): the
    history, its playback, undo and redo.  The observers' screen is the list of the calls they get.
    \<open>PainterFilter\<close>: painters that may not draw; a task acts at one item (the locale \<open>at_one_item\<close>).
  \<^item> \<open>ServerRoom\<close> (\<^verbatim>\<open>SharedPaintRoom\<close>, and \<^verbatim>\<open>SharedPaintManager\<close>, \<^verbatim>\<open>SharedPaintClient\<close> of the server): rooms,
    relaying, the super peer.  \<open>ServerProtocol\<close> (\<^verbatim>\<open>SharedPaintProtocol\<close>): how the server takes a packet
    from a connection; the read buffer of the network library is the record \<open>read_buffer\<close>, and
    \<open>transports\<close> says what is assumed of it.
  \<^item> \<open>NetSession\<close> (\<^verbatim>\<open>NetPeerSession.h\<close>, \<^verbatim>\<open>NetUdpSession.h\<close>, \<^verbatim>\<open>NetBroadCastSession.h\<close>), \<open>DefferedCaller\<close>,
    \<open>UtilVersion\<close> (\<^verbatim>\<open>Util.h\<close>) and \<open>UpgradeManager\<close>.
  \<^item> \<open>PaintManager\<close> (state, observers, users, sending, the end of a session), \<open>PaintActions\<close> (what the
    window and the sessions ask for), \<open>PaintDispatch\<close> (received packets): \<^verbatim>\<open>SharedPaintManager.h\<close> and
    \<^verbatim>\<open>.cpp\<close>, \<^verbatim>\<open>PaintSession.h\<close>.
  \<^item> \<open>ManagerInvariant\<close> and \<open>ManagerRun\<close>: a locale of what a predicate has to be kept by, every
    operation under it, the interpretations on the tables of users and sessions, and the reachable
    states; \<open>ManagerSending\<close>, \<open>ManagerFaults\<close>, \<open>ManagerDrawing\<close> and \<open>ManagerLoading\<close>: whom a packet is
    sent to, what goes wrong, and the round trip of a whole drawing.
  \<^item> \<open>Scene\<close> (\<^verbatim>\<open>SharedPainterScene\<close>): the canvas, on which strokes are drawn and items are dragged.  What it
    asks of Qt is a list of calls, what Qt answers is in the record \<open>scene_env\<close>.  \<open>SceneStroke\<close>,
    \<open>SceneKeeps\<close>, \<open>SceneWindow\<close> and \<open>SceneMoves\<close>: what it reports to the main window, a locale of what
    every operation keeps, the reachable states, and which moves are reported.
  \<^item> \<open>PlaybackSlider\<close> (\<^verbatim>\<open>SharedPainter.cpp\<close>, \<^verbatim>\<open>.h\<close>): the slider of the main window, which plays the history back,
    with the history, the canvas and the flags that say whether the user may draw.
  \<^item> \<open>Settings\<close> (\<^verbatim>\<open>SettingManager\<close>, \<^verbatim>\<open>PreferencesDialog\<close>) and \<open>MainWindow\<close> (\<^verbatim>\<open>SharedPainter\<close>): nick name and
    channel, connecting, importing and exporting files, starting and closing, on top of the paint manager;
    a dialog takes the next of a list of answers.  \<open>WindowFiles\<close>, \<open>WindowNames\<close> and \<open>WindowGrid\<close> (the grid,
    which the window, the canvas and the manager each keep): their properties.
  \<^item> \<open>ScreenRecoder\<close> (\<^verbatim>\<open>ScreenRecoder\<close>): recording, sending and playing the screen; what the library VLC is asked
    is a list of calls.  \<open>WindowStream\<close>: the actions of the window and the reports of the manager that use it.
    \<open>WindowLayout\<close>: the sizes of window, splitter and canvas and the scroll position, which are shared; Qt's
    layout is the record \<open>layout_env\<close>.  \<open>ChatView\<close>: the blocks of text that the chat appends.
    \<open>WindowDialogs\<close> (\<^verbatim>\<open>FindingServerDialog\<close>, \<^verbatim>\<open>SyncDataProgressDialog\<close>): the two windows that run an event loop
    of their own; the loops that run are a stack.
    \<open>ItemPlacing\<close> (\<^verbatim>\<open>TextItemDialog\<close>, \<^verbatim>\<open>calculateNewItemPos\<close> of \<^verbatim>\<open>Util.cpp\<close>): where a new text or a pasted
    picture is put, and the side on which an item lies beyond the view.  \<open>WindowTools\<close> (\<^verbatim>\<open>PainterListWindow\<close>,
    \<^verbatim>\<open>JoinerListWindow\<close>, \<^verbatim>\<open>UpgradeWindow\<close>): the pen, the screen shot, the background, the list of painters.
  \<^item> \<open>NetServer\<close> (\<^verbatim>\<open>NetPeerServer.h\<close>, \<^verbatim>\<open>NetServiceRunner.h\<close>): the acceptor and the thread of the sockets.
    \<open>UpgraderMain\<close> (\<^verbatim>\<open>src/Upgrader/main.cpp\<close>): the program that installs a patch; the zip library is a parameter.

  \<^bold>\<open>Correspondence.\<close>  Names are the source's; a prefix tells apart methods of the same name (\<open>pb_\<close> of
  the buffer, \<open>ps_\<close>, \<open>us_\<close>, \<open>bc_\<close> of the sessions, \<open>pm_\<close> of the paint manager and its fields, \<open>srv_\<close> of
  the server's builders).  Integers of a fixed width are words; \<^verbatim>\<open>double\<close> is its 64 bits.  Pointers to
  users and items are keys into the state (\<open>user_ptr\<close>, \<open>item_ptr\<close>); sessions are numbers, and a number
  without an object is a dangling pointer.  The record \<open>env\<close> holds what comes from outside: addresses,
  the resolver, the clock, which ports can be bound, Qt's conversions, the order of pointers in a set,
  and members the constructors do not initialise.  Calls to the observers are recorded in order
  (\<open>pm_trace\<close>, \<open>cm_events\<close>).  \<open>pm_mainThread\<close> says on which thread a method runs, since
  \<^verbatim>\<open>performMainThread\<close> defers a call on every other thread; deferred calls are in \<open>pm_queue\<close>.

  \<^bold>\<open>Loops and fuel.\<close>  Loops over lists are structural recursion.  The slicer's loop and the tokenizer
  are functions with a termination proof.  Three loops may not end and have an optional result, \<open>None\<close>
  if they do not: the search for a free file name, the search for a free UDP port, and what calls them.

  \<^bold>\<open>What the lemmas show.\<close>  Framing: whatever the pieces a stream arrives in, the packets come out
  whole, in order, and nothing is read outside the buffer; what garbage and empty ids do.  Round
  trips: users, items, tasks, messages, whole drawings.  History: the position and the tables of items
  stay sound, ids are fresh, playback shows exactly the tasks up to the position,
  of the painters that may draw.  Server: who gets a
  relayed packet, that the role of super peer is passed on, that no packet makes it fail.  Client: the
  tables of users and sessions stay sound in every reachable state, files that are received do not
  overwrite others, a drawing survives closing and starting the program, the slider shows where the
  history is played, packets go to one side, the count of bytes sent is exact, the order of deferred calls.
  The recorder does one thing at a time; the geometry that is received is not sent back; the chat names
  the writer of each message; an upgrade never loses the new program.
  Errors: what the code gets wrong is stated as what it does.

  \<^bold>\<open>Not modelled.\<close>  The menus, the labels of the status bar and the tray icon of the main window
  (Qt), painting of items, copying to the clipboard, the vendored ffmpeg wrapper and zip code, and
  start-up code: they only call libraries.  Boost.Asio and Coconut are the events of the sessions: a
  completion handler is a step.  A handler holds the manager's lock or runs alone, so it is one step;
  races inside a handler are not modelled.
\<close>

end
